(* ===== verification/Linx_Prelude.thy ===== *)
theory Linx_Prelude
  imports Main "HOL-Library.Word" "HOL-Library.Sublist"
begin

text \<open>
  Shared vocabulary of the development: the faults a C function can run into, return
  codes, NUL-terminated strings and the parts of the C library the sources use
  (\<^verbatim>\<open>strncmp\<close>, \<^verbatim>\<open>strstr\<close>, \<^verbatim>\<open>strtok\<close>, \<^verbatim>\<open>strtol\<close>, \<^verbatim>\<open>tolower\<close>), the generic lemmas on
  lists and maps that several components need, and the interface of a FIFO queue.

  Conventions. A C string is the list of its characters without the terminating NUL.
  A C \<^verbatim>\<open>int\<close> return code is an \<^typ>\<open>int\<close>. A pointer that may be NULL is an option.
  Undefined behaviour that the code can reach is a value of type \<^verbatim>\<open>fault\<close>, never an
  unspecified HOL value. The outcome of an allocation or of a call into the operating
  system is an argument of the operation, so that both outcomes are branches of the model.
\<close>

named_theorems linx_inv \<open>introduction rules for the components' invariants\<close>
named_theorems linx_defs \<open>unfolding rules of the components' straight-line operations\<close>

section \<open>Faults and results\<close>

datatype fault =
    NullDeref
  | UninitRead
  | UseAfterFree
  | WildCall
  | OutOfBounds
  | TypePun
  | Unterminated
  | BadFree

type_synonym 'a res = "fault + 'a"

fun res_bind :: "'a res \<Rightarrow> ('a \<Rightarrow> 'b res) \<Rightarrow> 'b res" where
  "res_bind (Inl f) k = Inl f"
| "res_bind (Inr v) k = k v"

lemma res_bind_Inr_iff [simp]:
  "res_bind r k = Inr v \<longleftrightarrow> (\<exists>x. r = Inr x \<and> k x = Inr v)"
  by (cases r) auto

lemma res_bind_Inl_iff:
  "res_bind r k = Inl f \<longleftrightarrow> r = Inl f \<or> (\<exists>x. r = Inr x \<and> k x = Inl f)"
  by (cases r) auto

lemma map_sum_Inr_iff [simp]: "map_sum f g r = Inr y \<longleftrightarrow> (\<exists>x. r = Inr x \<and> y = g x)"
  by (cases r) auto

lemma map_sum_Inl_iff [simp]: "map_sum f g r = Inl y \<longleftrightarrow> (\<exists>x. r = Inl x \<and> y = f x)"
  by (cases r) auto

section \<open>Lists and maps\<close>

lemma last_snoc_if [simp]: "(if q @ [a] = [] then x else Some (last (q @ [a]))) = Some a"
  by simp

lemma nth_update_cases:
  "i < length xs \<Longrightarrow> j < length xs \<Longrightarrow> xs[i := v] ! j = (if i = j then v else xs ! j)"
  by (simp add: nth_list_update)

lemma filter_update_length:
  assumes "i < length xs"
  shows "int (length (filter P (xs[i := v]))) =
    int (length (filter P xs)) - of_bool (P (xs ! i)) + of_bool (P v)"
  using assms
proof (induction xs arbitrary: i)
  case Nil
  then show ?case by simp
next
  case (Cons x xs)
  then show ?case by (cases i) auto
qed

section \<open>The parts of the C library that the sources use\<close>

definition is_digit :: "char \<Rightarrow> bool" where
  "is_digit c \<longleftrightarrow> 48 \<le> (of_char c :: nat) \<and> (of_char c :: nat) \<le> 57"

definition is_space :: "char \<Rightarrow> bool" where
  "is_space c \<longleftrightarrow> (of_char c :: nat) = 32 \<or> (9 \<le> (of_char c :: nat) \<and> (of_char c :: nat) \<le> 13)"

definition c_tolower :: "char \<Rightarrow> char" where
  "c_tolower c = (if 65 \<le> (of_char c :: nat) \<and> (of_char c :: nat) \<le> 90
     then char_of ((of_char c :: nat) + 32) else c)"

fun digits_val :: "int \<Rightarrow> string \<Rightarrow> int" where
  "digits_val acc [] = acc"
| "digits_val acc (c # cs) = digits_val (acc * 10 + (of_char c - 48)) cs"

definition LONG_MAX :: int where "LONG_MAX = 9223372036854775807"
definition LONG_MIN :: int where "LONG_MIN = - 9223372036854775808"

fun strtol_sign :: "string \<Rightarrow> int \<times> string" where
  "strtol_sign [] = (1, [])"
| "strtol_sign (c # cs) =
     (if c = CHR ''-'' then (- 1, cs) else if c = CHR ''+'' then (1, cs) else (1, c # cs))"

text \<open>\<open>strtol s\<close> is the pair of the value in base 10 and the rest of the string at \<^verbatim>\<open>endptr\<close>.\<close>

definition strtol :: "string \<Rightarrow> int \<times> string" where
  "strtol s =
    (let (sg, s2) = strtol_sign (dropWhile is_space s);
         ds = takeWhile is_digit s2
     in if ds = [] then (0, s)
        else (max LONG_MIN (min LONG_MAX (sg * digits_val 0 ds)), dropWhile is_digit s2))"

text \<open>\<open>strtok d s\<close>: the next token of \<open>s\<close> and what is left of \<open>s\<close> for the following call.\<close>

definition strtok :: "char list \<Rightarrow> string \<Rightarrow> (string \<times> string) option" where
  "strtok d s =
    (let s1 = dropWhile (\<lambda>c. c \<in> set d) s
     in if s1 = [] then None
        else Some (takeWhile (\<lambda>c. c \<notin> set d) s1, drop 1 (dropWhile (\<lambda>c. c \<notin> set d) s1)))"

definition strncmp_eq :: "string \<Rightarrow> string \<Rightarrow> nat \<Rightarrow> bool" where
  "strncmp_eq a b n \<longleftrightarrow> take n a = take n b"

fun is_prefix :: "string \<Rightarrow> string \<Rightarrow> bool" where
  "is_prefix [] ys = True"
| "is_prefix (x # xs) [] = False"
| "is_prefix (x # xs) (y # ys) = (x = y \<and> is_prefix xs ys)"

fun strstr :: "string \<Rightarrow> string \<Rightarrow> bool" where
  "strstr [] n = (n = [])"
| "strstr (h # hs) n = (is_prefix n (h # hs) \<or> strstr hs n)"

lemma is_prefix_iff: "is_prefix xs ys \<longleftrightarrow> prefix xs ys"
  by (induction xs ys rule: is_prefix.induct) auto

lemma strstr_iff: "strstr h n \<longleftrightarrow> sublist n h"
  by (induction h n rule: strstr.induct) (auto simp: is_prefix_iff sublist_Cons_right)

lemma strtok_token:
  assumes "strtok d s = Some (tok, rest)"
  shows "tok \<noteq> []" and "set tok \<inter> set d = {}" and "length rest < length s"
proof -
  have "tok \<noteq> []" "set tok \<inter> set d = {}" "length rest \<le> length s - 1" "s \<noteq> []"
    using assms hd_dropWhile [of "\<lambda>c. c \<in> set d" s]
      length_dropWhile_le [of "\<lambda>c. c \<in> set d" s]
      length_dropWhile_le [of "\<lambda>c. c \<notin> set d" "dropWhile (\<lambda>c. c \<in> set d) s"]
    by (auto simp: strtok_def Let_def takeWhile_eq_Nil_iff split: if_splits dest: set_takeWhileD)
  then show "tok \<noteq> []" "set tok \<inter> set d = {}" "length rest < length s"
    by (auto simp: Suc_le_eq le_less_trans)
qed

lemma strtok_clean:
  assumes "tok \<noteq> []" "set tok \<inter> set d = {}" "x \<in> set d"
  shows "strtok d (tok @ x # rest) = Some (tok, rest)" and "strtok d tok = Some (tok, [])"
proof -
  have dw: "dropWhile (\<lambda>c. c \<in> set d) (tok @ ys) = tok @ ys" for ys
    using assms by (cases tok) auto
  have tw: "takeWhile (\<lambda>c. c \<notin> set d) tok = tok" "dropWhile (\<lambda>c. c \<notin> set d) tok = []"
    using assms by (auto simp: takeWhile_eq_all_conv dropWhile_eq_Nil_conv)
  have inr: "\<And>c. c \<in> set tok \<Longrightarrow> c \<notin> set d" using assms by auto
  show "strtok d (tok @ x # rest) = Some (tok, rest)"
    using dw [of "x # rest"] assms inr
    by (simp add: strtok_def Let_def takeWhile_append2 dropWhile_append2)
  show "strtok d tok = Some (tok, [])"
    using dw [of "[]"] assms(1) by (simp add: strtok_def Let_def tw del: dropWhile_eq_Nil_conv)
qed

text \<open>The conversion to a 32-bit \<^verbatim>\<open>int\<close>.\<close>

definition to_int :: "int \<Rightarrow> int" where
  "to_int v = sint (word_of_int v :: 32 word)"

text \<open>Decimal text of an integer, as \<^verbatim>\<open>printf\<close> writes it.\<close>

definition show_digit :: "nat \<Rightarrow> char" where
  "show_digit d = char_of (48 + d)"

fun show_nat :: "nat \<Rightarrow> string" where
  "show_nat n = (if n < 10 then [show_digit n] else show_nat (n div 10) @ [show_digit (n mod 10)])"

declare show_nat.simps [simp del]

definition show_int :: "int \<Rightarrow> string" where
  "show_int v = (if v < 0 then CHR ''-'' # show_nat (nat (- v)) else show_nat (nat v))"

lemma of_char_show_digit:
  assumes "d < 10"
  shows "(of_char (show_digit d) :: nat) = 48 + d" "(of_char (show_digit d) :: int) = 48 + int d"
proof -
  show n: "(of_char (show_digit d) :: nat) = 48 + d" using assms by (simp add: show_digit_def)
  show "(of_char (show_digit d) :: int) = 48 + int d"
    using arg_cong [OF n, of int] by (simp add: of_nat_of_char)
qed

lemma is_digit_show_digit: "d < 10 \<Longrightarrow> is_digit (show_digit d)"
  by (simp add: is_digit_def of_char_show_digit)

lemma show_nat_digits: "list_all is_digit (show_nat n) \<and> show_nat n \<noteq> []"
proof (induction n rule: show_nat.induct)
  case (1 n)
  then show ?case by (subst (1 2) show_nat.simps) (auto simp: is_digit_show_digit)
qed

lemma length_show_nat: "n < 10 ^ Suc k \<Longrightarrow> length (show_nat n) \<le> Suc k"
proof (induction k arbitrary: n)
  case 0
  then show ?case by (subst show_nat.simps) simp
next
  case (Suc k)
  then have "n div 10 < 10 ^ Suc k" by (simp add: less_mult_imp_div_less)
  with Suc.IH [of "n div 10"] show ?case by (subst show_nat.simps) simp
qed

lemma digits_val_append: "digits_val acc (xs @ [c]) = digits_val acc xs * 10 + (of_char c - 48)"
  by (induction xs arbitrary: acc) auto

lemma digits_val_show_nat: "digits_val 0 (show_nat n) = int n"
proof (induction n rule: show_nat.induct)
  case (1 n)
  show ?case
  proof (cases "n < 10")
    case True
    then show ?thesis by (subst show_nat.simps) (simp add: of_char_show_digit)
  next
    case False
    then have "digits_val 0 (show_nat n) = int (n div 10) * 10 + int (n mod 10)"
      using 1 by (subst show_nat.simps) (simp add: digits_val_append of_char_show_digit)
    then show ?thesis by (metis div_mult_mod_eq of_nat_add of_nat_mult of_nat_numeral)
  qed
qed

lemma is_digit_plain: "is_digit c \<Longrightarrow> \<not> is_space c \<and> c \<noteq> CHR ''-'' \<and> c \<noteq> CHR ''+''"
  by (auto simp: is_digit_def is_space_def)

lemma strtol_sign_digits: "list_all is_digit s \<Longrightarrow> s \<noteq> [] \<Longrightarrow> strtol_sign s = (1, s)"
  by (cases s) (use is_digit_plain in auto)

lemma takeWhile_digits: "list_all is_digit s \<Longrightarrow> takeWhile is_digit s = s \<and> dropWhile is_digit s = []"
  by (auto simp: list_all_iff takeWhile_eq_all_conv)

lemma dropWhile_space_digits: "list_all is_digit s \<Longrightarrow> dropWhile is_space s = s"
  by (cases s) (use is_digit_plain in auto)

lemma strtol_digits:
  assumes "strtol_sign (dropWhile is_space s) = (sg, ds)" "list_all is_digit ds" "ds \<noteq> []"
    and "LONG_MIN \<le> sg * digits_val 0 ds" "sg * digits_val 0 ds \<le> LONG_MAX"
  shows "strtol s = (sg * digits_val 0 ds, [])"
proof -
  have tw: "takeWhile is_digit ds = ds" "dropWhile is_digit ds = []"
    using takeWhile_digits [OF assms(2)] by simp_all
  show ?thesis unfolding strtol_def assms(1) Let_def prod.case tw
    using assms(3-5) by (simp add: max_absorb2 min_absorb2)
qed

lemma strtol_show_int:
  assumes "LONG_MIN \<le> v" "v \<le> LONG_MAX"
  shows "strtol (show_int v) = (v, [])"
proof (cases "v < 0")
  case True
  let ?d = "show_nat (nat (- v))"
  have d: "list_all is_digit ?d" "?d \<noteq> []" using show_nat_digits by auto
  have "strtol_sign (dropWhile is_space (show_int v)) = (- 1, ?d)"
    using True by (simp add: show_int_def is_space_def)
  from strtol_digits [OF this d] True assms show ?thesis by (simp add: digits_val_show_nat)
next
  case False
  let ?d = "show_nat (nat v)"
  have d: "list_all is_digit ?d" "?d \<noteq> []" using show_nat_digits by auto
  have "strtol_sign (dropWhile is_space (show_int v)) = (1, ?d)"
    using False d by (simp add: show_int_def dropWhile_space_digits strtol_sign_digits)
  from strtol_digits [OF this d] False assms show ?thesis by (simp add: digits_val_show_nat)
qed

section \<open>uthash tables\<close>

text \<open>
  A \<^verbatim>\<open>uthash\<close> table is a doubly linked list of items in insertion order with a hash index on
  it: \<^verbatim>\<open>HASH_FIND\<close> answers an item with the key, \<^verbatim>\<open>HASH_ADD\<close> appends without looking for
  duplicates, \<^verbatim>\<open>HASH_DEL\<close> unlinks an item and \<^verbatim>\<open>HASH_ITER\<close> visits the list in order.
\<close>

definition hash_find :: "('e \<Rightarrow> 'k) \<Rightarrow> 'k \<Rightarrow> 'e list \<Rightarrow> 'e option" where
  "hash_find key k xs = find (\<lambda>x. key x = k) xs"

definition hash_add :: "'e \<Rightarrow> 'e list \<Rightarrow> 'e list" where
  "hash_add x xs = xs @ [x]"

definition hash_del :: "('e \<Rightarrow> 'k) \<Rightarrow> 'k \<Rightarrow> 'e list \<Rightarrow> 'e list" where
  "hash_del key k xs = filter (\<lambda>x. key x \<noteq> k) xs"

definition hash_modify :: "('e \<Rightarrow> 'k) \<Rightarrow> 'k \<Rightarrow> ('e \<Rightarrow> 'e) \<Rightarrow> 'e list \<Rightarrow> 'e list" where
  "hash_modify key k f xs = map (\<lambda>x. if key x = k then f x else x) xs"

lemma hash_find_Nil [simp]: "hash_find key k [] = None"
  by (simp add: hash_find_def)

lemma hash_find_Cons [simp]:
  "hash_find key k (x # xs) = (if key x = k then Some x else hash_find key k xs)"
  by (simp add: hash_find_def)

lemma hash_find_None: "hash_find key k xs = None \<longleftrightarrow> k \<notin> key ` set xs"
  by (induction xs) auto

lemma hash_find_SomeD: "hash_find key k xs = Some x \<Longrightarrow> x \<in> set xs \<and> key x = k"
  by (induction xs) (auto split: if_splits)

lemma hash_find_member:
  "distinct (map key xs) \<Longrightarrow> x \<in> set xs \<Longrightarrow> hash_find key (key x) xs = Some x"
  by (induction xs) (auto simp: rev_image_eqI)

lemma hash_find_add [simp]:
  "hash_find key k (hash_add x xs) =
     (case hash_find key k xs of Some y \<Rightarrow> Some y | None \<Rightarrow> if key x = k then Some x else None)"
  by (induction xs) (auto simp: hash_add_def)

lemma hash_find_del [simp]:
  "hash_find key k (hash_del key j xs) = (if k = j then None else hash_find key k xs)"
  by (induction xs) (auto simp: hash_del_def)

lemma hash_find_modify [simp]:
  assumes "\<And>x. key (f x) = key x"
  shows "hash_find key k (hash_modify key j f xs) =
     (if k = j then map_option f (hash_find key k xs) else hash_find key k xs)"
  by (induction xs) (auto simp: hash_modify_def assms)

lemma hash_keys [simp]:
  "map key (hash_add x xs) = map key xs @ [key x]"
  "map key (hash_del key j xs) = filter (\<lambda>k. k \<noteq> j) (map key xs)"
  "(\<And>x. key (f x) = key x) \<Longrightarrow> map key (hash_modify key j f xs) = map key xs"
  by (auto simp: hash_add_def hash_del_def hash_modify_def filter_map o_def)

lemma hash_set [simp]:
  "set (hash_add x xs) = insert x (set xs)"
  "set (hash_del key j xs) = {x \<in> set xs. key x \<noteq> j}"
  by (auto simp: hash_add_def hash_del_def)

text \<open>
  What the clients of a keyed table rely on: an insertion under a fresh key succeeds, makes the
  element visible under its key and hides nothing else; an insertion under a known key is
  refused and changes nothing. \<open>insert r e s\<close> gets the outcome \<open>r\<close> of its allocation.
\<close>

locale keyed_table =
  fixes invar :: "'s \<Rightarrow> bool"
    and key :: "'e \<Rightarrow> 'k"
    and lookup :: "'k \<Rightarrow> 's \<Rightarrow> 'v option"
    and val :: "'e \<Rightarrow> 'v"
    and insert :: "bool \<Rightarrow> 'e \<Rightarrow> 's \<Rightarrow> int \<times> 's"
  assumes insert_fresh: "invar s \<Longrightarrow> lookup (key e) s = None \<Longrightarrow> insert True e s = (0, s') \<Longrightarrow>
            invar s' \<and> lookup k s' = (if k = key e then Some (val e) else lookup k s)"
    and insert_fresh_ok: "invar s \<Longrightarrow> lookup (key e) s = None \<Longrightarrow> fst (insert True e s) = 0"
    and insert_known: "invar s \<Longrightarrow> lookup (key e) s \<noteq> None \<Longrightarrow> insert r e s = (- 1, s)"
    and insert_nomem: "invar s \<Longrightarrow> insert False e s = (- 1, s)"
begin

fun insert_batch :: "'e list \<Rightarrow> 's \<Rightarrow> int \<times> 's" where
  "insert_batch [] s = (0, s)"
| "insert_batch (e # es) s =
     (let (ret, s') = insert True e s in if ret \<noteq> 0 then (ret, s') else insert_batch es s')"

lemma insert_fresh_step:
  assumes "invar s" "lookup (key e) s = None"
  obtains s' where "insert True e s = (0, s')" "invar s'"
    "\<And>k. lookup k s' = (if k = key e then Some (val e) else lookup k s)"
proof -
  obtain r s' where rs: "insert True e s = (r, s')" by fastforce
  with insert_fresh_ok [OF assms] have "r = 0" by simp
  with insert_fresh [OF assms] rs that show ?thesis by blast
qed

lemma insert_batch_lookup:
  assumes "invar s" "distinct (map key es)" "\<And>e. e \<in> set es \<Longrightarrow> lookup (key e) s = None"
  shows "\<exists>s'. insert_batch es s = (0, s') \<and> invar s' \<and>
    (\<forall>e \<in> set es. lookup (key e) s' = Some (val e)) \<and>
    (\<forall>k. k \<notin> key ` set es \<longrightarrow> lookup k s' = lookup k s)"
  using assms
proof (induction es arbitrary: s)
  case Nil
  then show ?case by simp
next
  case (Cons e es)
  from Cons.prems have "lookup (key e) s = None" by simp
  then obtain s1 where s1: "insert True e s = (0, s1)" "invar s1"
    "\<And>k. lookup k s1 = (if k = key e then Some (val e) else lookup k s)"
    using insert_fresh_step Cons.prems(1) by metis
  have "\<And>e'. e' \<in> set es \<Longrightarrow> lookup (key e') s1 = None"
    using Cons.prems s1(3) by (metis image_eqI list.set_intros(2) distinct.simps(2) list.map(2) list.set_map)
  then obtain s2 where s2: "insert_batch es s1 = (0, s2)" "invar s2"
    "\<forall>e \<in> set es. lookup (key e) s2 = Some (val e)"
    "\<forall>k. k \<notin> key ` set es \<longrightarrow> lookup k s2 = lookup k s1"
    using Cons.IH [of s1] s1 Cons.prems by auto
  have "lookup (key e) s2 = Some (val e)"
    using s2(4) s1(3) Cons.prems(2) by auto
  with s1 s2 show ?case by auto
qed

lemma insert_batch_duplicate:
  assumes "invar s" "lookup (key e) s \<noteq> None"
  shows "insert_batch (e # es) s = (- 1, s)"
  using insert_known [OF assms, of True] by simp

end

section \<open>A FIFO queue as an interface\<close>

text \<open>
  The thread pool and the logger each keep a queue of their own. Clients rely on the
  same three laws: adding appends, taking removes the oldest element, and both keep the
  representation invariant. \<open>room a s\<close> says that the resource \<open>a\<close> (a freshly allocated
  cell, the outcome of a reallocation) lets the addition go through.
\<close>

locale fifo_queue =
  fixes invar :: "'s \<Rightarrow> bool"
    and elems :: "'s \<Rightarrow> 'e list"
    and room :: "'r \<Rightarrow> 's \<Rightarrow> bool"
    and enq :: "'r \<Rightarrow> 'e \<Rightarrow> 's \<Rightarrow> 's"
    and deq :: "'s \<Rightarrow> ('e \<times> 's) option"
  assumes enq_invar: "invar s \<Longrightarrow> room r s \<Longrightarrow> invar (enq r e s)"
    and enq_elems: "invar s \<Longrightarrow> room r s \<Longrightarrow> elems (enq r e s) = elems s @ [e]"
    and deq_empty: "invar s \<Longrightarrow> elems s = [] \<Longrightarrow> deq s = None"
    and deq_some: "invar s \<Longrightarrow> elems s = e # es \<Longrightarrow>
          \<exists>s'. deq s = Some (e, s') \<and> invar s' \<and> elems s' = es"
begin

fun enq_all :: "('r \<times> 'e) list \<Rightarrow> 's \<Rightarrow> 's" where
  "enq_all [] s = s"
| "enq_all ((r, e) # xs) s = enq_all xs (enq r e s)"

fun room_all :: "('r \<times> 'e) list \<Rightarrow> 's \<Rightarrow> bool" where
  "room_all [] s = True"
| "room_all ((r, e) # xs) s = (room r s \<and> room_all xs (enq r e s))"

fun deq_n :: "nat \<Rightarrow> 's \<Rightarrow> ('e list \<times> 's) option" where
  "deq_n 0 s = Some ([], s)"
| "deq_n (Suc n) s =
     (case deq s of None \<Rightarrow> None
      | Some (e, s') \<Rightarrow> (case deq_n n s' of None \<Rightarrow> None
                        | Some (es, s'') \<Rightarrow> Some (e # es, s'')))"

lemma enq_all_elems:
  "invar s \<Longrightarrow> room_all xs s \<Longrightarrow>
   invar (enq_all xs s) \<and> elems (enq_all xs s) = elems s @ map snd xs"
  by (induction xs s rule: enq_all.induct) (auto simp: enq_invar enq_elems)

lemma deq_n_elems:
  "invar s \<Longrightarrow> n \<le> length (elems s) \<Longrightarrow>
   \<exists>s'. deq_n n s = Some (take n (elems s), s') \<and> invar s' \<and> elems s' = drop n (elems s)"
proof (induction n arbitrary: s)
  case 0
  then show ?case by simp
next
  case (Suc n)
  then obtain e es where es: "elems s = e # es" by (cases "elems s") auto
  with Suc.prems obtain s' where s': "deq s = Some (e, s')" "invar s'" "elems s' = es"
    using deq_some by blast
  with Suc.prems es Suc.IH [of s'] show ?case by auto
qed

lemma fifo_order:
  assumes "invar s" "elems s = []" "room_all xs s"
  shows "\<exists>s'. deq_n (length xs) (enq_all xs s) = Some (map snd xs, s') \<and> invar s' \<and>
              elems s' = [] \<and> deq s' = None"
  using deq_n_elems [of "enq_all xs s" "length xs"] enq_all_elems [of s xs] assms
  by (auto simp: deq_empty)

end

end
