(* ===== verification/Thread_Pool.thy ===== *)
theory Thread_Pool
  imports Linx_Prelude
begin

text \<open>
  The thread pool of \<^verbatim>\<open>userspace/linx_thread/linx_thread_pool.c\<close>. The pool structure is a
  record; its task queue is the linked list the code builds, kept in an explicit heap from
  addresses to tasks. Every critical section of the code is one definition, and the
  interleaving of workers, clients and the destroying thread is a sequence of such
  sections (\<open>pool_exec\<close>, \<open>pool_reachable\<close>).
\<close>

section \<open>Data\<close>

datatype linx_thread_state =
    LINX_THREAD_STATE_RUNNING
  | LINX_THREAD_STATE_PAUSED
  | LINX_THREAD_STATE_TERMINATING
  | LINX_THREAD_STATE_TERMINATED

record linx_thread_info =
  ti_thread_id :: nat
  ti_state :: linx_thread_state
  ti_index :: nat

record linx_task =
  tk_func :: nat
  tk_arg :: nat
  tk_should_stop :: int
  tk_next :: "nat option"

text \<open>
  \<open>task_runing\<close> is not written by \<^verbatim>\<open>linx_thread_pool_create\<close>: until the first task
  starts it holds whatever the allocator returned.
\<close>

datatype run_ptr = Indeterminate | RNull | RPtr nat

record linx_thread_pool =
  tp_threads :: "linx_thread_info list"
  tp_queue_head :: "nat option"
  tp_queue_tail :: "nat option"
  tp_task_runing :: run_ptr
  tp_thread_count :: int
  tp_active_threads :: int
  tp_queue_size :: int
  tp_shutdown :: int

type_synonym task_heap = "nat \<rightharpoonup> linx_task"

definition tk_job :: "linx_task \<Rightarrow> nat \<times> nat" where
  "tk_job t = (tk_func t, tk_arg t)"

section \<open>Creation\<close>

text \<open>
  What the platform answers during creation, and the objects a creation holds. A failed
  creation must give every object back.
\<close>

record create_env =
  env_nproc :: int
  env_malloc_pool :: bool
  env_malloc_threads :: bool
  env_mutex_lock :: bool
  env_cond_notify :: bool
  env_mutex_state :: "nat \<Rightarrow> bool"
  env_cond_pause :: "nat \<Rightarrow> bool"
  env_pthread_create :: "nat \<Rightarrow> bool"
  env_pthread_id :: "nat \<Rightarrow> nat"

datatype pool_resource =
    R_pool | R_threads | R_lock | R_notify
  | R_state_mutex nat | R_pause_cond nat | R_thread nat

definition normalise_num_threads :: "int \<Rightarrow> int \<Rightarrow> int" where
  "normalise_num_threads nproc num_threads =
     (if num_threads \<le> 0 then (if nproc \<le> 0 then 1 else nproc) else num_threads)"

fun destroy_thread_objs :: "nat \<Rightarrow> pool_resource list \<Rightarrow> pool_resource list" where
  "destroy_thread_objs 0 rs = rs"
| "destroy_thread_objs (Suc j) rs =
     removeAll (R_pause_cond j) (removeAll (R_state_mutex j) (destroy_thread_objs j rs))"

fun cancel_threads :: "nat \<Rightarrow> pool_resource list \<Rightarrow> pool_resource list" where
  "cancel_threads 0 rs = rs"
| "cancel_threads (Suc j) rs = removeAll (R_thread j) (cancel_threads j rs)"

definition free_pool_objs :: "pool_resource list \<Rightarrow> pool_resource list" where
  "free_pool_objs rs =
     removeAll R_pool (removeAll R_threads (removeAll R_notify (removeAll R_lock rs)))"

text \<open>The two loops over the threads, from index \<open>i\<close> with \<open>k\<close> threads to go.\<close>

fun init_threads_loop :: "create_env \<Rightarrow> nat \<Rightarrow> nat \<Rightarrow> pool_resource list \<Rightarrow>
    bool \<times> pool_resource list" where
  "init_threads_loop env i 0 rs = (True, rs)"
| "init_threads_loop env i (Suc k) rs =
     (if \<not> env_mutex_state env i
      then (False, free_pool_objs (destroy_thread_objs i rs))
      else let rs1 = R_state_mutex i # rs in
        if \<not> env_cond_pause env i
        then (False, free_pool_objs (destroy_thread_objs i (removeAll (R_state_mutex i) rs1)))
        else init_threads_loop env (Suc i) k (R_pause_cond i # rs1))"

fun start_threads_loop :: "create_env \<Rightarrow> nat \<Rightarrow> nat \<Rightarrow> nat \<Rightarrow> pool_resource list \<Rightarrow>
    bool \<times> pool_resource list" where
  "start_threads_loop env n i 0 rs = (True, rs)"
| "start_threads_loop env n i (Suc k) rs =
     (if \<not> env_pthread_create env i
      then (False, free_pool_objs (destroy_thread_objs n (cancel_threads i rs)))
      else start_threads_loop env n (Suc i) k (R_thread i # rs))"

definition new_pool :: "create_env \<Rightarrow> int \<Rightarrow> linx_thread_pool" where
  "new_pool env n = \<lparr>
     tp_threads = map (\<lambda>i. \<lparr>ti_thread_id = env_pthread_id env i,
                             ti_state = LINX_THREAD_STATE_RUNNING, ti_index = i\<rparr>) [0..<nat n],
     tp_queue_head = None, tp_queue_tail = None, tp_task_runing = Indeterminate,
     tp_thread_count = n, tp_active_threads = n, tp_queue_size = 0, tp_shutdown = 0\<rparr>"

definition linx_thread_pool_create ::
    "create_env \<Rightarrow> int \<Rightarrow> linx_thread_pool option \<times> pool_resource list" where
  "linx_thread_pool_create env num_threads =
     (let n = normalise_num_threads (env_nproc env) num_threads in
      if \<not> env_malloc_pool env then (None, [])
      else if \<not> env_malloc_threads env then (None, removeAll R_pool [R_pool])
      else if \<not> env_mutex_lock env
      then (None, removeAll R_pool (removeAll R_threads [R_threads, R_pool]))
      else if \<not> env_cond_notify env
      then (None, removeAll R_pool (removeAll R_threads (removeAll R_lock
                    [R_lock, R_threads, R_pool])))
      else (case init_threads_loop env 0 (nat n) [R_notify, R_lock, R_threads, R_pool] of
              (False, rs) \<Rightarrow> (None, rs)
            | (True, rs) \<Rightarrow>
                (case start_threads_loop env (nat n) 0 (nat n) rs of
                   (False, rs') \<Rightarrow> (None, rs')
                 | (True, rs') \<Rightarrow> (Some (new_pool env n), rs'))))"

section \<open>Client operations\<close>

text \<open>
  \<open>addr\<close> is the cell \<^verbatim>\<open>malloc\<close> returns (None on failure); \<open>lock_ok\<close> and \<open>signal_ok\<close> are
  the outcomes of \<^verbatim>\<open>pthread_mutex_lock\<close> and \<^verbatim>\<open>pthread_cond_signal\<close>.
\<close>

definition enqueue_task :: "nat \<Rightarrow> nat \<Rightarrow> nat \<Rightarrow> linx_thread_pool \<Rightarrow> task_heap \<Rightarrow>
    (linx_thread_pool \<times> task_heap) res" where
  "enqueue_task addr func arg p h =
     (let task = \<lparr>tk_func = func, tk_arg = arg, tk_should_stop = 0, tk_next = None\<rparr>;
          h1 = h(addr \<mapsto> task)
      in case tp_queue_head p of
           None \<Rightarrow>
             Inr (p\<lparr>tp_queue_head := Some addr, tp_queue_tail := Some addr,
                    tp_queue_size := tp_queue_size p + 1\<rparr>, h1)
         | Some _ \<Rightarrow>
             (case tp_queue_tail p of
                None \<Rightarrow> Inl NullDeref
              | Some t \<Rightarrow>
                  (case h1 t of
                     None \<Rightarrow> Inl UseAfterFree
                   | Some k \<Rightarrow>
                       Inr (p\<lparr>tp_queue_tail := Some addr, tp_queue_size := tp_queue_size p + 1\<rparr>,
                            h1(t \<mapsto> k\<lparr>tk_next := Some addr\<rparr>)))))"

definition linx_thread_pool_add_task :: "bool \<Rightarrow> nat option \<Rightarrow> bool \<Rightarrow> nat \<Rightarrow> nat \<Rightarrow>
    linx_thread_pool option \<Rightarrow> task_heap \<Rightarrow>
    (int \<times> linx_thread_pool option \<times> task_heap) res" where
  "linx_thread_pool_add_task lock_ok addr signal_ok func arg pool h =
     (case pool of None \<Rightarrow> Inr (-1, None, h)
      | Some p \<Rightarrow>
          if func = 0 then Inr (-1, Some p, h)
          else if \<not> lock_ok then Inr (-1, Some p, h)
          else if tp_shutdown p \<noteq> 0 then Inr (-1, Some p, h)
          else (case addr of None \<Rightarrow> Inr (-1, Some p, h)
                | Some a \<Rightarrow>
                    res_bind (enqueue_task a func arg p h)
                      (\<lambda>(p', h'). Inr (if signal_ok then 0 else -1, Some p', h'))))"

definition valid_index :: "linx_thread_pool \<Rightarrow> int \<Rightarrow> bool" where
  "valid_index p i \<longleftrightarrow> \<not> (i < 0 \<or> i \<ge> tp_thread_count p)"

definition set_thread_state :: "nat \<Rightarrow> linx_thread_state \<Rightarrow> linx_thread_pool \<Rightarrow>
    linx_thread_pool" where
  "set_thread_state i st p =
     p\<lparr>tp_threads := (tp_threads p)[i := (tp_threads p ! i)\<lparr>ti_state := st\<rparr>]\<rparr>"

definition thread_state :: "linx_thread_pool \<Rightarrow> nat \<Rightarrow> linx_thread_state" where
  "thread_state p i = ti_state (tp_threads p ! i)"

definition linx_thread_pool_pause_thread :: "linx_thread_pool option \<Rightarrow> int \<Rightarrow>
    int \<times> linx_thread_pool option" where
  "linx_thread_pool_pause_thread pool idx =
     (case pool of None \<Rightarrow> (-1, None)
      | Some p \<Rightarrow>
      if \<not> valid_index p idx then (-1, Some p)
      else if thread_state p (nat idx) = LINX_THREAD_STATE_RUNNING
      then (0, Some (set_thread_state (nat idx) LINX_THREAD_STATE_PAUSED p))
      else (0, Some p))"

definition linx_thread_pool_resume_thread :: "linx_thread_pool option \<Rightarrow> int \<Rightarrow>
    int \<times> linx_thread_pool option" where
  "linx_thread_pool_resume_thread pool idx =
     (case pool of None \<Rightarrow> (-1, None)
      | Some p \<Rightarrow>
      if \<not> valid_index p idx then (-1, Some p)
      else if thread_state p (nat idx) = LINX_THREAD_STATE_PAUSED
      then (0, Some (set_thread_state (nat idx) LINX_THREAD_STATE_RUNNING p))
      else (0, Some p))"

definition linx_thread_pool_terminate_thread :: "linx_thread_pool option \<Rightarrow> int \<Rightarrow>
    int \<times> linx_thread_pool option" where
  "linx_thread_pool_terminate_thread pool idx =
     (case pool of None \<Rightarrow> (-1, None)
      | Some p \<Rightarrow>
      if \<not> valid_index p idx then (-1, Some p)
      else if thread_state p (nat idx) = LINX_THREAD_STATE_RUNNING \<or>
              thread_state p (nat idx) = LINX_THREAD_STATE_PAUSED
      then (0, Some (set_thread_state (nat idx) LINX_THREAD_STATE_TERMINATING p))
      else (0, Some p))"

definition linx_thread_pool_get_thread_state :: "linx_thread_pool option \<Rightarrow> int \<Rightarrow>
    linx_thread_state option" where
  "linx_thread_pool_get_thread_state pool idx =
     (case pool of None \<Rightarrow> None
      | Some p \<Rightarrow> if \<not> valid_index p idx then None else Some (thread_state p (nat idx)))"

definition linx_thread_pool_get_queue_size :: "linx_thread_pool option \<Rightarrow> int" where
  "linx_thread_pool_get_queue_size pool =
     (case pool of None \<Rightarrow> -1 | Some p \<Rightarrow> tp_queue_size p)"

definition linx_thread_pool_get_active_threads :: "linx_thread_pool option \<Rightarrow> int" where
  "linx_thread_pool_get_active_threads pool =
     (case pool of None \<Rightarrow> -1 | Some p \<Rightarrow> tp_thread_count p)"

section \<open>Destruction\<close>

text \<open>
  The walk over the queue that hands the stop flag to every queued task, and the final
  walk that frees it. Neither loop has a bound in the code, so both are partial: \<open>None\<close>
  stands for a walk that does not return (a cyclic list) or leaves the heap.
\<close>

partial_function (option) mark_tasks :: "int \<Rightarrow> nat option \<Rightarrow> task_heap \<Rightarrow>
    task_heap option" where
  "mark_tasks v p h =
     (case p of None \<Rightarrow> Some h
      | Some a \<Rightarrow>
          (case h a of None \<Rightarrow> None
           | Some t \<Rightarrow> mark_tasks v (tk_next t) (h(a \<mapsto> t\<lparr>tk_should_stop := v\<rparr>))))"

partial_function (option) free_tasks :: "nat option \<Rightarrow> task_heap \<Rightarrow> task_heap option" where
  "free_tasks p h =
     (case p of None \<Rightarrow> Some h
      | Some a \<Rightarrow>
          (case h a of None \<Rightarrow> None
           | Some t \<Rightarrow> free_tasks (tk_next t) (h(a := None))))"

text \<open>The section under the pool lock: shutdown mode, stop flags, broadcast.\<close>

definition destroy_begin :: "bool \<Rightarrow> bool \<Rightarrow> int \<Rightarrow> linx_thread_pool option \<Rightarrow> task_heap \<Rightarrow>
    ((int \<times> linx_thread_pool option \<times> task_heap) res) option" where
  "destroy_begin lock_ok broadcast_ok graceful pool h =
     (case pool of None \<Rightarrow> Some (Inr (-1, None, h))
      | Some p \<Rightarrow>
        if \<not> lock_ok then Some (Inr (-1, Some p, h))
        else if tp_shutdown p \<noteq> 0 then Some (Inr (-1, Some p, h))
        else
          let v = (if graceful \<noteq> 0 then 1 else 2); p1 = p\<lparr>tp_shutdown := v\<rparr>;
              ret = (if broadcast_ok then 0 else -1) in
          (case mark_tasks v (tp_queue_head p1) h of
             None \<Rightarrow> None
           | Some h1 \<Rightarrow>
               (case tp_task_runing p1 of
                  RNull \<Rightarrow> Some (Inr (ret, Some p1, h1))
                | Indeterminate \<Rightarrow> Some (Inl UninitRead)
                | RPtr a \<Rightarrow>
                    (case h1 a of
                       None \<Rightarrow> Some (Inl UseAfterFree)
                     | Some t \<Rightarrow>
                         Some (Inr (ret, Some p1, h1(a \<mapsto> t\<lparr>tk_should_stop := v\<rparr>)))))))"

definition destroy_signal_thread :: "nat \<Rightarrow> linx_thread_pool \<Rightarrow> linx_thread_pool" where
  "destroy_signal_thread i p =
     (if thread_state p i \<noteq> LINX_THREAD_STATE_TERMINATED
      then set_thread_state i LINX_THREAD_STATE_TERMINATING p else p)"

definition destroy_release :: "linx_thread_pool \<Rightarrow> task_heap \<Rightarrow> task_heap option" where
  "destroy_release p h = free_tasks (tp_queue_head p) h"

section \<open>Worker\<close>

fun worker_find :: "nat \<Rightarrow> nat \<Rightarrow> linx_thread_info list \<Rightarrow> nat option" where
  "worker_find self i [] = None"
| "worker_find self i (t # ts) =
     (if self = ti_thread_id t then Some i else worker_find self (Suc i) ts)"

datatype pool_section =
    P_wait
  | P_break
  | P_continue
  | P_take nat linx_thread_pool

definition dequeue_head :: "nat \<Rightarrow> linx_task \<Rightarrow> linx_thread_pool \<Rightarrow> linx_thread_pool" where
  "dequeue_head a t p =
     p\<lparr>tp_queue_head := tk_next t,
       tp_queue_tail := (if tk_next t = None then None else tp_queue_tail p),
       tp_queue_size := tp_queue_size p - 1,
       tp_task_runing := RPtr a\<rparr>"

text \<open>
  The section of the worker loop under the pool lock: wait for work, leave on shutdown,
  otherwise unlink the head of the queue and publish it as the running task.
\<close>

definition worker_pool_section :: "linx_thread_pool \<Rightarrow> task_heap \<Rightarrow> pool_section res" where
  "worker_pool_section p h =
     (if tp_queue_size p = 0 \<and> tp_shutdown p = 0 then Inr P_wait
      else if tp_shutdown p = 2 \<or> (tp_shutdown p = 1 \<and> tp_queue_size p = 0) then Inr P_break
      else (case tp_queue_head p of
              None \<Rightarrow> Inr P_continue
            | Some a \<Rightarrow>
                (case h a of
                   None \<Rightarrow> Inl UseAfterFree
                 | Some t \<Rightarrow> Inr (P_take a (dequeue_head a t p)))))"

definition worker_finish :: "nat \<Rightarrow> linx_thread_pool \<Rightarrow> task_heap \<Rightarrow>
    linx_thread_pool \<times> task_heap" where
  "worker_finish a p h = (p\<lparr>tp_task_runing := RNull\<rparr>, h(a := None))"

text \<open>
  The program points of a worker between critical sections, and one section per step.
  \<open>None\<close> is a blocked worker (waiting on a condition variable, or finished).
\<close>

datatype worker_pc =
    W_Entry
  | W_Loop
  | W_Pool
  | W_Run nat
  | W_Exit
  | W_Term
  | W_Done

datatype destroy_pc = D_Idle | D_Signal nat | D_Join nat | D_Freed

record pool_sys =
  ps_pool :: linx_thread_pool
  ps_heap :: task_heap
  ps_pcs :: "worker_pc list"
  ps_dpc :: destroy_pc
  ps_fault :: "fault option"
  ps_submitted :: "(nat \<times> nat) list"
  ps_started :: "(nat \<times> nat) list"

definition set_pc :: "nat \<Rightarrow> worker_pc \<Rightarrow> pool_sys \<Rightarrow> pool_sys" where
  "set_pc i pc s = s\<lparr>ps_pcs := (ps_pcs s)[i := pc]\<rparr>"

definition linx_thread_worker :: "nat \<Rightarrow> pool_sys \<Rightarrow> pool_sys option" where
  "linx_thread_worker i s =
     (let p = ps_pool s; h = ps_heap s in
      case ps_pcs s ! i of
        W_Entry \<Rightarrow>
          (case worker_find (ti_thread_id (tp_threads p ! i)) 0 (tp_threads p) of
             None \<Rightarrow> Some (set_pc i W_Done s)
           | Some k \<Rightarrow>
               Some (set_pc i W_Loop
                 (s\<lparr>ps_pool := set_thread_state k LINX_THREAD_STATE_RUNNING p\<rparr>)))
      | W_Loop \<Rightarrow>
          (case thread_state p i of
             LINX_THREAD_STATE_PAUSED \<Rightarrow> None
           | LINX_THREAD_STATE_TERMINATING \<Rightarrow> Some (set_pc i W_Exit s)
           | _ \<Rightarrow> Some (set_pc i W_Pool s))
      | W_Pool \<Rightarrow>
          (case worker_pool_section p h of
             Inl f \<Rightarrow> Some (s\<lparr>ps_fault := Some f\<rparr>)
           | Inr P_wait \<Rightarrow> None
           | Inr P_break \<Rightarrow> Some (set_pc i W_Exit s)
           | Inr P_continue \<Rightarrow> Some (set_pc i W_Loop s)
           | Inr (P_take a p') \<Rightarrow>
               Some (set_pc i (W_Run a)
                 (s\<lparr>ps_pool := p',
                    ps_started := ps_started s @ [tk_job (the (h a))]\<rparr>)))
      | W_Run a \<Rightarrow>
          (case worker_finish a p h of (p', h') \<Rightarrow>
             Some (set_pc i W_Loop (s\<lparr>ps_pool := p', ps_heap := h'\<rparr>)))
      | W_Exit \<Rightarrow>
          Some (set_pc i W_Term
            (s\<lparr>ps_pool := set_thread_state i LINX_THREAD_STATE_TERMINATED p\<rparr>))
      | W_Term \<Rightarrow>
          Some (set_pc i W_Done
            (s\<lparr>ps_pool := p\<lparr>tp_active_threads := tp_active_threads p - 1\<rparr>\<rparr>))
      | W_Done \<Rightarrow> None)"

section \<open>The system\<close>

text \<open>
  One action is one critical section of some thread. The destroying thread runs its four
  phases in order; a join waits for its worker. After the release the pool is gone.
\<close>

datatype pool_action =
    A_Worker nat
  | A_Add bool "nat option" bool nat nat
  | A_Pause int
  | A_Resume int
  | A_Terminate int
  | A_Destroy bool bool int
  | A_Destroy_next

definition alloc_fresh :: "nat option \<Rightarrow> task_heap \<Rightarrow> bool" where
  "alloc_fresh addr h \<longleftrightarrow> (case addr of None \<Rightarrow> True | Some a \<Rightarrow> h a = None)"

definition exec_add :: "bool \<Rightarrow> nat option \<Rightarrow> bool \<Rightarrow> nat \<Rightarrow> nat \<Rightarrow> pool_sys \<Rightarrow> pool_sys" where
  "exec_add lock_ok addr signal_ok func arg s =
     (case linx_thread_pool_add_task lock_ok addr signal_ok func arg
             (Some (ps_pool s)) (ps_heap s) of
        Inl f \<Rightarrow> s\<lparr>ps_fault := Some f\<rparr>
      | Inr (ret, pool', h') \<Rightarrow>
          (case pool' of None \<Rightarrow> s
           | Some p' \<Rightarrow>
               s\<lparr>ps_pool := p', ps_heap := h',
                 ps_submitted := ps_submitted s @
                   (if tp_queue_size p' = tp_queue_size (ps_pool s) then [] else [(func, arg)])\<rparr>))"

definition exec_destroy :: "bool \<Rightarrow> bool \<Rightarrow> int \<Rightarrow> pool_sys \<Rightarrow> pool_sys option" where
  "exec_destroy lock_ok broadcast_ok graceful s =
     (case destroy_begin lock_ok broadcast_ok graceful (Some (ps_pool s)) (ps_heap s) of
        None \<Rightarrow> None
      | Some (Inl f) \<Rightarrow> Some (s\<lparr>ps_fault := Some f\<rparr>)
      | Some (Inr (ret, pool', h')) \<Rightarrow>
          (case pool' of None \<Rightarrow> Some s
           | Some p' \<Rightarrow>
               Some (s\<lparr>ps_pool := p', ps_heap := h',
                       ps_dpc := (if ret = 0 then D_Signal 0 else ps_dpc s)\<rparr>)))"

definition exec_destroy_next :: "pool_sys \<Rightarrow> pool_sys option" where
  "exec_destroy_next s =
     (let p = ps_pool s; n = nat (tp_thread_count p) in
      case ps_dpc s of
        D_Idle \<Rightarrow> None
      | D_Signal i \<Rightarrow>
          if i < n
          then Some (s\<lparr>ps_pool := destroy_signal_thread i p, ps_dpc := D_Signal (Suc i)\<rparr>)
          else Some (s\<lparr>ps_dpc := D_Join 0\<rparr>)
      | D_Join i \<Rightarrow>
          if i < n
          then (if ps_pcs s ! i = W_Done then Some (s\<lparr>ps_dpc := D_Join (Suc i)\<rparr>) else None)
          else (case destroy_release p (ps_heap s) of
                  None \<Rightarrow> None
                | Some h' \<Rightarrow> Some (s\<lparr>ps_heap := h', ps_dpc := D_Freed\<rparr>))
      | D_Freed \<Rightarrow> None)"

definition pool_exec :: "pool_action \<Rightarrow> pool_sys \<Rightarrow> pool_sys option" where
  "pool_exec act s =
     (if ps_fault s \<noteq> None \<or> ps_dpc s = D_Freed then None
      else case act of
        A_Worker i \<Rightarrow> if i < length (ps_pcs s) then linx_thread_worker i s else None
      | A_Add lock_ok addr signal_ok func arg \<Rightarrow>
          if alloc_fresh addr (ps_heap s)
          then Some (exec_add lock_ok addr signal_ok func arg s) else None
      | A_Pause idx \<Rightarrow>
          Some (s\<lparr>ps_pool := the (snd (linx_thread_pool_pause_thread (Some (ps_pool s)) idx))\<rparr>)
      | A_Resume idx \<Rightarrow>
          Some (s\<lparr>ps_pool := the (snd (linx_thread_pool_resume_thread (Some (ps_pool s)) idx))\<rparr>)
      | A_Terminate idx \<Rightarrow>
          Some (s\<lparr>ps_pool := the (snd (linx_thread_pool_terminate_thread (Some (ps_pool s)) idx))\<rparr>)
      | A_Destroy lock_ok broadcast_ok graceful \<Rightarrow>
          exec_destroy lock_ok broadcast_ok graceful s
      | A_Destroy_next \<Rightarrow> exec_destroy_next s)"

definition pool_start :: "linx_thread_pool \<Rightarrow> pool_sys" where
  "pool_start p = \<lparr>ps_pool = p, ps_heap = Map.empty,
     ps_pcs = replicate (length (tp_threads p)) W_Entry, ps_dpc = D_Idle, ps_fault = None,
     ps_submitted = [], ps_started = []\<rparr>"

definition distinct_ids :: "create_env \<Rightarrow> int \<Rightarrow> bool" where
  "distinct_ids env n \<longleftrightarrow>
     distinct (map (env_pthread_id env) [0..<nat (normalise_num_threads (env_nproc env) n)])"

inductive pool_reachable :: "pool_sys \<Rightarrow> bool" where
  start: "linx_thread_pool_create env n = (Some p, rs) \<Longrightarrow> distinct_ids env n \<Longrightarrow>
    pool_reachable (pool_start p)"
| step: "pool_reachable s \<Longrightarrow> pool_exec act s = Some s' \<Longrightarrow> pool_reachable s'"

fun pool_run :: "pool_action list \<Rightarrow> pool_sys \<Rightarrow> pool_sys option" where
  "pool_run [] s = Some s"
| "pool_run (a # as) s = (case pool_exec a s of None \<Rightarrow> None | Some s' \<Rightarrow> pool_run as s')"

lemma pool_run_reachable: "pool_reachable s \<Longrightarrow> pool_run as s = Some s' \<Longrightarrow> pool_reachable s'"
  by (induction as arbitrary: s) (auto split: option.splits intro: pool_reachable.step)

section \<open>The linked queue\<close>

fun lseg :: "task_heap \<Rightarrow> nat option \<Rightarrow> nat list \<Rightarrow> bool" where
  "lseg h p [] = (p = None)"
| "lseg h p (x # xs) =
     (p = Some x \<and> (case h x of None \<Rightarrow> False | Some t \<Rightarrow> lseg h (tk_next t) xs))"

definition queue_inv :: "linx_thread_pool \<Rightarrow> task_heap \<Rightarrow> nat list \<Rightarrow> bool" where
  "queue_inv p h q \<longleftrightarrow>
     lseg h (tp_queue_head p) q \<and> distinct q \<and>
     tp_queue_tail p = (if q = [] then None else Some (last q)) \<and>
     tp_queue_size p = int (length q)"

definition jobs_of :: "task_heap \<Rightarrow> nat list \<Rightarrow> (nat \<times> nat) list" where
  "jobs_of h q = map (\<lambda>a. tk_job (the (h a))) q"

lemma lseg_dom: "lseg h p q \<Longrightarrow> set q \<subseteq> dom h"
  by (induction q arbitrary: p) (auto split: option.splits)

lemma lseg_cong:
  "(\<And>a. a \<in> set q \<Longrightarrow> map_option tk_next (h' a) = map_option tk_next (h a)) \<Longrightarrow>
   lseg h' p q = lseg h p q"
proof (induction q arbitrary: p)
  case Nil
  then show ?case by simp
next
  case (Cons x xs)
  have next_eq: "map_option tk_next (h' x) = map_option tk_next (h x)"
    by (rule Cons.prems) simp
  have rest: "lseg h' r xs = lseg h r xs" for r
    by (rule Cons.IH) (rule Cons.prems, simp)
  show ?case using next_eq rest by (cases "h x"; cases "h' x") simp_all
qed

lemma lseg_snoc:
  assumes "lseg h p q" "q \<noteq> []" "distinct q" "a \<notin> set q" "h a = Some t" "tk_next t = None"
    "h (last q) = Some k"
  shows "lseg (h(last q \<mapsto> k\<lparr>tk_next := Some a\<rparr>)) p (q @ [a])"
  using assms
proof (induction q arbitrary: p)
  case Nil
  then show ?case by simp
next
  case (Cons x xs)
  show ?case
  proof (cases "xs = []")
    case True
    with Cons.prems show ?thesis by auto
  next
    case False
    with Cons.prems have ne: "x \<noteq> last xs" by auto
    from Cons.prems obtain tx where tx: "h x = Some tx" "lseg h (tk_next tx) xs"
      by (auto split: option.splits)
    from Cons.IH [OF tx(2)] Cons.prems False tx ne show ?thesis by simp
  qed
qed

lemma mark_tasks_lseg:
  assumes "lseg h p q" "distinct q"
  shows "mark_tasks v p h =
    Some (\<lambda>a. if a \<in> set q then map_option (\<lambda>t. t\<lparr>tk_should_stop := v\<rparr>) (h a) else h a)"
  using assms
proof (induction q arbitrary: p h)
  case Nil
  then show ?case by (simp add: mark_tasks.simps)
next
  case (Cons x xs)
  from Cons.prems obtain t where t: "p = Some x" "h x = Some t" "lseg h (tk_next t) xs"
    by (auto split: option.splits)
  let ?h = "h(x \<mapsto> t\<lparr>tk_should_stop := v\<rparr>)"
  have "lseg ?h (tk_next t) xs"
    using t(3) Cons.prems(2) by (subst lseg_cong [where h = h]) auto
  then have "mark_tasks v (tk_next t) ?h =
      Some (\<lambda>a. if a \<in> set xs then map_option (\<lambda>t. t\<lparr>tk_should_stop := v\<rparr>) (?h a) else ?h a)"
    using Cons.IH Cons.prems(2) by simp
  moreover have "mark_tasks v p h = mark_tasks v (tk_next t) ?h"
    using t by (subst mark_tasks.simps) simp
  ultimately show ?case using t Cons.prems(2) by (auto simp: fun_eq_iff)
qed

lemma free_tasks_lseg:
  assumes "lseg h p q" "distinct q"
  shows "free_tasks p h = Some (\<lambda>a. if a \<in> set q then None else h a)"
  using assms
proof (induction q arbitrary: p h)
  case Nil
  then show ?case by (simp add: free_tasks.simps)
next
  case (Cons x xs)
  from Cons.prems obtain t where t: "p = Some x" "h x = Some t" "lseg h (tk_next t) xs"
    by (auto split: option.splits)
  have "lseg (h(x := None)) (tk_next t) xs"
    using t(3) Cons.prems(2) by (subst lseg_cong [where h = h]) auto
  then have "free_tasks (tk_next t) (h(x := None)) =
      Some (\<lambda>a. if a \<in> set xs then None else (h(x := None)) a)"
    using Cons.IH Cons.prems(2) by simp
  moreover have "free_tasks p h = free_tasks (tk_next t) (h(x := None))"
    using t by (subst free_tasks.simps) simp
  ultimately show ?case using t Cons.prems(2) by (auto simp: fun_eq_iff)
qed

lemma enqueue_task_inv:
  assumes inv: "queue_inv p h q" and fresh: "h a = None"
  shows "\<exists>p' h'. enqueue_task a f x p h = Inr (p', h') \<and> queue_inv p' h' (q @ [a]) \<and>
    tp_queue_size p' = tp_queue_size p + 1 \<and>
    p' = p\<lparr>tp_queue_head := tp_queue_head p', tp_queue_tail := tp_queue_tail p',
           tp_queue_size := tp_queue_size p'\<rparr> \<and>
    dom h' = insert a (dom h) \<and>
    (\<forall>b. b \<noteq> a \<longrightarrow> map_option tk_job (h' b) = map_option tk_job (h b)) \<and>
    map_option tk_job (h' a) = Some (f, x)"
proof (cases "q = []")
  case True
  with assms show ?thesis
    by (simp add: enqueue_task_def queue_inv_def tk_job_def Let_def)
next
  case False
  let ?t = "\<lparr>tk_func = f, tk_arg = x, tk_should_stop = 0, tk_next = None\<rparr>"
  let ?h1 = "h(a \<mapsto> ?t)"
  from inv fresh have a: "a \<notin> set q" unfolding queue_inv_def using lseg_dom by blast
  from False obtain b bs where q: "q = b # bs" by (cases q) auto
  from inv q have hd: "tp_queue_head p = Some b" by (simp add: queue_inv_def)
  have "last q \<in> dom h" using inv False lseg_dom unfolding queue_inv_def
    using last_in_set by blast
  then obtain k where k: "h (last q) = Some k" by blast
  have la: "last q \<noteq> a" using False a last_in_set by metis
  have "lseg ?h1 (tp_queue_head p) q"
    using inv a unfolding queue_inv_def by (subst lseg_cong [where h = h]) auto
  then have "lseg (?h1(last q \<mapsto> k\<lparr>tk_next := Some a\<rparr>)) (tp_queue_head p) (q @ [a])"
    using False a inv k la by (intro lseg_snoc [where t = ?t]) (auto simp: queue_inv_def)
  moreover have "enqueue_task a f x p h =
      Inr (p\<lparr>tp_queue_tail := Some a, tp_queue_size := tp_queue_size p + 1\<rparr>,
           ?h1(last q \<mapsto> k\<lparr>tk_next := Some a\<rparr>))"
    using hd inv False k la by (simp add: enqueue_task_def queue_inv_def Let_def)
  moreover have "tp_queue_size p = int (length q)" "distinct q"
    using inv by (simp_all add: queue_inv_def)
  ultimately show ?thesis
    using a k la by (simp add: queue_inv_def tk_job_def insert_absorb domI)
qed

lemma worker_take_inv:
  assumes inv: "queue_inv p h (a # q)"
  shows "\<exists>t. h a = Some t \<and> tp_queue_head p = Some a \<and> tp_queue_size p \<noteq> 0 \<and>
    queue_inv (dequeue_head a t p) h q"
proof -
  from inv obtain t where t: "h a = Some t" "lseg h (tk_next t) q"
    by (auto simp: queue_inv_def split: option.splits)
  moreover from t have "(tk_next t = None) = (q = [])"
    by (cases q) (auto split: option.splits)
  ultimately show ?thesis using inv by (auto simp: queue_inv_def dequeue_head_def)
qed

lemma worker_section_take:
  "worker_pool_section p h = Inr (P_take a p') \<Longrightarrow>
   \<exists>t. h a = Some t \<and> tp_queue_head p = Some a \<and> p' = dequeue_head a t p"
  by (auto simp: worker_pool_section_def split: if_splits option.splits)

section \<open>Which tasks are running\<close>

definition run_set :: "worker_pc list \<Rightarrow> nat set" where
  "run_set pcs = {a. W_Run a \<in> set pcs}"

definition run_uniq :: "worker_pc list \<Rightarrow> bool" where
  "run_uniq pcs \<longleftrightarrow>
     (\<forall>i < length pcs. \<forall>j < length pcs. \<forall>a. pcs ! i = W_Run a \<longrightarrow> pcs ! j = W_Run a \<longrightarrow> i = j)"

definition not_run :: "worker_pc \<Rightarrow> bool" where
  "not_run pc \<longleftrightarrow> (\<forall>a. pc \<noteq> W_Run a)"

lemma not_run_simps [simp]:
  "not_run W_Entry" "not_run W_Loop" "not_run W_Pool" "not_run W_Exit" "not_run W_Term"
  "not_run W_Done" "\<not> not_run (W_Run a)"
  by (simp_all add: not_run_def)

lemma run_set_nth: "a \<in> run_set pcs \<longleftrightarrow> (\<exists>j < length pcs. pcs ! j = W_Run a)"
  by (auto simp: run_set_def in_set_conv_nth)

lemma run_set_keep:
  "i < length pcs \<Longrightarrow> not_run (pcs ! i) \<Longrightarrow> not_run pc \<Longrightarrow> run_set (pcs[i := pc]) = run_set pcs"
  unfolding set_eq_iff run_set_nth not_run_def by (metis length_list_update nth_list_update)

lemma run_set_start:
  assumes "i < length pcs" "not_run (pcs ! i)"
  shows "run_set (pcs[i := W_Run a]) = insert a (run_set pcs)"
proof (rule set_eqI)
  fix b
  show "b \<in> run_set (pcs[i := W_Run a]) \<longleftrightarrow> b \<in> insert a (run_set pcs)"
    using assms unfolding run_set_nth insert_iff not_run_def
    by (metis length_list_update nth_list_update worker_pc.inject)
qed

lemma run_set_finish:
  assumes "i < length pcs" "pcs ! i = W_Run a" "not_run pc" "run_uniq pcs"
  shows "run_set (pcs[i := pc]) = run_set pcs - {a}"
proof (rule set_eqI)
  fix b
  show "b \<in> run_set (pcs[i := pc]) \<longleftrightarrow> b \<in> run_set pcs - {a}"
    using assms unfolding run_set_nth run_uniq_def not_run_def Diff_iff
    by (metis length_list_update nth_list_update singleton_iff worker_pc.inject)
qed

lemma run_uniq_keep:
  "run_uniq pcs \<Longrightarrow> i < length pcs \<Longrightarrow> not_run pc \<Longrightarrow> run_uniq (pcs[i := pc])"
  unfolding run_uniq_def not_run_def by (metis length_list_update nth_list_update)

lemma run_uniq_start:
  assumes "run_uniq pcs" "i < length pcs" "a \<notin> run_set pcs"
  shows "run_uniq (pcs[i := W_Run a])"
  using assms unfolding run_uniq_def run_set_nth
  by (metis length_list_update nth_list_update worker_pc.inject)

lemmas run_simps = run_set_keep run_set_start run_set_finish run_uniq_keep run_uniq_start

section \<open>Invariants of the system\<close>

text \<open>
  Four groups: the threads and their accounting; the task memory (every allocated task is
  queued or running, never both, and no two workers share one); the history of jobs; the
  progress of the destroying thread.
\<close>

definition threads_inv :: "pool_sys \<Rightarrow> bool" where
  "threads_inv s \<longleftrightarrow>
     length (ps_pcs s) = length (tp_threads (ps_pool s)) \<and>
     tp_thread_count (ps_pool s) = int (length (tp_threads (ps_pool s))) \<and>
     distinct (map ti_thread_id (tp_threads (ps_pool s))) \<and>
     tp_active_threads (ps_pool s) =
       tp_thread_count (ps_pool s) - int (length (filter (\<lambda>pc. pc = W_Done) (ps_pcs s))) \<and>
     (\<forall>i < length (ps_pcs s). thread_state (ps_pool s) i = LINX_THREAD_STATE_TERMINATED
        \<longleftrightarrow> ps_pcs s ! i = W_Term \<or> ps_pcs s ! i = W_Done)"

fun runing_ok :: "run_ptr \<Rightarrow> (nat \<times> nat) list \<Rightarrow> nat set \<Rightarrow> bool" where
  "runing_ok Indeterminate started R = (started = [])"
| "runing_ok RNull started R = True"
| "runing_ok (RPtr a) started R = (a \<in> R)"

definition memory_inv :: "pool_sys \<Rightarrow> nat list \<Rightarrow> bool" where
  "memory_inv s q \<longleftrightarrow>
     queue_inv (ps_pool s) (ps_heap s) q \<and>
     dom (ps_heap s) = set q \<union> run_set (ps_pcs s) \<and>
     set q \<inter> run_set (ps_pcs s) = {} \<and>
     run_uniq (ps_pcs s) \<and>
     runing_ok (tp_task_runing (ps_pool s)) (ps_started s) (run_set (ps_pcs s))"

definition history_inv :: "pool_sys \<Rightarrow> nat list \<Rightarrow> bool" where
  "history_inv s q \<longleftrightarrow>
     ps_submitted s = ps_started s @ jobs_of (ps_heap s) q \<and>
     (ps_fault s \<noteq> None \<longrightarrow> ps_fault s = Some UninitRead \<and> ps_started s = [])"

fun joined :: "destroy_pc \<Rightarrow> worker_pc list \<Rightarrow> bool" where
  "joined (D_Join k) pcs = (\<forall>i < k. i < length pcs \<longrightarrow> pcs ! i = W_Done)"
| "joined _ pcs = True"

definition destroy_inv :: "pool_sys \<Rightarrow> bool" where
  "destroy_inv s \<longleftrightarrow>
     joined (ps_dpc s) (ps_pcs s) \<and>
     tp_shutdown (ps_pool s) \<in> {0, 1, 2} \<and>
     (ps_dpc s \<noteq> D_Idle \<longrightarrow> tp_shutdown (ps_pool s) \<noteq> 0)"

definition pool_sys_inv :: "pool_sys \<Rightarrow> nat list \<Rightarrow> bool" where
  "pool_sys_inv s q \<longleftrightarrow> threads_inv s \<and> memory_inv s q \<and> history_inv s q \<and> destroy_inv s"

lemmas pool_inv_defs = pool_sys_inv_def threads_inv_def memory_inv_def history_inv_def
  destroy_inv_def

subsection \<open>Changing the state of one thread\<close>

lemma length_set_thread_state [simp]:
  "length (tp_threads (set_thread_state i st p)) = length (tp_threads p)"
  by (simp add: set_thread_state_def)

lemma ids_set_thread_state [simp]:
  "map ti_thread_id (tp_threads (set_thread_state i st p)) = map ti_thread_id (tp_threads p)"
  by (cases "i < length (tp_threads p)")
     (auto simp: set_thread_state_def map_update list_update_same_conv list_update_beyond)

lemma set_thread_state_frame [simp]:
  "tp_queue_head (set_thread_state i st p) = tp_queue_head p"
  "tp_queue_tail (set_thread_state i st p) = tp_queue_tail p"
  "tp_queue_size (set_thread_state i st p) = tp_queue_size p"
  "tp_task_runing (set_thread_state i st p) = tp_task_runing p"
  "tp_thread_count (set_thread_state i st p) = tp_thread_count p"
  "tp_active_threads (set_thread_state i st p) = tp_active_threads p"
  "tp_shutdown (set_thread_state i st p) = tp_shutdown p"
  by (simp_all add: set_thread_state_def)

lemma queue_inv_set_thread_state [simp]:
  "queue_inv (set_thread_state i st p) h q = queue_inv p h q"
  by (simp add: queue_inv_def)

lemma thread_state_set [simp]:
  "i < length (tp_threads p) \<Longrightarrow>
   thread_state (set_thread_state i st p) j = (if i = j then st else thread_state p j)"
  by (simp add: thread_state_def set_thread_state_def nth_list_update)

lemma set_state_inv:
  assumes "pool_sys_inv s q" "i < length (ps_pcs s)" "st \<noteq> LINX_THREAD_STATE_TERMINATED"
    "thread_state (ps_pool s) i \<noteq> LINX_THREAD_STATE_TERMINATED"
  shows "pool_sys_inv (s\<lparr>ps_pool := set_thread_state i st (ps_pool s)\<rparr>) q"
proof -
  have "threads_inv (s\<lparr>ps_pool := set_thread_state i st (ps_pool s)\<rparr>)"
    using assms by (auto simp: pool_sys_inv_def threads_inv_def)
  then show ?thesis
    using assms(1) by (simp add: pool_sys_inv_def memory_inv_def history_inv_def destroy_inv_def)
qed

lemma worker_find_self:
  "distinct (map ti_thread_id ts) \<Longrightarrow> i < length ts \<Longrightarrow>
   worker_find (ti_thread_id (ts ! i)) k ts = Some (k + i)"
proof (induction ts arbitrary: i k)
  case Nil
  then show ?case by simp
next
  case (Cons t ts)
  then show ?case by (cases i) (auto, metis image_eqI nth_mem)
qed

subsection \<open>Every action keeps the invariants\<close>

lemma threads_inv_pc:
  assumes "threads_inv s" "i < length (ps_pcs s)" "pc \<noteq> W_Done" "ps_pcs s ! i \<noteq> W_Done"
    "pc = W_Term \<longleftrightarrow> ps_pcs s ! i = W_Term"
  shows "threads_inv (set_pc i pc s)"
  using assms
  by (auto simp: threads_inv_def set_pc_def nth_list_update filter_update_length)

lemma joined_update:
  "joined d pcs \<Longrightarrow> pcs ! i \<noteq> W_Done \<Longrightarrow> joined d (pcs[i := pc])"
  by (cases d) (auto, metis nth_list_update_neq)

lemma pc_move_inv:
  assumes inv: "pool_sys_inv s q" and i: "i < length (ps_pcs s)"
    and pcs: "not_run (ps_pcs s ! i)" "not_run pc" "ps_pcs s ! i \<notin> {W_Term, W_Done}"
      "pc \<notin> {W_Term, W_Done}"
  shows "pool_sys_inv (set_pc i pc s) q"
proof -
  have "threads_inv (set_pc i pc s)"
    using inv i pcs by (intro threads_inv_pc) (auto simp: pool_sys_inv_def)
  then show ?thesis
    using inv i pcs
    by (simp add: pool_sys_inv_def memory_inv_def history_inv_def destroy_inv_def set_pc_def
        run_simps joined_update)
qed

lemma worker_entry_inv:
  assumes inv: "pool_sys_inv s q" and i: "i < length (ps_pcs s)" and pc: "ps_pcs s ! i = W_Entry"
    and step: "linx_thread_worker i s = Some s'"
  shows "pool_sys_inv s' q"
proof -
  have "worker_find (ti_thread_id (tp_threads (ps_pool s) ! i)) 0 (tp_threads (ps_pool s)) = Some i"
    using inv i worker_find_self [of "tp_threads (ps_pool s)" i 0]
    by (simp add: pool_sys_inv_def threads_inv_def)
  then have s': "s' = set_pc i W_Loop
      (s\<lparr>ps_pool := set_thread_state i LINX_THREAD_STATE_RUNNING (ps_pool s)\<rparr>)"
    using step pc by (simp add: linx_thread_worker_def Let_def)
  have "pool_sys_inv (s\<lparr>ps_pool := set_thread_state i LINX_THREAD_STATE_RUNNING (ps_pool s)\<rparr>) q"
    using inv i pc by (intro set_state_inv) (auto simp: pool_sys_inv_def threads_inv_def)
  then show ?thesis unfolding s' using i pc by (intro pc_move_inv) auto
qed

lemma worker_take_step_inv:
  assumes inv: "pool_sys_inv s q" and i: "i < length (ps_pcs s)" and pc: "ps_pcs s ! i = W_Pool"
    and nofault: "ps_fault s = None"
    and sec: "worker_pool_section (ps_pool s) (ps_heap s) = Inr (P_take a p')"
    and s': "s' = set_pc i (W_Run a) (s\<lparr>ps_pool := p',
         ps_started := ps_started s @ [tk_job (the (ps_heap s a))]\<rparr>)"
  shows "\<exists>q'. q = a # q' \<and> pool_sys_inv s' q'"
proof -
  have qi: "queue_inv (ps_pool s) (ps_heap s) q" using inv by (simp add: pool_sys_inv_def memory_inv_def)
  obtain t where t: "ps_heap s a = Some t" and hd: "tp_queue_head (ps_pool s) = Some a"
    and p': "p' = dequeue_head a t (ps_pool s)"
    using worker_section_take [OF sec] by blast
  obtain q' where q: "q = a # q'" using qi hd by (cases q) (auto simp: queue_inv_def)
  have qi': "queue_inv p' (ps_heap s) q'"
    using worker_take_inv [OF qi [unfolded q]] t p' by simp
  have fr: "tp_task_runing p' = RPtr a" "tp_threads p' = tp_threads (ps_pool s)"
    "tp_thread_count p' = tp_thread_count (ps_pool s)" "tp_shutdown p' = tp_shutdown (ps_pool s)"
    "tp_active_threads p' = tp_active_threads (ps_pool s)"
    by (simp_all add: p' dequeue_head_def)
  have mem: "dom (ps_heap s) = insert a (set q' \<union> run_set (ps_pcs s))"
    "a \<notin> run_set (ps_pcs s)" "set q' \<inter> run_set (ps_pcs s) = {}" "run_uniq (ps_pcs s)"
    "a \<notin> set q'"
    using inv q qi by (auto simp: pool_sys_inv_def memory_inv_def queue_inv_def)
  have "memory_inv s' q'"
    unfolding s' memory_inv_def set_pc_def using i pc qi' fr(1) mem by (simp add: run_simps)
  moreover have "threads_inv s'"
    using inv i pc unfolding s' pool_sys_inv_def threads_inv_def set_pc_def thread_state_def
    by (simp add: fr nth_list_update filter_update_length)
  moreover have "history_inv s' q'"
    using inv q t nofault unfolding s' pool_sys_inv_def history_inv_def set_pc_def jobs_of_def
    by simp
  moreover have "destroy_inv s'"
    using inv i pc fr unfolding s' pool_sys_inv_def destroy_inv_def set_pc_def
    by (simp add: joined_update)
  ultimately show ?thesis using q by (simp add: pool_sys_inv_def)
qed

lemma queue_inv_no_use_after_free:
  "queue_inv p h q \<Longrightarrow> worker_pool_section p h \<noteq> Inl f"
  by (cases q) (auto simp: worker_pool_section_def queue_inv_def split: option.splits)

lemma worker_finish_inv:
  assumes inv: "pool_sys_inv s q" and i: "i < length (ps_pcs s)" and pc: "ps_pcs s ! i = W_Run a"
    and s': "s' = set_pc i W_Loop (s\<lparr>ps_pool := (ps_pool s)\<lparr>tp_task_runing := RNull\<rparr>,
         ps_heap := (ps_heap s)(a := None)\<rparr>)"
  shows "pool_sys_inv s' q"
proof -
  have a: "a \<in> run_set (ps_pcs s)" using i pc by (auto simp: run_set_nth)
  have mem: "dom (ps_heap s) = set q \<union> run_set (ps_pcs s)" "set q \<inter> run_set (ps_pcs s) = {}"
    "run_uniq (ps_pcs s)" "queue_inv (ps_pool s) (ps_heap s) q"
    using inv by (auto simp: pool_sys_inv_def memory_inv_def)
  with a have aq: "a \<notin> set q" by blast
  have "lseg ((ps_heap s)(a := None)) (tp_queue_head (ps_pool s)) q"
    using mem(4) aq unfolding queue_inv_def by (subst lseg_cong [where h = "ps_heap s"]) auto
  then have "memory_inv s' q"
    unfolding s' memory_inv_def set_pc_def using i pc mem aq
    by (auto simp: run_simps queue_inv_def)
  moreover have "threads_inv s'"
    using inv i pc unfolding s' pool_sys_inv_def threads_inv_def set_pc_def thread_state_def
    by (simp add: nth_list_update filter_update_length)
  moreover have "jobs_of ((ps_heap s)(a := None)) q = jobs_of (ps_heap s) q"
    using aq by (auto simp: jobs_of_def)
  then have "history_inv s' q"
    using inv unfolding s' pool_sys_inv_def history_inv_def set_pc_def by simp
  moreover have "destroy_inv s'"
    using inv i pc unfolding s' pool_sys_inv_def destroy_inv_def set_pc_def
    by (simp add: joined_update)
  ultimately show ?thesis by (simp add: pool_sys_inv_def)
qed

lemma worker_exit_inv:
  assumes inv: "pool_sys_inv s q" and i: "i < length (ps_pcs s)"
  shows "ps_pcs s ! i = W_Exit \<Longrightarrow> pool_sys_inv (set_pc i W_Term
      (s\<lparr>ps_pool := set_thread_state i LINX_THREAD_STATE_TERMINATED (ps_pool s)\<rparr>)) q"
    and "ps_pcs s ! i = W_Term \<Longrightarrow> pool_sys_inv (set_pc i W_Done
      (s\<lparr>ps_pool := (ps_pool s)\<lparr>tp_active_threads := tp_active_threads (ps_pool s) - 1\<rparr>\<rparr>)) q"
proof -
  assume pc: "ps_pcs s ! i = W_Exit"
  have "threads_inv (set_pc i W_Term
      (s\<lparr>ps_pool := set_thread_state i LINX_THREAD_STATE_TERMINATED (ps_pool s)\<rparr>))"
    using inv i pc unfolding pool_sys_inv_def threads_inv_def set_pc_def
    by (simp add: nth_list_update filter_update_length)
  then show "pool_sys_inv (set_pc i W_Term
      (s\<lparr>ps_pool := set_thread_state i LINX_THREAD_STATE_TERMINATED (ps_pool s)\<rparr>)) q"
    using inv i pc
    by (simp add: pool_sys_inv_def memory_inv_def history_inv_def destroy_inv_def set_pc_def
        run_simps joined_update)
next
  assume pc: "ps_pcs s ! i = W_Term"
  let ?p = "(ps_pool s)\<lparr>tp_active_threads := tp_active_threads (ps_pool s) - 1\<rparr>"
  have "threads_inv (set_pc i W_Done (s\<lparr>ps_pool := ?p\<rparr>))"
    using inv i pc unfolding pool_sys_inv_def threads_inv_def set_pc_def thread_state_def
    by (simp add: nth_list_update filter_update_length)
  moreover have "queue_inv ?p (ps_heap s) q"
    using inv by (simp add: pool_sys_inv_def memory_inv_def queue_inv_def)
  ultimately show "pool_sys_inv (set_pc i W_Done (s\<lparr>ps_pool := ?p\<rparr>)) q"
    using inv i pc
    by (simp add: pool_sys_inv_def memory_inv_def history_inv_def destroy_inv_def set_pc_def
        run_simps joined_update)
qed

lemma worker_inv:
  assumes inv: "pool_sys_inv s q" and i: "i < length (ps_pcs s)" and nofault: "ps_fault s = None"
    and step: "linx_thread_worker i s = Some s'"
  shows "\<exists>q'. pool_sys_inv s' q'"
proof (cases "ps_pcs s ! i")
  case W_Entry
  then show ?thesis using worker_entry_inv [OF inv i _ step] by blast
next
  case W_Loop
  with step have "s' = set_pc i W_Pool s \<or> s' = set_pc i W_Exit s"
    by (auto simp: linx_thread_worker_def Let_def split: linx_thread_state.splits)
  then show ?thesis
    using W_Loop pc_move_inv [OF inv i, of W_Pool] pc_move_inv [OF inv i, of W_Exit] by auto
next
  case W_Pool
  have safe: "worker_pool_section (ps_pool s) (ps_heap s) \<noteq> Inl f" for f
    using inv queue_inv_no_use_after_free by (auto simp: pool_sys_inv_def memory_inv_def)
  show ?thesis
  proof (cases "\<exists>a p'. worker_pool_section (ps_pool s) (ps_heap s) = Inr (P_take a p')")
    case True
    then obtain a p' where sec: "worker_pool_section (ps_pool s) (ps_heap s) = Inr (P_take a p')"
      by blast
    with W_Pool step have "s' = set_pc i (W_Run a) (s\<lparr>ps_pool := p',
         ps_started := ps_started s @ [tk_job (the (ps_heap s a))]\<rparr>)"
      by (simp add: linx_thread_worker_def Let_def)
    from worker_take_step_inv [OF inv i W_Pool nofault sec this] show ?thesis by blast
  next
    case False
    with W_Pool step safe have "s' = set_pc i W_Exit s \<or> s' = set_pc i W_Loop s"
      by (auto simp: linx_thread_worker_def Let_def split: sum.splits pool_section.splits)
    then show ?thesis
      using W_Pool pc_move_inv [OF inv i, of W_Loop] pc_move_inv [OF inv i, of W_Exit] by auto
  qed
next
  case (W_Run a)
  then show ?thesis
    using step worker_finish_inv [OF inv i W_Run]
    by (auto simp: linx_thread_worker_def Let_def worker_finish_def)
next
  case W_Exit
  then show ?thesis
    using step worker_exit_inv(1) [OF inv i] by (auto simp: linx_thread_worker_def Let_def)
next
  case W_Term
  then show ?thesis
    using step worker_exit_inv(2) [OF inv i] by (auto simp: linx_thread_worker_def Let_def)
next
  case W_Done
  then show ?thesis using step by (simp add: linx_thread_worker_def Let_def)
qed

lemma exec_add_inv:
  assumes inv: "pool_sys_inv s q" and fresh: "alloc_fresh addr (ps_heap s)"
  shows "\<exists>q'. pool_sys_inv (exec_add l addr g f x s) q'"
proof (cases "f = 0 \<or> \<not> l \<or> tp_shutdown (ps_pool s) \<noteq> 0 \<or> addr = None")
  case True
  then have "exec_add l addr g f x s = s"
    by (auto simp: exec_add_def linx_thread_pool_add_task_def)
  then show ?thesis using inv by auto
next
  case False
  then obtain a where a: "addr = Some a" "ps_heap s a = None"
    using fresh by (auto simp: alloc_fresh_def)
  have parts: "queue_inv (ps_pool s) (ps_heap s) q" "threads_inv s" "history_inv s q"
    "destroy_inv s" "dom (ps_heap s) = set q \<union> run_set (ps_pcs s)"
    "set q \<inter> run_set (ps_pcs s) = {}" "run_uniq (ps_pcs s)"
    "runing_ok (tp_task_runing (ps_pool s)) (ps_started s) (run_set (ps_pcs s))"
    using inv by (auto simp: pool_sys_inv_def memory_inv_def)
  from enqueue_task_inv [OF parts(1) a(2), of f x] obtain p' h' where
    eq: "enqueue_task a f x (ps_pool s) (ps_heap s) = Inr (p', h')"
    and qi: "queue_inv p' h' (q @ [a])" and size: "tp_queue_size p' = tp_queue_size (ps_pool s) + 1"
    and p': "p' = (ps_pool s)\<lparr>tp_queue_head := tp_queue_head p', tp_queue_tail := tp_queue_tail p',
           tp_queue_size := tp_queue_size p'\<rparr>"
    and dom: "dom h' = insert a (dom (ps_heap s))"
    and jobs: "\<And>b. b \<noteq> a \<Longrightarrow> map_option tk_job (h' b) = map_option tk_job (ps_heap s b)"
      "map_option tk_job (h' a) = Some (f, x)" by blast
  have fr: "tp_threads p' = tp_threads (ps_pool s)" "tp_thread_count p' = tp_thread_count (ps_pool s)"
    "tp_active_threads p' = tp_active_threads (ps_pool s)" "tp_shutdown p' = tp_shutdown (ps_pool s)"
    "tp_task_runing p' = tp_task_runing (ps_pool s)"
    by (subst p', simp)+
  have s': "exec_add l addr g f x s =
      s\<lparr>ps_pool := p', ps_heap := h', ps_submitted := ps_submitted s @ [(f, x)]\<rparr>"
    using False a eq size by (simp add: exec_add_def linx_thread_pool_add_task_def)
  have aq: "a \<notin> set q" "a \<notin> run_set (ps_pcs s)" using a(2) parts(5) by blast+
  have job: "tk_job (the (h' b)) = tk_job (the (ps_heap s b))" if "b \<in> set q" for b
  proof -
    from that aq have ne: "b \<noteq> a" by blast
    moreover from that parts(5) ne dom have "b \<in> dom (ps_heap s)" "b \<in> dom h'" by auto
    ultimately show ?thesis using jobs(1) [OF ne] by auto
  qed
  have ja: "tk_job (the (h' a)) = (f, x)" using jobs(2) by auto
  have "jobs_of h' (q @ [a]) = jobs_of (ps_heap s) q @ [(f, x)]"
    using job ja by (simp add: jobs_of_def)
  then have "history_inv (exec_add l addr g f x s) (q @ [a])"
    using parts(3) unfolding s' history_inv_def by simp
  moreover have "memory_inv (exec_add l addr g f x s) (q @ [a])"
    unfolding s' memory_inv_def using qi dom parts aq fr by auto
  moreover have "threads_inv (exec_add l addr g f x s)" "destroy_inv (exec_add l addr g f x s)"
    using parts fr unfolding s' threads_inv_def destroy_inv_def thread_state_def by simp_all
  ultimately show ?thesis unfolding pool_sys_inv_def by blast
qed

lemma state_change_inv:
  assumes inv: "pool_sys_inv s q"
  shows "pool_sys_inv (s\<lparr>ps_pool := the (snd (linx_thread_pool_pause_thread (Some (ps_pool s)) x))\<rparr>) q"
    and "pool_sys_inv (s\<lparr>ps_pool := the (snd (linx_thread_pool_resume_thread (Some (ps_pool s)) x))\<rparr>) q"
    and "pool_sys_inv (s\<lparr>ps_pool := the (snd (linx_thread_pool_terminate_thread (Some (ps_pool s)) x))\<rparr>) q"
proof -
  have len: "nat x < length (ps_pcs s)" if "valid_index (ps_pool s) x"
    using that inv by (auto simp: valid_index_def pool_sys_inv_def threads_inv_def)
  have same: "s\<lparr>ps_pool := ps_pool s\<rparr> = s" by simp
  show "pool_sys_inv (s\<lparr>ps_pool := the (snd (linx_thread_pool_pause_thread (Some (ps_pool s)) x))\<rparr>) q"
    using inv len set_state_inv [OF inv, of "nat x"]
    by (simp add: linx_thread_pool_pause_thread_def same)
  show "pool_sys_inv (s\<lparr>ps_pool := the (snd (linx_thread_pool_resume_thread (Some (ps_pool s)) x))\<rparr>) q"
    using inv len set_state_inv [OF inv, of "nat x"]
    by (simp add: linx_thread_pool_resume_thread_def same)
  show "pool_sys_inv (s\<lparr>ps_pool := the (snd (linx_thread_pool_terminate_thread (Some (ps_pool s)) x))\<rparr>) q"
    using inv len set_state_inv [OF inv, of "nat x"]
    by (auto simp: linx_thread_pool_terminate_thread_def same)
qed

text \<open>Setting stop flags changes neither the shape of the queue nor the jobs.\<close>

definition stop_at :: "int \<Rightarrow> nat set \<Rightarrow> task_heap \<Rightarrow> task_heap" where
  "stop_at v A h = (\<lambda>a. if a \<in> A then map_option (\<lambda>t. t\<lparr>tk_should_stop := v\<rparr>) (h a) else h a)"

lemma stop_at_simps [simp]:
  "dom (stop_at v A h) = dom h"
  "map_option tk_next (stop_at v A h a) = map_option tk_next (h a)"
  "tk_job (the (stop_at v A h b)) = tk_job (the (h b)) \<or> h b = None"
  by (auto simp: stop_at_def tk_job_def map_option.compositionality o_def split: if_splits)

lemma queue_inv_stop_at [simp]: "queue_inv p (stop_at v A h) q = queue_inv p h q"
proof -
  have "lseg (stop_at v A h) r q = lseg h r q" for r by (rule lseg_cong) simp
  then show ?thesis by (simp add: queue_inv_def)
qed

lemma jobs_of_stop_at: "set q \<subseteq> dom h \<Longrightarrow> jobs_of (stop_at v A h) q = jobs_of h q"
  by (auto simp: jobs_of_def stop_at_def tk_job_def)

lemma queue_inv_shutdown [simp]: "queue_inv (p\<lparr>tp_shutdown := v\<rparr>) h q = queue_inv p h q"
  by (simp add: queue_inv_def)

lemma destroy_begin_effect:
  assumes inv: "pool_sys_inv s q" and "tp_shutdown (ps_pool s) = 0"
    and v: "v = (if g \<noteq> 0 then 1 else 2)"
  shows "destroy_begin True bc g (Some (ps_pool s)) (ps_heap s) =
    Some (case tp_task_runing (ps_pool s) of
        Indeterminate \<Rightarrow> Inl UninitRead
      | RNull \<Rightarrow> Inr (if bc then 0 else -1, Some ((ps_pool s)\<lparr>tp_shutdown := v\<rparr>),
                  stop_at v (set q) (ps_heap s))
      | RPtr a \<Rightarrow> Inr (if bc then 0 else -1, Some ((ps_pool s)\<lparr>tp_shutdown := v\<rparr>),
                  stop_at v (insert a (set q)) (ps_heap s)))"
proof -
  have q: "lseg (ps_heap s) (tp_queue_head (ps_pool s)) q" "distinct q"
    using inv by (auto simp: pool_sys_inv_def memory_inv_def queue_inv_def)
  have run: "a \<in> dom (ps_heap s) \<and> a \<notin> set q" if "tp_task_runing (ps_pool s) = RPtr a" for a
    using inv that by (auto simp: pool_sys_inv_def memory_inv_def)
  show ?thesis
    using assms(2) mark_tasks_lseg [OF q, of v] run
    by (auto simp: destroy_begin_def Let_def v stop_at_def fun_eq_iff split: run_ptr.splits)
qed

lemma exec_destroy_inv:
  assumes inv: "pool_sys_inv s q" and nofault: "ps_fault s = None"
    and step: "exec_destroy l bc g s = Some s'"
  shows "pool_sys_inv s' q"
proof (cases "l \<and> tp_shutdown (ps_pool s) = 0")
  case False
  then have "s' = s"
    using step by (auto simp: exec_destroy_def destroy_begin_def split: if_splits)
  then show ?thesis using inv by simp
next
  case True
  define v :: int where "v = (if g \<noteq> 0 then 1 else 2)"
  note eff = destroy_begin_effect [OF inv conjunct2 [OF True] v_def, of bc]
  have fault: "pool_sys_inv (s\<lparr>ps_fault := Some UninitRead\<rparr>) q"
    if "tp_task_runing (ps_pool s) = Indeterminate"
    using inv that nofault by (simp add: pool_inv_defs thread_state_def)
  have dom: "set q \<subseteq> dom (ps_heap s)"
    using inv by (auto simp: pool_sys_inv_def memory_inv_def)
  have go: "pool_sys_inv (s\<lparr>ps_pool := (ps_pool s)\<lparr>tp_shutdown := v\<rparr>,
      ps_heap := stop_at v A (ps_heap s), ps_dpc := d\<rparr>) q"
    if "d = D_Signal 0 \<or> d = ps_dpc s" for A d
    using inv that v_def dom jobs_of_stop_at [OF dom, of v A]
    by (auto simp: pool_inv_defs thread_state_def)
  show ?thesis
    using step True eff fault go
    by (cases "tp_task_runing (ps_pool s)") (auto simp: exec_destroy_def)
qed

lemma all_done_run_set:
  assumes "joined (D_Join k) pcs" "length pcs \<le> k"
  shows "run_set pcs = {}"
proof -
  have "pcs ! j = W_Done" if "j < length pcs" for j
    using assms that by simp
  then show ?thesis by (auto simp: run_set_nth)
qed

lemma destroy_signal_inv:
  assumes inv: "pool_sys_inv s q" and i: "i < length (ps_pcs s)"
  shows "pool_sys_inv (s\<lparr>ps_pool := destroy_signal_thread i (ps_pool s)\<rparr>) q"
proof (cases "thread_state (ps_pool s) i = LINX_THREAD_STATE_TERMINATED")
  case True
  then show ?thesis using inv by (simp add: destroy_signal_thread_def)
next
  case False
  then show ?thesis
    using set_state_inv [OF inv i _ False, of LINX_THREAD_STATE_TERMINATING]
    by (simp add: destroy_signal_thread_def)
qed

lemma set_dpc_inv:
  assumes "pool_sys_inv s q" "joined d (ps_pcs s)" "ps_dpc s \<noteq> D_Idle"
  shows "pool_sys_inv (s\<lparr>ps_dpc := d\<rparr>) q"
  using assms by (auto simp: pool_inv_defs thread_state_def)

text \<open>After the last join the release leaves no task behind.\<close>

definition released :: "pool_sys \<Rightarrow> bool" where
  "released s \<longleftrightarrow> ps_heap s = Map.empty \<and> ps_fault s = None \<and> threads_inv s \<and>
     (\<exists>rest. ps_submitted s = ps_started s @ rest) \<and>
     (\<forall>i < length (ps_pcs s). ps_pcs s ! i = W_Done)"

lemma destroy_release_released:
  assumes inv: "pool_sys_inv s q" and nofault: "ps_fault s = None" and dpc: "ps_dpc s = D_Join k"
    and k: "length (ps_pcs s) \<le> k"
  shows "\<exists>h'. destroy_release (ps_pool s) (ps_heap s) = Some h' \<and>
    released (s\<lparr>ps_heap := h', ps_dpc := D_Freed\<rparr>)"
proof -
  have j: "joined (D_Join k) (ps_pcs s)"
    using inv dpc by (simp add: pool_sys_inv_def destroy_inv_def)
  have q: "lseg (ps_heap s) (tp_queue_head (ps_pool s)) q" "distinct q"
    "dom (ps_heap s) = set q"
    using inv all_done_run_set [OF j k]
    by (auto simp: pool_sys_inv_def memory_inv_def queue_inv_def)
  have "(\<lambda>a. if a \<in> set q then None else ps_heap s a) = Map.empty"
    using q(3) by (auto simp: fun_eq_iff)
  then have "destroy_release (ps_pool s) (ps_heap s) = Some Map.empty"
    using free_tasks_lseg [OF q(1,2)] by (simp add: destroy_release_def)
  moreover have "released (s\<lparr>ps_heap := Map.empty, ps_dpc := D_Freed\<rparr>)"
    using inv nofault j k
    by (auto simp: released_def pool_sys_inv_def history_inv_def threads_inv_def thread_state_def)
  ultimately show ?thesis by blast
qed

lemma exec_destroy_next_inv:
  assumes inv: "pool_sys_inv s q" and nofault: "ps_fault s = None"
    and step: "exec_destroy_next s = Some s'"
  shows "if ps_dpc s' = D_Freed then released s' else pool_sys_inv s' q"
proof -
  have n: "nat (tp_thread_count (ps_pool s)) = length (ps_pcs s)"
    using inv by (simp add: pool_sys_inv_def threads_inv_def)
  show ?thesis
  proof (cases "ps_dpc s")
    case D_Idle
    then show ?thesis using step by (simp add: exec_destroy_next_def Let_def)
  next
    case (D_Signal i)
    show ?thesis
    proof (cases "i < length (ps_pcs s)")
      case True
      with D_Signal step n have "s' = (s\<lparr>ps_pool := destroy_signal_thread i (ps_pool s)\<rparr>)
          \<lparr>ps_dpc := D_Signal (Suc i)\<rparr>" by (simp add: exec_destroy_next_def Let_def)
      then show ?thesis using destroy_signal_inv [OF inv True] D_Signal
        by (simp add: set_dpc_inv)
    next
      case False
      with D_Signal step n have "s' = s\<lparr>ps_dpc := D_Join 0\<rparr>"
        by (simp add: exec_destroy_next_def Let_def)
      then show ?thesis using inv D_Signal by (simp add: set_dpc_inv)
    qed
  next
    case (D_Join i)
    show ?thesis
    proof (cases "i < length (ps_pcs s)")
      case True
      with D_Join step n have s': "s' = s\<lparr>ps_dpc := D_Join (Suc i)\<rparr>" "ps_pcs s ! i = W_Done"
        by (auto simp: exec_destroy_next_def Let_def split: if_splits)
      moreover have "joined (D_Join (Suc i)) (ps_pcs s)"
        using inv D_Join s'(2) by (auto simp: pool_sys_inv_def destroy_inv_def less_Suc_eq)
      ultimately show ?thesis using inv D_Join by (simp add: set_dpc_inv)
    next
      case False
      then show ?thesis
        using destroy_release_released [OF inv nofault D_Join] D_Join step n
        by (auto simp: exec_destroy_next_def Let_def)
    qed
  next
    case D_Freed
    then show ?thesis using step by (simp add: exec_destroy_next_def Let_def)
  qed
qed

subsection \<open>Creation establishes the invariants\<close>

lemma set_destroy_thread_objs:
  "set (destroy_thread_objs i rs) = set rs - (R_state_mutex ` {..<i} \<union> R_pause_cond ` {..<i})"
  by (induction i) (auto simp: lessThan_Suc)

lemma set_cancel_threads: "set (cancel_threads i rs) = set rs - R_thread ` {..<i}"
  by (induction i) (auto simp: lessThan_Suc)

definition pool_objs :: "nat \<Rightarrow> nat \<Rightarrow> pool_resource set" where
  "pool_objs i k = {R_pool, R_threads, R_lock, R_notify} \<union> R_state_mutex ` {..<i} \<union>
     R_pause_cond ` {..<i} \<union> R_thread ` {..<k}"

lemma init_threads_loop_objs:
  assumes "set rs = pool_objs i 0"
  shows "case init_threads_loop env i k rs of
    (False, rs') \<Rightarrow> rs' = [] | (True, rs') \<Rightarrow> set rs' = pool_objs (i + k) 0"
  using assms
proof (induction env i k rs rule: init_threads_loop.induct)
  case (1 env i rs)
  then show ?case by simp
next
  case (2 env i k rs)
  have "set (free_pool_objs (destroy_thread_objs i rs)) = {}"
    "set (free_pool_objs (destroy_thread_objs i (removeAll (R_state_mutex i) (R_state_mutex i # rs)))) = {}"
    using "2.prems" by (auto simp: free_pool_objs_def set_destroy_thread_objs pool_objs_def)
  moreover have "set (R_pause_cond i # R_state_mutex i # rs) = pool_objs (Suc i) 0"
    using "2.prems" by (auto simp: pool_objs_def lessThan_Suc)
  ultimately show ?case using "2.IH" by (auto simp: Let_def split: prod.splits bool.splits)
qed

lemma start_threads_loop_objs:
  assumes "set rs = pool_objs n i"
  shows "case start_threads_loop env n i k rs of
    (False, rs') \<Rightarrow> rs' = [] | (True, rs') \<Rightarrow> set rs' = pool_objs n (i + k)"
  using assms
proof (induction env n i k rs rule: start_threads_loop.induct)
  case (1 env n i rs)
  then show ?case by simp
next
  case (2 env n i k rs)
  have "set (free_pool_objs (destroy_thread_objs n (cancel_threads i rs))) = {}"
    using "2.prems"
    by (auto simp: free_pool_objs_def set_destroy_thread_objs set_cancel_threads pool_objs_def)
  moreover have "set (R_thread i # rs) = pool_objs n (Suc i)"
    using "2.prems" by (auto simp: pool_objs_def lessThan_Suc)
  ultimately show ?case using "2.IH" by (auto split: prod.splits bool.splits)
qed

lemma create_pool:
  "linx_thread_pool_create env n = (Some p, rs) \<Longrightarrow>
   p = new_pool env (normalise_num_threads (env_nproc env) n)"
  by (auto simp: linx_thread_pool_create_def Let_def split: if_splits prod.splits bool.splits)

lemma normalise_pos: "normalise_num_threads c n \<ge> 1"
  by (simp add: normalise_num_threads_def)

lemma new_pool_inv:
  assumes "linx_thread_pool_create env n = (Some p, rs)" "distinct_ids env n"
  shows "pool_sys_inv (pool_start p) []"
proof -
  have p: "p = new_pool env (normalise_num_threads (env_nproc env) n)"
    using assms(1) by (rule create_pool)
  have ids: "map ti_thread_id (tp_threads p) = map (env_pthread_id env)
      [0..<nat (normalise_num_threads (env_nproc env) n)]"
    by (simp add: p new_pool_def)
  have "threads_inv (pool_start p)"
    using assms(2) ids normalise_pos [of "env_nproc env" n]
    by (simp add: threads_inv_def pool_start_def distinct_ids_def) (simp add: p new_pool_def thread_state_def)
  then show ?thesis
    by (auto simp: pool_sys_inv_def memory_inv_def history_inv_def destroy_inv_def pool_start_def p
        new_pool_def queue_inv_def run_set_def run_uniq_def jobs_of_def)
qed

lemma pool_exec_inv:
  assumes inv: "pool_sys_inv s q" and step: "pool_exec act s = Some s'"
  shows "if ps_dpc s' = D_Freed then released s' else \<exists>q'. pool_sys_inv s' q'"
proof -
  have ok: "ps_fault s = None" "ps_dpc s \<noteq> D_Freed"
    using step by (auto simp: pool_exec_def split: if_splits)
  have worker_dpc: "linx_thread_worker i s = Some s' \<Longrightarrow> ps_dpc s' = ps_dpc s" for i
    by (auto simp: linx_thread_worker_def Let_def set_pc_def worker_finish_def
        split: worker_pc.splits option.splits linx_thread_state.splits sum.splits
          pool_section.splits)
  have add_dpc: "ps_dpc (exec_add l a g f x s) = ps_dpc s" for l a g f x
    by (auto simp: exec_add_def split: sum.splits option.splits prod.splits)
  have destroy_dpc: "exec_destroy l b g s = Some s' \<Longrightarrow> ps_dpc s' \<noteq> D_Freed" for l b g
    using ok
    by (auto simp: exec_destroy_def split: sum.splits option.splits prod.splits if_splits)
  show ?thesis
  proof (cases act)
    case (A_Worker i)
    with step ok have "linx_thread_worker i s = Some s'" "i < length (ps_pcs s)"
      by (auto simp: pool_exec_def split: if_splits)
    then show ?thesis using worker_inv [OF inv _ ok(1)] worker_dpc ok by auto
  next
    case (A_Add l a g f x)
    with step ok have "s' = exec_add l a g f x s" "alloc_fresh a (ps_heap s)"
      by (auto simp: pool_exec_def split: if_splits)
    then show ?thesis using exec_add_inv [OF inv] add_dpc ok by simp
  next
    case (A_Destroy l b g)
    with step ok have "exec_destroy l b g s = Some s'" by (simp add: pool_exec_def)
    from exec_destroy_inv [OF inv ok(1) this] destroy_dpc [OF this] show ?thesis by auto
  next
    case A_Destroy_next
    with step ok have "exec_destroy_next s = Some s'" by (simp add: pool_exec_def)
    from exec_destroy_next_inv [OF inv ok(1) this] show ?thesis by auto
  qed (use step ok state_change_inv [OF inv] in \<open>auto simp: pool_exec_def\<close>)
qed

lemma pool_reachable_inv:
  "pool_reachable s \<Longrightarrow> if ps_dpc s = D_Freed then released s else \<exists>q. pool_sys_inv s q"
proof (induction rule: pool_reachable.induct)
  case (start env n p rs)
  have "pool_sys_inv (pool_start p) []" using start by (rule new_pool_inv)
  moreover have "ps_dpc (pool_start p) = D_Idle" by (simp add: pool_start_def)
  ultimately show ?case by auto
next
  case (step s act s')
  then have "ps_dpc s \<noteq> D_Freed" by (auto simp: pool_exec_def split: if_splits)
  with step show ?case using pool_exec_inv by auto
qed

lemma pool_reachable_released:
  "pool_reachable s \<Longrightarrow> ps_dpc s = D_Freed \<Longrightarrow> released s"
  using pool_reachable_inv [of s] by simp

lemma pool_reachable_live:
  "pool_reachable s \<Longrightarrow> ps_dpc s \<noteq> D_Freed \<Longrightarrow> \<exists>q. pool_sys_inv s q"
  using pool_reachable_inv [of s] by simp

lemma pool_reachable_threads: "pool_reachable s \<Longrightarrow> threads_inv s"
  using pool_reachable_inv [of s]
  by (auto simp: released_def pool_sys_inv_def split: if_splits)

section \<open>The pool's queue provides the FIFO interface\<close>

text \<open>
  The abstract content of the queue is read off the heap by following \<open>tk_next\<close> as often
  as \<open>tp_queue_size\<close> says.
\<close>

fun queue_walk :: "nat \<Rightarrow> nat option \<Rightarrow> task_heap \<Rightarrow> nat list" where
  "queue_walk 0 p h = []"
| "queue_walk (Suc n) None h = []"
| "queue_walk (Suc n) (Some a) h =
     a # (case h a of None \<Rightarrow> [] | Some t \<Rightarrow> queue_walk n (tk_next t) h)"

lemma queue_walk_lseg: "lseg h p q \<Longrightarrow> queue_walk (length q) p h = q"
  by (induction q arbitrary: p) (auto split: option.splits)

definition pq_invar :: "linx_thread_pool \<times> task_heap \<Rightarrow> bool" where
  "pq_invar s \<longleftrightarrow> tp_shutdown (fst s) = 0 \<and> (\<exists>q. queue_inv (fst s) (snd s) q)"

definition pq_elems :: "linx_thread_pool \<times> task_heap \<Rightarrow> (nat \<times> nat) list" where
  "pq_elems s = jobs_of (snd s)
     (queue_walk (nat (tp_queue_size (fst s))) (tp_queue_head (fst s)) (snd s))"

definition pq_enq :: "nat \<Rightarrow> nat \<times> nat \<Rightarrow> linx_thread_pool \<times> task_heap \<Rightarrow>
    linx_thread_pool \<times> task_heap" where
  "pq_enq a job s =
     (case enqueue_task a (fst job) (snd job) (fst s) (snd s) of Inl f \<Rightarrow> s | Inr s' \<Rightarrow> s')"

definition pq_deq :: "linx_thread_pool \<times> task_heap \<Rightarrow>
    ((nat \<times> nat) \<times> linx_thread_pool \<times> task_heap) option" where
  "pq_deq s =
     (case worker_pool_section (fst s) (snd s) of
        Inr (P_take a p') \<Rightarrow> Some (tk_job (the (snd s a)), p', snd s)
      | _ \<Rightarrow> None)"

lemma pq_elems_queue: "queue_inv p h q \<Longrightarrow> pq_elems (p, h) = jobs_of h q"
  using queue_walk_lseg [of h "tp_queue_head p" q] by (simp add: pq_elems_def queue_inv_def)

lemma pq_enq_step:
  assumes "pq_invar s" "snd s a = None"
  shows "pq_invar (pq_enq a job s)" "pq_elems (pq_enq a job s) = pq_elems s @ [job]"
proof -
  obtain p h where s: "s = (p, h)" by fastforce
  obtain f x where job: "job = (f, x)" by fastforce
  from assms s obtain q where q: "queue_inv p h q" "tp_shutdown p = 0" by (auto simp: pq_invar_def)
  from enqueue_task_inv [OF q(1), of a f x] assms(2) s obtain p' h' where
    eq: "enqueue_task a f x p h = Inr (p', h')" and qi: "queue_inv p' h' (q @ [a])"
    and p': "p' = p\<lparr>tp_queue_head := tp_queue_head p', tp_queue_tail := tp_queue_tail p',
           tp_queue_size := tp_queue_size p'\<rparr>"
    and jobs: "\<forall>b. b \<noteq> a \<longrightarrow> map_option tk_job (h' b) = map_option tk_job (h b)"
      "map_option tk_job (h' a) = Some (f, x)" by auto
  have sh: "tp_shutdown p' = 0" by (subst p') (simp add: q(2))
  have "tk_job (the (h' b)) = tk_job (the (h b))" if "b \<in> set q" for b
  proof -
    have "b \<in> dom h" using that q(1) lseg_dom unfolding queue_inv_def by blast
    moreover from this assms(2) s have "b \<noteq> a" by auto
    ultimately show ?thesis using jobs(1) by (metis domD option.map_sel option.map_disc_iff option.sel)
  qed
  moreover have "tk_job (the (h' a)) = (f, x)" using jobs(2) by auto
  ultimately have "jobs_of h' (q @ [a]) = jobs_of h q @ [(f, x)]" by (simp add: jobs_of_def)
  then show "pq_invar (pq_enq a job s)" "pq_elems (pq_enq a job s) = pq_elems s @ [job]"
    using eq qi sh q s job pq_elems_queue [OF q(1)] pq_elems_queue [OF qi]
    by (auto simp: pq_enq_def pq_invar_def)
qed

lemma pq_deq_empty: "pq_invar s \<Longrightarrow> pq_elems s = [] \<Longrightarrow> pq_deq s = None"
proof -
  assume inv: "pq_invar s" and e: "pq_elems s = []"
  obtain p h where s: "s = (p, h)" by fastforce
  from inv s obtain q where q: "queue_inv p h q" "tp_shutdown p = 0" by (auto simp: pq_invar_def)
  with e s pq_elems_queue [OF q(1)] have "q = []" by (simp add: jobs_of_def)
  with q s show ?thesis by (simp add: pq_deq_def worker_pool_section_def queue_inv_def)
qed

lemma pq_deq_step:
  assumes inv: "pq_invar s" and e: "pq_elems s = job # jobs"
  shows "\<exists>s'. pq_deq s = Some (job, s') \<and> pq_invar s' \<and> pq_elems s' = jobs"
proof -
  obtain p h where s: "s = (p, h)" by fastforce
  from inv s obtain q where q: "queue_inv p h q" "tp_shutdown p = 0" by (auto simp: pq_invar_def)
  with e s pq_elems_queue [OF q(1)] obtain a q' where aq: "q = a # q'" "job = tk_job (the (h a))"
    "jobs = jobs_of h q'" by (cases q) (auto simp: jobs_of_def)
  from worker_take_inv [OF q(1) [unfolded aq(1)]] obtain t where t: "h a = Some t"
    "tp_queue_head p = Some a" "tp_queue_size p \<noteq> 0" "queue_inv (dequeue_head a t p) h q'" by blast
  have "pq_deq s = Some (job, dequeue_head a t p, h)"
    using t q(2) s aq(2) by (simp add: pq_deq_def worker_pool_section_def)
  moreover have "tp_shutdown (dequeue_head a t p) = 0" using q(2) by (simp add: dequeue_head_def)
  ultimately show ?thesis using t(4) aq(3) pq_elems_queue [OF t(4)] by (auto simp: pq_invar_def)
qed

interpretation task_fifo: fifo_queue pq_invar pq_elems "\<lambda>a s. snd s a = None" pq_enq pq_deq
  by unfold_locales (rule pq_enq_step pq_deq_empty pq_deq_step; assumption)+

section \<open>Concrete runs\<close>

definition demo_env :: create_env where
  "demo_env = \<lparr>env_nproc = 4, env_malloc_pool = True, env_malloc_threads = True,
     env_mutex_lock = True, env_cond_notify = True, env_mutex_state = (\<lambda>_. True),
     env_cond_pause = (\<lambda>_. True), env_pthread_create = (\<lambda>_. True), env_pthread_id = (\<lambda>i. i)\<rparr>"

definition demo_run :: "int \<Rightarrow> pool_action list \<Rightarrow> pool_sys option" where
  "demo_run n acts = pool_run acts (pool_start (new_pool demo_env n))"

lemma demo_run_reachable:
  assumes "demo_run n acts = Some s" "n = 1 \<or> n = 2"
  shows "pool_reachable s"
proof -
  have "distinct_ids demo_env n"
    by (simp add: distinct_ids_def demo_env_def distinct_map)
  moreover have "\<exists>rs. linx_thread_pool_create demo_env n = (Some (new_pool demo_env n), rs)"
    using assms(2)
    by (auto simp: linx_thread_pool_create_def demo_env_def normalise_num_threads_def numeral_2_eq_2)
  ultimately show ?thesis
    using assms(1) pool_run_reachable pool_reachable.start unfolding demo_run_def by blast
qed

text \<open>Two workers, two jobs taken, a third one queued.\<close>

definition acts_two_running :: "pool_action list" where
  "acts_two_running =
     [A_Worker 0, A_Worker 0, A_Worker 1, A_Worker 1, A_Add True (Some 7) True 11 1,
      A_Add True (Some 8) True 12 2, A_Add True (Some 9) True 13 3, A_Worker 0, A_Worker 1]"

text \<open>One worker finishes a job, a second job is queued, the pool is destroyed gracefully.\<close>

definition acts_graceful :: "pool_action list" where
  "acts_graceful =
     [A_Worker 0, A_Worker 0, A_Add True (Some 7) True 11 1, A_Worker 0, A_Worker 0,
      A_Add True (Some 7) True 12 2, A_Destroy True True 1, A_Destroy_next, A_Destroy_next,
      A_Worker 0, A_Worker 0, A_Worker 0, A_Destroy_next, A_Destroy_next]"

lemmas pool_eval = demo_run_def pool_exec_def linx_thread_worker_def set_pc_def new_pool_def
  pool_start_def worker_pool_section_def worker_finish_def dequeue_head_def exec_add_def
  linx_thread_pool_add_task_def enqueue_task_def alloc_fresh_def exec_destroy_def
  destroy_begin_def exec_destroy_next_def destroy_signal_thread_def destroy_release_def
  set_thread_state_def thread_state_def mark_tasks.simps free_tasks.simps tk_job_def Let_def
  demo_env_def

lemma run_two_running:
  "\<exists>s. demo_run 2 acts_two_running = Some s \<and> ps_dpc s = D_Idle \<and>
     ps_started s = [(11, 1), (12, 2)] \<and> ps_submitted s = [(11, 1), (12, 2), (13, 3)] \<and>
     ps_pcs s = [W_Run 7, W_Run 8] \<and> tp_queue_head (ps_pool s) = Some 9 \<and> ps_fault s = None"
  by (simp add: acts_two_running_def pool_eval upt_rec numeral_2_eq_2)

lemma run_graceful:
  "\<exists>s. demo_run 1 acts_graceful = Some s \<and> ps_dpc s = D_Freed \<and> ps_started s = [(11, 1)] \<and>
     ps_submitted s = [(11, 1), (12, 2)] \<and> tp_shutdown (ps_pool s) = 1"
  by (simp add: acts_graceful_def pool_eval upt_rec)

section \<open>Properties\<close>

text \<open>
  C5. Jobs are started in the order in which they were submitted and none is lost or
  duplicated: at every reachable moment before the release, what was submitted is what was
  started followed by the jobs of the linked queue, and \<^verbatim>\<open>queue_size\<close> is its length.
\<close>

theorem pool_jobs_fifo:
  assumes "pool_reachable s" "ps_dpc s \<noteq> D_Freed"
  shows "\<exists>q. lseg (ps_heap s) (tp_queue_head (ps_pool s)) q \<and>
    linx_thread_pool_get_queue_size (Some (ps_pool s)) = int (length q) \<and>
    ps_submitted s = ps_started s @ jobs_of (ps_heap s) q"
  using pool_reachable_live [OF assms]
  by (auto simp: pool_sys_inv_def memory_inv_def queue_inv_def history_inv_def
      linx_thread_pool_get_queue_size_def)

theorem pool_jobs_fifo_witness:
  "\<exists>s q. pool_reachable s \<and> ps_started s = [(11, 1), (12, 2)] \<and>
     lseg (ps_heap s) (tp_queue_head (ps_pool s)) q \<and>
     ps_submitted s = ps_started s @ jobs_of (ps_heap s) q \<and> jobs_of (ps_heap s) q = [(13, 3)]"
proof -
  obtain s where s: "demo_run 2 acts_two_running = Some s" "ps_dpc s = D_Idle"
    "ps_started s = [(11, 1), (12, 2)]" "ps_submitted s = [(11, 1), (12, 2), (13, 3)]"
    using run_two_running by blast
  have r: "pool_reachable s" using demo_run_reachable [OF s(1)] by simp
  show ?thesis using pool_jobs_fifo [OF r] s r by fastforce
qed

text \<open>
  C14. Task memory is owned exactly once: before the release the allocated tasks are the
  queued ones and the running ones, the two are disjoint, no task is queued twice and no two
  workers run the same task.
\<close>

theorem pool_task_ownership:
  assumes "pool_reachable s" "ps_dpc s \<noteq> D_Freed"
  shows "\<exists>q. lseg (ps_heap s) (tp_queue_head (ps_pool s)) q \<and> distinct q \<and>
    dom (ps_heap s) = set q \<union> run_set (ps_pcs s) \<and> set q \<inter> run_set (ps_pcs s) = {} \<and>
    run_uniq (ps_pcs s)"
  using pool_reachable_live [OF assms]
  by (auto simp: pool_sys_inv_def memory_inv_def queue_inv_def)

theorem pool_task_ownership_witness:
  "\<exists>s q. pool_reachable s \<and> ps_pcs s = [W_Run 7, W_Run 8] \<and>
     lseg (ps_heap s) (tp_queue_head (ps_pool s)) q \<and>
     dom (ps_heap s) = set q \<union> run_set (ps_pcs s)"
proof -
  obtain s where s: "demo_run 2 acts_two_running = Some s" "ps_dpc s = D_Idle"
    "ps_pcs s = [W_Run 7, W_Run 8]"
    using run_two_running by blast
  have r: "pool_reachable s" using demo_run_reachable [OF s(1)] by simp
  show ?thesis using pool_task_ownership [OF r] s r by fastforce
qed



text \<open>
  C16. \<^verbatim>\<open>linx_thread_pool_destroy\<close> leaks no task: once it has released the pool the task
  heap is empty and every worker has finished, whatever was queued or running before.
\<close>

theorem pool_destroy_frees_all:
  assumes "pool_reachable s" "ps_dpc s = D_Freed"
  shows "ps_heap s = Map.empty \<and> (\<forall>i < length (ps_pcs s). ps_pcs s ! i = W_Done) \<and>
    tp_active_threads (ps_pool s) = 0"
proof -
  have r: "released s" using pool_reachable_released [OF assms] .
  then have "filter (\<lambda>pc. pc = W_Done) (ps_pcs s) = ps_pcs s"
    by (auto simp: released_def in_set_conv_nth intro!: filter_True)
  with r show ?thesis by (simp add: released_def threads_inv_def)
qed

theorem pool_destroy_frees_all_witness:
  "\<exists>s. pool_reachable s \<and> ps_dpc s = D_Freed \<and> ps_heap s = Map.empty"
proof -
  obtain s where s: "demo_run 1 acts_graceful = Some s" "ps_dpc s = D_Freed"
    using run_graceful by blast
  have r: "pool_reachable s" using demo_run_reachable [OF s(1)] by simp
  show ?thesis using pool_destroy_frees_all [OF r s(2)] r s(2) by blast
qed

text \<open>
  A graceful shutdown can drop queued tasks: the destroying thread sets every worker to
  TERMINATING right after the flags, and a worker in that state leaves its loop before it
  looks at the queue, although the comment at the flags promises that pending tasks are run.
\<close>

theorem pool_graceful_shutdown_drops_task:
  "\<exists>s job. pool_reachable s \<and> ps_dpc s = D_Freed \<and> tp_shutdown (ps_pool s) = 1 \<and>
     job \<in> set (ps_submitted s) \<and> job \<notin> set (ps_started s)"
proof -
  obtain s where s: "demo_run 1 acts_graceful = Some s" "ps_dpc s = D_Freed"
    "ps_started s = [(11, 1)]" "ps_submitted s = [(11, 1), (12, 2)]"
    "tp_shutdown (ps_pool s) = 1"
    using run_graceful by blast
  have "pool_reachable s" using demo_run_reachable [OF s(1)] by simp
  with s show ?thesis by (intro exI [of _ s] exI [of _ "(12, 2)"]) simp
qed

text \<open>
  Shutdown does not reach every running task: \<^verbatim>\<open>task_runing\<close> remembers only the task
  started last, so with two busy workers one of them keeps \<^verbatim>\<open>should_stop = 0\<close>, while every
  queued task gets the flag.
\<close>

theorem pool_shutdown_misses_running_task:
  "\<exists>s a t. pool_reachable s \<and> tp_shutdown (ps_pool s) \<noteq> 0 \<and> a \<in> run_set (ps_pcs s) \<and>
     ps_heap s a = Some t \<and> tk_should_stop t = 0"
proof -
  let ?acts = "acts_two_running @ [A_Destroy True True 1]"
  have "\<exists>s t. demo_run 2 ?acts = Some s \<and> tp_shutdown (ps_pool s) = 1 \<and>
      ps_pcs s = [W_Run 7, W_Run 8] \<and> ps_heap s 7 = Some t \<and> tk_should_stop t = 0"
    by (simp add: acts_two_running_def pool_eval upt_rec numeral_2_eq_2)
  then obtain s t where s: "demo_run 2 ?acts = Some s" "tp_shutdown (ps_pool s) = 1"
    "ps_pcs s = [W_Run 7, W_Run 8]" "ps_heap s 7 = Some t" "tk_should_stop t = 0" by blast
  have "pool_reachable s" using demo_run_reachable [OF s(1)] by simp
  with s show ?thesis by (intro exI [of _ s] exI [of _ 7] exI [of _ t]) (simp add: run_set_def)
qed


text \<open>
  C38. \<^verbatim>\<open>active_threads\<close> counts exactly the workers that have not finished, in every
  reachable state; \<^verbatim>\<open>linx_thread_pool_get_active_threads\<close> nevertheless answers the size of
  the pool, which the count never exceeds.
\<close>

theorem pool_active_threads_count:
  assumes "pool_reachable s"
  shows "tp_active_threads (ps_pool s) =
      int (length (filter (\<lambda>pc. pc \<noteq> W_Done) (ps_pcs s))) \<and>
    linx_thread_pool_get_active_threads (Some (ps_pool s)) = int (length (ps_pcs s))"
proof -
  have t: "threads_inv s" using assms by (rule pool_reachable_threads)
  have "length (filter (\<lambda>pc. pc = W_Done) (ps_pcs s)) +
      length (filter (\<lambda>pc. pc \<noteq> W_Done) (ps_pcs s)) = length (ps_pcs s)"
    using sum_length_filter_compl [of "\<lambda>pc. pc = W_Done" "ps_pcs s"] by simp
  with t show ?thesis
    by (auto simp: threads_inv_def linx_thread_pool_get_active_threads_def)
qed

theorem pool_active_threads_count_witness:
  "\<exists>s. pool_reachable s \<and> tp_active_threads (ps_pool s) = 0 \<and>
     linx_thread_pool_get_active_threads (Some (ps_pool s)) = 1"
proof -
  obtain s where s: "demo_run 1 acts_graceful = Some s" "ps_dpc s = D_Freed"
    using run_graceful by blast
  have r: "pool_reachable s" using demo_run_reachable [OF s(1)] by simp
  have "\<exists>s. demo_run 1 acts_graceful = Some s \<and> ps_pcs s = [W_Done]"
    by (simp add: acts_graceful_def pool_eval upt_rec)
  then have "ps_pcs s = [W_Done]" using s(1) by simp
  then show ?thesis using pool_active_threads_count [OF r] r by auto
qed

end
