(* ===== verification/Log.thy ===== *)
theory Log
  imports Linx_Prelude
begin

text \<open>
  The logger (\<^verbatim>\<open>linx_log.c\<close>): level names, initialisation with every failure of the platform, the growing
  array that serves as message queue, the producers and the log thread. The queue is the C array
  with its \<^verbatim>\<open>queue_size\<close> and \<^verbatim>\<open>queue_capacity\<close>; slots that were never written are \<open>None\<close>. The time stamp of a
  message is left out. Producers and the thread interleave between the critical sections of
  \<^verbatim>\<open>linx_log_queue_push\<close> and \<^verbatim>\<open>linx_log_queue_pop\<close>.
\<close>

section \<open>Levels and messages\<close>

definition LINX_LOG_LEVEL_MAX :: nat where "LINX_LOG_LEVEL_MAX = 5"

definition linx_log_level_str :: "string list" where
  "linx_log_level_str = [''DEBUG'', ''INFO'', ''WARNING'', ''ERROR'', ''FATAL'']"

fun level_scan :: "string \<Rightarrow> string list \<Rightarrow> nat \<Rightarrow> nat" where
  "level_scan s [] i = LINX_LOG_LEVEL_MAX"
| "level_scan s (x # xs) i = (if s = x then i else level_scan s xs (Suc i))"

definition linx_log_level_str_to_level :: "string option \<Rightarrow> nat" where
  "linx_log_level_str_to_level level_str =
    (case level_str of None \<Rightarrow> LINX_LOG_LEVEL_MAX | Some s \<Rightarrow> level_scan s linx_log_level_str 0)"

record linx_log_message =
  lm_message :: string
  lm_level :: nat

datatype log_file = LogStderr | LogPath string

record linx_log_t =
  log_level :: nat
  log_output :: log_file
  log_pool :: bool
  log_queue :: "linx_log_message option list"
  log_queue_size :: nat

text \<open>\<^verbatim>\<open>queue_capacity\<close> is the length of the array.\<close>

abbreviation log_queue_capacity :: "linx_log_t \<Rightarrow> nat" where
  "log_queue_capacity lg \<equiv> length (log_queue lg)"

section \<open>The queue\<close>

text \<open>\<open>ok\<close> is the outcome of \<^verbatim>\<open>realloc\<close>; the message is freed when it fails.\<close>

definition grow_queue :: "linx_log_t \<Rightarrow> linx_log_t" where
  "grow_queue lg =
    lg\<lparr>log_queue := log_queue lg @
         replicate ((if log_queue_capacity lg = 0 then 16 else log_queue_capacity lg * 2) - log_queue_capacity lg) None\<rparr>"

definition linx_log_queue_push :: "bool \<Rightarrow> linx_log_message \<Rightarrow> linx_log_t \<Rightarrow> linx_log_t" where
  "linx_log_queue_push ok msg lg =
    (let full = log_queue_size lg \<ge> log_queue_capacity lg
     in if full \<and> \<not> ok then lg
        else
          (let lg = (if full then grow_queue lg else lg)
           in lg\<lparr>log_queue := (log_queue lg)[log_queue_size lg := Some msg],
                 log_queue_size := log_queue_size lg + 1\<rparr>))"

fun shift_loop :: "nat \<Rightarrow> nat \<Rightarrow> 'a list \<Rightarrow> 'a list" where
  "shift_loop i 0 q = q"
| "shift_loop i (Suc n) q = shift_loop (Suc i) n (q[i - 1 := q ! i])"

definition linx_log_queue_pop :: "linx_log_t \<Rightarrow> (linx_log_message option \<times> linx_log_t) option" where
  "linx_log_queue_pop lg =
    (if log_queue_size lg = 0 then None
     else Some (log_queue lg ! 0,
       lg\<lparr>log_queue := shift_loop 1 (log_queue_size lg - 1) (log_queue lg),
          log_queue_size := log_queue_size lg - 1\<rparr>))"

section \<open>Producers\<close>

definition MSG_BUF :: nat where "MSG_BUF = 1024"

definition log_prefix :: "string \<Rightarrow> int \<Rightarrow> string" where
  "log_prefix file line = ''['' @ file @ '':'' @ show_int line @ '']: ''"

text \<open>\<open>body\<close> is the text the format and its arguments give, \<open>None\<close> when \<^verbatim>\<open>vsnprintf\<close> fails; \<open>okm\<close>, \<open>oks\<close>, \<open>okq\<close> are
  the outcomes of \<^verbatim>\<open>malloc\<close>, \<^verbatim>\<open>strdup\<close> and of the queue's \<^verbatim>\<open>realloc\<close>.\<close>

definition linx_log_v ::
  "bool \<Rightarrow> bool \<Rightarrow> bool \<Rightarrow> nat \<Rightarrow> string \<Rightarrow> int \<Rightarrow> string option \<Rightarrow> linx_log_t \<Rightarrow> linx_log_t" where
  "linx_log_v okm oks okq level file line body lg =
    (if level < log_level lg then lg
     else if length (log_prefix file line) \<ge> MSG_BUF then lg
     else
       (case body of
          None \<Rightarrow> lg
        | Some t \<Rightarrow>
            if \<not> okm then lg
            else if \<not> oks then lg
            else linx_log_queue_push okq
                   \<lparr>lm_message = take (MSG_BUF - 1) (log_prefix file line @ t), lm_level = level\<rparr> lg))"

section \<open>Initialisation and shutdown\<close>

text \<open>\<^verbatim>\<open>g_linx_log_instance\<close> may be NULL, valid, or point to freed memory; \<open>log_res\<close> counts what the logger
  holds of the platform.\<close>

datatype log_global = LogNull | LogLive linx_log_t | LogDangling

record log_res =
  res_mutexes :: int
  res_files :: int
  res_pools :: int

record log_platform =
  ok_instance :: bool
  ok_mutex :: bool
  ok_open :: bool
  ok_pool :: bool
  ok_task :: bool

definition linx_log_deinit :: "log_global \<Rightarrow> log_res \<Rightarrow> (log_global \<times> log_res) res" where
  "linx_log_deinit g r =
    (case g of
       LogNull \<Rightarrow> Inr (g, r)
     | LogDangling \<Rightarrow> Inl UseAfterFree
     | LogLive lg \<Rightarrow>
         Inr (LogNull,
           \<lparr>res_mutexes = res_mutexes r - 1,
            res_files = res_files r - of_bool (log_output lg \<noteq> LogStderr),
            res_pools = res_pools r - of_bool (log_pool lg)\<rparr>))"

definition log_fields :: "nat \<Rightarrow> log_file \<Rightarrow> bool \<Rightarrow> linx_log_t" where
  "log_fields level out pool =
    \<lparr>log_level = level, log_output = out, log_pool = pool, log_queue = [], log_queue_size = 0\<rparr>"

definition choose_output :: "string option \<Rightarrow> log_file" where
  "choose_output log_file =
    (case log_file of None \<Rightarrow> LogStderr | Some f \<Rightarrow> if f = ''stderr'' then LogStderr else LogPath f)"

definition linx_log_init ::
  "log_platform \<Rightarrow> string option \<Rightarrow> string option \<Rightarrow> log_global \<Rightarrow> log_res \<Rightarrow>
   (int \<times> log_global \<times> log_res) res" where
  "linx_log_init pl log_file lvl g r =
    (let level = linx_log_level_str_to_level lvl
     in if level \<ge> LINX_LOG_LEVEL_MAX then Inr (- 1, g, r)
        else if g \<noteq> LogNull then Inr (0, g, r)
        else if \<not> ok_instance pl then Inr (- 1, LogNull, r)
        else if \<not> ok_mutex pl then Inr (- 1, LogDangling, r)
        else
          (let r = r\<lparr>res_mutexes := res_mutexes r + 1\<rparr>;
               out = choose_output log_file
           in if out \<noteq> LogStderr \<and> \<not> ok_open pl then Inr (- 1, LogNull, r)
              else
                (let r = r\<lparr>res_files := res_files r + of_bool (out \<noteq> LogStderr)\<rparr>
                 in if \<not> ok_pool pl
                    then map_sum id (\<lambda>(g, r). (- 1, g, r)) (linx_log_deinit (LogLive (log_fields level out False)) r)
                    else
                      (let r = r\<lparr>res_pools := res_pools r + 1\<rparr>
                       in if \<not> ok_task pl
                          then map_sum id (\<lambda>(g, r). (- 1, g, r)) (linx_log_deinit (LogLive (log_fields level out True)) r)
                          else Inr (0, LogLive (log_fields level out True), r)))))"

text \<open>The public entry reads the instance before anything else.\<close>

definition linx_log ::
  "bool \<Rightarrow> bool \<Rightarrow> bool \<Rightarrow> nat \<Rightarrow> string \<Rightarrow> int \<Rightarrow> string option \<Rightarrow> log_global \<Rightarrow> log_global res" where
  "linx_log okm oks okq level file line body g =
    (case g of
       LogNull \<Rightarrow> Inl NullDeref
     | LogDangling \<Rightarrow> Inl UseAfterFree
     | LogLive lg \<Rightarrow>
         Inr (LogLive (if level < log_level lg then lg else linx_log_v okm oks okq level file line body lg)))"


section \<open>The log thread\<close>

datatype log_thread_pc = ThreadPop | ThreadGot "linx_log_message option" | ThreadExit

record log_sys =
  sys_log :: linx_log_t
  should_stop :: nat
  log_pc :: log_thread_pc
  written :: "linx_log_message list"
  accepted :: "linx_log_message list"
  lost :: "linx_log_message list"

text \<open>One atomic part of the loop: taking a message, or testing the stop flag and writing. What is written
  is \<^verbatim>\<open>[time] [LEVEL] message\<close>; \<open>lost\<close> is the message in hand at an immediate stop.\<close>

definition linx_log_thread :: "log_sys \<Rightarrow> log_sys res" where
  "linx_log_thread s =
    (case log_pc s of
       ThreadExit \<Rightarrow> Inr s
     | ThreadPop \<Rightarrow>
         (case linx_log_queue_pop (sys_log s) of
            None \<Rightarrow> Inr (s\<lparr>log_pc := ThreadGot None\<rparr>)
          | Some (None, lg) \<Rightarrow> Inl UninitRead
          | Some (Some m, lg) \<Rightarrow> Inr (s\<lparr>log_pc := ThreadGot (Some m), sys_log := lg\<rparr>))
     | ThreadGot msg \<Rightarrow>
         if should_stop s = 2 then
           Inr (s\<lparr>log_pc := ThreadExit, lost := lost s @ (case msg of None \<Rightarrow> [] | Some m \<Rightarrow> [m])\<rparr>)
         else
           (case msg of
              None \<Rightarrow> Inr (s\<lparr>log_pc := (if should_stop s = 1 then ThreadExit else ThreadPop)\<rparr>)
            | Some m \<Rightarrow>
                if lm_level m \<ge> LINX_LOG_LEVEL_MAX then Inl OutOfBounds
                else Inr (s\<lparr>log_pc := ThreadPop, written := written s @ [m]\<rparr>)))"

definition log_elems :: "linx_log_t \<Rightarrow> linx_log_message list" where
  "log_elems lg = map the (take (log_queue_size lg) (log_queue lg))"

definition log_boot :: "nat \<Rightarrow> log_file \<Rightarrow> log_sys" where
  "log_boot level out =
    \<lparr>sys_log = log_fields level out True, should_stop = 0, log_pc = ThreadPop, written = [], accepted = [], lost = []\<rparr>"

text \<open>Any number of producers, the log thread, and the pool raising the stop flag.\<close>

inductive log_reach :: "nat \<Rightarrow> log_file \<Rightarrow> log_sys \<Rightarrow> bool" for level0 out where
  boot: "log_reach level0 out (log_boot level0 out)"
| produce: "log_reach level0 out s \<Longrightarrow> level < LINX_LOG_LEVEL_MAX \<Longrightarrow>
    lg = linx_log_v okm oks okq level file line body (sys_log s) \<Longrightarrow>
    log_reach level0 out (s\<lparr>sys_log := lg,
      accepted := accepted s @ drop (log_queue_size (sys_log s)) (log_elems lg)\<rparr>)"
| raise_stop: "log_reach level0 out s \<Longrightarrow> should_stop s \<le> k \<Longrightarrow> k \<le> 2 \<Longrightarrow>
    log_reach level0 out (s\<lparr>should_stop := k\<rparr>)"
| thread: "log_reach level0 out s \<Longrightarrow> linx_log_thread s = Inr s' \<Longrightarrow> log_reach level0 out s'"

section \<open>The queue is a FIFO queue\<close>

definition log_inv :: "linx_log_t \<Rightarrow> bool" where
  "log_inv lg \<longleftrightarrow> log_queue_size lg \<le> log_queue_capacity lg \<and>
     list_all (\<lambda>m. m \<noteq> None) (take (log_queue_size lg) (log_queue lg))"

definition log_room :: "bool \<Rightarrow> linx_log_t \<Rightarrow> bool" where
  "log_room ok lg \<longleftrightarrow> ok \<or> log_queue_size lg < log_queue_capacity lg"

definition log_pop :: "linx_log_t \<Rightarrow> (linx_log_message \<times> linx_log_t) option" where
  "log_pop lg = map_option (\<lambda>(m, lg). (the m, lg)) (linx_log_queue_pop lg)"

lemma shift_loop_spec:
  "i \<ge> 1 \<Longrightarrow> i + n \<le> length q \<Longrightarrow>
   length (shift_loop i n q) = length q \<and>
   (\<forall>j < length q. shift_loop i n q ! j = (if i - 1 \<le> j \<and> j < i - 1 + n then q ! Suc j else q ! j))"
proof (induction n arbitrary: i q)
  case (Suc n)
  let ?q = "q[i - 1 := q ! i]"
  have IH: "length (shift_loop (Suc i) n ?q) = length q"
    "\<forall>j < length q. shift_loop (Suc i) n ?q ! j = (if i \<le> j \<and> j < i + n then ?q ! Suc j else ?q ! j)"
    using Suc.IH [of "Suc i" ?q] Suc.prems by auto
  show ?case
  proof (intro conjI allI impI)
    show "length (shift_loop i (Suc n) q) = length q" using IH(1) by simp
    fix j assume j: "j < length q"
    have "shift_loop i (Suc n) q ! j = (if i \<le> j \<and> j < i + n then ?q ! Suc j else ?q ! j)"
      using IH(2) j by simp
    also have "\<dots> = (if i - 1 \<le> j \<and> j < i - 1 + Suc n then q ! Suc j else q ! j)"
      using Suc.prems j by (cases "j = i - 1") (auto simp: nth_list_update)
    finally show "shift_loop i (Suc n) q ! j = (if i - 1 \<le> j \<and> j < i - 1 + Suc n then q ! Suc j else q ! j)" .
  qed
qed auto

text \<open>The shifting loop of \<^verbatim>\<open>linx_log_queue_pop\<close> removes the head of the used part of the array.\<close>

lemma shift_loop_take:
  assumes "0 < n" "n \<le> length q"
  shows "take (n - 1) (shift_loop 1 (n - 1) q) = tl (take n q)"
proof (rule nth_equalityI)
  have len: "length (shift_loop 1 (n - 1) q) = length q" using shift_loop_spec [of 1 "n - 1" q] assms by simp
  then show "length (take (n - 1) (shift_loop 1 (n - 1) q)) = length (tl (take n q))" using assms by simp
  fix j assume "j < length (take (n - 1) (shift_loop 1 (n - 1) q))"
  then have "j < n - 1" "j < length q" using len by simp_all
  then show "take (n - 1) (shift_loop 1 (n - 1) q) ! j = tl (take n q) ! j"
    using shift_loop_spec [of 1 "n - 1" q] assms by (simp add: nth_tl)
qed

lemma push_inv_elems:
  assumes "log_inv lg" "log_room ok lg"
  shows "log_inv (linx_log_queue_push ok m lg)" "log_elems (linx_log_queue_push ok m lg) = log_elems lg @ [m]"
    "log_queue_size (linx_log_queue_push ok m lg) = Suc (log_queue_size lg)"
proof -
  let ?lg = "if log_queue_size lg \<ge> log_queue_capacity lg then grow_queue lg else lg"
  have g: "log_queue_size lg < log_queue_capacity ?lg" "log_queue_size ?lg = log_queue_size lg"
    "take (log_queue_size lg) (log_queue ?lg) = take (log_queue_size lg) (log_queue lg)"
    using assms(1) by (auto simp: grow_queue_def log_inv_def)
  have p: "linx_log_queue_push ok m lg = ?lg\<lparr>log_queue := (log_queue ?lg)[log_queue_size lg := Some m],
      log_queue_size := log_queue_size lg + 1\<rparr>"
    using assms(2) g(2) by (auto simp: linx_log_queue_push_def log_room_def Let_def)
  have t: "take (Suc (log_queue_size lg)) ((log_queue ?lg)[log_queue_size lg := Some m]) =
      take (log_queue_size lg) (log_queue lg) @ [Some m]"
    using g by (simp add: take_Suc_conv_app_nth)
  show "log_inv (linx_log_queue_push ok m lg)"
    using assms(1) g(1) t unfolding p log_inv_def by simp
  show "log_elems (linx_log_queue_push ok m lg) = log_elems lg @ [m]"
    using t unfolding p log_elems_def by simp
  show "log_queue_size (linx_log_queue_push ok m lg) = Suc (log_queue_size lg)" unfolding p by simp
qed

lemma push_no_room: "\<not> log_room ok lg \<Longrightarrow> linx_log_queue_push ok m lg = lg"
  by (auto simp: linx_log_queue_push_def log_room_def)

lemma log_elems_length: "log_inv lg \<Longrightarrow> length (log_elems lg) = log_queue_size lg"
  by (simp add: log_elems_def log_inv_def)

lemma pop_spec:
  assumes "log_inv lg" "log_elems lg = m # ms"
  shows "\<exists>lg'. linx_log_queue_pop lg = Some (Some m, lg') \<and> log_inv lg' \<and> log_elems lg' = ms"
proof -
  have n: "0 < log_queue_size lg" "log_queue_size lg \<le> log_queue_capacity lg"
    using assms log_elems_length [OF assms(1)] by (auto simp: log_inv_def)
  let ?q = "shift_loop 1 (log_queue_size lg - 1) (log_queue lg)"
  have t: "take (log_queue_size lg - 1) ?q = tl (take (log_queue_size lg) (log_queue lg))"
    using shift_loop_take n by blast
  obtain x xs where x: "take (log_queue_size lg) (log_queue lg) = x # xs"
    using n by (cases "take (log_queue_size lg) (log_queue lg)") auto
  have xm: "x = Some m" "map the xs = ms" "list_all (\<lambda>m. m \<noteq> None) xs"
    using assms x by (auto simp: log_elems_def log_inv_def)
  have "log_queue lg ! 0 = x" using x n by (metis nth_Cons_0 nth_take)
  moreover have "length ?q = length (log_queue lg)" using shift_loop_spec [of 1 "log_queue_size lg - 1" "log_queue lg"] n by simp
  ultimately show ?thesis
    using n t x xm by (auto simp: linx_log_queue_pop_def log_inv_def log_elems_def)
qed

lemma pop_empty: "log_inv lg \<Longrightarrow> log_elems lg = [] \<Longrightarrow> linx_log_queue_pop lg = None"
  using log_elems_length [of lg] by (simp add: linx_log_queue_pop_def)

interpretation log_fifo: fifo_queue log_inv log_elems log_room linx_log_queue_push log_pop
proof unfold_locales
  fix lg m ms assume "log_inv lg" "log_elems lg = m # ms"
  then show "\<exists>s'. log_pop lg = Some (m, s') \<and> log_inv s' \<and> log_elems s' = ms"
    using pop_spec by (fastforce simp: log_pop_def)
qed (simp_all add: push_inv_elems pop_empty log_pop_def)


text \<open>
  The log queue delivers in order: pushing any messages into an empty queue while memory lasts and
  then taking as many messages yields exactly these messages in the order they were pushed, and the
  queue is empty again. The array and its shifting loop are invisible.
\<close>

theorem log_queue_fifo:
  assumes "log_inv lg" "log_elems lg = []"
  shows "\<exists>lg'. log_fifo.deq_n (length ms) (fold (linx_log_queue_push True) ms lg) = Some (ms, lg') \<and>
    log_inv lg' \<and> linx_log_queue_pop lg' = None"
proof -
  have e: "log_fifo.enq_all (map (Pair True) ms) s = fold (linx_log_queue_push True) ms s" for s
    by (induction ms arbitrary: s) simp_all
  have r: "log_fifo.room_all (map (Pair True) ms) s" for s
    by (induction ms arbitrary: s) (simp_all add: log_room_def)
  show ?thesis
    using log_fifo.fifo_order [OF assms r] e [of lg] by (auto simp: log_pop_def comp_def)
qed

theorem log_queue_fifo_witness:
  "\<exists>lg'. log_fifo.deq_n 2 (fold (linx_log_queue_push True)
      [\<lparr>lm_message = ''a'', lm_level = 1\<rparr>, \<lparr>lm_message = ''b'', lm_level = 3\<rparr>] (log_fields 1 LogStderr True)) =
    Some ([\<lparr>lm_message = ''a'', lm_level = 1\<rparr>, \<lparr>lm_message = ''b'', lm_level = 3\<rparr>], lg') \<and>
    log_inv lg' \<and> linx_log_queue_pop lg' = None"
  using log_queue_fifo [of "log_fields 1 LogStderr True" "[\<lparr>lm_message = ''a'', lm_level = 1\<rparr>, \<lparr>lm_message = ''b'', lm_level = 3\<rparr>]"]
  by (simp add: log_inv_def log_elems_def log_fields_def numeral_2_eq_2)

section \<open>Calls\<close>

lemma log_v_cases:
  assumes "log_inv lg"
  shows "linx_log_v okm oks okq level file line body lg = lg \<or>
    (\<exists>m. lm_level m = level \<and> length (lm_message m) < MSG_BUF \<and>
       log_inv (linx_log_v okm oks okq level file line body lg) \<and>
       log_elems (linx_log_v okm oks okq level file line body lg) = log_elems lg @ [m])"
proof (cases "linx_log_v okm oks okq level file line body lg = lg")
  case False
  then obtain t where t: "linx_log_v okm oks okq level file line body lg =
      linx_log_queue_push okq \<lparr>lm_message = take (MSG_BUF - 1) (log_prefix file line @ t), lm_level = level\<rparr> lg"
    by (auto simp: linx_log_v_def split: option.splits if_splits)
  with False have "log_room okq lg" using push_no_room by metis
  with t push_inv_elems [OF assms this] show ?thesis
    by (intro disjI2 exI [of _ "\<lparr>lm_message = take (MSG_BUF - 1) (log_prefix file line @ t), lm_level = level\<rparr>"])
      (simp add: MSG_BUF_def)
qed simp

text \<open>
  What a log call does. On an initialised logger a call below the configured level changes
  nothing; a call at or above it, with a prefix that fits and memory available, appends exactly one
  message: the prefix and the formatted text, cut to 1023 characters.
\<close>

theorem log_call_effect:
  assumes "log_inv lg" "length (log_prefix file line) < MSG_BUF"
  shows "\<exists>lg'. linx_log True True True level file line (Some t) (LogLive lg) = Inr (LogLive lg') \<and> log_inv lg' \<and>
    log_elems lg' = log_elems lg @
      (if level < log_level lg then []
       else [\<lparr>lm_message = take 1023 (log_prefix file line @ t), lm_level = level\<rparr>])"
  using assms push_inv_elems [OF assms(1), of True]
  by (auto simp: linx_log_def linx_log_v_def log_room_def MSG_BUF_def)

theorem log_call_effect_witness:
  "\<exists>lg'. linx_log True True True 3 ''a.c'' 7 (Some ''bad'') (LogLive (log_fields 1 LogStderr True)) = Inr (LogLive lg') \<and>
    log_elems lg' = [\<lparr>lm_message = ''[a.c:7]: bad'', lm_level = 3\<rparr>]"
proof -
  have p: "log_prefix ''a.c'' 7 = ''[a.c:7]: ''" by code_simp
  show ?thesis
    using log_call_effect [of "log_fields 1 LogStderr True" "''a.c''" 7 3 "''bad''"] p
    by (auto simp: log_inv_def log_elems_def log_fields_def MSG_BUF_def)
qed

section \<open>The running logger\<close>

definition in_hand :: "log_thread_pc \<Rightarrow> linx_log_message list" where
  "in_hand pc = (case pc of ThreadGot (Some m) \<Rightarrow> [m] | _ \<Rightarrow> [])"

definition sys_inv :: "log_sys \<Rightarrow> bool" where
  "sys_inv s \<longleftrightarrow> log_inv (sys_log s) \<and>
     accepted s = written s @ lost s @ in_hand (log_pc s) @ log_elems (sys_log s) \<and>
     list_all (\<lambda>m. lm_level m < LINX_LOG_LEVEL_MAX) (accepted s) \<and>
     (lost s \<noteq> [] \<longrightarrow> log_pc s = ThreadExit \<and> should_stop s = 2) \<and> should_stop s \<le> 2"

lemma sys_inv_boot: "sys_inv (log_boot level out)"
  by (simp add: sys_inv_def log_boot_def log_inv_def log_fields_def log_elems_def in_hand_def)

lemma sys_inv_produce:
  assumes "sys_inv s" "level < LINX_LOG_LEVEL_MAX"
    "lg = linx_log_v okm oks okq level file line body (sys_log s)"
  shows "sys_inv (s\<lparr>sys_log := lg, accepted := accepted s @ drop (log_queue_size (sys_log s)) (log_elems lg)\<rparr>)"
proof -
  have i: "log_inv (sys_log s)" using assms(1) by (simp add: sys_inv_def)
  have "lg = sys_log s \<or> (\<exists>m. lm_level m = level \<and> log_inv lg \<and> log_elems lg = log_elems (sys_log s) @ [m])"
    using log_v_cases [OF i] unfolding assms(3) by blast
  then show ?thesis using log_elems_length [OF i] assms(1,2) by (auto simp: sys_inv_def)
qed

lemma sys_inv_pop:
  assumes "sys_inv s" "log_pc s = ThreadPop"
  shows "\<exists>s'. linx_log_thread s = Inr s' \<and> sys_inv s'"
proof -
  have i: "log_inv (sys_log s)" using assms(1) by (simp add: sys_inv_def)
  show ?thesis
  proof (cases "log_elems (sys_log s)")
    case Nil
    then show ?thesis using assms pop_empty [OF i Nil]
      by (auto simp: linx_log_thread_def sys_inv_def in_hand_def)
  next
    case (Cons m ms)
    then show ?thesis using assms pop_spec [OF i Cons]
      by (auto simp: linx_log_thread_def sys_inv_def in_hand_def)
  qed
qed

lemma sys_inv_thread: "sys_inv s \<Longrightarrow> \<exists>s'. linx_log_thread s = Inr s' \<and> sys_inv s'"
proof (cases "log_pc s")
  case ThreadPop
  then show "sys_inv s \<Longrightarrow> \<exists>s'. linx_log_thread s = Inr s' \<and> sys_inv s'" using sys_inv_pop by blast
next
  case (ThreadGot msg)
  then show "sys_inv s \<Longrightarrow> \<exists>s'. linx_log_thread s = Inr s' \<and> sys_inv s'"
    by (cases msg) (auto simp: linx_log_thread_def sys_inv_def in_hand_def)
qed (simp add: linx_log_thread_def)

lemma log_reach_inv: "log_reach level0 out s \<Longrightarrow> sys_inv s"
proof (induction rule: log_reach.induct)
  case (thread s s')
  then show ?case using sys_inv_thread [of s] by auto
next
  case (raise_stop s k)
  then show ?case by (auto simp: sys_inv_def)
qed (simp_all add: sys_inv_boot sys_inv_produce)

text \<open>
  C35: the running logger neither reorders, duplicates nor drops. In every state that producers, the
  log thread and the stop flag can reach in any interleaving, the accepted messages are the
  written ones, then at most one lost at an immediate stop, then the one in hand, then the queue; the
  thread's next step is free of faults; and as long as the flag is not 2, nothing is lost.
\<close>

theorem log_messages_in_order:
  assumes "log_reach level0 out s"
  shows "accepted s = written s @ lost s @ in_hand (log_pc s) @ log_elems (sys_log s) \<and>
    (\<exists>s'. linx_log_thread s = Inr s') \<and> (should_stop s < 2 \<longrightarrow> lost s = [])"
  using log_reach_inv [OF assms] sys_inv_thread [of s] by (auto simp: sys_inv_def)

definition log_demo :: log_sys where
  "log_demo = (log_boot 0 LogStderr)\<lparr>sys_log := linx_log_v True True True 2 ''m.c'' 1 (Some ''hi'') (log_fields 0 LogStderr True),
     accepted := [\<lparr>lm_message = ''[m.c:1]: hi'', lm_level = 2\<rparr>]\<rparr>"

lemma log_demo_eq: "log_demo = (log_boot 0 LogStderr)\<lparr>sys_log := linx_log_v True True True 2 ''m.c'' 1 (Some ''hi'') (sys_log (log_boot 0 LogStderr)),
     accepted := accepted (log_boot 0 LogStderr) @ drop (log_queue_size (sys_log (log_boot 0 LogStderr)))
       (log_elems (linx_log_v True True True 2 ''m.c'' 1 (Some ''hi'') (sys_log (log_boot 0 LogStderr))))\<rparr>"
proof -
  have p: "log_prefix ''m.c'' 1 = ''[m.c:1]: ''" by code_simp
  have e: "log_elems (linx_log_v True True True 2 ''m.c'' 1 (Some ''hi'') (log_fields 0 LogStderr True)) =
      [\<lparr>lm_message = ''[m.c:1]: hi'', lm_level = 2\<rparr>]"
    using push_inv_elems(2) [of "log_fields 0 LogStderr True" True] p
    by (simp add: linx_log_v_def log_inv_def log_room_def log_elems_def log_fields_def MSG_BUF_def)
  show ?thesis by (simp add: log_demo_def log_boot_def e) (simp add: log_fields_def)
qed

theorem log_messages_in_order_witness:
  "accepted log_demo = written log_demo @ lost log_demo @ in_hand (log_pc log_demo) @ log_elems (sys_log log_demo) \<and>
    (\<exists>s'. linx_log_thread log_demo = Inr s') \<and> lost log_demo = []"
proof -
  have "log_reach 0 LogStderr log_demo"
    unfolding log_demo_eq by (rule log_reach.produce [OF log_reach.boot]) (simp_all add: LINX_LOG_LEVEL_MAX_def)
  moreover have "should_stop log_demo = 0" by (simp add: log_demo_def log_boot_def)
  ultimately show ?thesis using log_messages_in_order [of 0 LogStderr log_demo] by simp
qed

section \<open>Initialisation\<close>

text \<open>
  Initialisation reports what happened. From the NULL instance, code 0 means a live logger
  with one mutex, one pool and, for a path other than \<^verbatim>\<open>stderr\<close>, one open file; code -1 means no file and
  no pool is held. But the instance pointer is reset only on some paths: when the mutex cannot be
  initialised it keeps the address of the freed instance, and the next log call uses it; when the
  file cannot be opened the mutex is not destroyed.
\<close>

theorem log_init_outcomes:
  assumes "linx_log_init pl file lvl LogNull r = Inr (ret, g, r')"
  shows "(ret = 0 \<longrightarrow> (\<exists>lg. g = LogLive lg \<and> log_inv lg \<and> res_mutexes r' = res_mutexes r + 1 \<and>
            res_pools r' = res_pools r + 1 \<and> res_files r' = res_files r + of_bool (choose_output file \<noteq> LogStderr))) \<and>
    (ret \<noteq> 0 \<longrightarrow> ret = - 1 \<and> (g = LogNull \<or> g = LogDangling) \<and> res_pools r' = res_pools r \<and> res_files r' = res_files r) \<and>
    (g = LogDangling \<longleftrightarrow> linx_log_level_str_to_level lvl < LINX_LOG_LEVEL_MAX \<and> ok_instance pl \<and> \<not> ok_mutex pl) \<and>
    (ret \<noteq> 0 \<and> res_mutexes r' \<noteq> res_mutexes r \<longrightarrow> choose_output file \<noteq> LogStderr \<and> \<not> ok_open pl)"
proof -
  note d = linx_log_init_def linx_log_deinit_def log_fields_def log_inv_def Let_def
  show ?thesis
  proof (cases "linx_log_level_str_to_level lvl < LINX_LOG_LEVEL_MAX \<and> ok_instance pl \<and> ok_mutex pl")
    case False
    then show ?thesis using assms by (auto simp: d split: if_splits)
  next
    case True
    then show ?thesis
      using assms by (cases "choose_output file = LogStderr"; cases "ok_pool pl"; cases "ok_task pl")
        (auto simp: d not_le split: if_splits)
  qed
qed

theorem log_init_outcomes_witness:
  "linx_log_init \<lparr>ok_instance = True, ok_mutex = False, ok_open = True, ok_pool = True, ok_task = True\<rparr>
     None (Some ''INFO'') LogNull \<lparr>res_mutexes = 0, res_files = 0, res_pools = 0\<rparr> =
     Inr (- 1, LogDangling, \<lparr>res_mutexes = 0, res_files = 0, res_pools = 0\<rparr>) \<and> (LogDangling = LogNull \<or> LogDangling = LogDangling)"
  using log_init_outcomes [of "\<lparr>ok_instance = True, ok_mutex = False, ok_open = True, ok_pool = True, ok_task = True\<rparr>"
      None "Some ''INFO''" "\<lparr>res_mutexes = 0, res_files = 0, res_pools = 0\<rparr>" "- 1" LogDangling]
  by (simp add: linx_log_init_def linx_log_level_str_to_level_def linx_log_level_str_def LINX_LOG_LEVEL_MAX_def)

text \<open>Every level name is read back as its number, and nothing else is a level.\<close>

lemma level_names:
  "map (\<lambda>s. linx_log_level_str_to_level (Some s)) linx_log_level_str = [0, 1, 2, 3, 4]"
  "s \<notin> set linx_log_level_str \<Longrightarrow> linx_log_level_str_to_level (Some s) = LINX_LOG_LEVEL_MAX"
  by (code_simp, auto simp: linx_log_level_str_to_level_def linx_log_level_str_def)

end
