(* ===== verification/Proc_Files.thy ===== *)
theory Proc_Files
  imports Linx_Prelude
begin

text \<open>
  Reading a process from \<^verbatim>\<open>/proc\<close> (the first half of \<^verbatim>\<open>linx_process_cache.c\<close>): the record of a process, the
  parsers of \<^verbatim>\<open>stat\<close>, \<^verbatim>\<open>status\<close>, \<^verbatim>\<open>cmdline\<close>, \<^verbatim>\<open>exe\<close> and \<^verbatim>\<open>cwd\<close>, and the construction of a record. The contents of the
  files are a parameter. A number that does not fit the type of its target has no defined value in C; the
  model reduces it to the width.
\<close>

section \<open>The record\<close>

datatype linx_process_state =
    LINX_PROCESS_STATE_RUNNING
  | LINX_PROCESS_STATE_SLEEPING
  | LINX_PROCESS_STATE_ZOMBIE
  | LINX_PROCESS_STATE_STOPPED
  | LINX_PROCESS_STATE_EXITED
  | LINX_PROCESS_STATE_UNKNOWN

record linx_process_info =
  pi_pid :: int
  pi_ppid :: int
  pi_pgid :: int
  pi_sid :: int
  pi_uid :: int
  pi_gid :: int
  pi_name :: string
  pi_comm :: string
  pi_cmdline :: string
  pi_exe :: string
  pi_cwd :: string
  pi_state :: linx_process_state
  pi_nice :: int
  pi_priority :: int
  pi_vsize :: "64 word"
  pi_rss :: "64 word"
  pi_shared :: "64 word"
  pi_utime :: "64 word"
  pi_stime :: "64 word"
  pi_start_time :: "64 word"
  pi_create_time :: int
  pi_update_time :: int
  pi_exit_time :: int
  pi_is_alive :: bool
  pi_is_rich :: bool

definition PROC_PATH_MAX_LEN :: nat where "PROC_PATH_MAX_LEN = 256"
definition PROC_CMDLINE_LEN :: nat where "PROC_CMDLINE_LEN = 4096"
definition PROC_COMM_MAX_LEN :: nat where "PROC_COMM_MAX_LEN = 256"

text \<open>The zeroed block that \<^verbatim>\<open>calloc\<close> and \<^verbatim>\<open>memset\<close> give.\<close>

definition zero_info :: linx_process_info where
  "zero_info = \<lparr>pi_pid = 0, pi_ppid = 0, pi_pgid = 0, pi_sid = 0, pi_uid = 0, pi_gid = 0, pi_name = [], pi_comm = [],
     pi_cmdline = [], pi_exe = [], pi_cwd = [], pi_state = LINX_PROCESS_STATE_RUNNING, pi_nice = 0, pi_priority = 0,
     pi_vsize = 0, pi_rss = 0, pi_shared = 0, pi_utime = 0, pi_stime = 0, pi_start_time = 0,
     pi_create_time = 0, pi_update_time = 0, pi_exit_time = 0, pi_is_alive = False, pi_is_rich = False\<rparr>"

section \<open>Scanning\<close>

abbreviation newline :: char where "newline \<equiv> CHR 0x0A"

text \<open>\<^verbatim>\<open>fgets\<close>: a line with its newline, or the first \<open>n - 1\<close> characters of it, and what is left.\<close>

definition fgets :: "nat \<Rightarrow> string \<Rightarrow> (string \<times> string) option" where
  "fgets n s =
    (if s = [] then None
     else
       (let l = takeWhile (\<lambda>c. c \<noteq> newline) s;
            line = take (n - 1) (if length l < length s then l @ [newline] else l)
        in Some (line, drop (length line) s)))"

text \<open>An integer conversion of \<^verbatim>\<open>sscanf\<close>: the number and what follows it.\<close>

definition scan_num :: "string \<Rightarrow> (int \<times> string) option" where
  "scan_num s =
    (let (sg, s2) = strtol_sign (dropWhile is_space s);
         ds = takeWhile is_digit s2
     in if ds = [] then None else Some (sg * digits_val 0 ds, dropWhile is_digit s2))"

datatype scan_item = ScanChar | ScanInt | SkipInt

datatype scan_val = CharVal char | IntVal int

text \<open>The values \<^verbatim>\<open>sscanf\<close> assigns, up to the first conversion that fails; its answer is their number.\<close>

fun sscanf :: "scan_item list \<Rightarrow> string \<Rightarrow> scan_val list" where
  "sscanf [] s = []"
| "sscanf (ScanChar # items) s =
     (case dropWhile is_space s of [] \<Rightarrow> [] | c # r \<Rightarrow> CharVal c # sscanf items r)"
| "sscanf (ScanInt # items) s =
     (case scan_num s of None \<Rightarrow> [] | Some (v, r) \<Rightarrow> IntVal v # sscanf items r)"
| "sscanf (SkipInt # items) s =
     (case scan_num s of None \<Rightarrow> [] | Some (v, r) \<Rightarrow> sscanf items r)"

section \<open>The files of a process\<close>

text \<open>\<open>None\<close> is a file that cannot be opened or a link that cannot be read.\<close>

record proc_files =
  pf_stat :: "string option"
  pf_status :: "string option"
  pf_cmdline :: "string option"
  pf_exe :: "string option"
  pf_cwd :: "string option"

definition stat_format :: "scan_item list" where
  "stat_format = [ScanChar, ScanInt, ScanInt, ScanInt, SkipInt, SkipInt, SkipInt, SkipInt, SkipInt, SkipInt, SkipInt,
     ScanInt, ScanInt, SkipInt, SkipInt, ScanInt, ScanInt, SkipInt, SkipInt, ScanInt, ScanInt, ScanInt]"

definition int_at :: "scan_val list \<Rightarrow> nat \<Rightarrow> int \<Rightarrow> int" where
  "int_at vals i old = (if i < length vals then (case vals ! i of IntVal v \<Rightarrow> to_int v | CharVal c \<Rightarrow> old) else old)"

definition long_at :: "scan_val list \<Rightarrow> nat \<Rightarrow> 64 word \<Rightarrow> 64 word" where
  "long_at vals i old = (if i < length vals then (case vals ! i of IntVal v \<Rightarrow> word_of_int v | CharVal c \<Rightarrow> old) else old)"

text \<open>The targets of the \<^verbatim>\<open>sscanf\<close> in their order.\<close>

definition store_stat :: "scan_val list \<Rightarrow> linx_process_info \<Rightarrow> linx_process_info" where
  "store_stat vals info =
    info\<lparr>pi_ppid := int_at vals 1 (pi_ppid info), pi_pgid := int_at vals 2 (pi_pgid info),
      pi_sid := int_at vals 3 (pi_sid info), pi_utime := long_at vals 4 (pi_utime info),
      pi_stime := long_at vals 5 (pi_stime info), pi_priority := int_at vals 6 (pi_priority info),
      pi_nice := int_at vals 7 (pi_nice info), pi_start_time := long_at vals 8 (pi_start_time info),
      pi_vsize := long_at vals 9 (pi_vsize info), pi_rss := long_at vals 10 (pi_rss info)\<rparr>"

definition state_of :: "scan_val \<Rightarrow> linx_process_state" where
  "state_of v =
    (if v = CharVal CHR ''R'' then LINX_PROCESS_STATE_RUNNING
     else if v = CharVal CHR ''S'' then LINX_PROCESS_STATE_SLEEPING
     else if v = CharVal CHR ''Z'' then LINX_PROCESS_STATE_ZOMBIE
     else if v = CharVal CHR ''T'' then LINX_PROCESS_STATE_STOPPED
     else LINX_PROCESS_STATE_UNKNOWN)"

text \<open>Positions of the first opening and the last closing parenthesis. The scan starts two characters behind
  the latter, which is beyond the terminator when nothing follows it.\<close>

definition paren_open :: "string \<Rightarrow> nat" where
  "paren_open s = length (takeWhile (\<lambda>c. c \<noteq> CHR ''('') s)"

definition paren_close :: "string \<Rightarrow> nat" where
  "paren_close s = length s - 1 - length (takeWhile (\<lambda>c. c \<noteq> CHR '')'') (rev s))"

definition read_proc_stat :: "nat \<Rightarrow> string option \<Rightarrow> linx_process_info \<Rightarrow> (int \<times> linx_process_info) res" where
  "read_proc_stat pagesize file info =
    (case Option.bind file (fgets 4096) of
       None \<Rightarrow> Inr (- 1, info)
     | Some (buffer, rest) \<Rightarrow>
         (let start = paren_open buffer; fin = paren_close buffer
          in if CHR ''('' \<notin> set buffer \<or> CHR '')'' \<notin> set buffer \<or> fin \<le> start then Inr (- 1, info)
             else
               (let name_len = min (fin - start - 1) (PROC_COMM_MAX_LEN - 1);
                    comm = take name_len (drop (start + 1) buffer);
                    info = info\<lparr>pi_comm := comm, pi_name := comm\<rparr>
                in if fin + 1 = length buffer then Inl UninitRead
                   else
                     (let vals = sscanf stat_format (drop (fin + 2) buffer);
                          info = store_stat vals info
                      in if length vals < 10 then Inr (- 1, info)
                         else Inr (0, info\<lparr>pi_state := state_of (vals ! 0),
                                           pi_rss := pi_rss info * word_of_nat pagesize\<rparr>)))))"

definition status_line :: "string \<Rightarrow> linx_process_info \<Rightarrow> linx_process_info" where
  "status_line line info =
    (if is_prefix ''Uid:'' line then
       info\<lparr>pi_uid := (case scan_num (drop 4 line) of None \<Rightarrow> pi_uid info | Some (v, r) \<Rightarrow> to_int v)\<rparr>
     else if is_prefix ''Gid:'' line then
       info\<lparr>pi_gid := (case scan_num (drop 4 line) of None \<Rightarrow> pi_gid info | Some (v, r) \<Rightarrow> to_int v)\<rparr>
     else if is_prefix ''VmSize:'' line then
       info\<lparr>pi_vsize := (case scan_num (drop 7 line) of None \<Rightarrow> pi_vsize info | Some (v, r) \<Rightarrow> word_of_int v) * 1024\<rparr>
     else if is_prefix ''VmRSS:'' line then
       info\<lparr>pi_rss := (case scan_num (drop 6 line) of None \<Rightarrow> pi_rss info | Some (v, r) \<Rightarrow> word_of_int v) * 1024\<rparr>
     else if is_prefix ''RssShmem:'' line then
       info\<lparr>pi_shared := (case scan_num (drop 9 line) of None \<Rightarrow> pi_shared info | Some (v, r) \<Rightarrow> word_of_int v) * 1024\<rparr>
     else info)"

lemma fgets_shorter: "fgets n s = Some (line, r) \<Longrightarrow> 1 < n \<Longrightarrow> line \<noteq> [] \<and> s = line @ r"
proof -
  assume a: "fgets n s = Some (line, r)" "1 < n"
  let ?l = "takeWhile (\<lambda>c. c \<noteq> newline) s"
  let ?m = "if length ?l < length s then ?l @ [newline] else ?l"
  have ne: "s \<noteq> []" using a(1) by (auto simp: fgets_def)
  from a(1) have e: "Some (take (n - 1) ?m, drop (length (take (n - 1) ?m)) s) = Some (line, r)"
    unfolding fgets_def Let_def if_not_P [OF ne] .
  then have l: "line = take (n - 1) ?m" by blast
  with e ne have s: "s \<noteq> []" "line = take (n - 1) ?m" "r = drop (length line) s" by blast+
  have "prefix ?m s"
  proof (cases "length ?l < length s")
    case True
    have d: "?l @ dropWhile (\<lambda>c. c \<noteq> newline) s = s" by (rule takeWhile_dropWhile_id)
    from arg_cong [OF d, of length] True have "0 < length (dropWhile (\<lambda>c. c \<noteq> newline) s)"
      unfolding length_append by linarith
    then have n: "dropWhile (\<lambda>c. c \<noteq> newline) s \<noteq> []" by (simp only: length_greater_0_conv simp_thms)
    then have "hd (dropWhile (\<lambda>c. c \<noteq> newline) s) = newline" using hd_dropWhile [OF n] by simp
    then have "(?l @ [newline]) @ tl (dropWhile (\<lambda>c. c \<noteq> newline) s) = s"
      using d n by (cases "dropWhile (\<lambda>c. c \<noteq> newline) s") simp_all
    then have "prefix (?l @ [newline]) s" by (rule prefixI [OF sym])
    then show ?thesis unfolding if_P [OF True] .
  next
    case False
    then show ?thesis by (simp add: takeWhile_is_prefix)
  qed
  then have p: "prefix line s" unfolding s(2) by (rule prefix_order.trans [OF take_is_prefix])
  have "?m \<noteq> []" using s(1) by (cases s) auto
  then have "line \<noteq> []" using s(2) a(2) by (simp add: take_eq_Nil)
  with p s(3) show ?thesis by (auto simp: prefix_def)
qed

function status_loop :: "string \<Rightarrow> linx_process_info \<Rightarrow> linx_process_info" where
  "status_loop s info =
    (case fgets 256 s of None \<Rightarrow> info | Some (line, r) \<Rightarrow> status_loop r (status_line line info))"
  by pat_completeness auto

termination
  by (relation "measure (\<lambda>(s, info). length s)") (auto dest!: fgets_shorter)

declare status_loop.simps [simp del]

definition read_proc_status :: "string option \<Rightarrow> linx_process_info \<Rightarrow> int \<times> linx_process_info" where
  "read_proc_status file info = (case file of None \<Rightarrow> (- 1, info) | Some s \<Rightarrow> (0, status_loop s info))"

text \<open>The loop leaves the last byte alone, so that a terminating null byte stays one.\<close>

definition spaced :: "char list \<Rightarrow> char list" where
  "spaced bs = map (\<lambda>c. if c = CHR 0x00 then CHR '' '' else c) (butlast bs) @ [last bs]"

definition read_proc_cmdline :: "char list option \<Rightarrow> linx_process_info \<Rightarrow> int \<times> linx_process_info" where
  "read_proc_cmdline file info =
    (case file of
       None \<Rightarrow> (- 1, info)
     | Some s \<Rightarrow>
         (let bs = take (PROC_CMDLINE_LEN - 1) s
          in (0, info\<lparr>pi_cmdline := (if bs = [] then [] else takeWhile (\<lambda>c. c \<noteq> CHR 0x00) (spaced bs))\<rparr>)))"

definition read_proc_exe :: "string option \<Rightarrow> linx_process_info \<Rightarrow> int \<times> linx_process_info" where
  "read_proc_exe link info =
    (0, info\<lparr>pi_exe := (case link of None \<Rightarrow> [] | Some t \<Rightarrow> take (PROC_PATH_MAX_LEN - 1) t)\<rparr>)"

definition read_proc_cwd :: "string option \<Rightarrow> linx_process_info \<Rightarrow> int \<times> linx_process_info" where
  "read_proc_cwd link info =
    (0, info\<lparr>pi_cwd := (case link of None \<Rightarrow> [] | Some t \<Rightarrow> take (PROC_PATH_MAX_LEN - 1) t)\<rparr>)"

text \<open>\<open>ok\<close> is the outcome of \<^verbatim>\<open>calloc\<close>, \<open>now\<close> the time. The result is the record, \<open>None\<close> for NULL.\<close>

definition create_process_info :: "bool \<Rightarrow> nat \<Rightarrow> int \<Rightarrow> int \<Rightarrow> proc_files \<Rightarrow> linx_process_info option res" where
  "create_process_info ok pagesize now pid files =
    (if \<not> ok then Inr None
     else
       res_bind (read_proc_stat pagesize (pf_stat files)
           (zero_info\<lparr>pi_pid := pid, pi_create_time := now, pi_update_time := now, pi_is_alive := True\<rparr>)) (\<lambda>(ret, info).
         if ret < 0 then Inr None
         else
           (let (ret, info) = read_proc_status (pf_status files) info
            in if ret < 0 then Inr None
               else Inr (Some (snd (read_proc_cwd (pf_cwd files) (snd (read_proc_exe (pf_exe files)
                      (snd (read_proc_cmdline (pf_cmdline files) info))))))))))"

section \<open>The stat line of the kernel\<close>

text \<open>What the kernel writes: the pid, the name in parentheses, the state and at least 21 numbers.\<close>

definition show_nums :: "int list \<Rightarrow> string" where
  "show_nums ns = concat (map (\<lambda>n. CHR '' '' # show_int n) ns)"

definition stat_text :: "nat \<Rightarrow> string \<Rightarrow> char \<Rightarrow> int list \<Rightarrow> string" where
  "stat_text pid comm st ns = show_nat pid @ '' ('' @ comm @ '') '' @ [st] @ show_nums ns @ [newline]"

lemma strtol_sign_number:
  "strtol_sign (dropWhile is_space (CHR '' '' # show_int v @ r)) =
     (if v < 0 then (- 1, show_nat (nat (- v)) @ r) else (1, show_nat (nat v) @ r))"
proof -
  have d: "show_nat n = hd (show_nat n) # tl (show_nat n)" "is_digit (hd (show_nat n))" for n
    using show_nat_digits [of n] by (cases "show_nat n"; simp)+
  have sp: "is_space CHR '' ''" "\<not> is_space CHR ''-''" by (simp_all add: is_space_def)
  show ?thesis
  proof (cases "v < 0")
    case False
    obtain c cs where c: "show_nat (nat v) = c # cs" "is_digit c" using d [of "nat v"] by metis
    then have "\<not> is_space c" "c \<noteq> CHR ''-''" "c \<noteq> CHR ''+''" using is_digit_plain by blast+
    with False c(1) sp show ?thesis by (simp add: show_int_def)
  qed (simp add: show_int_def sp)
qed

lemma takeWhile_digits_end:
  assumes "list_all is_digit ds" "r = [] \<or> \<not> is_digit (hd r)"
  shows "takeWhile is_digit (ds @ r) = ds" "dropWhile is_digit (ds @ r) = r"
  using assms by (induction ds; cases r; auto)+

lemma scan_num_show:
  assumes "r = [] \<or> \<not> is_digit (hd r)"
  shows "scan_num (CHR '' '' # show_int v @ r) = Some (v, r)"
proof -
  have "list_all is_digit (show_nat n)" "show_nat n \<noteq> []" for n using show_nat_digits by blast+
  then show ?thesis
    unfolding scan_num_def strtol_sign_number
    by (simp add: takeWhile_digits_end [OF _ assms] digits_val_show_nat)
qed

text \<open>The numbers at the positions that a format keeps.\<close>

fun pick :: "scan_item list \<Rightarrow> int list \<Rightarrow> scan_val list" where
  "pick (ScanInt # items) (n # ns) = IntVal n # pick items ns"
| "pick (SkipInt # items) (n # ns) = pick items ns"
| "pick _ _ = []"

lemma show_nums_start: "show_nums ns @ [newline] \<noteq> [] \<and> \<not> is_digit (hd (show_nums ns @ [newline]))"
  by (cases ns) (simp_all add: show_nums_def is_digit_def)

lemma sscanf_nums:
  assumes "list_all (\<lambda>it. it \<noteq> ScanChar) items" "length items \<le> length ns"
  shows "sscanf items (show_nums ns @ [newline]) = pick items ns"
  using assms
proof (induction items ns rule: list_induct2')
  case (4 it items n ns)
  have "scan_num (show_nums (n # ns) @ [newline]) = Some (n, show_nums ns @ [newline])"
    using scan_num_show [of "show_nums ns @ [newline]" n] show_nums_start [of ns] by (simp add: show_nums_def)
  with 4 show ?case by (cases it) simp_all
qed simp_all

lemma no_paren_numbers: "CHR '')'' \<notin> set (show_nums ns)" "newline \<notin> set (show_nums ns)" "CHR ''('' \<notin> set (show_nat p)"
  "newline \<notin> set (show_nat p)"
proof -
  have d: "c \<notin> set (show_nat n)" if "\<not> is_digit c" for c n
    using show_nat_digits [of n] that by (auto simp: list_all_iff)
  have nd: "\<not> is_digit CHR '')''" "\<not> is_digit CHR ''(''" "\<not> is_digit newline" by (simp_all add: is_digit_def)
  then show "CHR '')'' \<notin> set (show_nums ns)" "newline \<notin> set (show_nums ns)"
    using d by (auto simp: show_nums_def show_int_def split: if_splits)
  show "CHR ''('' \<notin> set (show_nat p)" "newline \<notin> set (show_nat p)" using d nd by auto
qed

lemma fgets_line:
  assumes "newline \<notin> set l" "length l + 1 < n"
  shows "fgets n (l @ newline # r) = Some (l @ [newline], r)"
proof -
  have "takeWhile (\<lambda>c. c \<noteq> newline) (l @ newline # r) = l" using assms(1) by (induction l) auto
  with assms(2) show ?thesis by (simp add: fgets_def)
qed

lemma paren_open_app: "CHR ''('' \<notin> set a \<Longrightarrow> paren_open (a @ CHR ''('' # b) = length a"
  by (induction a) (auto simp: paren_open_def)

lemma paren_close_app:
  assumes "CHR '')'' \<notin> set b"
  shows "paren_close (a @ CHR '')'' # b) = length a"
proof -
  have "takeWhile (\<lambda>c. c \<noteq> CHR '')'') (rev b @ [CHR '')''] @ rev a) = rev b"
    using assms by (subst takeWhile_append2) auto
  then show ?thesis by (simp add: paren_close_def)
qed

lemma pick_stat:
  assumes "21 \<le> length ns"
  shows "pick (tl stat_format) ns = map (\<lambda>i. IntVal (ns ! i)) [0, 1, 2, 10, 11, 14, 15, 18, 19, 20]"
  using assms by (auto simp: numeral_eq_Suc Suc_le_length_iff stat_format_def)

text \<open>
  C26: the stat line is read back. For every process name up to 255 characters without a newline, whatever
  parentheses and blanks it contains, and for every list of at least 21 numbers, \<^verbatim>\<open>read_proc_stat\<close> recovers from the
  kernel's line the name and exactly the fields its conversions stand for; numbers are reduced to the
  width of their member and the resident set is scaled by the page size.
\<close>

theorem read_proc_stat_roundtrip:
  assumes "length comm < PROC_COMM_MAX_LEN" "newline \<notin> set comm" "21 \<le> length ns"
    and "st \<noteq> newline" "st \<noteq> CHR '')''" "\<not> is_space st" "length (stat_text pid comm st ns) < 4096"
  shows "read_proc_stat pagesize (Some (stat_text pid comm st ns)) info =
    Inr (0, info\<lparr>pi_comm := comm, pi_name := comm, pi_ppid := to_int (ns ! 0), pi_pgid := to_int (ns ! 1),
      pi_sid := to_int (ns ! 2), pi_utime := word_of_int (ns ! 10), pi_stime := word_of_int (ns ! 11),
      pi_priority := to_int (ns ! 14), pi_nice := to_int (ns ! 15), pi_start_time := word_of_int (ns ! 18),
      pi_vsize := word_of_int (ns ! 19), pi_rss := word_of_int (ns ! 20) * word_of_nat pagesize,
      pi_state := state_of (CharVal st)\<rparr>)"
proof -
  let ?a = "show_nat pid @ '' ''" and ?b = "CHR '' '' # st # show_nums ns @ [newline]"
  let ?s = "?a @ CHR ''('' # comm @ CHR '')'' # ?b"
  have s: "stat_text pid comm st ns = ?s" by (simp add: stat_text_def)
  have "fgets 4096 (stat_text pid comm st ns) = Some (?s, [])"
    using fgets_line [of "?a @ CHR ''('' # comm @ CHR '')'' # CHR '' '' # st # show_nums ns" 4096 "[]"]
      assms(2,4,7) no_paren_numbers by (simp add: stat_text_def)
  moreover have "paren_open ?s = length ?a"
    using no_paren_numbers by (intro paren_open_app) simp
  moreover have "paren_close ?s = length ?a + length comm + 1"
    using paren_close_app [of ?b "?a @ CHR ''('' # comm"] no_paren_numbers assms(5) by simp
  moreover have "take (length comm) (drop (length ?a + 1) ?s) = comm" by simp
  moreover have "drop (length (?a @ CHR ''('' # comm @ '') '')) ((?a @ CHR ''('' # comm @ '') '') @ st # show_nums ns @ [newline]) =
      st # show_nums ns @ [newline]"
    by (rule append_eq_conv_conj [THEN iffD1, OF refl, THEN conjunct2, symmetric])
  then have "drop (length ?a + length comm + 1 + 2) ?s = st # show_nums ns @ [newline]" by simp
  moreover have "sscanf stat_format (st # show_nums ns @ [newline]) = CharVal st # pick (tl stat_format) ns"
    using assms(3,6) sscanf_nums [of "tl stat_format" ns] by (simp add: stat_format_def)
  moreover have "pick (tl stat_format) ns = map (\<lambda>i. IntVal (ns ! i)) [0, 1, 2, 10, 11, 14, 15, 18, 19, 20]"
    by (rule pick_stat [OF assms(3)])
  ultimately show ?thesis
    using assms(1)
    by (simp add: read_proc_stat_def PROC_COMM_MAX_LEN_def store_stat_def int_at_def long_at_def numeral_eq_Suc)
qed

theorem read_proc_stat_roundtrip_witness:
  "\<exists>info. read_proc_stat 4096 (Some (stat_text 7 ''a) (b'' CHR ''S'' (map int [1..<22]))) zero_info = Inr (0, info) \<and>
    pi_comm info = ''a) (b'' \<and> pi_ppid info = 1 \<and> pi_start_time info = 19 \<and> pi_rss info = 86016 \<and>
    pi_state info = LINX_PROCESS_STATE_SLEEPING"
proof -
  have l: "length (stat_text 7 ''a) (b'' CHR ''S'' (map int [1..<22])) < 4096" "newline \<notin> set ''a) (b''" by code_simp+
  have "length ''a) (b'' < PROC_COMM_MAX_LEN" "21 \<le> length (map int [1..<22])" "\<not> is_space CHR ''S''"
    "to_int 1 = 1" "state_of (CharVal CHR ''S'') = LINX_PROCESS_STATE_SLEEPING"
    by (simp_all add: PROC_COMM_MAX_LEN_def is_space_def to_int_def state_of_def)
  then show ?thesis
    using read_proc_stat_roundtrip [OF _ l(2) _ _ _ _ l(1), of 4096 zero_info] by (simp add: upt_rec)
qed

end
