(* ===== verification/Event_Table.thy ===== *)
theory Event_Table
  imports Linx_Prelude
begin

text \<open>
  The event table of \<^verbatim>\<open>linx_event_table.c\<close>: for every event number the system call name, the
  number of recorded parameters and their names and types. The table is the contract between
  the probe that writes event records, the enrichment step that slices them
  (\<^verbatim>\<open>linx_event_rich.c\<close>) and the field map that resolves \<^verbatim>\<open>evt.arg.<name>\<close> paths
  (\<^verbatim>\<open>linx_hash_map.c\<close>). The rows below are the designated initialisers of the C array, cut into
  groups; a number without an initialiser is the all-zero row, as in C.
\<close>

section \<open>Field types and rows\<close>

datatype linx_field_type =
    LINX_FIELD_TYPE_UNKNOWN
  | LINX_FIELD_TYPE_INT8
  | LINX_FIELD_TYPE_UINT8
  | LINX_FIELD_TYPE_INT16
  | LINX_FIELD_TYPE_UINT16
  | LINX_FIELD_TYPE_INT32
  | LINX_FIELD_TYPE_UINT32
  | LINX_FIELD_TYPE_INT64
  | LINX_FIELD_TYPE_UINT64
  | LINX_FIELD_TYPE_CHARBUF
  | LINX_FIELD_TYPE_BYTEBUF
  | LINX_FIELD_TYPE_CHARBUF_ARRAY
  | LINX_FIELD_TYPE_CHARBUF_PAIR_ARRAY
  | LINX_FIELD_TYPE_BYTEBUF_ARRAY
  | LINX_FIELD_TYPE_BOOL
  | LINX_FIELD_TYPE_FLOAT
  | LINX_FIELD_TYPE_DOUBLE
  | LINX_FIELD_TYPE_UID
  | LINX_FIELD_TYPE_PID
  | LINX_FIELD_TYPE_SOCKTUPLE
  | LINX_FIELD_TYPE_STRUCT
  | LINX_FIELD_TYPE_MAX

type_synonym linx_param_info = "string \<times> linx_field_type"

record linx_event_table =
  evt_name :: string
  nparams :: nat
  params :: "linx_param_info list"

definition event_row :: "string \<Rightarrow> nat \<Rightarrow> linx_param_info list \<Rightarrow> linx_event_table" where
  "event_row nm n ps = \<lparr>evt_name = nm, nparams = n, params = ps\<rparr>"

definition zero_row :: linx_event_table where
  "zero_row = event_row [] 0 []"

definition LINX_EVENT_TYPE_MAX :: nat where
  "LINX_EVENT_TYPE_MAX = 906"

definition LINX_EVENT_TYPE_EXECVE_X :: nat where
  "LINX_EVENT_TYPE_EXECVE_X = 119"

definition SYSCALL_PARAMS_MAX_COUNT :: nat where
  "SYSCALL_PARAMS_MAX_COUNT = 32"

section \<open>The rows\<close>

definition event_rows_0 :: "(nat \<times> linx_event_table) list" where
  "event_rows_0 =
    [(0, event_row ''read'' 2 [(''fd'', LINX_FIELD_TYPE_INT64), (''size'',
      LINX_FIELD_TYPE_UINT32)]),
     (1, event_row ''read'' 4 [(''res'', LINX_FIELD_TYPE_INT64), (''data'',
      LINX_FIELD_TYPE_BYTEBUF), (''fd'', LINX_FIELD_TYPE_INT64), (''size'',
      LINX_FIELD_TYPE_UINT32)]),
     (2, event_row ''write'' 2 [(''fd'', LINX_FIELD_TYPE_INT64), (''size'',
      LINX_FIELD_TYPE_UINT32)]),
     (3, event_row ''write'' 4 [(''res'', LINX_FIELD_TYPE_INT64), (''data'',
      LINX_FIELD_TYPE_BYTEBUF), (''fd'', LINX_FIELD_TYPE_INT64), (''size'',
      LINX_FIELD_TYPE_UINT32)]),
     (4, event_row ''open'' 0 []),
     (5, event_row ''open'' 3 [(''filename'', LINX_FIELD_TYPE_CHARBUF), (''flags'',
      LINX_FIELD_TYPE_INT32), (''mode'', LINX_FIELD_TYPE_UINT16)]),
     (6, event_row ''close'' 0 []),
     (7, event_row ''close'' 1 [(''fd'', LINX_FIELD_TYPE_UINT32)]),
     (8, event_row ''stat'' 0 []),
     (9, event_row ''stat'' 2 [(''pathname'', LINX_FIELD_TYPE_CHARBUF), (''buf'',
      LINX_FIELD_TYPE_UNKNOWN)]),
     (10, event_row ''fstat'' 0 []),
     (11, event_row ''fstat'' 2 [(''fd'', LINX_FIELD_TYPE_UINT32), (''buf'',
      LINX_FIELD_TYPE_UNKNOWN)]),
     (12, event_row ''lstat'' 0 []),
     (13, event_row ''lstat'' 2 [(''pathname'', LINX_FIELD_TYPE_CHARBUF), (''buf'',
      LINX_FIELD_TYPE_UNKNOWN)]),
     (14, event_row ''poll'' 0 []),
     (15, event_row ''poll'' 3 [(''ufds'', LINX_FIELD_TYPE_UNKNOWN), (''nfds'',
      LINX_FIELD_TYPE_UINT32), (''timeout_msecs'', LINX_FIELD_TYPE_INT32)]),
     (16, event_row ''lseek'' 0 []),
     (17, event_row ''lseek'' 3 [(''fd'', LINX_FIELD_TYPE_UINT32), (''offset'',
      LINX_FIELD_TYPE_INT64), (''whence'', LINX_FIELD_TYPE_UINT32)]),
     (18, event_row ''mmap'' 0 []),
     (19, event_row ''mmap'' 6 [(''addr'', LINX_FIELD_TYPE_UINT64), (''len'',
      LINX_FIELD_TYPE_UINT64), (''prot'', LINX_FIELD_TYPE_UINT64), (''flags'',
      LINX_FIELD_TYPE_UINT64), (''fd'', LINX_FIELD_TYPE_UINT64), (''off'',
      LINX_FIELD_TYPE_UINT64)]),
     (20, event_row ''mprotect'' 0 []),
     (21, event_row ''mprotect'' 3 [(''start'', LINX_FIELD_TYPE_UINT64), (''len'',
      LINX_FIELD_TYPE_UINT64), (''prot'', LINX_FIELD_TYPE_UINT64)]),
     (22, event_row ''munmap'' 0 []),
     (23, event_row ''munmap'' 2 [(''addr'', LINX_FIELD_TYPE_UINT64), (''len'',
      LINX_FIELD_TYPE_UINT64)])]"

definition event_rows_1 :: "(nat \<times> linx_event_table) list" where
  "event_rows_1 =
    [(24, event_row ''brk'' 0 []),
     (25, event_row ''brk'' 1 [(''brk'', LINX_FIELD_TYPE_UINT64)]),
     (26, event_row ''rt_sigaction'' 0 []),
     (27, event_row ''rt_sigaction'' 4 [(''sig'', LINX_FIELD_TYPE_INT32), (''act'',
      LINX_FIELD_TYPE_UNKNOWN), (''oact'', LINX_FIELD_TYPE_UNKNOWN), (''sigsetsize'',
      LINX_FIELD_TYPE_UINT64)]),
     (28, event_row ''rt_sigprocmask'' 0 []),
     (29, event_row ''rt_sigprocmask'' 4 [(''how'', LINX_FIELD_TYPE_INT32), (''nset'',
      LINX_FIELD_TYPE_UNKNOWN), (''oset'', LINX_FIELD_TYPE_UNKNOWN), (''sigsetsize'',
      LINX_FIELD_TYPE_UINT64)]),
     (30, event_row ''rt_sigreturn'' 0 []),
     (31, event_row ''rt_sigreturn'' 0 []),
     (32, event_row ''ioctl'' 0 []),
     (33, event_row ''ioctl'' 3 [(''fd'', LINX_FIELD_TYPE_UINT32), (''cmd'',
      LINX_FIELD_TYPE_UINT32), (''arg'', LINX_FIELD_TYPE_UINT64)]),
     (34, event_row ''pread64'' 0 []),
     (35, event_row ''pread64'' 4 [(''fd'', LINX_FIELD_TYPE_UINT32), (''buf'',
      LINX_FIELD_TYPE_CHARBUF), (''count'', LINX_FIELD_TYPE_UINT64), (''pos'',
      LINX_FIELD_TYPE_INT64)]),
     (36, event_row ''pwrite64'' 0 []),
     (37, event_row ''pwrite64'' 4 [(''fd'', LINX_FIELD_TYPE_UINT32), (''buf'',
      LINX_FIELD_TYPE_CHARBUF), (''count'', LINX_FIELD_TYPE_UINT64), (''pos'',
      LINX_FIELD_TYPE_INT64)]),
     (38, event_row ''readv'' 0 []),
     (39, event_row ''readv'' 3 [(''fd'', LINX_FIELD_TYPE_UINT64), (''vec'',
      LINX_FIELD_TYPE_UNKNOWN), (''vlen'', LINX_FIELD_TYPE_UINT64)]),
     (40, event_row ''writev'' 0 []),
     (41, event_row ''writev'' 3 [(''fd'', LINX_FIELD_TYPE_UINT64), (''vec'',
      LINX_FIELD_TYPE_UNKNOWN), (''vlen'', LINX_FIELD_TYPE_UINT64)]),
     (42, event_row ''access'' 0 []),
     (43, event_row ''access'' 2 [(''filename'', LINX_FIELD_TYPE_CHARBUF), (''mode'',
      LINX_FIELD_TYPE_INT32)]),
     (44, event_row ''pipe'' 0 []),
     (45, event_row ''pipe'' 1 [(''fildes'', LINX_FIELD_TYPE_UNKNOWN)]),
     (46, event_row ''select'' 0 []),
     (47, event_row ''select'' 5 [(''n'', LINX_FIELD_TYPE_INT32), (''inp'',
      LINX_FIELD_TYPE_UNKNOWN), (''outp'', LINX_FIELD_TYPE_UNKNOWN), (''exp'',
      LINX_FIELD_TYPE_UNKNOWN), (''tvp'', LINX_FIELD_TYPE_UNKNOWN)])]"

definition event_rows_2 :: "(nat \<times> linx_event_table) list" where
  "event_rows_2 =
    [(48, event_row ''sched_yield'' 0 []),
     (49, event_row ''sched_yield'' 0 []),
     (50, event_row ''mremap'' 0 []),
     (51, event_row ''mremap'' 5 [(''addr'', LINX_FIELD_TYPE_UINT64), (''old_len'',
      LINX_FIELD_TYPE_UINT64), (''new_len'', LINX_FIELD_TYPE_UINT64), (''flags'',
      LINX_FIELD_TYPE_UINT64), (''new_addr'', LINX_FIELD_TYPE_UINT64)]),
     (52, event_row ''msync'' 0 []),
     (53, event_row ''msync'' 3 [(''start'', LINX_FIELD_TYPE_UINT64), (''len'',
      LINX_FIELD_TYPE_UINT64), (''flags'', LINX_FIELD_TYPE_INT32)]),
     (54, event_row ''mincore'' 0 []),
     (55, event_row ''mincore'' 3 [(''start'', LINX_FIELD_TYPE_UINT64), (''len'',
      LINX_FIELD_TYPE_UINT64), (''vec'', LINX_FIELD_TYPE_UNKNOWN)]),
     (56, event_row ''madvise'' 0 []),
     (57, event_row ''madvise'' 3 [(''start'', LINX_FIELD_TYPE_UINT64), (''len_in'',
      LINX_FIELD_TYPE_UINT64), (''behavior'', LINX_FIELD_TYPE_INT32)]),
     (58, event_row ''shmget'' 0 []),
     (59, event_row ''shmget'' 3 [(''key'', LINX_FIELD_TYPE_INT32), (''size'',
      LINX_FIELD_TYPE_UINT64), (''shmflg'', LINX_FIELD_TYPE_INT32)]),
     (60, event_row ''shmat'' 0 []),
     (61, event_row ''shmat'' 3 [(''shmid'', LINX_FIELD_TYPE_INT32), (''shmaddr'',
      LINX_FIELD_TYPE_CHARBUF), (''shmflg'', LINX_FIELD_TYPE_INT32)]),
     (62, event_row ''shmctl'' 0 []),
     (63, event_row ''shmctl'' 3 [(''shmid'', LINX_FIELD_TYPE_INT32), (''cmd'',
      LINX_FIELD_TYPE_INT32), (''buf'', LINX_FIELD_TYPE_UNKNOWN)]),
     (64, event_row ''dup'' 1 [(''fd'', LINX_FIELD_TYPE_INT64)]),
     (65, event_row ''dup'' 2 [(''res'', LINX_FIELD_TYPE_INT64), (''oldfd'',
      LINX_FIELD_TYPE_INT64)]),
     (66, event_row ''dup2'' 1 [(''fd'', LINX_FIELD_TYPE_INT64)]),
     (67, event_row ''dup2'' 3 [(''res'', LINX_FIELD_TYPE_INT64), (''oldfd'',
      LINX_FIELD_TYPE_INT64), (''newfd'', LINX_FIELD_TYPE_INT64)]),
     (68, event_row ''pause'' 0 []),
     (69, event_row ''pause'' 0 []),
     (70, event_row ''nanosleep'' 0 []),
     (71, event_row ''nanosleep'' 2 [(''rqtp'', LINX_FIELD_TYPE_UNKNOWN), (''rmtp'',
      LINX_FIELD_TYPE_UNKNOWN)])]"

definition event_rows_3 :: "(nat \<times> linx_event_table) list" where
  "event_rows_3 =
    [(72, event_row ''getitimer'' 0 []),
     (73, event_row ''getitimer'' 2 [(''which'', LINX_FIELD_TYPE_INT32), (''value'',
      LINX_FIELD_TYPE_UNKNOWN)]),
     (74, event_row ''alarm'' 0 []),
     (75, event_row ''alarm'' 1 [(''seconds'', LINX_FIELD_TYPE_UINT32)]),
     (76, event_row ''setitimer'' 0 []),
     (77, event_row ''setitimer'' 3 [(''which'', LINX_FIELD_TYPE_INT32), (''value'',
      LINX_FIELD_TYPE_UNKNOWN), (''ovalue'', LINX_FIELD_TYPE_UNKNOWN)]),
     (78, event_row ''getpid'' 0 []),
     (79, event_row ''getpid'' 0 []),
     (80, event_row ''sendfile'' 0 []),
     (81, event_row ''sendfile'' 4 [(''out_fd'', LINX_FIELD_TYPE_INT32), (''in_fd'',
      LINX_FIELD_TYPE_INT32), (''offset'', LINX_FIELD_TYPE_UNKNOWN), (''count'',
      LINX_FIELD_TYPE_UINT64)]),
     (82, event_row ''socket'' 0 []),
     (83, event_row ''socket'' 3 [(''family'', LINX_FIELD_TYPE_INT32), (''type'',
      LINX_FIELD_TYPE_INT32), (''protocol'', LINX_FIELD_TYPE_INT32)]),
     (84, event_row ''connect'' 0 []),
     (85, event_row ''connect'' 3 [(''fd'', LINX_FIELD_TYPE_INT32), (''uservaddr'',
      LINX_FIELD_TYPE_UNKNOWN), (''addrlen'', LINX_FIELD_TYPE_INT32)]),
     (86, event_row ''accept'' 0 []),
     (87, event_row ''accept'' 3 [(''fd'', LINX_FIELD_TYPE_INT32), (''upeer_sockaddr'',
      LINX_FIELD_TYPE_UNKNOWN), (''upeer_addrlen'', LINX_FIELD_TYPE_UNKNOWN)]),
     (88, event_row ''sendto'' 3 [(''fd'', LINX_FIELD_TYPE_INT64), (''size'',
      LINX_FIELD_TYPE_UINT32), (''tuple'', LINX_FIELD_TYPE_SOCKTUPLE)]),
     (89, event_row ''sendto'' 2 [(''res'', LINX_FIELD_TYPE_INT64), (''data'',
      LINX_FIELD_TYPE_BYTEBUF)]),
     (90, event_row ''recvfrom'' 2 [(''fd'', LINX_FIELD_TYPE_INT64), (''size'',
      LINX_FIELD_TYPE_UINT32)]),
     (91, event_row ''recvfrom'' 3 [(''res'', LINX_FIELD_TYPE_INT32), (''data'',
      LINX_FIELD_TYPE_BYTEBUF), (''tuple'', LINX_FIELD_TYPE_SOCKTUPLE)]),
     (92, event_row ''sendmsg'' 0 []),
     (93, event_row ''sendmsg'' 3 [(''fd'', LINX_FIELD_TYPE_INT32), (''msg'',
      LINX_FIELD_TYPE_UNKNOWN), (''flags'', LINX_FIELD_TYPE_UINT32)]),
     (94, event_row ''recvmsg'' 0 []),
     (95, event_row ''recvmsg'' 3 [(''fd'', LINX_FIELD_TYPE_INT32), (''msg'',
      LINX_FIELD_TYPE_UNKNOWN), (''flags'', LINX_FIELD_TYPE_UINT32)])]"

definition event_rows_4 :: "(nat \<times> linx_event_table) list" where
  "event_rows_4 =
    [(96, event_row ''shutdown'' 0 []),
     (97, event_row ''shutdown'' 2 [(''fd'', LINX_FIELD_TYPE_INT32), (''how'',
      LINX_FIELD_TYPE_INT32)]),
     (98, event_row ''bind'' 0 []),
     (99, event_row ''bind'' 3 [(''fd'', LINX_FIELD_TYPE_INT32), (''umyaddr'',
      LINX_FIELD_TYPE_UNKNOWN), (''addrlen'', LINX_FIELD_TYPE_INT32)]),
     (100, event_row ''listen'' 0 []),
     (101, event_row ''listen'' 2 [(''fd'', LINX_FIELD_TYPE_INT32), (''backlog'',
      LINX_FIELD_TYPE_INT32)]),
     (102, event_row ''getsockname'' 0 []),
     (103, event_row ''getsockname'' 3 [(''fd'', LINX_FIELD_TYPE_INT32), (''usockaddr'',
      LINX_FIELD_TYPE_UNKNOWN), (''usockaddr_len'', LINX_FIELD_TYPE_UNKNOWN)]),
     (104, event_row ''getpeername'' 0 []),
     (105, event_row ''getpeername'' 3 [(''fd'', LINX_FIELD_TYPE_INT32), (''usockaddr'',
      LINX_FIELD_TYPE_UNKNOWN), (''usockaddr_len'', LINX_FIELD_TYPE_UNKNOWN)]),
     (106, event_row ''socketpair'' 0 []),
     (107, event_row ''socketpair'' 4 [(''family'', LINX_FIELD_TYPE_INT32), (''type'',
      LINX_FIELD_TYPE_INT32), (''protocol'', LINX_FIELD_TYPE_INT32), (''usockvec'',
      LINX_FIELD_TYPE_UNKNOWN)]),
     (108, event_row ''setsockopt'' 0 []),
     (109, event_row ''setsockopt'' 5 [(''fd'', LINX_FIELD_TYPE_INT32), (''level'',
      LINX_FIELD_TYPE_INT32), (''optname'', LINX_FIELD_TYPE_INT32), (''optval'',
      LINX_FIELD_TYPE_CHARBUF), (''optlen'', LINX_FIELD_TYPE_INT32)]),
     (110, event_row ''getsockopt'' 0 []),
     (111, event_row ''getsockopt'' 5 [(''fd'', LINX_FIELD_TYPE_INT32), (''level'',
      LINX_FIELD_TYPE_INT32), (''optname'', LINX_FIELD_TYPE_INT32), (''optval'',
      LINX_FIELD_TYPE_CHARBUF), (''optlen'', LINX_FIELD_TYPE_UNKNOWN)]),
     (112, event_row ''clone'' 0 []),
     (113, event_row ''clone'' 5 [(''clone_flags'', LINX_FIELD_TYPE_UINT64), (''newsp'',
      LINX_FIELD_TYPE_UINT64), (''parent_tidptr'', LINX_FIELD_TYPE_UNKNOWN), (''child_tidptr'',
      LINX_FIELD_TYPE_UNKNOWN), (''tls'', LINX_FIELD_TYPE_UINT64)]),
     (114, event_row ''fork'' 0 []),
     (115, event_row ''fork'' 0 []),
     (116, event_row ''vfork'' 0 []),
     (117, event_row ''vfork'' 0 []),
     (118, event_row ''execve'' 1 [(''filename'', LINX_FIELD_TYPE_CHARBUF)]),
     (119, event_row ''execve'' 8 [(''exe'', LINX_FIELD_TYPE_CHARBUF), (''vm_size'',
      LINX_FIELD_TYPE_UINT32), (''vm_rss'', LINX_FIELD_TYPE_UINT32), (''comm'',
      LINX_FIELD_TYPE_CHARBUF), (''tty'', LINX_FIELD_TYPE_UINT32), (''env'',
      LINX_FIELD_TYPE_BYTEBUF), (''loginuid'', LINX_FIELD_TYPE_UID), (''pgid'',
      LINX_FIELD_TYPE_PID)])]"

definition event_rows_5 :: "(nat \<times> linx_event_table) list" where
  "event_rows_5 =
    [(120, event_row ''exit'' 0 []),
     (121, event_row ''exit'' 1 [(''error_code'', LINX_FIELD_TYPE_INT32)]),
     (122, event_row ''wait4'' 0 []),
     (123, event_row ''wait4'' 4 [(''upid'', LINX_FIELD_TYPE_INT32), (''stat_addr'',
      LINX_FIELD_TYPE_UNKNOWN), (''options'', LINX_FIELD_TYPE_INT32), (''ru'',
      LINX_FIELD_TYPE_UNKNOWN)]),
     (124, event_row ''kill'' 0 []),
     (125, event_row ''kill'' 2 [(''pid'', LINX_FIELD_TYPE_INT32), (''sig'',
      LINX_FIELD_TYPE_INT32)]),
     (126, event_row ''uname'' 0 []),
     (127, event_row ''uname'' 1 [(''name'', LINX_FIELD_TYPE_UNKNOWN)]),
     (128, event_row ''semget'' 0 []),
     (129, event_row ''semget'' 3 [(''key'', LINX_FIELD_TYPE_INT32), (''nsems'',
      LINX_FIELD_TYPE_INT32), (''semflg'', LINX_FIELD_TYPE_INT32)]),
     (130, event_row ''semop'' 0 []),
     (131, event_row ''semop'' 3 [(''semid'', LINX_FIELD_TYPE_INT32), (''tsops'',
      LINX_FIELD_TYPE_UNKNOWN), (''nsops'', LINX_FIELD_TYPE_UINT32)]),
     (132, event_row ''semctl'' 0 []),
     (133, event_row ''semctl'' 4 [(''semid'', LINX_FIELD_TYPE_INT32), (''semnum'',
      LINX_FIELD_TYPE_INT32), (''cmd'', LINX_FIELD_TYPE_INT32), (''arg'',
      LINX_FIELD_TYPE_UINT64)]),
     (134, event_row ''shmdt'' 0 []),
     (135, event_row ''shmdt'' 1 [(''shmaddr'', LINX_FIELD_TYPE_CHARBUF)]),
     (136, event_row ''msgget'' 0 []),
     (137, event_row ''msgget'' 2 [(''key'', LINX_FIELD_TYPE_INT32), (''msgflg'',
      LINX_FIELD_TYPE_INT32)]),
     (138, event_row ''msgsnd'' 0 []),
     (139, event_row ''msgsnd'' 4 [(''msqid'', LINX_FIELD_TYPE_INT32), (''msgp'',
      LINX_FIELD_TYPE_UNKNOWN), (''msgsz'', LINX_FIELD_TYPE_UINT64), (''msgflg'',
      LINX_FIELD_TYPE_INT32)]),
     (140, event_row ''msgrcv'' 0 []),
     (141, event_row ''msgrcv'' 5 [(''msqid'', LINX_FIELD_TYPE_INT32), (''msgp'',
      LINX_FIELD_TYPE_UNKNOWN), (''msgsz'', LINX_FIELD_TYPE_UINT64), (''msgtyp'',
      LINX_FIELD_TYPE_INT64), (''msgflg'', LINX_FIELD_TYPE_INT32)]),
     (142, event_row ''msgctl'' 0 []),
     (143, event_row ''msgctl'' 3 [(''msqid'', LINX_FIELD_TYPE_INT32), (''cmd'',
      LINX_FIELD_TYPE_INT32), (''buf'', LINX_FIELD_TYPE_UNKNOWN)])]"

definition event_rows_6 :: "(nat \<times> linx_event_table) list" where
  "event_rows_6 =
    [(144, event_row ''fcntl'' 0 []),
     (145, event_row ''fcntl'' 3 [(''fd'', LINX_FIELD_TYPE_UINT32), (''cmd'',
      LINX_FIELD_TYPE_UINT32), (''arg'', LINX_FIELD_TYPE_UINT64)]),
     (146, event_row ''flock'' 0 []),
     (147, event_row ''flock'' 2 [(''fd'', LINX_FIELD_TYPE_UINT32), (''cmd'',
      LINX_FIELD_TYPE_UINT32)]),
     (148, event_row ''fsync'' 0 []),
     (149, event_row ''fsync'' 1 [(''fd'', LINX_FIELD_TYPE_UINT32)]),
     (150, event_row ''fdatasync'' 0 []),
     (151, event_row ''fdatasync'' 1 [(''fd'', LINX_FIELD_TYPE_UINT32)]),
     (152, event_row ''truncate'' 0 []),
     (153, event_row ''truncate'' 2 [(''path'', LINX_FIELD_TYPE_CHARBUF), (''length'',
      LINX_FIELD_TYPE_INT64)]),
     (154, event_row ''ftruncate'' 0 []),
     (155, event_row ''ftruncate'' 2 [(''fd'', LINX_FIELD_TYPE_UINT32), (''length'',
      LINX_FIELD_TYPE_INT64)]),
     (156, event_row ''getdents'' 0 []),
     (157, event_row ''getdents'' 3 [(''fd'', LINX_FIELD_TYPE_UINT32), (''dirent'',
      LINX_FIELD_TYPE_UNKNOWN), (''count'', LINX_FIELD_TYPE_UINT32)]),
     (158, event_row ''getcwd'' 0 []),
     (159, event_row ''getcwd'' 2 [(''buf'', LINX_FIELD_TYPE_CHARBUF), (''size'',
      LINX_FIELD_TYPE_UINT64)]),
     (160, event_row ''chdir'' 0 []),
     (161, event_row ''chdir'' 1 [(''filename'', LINX_FIELD_TYPE_CHARBUF)]),
     (162, event_row ''fchdir'' 0 []),
     (163, event_row ''fchdir'' 1 [(''fd'', LINX_FIELD_TYPE_UINT32)]),
     (164, event_row ''rename'' 0 []),
     (165, event_row ''rename'' 2 [(''oldname'', LINX_FIELD_TYPE_CHARBUF), (''newname'',
      LINX_FIELD_TYPE_CHARBUF)]),
     (166, event_row ''mkdir'' 0 []),
     (167, event_row ''mkdir'' 2 [(''pathname'', LINX_FIELD_TYPE_CHARBUF), (''mode'',
      LINX_FIELD_TYPE_UINT16)]),
     (168, event_row ''rmdir'' 0 []),
     (169, event_row ''rmdir'' 1 [(''pathname'', LINX_FIELD_TYPE_CHARBUF)])]"

definition event_rows_7 :: "(nat \<times> linx_event_table) list" where
  "event_rows_7 =
    [(170, event_row ''creat'' 0 []),
     (171, event_row ''creat'' 2 [(''pathname'', LINX_FIELD_TYPE_CHARBUF), (''mode'',
      LINX_FIELD_TYPE_UINT16)]),
     (172, event_row ''link'' 0 []),
     (173, event_row ''link'' 2 [(''oldname'', LINX_FIELD_TYPE_CHARBUF), (''newname'',
      LINX_FIELD_TYPE_CHARBUF)]),
     (174, event_row ''unlink'' 0 []),
     (175, event_row ''unlink'' 1 [(''pathname'', LINX_FIELD_TYPE_CHARBUF)]),
     (176, event_row ''symlink'' 0 []),
     (177, event_row ''symlink'' 2 [(''oldname'', LINX_FIELD_TYPE_CHARBUF), (''newname'',
      LINX_FIELD_TYPE_CHARBUF)]),
     (178, event_row ''readlink'' 0 []),
     (179, event_row ''readlink'' 3 [(''path'', LINX_FIELD_TYPE_CHARBUF), (''buf'',
      LINX_FIELD_TYPE_CHARBUF), (''bufsiz'', LINX_FIELD_TYPE_INT32)]),
     (180, event_row ''chmod'' 0 []),
     (181, event_row ''chmod'' 2 [(''filename'', LINX_FIELD_TYPE_CHARBUF), (''mode'',
      LINX_FIELD_TYPE_UINT16)]),
     (182, event_row ''fchmod'' 0 []),
     (183, event_row ''fchmod'' 2 [(''fd'', LINX_FIELD_TYPE_UINT32), (''mode'',
      LINX_FIELD_TYPE_UINT16)]),
     (184, event_row ''chown'' 0 []),
     (185, event_row ''chown'' 3 [(''filename'', LINX_FIELD_TYPE_CHARBUF), (''user'',
      LINX_FIELD_TYPE_UINT32), (''group'', LINX_FIELD_TYPE_UINT32)]),
     (186, event_row ''fchown'' 0 []),
     (187, event_row ''fchown'' 3 [(''fd'', LINX_FIELD_TYPE_UINT32), (''user'',
      LINX_FIELD_TYPE_UINT32), (''group'', LINX_FIELD_TYPE_UINT32)]),
     (188, event_row ''lchown'' 0 []),
     (189, event_row ''lchown'' 3 [(''filename'', LINX_FIELD_TYPE_CHARBUF), (''user'',
      LINX_FIELD_TYPE_UINT32), (''group'', LINX_FIELD_TYPE_UINT32)]),
     (190, event_row ''umask'' 0 []),
     (191, event_row ''umask'' 1 [(''mask'', LINX_FIELD_TYPE_INT32)]),
     (192, event_row ''gettimeofday'' 0 []),
     (193, event_row ''gettimeofday'' 2 [(''tv'', LINX_FIELD_TYPE_UNKNOWN), (''tz'',
      LINX_FIELD_TYPE_UNKNOWN)]),
     (194, event_row ''getrlimit'' 0 []),
     (195, event_row ''getrlimit'' 2 [(''resource'', LINX_FIELD_TYPE_UINT32), (''rlim'',
      LINX_FIELD_TYPE_UNKNOWN)])]"

definition event_rows_8 :: "(nat \<times> linx_event_table) list" where
  "event_rows_8 =
    [(196, event_row ''getrusage'' 0 []),
     (197, event_row ''getrusage'' 2 [(''who'', LINX_FIELD_TYPE_INT32), (''ru'',
      LINX_FIELD_TYPE_UNKNOWN)]),
     (198, event_row ''sysinfo'' 0 []),
     (199, event_row ''sysinfo'' 1 [(''info'', LINX_FIELD_TYPE_UNKNOWN)]),
     (200, event_row ''times'' 0 []),
     (201, event_row ''times'' 1 [(''tbuf'', LINX_FIELD_TYPE_UNKNOWN)]),
     (202, event_row ''ptrace'' 0 []),
     (203, event_row ''ptrace'' 4 [(''request'', LINX_FIELD_TYPE_INT64), (''pid'',
      LINX_FIELD_TYPE_INT64), (''addr'', LINX_FIELD_TYPE_UINT64), (''data'',
      LINX_FIELD_TYPE_UINT64)]),
     (204, event_row ''getuid'' 0 []),
     (205, event_row ''getuid'' 0 []),
     (206, event_row ''syslog'' 0 []),
     (207, event_row ''syslog'' 3 [(''type'', LINX_FIELD_TYPE_INT32), (''buf'',
      LINX_FIELD_TYPE_CHARBUF), (''len'', LINX_FIELD_TYPE_INT32)]),
     (208, event_row ''getgid'' 0 []),
     (209, event_row ''getgid'' 0 []),
     (210, event_row ''setuid'' 0 []),
     (211, event_row ''setuid'' 1 [(''uid'', LINX_FIELD_TYPE_UINT32)]),
     (212, event_row ''setgid'' 0 []),
     (213, event_row ''setgid'' 1 [(''gid'', LINX_FIELD_TYPE_UINT32)]),
     (214, event_row ''geteuid'' 0 []),
     (215, event_row ''geteuid'' 0 []),
     (216, event_row ''getegid'' 0 []),
     (217, event_row ''getegid'' 0 []),
     (218, event_row ''setpgid'' 0 []),
     (219, event_row ''setpgid'' 2 [(''pid'', LINX_FIELD_TYPE_INT32), (''pgid'',
      LINX_FIELD_TYPE_INT32)]),
     (220, event_row ''getppid'' 0 []),
     (221, event_row ''getppid'' 0 []),
     (222, event_row ''getpgrp'' 0 []),
     (223, event_row ''getpgrp'' 0 []),
     (224, event_row ''setsid'' 0 []),
     (225, event_row ''setsid'' 0 [])]"

definition event_rows_9 :: "(nat \<times> linx_event_table) list" where
  "event_rows_9 =
    [(226, event_row ''setreuid'' 0 []),
     (227, event_row ''setreuid'' 2 [(''ruid'', LINX_FIELD_TYPE_UINT32), (''euid'',
      LINX_FIELD_TYPE_UINT32)]),
     (228, event_row ''setregid'' 0 []),
     (229, event_row ''setregid'' 2 [(''rgid'', LINX_FIELD_TYPE_UINT32), (''egid'',
      LINX_FIELD_TYPE_UINT32)]),
     (230, event_row ''getgroups'' 0 []),
     (231, event_row ''getgroups'' 2 [(''gidsetsize'', LINX_FIELD_TYPE_INT32), (''grouplist'',
      LINX_FIELD_TYPE_UNKNOWN)]),
     (232, event_row ''setgroups'' 0 []),
     (233, event_row ''setgroups'' 2 [(''gidsetsize'', LINX_FIELD_TYPE_INT32), (''grouplist'',
      LINX_FIELD_TYPE_UNKNOWN)]),
     (234, event_row ''setresuid'' 0 []),
     (235, event_row ''setresuid'' 3 [(''ruid'', LINX_FIELD_TYPE_UINT32), (''euid'',
      LINX_FIELD_TYPE_UINT32), (''suid'', LINX_FIELD_TYPE_UINT32)]),
     (236, event_row ''getresuid'' 0 []),
     (237, event_row ''getresuid'' 3 [(''ruidp'', LINX_FIELD_TYPE_UNKNOWN), (''euidp'',
      LINX_FIELD_TYPE_UNKNOWN), (''suidp'', LINX_FIELD_TYPE_UNKNOWN)]),
     (238, event_row ''setresgid'' 0 []),
     (239, event_row ''setresgid'' 3 [(''rgid'', LINX_FIELD_TYPE_UINT32), (''egid'',
      LINX_FIELD_TYPE_UINT32), (''sgid'', LINX_FIELD_TYPE_UINT32)]),
     (240, event_row ''getresgid'' 0 []),
     (241, event_row ''getresgid'' 3 [(''rgidp'', LINX_FIELD_TYPE_UNKNOWN), (''egidp'',
      LINX_FIELD_TYPE_UNKNOWN), (''sgidp'', LINX_FIELD_TYPE_UNKNOWN)]),
     (242, event_row ''getpgid'' 0 []),
     (243, event_row ''getpgid'' 1 [(''pid'', LINX_FIELD_TYPE_INT32)]),
     (244, event_row ''setfsuid'' 0 []),
     (245, event_row ''setfsuid'' 1 [(''uid'', LINX_FIELD_TYPE_UINT32)]),
     (246, event_row ''setfsgid'' 0 []),
     (247, event_row ''setfsgid'' 1 [(''gid'', LINX_FIELD_TYPE_UINT32)]),
     (248, event_row ''getsid'' 0 []),
     (249, event_row ''getsid'' 1 [(''pid'', LINX_FIELD_TYPE_INT32)]),
     (250, event_row ''capget'' 0 []),
     (251, event_row ''capget'' 2 [(''header'', LINX_FIELD_TYPE_UNKNOWN), (''dataptr'',
      LINX_FIELD_TYPE_UNKNOWN)])]"

definition event_rows_10 :: "(nat \<times> linx_event_table) list" where
  "event_rows_10 =
    [(252, event_row ''capset'' 0 []),
     (253, event_row ''capset'' 2 [(''header'', LINX_FIELD_TYPE_UNKNOWN), (''data'',
      LINX_FIELD_TYPE_UNKNOWN)]),
     (254, event_row ''rt_sigpending'' 0 []),
     (255, event_row ''rt_sigpending'' 2 [(''uset'', LINX_FIELD_TYPE_UNKNOWN), (''sigsetsize'',
      LINX_FIELD_TYPE_UINT64)]),
     (256, event_row ''rt_sigtimedwait'' 0 []),
     (257, event_row ''rt_sigtimedwait'' 4 [(''uthese'', LINX_FIELD_TYPE_UNKNOWN), (''uinfo'',
      LINX_FIELD_TYPE_UNKNOWN), (''uts'', LINX_FIELD_TYPE_UNKNOWN), (''sigsetsize'',
      LINX_FIELD_TYPE_UINT64)]),
     (258, event_row ''rt_sigqueueinfo'' 0 []),
     (259, event_row ''rt_sigqueueinfo'' 3 [(''pid'', LINX_FIELD_TYPE_INT32), (''sig'',
      LINX_FIELD_TYPE_INT32), (''uinfo'', LINX_FIELD_TYPE_UNKNOWN)]),
     (260, event_row ''rt_sigsuspend'' 0 []),
     (261, event_row ''rt_sigsuspend'' 2 [(''unewset'', LINX_FIELD_TYPE_UNKNOWN),
      (''sigsetsize'', LINX_FIELD_TYPE_UINT64)]),
     (262, event_row ''sigaltstack'' 0 []),
     (263, event_row ''sigaltstack'' 2 [(''uss'', LINX_FIELD_TYPE_UNKNOWN), (''uoss'',
      LINX_FIELD_TYPE_UNKNOWN)]),
     (264, event_row ''utime'' 0 []),
     (265, event_row ''utime'' 2 [(''filename'', LINX_FIELD_TYPE_CHARBUF), (''times'',
      LINX_FIELD_TYPE_UNKNOWN)]),
     (266, event_row ''mknod'' 0 []),
     (267, event_row ''mknod'' 3 [(''filename'', LINX_FIELD_TYPE_CHARBUF), (''mode'',
      LINX_FIELD_TYPE_UINT16), (''dev'', LINX_FIELD_TYPE_UINT32)]),
     (268, event_row ''uselib'' 0 []),
     (269, event_row ''uselib'' 1 [(''library'', LINX_FIELD_TYPE_CHARBUF)]),
     (270, event_row ''personality'' 0 []),
     (271, event_row ''personality'' 1 [(''personality'', LINX_FIELD_TYPE_UINT32)]),
     (272, event_row ''ustat'' 0 []),
     (273, event_row ''ustat'' 2 [(''dev'', LINX_FIELD_TYPE_UINT32), (''ubuf'',
      LINX_FIELD_TYPE_UNKNOWN)]),
     (274, event_row ''statfs'' 0 []),
     (275, event_row ''statfs'' 2 [(''pathname'', LINX_FIELD_TYPE_CHARBUF), (''buf'',
      LINX_FIELD_TYPE_UNKNOWN)]),
     (276, event_row ''fstatfs'' 0 []),
     (277, event_row ''fstatfs'' 2 [(''fd'', LINX_FIELD_TYPE_UINT32), (''buf'',
      LINX_FIELD_TYPE_UNKNOWN)])]"

definition event_rows_11 :: "(nat \<times> linx_event_table) list" where
  "event_rows_11 =
    [(278, event_row ''sysfs'' 0 []),
     (279, event_row ''sysfs'' 3 [(''option'', LINX_FIELD_TYPE_INT32), (''arg1'',
      LINX_FIELD_TYPE_UINT64), (''arg2'', LINX_FIELD_TYPE_UINT64)]),
     (280, event_row ''getpriority'' 0 []),
     (281, event_row ''getpriority'' 2 [(''which'', LINX_FIELD_TYPE_INT32), (''who'',
      LINX_FIELD_TYPE_INT32)]),
     (282, event_row ''setpriority'' 0 []),
     (283, event_row ''setpriority'' 3 [(''which'', LINX_FIELD_TYPE_INT32), (''who'',
      LINX_FIELD_TYPE_INT32), (''niceval'', LINX_FIELD_TYPE_INT32)]),
     (284, event_row ''sched_setparam'' 0 []),
     (285, event_row ''sched_setparam'' 2 [(''pid'', LINX_FIELD_TYPE_INT32), (''param'',
      LINX_FIELD_TYPE_UNKNOWN)]),
     (286, event_row ''sched_getparam'' 0 []),
     (287, event_row ''sched_getparam'' 2 [(''pid'', LINX_FIELD_TYPE_INT32), (''param'',
      LINX_FIELD_TYPE_UNKNOWN)]),
     (288, event_row ''sched_setscheduler'' 0 []),
     (289, event_row ''sched_setscheduler'' 3 [(''pid'', LINX_FIELD_TYPE_INT32), (''policy'',
      LINX_FIELD_TYPE_INT32), (''param'', LINX_FIELD_TYPE_UNKNOWN)]),
     (290, event_row ''sched_getscheduler'' 0 []),
     (291, event_row ''sched_getscheduler'' 1 [(''pid'', LINX_FIELD_TYPE_INT32)]),
     (292, event_row ''sched_get_priority_max'' 0 []),
     (293, event_row ''sched_get_priority_max'' 1 [(''policy'', LINX_FIELD_TYPE_INT32)]),
     (294, event_row ''sched_get_priority_min'' 0 []),
     (295, event_row ''sched_get_priority_min'' 1 [(''policy'', LINX_FIELD_TYPE_INT32)]),
     (296, event_row ''sched_rr_get_interval'' 0 []),
     (297, event_row ''sched_rr_get_interval'' 2 [(''pid'', LINX_FIELD_TYPE_INT32),
      (''interval'', LINX_FIELD_TYPE_UNKNOWN)]),
     (298, event_row ''mlock'' 0 []),
     (299, event_row ''mlock'' 2 [(''start'', LINX_FIELD_TYPE_UINT64), (''len'',
      LINX_FIELD_TYPE_UINT64)]),
     (300, event_row ''munlock'' 0 []),
     (301, event_row ''munlock'' 2 [(''start'', LINX_FIELD_TYPE_UINT64), (''len'',
      LINX_FIELD_TYPE_UINT64)]),
     (302, event_row ''mlockall'' 0 []),
     (303, event_row ''mlockall'' 1 [(''flags'', LINX_FIELD_TYPE_INT32)])]"

definition event_rows_12 :: "(nat \<times> linx_event_table) list" where
  "event_rows_12 =
    [(304, event_row ''munlockall'' 0 []),
     (305, event_row ''munlockall'' 0 []),
     (306, event_row ''vhangup'' 0 []),
     (307, event_row ''vhangup'' 0 []),
     (308, event_row ''modify_ldt'' 0 []),
     (309, event_row ''modify_ldt'' 3 [(''func'', LINX_FIELD_TYPE_INT32), (''ptr'',
      LINX_FIELD_TYPE_UNKNOWN), (''bytecount'', LINX_FIELD_TYPE_UINT64)]),
     (310, event_row ''pivot_root'' 0 []),
     (311, event_row ''pivot_root'' 2 [(''new_root'', LINX_FIELD_TYPE_CHARBUF), (''put_old'',
      LINX_FIELD_TYPE_CHARBUF)]),
     (312, event_row ''_sysctl'' 0 []),
     (313, event_row ''_sysctl'' 1 [(''args'', LINX_FIELD_TYPE_UNKNOWN)]),
     (314, event_row ''prctl'' 0 []),
     (315, event_row ''prctl'' 5 [(''option'', LINX_FIELD_TYPE_INT32), (''arg2'',
      LINX_FIELD_TYPE_UINT64), (''arg3'', LINX_FIELD_TYPE_UINT64), (''arg4'',
      LINX_FIELD_TYPE_UINT64), (''arg5'', LINX_FIELD_TYPE_UINT64)]),
     (316, event_row ''arch_prctl'' 0 []),
     (317, event_row ''arch_prctl'' 2 [(''option'', LINX_FIELD_TYPE_INT32), (''arg2'',
      LINX_FIELD_TYPE_UINT64)]),
     (318, event_row ''adjtimex'' 0 []),
     (319, event_row ''adjtimex'' 1 [(''txc_p'', LINX_FIELD_TYPE_UNKNOWN)]),
     (320, event_row ''setrlimit'' 0 []),
     (321, event_row ''setrlimit'' 2 [(''resource'', LINX_FIELD_TYPE_UINT32), (''rlim'',
      LINX_FIELD_TYPE_UNKNOWN)]),
     (322, event_row ''chroot'' 0 []),
     (323, event_row ''chroot'' 1 [(''filename'', LINX_FIELD_TYPE_CHARBUF)]),
     (324, event_row ''sync'' 0 []),
     (325, event_row ''sync'' 0 []),
     (326, event_row ''acct'' 0 []),
     (327, event_row ''acct'' 1 [(''name'', LINX_FIELD_TYPE_CHARBUF)]),
     (328, event_row ''settimeofday'' 0 []),
     (329, event_row ''settimeofday'' 2 [(''tv'', LINX_FIELD_TYPE_UNKNOWN), (''tz'',
      LINX_FIELD_TYPE_UNKNOWN)])]"

definition event_rows_13 :: "(nat \<times> linx_event_table) list" where
  "event_rows_13 =
    [(330, event_row ''mount'' 0 []),
     (331, event_row ''mount'' 5 [(''dev_name'', LINX_FIELD_TYPE_CHARBUF), (''dir_name'',
      LINX_FIELD_TYPE_CHARBUF), (''type'', LINX_FIELD_TYPE_CHARBUF), (''flags'',
      LINX_FIELD_TYPE_UINT64), (''data'', LINX_FIELD_TYPE_UNKNOWN)]),
     (332, event_row ''umount2'' 0 []),
     (333, event_row ''umount2'' 2 [(''target'', LINX_FIELD_TYPE_CHARBUF), (''flags'',
      LINX_FIELD_TYPE_INT32)]),
     (334, event_row ''swapon'' 0 []),
     (335, event_row ''swapon'' 2 [(''specialfile'', LINX_FIELD_TYPE_CHARBUF), (''swap_flags'',
      LINX_FIELD_TYPE_INT32)]),
     (336, event_row ''swapoff'' 0 []),
     (337, event_row ''swapoff'' 1 [(''specialfile'', LINX_FIELD_TYPE_CHARBUF)]),
     (338, event_row ''reboot'' 0 []),
     (339, event_row ''reboot'' 4 [(''magic1'', LINX_FIELD_TYPE_INT32), (''magic2'',
      LINX_FIELD_TYPE_INT32), (''cmd'', LINX_FIELD_TYPE_UINT32), (''arg'',
      LINX_FIELD_TYPE_UNKNOWN)]),
     (340, event_row ''sethostname'' 0 []),
     (341, event_row ''sethostname'' 2 [(''name'', LINX_FIELD_TYPE_CHARBUF), (''len'',
      LINX_FIELD_TYPE_INT32)]),
     (342, event_row ''setdomainname'' 0 []),
     (343, event_row ''setdomainname'' 2 [(''name'', LINX_FIELD_TYPE_CHARBUF), (''len'',
      LINX_FIELD_TYPE_INT32)]),
     (344, event_row ''iopl'' 0 []),
     (345, event_row ''iopl'' 1 [(''level'', LINX_FIELD_TYPE_UINT32)]),
     (346, event_row ''ioperm'' 0 []),
     (347, event_row ''ioperm'' 3 [(''from'', LINX_FIELD_TYPE_UINT64), (''num'',
      LINX_FIELD_TYPE_UINT64), (''turn_on'', LINX_FIELD_TYPE_INT32)]),
     (348, event_row ''create_module'' 0 []),
     (349, event_row ''create_module'' 2 [(''name'', LINX_FIELD_TYPE_CHARBUF), (''size'',
      LINX_FIELD_TYPE_UINT64)]),
     (350, event_row ''init_module'' 0 []),
     (351, event_row ''init_module'' 3 [(''umod'', LINX_FIELD_TYPE_UNKNOWN), (''len'',
      LINX_FIELD_TYPE_UINT64), (''uargs'', LINX_FIELD_TYPE_CHARBUF)]),
     (352, event_row ''delete_module'' 0 []),
     (353, event_row ''delete_module'' 2 [(''name_user'', LINX_FIELD_TYPE_CHARBUF), (''flags'',
      LINX_FIELD_TYPE_UINT32)]),
     (354, event_row ''get_kernel_syms'' 0 []),
     (355, event_row ''get_kernel_syms'' 1 [(''table'', LINX_FIELD_TYPE_UNKNOWN)])]"

definition event_rows_14 :: "(nat \<times> linx_event_table) list" where
  "event_rows_14 =
    [(356, event_row ''query_module'' 0 []),
     (357, event_row ''query_module'' 5 [(''name'', LINX_FIELD_TYPE_CHARBUF), (''which'',
      LINX_FIELD_TYPE_INT32), (''buf'', LINX_FIELD_TYPE_UNKNOWN), (''bufsize'',
      LINX_FIELD_TYPE_UINT64), (''ret'', LINX_FIELD_TYPE_UNKNOWN)]),
     (358, event_row ''quotactl'' 0 []),
     (359, event_row ''quotactl'' 4 [(''cmd'', LINX_FIELD_TYPE_UINT32), (''special'',
      LINX_FIELD_TYPE_CHARBUF), (''id'', LINX_FIELD_TYPE_UINT32), (''addr'',
      LINX_FIELD_TYPE_UNKNOWN)]),
     (360, event_row ''nfsservctl'' 0 []),
     (361, event_row ''nfsservctl'' 3 [(''cmd'', LINX_FIELD_TYPE_INT32), (''argp'',
      LINX_FIELD_TYPE_UNKNOWN), (''resp'', LINX_FIELD_TYPE_UNKNOWN)]),
     (372, event_row ''gettid'' 0 []),
     (373, event_row ''gettid'' 0 []),
     (374, event_row ''readahead'' 0 []),
     (375, event_row ''readahead'' 3 [(''fd'', LINX_FIELD_TYPE_INT32), (''offset'',
      LINX_FIELD_TYPE_INT64), (''count'', LINX_FIELD_TYPE_UINT64)]),
     (376, event_row ''setxattr'' 0 []),
     (377, event_row ''setxattr'' 5 [(''pathname'', LINX_FIELD_TYPE_CHARBUF), (''name'',
      LINX_FIELD_TYPE_CHARBUF), (''value'', LINX_FIELD_TYPE_UNKNOWN), (''size'',
      LINX_FIELD_TYPE_UINT64), (''flags'', LINX_FIELD_TYPE_INT32)]),
     (378, event_row ''lsetxattr'' 0 []),
     (379, event_row ''lsetxattr'' 5 [(''pathname'', LINX_FIELD_TYPE_CHARBUF), (''name'',
      LINX_FIELD_TYPE_CHARBUF), (''value'', LINX_FIELD_TYPE_UNKNOWN), (''size'',
      LINX_FIELD_TYPE_UINT64), (''flags'', LINX_FIELD_TYPE_INT32)]),
     (380, event_row ''fsetxattr'' 0 []),
     (381, event_row ''fsetxattr'' 5 [(''fd'', LINX_FIELD_TYPE_INT32), (''name'',
      LINX_FIELD_TYPE_CHARBUF), (''value'', LINX_FIELD_TYPE_UNKNOWN), (''size'',
      LINX_FIELD_TYPE_UINT64), (''flags'', LINX_FIELD_TYPE_INT32)]),
     (382, event_row ''getxattr'' 0 []),
     (383, event_row ''getxattr'' 4 [(''pathname'', LINX_FIELD_TYPE_CHARBUF), (''name'',
      LINX_FIELD_TYPE_CHARBUF), (''value'', LINX_FIELD_TYPE_UNKNOWN), (''size'',
      LINX_FIELD_TYPE_UINT64)]),
     (384, event_row ''lgetxattr'' 0 []),
     (385, event_row ''lgetxattr'' 4 [(''pathname'', LINX_FIELD_TYPE_CHARBUF), (''name'',
      LINX_FIELD_TYPE_CHARBUF), (''value'', LINX_FIELD_TYPE_UNKNOWN), (''size'',
      LINX_FIELD_TYPE_UINT64)]),
     (386, event_row ''fgetxattr'' 0 []),
     (387, event_row ''fgetxattr'' 4 [(''fd'', LINX_FIELD_TYPE_INT32), (''name'',
      LINX_FIELD_TYPE_CHARBUF), (''value'', LINX_FIELD_TYPE_UNKNOWN), (''size'',
      LINX_FIELD_TYPE_UINT64)])]"

definition event_rows_15 :: "(nat \<times> linx_event_table) list" where
  "event_rows_15 =
    [(388, event_row ''listxattr'' 0 []),
     (389, event_row ''listxattr'' 3 [(''pathname'', LINX_FIELD_TYPE_CHARBUF), (''list'',
      LINX_FIELD_TYPE_CHARBUF), (''size'', LINX_FIELD_TYPE_UINT64)]),
     (390, event_row ''llistxattr'' 0 []),
     (391, event_row ''llistxattr'' 3 [(''pathname'', LINX_FIELD_TYPE_CHARBUF), (''list'',
      LINX_FIELD_TYPE_CHARBUF), (''size'', LINX_FIELD_TYPE_UINT64)]),
     (392, event_row ''flistxattr'' 0 []),
     (393, event_row ''flistxattr'' 3 [(''fd'', LINX_FIELD_TYPE_INT32), (''list'',
      LINX_FIELD_TYPE_CHARBUF), (''size'', LINX_FIELD_TYPE_UINT64)]),
     (394, event_row ''removexattr'' 0 []),
     (395, event_row ''removexattr'' 2 [(''pathname'', LINX_FIELD_TYPE_CHARBUF), (''name'',
      LINX_FIELD_TYPE_CHARBUF)]),
     (396, event_row ''lremovexattr'' 0 []),
     (397, event_row ''lremovexattr'' 2 [(''pathname'', LINX_FIELD_TYPE_CHARBUF), (''name'',
      LINX_FIELD_TYPE_CHARBUF)]),
     (398, event_row ''fremovexattr'' 0 []),
     (399, event_row ''fremovexattr'' 2 [(''fd'', LINX_FIELD_TYPE_INT32), (''name'',
      LINX_FIELD_TYPE_CHARBUF)]),
     (400, event_row ''tkill'' 0 []),
     (401, event_row ''tkill'' 2 [(''pid'', LINX_FIELD_TYPE_INT32), (''sig'',
      LINX_FIELD_TYPE_INT32)]),
     (402, event_row ''time'' 0 []),
     (403, event_row ''time'' 1 [(''tloc'', LINX_FIELD_TYPE_UNKNOWN)]),
     (404, event_row ''futex'' 0 []),
     (405, event_row ''futex'' 6 [(''uaddr'', LINX_FIELD_TYPE_UNKNOWN), (''op'',
      LINX_FIELD_TYPE_INT32), (''val'', LINX_FIELD_TYPE_UINT32), (''utime'',
      LINX_FIELD_TYPE_UNKNOWN), (''uaddr2'', LINX_FIELD_TYPE_UNKNOWN), (''val3'',
      LINX_FIELD_TYPE_UINT32)]),
     (406, event_row ''sched_setaffinity'' 0 []),
     (407, event_row ''sched_setaffinity'' 3 [(''pid'', LINX_FIELD_TYPE_INT32), (''len'',
      LINX_FIELD_TYPE_UINT32), (''user_mask_ptr'', LINX_FIELD_TYPE_UNKNOWN)]),
     (408, event_row ''sched_getaffinity'' 0 []),
     (409, event_row ''sched_getaffinity'' 3 [(''pid'', LINX_FIELD_TYPE_INT32), (''len'',
      LINX_FIELD_TYPE_UINT32), (''user_mask_ptr'', LINX_FIELD_TYPE_UNKNOWN)]),
     (410, event_row ''set_thread_area'' 0 []),
     (411, event_row ''set_thread_area'' 1 [(''u_info'', LINX_FIELD_TYPE_UNKNOWN)]),
     (412, event_row ''io_setup'' 0 []),
     (413, event_row ''io_setup'' 2 [(''nr_events'', LINX_FIELD_TYPE_UINT32), (''ctxp'',
      LINX_FIELD_TYPE_UNKNOWN)])]"

definition event_rows_16 :: "(nat \<times> linx_event_table) list" where
  "event_rows_16 =
    [(414, event_row ''io_destroy'' 0 []),
     (415, event_row ''io_destroy'' 1 [(''ctx'', LINX_FIELD_TYPE_UINT64)]),
     (416, event_row ''io_getevents'' 0 []),
     (417, event_row ''io_getevents'' 5 [(''ctx_id'', LINX_FIELD_TYPE_UINT64), (''min_nr'',
      LINX_FIELD_TYPE_INT64), (''nr'', LINX_FIELD_TYPE_INT64), (''events'',
      LINX_FIELD_TYPE_UNKNOWN), (''timeout'', LINX_FIELD_TYPE_UNKNOWN)]),
     (418, event_row ''io_submit'' 0 []),
     (419, event_row ''io_submit'' 3 [(''ctx_id'', LINX_FIELD_TYPE_UINT64), (''nr'',
      LINX_FIELD_TYPE_INT64), (''iocbpp'', LINX_FIELD_TYPE_UNKNOWN)]),
     (420, event_row ''io_cancel'' 0 []),
     (421, event_row ''io_cancel'' 3 [(''ctx_id'', LINX_FIELD_TYPE_UINT64), (''iocb'',
      LINX_FIELD_TYPE_UNKNOWN), (''result'', LINX_FIELD_TYPE_UNKNOWN)]),
     (422, event_row ''get_thread_area'' 0 []),
     (423, event_row ''get_thread_area'' 1 [(''u_info'', LINX_FIELD_TYPE_UNKNOWN)]),
     (424, event_row ''lookup_dcookie'' 0 []),
     (425, event_row ''lookup_dcookie'' 3 [(''cookie'', LINX_FIELD_TYPE_UINT64), (''buffer'',
      LINX_FIELD_TYPE_CHARBUF), (''len'', LINX_FIELD_TYPE_UINT64)]),
     (426, event_row ''epoll_create'' 0 []),
     (427, event_row ''epoll_create'' 1 [(''size'', LINX_FIELD_TYPE_INT32)]),
     (432, event_row ''remap_file_pages'' 0 []),
     (433, event_row ''remap_file_pages'' 5 [(''start'', LINX_FIELD_TYPE_UINT64), (''size'',
      LINX_FIELD_TYPE_UINT64), (''prot'', LINX_FIELD_TYPE_UINT64), (''pgoff'',
      LINX_FIELD_TYPE_UINT64), (''flags'', LINX_FIELD_TYPE_UINT64)]),
     (434, event_row ''getdents64'' 0 []),
     (435, event_row ''getdents64'' 3 [(''fd'', LINX_FIELD_TYPE_UINT32), (''dirent'',
      LINX_FIELD_TYPE_UNKNOWN), (''count'', LINX_FIELD_TYPE_UINT32)]),
     (436, event_row ''set_tid_address'' 0 []),
     (437, event_row ''set_tid_address'' 1 [(''tidptr'', LINX_FIELD_TYPE_UNKNOWN)]),
     (438, event_row ''restart_syscall'' 0 []),
     (439, event_row ''restart_syscall'' 0 []),
     (440, event_row ''semtimedop'' 0 []),
     (441, event_row ''semtimedop'' 4 [(''semid'', LINX_FIELD_TYPE_INT32), (''tsops'',
      LINX_FIELD_TYPE_UNKNOWN), (''nsops'', LINX_FIELD_TYPE_UINT32), (''timeout'',
      LINX_FIELD_TYPE_UNKNOWN)])]"

definition event_rows_17 :: "(nat \<times> linx_event_table) list" where
  "event_rows_17 =
    [(442, event_row ''fadvise64'' 0 []),
     (443, event_row ''fadvise64'' 4 [(''fd'', LINX_FIELD_TYPE_INT32), (''offset'',
      LINX_FIELD_TYPE_INT64), (''len'', LINX_FIELD_TYPE_UINT64), (''advice'',
      LINX_FIELD_TYPE_INT32)]),
     (444, event_row ''timer_create'' 0 []),
     (445, event_row ''timer_create'' 3 [(''which_clock'', LINX_FIELD_TYPE_INT32),
      (''timer_event_spec'', LINX_FIELD_TYPE_UNKNOWN), (''created_timer_id'',
      LINX_FIELD_TYPE_UNKNOWN)]),
     (446, event_row ''timer_settime'' 0 []),
     (447, event_row ''timer_settime'' 4 [(''timer_id'', LINX_FIELD_TYPE_INT32), (''flags'',
      LINX_FIELD_TYPE_INT32), (''new_setting'', LINX_FIELD_TYPE_UNKNOWN), (''old_setting'',
      LINX_FIELD_TYPE_UNKNOWN)]),
     (448, event_row ''timer_gettime'' 0 []),
     (449, event_row ''timer_gettime'' 2 [(''timer_id'', LINX_FIELD_TYPE_INT32), (''setting'',
      LINX_FIELD_TYPE_UNKNOWN)]),
     (450, event_row ''timer_getoverrun'' 0 []),
     (451, event_row ''timer_getoverrun'' 1 [(''timer_id'', LINX_FIELD_TYPE_INT32)]),
     (452, event_row ''timer_delete'' 0 []),
     (453, event_row ''timer_delete'' 1 [(''timer_id'', LINX_FIELD_TYPE_INT32)]),
     (454, event_row ''clock_settime'' 0 []),
     (455, event_row ''clock_settime'' 2 [(''which_clock'', LINX_FIELD_TYPE_INT32), (''tp'',
      LINX_FIELD_TYPE_UNKNOWN)]),
     (456, event_row ''clock_gettime'' 0 []),
     (457, event_row ''clock_gettime'' 2 [(''which_clock'', LINX_FIELD_TYPE_INT32), (''tp'',
      LINX_FIELD_TYPE_UNKNOWN)]),
     (458, event_row ''clock_getres'' 0 []),
     (459, event_row ''clock_getres'' 2 [(''which_clock'', LINX_FIELD_TYPE_INT32), (''tp'',
      LINX_FIELD_TYPE_UNKNOWN)]),
     (460, event_row ''clock_nanosleep'' 0 []),
     (461, event_row ''clock_nanosleep'' 4 [(''which_clock'', LINX_FIELD_TYPE_INT32), (''flags'',
      LINX_FIELD_TYPE_INT32), (''rqtp'', LINX_FIELD_TYPE_UNKNOWN), (''rmtp'',
      LINX_FIELD_TYPE_UNKNOWN)]),
     (462, event_row ''exit_group'' 0 []),
     (463, event_row ''exit_group'' 1 [(''error_code'', LINX_FIELD_TYPE_INT32)]),
     (464, event_row ''epoll_wait'' 0 []),
     (465, event_row ''epoll_wait'' 4 [(''epfd'', LINX_FIELD_TYPE_INT32), (''events'',
      LINX_FIELD_TYPE_UNKNOWN), (''maxevents'', LINX_FIELD_TYPE_INT32), (''timeout'',
      LINX_FIELD_TYPE_INT32)])]"

definition event_rows_18 :: "(nat \<times> linx_event_table) list" where
  "event_rows_18 =
    [(466, event_row ''epoll_ctl'' 0 []),
     (467, event_row ''epoll_ctl'' 4 [(''epfd'', LINX_FIELD_TYPE_INT32), (''op'',
      LINX_FIELD_TYPE_INT32), (''fd'', LINX_FIELD_TYPE_INT32), (''event'',
      LINX_FIELD_TYPE_UNKNOWN)]),
     (468, event_row ''tgkill'' 0 []),
     (469, event_row ''tgkill'' 3 [(''tgid'', LINX_FIELD_TYPE_INT32), (''pid'',
      LINX_FIELD_TYPE_INT32), (''sig'', LINX_FIELD_TYPE_INT32)]),
     (470, event_row ''utimes'' 0 []),
     (471, event_row ''utimes'' 2 [(''filename'', LINX_FIELD_TYPE_CHARBUF), (''utimes'',
      LINX_FIELD_TYPE_UNKNOWN)]),
     (474, event_row ''mbind'' 0 []),
     (475, event_row ''mbind'' 6 [(''start'', LINX_FIELD_TYPE_UINT64), (''len'',
      LINX_FIELD_TYPE_UINT64), (''mode'', LINX_FIELD_TYPE_UINT64), (''nmask'',
      LINX_FIELD_TYPE_UNKNOWN), (''maxnode'', LINX_FIELD_TYPE_UINT64), (''flags'',
      LINX_FIELD_TYPE_UINT32)]),
     (476, event_row ''set_mempolicy'' 0 []),
     (477, event_row ''set_mempolicy'' 3 [(''mode'', LINX_FIELD_TYPE_INT32), (''nmask'',
      LINX_FIELD_TYPE_UNKNOWN), (''maxnode'', LINX_FIELD_TYPE_UINT64)]),
     (478, event_row ''get_mempolicy'' 0 []),
     (479, event_row ''get_mempolicy'' 5 [(''policy'', LINX_FIELD_TYPE_UNKNOWN), (''nmask'',
      LINX_FIELD_TYPE_UNKNOWN), (''maxnode'', LINX_FIELD_TYPE_UINT64), (''addr'',
      LINX_FIELD_TYPE_UINT64), (''flags'', LINX_FIELD_TYPE_UINT64)]),
     (480, event_row ''mq_open'' 0 []),
     (481, event_row ''mq_open'' 4 [(''u_name'', LINX_FIELD_TYPE_CHARBUF), (''oflag'',
      LINX_FIELD_TYPE_INT32), (''mode'', LINX_FIELD_TYPE_UINT16), (''u_attr'',
      LINX_FIELD_TYPE_UNKNOWN)]),
     (482, event_row ''mq_unlink'' 0 []),
     (483, event_row ''mq_unlink'' 1 [(''u_name'', LINX_FIELD_TYPE_CHARBUF)]),
     (484, event_row ''mq_timedsend'' 0 []),
     (485, event_row ''mq_timedsend'' 5 [(''mqdes'', LINX_FIELD_TYPE_INT32), (''u_msg_ptr'',
      LINX_FIELD_TYPE_CHARBUF), (''msg_len'', LINX_FIELD_TYPE_UINT64), (''msg_prio'',
      LINX_FIELD_TYPE_UINT32), (''u_abs_timeout'', LINX_FIELD_TYPE_UNKNOWN)]),
     (486, event_row ''mq_timedreceive'' 0 []),
     (487, event_row ''mq_timedreceive'' 5 [(''mqdes'', LINX_FIELD_TYPE_INT32), (''u_msg_ptr'',
      LINX_FIELD_TYPE_CHARBUF), (''msg_len'', LINX_FIELD_TYPE_UINT64), (''u_msg_prio'',
      LINX_FIELD_TYPE_UNKNOWN), (''u_abs_timeout'', LINX_FIELD_TYPE_UNKNOWN)]),
     (488, event_row ''mq_notify'' 0 []),
     (489, event_row ''mq_notify'' 2 [(''mqdes'', LINX_FIELD_TYPE_INT32), (''u_notification'',
      LINX_FIELD_TYPE_UNKNOWN)])]"

definition event_rows_19 :: "(nat \<times> linx_event_table) list" where
  "event_rows_19 =
    [(490, event_row ''mq_getsetattr'' 0 []),
     (491, event_row ''mq_getsetattr'' 3 [(''mqdes'', LINX_FIELD_TYPE_INT32), (''u_mqstat'',
      LINX_FIELD_TYPE_UNKNOWN), (''u_omqstat'', LINX_FIELD_TYPE_UNKNOWN)]),
     (492, event_row ''kexec_load'' 0 []),
     (493, event_row ''kexec_load'' 4 [(''entry'', LINX_FIELD_TYPE_UINT64), (''nr_segments'',
      LINX_FIELD_TYPE_UINT64), (''segments'', LINX_FIELD_TYPE_UNKNOWN), (''flags'',
      LINX_FIELD_TYPE_UINT64)]),
     (494, event_row ''waitid'' 0 []),
     (495, event_row ''waitid'' 5 [(''which'', LINX_FIELD_TYPE_INT32), (''upid'',
      LINX_FIELD_TYPE_INT32), (''infop'', LINX_FIELD_TYPE_UNKNOWN), (''options'',
      LINX_FIELD_TYPE_INT32), (''ru'', LINX_FIELD_TYPE_UNKNOWN)]),
     (496, event_row ''add_key'' 0 []),
     (497, event_row ''add_key'' 5 [(''_type'', LINX_FIELD_TYPE_CHARBUF), (''_description'',
      LINX_FIELD_TYPE_CHARBUF), (''_payload'', LINX_FIELD_TYPE_UNKNOWN), (''plen'',
      LINX_FIELD_TYPE_UINT64), (''ringid'', LINX_FIELD_TYPE_INT32)]),
     (498, event_row ''request_key'' 0 []),
     (499, event_row ''request_key'' 4 [(''_type'', LINX_FIELD_TYPE_CHARBUF), (''_description'',
      LINX_FIELD_TYPE_CHARBUF), (''_callout_info'', LINX_FIELD_TYPE_CHARBUF), (''destringid'',
      LINX_FIELD_TYPE_INT32)]),
     (500, event_row ''keyctl'' 0 []),
     (501, event_row ''keyctl'' 5 [(''option'', LINX_FIELD_TYPE_INT32), (''arg2'',
      LINX_FIELD_TYPE_UINT64), (''arg3'', LINX_FIELD_TYPE_UINT64), (''arg4'',
      LINX_FIELD_TYPE_UINT64), (''arg5'', LINX_FIELD_TYPE_UINT64)]),
     (502, event_row ''ioprio_set'' 0 []),
     (503, event_row ''ioprio_set'' 3 [(''which'', LINX_FIELD_TYPE_INT32), (''who'',
      LINX_FIELD_TYPE_INT32), (''ioprio'', LINX_FIELD_TYPE_INT32)]),
     (504, event_row ''ioprio_get'' 0 []),
     (505, event_row ''ioprio_get'' 2 [(''which'', LINX_FIELD_TYPE_INT32), (''who'',
      LINX_FIELD_TYPE_INT32)]),
     (506, event_row ''inotify_init'' 0 []),
     (507, event_row ''inotify_init'' 0 []),
     (508, event_row ''inotify_add_watch'' 0 []),
     (509, event_row ''inotify_add_watch'' 3 [(''fd'', LINX_FIELD_TYPE_INT32), (''pathname'',
      LINX_FIELD_TYPE_CHARBUF), (''mask'', LINX_FIELD_TYPE_UINT32)]),
     (510, event_row ''inotify_rm_watch'' 0 []),
     (511, event_row ''inotify_rm_watch'' 2 [(''fd'', LINX_FIELD_TYPE_INT32), (''wd'',
      LINX_FIELD_TYPE_INT32)]),
     (512, event_row ''migrate_pages'' 0 []),
     (513, event_row ''migrate_pages'' 4 [(''pid'', LINX_FIELD_TYPE_INT32), (''maxnode'',
      LINX_FIELD_TYPE_UINT64), (''old_nodes'', LINX_FIELD_TYPE_UNKNOWN), (''new_nodes'',
      LINX_FIELD_TYPE_UNKNOWN)])]"

definition event_rows_20 :: "(nat \<times> linx_event_table) list" where
  "event_rows_20 =
    [(514, event_row ''openat'' 4 [(''dirfd'', LINX_FIELD_TYPE_INT64), (''name'',
      LINX_FIELD_TYPE_CHARBUF), (''flags'', LINX_FIELD_TYPE_INT32), (''mode'',
      LINX_FIELD_TYPE_UINT32)]),
     (515, event_row ''openat'' 7 [(''fd'', LINX_FIELD_TYPE_INT64), (''dirfd'',
      LINX_FIELD_TYPE_INT64), (''name'', LINX_FIELD_TYPE_CHARBUF), (''flags'',
      LINX_FIELD_TYPE_INT32), (''mode'', LINX_FIELD_TYPE_UINT32), (''dev'',
      LINX_FIELD_TYPE_UINT32), (''ino'', LINX_FIELD_TYPE_UINT64)]),
     (516, event_row ''mkdirat'' 0 []),
     (517, event_row ''mkdirat'' 3 [(''dfd'', LINX_FIELD_TYPE_INT32), (''pathname'',
      LINX_FIELD_TYPE_CHARBUF), (''mode'', LINX_FIELD_TYPE_UINT16)]),
     (518, event_row ''mknodat'' 0 []),
     (519, event_row ''mknodat'' 4 [(''dfd'', LINX_FIELD_TYPE_INT32), (''filename'',
      LINX_FIELD_TYPE_CHARBUF), (''mode'', LINX_FIELD_TYPE_UINT16), (''dev'',
      LINX_FIELD_TYPE_UINT32)]),
     (520, event_row ''fchownat'' 0 []),
     (521, event_row ''fchownat'' 5 [(''dfd'', LINX_FIELD_TYPE_INT32), (''filename'',
      LINX_FIELD_TYPE_CHARBUF), (''user'', LINX_FIELD_TYPE_UINT32), (''group'',
      LINX_FIELD_TYPE_UINT32), (''flag'', LINX_FIELD_TYPE_INT32)]),
     (522, event_row ''futimesat'' 0 []),
     (523, event_row ''futimesat'' 3 [(''dfd'', LINX_FIELD_TYPE_INT32), (''filename'',
      LINX_FIELD_TYPE_CHARBUF), (''utimes'', LINX_FIELD_TYPE_UNKNOWN)]),
     (524, event_row ''newfstatat'' 0 []),
     (525, event_row ''newfstatat'' 4 [(''dfd'', LINX_FIELD_TYPE_INT32), (''filename'',
      LINX_FIELD_TYPE_CHARBUF), (''statbuf'', LINX_FIELD_TYPE_UNKNOWN), (''flag'',
      LINX_FIELD_TYPE_INT32)]),
     (526, event_row ''unlinkat'' 0 []),
     (527, event_row ''unlinkat'' 3 [(''dfd'', LINX_FIELD_TYPE_INT32), (''pathname'',
      LINX_FIELD_TYPE_CHARBUF), (''flag'', LINX_FIELD_TYPE_INT32)]),
     (528, event_row ''renameat'' 0 []),
     (529, event_row ''renameat'' 4 [(''olddfd'', LINX_FIELD_TYPE_INT32), (''oldname'',
      LINX_FIELD_TYPE_CHARBUF), (''newdfd'', LINX_FIELD_TYPE_INT32), (''newname'',
      LINX_FIELD_TYPE_CHARBUF)]),
     (530, event_row ''linkat'' 0 []),
     (531, event_row ''linkat'' 5 [(''olddfd'', LINX_FIELD_TYPE_INT32), (''oldname'',
      LINX_FIELD_TYPE_CHARBUF), (''newdfd'', LINX_FIELD_TYPE_INT32), (''newname'',
      LINX_FIELD_TYPE_CHARBUF), (''flags'', LINX_FIELD_TYPE_INT32)]),
     (532, event_row ''symlinkat'' 0 []),
     (533, event_row ''symlinkat'' 3 [(''oldname'', LINX_FIELD_TYPE_CHARBUF), (''newdfd'',
      LINX_FIELD_TYPE_INT32), (''newname'', LINX_FIELD_TYPE_CHARBUF)]),
     (534, event_row ''readlinkat'' 0 []),
     (535, event_row ''readlinkat'' 4 [(''dfd'', LINX_FIELD_TYPE_INT32), (''pathname'',
      LINX_FIELD_TYPE_CHARBUF), (''buf'', LINX_FIELD_TYPE_CHARBUF), (''bufsiz'',
      LINX_FIELD_TYPE_INT32)])]"

definition event_rows_21 :: "(nat \<times> linx_event_table) list" where
  "event_rows_21 =
    [(536, event_row ''fchmodat'' 0 []),
     (537, event_row ''fchmodat'' 3 [(''dfd'', LINX_FIELD_TYPE_INT32), (''filename'',
      LINX_FIELD_TYPE_CHARBUF), (''mode'', LINX_FIELD_TYPE_UINT16)]),
     (538, event_row ''faccessat'' 0 []),
     (539, event_row ''faccessat'' 3 [(''dfd'', LINX_FIELD_TYPE_INT32), (''filename'',
      LINX_FIELD_TYPE_CHARBUF), (''mode'', LINX_FIELD_TYPE_INT32)]),
     (540, event_row ''pselect6'' 0 []),
     (541, event_row ''pselect6'' 6 [(''n'', LINX_FIELD_TYPE_INT32), (''inp'',
      LINX_FIELD_TYPE_UNKNOWN), (''outp'', LINX_FIELD_TYPE_UNKNOWN), (''exp'',
      LINX_FIELD_TYPE_UNKNOWN), (''tsp'', LINX_FIELD_TYPE_UNKNOWN), (''sig'',
      LINX_FIELD_TYPE_UNKNOWN)]),
     (542, event_row ''ppoll'' 0 []),
     (543, event_row ''ppoll'' 5 [(''ufds'', LINX_FIELD_TYPE_UNKNOWN), (''nfds'',
      LINX_FIELD_TYPE_UINT32), (''tsp'', LINX_FIELD_TYPE_UNKNOWN), (''sigmask'',
      LINX_FIELD_TYPE_UNKNOWN), (''sigsetsize'', LINX_FIELD_TYPE_UINT64)]),
     (544, event_row ''unshare'' 0 []),
     (545, event_row ''unshare'' 1 [(''unshare_flags'', LINX_FIELD_TYPE_UINT64)]),
     (546, event_row ''set_robust_list'' 0 []),
     (547, event_row ''set_robust_list'' 2 [(''head'', LINX_FIELD_TYPE_UNKNOWN), (''len'',
      LINX_FIELD_TYPE_UINT64)]),
     (548, event_row ''get_robust_list'' 0 []),
     (549, event_row ''get_robust_list'' 3 [(''pid'', LINX_FIELD_TYPE_INT32), (''head_ptr'',
      LINX_FIELD_TYPE_UNKNOWN), (''len_ptr'', LINX_FIELD_TYPE_UNKNOWN)]),
     (550, event_row ''splice'' 0 []),
     (551, event_row ''splice'' 6 [(''fd_in'', LINX_FIELD_TYPE_INT32), (''off_in'',
      LINX_FIELD_TYPE_UNKNOWN), (''fd_out'', LINX_FIELD_TYPE_INT32), (''off_out'',
      LINX_FIELD_TYPE_UNKNOWN), (''len'', LINX_FIELD_TYPE_UINT64), (''flags'',
      LINX_FIELD_TYPE_UINT32)]),
     (552, event_row ''tee'' 0 []),
     (553, event_row ''tee'' 4 [(''fdin'', LINX_FIELD_TYPE_INT32), (''fdout'',
      LINX_FIELD_TYPE_INT32), (''len'', LINX_FIELD_TYPE_UINT64), (''flags'',
      LINX_FIELD_TYPE_UINT32)]),
     (554, event_row ''sync_file_range'' 0 []),
     (555, event_row ''sync_file_range'' 4 [(''fd'', LINX_FIELD_TYPE_INT32), (''offset'',
      LINX_FIELD_TYPE_INT64), (''nbytes'', LINX_FIELD_TYPE_INT64), (''flags'',
      LINX_FIELD_TYPE_UINT32)]),
     (556, event_row ''vmsplice'' 0 []),
     (557, event_row ''vmsplice'' 4 [(''fd'', LINX_FIELD_TYPE_INT32), (''uiov'',
      LINX_FIELD_TYPE_UNKNOWN), (''nr_segs'', LINX_FIELD_TYPE_UINT64), (''flags'',
      LINX_FIELD_TYPE_UINT32)])]"

definition event_rows_22 :: "(nat \<times> linx_event_table) list" where
  "event_rows_22 =
    [(558, event_row ''move_pages'' 0 []),
     (559, event_row ''move_pages'' 6 [(''pid'', LINX_FIELD_TYPE_INT32), (''nr_pages'',
      LINX_FIELD_TYPE_UINT64), (''pages'', LINX_FIELD_TYPE_UNKNOWN), (''nodes'',
      LINX_FIELD_TYPE_UNKNOWN), (''status'', LINX_FIELD_TYPE_UNKNOWN), (''flags'',
      LINX_FIELD_TYPE_INT32)]),
     (560, event_row ''utimensat'' 0 []),
     (561, event_row ''utimensat'' 4 [(''dfd'', LINX_FIELD_TYPE_INT32), (''filename'',
      LINX_FIELD_TYPE_CHARBUF), (''utimes'', LINX_FIELD_TYPE_UNKNOWN), (''flags'',
      LINX_FIELD_TYPE_INT32)]),
     (562, event_row ''epoll_pwait'' 0 []),
     (563, event_row ''epoll_pwait'' 6 [(''epfd'', LINX_FIELD_TYPE_INT32), (''events'',
      LINX_FIELD_TYPE_UNKNOWN), (''maxevents'', LINX_FIELD_TYPE_INT32), (''timeout'',
      LINX_FIELD_TYPE_INT32), (''sigmask'', LINX_FIELD_TYPE_UNKNOWN), (''sigsetsize'',
      LINX_FIELD_TYPE_UINT64)]),
     (564, event_row ''signalfd'' 0 []),
     (565, event_row ''signalfd'' 3 [(''ufd'', LINX_FIELD_TYPE_INT32), (''user_mask'',
      LINX_FIELD_TYPE_UNKNOWN), (''sizemask'', LINX_FIELD_TYPE_UINT64)]),
     (566, event_row ''timerfd_create'' 0 []),
     (567, event_row ''timerfd_create'' 2 [(''clockid'', LINX_FIELD_TYPE_INT32), (''flags'',
      LINX_FIELD_TYPE_INT32)]),
     (568, event_row ''eventfd'' 0 []),
     (569, event_row ''eventfd'' 1 [(''count'', LINX_FIELD_TYPE_UINT32)]),
     (570, event_row ''fallocate'' 0 []),
     (571, event_row ''fallocate'' 4 [(''fd'', LINX_FIELD_TYPE_INT32), (''mode'',
      LINX_FIELD_TYPE_INT32), (''offset'', LINX_FIELD_TYPE_INT64), (''len'',
      LINX_FIELD_TYPE_INT64)]),
     (572, event_row ''timerfd_settime'' 0 []),
     (573, event_row ''timerfd_settime'' 4 [(''ufd'', LINX_FIELD_TYPE_INT32), (''flags'',
      LINX_FIELD_TYPE_INT32), (''utmr'', LINX_FIELD_TYPE_UNKNOWN), (''otmr'',
      LINX_FIELD_TYPE_UNKNOWN)]),
     (574, event_row ''timerfd_gettime'' 0 []),
     (575, event_row ''timerfd_gettime'' 2 [(''ufd'', LINX_FIELD_TYPE_INT32), (''otmr'',
      LINX_FIELD_TYPE_UNKNOWN)]),
     (576, event_row ''accept4'' 0 []),
     (577, event_row ''accept4'' 4 [(''fd'', LINX_FIELD_TYPE_INT32), (''upeer_sockaddr'',
      LINX_FIELD_TYPE_UNKNOWN), (''upeer_addrlen'', LINX_FIELD_TYPE_UNKNOWN), (''flags'',
      LINX_FIELD_TYPE_INT32)]),
     (578, event_row ''signalfd4'' 0 []),
     (579, event_row ''signalfd4'' 4 [(''ufd'', LINX_FIELD_TYPE_INT32), (''user_mask'',
      LINX_FIELD_TYPE_UNKNOWN), (''sizemask'', LINX_FIELD_TYPE_UINT64), (''flags'',
      LINX_FIELD_TYPE_INT32)]),
     (580, event_row ''eventfd2'' 0 []),
     (581, event_row ''eventfd2'' 2 [(''count'', LINX_FIELD_TYPE_UINT32), (''flags'',
      LINX_FIELD_TYPE_INT32)])]"

definition event_rows_23 :: "(nat \<times> linx_event_table) list" where
  "event_rows_23 =
    [(582, event_row ''epoll_create1'' 0 []),
     (583, event_row ''epoll_create1'' 1 [(''flags'', LINX_FIELD_TYPE_INT32)]),
     (584, event_row ''dup3'' 1 [(''fd'', LINX_FIELD_TYPE_INT64)]),
     (585, event_row ''dup3'' 4 [(''res'', LINX_FIELD_TYPE_INT64), (''oldfd'',
      LINX_FIELD_TYPE_INT64), (''newfd'', LINX_FIELD_TYPE_INT64), (''flags'',
      LINX_FIELD_TYPE_INT32)]),
     (586, event_row ''pipe2'' 0 []),
     (587, event_row ''pipe2'' 2 [(''fildes'', LINX_FIELD_TYPE_UNKNOWN), (''flags'',
      LINX_FIELD_TYPE_INT32)]),
     (588, event_row ''inotify_init1'' 0 []),
     (589, event_row ''inotify_init1'' 1 [(''flags'', LINX_FIELD_TYPE_INT32)]),
     (590, event_row ''preadv'' 0 []),
     (591, event_row ''preadv'' 5 [(''fd'', LINX_FIELD_TYPE_UINT64), (''vec'',
      LINX_FIELD_TYPE_UNKNOWN), (''vlen'', LINX_FIELD_TYPE_UINT64), (''pos_l'',
      LINX_FIELD_TYPE_UINT64), (''pos_h'', LINX_FIELD_TYPE_UINT64)]),
     (592, event_row ''pwritev'' 0 []),
     (593, event_row ''pwritev'' 5 [(''fd'', LINX_FIELD_TYPE_UINT64), (''vec'',
      LINX_FIELD_TYPE_UNKNOWN), (''vlen'', LINX_FIELD_TYPE_UINT64), (''pos_l'',
      LINX_FIELD_TYPE_UINT64), (''pos_h'', LINX_FIELD_TYPE_UINT64)]),
     (594, event_row ''rt_tgsigqueueinfo'' 0 []),
     (595, event_row ''rt_tgsigqueueinfo'' 4 [(''tgid'', LINX_FIELD_TYPE_INT32), (''pid'',
      LINX_FIELD_TYPE_INT32), (''sig'', LINX_FIELD_TYPE_INT32), (''uinfo'',
      LINX_FIELD_TYPE_UNKNOWN)]),
     (596, event_row ''perf_event_open'' 0 []),
     (597, event_row ''perf_event_open'' 5 [(''attr_uptr'', LINX_FIELD_TYPE_UNKNOWN), (''pid'',
      LINX_FIELD_TYPE_INT32), (''cpu'', LINX_FIELD_TYPE_INT32), (''group_fd'',
      LINX_FIELD_TYPE_INT32), (''flags'', LINX_FIELD_TYPE_UINT64)]),
     (598, event_row ''recvmmsg'' 0 []),
     (599, event_row ''recvmmsg'' 5 [(''fd'', LINX_FIELD_TYPE_INT32), (''mmsg'',
      LINX_FIELD_TYPE_UNKNOWN), (''vlen'', LINX_FIELD_TYPE_UINT32), (''flags'',
      LINX_FIELD_TYPE_UINT32), (''timeout'', LINX_FIELD_TYPE_UNKNOWN)]),
     (600, event_row ''fanotify_init'' 0 []),
     (601, event_row ''fanotify_init'' 2 [(''flags'', LINX_FIELD_TYPE_UINT32),
      (''event_f_flags'', LINX_FIELD_TYPE_UINT32)]),
     (602, event_row ''fanotify_mark'' 0 []),
     (603, event_row ''fanotify_mark'' 5 [(''fanotify_fd'', LINX_FIELD_TYPE_INT32), (''flags'',
      LINX_FIELD_TYPE_UINT32), (''mask'', LINX_FIELD_TYPE_UINT64), (''dfd'',
      LINX_FIELD_TYPE_INT32), (''pathname'', LINX_FIELD_TYPE_CHARBUF)])]"

definition event_rows_24 :: "(nat \<times> linx_event_table) list" where
  "event_rows_24 =
    [(604, event_row ''prlimit64'' 0 []),
     (605, event_row ''prlimit64'' 4 [(''pid'', LINX_FIELD_TYPE_INT32), (''resource'',
      LINX_FIELD_TYPE_UINT32), (''new_rlim'', LINX_FIELD_TYPE_UNKNOWN), (''old_rlim'',
      LINX_FIELD_TYPE_UNKNOWN)]),
     (606, event_row ''name_to_handle_at'' 0 []),
     (607, event_row ''name_to_handle_at'' 5 [(''dfd'', LINX_FIELD_TYPE_INT32), (''name'',
      LINX_FIELD_TYPE_CHARBUF), (''handle'', LINX_FIELD_TYPE_UNKNOWN), (''mnt_id'',
      LINX_FIELD_TYPE_UNKNOWN), (''flag'', LINX_FIELD_TYPE_INT32)]),
     (608, event_row ''open_by_handle_at'' 0 []),
     (609, event_row ''open_by_handle_at'' 3 [(''mountdirfd'', LINX_FIELD_TYPE_INT32),
      (''handle'', LINX_FIELD_TYPE_UNKNOWN), (''flags'', LINX_FIELD_TYPE_INT32)]),
     (610, event_row ''clock_adjtime'' 0 []),
     (611, event_row ''clock_adjtime'' 2 [(''which_clock'', LINX_FIELD_TYPE_INT32), (''utx'',
      LINX_FIELD_TYPE_UNKNOWN)]),
     (612, event_row ''syncfs'' 0 []),
     (613, event_row ''syncfs'' 1 [(''fd'', LINX_FIELD_TYPE_INT32)]),
     (614, event_row ''sendmmsg'' 0 []),
     (615, event_row ''sendmmsg'' 4 [(''fd'', LINX_FIELD_TYPE_INT32), (''mmsg'',
      LINX_FIELD_TYPE_UNKNOWN), (''vlen'', LINX_FIELD_TYPE_UINT32), (''flags'',
      LINX_FIELD_TYPE_UINT32)]),
     (616, event_row ''setns'' 0 []),
     (617, event_row ''setns'' 2 [(''fd'', LINX_FIELD_TYPE_INT32), (''flags'',
      LINX_FIELD_TYPE_INT32)]),
     (618, event_row ''getcpu'' 0 []),
     (619, event_row ''getcpu'' 3 [(''cpup'', LINX_FIELD_TYPE_UNKNOWN), (''nodep'',
      LINX_FIELD_TYPE_UNKNOWN), (''unused'', LINX_FIELD_TYPE_UNKNOWN)]),
     (620, event_row ''process_vm_readv'' 0 []),
     (621, event_row ''process_vm_readv'' 6 [(''pid'', LINX_FIELD_TYPE_INT32), (''lvec'',
      LINX_FIELD_TYPE_UNKNOWN), (''liovcnt'', LINX_FIELD_TYPE_UINT64), (''rvec'',
      LINX_FIELD_TYPE_UNKNOWN), (''riovcnt'', LINX_FIELD_TYPE_UINT64), (''flags'',
      LINX_FIELD_TYPE_UINT64)]),
     (622, event_row ''process_vm_writev'' 0 []),
     (623, event_row ''process_vm_writev'' 6 [(''pid'', LINX_FIELD_TYPE_INT32), (''lvec'',
      LINX_FIELD_TYPE_UNKNOWN), (''liovcnt'', LINX_FIELD_TYPE_UINT64), (''rvec'',
      LINX_FIELD_TYPE_UNKNOWN), (''riovcnt'', LINX_FIELD_TYPE_UINT64), (''flags'',
      LINX_FIELD_TYPE_UINT64)]),
     (624, event_row ''kcmp'' 0 []),
     (625, event_row ''kcmp'' 5 [(''pid1'', LINX_FIELD_TYPE_INT32), (''pid2'',
      LINX_FIELD_TYPE_INT32), (''type'', LINX_FIELD_TYPE_INT32), (''idx1'',
      LINX_FIELD_TYPE_UINT64), (''idx2'', LINX_FIELD_TYPE_UINT64)])]"

definition event_rows_25 :: "(nat \<times> linx_event_table) list" where
  "event_rows_25 =
    [(626, event_row ''finit_module'' 0 []),
     (627, event_row ''finit_module'' 3 [(''fd'', LINX_FIELD_TYPE_INT32), (''uargs'',
      LINX_FIELD_TYPE_CHARBUF), (''flags'', LINX_FIELD_TYPE_INT32)]),
     (628, event_row ''sched_setattr'' 0 []),
     (629, event_row ''sched_setattr'' 3 [(''pid'', LINX_FIELD_TYPE_INT32), (''uattr'',
      LINX_FIELD_TYPE_UNKNOWN), (''flags'', LINX_FIELD_TYPE_UINT32)]),
     (630, event_row ''sched_getattr'' 0 []),
     (631, event_row ''sched_getattr'' 4 [(''pid'', LINX_FIELD_TYPE_INT32), (''uattr'',
      LINX_FIELD_TYPE_UNKNOWN), (''usize'', LINX_FIELD_TYPE_UINT32), (''flags'',
      LINX_FIELD_TYPE_UINT32)]),
     (632, event_row ''renameat2'' 0 []),
     (633, event_row ''renameat2'' 5 [(''olddfd'', LINX_FIELD_TYPE_INT32), (''oldname'',
      LINX_FIELD_TYPE_CHARBUF), (''newdfd'', LINX_FIELD_TYPE_INT32), (''newname'',
      LINX_FIELD_TYPE_CHARBUF), (''flags'', LINX_FIELD_TYPE_UINT32)]),
     (634, event_row ''seccomp'' 0 []),
     (635, event_row ''seccomp'' 3 [(''op'', LINX_FIELD_TYPE_UINT32), (''flags'',
      LINX_FIELD_TYPE_UINT32), (''uargs'', LINX_FIELD_TYPE_UNKNOWN)]),
     (636, event_row ''getrandom'' 0 []),
     (637, event_row ''getrandom'' 3 [(''ubuf'', LINX_FIELD_TYPE_CHARBUF), (''len'',
      LINX_FIELD_TYPE_UINT64), (''flags'', LINX_FIELD_TYPE_UINT32)]),
     (638, event_row ''memfd_create'' 0 []),
     (639, event_row ''memfd_create'' 2 [(''uname'', LINX_FIELD_TYPE_CHARBUF), (''flags'',
      LINX_FIELD_TYPE_UINT32)]),
     (640, event_row ''kexec_file_load'' 0 []),
     (641, event_row ''kexec_file_load'' 5 [(''kernel_fd'', LINX_FIELD_TYPE_INT32),
      (''initrd_fd'', LINX_FIELD_TYPE_INT32), (''cmdline_len'', LINX_FIELD_TYPE_UINT64),
      (''cmdline_ptr'', LINX_FIELD_TYPE_CHARBUF), (''flags'', LINX_FIELD_TYPE_UINT64)]),
     (642, event_row ''bpf'' 0 []),
     (643, event_row ''bpf'' 3 [(''cmd'', LINX_FIELD_TYPE_INT32), (''uattr'',
      LINX_FIELD_TYPE_UNKNOWN), (''size'', LINX_FIELD_TYPE_UINT32)]),
     (644, event_row ''execveat'' 0 []),
     (645, event_row ''execveat'' 5 [(''fd'', LINX_FIELD_TYPE_INT32), (''filename'',
      LINX_FIELD_TYPE_CHARBUF), (''argv'', LINX_FIELD_TYPE_UNKNOWN), (''envp'',
      LINX_FIELD_TYPE_UNKNOWN), (''flags'', LINX_FIELD_TYPE_INT32)]),
     (646, event_row ''userfaultfd'' 0 []),
     (647, event_row ''userfaultfd'' 1 [(''flags'', LINX_FIELD_TYPE_INT32)]),
     (648, event_row ''membarrier'' 0 []),
     (649, event_row ''membarrier'' 3 [(''cmd'', LINX_FIELD_TYPE_INT32), (''flags'',
      LINX_FIELD_TYPE_UINT32), (''cpu_id'', LINX_FIELD_TYPE_INT32)])]"

definition event_rows_26 :: "(nat \<times> linx_event_table) list" where
  "event_rows_26 =
    [(650, event_row ''mlock2'' 0 []),
     (651, event_row ''mlock2'' 3 [(''start'', LINX_FIELD_TYPE_UINT64), (''len'',
      LINX_FIELD_TYPE_UINT64), (''flags'', LINX_FIELD_TYPE_INT32)]),
     (652, event_row ''copy_file_range'' 0 []),
     (653, event_row ''copy_file_range'' 6 [(''fd_in'', LINX_FIELD_TYPE_INT32), (''off_in'',
      LINX_FIELD_TYPE_UNKNOWN), (''fd_out'', LINX_FIELD_TYPE_INT32), (''off_out'',
      LINX_FIELD_TYPE_UNKNOWN), (''len'', LINX_FIELD_TYPE_UINT64), (''flags'',
      LINX_FIELD_TYPE_UINT32)]),
     (654, event_row ''preadv2'' 0 []),
     (655, event_row ''preadv2'' 6 [(''fd'', LINX_FIELD_TYPE_UINT64), (''vec'',
      LINX_FIELD_TYPE_UNKNOWN), (''vlen'', LINX_FIELD_TYPE_UINT64), (''pos_l'',
      LINX_FIELD_TYPE_UINT64), (''pos_h'', LINX_FIELD_TYPE_UINT64), (''flags'',
      LINX_FIELD_TYPE_INT32)]),
     (656, event_row ''pwritev2'' 0 []),
     (657, event_row ''pwritev2'' 6 [(''fd'', LINX_FIELD_TYPE_UINT64), (''vec'',
      LINX_FIELD_TYPE_UNKNOWN), (''vlen'', LINX_FIELD_TYPE_UINT64), (''pos_l'',
      LINX_FIELD_TYPE_UINT64), (''pos_h'', LINX_FIELD_TYPE_UINT64), (''flags'',
      LINX_FIELD_TYPE_INT32)]),
     (658, event_row ''pkey_mprotect'' 0 []),
     (659, event_row ''pkey_mprotect'' 4 [(''start'', LINX_FIELD_TYPE_UINT64), (''len'',
      LINX_FIELD_TYPE_UINT64), (''prot'', LINX_FIELD_TYPE_UINT64), (''pkey'',
      LINX_FIELD_TYPE_INT32)]),
     (660, event_row ''pkey_alloc'' 0 []),
     (661, event_row ''pkey_alloc'' 2 [(''flags'', LINX_FIELD_TYPE_UINT64), (''init_val'',
      LINX_FIELD_TYPE_UINT64)]),
     (662, event_row ''pkey_free'' 0 []),
     (663, event_row ''pkey_free'' 1 [(''pkey'', LINX_FIELD_TYPE_INT32)]),
     (664, event_row ''statx'' 0 []),
     (665, event_row ''statx'' 5 [(''dfd'', LINX_FIELD_TYPE_INT32), (''filename'',
      LINX_FIELD_TYPE_CHARBUF), (''flags'', LINX_FIELD_TYPE_UINT32), (''mask'',
      LINX_FIELD_TYPE_UINT32), (''buffer'', LINX_FIELD_TYPE_UNKNOWN)]),
     (666, event_row ''io_pgetevents'' 0 []),
     (667, event_row ''io_pgetevents'' 6 [(''ctx_id'', LINX_FIELD_TYPE_UINT64), (''min_nr'',
      LINX_FIELD_TYPE_INT64), (''nr'', LINX_FIELD_TYPE_INT64), (''events'',
      LINX_FIELD_TYPE_UNKNOWN), (''timeout'', LINX_FIELD_TYPE_UNKNOWN), (''usig'',
      LINX_FIELD_TYPE_UNKNOWN)]),
     (668, event_row ''rseq'' 0 []),
     (669, event_row ''rseq'' 4 [(''rseq'', LINX_FIELD_TYPE_UNKNOWN), (''rseq_len'',
      LINX_FIELD_TYPE_UINT32), (''flags'', LINX_FIELD_TYPE_INT32), (''sig'',
      LINX_FIELD_TYPE_UINT32)]),
     (848, event_row ''pidfd_send_signal'' 0 []),
     (849, event_row ''pidfd_send_signal'' 4 [(''pidfd'', LINX_FIELD_TYPE_INT32), (''sig'',
      LINX_FIELD_TYPE_INT32), (''info'', LINX_FIELD_TYPE_UNKNOWN), (''flags'',
      LINX_FIELD_TYPE_UINT32)])]"

definition event_rows_27 :: "(nat \<times> linx_event_table) list" where
  "event_rows_27 =
    [(850, event_row ''io_uring_setup'' 0 []),
     (851, event_row ''io_uring_setup'' 2 [(''entries'', LINX_FIELD_TYPE_UINT32), (''params'',
      LINX_FIELD_TYPE_UNKNOWN)]),
     (852, event_row ''io_uring_enter'' 0 []),
     (853, event_row ''io_uring_enter'' 6 [(''fd'', LINX_FIELD_TYPE_UINT32), (''to_submit'',
      LINX_FIELD_TYPE_UINT32), (''min_complete'', LINX_FIELD_TYPE_UINT32), (''flags'',
      LINX_FIELD_TYPE_UINT32), (''argp'', LINX_FIELD_TYPE_UNKNOWN), (''argsz'',
      LINX_FIELD_TYPE_UINT64)]),
     (854, event_row ''io_uring_register'' 0 []),
     (855, event_row ''io_uring_register'' 4 [(''fd'', LINX_FIELD_TYPE_UINT32), (''opcode'',
      LINX_FIELD_TYPE_UINT32), (''arg'', LINX_FIELD_TYPE_UNKNOWN), (''nr_args'',
      LINX_FIELD_TYPE_UINT32)]),
     (856, event_row ''open_tree'' 0 []),
     (857, event_row ''open_tree'' 3 [(''dfd'', LINX_FIELD_TYPE_INT32), (''filename'',
      LINX_FIELD_TYPE_CHARBUF), (''flags'', LINX_FIELD_TYPE_UINT32)]),
     (858, event_row ''move_mount'' 0 []),
     (859, event_row ''move_mount'' 5 [(''from_dfd'', LINX_FIELD_TYPE_INT32), (''from_pathname'',
      LINX_FIELD_TYPE_CHARBUF), (''to_dfd'', LINX_FIELD_TYPE_INT32), (''to_pathname'',
      LINX_FIELD_TYPE_CHARBUF), (''flags'', LINX_FIELD_TYPE_UINT32)]),
     (860, event_row ''fsopen'' 0 []),
     (861, event_row ''fsopen'' 2 [(''_fs_name'', LINX_FIELD_TYPE_CHARBUF), (''flags'',
      LINX_FIELD_TYPE_UINT32)]),
     (862, event_row ''fsconfig'' 0 []),
     (863, event_row ''fsconfig'' 5 [(''fd'', LINX_FIELD_TYPE_INT32), (''cmd'',
      LINX_FIELD_TYPE_UINT32), (''_key'', LINX_FIELD_TYPE_CHARBUF), (''_value'',
      LINX_FIELD_TYPE_UNKNOWN), (''aux'', LINX_FIELD_TYPE_INT32)]),
     (864, event_row ''fsmount'' 0 []),
     (865, event_row ''fsmount'' 3 [(''fs_fd'', LINX_FIELD_TYPE_INT32), (''flags'',
      LINX_FIELD_TYPE_UINT32), (''attr_flags'', LINX_FIELD_TYPE_UINT32)]),
     (866, event_row ''fspick'' 0 []),
     (867, event_row ''fspick'' 3 [(''dfd'', LINX_FIELD_TYPE_INT32), (''path'',
      LINX_FIELD_TYPE_CHARBUF), (''flags'', LINX_FIELD_TYPE_UINT32)]),
     (868, event_row ''pidfd_open'' 0 []),
     (869, event_row ''pidfd_open'' 2 [(''pid'', LINX_FIELD_TYPE_INT32), (''flags'',
      LINX_FIELD_TYPE_UINT32)]),
     (870, event_row ''clone3'' 0 []),
     (871, event_row ''clone3'' 2 [(''uargs'', LINX_FIELD_TYPE_UNKNOWN), (''size'',
      LINX_FIELD_TYPE_UINT64)]),
     (872, event_row ''close_range'' 0 []),
     (873, event_row ''close_range'' 3 [(''fd'', LINX_FIELD_TYPE_UINT32), (''max_fd'',
      LINX_FIELD_TYPE_UINT32), (''flags'', LINX_FIELD_TYPE_UINT32)])]"

definition event_rows_28 :: "(nat \<times> linx_event_table) list" where
  "event_rows_28 =
    [(874, event_row ''openat2'' 0 []),
     (875, event_row ''openat2'' 4 [(''dfd'', LINX_FIELD_TYPE_INT32), (''filename'',
      LINX_FIELD_TYPE_CHARBUF), (''how'', LINX_FIELD_TYPE_UNKNOWN), (''usize'',
      LINX_FIELD_TYPE_UINT64)]),
     (876, event_row ''pidfd_getfd'' 0 []),
     (877, event_row ''pidfd_getfd'' 3 [(''pidfd'', LINX_FIELD_TYPE_INT32), (''fd'',
      LINX_FIELD_TYPE_INT32), (''flags'', LINX_FIELD_TYPE_UINT32)]),
     (878, event_row ''faccessat2'' 0 []),
     (879, event_row ''faccessat2'' 4 [(''dfd'', LINX_FIELD_TYPE_INT32), (''filename'',
      LINX_FIELD_TYPE_CHARBUF), (''mode'', LINX_FIELD_TYPE_INT32), (''flags'',
      LINX_FIELD_TYPE_INT32)]),
     (880, event_row ''process_madvise'' 0 []),
     (881, event_row ''process_madvise'' 5 [(''pidfd'', LINX_FIELD_TYPE_INT32), (''vec'',
      LINX_FIELD_TYPE_UNKNOWN), (''vlen'', LINX_FIELD_TYPE_UINT64), (''behavior'',
      LINX_FIELD_TYPE_INT32), (''flags'', LINX_FIELD_TYPE_UINT32)]),
     (882, event_row ''epoll_pwait2'' 0 []),
     (883, event_row ''epoll_pwait2'' 6 [(''epfd'', LINX_FIELD_TYPE_INT32), (''events'',
      LINX_FIELD_TYPE_UNKNOWN), (''maxevents'', LINX_FIELD_TYPE_INT32), (''timeout'',
      LINX_FIELD_TYPE_UNKNOWN), (''sigmask'', LINX_FIELD_TYPE_UNKNOWN), (''sigsetsize'',
      LINX_FIELD_TYPE_UINT64)]),
     (884, event_row ''mount_setattr'' 0 []),
     (885, event_row ''mount_setattr'' 5 [(''dfd'', LINX_FIELD_TYPE_INT32), (''path'',
      LINX_FIELD_TYPE_CHARBUF), (''flags'', LINX_FIELD_TYPE_UINT32), (''uattr'',
      LINX_FIELD_TYPE_UNKNOWN), (''usize'', LINX_FIELD_TYPE_UINT64)]),
     (886, event_row ''quotactl_fd'' 0 []),
     (887, event_row ''quotactl_fd'' 4 [(''fd'', LINX_FIELD_TYPE_UINT32), (''cmd'',
      LINX_FIELD_TYPE_UINT32), (''id'', LINX_FIELD_TYPE_UINT32), (''addr'',
      LINX_FIELD_TYPE_UNKNOWN)]),
     (888, event_row ''landlock_create_ruleset'' 0 []),
     (889, event_row ''landlock_create_ruleset'' 3 [(''attr'', LINX_FIELD_TYPE_UNKNOWN),
      (''size'', LINX_FIELD_TYPE_UINT64), (''flags'', LINX_FIELD_TYPE_UINT32)]),
     (890, event_row ''landlock_add_rule'' 0 []),
     (891, event_row ''landlock_add_rule'' 4 [(''ruleset_fd'', LINX_FIELD_TYPE_INT32),
      (''rule_type'', LINX_FIELD_TYPE_UINT32), (''rule_attr'', LINX_FIELD_TYPE_UNKNOWN),
      (''flags'', LINX_FIELD_TYPE_UINT32)]),
     (892, event_row ''landlock_restrict_self'' 0 []),
     (893, event_row ''landlock_restrict_self'' 2 [(''ruleset_fd'', LINX_FIELD_TYPE_INT32),
      (''flags'', LINX_FIELD_TYPE_UINT32)]),
     (894, event_row ''memfd_secret'' 0 []),
     (895, event_row ''memfd_secret'' 1 [(''flags'', LINX_FIELD_TYPE_UINT32)])]"

definition event_rows_29 :: "(nat \<times> linx_event_table) list" where
  "event_rows_29 =
    [(896, event_row ''process_mrelease'' 0 []),
     (897, event_row ''process_mrelease'' 2 [(''pidfd'', LINX_FIELD_TYPE_INT32), (''flags'',
      LINX_FIELD_TYPE_UINT32)]),
     (898, event_row ''futex_waitv'' 0 []),
     (899, event_row ''futex_waitv'' 5 [(''waiters'', LINX_FIELD_TYPE_UNKNOWN), (''nr_futexes'',
      LINX_FIELD_TYPE_UINT32), (''flags'', LINX_FIELD_TYPE_UINT32), (''timeout'',
      LINX_FIELD_TYPE_UNKNOWN), (''clockid'', LINX_FIELD_TYPE_INT32)]),
     (900, event_row ''set_mempolicy_home_node'' 0 []),
     (901, event_row ''set_mempolicy_home_node'' 4 [(''start'', LINX_FIELD_TYPE_UINT64),
      (''len'', LINX_FIELD_TYPE_UINT64), (''home_node'', LINX_FIELD_TYPE_UINT64), (''flags'',
      LINX_FIELD_TYPE_UINT64)]),
     (902, event_row ''cachestat'' 0 []),
     (903, event_row ''cachestat'' 4 [(''fd'', LINX_FIELD_TYPE_UINT32), (''cstat_range'',
      LINX_FIELD_TYPE_UNKNOWN), (''cstat'', LINX_FIELD_TYPE_UNKNOWN), (''flags'',
      LINX_FIELD_TYPE_UINT32)]),
     (904, event_row ''fchmodat2'' 0 []),
     (905, event_row ''fchmodat2'' 4 [(''dfd'', LINX_FIELD_TYPE_INT32), (''filename'',
      LINX_FIELD_TYPE_CHARBUF), (''mode'', LINX_FIELD_TYPE_UINT16), (''flags'',
      LINX_FIELD_TYPE_UINT32)])]"

section \<open>The table\<close>

definition event_groups :: "(nat \<times> linx_event_table) list list" where
  "event_groups =
    [event_rows_0, event_rows_1, event_rows_2, event_rows_3, event_rows_4, event_rows_5,
     event_rows_6, event_rows_7, event_rows_8, event_rows_9, event_rows_10, event_rows_11,
     event_rows_12, event_rows_13, event_rows_14, event_rows_15, event_rows_16, event_rows_17,
     event_rows_18, event_rows_19, event_rows_20, event_rows_21, event_rows_22, event_rows_23,
     event_rows_24, event_rows_25, event_rows_26, event_rows_27, event_rows_28, event_rows_29]"

definition g_linx_event_table :: "nat \<Rightarrow> linx_event_table res" where
  "g_linx_event_table t =
    (if t < LINX_EVENT_TYPE_MAX then
       (case map_of (concat event_groups) t of None \<Rightarrow> Inr zero_row | Some r \<Rightarrow> Inr r)
     else Inl OutOfBounds)"

section \<open>Well-formedness of the rows\<close>

definition row_ok :: "linx_event_table \<Rightarrow> bool" where
  "row_ok r \<longleftrightarrow> nparams r = length (params r) \<and> nparams r \<le> SYSCALL_PARAMS_MAX_COUNT \<and>
     length (evt_name r) < 32 \<and>
     list_all (\<lambda>p. fst p \<noteq> [] \<and> length (fst p) < 32 \<and> snd p \<noteq> LINX_FIELD_TYPE_MAX) (params r) \<and>
     distinct (map fst (params r))"

fun paired_rows :: "nat \<Rightarrow> nat \<Rightarrow> (nat \<times> linx_event_table) list \<Rightarrow> bool" where
  "paired_rows lo hi [] = (lo \<le> hi)"
| "paired_rows lo hi [x] = False"
| "paired_rows lo hi ((i, a) # (j, b) # xs) =
     (lo \<le> i \<and> even i \<and> j = Suc i \<and> evt_name a \<noteq> [] \<and> evt_name a = evt_name b \<and>
      paired_rows (Suc j) hi xs)"

lemma row_ok_event_row:
  "row_ok (event_row nm n ps) \<longleftrightarrow> n = length ps \<and> n \<le> 32 \<and> length nm < 32 \<and>
     list_all (\<lambda>p. fst p \<noteq> [] \<and> length (fst p) < 32 \<and> snd p \<noteq> LINX_FIELD_TYPE_MAX) ps \<and>
     distinct (map fst ps)"
  by (simp add: row_ok_def event_row_def SYSCALL_PARAMS_MAX_COUNT_def)

lemma evt_name_event_row: "evt_name (event_row nm n ps) = nm"
  by (simp add: event_row_def)

lemmas row_ok_simps = row_ok_event_row evt_name_event_row

lemma zero_row_ok: "row_ok zero_row"
  by (simp add: zero_row_def row_ok_simps)

lemma event_rows_0_ok:
  "list_all (row_ok \<circ> snd) event_rows_0" "paired_rows 0 24 event_rows_0"
  by (simp_all add: event_rows_0_def row_ok_simps)

lemma event_rows_1_ok:
  "list_all (row_ok \<circ> snd) event_rows_1" "paired_rows 24 48 event_rows_1"
  by (simp_all add: event_rows_1_def row_ok_simps)

lemma event_rows_2_ok:
  "list_all (row_ok \<circ> snd) event_rows_2" "paired_rows 48 72 event_rows_2"
  by (simp_all add: event_rows_2_def row_ok_simps)

lemma event_rows_3_ok:
  "list_all (row_ok \<circ> snd) event_rows_3" "paired_rows 72 96 event_rows_3"
  by (simp_all add: event_rows_3_def row_ok_simps)

lemma event_rows_4_ok:
  "list_all (row_ok \<circ> snd) event_rows_4" "paired_rows 96 120 event_rows_4"
  by (simp_all add: event_rows_4_def row_ok_simps)

lemma event_rows_5_ok:
  "list_all (row_ok \<circ> snd) event_rows_5" "paired_rows 120 144 event_rows_5"
  by (simp_all add: event_rows_5_def row_ok_simps)

lemma event_rows_6_ok:
  "list_all (row_ok \<circ> snd) event_rows_6" "paired_rows 144 170 event_rows_6"
  by (simp_all add: event_rows_6_def row_ok_simps)

lemma event_rows_7_ok:
  "list_all (row_ok \<circ> snd) event_rows_7" "paired_rows 170 196 event_rows_7"
  by (simp_all add: event_rows_7_def row_ok_simps)

lemma event_rows_8_ok:
  "list_all (row_ok \<circ> snd) event_rows_8" "paired_rows 196 226 event_rows_8"
  by (simp_all add: event_rows_8_def row_ok_simps)

lemma event_rows_9_ok:
  "list_all (row_ok \<circ> snd) event_rows_9" "paired_rows 226 252 event_rows_9"
  by (simp_all add: event_rows_9_def row_ok_simps)

lemma event_rows_10_ok:
  "list_all (row_ok \<circ> snd) event_rows_10" "paired_rows 252 278 event_rows_10"
  by (simp_all add: event_rows_10_def row_ok_simps)

lemma event_rows_11_ok:
  "list_all (row_ok \<circ> snd) event_rows_11" "paired_rows 278 304 event_rows_11"
  by (simp_all add: event_rows_11_def row_ok_simps)

lemma event_rows_12_ok:
  "list_all (row_ok \<circ> snd) event_rows_12" "paired_rows 304 330 event_rows_12"
  by (simp_all add: event_rows_12_def row_ok_simps)

lemma event_rows_13_ok:
  "list_all (row_ok \<circ> snd) event_rows_13" "paired_rows 330 356 event_rows_13"
  by (simp_all add: event_rows_13_def row_ok_simps)

lemma event_rows_14_ok:
  "list_all (row_ok \<circ> snd) event_rows_14" "paired_rows 356 388 event_rows_14"
  by (simp_all add: event_rows_14_def row_ok_simps)

lemma event_rows_15_ok:
  "list_all (row_ok \<circ> snd) event_rows_15" "paired_rows 388 414 event_rows_15"
  by (simp_all add: event_rows_15_def row_ok_simps)

lemma event_rows_16_ok:
  "list_all (row_ok \<circ> snd) event_rows_16" "paired_rows 414 442 event_rows_16"
  by (simp_all add: event_rows_16_def row_ok_simps)

lemma event_rows_17_ok:
  "list_all (row_ok \<circ> snd) event_rows_17" "paired_rows 442 466 event_rows_17"
  by (simp_all add: event_rows_17_def row_ok_simps)

lemma event_rows_18_ok:
  "list_all (row_ok \<circ> snd) event_rows_18" "paired_rows 466 490 event_rows_18"
  by (simp_all add: event_rows_18_def row_ok_simps)

lemma event_rows_19_ok:
  "list_all (row_ok \<circ> snd) event_rows_19" "paired_rows 490 514 event_rows_19"
  by (simp_all add: event_rows_19_def row_ok_simps)

lemma event_rows_20_ok:
  "list_all (row_ok \<circ> snd) event_rows_20" "paired_rows 514 536 event_rows_20"
  by (simp_all add: event_rows_20_def row_ok_simps)

lemma event_rows_21_ok:
  "list_all (row_ok \<circ> snd) event_rows_21" "paired_rows 536 558 event_rows_21"
  by (simp_all add: event_rows_21_def row_ok_simps)

lemma event_rows_22_ok:
  "list_all (row_ok \<circ> snd) event_rows_22" "paired_rows 558 582 event_rows_22"
  by (simp_all add: event_rows_22_def row_ok_simps)

lemma event_rows_23_ok:
  "list_all (row_ok \<circ> snd) event_rows_23" "paired_rows 582 604 event_rows_23"
  by (simp_all add: event_rows_23_def row_ok_simps)

lemma event_rows_24_ok:
  "list_all (row_ok \<circ> snd) event_rows_24" "paired_rows 604 626 event_rows_24"
  by (simp_all add: event_rows_24_def row_ok_simps)

lemma event_rows_25_ok:
  "list_all (row_ok \<circ> snd) event_rows_25" "paired_rows 626 650 event_rows_25"
  by (simp_all add: event_rows_25_def row_ok_simps)

lemma event_rows_26_ok:
  "list_all (row_ok \<circ> snd) event_rows_26" "paired_rows 650 850 event_rows_26"
  by (simp_all add: event_rows_26_def row_ok_simps)

lemma event_rows_27_ok:
  "list_all (row_ok \<circ> snd) event_rows_27" "paired_rows 850 874 event_rows_27"
  by (simp_all add: event_rows_27_def row_ok_simps)

lemma event_rows_28_ok:
  "list_all (row_ok \<circ> snd) event_rows_28" "paired_rows 874 896 event_rows_28"
  by (simp_all add: event_rows_28_def row_ok_simps)

lemma event_rows_29_ok:
  "list_all (row_ok \<circ> snd) event_rows_29" "paired_rows 896 906 event_rows_29"
  by (simp_all add: event_rows_29_def row_ok_simps)

lemma paired_rows_append:
  "paired_rows lo mid xs \<Longrightarrow> paired_rows mid hi ys \<Longrightarrow> paired_rows lo hi (xs @ ys)"
proof (induction lo mid xs rule: paired_rows.induct)
  case (1 lo mid)
  then show ?case by (cases "(lo, hi, ys)" rule: paired_rows.cases) auto
qed auto

lemmas event_rows_oks =
  event_rows_0_ok(1) event_rows_1_ok(1) event_rows_2_ok(1) event_rows_3_ok(1)
  event_rows_4_ok(1) event_rows_5_ok(1) event_rows_6_ok(1) event_rows_7_ok(1)
  event_rows_8_ok(1) event_rows_9_ok(1) event_rows_10_ok(1) event_rows_11_ok(1)
  event_rows_12_ok(1) event_rows_13_ok(1) event_rows_14_ok(1) event_rows_15_ok(1)
  event_rows_16_ok(1) event_rows_17_ok(1) event_rows_18_ok(1) event_rows_19_ok(1)
  event_rows_20_ok(1) event_rows_21_ok(1) event_rows_22_ok(1) event_rows_23_ok(1)
  event_rows_24_ok(1) event_rows_25_ok(1) event_rows_26_ok(1) event_rows_27_ok(1)
  event_rows_28_ok(1) event_rows_29_ok(1)

lemmas event_rows_pairs =
  event_rows_0_ok(2) event_rows_1_ok(2) event_rows_2_ok(2) event_rows_3_ok(2)
  event_rows_4_ok(2) event_rows_5_ok(2) event_rows_6_ok(2) event_rows_7_ok(2)
  event_rows_8_ok(2) event_rows_9_ok(2) event_rows_10_ok(2) event_rows_11_ok(2)
  event_rows_12_ok(2) event_rows_13_ok(2) event_rows_14_ok(2) event_rows_15_ok(2)
  event_rows_16_ok(2) event_rows_17_ok(2) event_rows_18_ok(2) event_rows_19_ok(2)
  event_rows_20_ok(2) event_rows_21_ok(2) event_rows_22_ok(2) event_rows_23_ok(2)
  event_rows_24_ok(2) event_rows_25_ok(2) event_rows_26_ok(2) event_rows_27_ok(2)
  event_rows_28_ok(2) event_rows_29_ok(2)

lemma event_rows_ok: "list_all (row_ok \<circ> snd) (concat event_groups)"
  by (simp add: event_groups_def event_rows_oks)

lemma event_rows_paired: "paired_rows 0 LINX_EVENT_TYPE_MAX (concat event_groups)"
  unfolding event_groups_def concat.simps LINX_EVENT_TYPE_MAX_def
  by (rule event_rows_pairs paired_rows_append)+ simp

lemma paired_rows_bounds:
  "paired_rows lo hi xs \<Longrightarrow> (\<forall>k \<in> set (map fst xs). lo \<le> k \<and> k < hi) \<and> lo \<le> hi"
  by (induction lo hi xs rule: paired_rows.induct) fastforce+

lemma paired_rows_lookup:
  "paired_rows lo hi xs \<Longrightarrow> map_of xs t = Some r \<Longrightarrow> even t \<Longrightarrow>
   \<exists>r'. map_of xs (Suc t) = Some r' \<and> evt_name r' = evt_name r \<and> Suc t < hi"
proof (induction lo hi xs rule: paired_rows.induct)
  case (3 lo hi i a j b xs)
  show ?case
  proof (cases "t = i \<or> t = j")
    case True
    with 3 paired_rows_bounds [of "Suc j" hi xs] show ?thesis by auto
  next
    case False
    with 3 have m: "map_of xs t = Some r" by auto
    have "j < t"
      using 3 paired_rows_bounds [of "Suc j" hi xs] map_of_SomeD [OF m] by force
    with 3 m show ?thesis by auto
  qed
qed simp_all

lemma g_linx_event_table_row_ok:
  assumes "g_linx_event_table t = Inr r"
  shows "row_ok r"
proof -
  have "row_ok x" if "map_of (concat event_groups) t = Some x" for x
    using event_rows_ok map_of_SomeD [OF that] by (simp add: list_all_iff split_beta) force
  with assms zero_row_ok  show ?thesis
    by (auto simp: g_linx_event_table_def split: if_splits option.splits)
qed

text \<open>
  C39: every row of the event table announces exactly as many parameters as it lists, never
  more than the 32 slots of \<^verbatim>\<open>params_size\<close> and \<^verbatim>\<open>rawarg.data\<close>; its parameter names are non-empty,
  fit the 32-byte name field with their terminator and are pairwise distinct, so a lookup by
  name determines one index. Reading the table fails exactly outside the enumeration.
\<close>

theorem event_table_well_formed:
  "case g_linx_event_table t of
     Inl f \<Rightarrow> f = OutOfBounds \<and> t \<ge> LINX_EVENT_TYPE_MAX
   | Inr r \<Rightarrow> t < LINX_EVENT_TYPE_MAX \<and> nparams r = length (params r) \<and>
       nparams r \<le> SYSCALL_PARAMS_MAX_COUNT \<and> distinct (map fst (params r)) \<and>
       list_all (\<lambda>p. fst p \<noteq> [] \<and> length (fst p) < 32) (params r)"
proof (cases "g_linx_event_table t")
  case (Inl f)
  then show ?thesis by (simp add: g_linx_event_table_def split: if_splits option.splits)
next
  case (Inr r)
  then have "row_ok r" by (rule g_linx_event_table_row_ok)
  moreover have "t < LINX_EVENT_TYPE_MAX"
    using Inr by (simp add: g_linx_event_table_def split: if_splits)
  ultimately show ?thesis using Inr by (auto simp: row_ok_def list_all_iff)
qed

lemma paired_rows_distinct: "paired_rows lo hi xs \<Longrightarrow> distinct (map fst xs)"
proof (induction lo hi xs rule: paired_rows.induct)
  case (3 lo hi i a j b xs)
  then show ?case using paired_rows_bounds [of "Suc j" hi xs] by fastforce
qed simp_all

lemma g_linx_event_table_row:
  assumes "(t, r) \<in> set g" "g \<in> set event_groups"
  shows "g_linx_event_table t = Inr r"
proof -
  have m: "(t, r) \<in> set (concat event_groups)" using assms by auto
  then have "t < LINX_EVENT_TYPE_MAX"
    using paired_rows_bounds [OF event_rows_paired] by fastforce
  with m show ?thesis
    using paired_rows_distinct [OF event_rows_paired] by (simp add: g_linx_event_table_def)
qed

lemma g_linx_event_table_execve:
  "g_linx_event_table 118 =
     Inr (event_row ''execve'' 1 [(''filename'', LINX_FIELD_TYPE_CHARBUF)])"
  by (rule g_linx_event_table_row [of _ _ event_rows_4]) (simp_all add: event_rows_4_def event_groups_def)

text \<open>
  Enter and exit events come in pairs. When an even number has a row with a name, the next
  number is inside the table and names the same system call: the direction that
  \<^verbatim>\<open>linx_event_rich\<close> derives from the parity of the event number is the direction of the event.
\<close>

theorem event_table_enter_exit_paired:
  assumes "g_linx_event_table t = Inr r" "even t" "evt_name r \<noteq> []"
  shows "\<exists>r'. g_linx_event_table (Suc t) = Inr r' \<and> evt_name r' = evt_name r"
proof -
  have "map_of (concat event_groups) t = Some r"
    using assms by (auto simp: g_linx_event_table_def zero_row_def event_row_def
        split: if_splits option.splits)
  from paired_rows_lookup [OF event_rows_paired this] assms show ?thesis
    by (auto simp: g_linx_event_table_def)
qed

theorem event_table_enter_exit_paired_witness:
  "\<exists>r'. g_linx_event_table 119 = Inr r' \<and> evt_name r' = ''execve''"
  using event_table_enter_exit_paired
    [of 118 "event_row ''execve'' 1 [(''filename'', LINX_FIELD_TYPE_CHARBUF)]"]
  by (simp add: event_row_def g_linx_event_table_execve [unfolded event_row_def])

end
