(* ===== verification/Hash_Map.thy ===== *)
theory Hash_Map
  imports Event_Table
begin

text \<open>
  The field map of \<^verbatim>\<open>linx_hash_map.c\<close>: named tables (\<^verbatim>\<open>evt\<close>, \<^verbatim>\<open>proc\<close>, \<^verbatim>\<open>user\<close>, \<^verbatim>\<open>group\<close>), each with a base
  address and a set of named fields (offset, size, type). Components register their structures
  once, the rule compiler resolves paths such as \<^verbatim>\<open>evt.arg.fd\<close> at load time, and the matchers turn a
  resolved path into an address for every event. The global \<^verbatim>\<open>s_linx_hash_map\<close> is the component
  \<open>s_linx_hash_map\<close> of the state; \<open>live_blocks\<close> counts the heap blocks in use, and the ghost
  components \<open>lost\<close> and \<open>handed\<close> say which of them no longer hang off the map.
\<close>

section \<open>Data\<close>

type_synonym ptr = "64 word"

record field_info =
  fi_key :: string
  fi_offset :: "64 word"
  fi_size :: "64 word"
  fi_type :: linx_field_type

record field_table =
  table_name :: string
  table_fields :: "field_info list"
  base_addr :: ptr

record linx_hash_map =
  tables :: "field_table list"
  hm_size :: "64 word"
  hm_capacity :: "64 word"

record field_result =
  fr_offset :: "64 word"
  fr_type :: linx_field_type
  fr_size :: "64 word"
  fr_found :: bool
  fr_table_name :: "string option"
  fr_field_name :: "string option"
  fr_arg :: "string option"
  fr_event_type :: bool

record field_mapping =
  fm_field_name :: "string option"
  fm_offset :: "64 word"
  fm_type :: linx_field_type
  fm_size :: "64 word"

record field_update_table =
  fu_table_name :: "string option"
  fu_base_addr :: ptr

record hash_state =
  s_linx_hash_map :: "linx_hash_map option"
  live_blocks :: int
  lost :: "field_table list"
  handed :: int

definition hash_map_start :: hash_state where
  "hash_map_start = \<lparr>s_linx_hash_map = None, live_blocks = 0, lost = [], handed = 0\<rparr>"

abbreviation find_table :: "string \<Rightarrow> linx_hash_map \<Rightarrow> field_table option" where
  "find_table tn m \<equiv> hash_find table_name tn (tables m)"

abbreviation find_field :: "string \<Rightarrow> field_table \<Rightarrow> field_info option" where
  "find_field fname t \<equiv> hash_find fi_key fname (table_fields t)"

definition with_map :: "linx_hash_map \<Rightarrow> int \<Rightarrow> hash_state \<Rightarrow> hash_state" where
  "with_map m d s = s\<lparr>s_linx_hash_map := Some m, live_blocks := live_blocks s + d\<rparr>"

section \<open>Operations\<close>

definition destroy_field_info :: "field_info list \<Rightarrow> hash_state \<Rightarrow> hash_state" where
  "destroy_field_info fs s = s\<lparr>live_blocks := live_blocks s - int (length fs)\<rparr>"

definition destroy_field_table :: "field_table \<Rightarrow> hash_state \<Rightarrow> hash_state" where
  "destroy_field_table t s =
    (let s1 = destroy_field_info (table_fields t) s in s1\<lparr>live_blocks := live_blocks s1 - 2\<rparr>)"

text \<open>\<open>linx_hash_map_init ok g1 g2\<close>: \<^verbatim>\<open>malloc\<close> succeeds iff \<open>ok\<close>; \<open>g1\<close> and \<open>g2\<close> are the bytes it
  returned where \<^verbatim>\<open>size\<close> and \<^verbatim>\<open>capacity\<close> lie, which the function does not initialise.\<close>

definition linx_hash_map_init ::
  "bool \<Rightarrow> 64 word \<Rightarrow> 64 word \<Rightarrow> hash_state \<Rightarrow> int \<times> hash_state" where
  "linx_hash_map_init ok g1 g2 s =
    (case s_linx_hash_map s of
       Some m \<Rightarrow> (- 1, s)
     | None \<Rightarrow> if \<not> ok then (- 1, s)
               else (0, with_map \<lparr>tables = [], hm_size = g1, hm_capacity = g2\<rparr> 1 s))"

definition linx_hash_map_deinit :: "hash_state \<Rightarrow> hash_state" where
  "linx_hash_map_deinit s =
    (case s_linx_hash_map s of
       None \<Rightarrow> s
     | Some m \<Rightarrow>
         (let s1 = fold destroy_field_table (tables m) s
          in s1\<lparr>s_linx_hash_map := None, live_blocks := live_blocks s1 - 1\<rparr>))"

definition new_table :: "string \<Rightarrow> ptr \<Rightarrow> field_table" where
  "new_table tn b = \<lparr>table_name = tn, table_fields = [], base_addr = b\<rparr>"

text \<open>\<open>okt\<close>: the \<^verbatim>\<open>malloc\<close> of the table; \<open>okn\<close>: the \<^verbatim>\<open>strdup\<close> of its name, whose result is hashed
  by \<^verbatim>\<open>HASH_ADD_STR\<close> without a check.\<close>

definition linx_hash_map_create_table ::
  "bool \<Rightarrow> bool \<Rightarrow> string option \<Rightarrow> ptr \<Rightarrow> hash_state \<Rightarrow> (int \<times> hash_state) res" where
  "linx_hash_map_create_table okt okn tn b s =
    (case (s_linx_hash_map s, tn) of
       (Some m, Some nm) \<Rightarrow>
         (case find_table nm m of
            Some t \<Rightarrow> Inr (- 1, s)
          | None \<Rightarrow>
              if \<not> okt then Inr (- 1, s)
              else if \<not> okn then Inl NullDeref
              else Inr (0, with_map (m\<lparr>tables := hash_add (new_table nm b) (tables m)\<rparr>) 2 s))
     | _ \<Rightarrow> Inr (- 1, s))"

definition linx_hash_map_remove_table :: "string option \<Rightarrow> hash_state \<Rightarrow> int \<times> hash_state" where
  "linx_hash_map_remove_table tn s =
    (case (s_linx_hash_map s, tn) of
       (Some m, Some nm) \<Rightarrow>
         (case find_table nm m of
            None \<Rightarrow> (- 1, s)
          | Some t \<Rightarrow>
              (0, (with_map (m\<lparr>tables := hash_del table_name nm (tables m),
                               hm_size := hm_size m - 1\<rparr>) 0 s)\<lparr>lost := t # lost s\<rparr>))
     | _ \<Rightarrow> (- 1, s))"

definition insert_field :: "field_info \<Rightarrow> field_table \<Rightarrow> field_table" where
  "insert_field fi t = t\<lparr>table_fields := hash_add fi (table_fields t)\<rparr>"

definition linx_hash_map_add_field ::
  "bool \<Rightarrow> string option \<Rightarrow> string option \<Rightarrow> 64 word \<Rightarrow> 64 word \<Rightarrow> linx_field_type \<Rightarrow>
   hash_state \<Rightarrow> int \<times> hash_state" where
  "linx_hash_map_add_field ok tn fname off sz ty s =
    (case (s_linx_hash_map s, tn, fname) of
       (Some m, Some nm, Some fnm) \<Rightarrow>
         (case find_table nm m of
            None \<Rightarrow> (- 1, s)
          | Some t \<Rightarrow>
              (case find_field fnm t of
                 Some f \<Rightarrow> (- 1, s)
               | None \<Rightarrow>
                   if \<not> ok then (- 1, s)
                   else (0, with_map (m\<lparr>tables := hash_modify table_name nm
                               (insert_field \<lparr>fi_key = fnm, fi_offset = off, fi_size = sz,
                                              fi_type = ty\<rparr>) (tables m)\<rparr>) 1 s)))
     | _ \<Rightarrow> (- 1, s))"

fun add_fields_loop ::
  "(nat \<Rightarrow> bool) \<Rightarrow> string option \<Rightarrow> nat \<Rightarrow> field_mapping list \<Rightarrow> hash_state \<Rightarrow> int \<times> hash_state"
where
  "add_fields_loop ok tn i [] s = (0, s)"
| "add_fields_loop ok tn i (mp # mps) s =
     (let (ret, s1) = linx_hash_map_add_field (ok i) tn (fm_field_name mp) (fm_offset mp)
                        (fm_size mp) (fm_type mp) s
      in if ret \<noteq> 0 then (ret, s1) else add_fields_loop ok tn (Suc i) mps s1)"

text \<open>\<open>mappings\<close> is the array argument (\<open>None\<close> for NULL), all of whose elements are passed.\<close>

definition linx_hash_map_add_field_batch ::
  "bool \<Rightarrow> bool \<Rightarrow> (nat \<Rightarrow> bool) \<Rightarrow> string option \<Rightarrow> field_mapping list option \<Rightarrow> hash_state \<Rightarrow>
   (int \<times> hash_state) res" where
  "linx_hash_map_add_field_batch okt okn okf tn mappings s =
    (case (s_linx_hash_map s, tn, mappings) of
       (Some m, Some nm, Some mps) \<Rightarrow>
         res_bind (linx_hash_map_create_table okt okn tn 0 s) (\<lambda>(ret, s1).
           if ret \<noteq> 0 then Inr (ret, s1) else Inr (add_fields_loop okf tn 0 mps s1))
     | _ \<Rightarrow> Inr (- 1, s))"

definition empty_result :: field_result where
  "empty_result = \<lparr>fr_offset = 0, fr_type = LINX_FIELD_TYPE_UNKNOWN, fr_size = 0, fr_found = False,
     fr_table_name = None, fr_field_name = None, fr_arg = None, fr_event_type = False\<rparr>"

definition linx_hash_map_get_field ::
  "string option \<Rightarrow> string option \<Rightarrow> hash_state \<Rightarrow> field_result" where
  "linx_hash_map_get_field tn fname s =
    (case (s_linx_hash_map s, tn, fname) of
       (Some m, Some nm, Some fnm) \<Rightarrow>
         (case find_table nm m of
            None \<Rightarrow> empty_result
          | Some t \<Rightarrow>
              (case find_field fnm t of
                 None \<Rightarrow> empty_result
               | Some f \<Rightarrow> empty_result\<lparr>fr_offset := fi_offset f, fr_type := fi_type f,
                     fr_size := fi_size f, fr_found := True, fr_table_name := Some (table_name t),
                     fr_field_name := Some (fi_key f)\<rparr>))
     | _ \<Rightarrow> empty_result)"

text \<open>\<^verbatim>\<open>strtok\<close> writes into \<open>path\<close>; only the returned tokens are read afterwards. \<open>ok\<close> is the outcome
  of the \<^verbatim>\<open>strdup\<close> of the third token, a block handed to the caller.\<close>

definition linx_hash_map_get_field_by_path ::
  "bool \<Rightarrow> string option \<Rightarrow> hash_state \<Rightarrow> field_result \<times> hash_state" where
  "linx_hash_map_get_field_by_path ok path s =
    (case path of
       None \<Rightarrow> (empty_result, s)
     | Some p \<Rightarrow>
         (case strtok ''.'' p of
            None \<Rightarrow> (empty_result, s)
          | Some (tn, r1) \<Rightarrow>
              (case strtok ''.'' r1 of
                 None \<Rightarrow> (empty_result, s)
               | Some (fname, r2) \<Rightarrow>
                   (let res = linx_hash_map_get_field (Some tn) (Some fname) s
                    in (case strtok ''.'' r2 of
                          None \<Rightarrow> (res\<lparr>fr_arg := None, fr_event_type := True\<rparr>, s)
                        | Some (a, _) \<Rightarrow>
                            if ok then (res\<lparr>fr_arg := Some a, fr_event_type := True\<rparr>,
                                        s\<lparr>live_blocks := live_blocks s + 1,
                                          handed := handed s + 1\<rparr>)
                            else (res\<lparr>fr_arg := None, fr_event_type := True\<rparr>, s))))))"

definition linx_hash_map_get_table_base :: "string option \<Rightarrow> hash_state \<Rightarrow> ptr" where
  "linx_hash_map_get_table_base tn s =
    (case (s_linx_hash_map s, tn) of
       (Some m, Some nm) \<Rightarrow> (case find_table nm m of None \<Rightarrow> 0 | Some t \<Rightarrow> base_addr t)
     | _ \<Rightarrow> 0)"

fun param_index :: "string \<Rightarrow> linx_param_info list \<Rightarrow> nat" where
  "param_index a [] = 0"
| "param_index a (p # ps) = (if fst p = a then 0 else Suc (param_index a ps))"

definition arg_index :: "string \<Rightarrow> linx_event_table \<Rightarrow> int" where
  "arg_index a row =
    (let (n, rest) = strtol a
     in if rest \<noteq> [] then int (param_index a (take (nparams row) (params row))) else n)"

text \<open>The second component of the result is what is written to \<^verbatim>\<open>*type\<close>, if anything is. \<open>num\<close> is
  \<^verbatim>\<open>*field->event_type\<close>, the number of the current event.\<close>

definition linx_hash_map_get_value_ptr ::
  "field_result \<Rightarrow> nat \<Rightarrow> hash_state \<Rightarrow> (ptr \<times> linx_field_type option) res" where
  "linx_hash_map_get_value_ptr fld num s =
    (if \<not> fr_found fld then Inr (0, None)
     else
       (let b = linx_hash_map_get_table_base (fr_table_name fld) s
        in if b = 0 then Inr (0, None)
           else
             (case fr_arg fld of
                None \<Rightarrow> Inr (b + fr_offset fld, Some (fr_type fld))
              | Some a \<Rightarrow>
                  if \<not> fr_event_type fld then Inl NullDeref
                  else res_bind (g_linx_event_table num) (\<lambda>row.
                    (let index = arg_index a row
                     in if index \<ge> int (nparams row) then Inr (0, None)
                        else if index < 0 then Inl OutOfBounds
                        else Inr (b + fr_offset fld + word_of_int index * 8,
                                  Some (snd (params row ! nat index))))))))"

definition linx_hash_map_update_table_base ::
  "string option \<Rightarrow> ptr \<Rightarrow> hash_state \<Rightarrow> int \<times> hash_state" where
  "linx_hash_map_update_table_base tn b s =
    (case (s_linx_hash_map s, tn) of
       (Some m, Some nm) \<Rightarrow>
         (case find_table nm m of
            None \<Rightarrow> (- 1, s)
          | Some t \<Rightarrow> (0, with_map (m\<lparr>tables := hash_modify table_name nm
                                       (base_addr_update (\<lambda>_. b)) (tables m)\<rparr>) 0 s))
     | _ \<Rightarrow> (- 1, s))"

fun update_bases_loop :: "field_update_table list \<Rightarrow> hash_state \<Rightarrow> int \<times> hash_state" where
  "update_bases_loop [] s = (0, s)"
| "update_bases_loop (u # us) s =
     (let (ret, s1) = linx_hash_map_update_table_base (fu_table_name u) (fu_base_addr u) s
      in if ret \<noteq> 0 then (ret, s1) else update_bases_loop us s1)"

definition linx_hash_map_update_tables_base ::
  "field_update_table list option \<Rightarrow> hash_state \<Rightarrow> int \<times> hash_state" where
  "linx_hash_map_update_tables_base us s =
    (case (s_linx_hash_map s, us) of
       (Some m, Some xs) \<Rightarrow> update_bases_loop xs s
     | _ \<Rightarrow> (- 1, s))"

fun copy_names :: "(nat \<Rightarrow> bool) \<Rightarrow> nat \<Rightarrow> string list \<Rightarrow> string list option" where
  "copy_names ok i [] = Some []"
| "copy_names ok i (x # xs) =
     (if ok i then map_option (Cons x) (copy_names ok (Suc i) xs) else None)"

text \<open>\<open>args\<close>: whether both result pointers are non-NULL. The middle component is what is stored
  through them, if anything is: the name list with its length, or a NULL list and 0.
  On a failed \<^verbatim>\<open>strdup\<close> everything allocated so far is freed again.\<close>

definition linx_hash_map_list_tables ::
  "bool \<Rightarrow> (nat \<Rightarrow> bool) \<Rightarrow> bool \<Rightarrow> hash_state \<Rightarrow>
   int \<times> string list option option \<times> hash_state" where
  "linx_hash_map_list_tables ok okn args s =
    (case s_linx_hash_map s of
       None \<Rightarrow> (- 1, None, s)
     | Some m \<Rightarrow>
         if \<not> args then (- 1, None, s)
         else if length (tables m) = 0 then (0, Some None, s)
         else if \<not> ok then (- 1, None, s)
         else (case copy_names okn 0 (map table_name (tables m)) of
                 None \<Rightarrow> (- 1, None, s)
               | Some ns \<Rightarrow>
                   (0, Some (Some ns),
                    s\<lparr>live_blocks := live_blocks s + 1 + int (length ns),
                      handed := handed s + 1 + int (length ns)\<rparr>)))"

definition linx_hash_map_free_table_list ::
  "string list option \<Rightarrow> hash_state \<Rightarrow> hash_state" where
  "linx_hash_map_free_table_list ns s =
    (case ns of
       None \<Rightarrow> s
     | Some xs \<Rightarrow> s\<lparr>live_blocks := live_blocks s - 1 - int (length xs),
                    handed := handed s - 1 - int (length xs)\<rparr>)"

section \<open>Invariant\<close>

definition table_blocks :: "field_table \<Rightarrow> int" where
  "table_blocks t = 2 + int (length (table_fields t))"

definition map_blocks :: "linx_hash_map option \<Rightarrow> int" where
  "map_blocks mo = (case mo of None \<Rightarrow> 0 | Some m \<Rightarrow> 1 + sum_list (map table_blocks (tables m)))"

definition map_ok :: "linx_hash_map \<Rightarrow> bool" where
  "map_ok m \<longleftrightarrow> distinct (map table_name (tables m)) \<and>
     list_all (\<lambda>t. distinct (map fi_key (table_fields t))) (tables m)"

definition hash_inv :: "hash_state \<Rightarrow> bool" where
  "hash_inv s \<longleftrightarrow> pred_option map_ok (s_linx_hash_map s) \<and>
     live_blocks s = map_blocks (s_linx_hash_map s) + sum_list (map table_blocks (lost s)) + handed s"

lemma map_blocks_simps [simp]:
  "map_blocks None = 0"
  "map_blocks (Some m) = 1 + sum_list (map table_blocks (tables m))"
  by (simp_all add: map_blocks_def)

lemma hash_inv_Some:
  "s_linx_hash_map s = Some m \<Longrightarrow> hash_inv s \<longleftrightarrow> map_ok m \<and>
     live_blocks s = 1 + sum_list (map table_blocks (tables m)) +
       sum_list (map table_blocks (lost s)) + handed s"
  by (simp add: hash_inv_def)

lemma with_map_simps [simp]:
  "s_linx_hash_map (with_map m d s) = Some m" "live_blocks (with_map m d s) = live_blocks s + d"
  "lost (with_map m d s) = lost s" "handed (with_map m d s) = handed s"
  by (simp_all add: with_map_def)

lemma insert_field_simps [simp]:
  "table_name (insert_field f t) = table_name t" "base_addr (insert_field f t) = base_addr t"
  "table_fields (insert_field f t) = hash_add f (table_fields t)"
  by (simp_all add: insert_field_def)

lemma new_table_simps [simp]:
  "table_name (new_table tn b) = tn" "table_fields (new_table tn b) = []"
  "base_addr (new_table tn b) = b"
  by (simp_all add: new_table_def)

lemma blocks_add: "sum_list (map table_blocks (hash_add (new_table nm b) ts)) =
  sum_list (map table_blocks ts) + 2"
  by (simp add: hash_add_def table_blocks_def)

lemma blocks_del:
  "hash_find table_name nm ts = Some t \<Longrightarrow> distinct (map table_name ts) \<Longrightarrow>
   sum_list (map table_blocks (hash_del table_name nm ts)) =
   sum_list (map table_blocks ts) - table_blocks t"
proof (induction ts)
  case Nil
  then show ?case by simp
next
  case (Cons a ts)
  have "filter (\<lambda>x. table_name x \<noteq> nm) ts = ts" if "table_name a = nm"
    using Cons.prems(2) that by (auto simp: filter_id_conv image_iff)
  with Cons show ?case by (auto simp: hash_del_def split: if_splits)
qed

lemma blocks_modify:
  "hash_find table_name nm ts = Some t \<Longrightarrow> distinct (map table_name ts) \<Longrightarrow>
   sum_list (map table_blocks (hash_modify table_name nm f ts)) =
   sum_list (map table_blocks ts) - table_blocks t + table_blocks (f t)"
proof (induction ts)
  case Nil
  then show ?case by simp
next
  case (Cons a ts)
  have c: "hash_modify table_name nm f (a # ts) =
      (if table_name a = nm then f a else a) # hash_modify table_name nm f ts"
    by (simp add: hash_modify_def)
  have "hash_modify table_name nm f ts = ts" if "table_name a = nm"
    using Cons.prems(2) that by (auto intro!: map_idI simp: hash_modify_def image_iff)
  with Cons show ?case by (auto simp: c split: if_splits)
qed

lemma map_ok_modify:
  assumes "map_ok m" "\<And>t. table_name (f t) = table_name t"
    and "\<And>t. t \<in> set (tables m) \<Longrightarrow> table_name t = nm \<Longrightarrow> distinct (map fi_key (table_fields (f t)))"
  shows "map_ok (m\<lparr>tables := hash_modify table_name nm f (tables m)\<rparr>)"
  using assms by (auto simp: map_ok_def list_all_iff hash_modify_def o_def if_distrib cong: if_cong)

lemma fold_destroy_field_table:
  "fold destroy_field_table ts s =
     s\<lparr>live_blocks := live_blocks s - sum_list (map table_blocks ts)\<rparr>"
  by (induction ts arbitrary: s)
    (simp_all add: destroy_field_table_def destroy_field_info_def table_blocks_def Let_def)

lemma hash_inv_start [linx_inv]: "hash_inv hash_map_start"
  by (simp add: hash_inv_def hash_map_start_def)

lemma hash_inv_init [linx_inv]: "hash_inv s \<Longrightarrow> hash_inv (snd (linx_hash_map_init ok g1 g2 s))"
  by (auto simp: linx_hash_map_init_def hash_inv_def map_ok_def split: option.splits)

lemma hash_inv_deinit [linx_inv]: "hash_inv s \<Longrightarrow> hash_inv (linx_hash_map_deinit s)"
  by (auto simp: linx_hash_map_deinit_def hash_inv_def fold_destroy_field_table Let_def
      split: option.splits)

lemma hash_inv_create_table [linx_inv]:
  assumes "hash_inv s" "linx_hash_map_create_table okt okn tn b s = Inr (ret, s')"
  shows "hash_inv s'"
proof (cases "s_linx_hash_map s")
  case None
  with assms show ?thesis by (auto simp: linx_hash_map_create_table_def)
next
  case (Some m)
  with assms show ?thesis
    by (auto simp: linx_hash_map_create_table_def hash_inv_Some map_ok_def blocks_add hash_find_None
        list_all_iff table_blocks_def split: option.splits if_splits)
qed

lemma hash_inv_remove_table [linx_inv]:
  assumes "hash_inv s"
  shows "hash_inv (snd (linx_hash_map_remove_table tn s))"
proof (cases "s_linx_hash_map s")
  case None
  with assms show ?thesis by (simp add: linx_hash_map_remove_table_def)
next
  case (Some m)
  then have ok: "map_ok m" using assms by (simp add: hash_inv_Some)
  then have "map_ok (m\<lparr>tables := hash_del table_name nm (tables m), hm_size := z\<rparr>)" for nm z
    by (auto simp: map_ok_def list_all_iff)
  with ok Some assms show ?thesis
    by (auto simp: linx_hash_map_remove_table_def hash_inv_def blocks_del map_ok_def
        split: option.splits)
qed

lemma hash_inv_add_field [linx_inv]:
  assumes "hash_inv s"
  shows "hash_inv (snd (linx_hash_map_add_field ok tn fname off sz ty s))"
proof (cases "s_linx_hash_map s")
  case None
  with assms show ?thesis by (simp add: linx_hash_map_add_field_def)
next
  case (Some m)
  then have ok: "map_ok m" "distinct (map table_name (tables m))"
    using assms by (simp_all add: hash_inv_Some map_ok_def)
  have ins: "map_ok (m\<lparr>tables := hash_modify table_name nm (insert_field f) (tables m)\<rparr>)"
    if "find_table nm m = Some t" "find_field (fi_key f) t = None" for nm t f
  proof (rule map_ok_modify [OF ok(1)])
    fix t' assume t': "t' \<in> set (tables m)" "table_name t' = nm"
    then have "t' = t" using hash_find_member [OF ok(2) t'(1)] that(1) by simp
    with that ok(1) t'(1) show "distinct (map fi_key (table_fields (insert_field f t')))"
      by (auto simp: map_ok_def list_all_iff hash_find_None)
  qed simp
  have blk: "sum_list (map table_blocks (hash_modify table_name nm (insert_field f) (tables m))) =
      sum_list (map table_blocks (tables m)) + 1"
    if "find_table nm m = Some t" for nm t f
    using blocks_modify [OF that ok(2)] by (simp add: table_blocks_def hash_add_def)
  show ?thesis
    using assms Some ins blk
    by (auto simp: linx_hash_map_add_field_def hash_inv_Some split: option.splits)
qed

lemma hash_inv_add_fields_loop:
  "hash_inv s \<Longrightarrow> hash_inv (snd (add_fields_loop ok tn i mps s))"
proof (induction ok tn i mps s rule: add_fields_loop.induct)
  case (2 ok tn i mp mps s)
  obtain ret s1 where step: "linx_hash_map_add_field (ok i) tn (fm_field_name mp) (fm_offset mp)
      (fm_size mp) (fm_type mp) s = (ret, s1)" by fastforce
  then have "hash_inv s1" using hash_inv_add_field [OF "2.prems"] by (metis snd_conv)
  with 2 step show ?case by simp
qed simp

lemma hash_inv_add_field_batch [linx_inv]:
  assumes "hash_inv s" "linx_hash_map_add_field_batch okt okn okf tn mps s = Inr (ret, s')"
  shows "hash_inv s'"
  using assms hash_inv_create_table [OF assms(1)]
  by (auto simp: linx_hash_map_add_field_batch_def split: option.splits if_splits)
    (metis hash_inv_add_fields_loop snd_conv)

lemma hash_inv_update_table_base [linx_inv]:
  assumes "hash_inv s"
  shows "hash_inv (snd (linx_hash_map_update_table_base tn b s))"
proof (cases "s_linx_hash_map s")
  case None
  with assms show ?thesis by (simp add: linx_hash_map_update_table_base_def)
next
  case (Some m)
  then have ok: "map_ok m" "distinct (map table_name (tables m))"
    using assms by (simp_all add: hash_inv_Some map_ok_def)
  have "map_ok (m\<lparr>tables := hash_modify table_name nm (base_addr_update (\<lambda>_. b)) (tables m)\<rparr>)" for nm
    by (rule map_ok_modify [OF ok(1)]) (use ok(1) in \<open>auto simp: map_ok_def list_all_iff\<close>)
  moreover have "sum_list (map table_blocks (hash_modify table_name nm (base_addr_update (\<lambda>_. b))
      (tables m))) = sum_list (map table_blocks (tables m))" if "find_table nm m = Some t" for nm t
    using blocks_modify [OF that ok(2)] by (simp add: table_blocks_def)
  ultimately show ?thesis
    using assms Some
    by (auto simp: linx_hash_map_update_table_base_def hash_inv_Some split: option.splits)
qed

lemma hash_inv_update_bases_loop:
  "hash_inv s \<Longrightarrow> hash_inv (snd (update_bases_loop us s))"
proof (induction us s rule: update_bases_loop.induct)
  case (2 u us s)
  obtain ret s1 where step:
    "linx_hash_map_update_table_base (fu_table_name u) (fu_base_addr u) s = (ret, s1)" by fastforce
  then have "hash_inv s1" using hash_inv_update_table_base [OF "2.prems"] by (metis snd_conv)
  with 2 step show ?case by simp
qed simp

lemma hash_inv_update_tables_base [linx_inv]:
  "hash_inv s \<Longrightarrow> hash_inv (snd (linx_hash_map_update_tables_base us s))"
  by (auto simp: linx_hash_map_update_tables_base_def hash_inv_update_bases_loop split: option.splits)

lemma hash_inv_get_field_by_path [linx_inv]:
  "hash_inv s \<Longrightarrow> hash_inv (snd (linx_hash_map_get_field_by_path ok p s))"
  by (auto simp: linx_hash_map_get_field_by_path_def hash_inv_def Let_def split: option.splits)

lemma hash_inv_list_tables [linx_inv]:
  "hash_inv s \<Longrightarrow> hash_inv (snd (snd (linx_hash_map_list_tables ok okn args s)))"
  by (auto simp: linx_hash_map_list_tables_def hash_inv_def split: option.splits)

lemma hash_inv_free_table_list [linx_inv]:
  "hash_inv s \<Longrightarrow> hash_inv (linx_hash_map_free_table_list ns s)"
  by (auto simp: linx_hash_map_free_table_list_def hash_inv_def split: option.splits)

section \<open>Call sequences\<close>

text \<open>Any sequence of calls that clients can make, with every allocation outcome.\<close>

datatype hm_call =
    HmInit bool "64 word" "64 word"
  | HmDeinit
  | HmCreate bool bool "string option" ptr
  | HmRemove "string option"
  | HmAdd bool "string option" "string option" "64 word" "64 word" linx_field_type
  | HmBatch bool bool "nat \<Rightarrow> bool" "string option" "field_mapping list option"
  | HmPath bool "string option"
  | HmUpdate "string option" ptr
  | HmUpdates "field_update_table list option"
  | HmList bool "nat \<Rightarrow> bool" bool
  | HmFree "string list option"

fun hm_step :: "hm_call \<Rightarrow> hash_state \<Rightarrow> hash_state res" where
  "hm_step (HmInit ok g1 g2) s = Inr (snd (linx_hash_map_init ok g1 g2 s))"
| "hm_step HmDeinit s = Inr (linx_hash_map_deinit s)"
| "hm_step (HmCreate okt okn tn b) s = map_sum id snd (linx_hash_map_create_table okt okn tn b s)"
| "hm_step (HmRemove tn) s = Inr (snd (linx_hash_map_remove_table tn s))"
| "hm_step (HmAdd ok tn fname off sz ty) s = Inr (snd (linx_hash_map_add_field ok tn fname off sz ty s))"
| "hm_step (HmBatch okt okn okf tn mps) s =
     map_sum id snd (linx_hash_map_add_field_batch okt okn okf tn mps s)"
| "hm_step (HmPath ok p) s = Inr (snd (linx_hash_map_get_field_by_path ok p s))"
| "hm_step (HmUpdate tn b) s = Inr (snd (linx_hash_map_update_table_base tn b s))"
| "hm_step (HmUpdates us) s = Inr (snd (linx_hash_map_update_tables_base us s))"
| "hm_step (HmList ok okn args) s = Inr (snd (snd (linx_hash_map_list_tables ok okn args s)))"
| "hm_step (HmFree ns) s = Inr (linx_hash_map_free_table_list ns s)"

fun hm_run :: "hm_call list \<Rightarrow> hash_state \<Rightarrow> hash_state res" where
  "hm_run [] s = Inr s"
| "hm_run (c # cs) s = res_bind (hm_step c s) (hm_run cs)"

lemma hm_step_inv: "hash_inv s \<Longrightarrow> hm_step c s = Inr s' \<Longrightarrow> hash_inv s'"
  by (cases c) (auto intro: linx_inv)

lemma hm_run_inv: "hash_inv s \<Longrightarrow> hm_run cs s = Inr s' \<Longrightarrow> hash_inv s'"
  by (induction cs arbitrary: s) (auto dest: hm_step_inv)

lemma linx_hash_map_deinit_blocks:
  assumes "hash_inv s"
  shows "s_linx_hash_map (linx_hash_map_deinit s) = None"
    and "live_blocks (linx_hash_map_deinit s) = sum_list (map table_blocks (lost s)) + handed s"
  using assms
  by (auto simp: linx_hash_map_deinit_def hash_inv_def fold_destroy_field_table Let_def
      split: option.splits)

text \<open>
  C38: after any sequence of calls, whatever allocations fail, table names are unique, field
  names are unique within a table, and \<^verbatim>\<open>linx_hash_map_deinit\<close> frees every block except those of
  tables that \<^verbatim>\<open>linx_hash_map_remove_table\<close> unlinked before (it never frees them) and those that
  were handed to callers.
\<close>

theorem hash_map_calls_invariant:
  assumes "hm_run cs hash_map_start = Inr s"
  shows "(case s_linx_hash_map s of None \<Rightarrow> True
          | Some m \<Rightarrow> distinct (map table_name (tables m)) \<and>
              list_all (\<lambda>t. distinct (map fi_key (table_fields t))) (tables m)) \<and>
     s_linx_hash_map (linx_hash_map_deinit s) = None \<and>
     live_blocks (linx_hash_map_deinit s) =
       sum_list (map (\<lambda>t. 2 + int (length (table_fields t))) (lost s)) + handed s"
proof -
  have inv: "hash_inv s" using hm_run_inv [OF hash_inv_start assms] .
  then have "pred_option map_ok (s_linx_hash_map s)" by (simp add: hash_inv_def)
  moreover have "table_blocks = (\<lambda>t. 2 + int (length (table_fields t)))"
    by (simp add: fun_eq_iff table_blocks_def)
  ultimately show ?thesis
    using linx_hash_map_deinit_blocks [OF inv]
    by (auto simp: map_ok_def split: option.splits)
qed

definition hm_demo_calls :: "hm_call list" where
  "hm_demo_calls =
    [HmInit True 7 9, HmCreate True True (Some ''evt'') 4096,
     HmAdd True (Some ''evt'') (Some ''num'') 0 8 LINX_FIELD_TYPE_UINT64,
     HmAdd True (Some ''evt'') (Some ''num'') 8 8 LINX_FIELD_TYPE_UINT64,
     HmCreate True True (Some ''tmp'') 0, HmRemove (Some ''tmp'')]"

lemmas hm_eval_simps = hm_demo_calls_def hash_map_start_def linx_hash_map_init_def with_map_def
  linx_hash_map_create_table_def new_table_def hash_add_def linx_hash_map_add_field_def
  hash_modify_def insert_field_def linx_hash_map_remove_table_def hash_del_def

definition hm_demo_state :: hash_state where
  "hm_demo_state =
    \<lparr>s_linx_hash_map = Some \<lparr>tables = [\<lparr>table_name = ''evt'', table_fields = [\<lparr>fi_key = ''num'',
         fi_offset = 0, fi_size = 8, fi_type = LINX_FIELD_TYPE_UINT64\<rparr>], base_addr = 4096\<rparr>],
       hm_size = 6, hm_capacity = 9\<rparr>,
     live_blocks = 6, lost = [new_table ''tmp'' 0], handed = 0\<rparr>"

lemma hm_demo_run: "hm_run hm_demo_calls hash_map_start = Inr hm_demo_state"
  by (simp add: hm_eval_simps hm_demo_state_def)

theorem hash_map_calls_invariant_witness:
  "live_blocks (linx_hash_map_deinit hm_demo_state) = 2"
  using hash_map_calls_invariant [OF hm_demo_run] by (simp add: hm_demo_state_def new_table_def)

section \<open>Lookups after insertions\<close>

fun mapping_info :: "field_mapping \<Rightarrow> field_info" where
  "mapping_info mp = \<lparr>fi_key = the (fm_field_name mp), fi_offset = fm_offset mp,
     fi_size = fm_size mp, fi_type = fm_type mp\<rparr>"

definition lookup_field :: "string \<Rightarrow> string \<Rightarrow> hash_state \<Rightarrow> field_info option" where
  "lookup_field tn fname s =
    Option.bind (s_linx_hash_map s) (\<lambda>m. Option.bind (find_table tn m) (find_field fname))"

definition has_table :: "string \<Rightarrow> hash_state \<Rightarrow> bool" where
  "has_table tn s \<longleftrightarrow> (\<exists>m. s_linx_hash_map s = Some m \<and> find_table tn m \<noteq> None)"

definition add_info :: "string \<Rightarrow> bool \<Rightarrow> field_info \<Rightarrow> hash_state \<Rightarrow> int \<times> hash_state" where
  "add_info tn ok f s =
    linx_hash_map_add_field ok (Some tn) (Some (fi_key f)) (fi_offset f) (fi_size f) (fi_type f) s"

lemma add_info_fresh:
  assumes "has_table tn s" "lookup_field tn (fi_key f) s = None"
  shows "\<exists>s'. add_info tn True f s = (0, s') \<and> has_table tn s' \<and>
    (\<forall>tn' k. lookup_field tn' k s' =
       (if tn' = tn \<and> k = fi_key f then Some f else lookup_field tn' k s)) \<and>
    (\<forall>tn'. linx_hash_map_get_table_base (Some tn') s' = linx_hash_map_get_table_base (Some tn') s)"
proof -
  obtain m t where m: "s_linx_hash_map s = Some m" "find_table tn m = Some t"
    using assms(1) by (auto simp: has_table_def)
  let ?m' = "m\<lparr>tables := hash_modify table_name tn (insert_field f) (tables m)\<rparr>"
  have ft: "find_table tn' ?m' = (if tn' = tn then map_option (insert_field f) (find_table tn' m)
      else find_table tn' m)" for tn'
    by simp
  have none: "find_field (fi_key f) t = None" using assms(2) m by (simp add: lookup_field_def)
  have f: "\<lparr>fi_key = fi_key f, fi_offset = fi_offset f, fi_size = fi_size f, fi_type = fi_type f\<rparr> = f"
    by simp
  have step: "add_info tn True f s = (0, with_map ?m' 1 s)"
    using m none by (simp add: add_info_def linx_hash_map_add_field_def f)
  have "lookup_field tn' k (with_map ?m' 1 s) =
      (if tn' = tn \<and> k = fi_key f then Some f else lookup_field tn' k s)" for tn' k
    using m none ft [of tn'] by (auto simp: lookup_field_def split: option.splits)
  moreover have "linx_hash_map_get_table_base (Some tn') (with_map ?m' 1 s) =
      linx_hash_map_get_table_base (Some tn') s" for tn'
    using m ft [of tn'] by (auto simp: linx_hash_map_get_table_base_def split: option.splits)
  moreover have "has_table tn (with_map ?m' 1 s)"
    using m ft [of tn] by (simp add: has_table_def)
  ultimately show ?thesis using step by blast
qed

text \<open>The fields of one table are a keyed table.\<close>

interpretation fields: keyed_table "has_table tn" fi_key "lookup_field tn" "\<lambda>f. f" "add_info tn"
  for tn :: string
proof
  fix s :: hash_state and e :: field_info and s' k
  assume a: "has_table tn s" "lookup_field tn (fi_key e) s = None"
  show "fst (add_info tn True e s) = 0" using add_info_fresh [OF a] by auto
  assume "add_info tn True e s = (0, s')"
  then show "has_table tn s' \<and>
      lookup_field tn k s' = (if k = fi_key e then Some e else lookup_field tn k s)"
    using add_info_fresh [OF a] by auto
next
  fix s :: hash_state and e :: field_info and r
  assume "has_table tn s" "lookup_field tn (fi_key e) s \<noteq> None"
  then show "add_info tn r e s = (- 1, s)"
    by (auto simp: add_info_def linx_hash_map_add_field_def has_table_def lookup_field_def
        split: option.splits)
next
  fix s :: hash_state and e :: field_info
  assume "has_table tn s"
  then show "add_info tn False e s = (- 1, s)"
    by (auto simp: add_info_def linx_hash_map_add_field_def has_table_def
        split: option.splits)
qed

definition field_answer :: "string \<Rightarrow> field_info \<Rightarrow> field_result" where
  "field_answer tn f = empty_result\<lparr>fr_offset := fi_offset f, fr_type := fi_type f,
     fr_size := fi_size f, fr_found := True, fr_table_name := Some tn, fr_field_name := Some (fi_key f)\<rparr>"

lemma get_field_lookup:
  "linx_hash_map_get_field (Some tn) (Some fname) s =
     (case lookup_field tn fname s of None \<Rightarrow> empty_result | Some f \<Rightarrow> field_answer tn f)"
  by (auto simp: linx_hash_map_get_field_def lookup_field_def field_answer_def
      dest!: hash_find_SomeD split: option.splits)

lemma create_table_fresh:
  assumes "s_linx_hash_map s = Some m" "find_table tn m = None"
  shows "\<exists>s'. linx_hash_map_create_table True True (Some tn) b s = Inr (0, s') \<and> has_table tn s' \<and>
    (\<forall>tn' k. lookup_field tn' k s' = lookup_field tn' k s) \<and> lookup_field tn k s' = None \<and>
    (\<forall>tn'. linx_hash_map_get_table_base (Some tn') s' =
       (if tn' = tn then b else linx_hash_map_get_table_base (Some tn') s))"
proof -
  let ?s' = "with_map (m\<lparr>tables := hash_add (new_table tn b) (tables m)\<rparr>) 2 s"
  have "linx_hash_map_create_table True True (Some tn) b s = Inr (0, ?s')"
    using assms by (simp add: linx_hash_map_create_table_def)
  moreover have "has_table tn ?s'" by (simp add: has_table_def split: option.splits)
  moreover have "lookup_field tn' k ?s' = lookup_field tn' k s" for tn' k
    using assms(1) by (auto simp: lookup_field_def split: option.splits)
  moreover have "lookup_field tn k s = None" using assms by (simp add: lookup_field_def)
  moreover have "linx_hash_map_get_table_base (Some tn') ?s' =
      (if tn' = tn then b else linx_hash_map_get_table_base (Some tn') s)" for tn'
    using assms by (auto simp: linx_hash_map_get_table_base_def split: option.splits)
  ultimately show ?thesis by auto
qed

lemma add_fields_loop_batch:
  "list_all (\<lambda>mp. fm_field_name mp \<noteq> None) mps \<Longrightarrow>
   add_fields_loop (\<lambda>_. True) (Some tn) i mps s = fields.insert_batch tn (map mapping_info mps) s"
  by (induction mps arbitrary: s i) (auto simp: add_info_def split: prod.split)

lemma add_info_keeps:
  "has_table tn' (snd (add_info tn ok f s)) = has_table tn' s"
  "linx_hash_map_get_table_base (Some tn') (snd (add_info tn ok f s)) = linx_hash_map_get_table_base (Some tn') s"
  by (auto simp: add_info_def linx_hash_map_add_field_def has_table_def linx_hash_map_get_table_base_def insert_field_def
      split: option.splits)

lemma insert_batch_keeps:
  "has_table tn' (snd (fields.insert_batch tn fs s)) = has_table tn' s \<and>
   linx_hash_map_get_table_base (Some tn') (snd (fields.insert_batch tn fs s)) = linx_hash_map_get_table_base (Some tn') s"
proof (induction fs arbitrary: s)
  case (Cons f fs)
  obtain ret s1 where "add_info tn True f s = (ret, s1)" by fastforce
  with Cons add_info_keeps [of tn' tn True f s] show ?case by simp
qed simp

lemma insert_batch_other:
  "has_table tn s \<Longrightarrow> distinct (map fi_key fs) \<Longrightarrow>
   (\<And>f. f \<in> set fs \<Longrightarrow> lookup_field tn (fi_key f) s = None) \<Longrightarrow> tn' \<noteq> tn \<Longrightarrow>
   lookup_field tn' k (snd (fields.insert_batch tn fs s)) = lookup_field tn' k s"
proof (induction fs arbitrary: s)
  case (Cons f fs)
  then obtain s1 where s1: "add_info tn True f s = (0, s1)" "has_table tn s1"
    "\<And>tn' k. lookup_field tn' k s1 =
       (if tn' = tn \<and> k = fi_key f then Some f else lookup_field tn' k s)"
    using add_info_fresh [of tn s f] by auto
  have "\<And>g. g \<in> set fs \<Longrightarrow> lookup_field tn (fi_key g) s1 = None"
    using Cons.prems s1(3) by (auto simp: image_iff)
  with Cons s1 show ?case by simp
qed simp

text \<open>What a registration does: the table is new, has base 0 and its fields; everything else stays.\<close>

definition registers :: "string \<Rightarrow> field_mapping list \<Rightarrow> hash_state \<Rightarrow> hash_state \<Rightarrow> bool" where
  "registers tn mps s s' \<longleftrightarrow>
     (\<forall>mp \<in> set mps. lookup_field tn (the (fm_field_name mp)) s' = Some (mapping_info mp)) \<and>
     (\<forall>tn' k. tn' \<noteq> tn \<longrightarrow> lookup_field tn' k s' = lookup_field tn' k s) \<and>
     (\<forall>tn'. has_table tn' s' \<longleftrightarrow> tn' = tn \<or> has_table tn' s) \<and>
     (\<forall>tn'. linx_hash_map_get_table_base (Some tn') s' =
        (if tn' = tn then 0 else linx_hash_map_get_table_base (Some tn') s))"

lemma batch_registers:
  assumes "s_linx_hash_map s = Some m" "\<not> has_table tn s"
    and "list_all (\<lambda>mp. fm_field_name mp \<noteq> None) mps" "distinct (map (the \<circ> fm_field_name) mps)"
  shows "\<exists>s'. linx_hash_map_add_field_batch True True (\<lambda>_. True) (Some tn) (Some mps) s = Inr (0, s') \<and> registers tn mps s s'"
proof -
  have fresh: "find_table tn m = None" using assms(1,2) by (auto simp: has_table_def)
  obtain s1 where s1: "linx_hash_map_create_table True True (Some tn) 0 s = Inr (0, s1)"
    "has_table tn s1" "\<And>tn' k. lookup_field tn' k s1 = lookup_field tn' k s"
    "\<And>tn'. linx_hash_map_get_table_base (Some tn') s1 = (if tn' = tn then 0 else linx_hash_map_get_table_base (Some tn') s)"
    using create_table_fresh [OF assms(1) fresh] by blast
  have h1: "has_table tn' s1 \<longleftrightarrow> tn' = tn \<or> has_table tn' s" for tn'
    using s1(1) assms(1) fresh by (auto simp: linx_hash_map_create_table_def has_table_def new_table_def split: option.splits if_splits)
  have none: "lookup_field tn k s1 = None" for k
    using s1(3) assms(1) fresh by (simp add: lookup_field_def)
  let ?fs = "map mapping_info mps"
  have d: "distinct (map fi_key ?fs)" using assms(4) by (simp add: o_def)
  obtain s2 where s2: "fields.insert_batch tn ?fs s1 = (0, s2)"
    "\<forall>f \<in> set ?fs. lookup_field tn (fi_key f) s2 = Some f"
    using fields.insert_batch_lookup [OF s1(2) d] none by auto
  have "linx_hash_map_add_field_batch True True (\<lambda>_. True) (Some tn) (Some mps) s = Inr (0, s2)"
    using assms(1) s1(1) s2(1) add_fields_loop_batch [OF assms(3)]
    by (simp add: linx_hash_map_add_field_batch_def)
  moreover have "lookup_field tn' k s2 = lookup_field tn' k s" if "tn' \<noteq> tn" for tn' k
    using insert_batch_other [OF s1(2) d _ that] none s1(3) s2(1) by (metis snd_conv)
  moreover have "has_table tn' s2 = has_table tn' s1"
    "linx_hash_map_get_table_base (Some tn') s2 = linx_hash_map_get_table_base (Some tn') s1" for tn'
    using insert_batch_keeps [of tn' tn ?fs s1] s2(1) by simp_all
  moreover have "lookup_field tn (the (fm_field_name mp)) s2 = Some (mapping_info mp)" if "mp \<in> set mps" for mp
    using s2(2) that by force
  ultimately show ?thesis unfolding registers_def using h1 s1(4) by auto
qed

lemma get_field_by_path_lookup:
  assumes "lookup_field tn fname s = Some f" "tn \<noteq> []" "CHR ''.'' \<notin> set tn" "fname \<noteq> []" "CHR ''.'' \<notin> set fname"
  shows "linx_hash_map_get_field_by_path ok (Some (tn @ ''.'' @ fname)) s =
      ((field_answer tn f)\<lparr>fr_arg := None, fr_event_type := True\<rparr>, s)"
proof -
  have "strtok ''.'' (tn @ ''.'' @ fname) = Some (tn, fname)"
    "strtok ''.'' fname = Some (fname, [])" "strtok ''.'' [] = None"
    using strtok_clean(1) [of tn "''.''" "CHR ''.''" fname] strtok_clean(2) [of fname "''.''" "CHR ''.''"] assms(2-)
    by (auto simp: strtok_def)
  with assms(1) show ?thesis by (simp add: linx_hash_map_get_field_by_path_def get_field_lookup)
qed

text \<open>
  C37: registering a fresh table with a batch of distinct field names makes every field
  resolvable by its path \<^verbatim>\<open>table.field\<close>: the answer carries the registered offset, size and type, no
  argument, and the table's own name. What other tables answer does not change.
\<close>

theorem hash_map_batch_then_path:
  assumes "s_linx_hash_map s = Some m" "find_table tn m = None"
    and "list_all (\<lambda>mp. fm_field_name mp \<noteq> None) mps" "distinct (map (the \<circ> fm_field_name) mps)"
    and "mp \<in> set mps" "fm_field_name mp = Some fname"
    and "tn \<noteq> []" "CHR ''.'' \<notin> set tn" "fname \<noteq> []" "CHR ''.'' \<notin> set fname"
  shows "\<exists>s'. linx_hash_map_add_field_batch True True (\<lambda>_. True) (Some tn) (Some mps) s = Inr (0, s') \<and>
    linx_hash_map_get_field_by_path ok (Some (tn @ ''.'' @ fname)) s' =
      (\<lparr>fr_offset = fm_offset mp, fr_type = fm_type mp, fr_size = fm_size mp, fr_found = True,
        fr_table_name = Some tn, fr_field_name = Some fname, fr_arg = None, fr_event_type = True\<rparr>, s') \<and>
    (\<forall>tn' k. tn' = tn \<or> linx_hash_map_get_field (Some tn') (Some k) s' =
                        linx_hash_map_get_field (Some tn') (Some k) s)"
proof -
  have "\<not> has_table tn s" using assms(1,2) by (auto simp: has_table_def)
  from batch_registers [OF assms(1) this assms(3,4)] obtain s2 where
    s2: "linx_hash_map_add_field_batch True True (\<lambda>_. True) (Some tn) (Some mps) s = Inr (0, s2)" "registers tn mps s s2"
    by blast
  have "lookup_field tn fname s2 = Some (mapping_info mp)"
    using s2(2) assms(5,6) unfolding registers_def by (metis option.sel)
  from get_field_by_path_lookup [OF this assms(7-)] have
    "linx_hash_map_get_field_by_path ok (Some (tn @ ''.'' @ fname)) s2 =
      ((field_answer tn (mapping_info mp))\<lparr>fr_arg := None, fr_event_type := True\<rparr>, s2)" .
  moreover have "tn' \<noteq> tn \<Longrightarrow> lookup_field tn' k s2 = lookup_field tn' k s" for tn' k
    using s2(2) by (simp add: registers_def)
  ultimately show ?thesis
    using s2(1) assms(6) by (auto simp: get_field_lookup field_answer_def empty_result_def)
qed

definition demo_mappings :: "field_mapping list" where
  "demo_mappings =
    [\<lparr>fm_field_name = Some ''num'', fm_offset = 0, fm_type = LINX_FIELD_TYPE_UINT64, fm_size = 8\<rparr>,
     \<lparr>fm_field_name = Some ''time'', fm_offset = 8, fm_type = LINX_FIELD_TYPE_CHARBUF, fm_size = 64\<rparr>]"

theorem hash_map_batch_then_path_witness:
  "\<exists>s'. linx_hash_map_add_field_batch True True (\<lambda>_. True) (Some ''ev2'') (Some demo_mappings)
      hm_demo_state = Inr (0, s') \<and>
    fr_offset (fst (linx_hash_map_get_field_by_path True (Some ''ev2.time'') s')) = 8"
  using hash_map_batch_then_path [of hm_demo_state "the (s_linx_hash_map hm_demo_state)" "''ev2''"
      demo_mappings "demo_mappings ! 1" "''time''" True]
  by (auto simp: hm_demo_state_def demo_mappings_def)

section \<open>From a resolved field to an address\<close>

lemma param_index_nth:
  "distinct (map fst ps) \<Longrightarrow> j < length ps \<Longrightarrow> param_index (fst (ps ! j)) ps = j"
proof (induction ps arbitrary: j)
  case (Cons p ps)
  then show ?case by (cases j) (auto simp: image_iff)
qed simp

lemma param_index_unknown: "a \<notin> fst ` set ps \<Longrightarrow> param_index a ps = length ps"
  by (induction ps) auto

lemma get_value_ptr_arg:
  assumes "fr_found fld" "linx_hash_map_get_table_base (fr_table_name fld) s \<noteq> 0"
    "fr_arg fld = Some a" "fr_event_type fld" "g_linx_event_table num = Inr row"
  shows "linx_hash_map_get_value_ptr fld num s =
     (if arg_index a row \<ge> int (nparams row) then Inr (0, None)
      else if arg_index a row < 0 then Inl OutOfBounds
      else Inr (linx_hash_map_get_table_base (fr_table_name fld) s + fr_offset fld +
                  word_of_int (arg_index a row) * 8, Some (snd (params row ! nat (arg_index a row)))))"
  using assms by (simp add: linx_hash_map_get_value_ptr_def Let_def)

text \<open>
  For the current event, the path argument that names the \<open>j\<close>-th parameter of the event's row
  (and is not a number) yields exactly slot \<open>j\<close> of the pointer array at the field's offset and the
  declared type of that parameter; a name the row does not have yields NULL.
\<close>

theorem value_ptr_by_parameter_name:
  assumes "fr_found fld" "linx_hash_map_get_table_base (fr_table_name fld) s = b" "b \<noteq> 0"
    and "fr_arg fld = Some a" "fr_event_type fld"
    and "g_linx_event_table num = Inr row" "snd (strtol a) \<noteq> []"
  shows "linx_hash_map_get_value_ptr fld num s =
    (case find (\<lambda>j. fst (params row ! j) = a) [0..<nparams row] of
       None \<Rightarrow> Inr (0, None)
     | Some j \<Rightarrow> Inr (b + fr_offset fld + of_nat j * 8, Some (snd (params row ! j))))"
proof -
  have ok: "nparams row = length (params row)" "distinct (map fst (params row))"
    using g_linx_event_table_row_ok [OF assms(6)] by (simp_all add: row_ok_def)
  have idx: "arg_index a row = int (param_index a (params row))"
    using assms(7) ok by (auto simp: arg_index_def split: prod.split)
  note base = get_value_ptr_arg [OF assms(1) _ assms(4,5,6)]
  show ?thesis
  proof (cases "find (\<lambda>j. fst (params row ! j) = a) [0..<nparams row]")
    case None
    then have "a \<notin> fst ` set (params row)"
      using ok by (fastforce simp: find_None_iff in_set_conv_nth)
    then show ?thesis
      using None base assms(2,3) idx ok param_index_unknown [of a "params row"] by simp
  next
    case (Some j)
    then have j: "j < length (params row)" "fst (params row ! j) = a"
      using ok by (auto simp: find_Some_iff)
    then have "param_index a (params row) = j" using param_index_nth [OF ok(2) j(1)] by simp
    then show ?thesis using Some base assms(2,3) idx ok(1) j by simp
  qed
qed

definition demo_field :: field_result where
  "demo_field = \<lparr>fr_offset = 16, fr_type = LINX_FIELD_TYPE_STRUCT, fr_size = 256, fr_found = True,
     fr_table_name = Some ''evt'', fr_field_name = Some ''arg'', fr_arg = Some ''filename'',
     fr_event_type = True\<rparr>"

theorem value_ptr_by_parameter_name_witness:
  "linx_hash_map_get_value_ptr demo_field 118 hm_demo_state = Inr (4112, Some LINX_FIELD_TYPE_CHARBUF)"
proof -
  have "snd (strtol ''filename'') \<noteq> []" by code_simp
  then show ?thesis
    using value_ptr_by_parameter_name [of demo_field hm_demo_state 4096 "''filename''" 118,
        OF _ _ _ _ _ g_linx_event_table_execve]
    by (simp add: demo_field_def hm_demo_state_def linx_hash_map_get_table_base_def event_row_def)
qed

text \<open>
  What \<^verbatim>\<open>linx_hash_map_get_value_ptr\<close> hands out for an argument path lies inside the array of 32
  pointers at the field's offset, and it never reads the event table out of bounds unless the
  argument is a negative number: \<^verbatim>\<open>evt.arg.-1\<close> passes the \<^verbatim>\<open>index >= nparams\<close> test and reads before
  the parameter array.
\<close>

theorem value_ptr_argument_bounds:
  assumes "fr_found fld" "linx_hash_map_get_table_base (fr_table_name fld) s = b" "b \<noteq> 0"
    and "fr_arg fld = Some a" "fr_event_type fld" "num < LINX_EVENT_TYPE_MAX"
  shows "case linx_hash_map_get_value_ptr fld num s of
      Inl f \<Rightarrow> f = OutOfBounds \<and> snd (strtol a) = [] \<and> fst (strtol a) < 0
    | Inr (p, ty) \<Rightarrow> (p = 0 \<and> ty = None) \<or>
        (\<exists>j < 32. p = b + fr_offset fld + of_nat j * 8 \<and> ty \<noteq> None)"
proof -
  obtain row where row: "g_linx_event_table num = Inr row"
    using assms(6) by (cases "map_of (concat event_groups) num") (simp_all add: g_linx_event_table_def)
  have ok: "nparams row \<le> 32"
    using g_linx_event_table_row_ok [OF row] by (simp add: row_ok_def SYSCALL_PARAMS_MAX_COUNT_def)
  have neg: "arg_index a row < 0 \<Longrightarrow> snd (strtol a) = [] \<and> fst (strtol a) < 0"
    by (auto simp: arg_index_def split: prod.splits if_splits)
  have "word_of_int i = (of_nat (nat i) :: 64 word)" if "i \<ge> 0" for i
    using that by (metis int_nat_eq of_int_of_nat_eq)
  then have "\<exists>j < 32. word_of_int (arg_index a row) * (8 :: 64 word) = of_nat j * 8"
    if "0 \<le> arg_index a row" "arg_index a row < int (nparams row)"
    using that ok by (intro exI [of _ "nat (arg_index a row)"]) auto
  then show ?thesis
    using get_value_ptr_arg [OF assms(1) _ assms(4,5) row] assms(2,3) neg by auto
qed

theorem value_ptr_argument_bounds_witness:
  "case linx_hash_map_get_value_ptr demo_field 118 hm_demo_state of
      Inl f \<Rightarrow> f = OutOfBounds \<and> snd (strtol ''filename'') = [] \<and> fst (strtol ''filename'') < 0
    | Inr (p, ty) \<Rightarrow> (p = 0 \<and> ty = None) \<or> (\<exists>j < 32. p = 4096 + 16 + of_nat j * 8 \<and> ty \<noteq> None)"
proof -
  have f: "fr_found demo_field" "fr_arg demo_field = Some ''filename''" "fr_event_type demo_field"
    "fr_offset demo_field = 16"
    "linx_hash_map_get_table_base (fr_table_name demo_field) hm_demo_state = 4096"
    by (simp_all add: demo_field_def hm_demo_state_def linx_hash_map_get_table_base_def)
  show ?thesis
    using value_ptr_argument_bounds [of demo_field hm_demo_state 4096 "''filename''" 118, unfolded f(2,4,5)] f(1,3)
    by (simp add: LINX_EVENT_TYPE_MAX_def)
qed

lemma value_ptr_negative_index:
  "linx_hash_map_get_value_ptr (demo_field\<lparr>fr_arg := Some ''-1''\<rparr>) 118 hm_demo_state = Inl OutOfBounds"
proof -
  have "strtol ''-1'' = (- 1, [])" by code_simp
  then show ?thesis
    using get_value_ptr_arg [of "demo_field\<lparr>fr_arg := Some ''-1''\<rparr>" hm_demo_state "''-1''" 118,
        OF _ _ _ _ g_linx_event_table_execve]
    by (simp add: demo_field_def hm_demo_state_def linx_hash_map_get_table_base_def event_row_def
        arg_index_def)
qed

section \<open>Binding table bases\<close>

lemma update_table_base_known:
  assumes "has_table tn s"
  shows "\<exists>s'. linx_hash_map_update_table_base (Some tn) b s = (0, s') \<and>
    (\<forall>tn'. has_table tn' s' = has_table tn' s) \<and> (\<forall>tn' k. lookup_field tn' k s' = lookup_field tn' k s) \<and>
    (\<forall>tn'. linx_hash_map_get_table_base (Some tn') s' =
       (if tn' = tn then b else linx_hash_map_get_table_base (Some tn') s))"
proof -
  obtain m t where m: "s_linx_hash_map s = Some m" "find_table tn m = Some t"
    using assms by (auto simp: has_table_def)
  let ?m' = "m\<lparr>tables := hash_modify table_name tn (base_addr_update (\<lambda>_. b)) (tables m)\<rparr>"
  have ft: "find_table tn' ?m' = (if tn' = tn then map_option (base_addr_update (\<lambda>_. b)) (find_table tn' m)
      else find_table tn' m)" for tn'
    by simp
  have "linx_hash_map_update_table_base (Some tn) b s = (0, with_map ?m' 0 s)"
    using m by (simp add: linx_hash_map_update_table_base_def)
  moreover have "has_table tn' (with_map ?m' 0 s) = has_table tn' s" for tn'
    using m ft [of tn'] by (auto simp: has_table_def)
  moreover have "lookup_field tn' k (with_map ?m' 0 s) = lookup_field tn' k s" for tn' k
    using m ft [of tn'] by (auto simp: lookup_field_def split: option.splits)
  moreover have "linx_hash_map_get_table_base (Some tn') (with_map ?m' 0 s) =
      (if tn' = tn then b else linx_hash_map_get_table_base (Some tn') s)" for tn'
    using m ft [of tn'] by (auto simp: linx_hash_map_get_table_base_def split: option.splits)
  ultimately show ?thesis by blast
qed

lemma update_table_base_unknown:
  "\<not> has_table tn s \<Longrightarrow> linx_hash_map_update_table_base (Some tn) b s = (- 1, s)"
  by (auto simp: linx_hash_map_update_table_base_def has_table_def split: option.splits)

lemma update_bases_loop_spec:
  assumes "list_all (\<lambda>u. fu_table_name u \<noteq> None \<and> has_table (the (fu_table_name u)) s) us"
  shows "\<exists>s'. update_bases_loop us s = (0, s') \<and> (\<forall>tn. has_table tn s' = has_table tn s) \<and>
    (\<forall>tn k. lookup_field tn k s' = lookup_field tn k s) \<and>
    (\<forall>tn. linx_hash_map_get_table_base (Some tn) s' =
       fold (\<lambda>u b. if fu_table_name u = Some tn then fu_base_addr u else b) us
         (linx_hash_map_get_table_base (Some tn) s))"
  using assms
proof (induction us arbitrary: s)
  case (Cons u us)
  then obtain tn where u: "fu_table_name u = Some tn" "has_table tn s" by auto
  then obtain s1 where s1: "linx_hash_map_update_table_base (Some tn) (fu_base_addr u) s = (0, s1)"
    "\<forall>tn'. has_table tn' s1 = has_table tn' s" "\<forall>tn' k. lookup_field tn' k s1 = lookup_field tn' k s"
    "\<forall>tn'. linx_hash_map_get_table_base (Some tn') s1 =
       (if tn' = tn then fu_base_addr u else linx_hash_map_get_table_base (Some tn') s)"
    using update_table_base_known by blast
  then have "list_all (\<lambda>u. fu_table_name u \<noteq> None \<and> has_table (the (fu_table_name u)) s1) us"
    using Cons.prems by simp
  from Cons.IH [OF this] obtain s2 where "update_bases_loop us s1 = (0, s2)"
    "\<forall>tn. has_table tn s2 = has_table tn s1" "\<forall>tn k. lookup_field tn k s2 = lookup_field tn k s1"
    "\<forall>tn. linx_hash_map_get_table_base (Some tn) s2 =
       fold (\<lambda>u b. if fu_table_name u = Some tn then fu_base_addr u else b) us
         (linx_hash_map_get_table_base (Some tn) s1)" by blast
  with s1 u show ?case by (auto simp: eq_commute [of tn])
qed simp

lemma update_bases_loop_append:
  "update_bases_loop (us @ vs) s =
     (let (ret, s1) = update_bases_loop us s in if ret \<noteq> 0 then (ret, s1) else update_bases_loop vs s1)"
  by (induction us s rule: update_bases_loop.induct) (auto split: prod.splits)

end
