(* ===== verification/Process_Cache.thy ===== *)
theory Process_Cache
  imports Proc_Files Hash_Map
begin

text \<open>
  The process cache (\<^verbatim>\<open>linx_process_cache.c\<close>). Records are heap blocks; the hash table is the list of their
  addresses in the order of \<^verbatim>\<open>uthash\<close>. Every operation takes the lock of the cache once, so that an interleaving of
  the monitor, the cleaner, the update tasks and the clients is a sequence of the operations below; a
  pointer that \<^verbatim>\<open>linx_process_cache_get\<close> hands out outlives the lock. The contents of \<^verbatim>\<open>/proc\<close>, the time, the pages and
  the outcomes of allocations are arguments.
\<close>

section \<open>State\<close>

definition LINX_PROCESS_CACHE_EXPIRE_TIME :: int where "LINX_PROCESS_CACHE_EXPIRE_TIME = 20"

text \<open>\<open>pc_tasks\<close> are the pids of the update tasks that the pool has not started.\<close>

record linx_process_cache =
  pc_table :: "nat list"
  pc_running :: bool
  pc_tasks :: "int list"

text \<open>\<open>handed\<close> are the blocks that \<^verbatim>\<open>linx_process_cache_get\<close> created for its caller without entering them in the table.\<close>

record cache_state =
  g_process_cache :: "linx_process_cache option"
  info_heap :: "nat \<Rightarrow> linx_process_info option"
  info_next :: nat
  info_handed :: "nat list"

definition cache_start :: cache_state where
  "cache_start = \<lparr>g_process_cache = None, info_heap = (\<lambda>_. None), info_next = 0, info_handed = []\<rparr>"

definition alloc_info :: "linx_process_info \<Rightarrow> cache_state \<Rightarrow> nat \<times> cache_state" where
  "alloc_info info s = (info_next s, s\<lparr>info_heap := (info_heap s)(info_next s \<mapsto> info), info_next := Suc (info_next s)\<rparr>)"

definition free_process_info :: "nat \<Rightarrow> cache_state \<Rightarrow> cache_state" where
  "free_process_info a s = s\<lparr>info_heap := (info_heap s)(a := None)\<rparr>"

text \<open>\<^verbatim>\<open>HASH_FIND_INT\<close>.\<close>

fun find_pid :: "int \<Rightarrow> (nat \<Rightarrow> linx_process_info option) \<Rightarrow> nat list \<Rightarrow> nat option res" where
  "find_pid pid h [] = Inr None"
| "find_pid pid h (a # as) =
     (case h a of
        None \<Rightarrow> Inl UseAfterFree
      | Some info \<Rightarrow> if pi_pid info = pid then Inr (Some a) else find_pid pid h as)"

section \<open>Entering a record\<close>

text \<open>A record takes over the creation time of the one it replaces, and its exit if it has one.\<close>

definition keep_history :: "linx_process_info \<Rightarrow> linx_process_info \<Rightarrow> linx_process_info" where
  "keep_history old info =
    (let info = info\<lparr>pi_create_time := pi_create_time old\<rparr>
     in if \<not> pi_is_alive old \<and> pi_exit_time old > 0
        then info\<lparr>pi_exit_time := pi_exit_time old, pi_is_alive := False\<rparr> else info)"

text \<open>The section under the lock that \<^verbatim>\<open>update_process_task\<close> and \<^verbatim>\<open>linx_process_cache_update\<close> share.\<close>

definition enter_info :: "nat \<Rightarrow> int \<Rightarrow> linx_process_cache \<Rightarrow> cache_state \<Rightarrow> cache_state res" where
  "enter_info a pid c s =
    res_bind (find_pid pid (info_heap s) (pc_table c)) (\<lambda>found.
      (case found of
         None \<Rightarrow> Inr (s\<lparr>g_process_cache := Some (c\<lparr>pc_table := pc_table c @ [a]\<rparr>)\<rparr>)
       | Some old \<Rightarrow>
           if old = a then Inl UseAfterFree
           else
             (case (info_heap s old, info_heap s a) of
                (Some oi, Some i) \<Rightarrow>
                  (let s = s\<lparr>info_heap := (info_heap s)(a \<mapsto> keep_history oi i)\<rparr>;
                       c = c\<lparr>pc_table := remove1 old (pc_table c)\<rparr>;
                       s = free_process_info old s
                   in Inr (s\<lparr>g_process_cache := Some (c\<lparr>pc_table := pc_table c @ [a]\<rparr>)\<rparr>))
              | _ \<Rightarrow> Inl UseAfterFree)))"

definition update_process_task ::
  "bool \<Rightarrow> nat \<Rightarrow> int \<Rightarrow> int \<Rightarrow> proc_files \<Rightarrow> nat \<Rightarrow> cache_state \<Rightarrow> cache_state res" where
  "update_process_task ok pagesize now pid files should_stop s =
    (if should_stop \<noteq> 0 then Inr s
     else
       res_bind (create_process_info ok pagesize now pid files) (\<lambda>created.
         (case created of
            None \<Rightarrow> Inr s
          | Some info \<Rightarrow>
              (let (a, s) = alloc_info info s
               in (case g_process_cache s of
                     None \<Rightarrow> Inl NullDeref
                   | Some c \<Rightarrow> enter_info a pid c s)))))"

text \<open>The pointer argument is the address \<open>a\<close>, \<open>None\<close> for NULL. The cache itself is not tested.\<close>

definition linx_process_cache_update :: "nat option \<Rightarrow> cache_state \<Rightarrow> (int \<times> cache_state) res" where
  "linx_process_cache_update a s =
    (case a of
       None \<Rightarrow> Inr (- 1, s)
     | Some a \<Rightarrow>
         (case info_heap s a of
            None \<Rightarrow> Inl UseAfterFree
          | Some info \<Rightarrow>
              (case g_process_cache s of
                 None \<Rightarrow> Inl NullDeref
               | Some c \<Rightarrow> map_sum id (\<lambda>s. (0, s)) (enter_info a (pi_pid info) c s))))"

section \<open>The threads\<close>

text \<open>One round of the monitor: an update task for every numeric name in \<^verbatim>\<open>/proc\<close> (\<open>ok\<close> is the outcome of the
  allocation and of the pool for each), then the mark of the processes that are gone.\<close>

definition atoi :: "string \<Rightarrow> int" where
  "atoi s = to_int (fst (strtol s))"

definition is_pid_name :: "string \<Rightarrow> bool" where
  "is_pid_name d_name \<longleftrightarrow> d_name \<noteq> [] \<and> is_digit (hd d_name) \<and> atoi d_name > 0"

definition queue_pids :: "(string \<Rightarrow> bool) \<Rightarrow> string list \<Rightarrow> linx_process_cache \<Rightarrow> linx_process_cache" where
  "queue_pids ok names c = c\<lparr>pc_tasks := pc_tasks c @ map atoi (filter (\<lambda>n. is_pid_name n \<and> ok n) names)\<rparr>"

definition mark_exited :: "(int \<Rightarrow> bool) \<Rightarrow> int \<Rightarrow> linx_process_info \<Rightarrow> linx_process_info" where
  "mark_exited is_process_alive now info =
    (if \<not> pi_is_rich info \<and> pi_is_alive info \<and> \<not> is_process_alive (pi_pid info)
     then info\<lparr>pi_is_alive := False, pi_exit_time := now, pi_state := LINX_PROCESS_STATE_EXITED\<rparr> else info)"

fun mark_loop :: "(int \<Rightarrow> bool) \<Rightarrow> int \<Rightarrow> nat list \<Rightarrow> cache_state \<Rightarrow> cache_state res" where
  "mark_loop alive now [] s = Inr s"
| "mark_loop alive now (a # as) s =
     (case info_heap s a of
        None \<Rightarrow> Inl UseAfterFree
      | Some info \<Rightarrow> mark_loop alive now as (s\<lparr>info_heap := (info_heap s)(a \<mapsto> mark_exited alive now info)\<rparr>))"

text \<open>\<open>names\<close> is \<open>None\<close> when \<^verbatim>\<open>/proc\<close> cannot be opened: the round ends there.\<close>

definition monitor_thread_func ::
  "(string \<Rightarrow> bool) \<Rightarrow> string list option \<Rightarrow> (int \<Rightarrow> bool) \<Rightarrow> int \<Rightarrow> nat \<Rightarrow> cache_state \<Rightarrow> cache_state res" where
  "monitor_thread_func ok names alive now should_stop s =
    (case g_process_cache s of
       None \<Rightarrow> Inl NullDeref
     | Some c \<Rightarrow>
         if \<not> pc_running c \<or> should_stop \<noteq> 0 then Inr s
         else
           (case names of
              None \<Rightarrow> Inr s
            | Some ns \<Rightarrow> mark_loop alive now (pc_table c) (s\<lparr>g_process_cache := Some (queue_pids ok ns c)\<rparr>)))"

text \<open>The test of the cleaner. \<^verbatim>\<open>now - info->start_time\<close> is unsigned, since \<^verbatim>\<open>start_time\<close> is.\<close>

definition exit_expired :: "int \<Rightarrow> linx_process_info \<Rightarrow> bool" where
  "exit_expired now info \<longleftrightarrow>
     \<not> pi_is_alive info \<and> pi_exit_time info > 0 \<and> now - pi_exit_time info > LINX_PROCESS_CACHE_EXPIRE_TIME"

definition cleaner_expired :: "int \<Rightarrow> linx_process_info \<Rightarrow> bool" where
  "cleaner_expired now info \<longleftrightarrow>
     pi_is_rich info \<and> (word_of_int now :: 64 word) - pi_start_time info > word_of_int LINX_PROCESS_CACHE_EXPIRE_TIME \<or>
     exit_expired now info"

text \<open>\<^verbatim>\<open>HASH_ITER\<close> with a deletion: the addresses kept, the state, and how many were deleted.\<close>

fun expire_loop ::
  "(linx_process_info \<Rightarrow> bool) \<Rightarrow> nat list \<Rightarrow> cache_state \<Rightarrow> (nat list \<times> nat \<times> cache_state) res" where
  "expire_loop expired [] s = Inr ([], 0, s)"
| "expire_loop expired (a # as) s =
     (case info_heap s a of
        None \<Rightarrow> Inl UseAfterFree
      | Some info \<Rightarrow>
          if expired info
          then map_sum id (\<lambda>(kept, n, s). (kept, Suc n, s)) (expire_loop expired as (free_process_info a s))
          else map_sum id (\<lambda>(kept, n, s). (a # kept, n, s)) (expire_loop expired as s))"

definition cleaner_thread_func :: "int \<Rightarrow> nat \<Rightarrow> cache_state \<Rightarrow> cache_state res" where
  "cleaner_thread_func now should_stop s =
    (case g_process_cache s of
       None \<Rightarrow> Inl NullDeref
     | Some c \<Rightarrow>
         if \<not> pc_running c \<or> should_stop \<noteq> 0 then Inr s
         else map_sum id (\<lambda>(kept, n, s). s\<lparr>g_process_cache := Some (c\<lparr>pc_table := kept\<rparr>)\<rparr>)
                (expire_loop (cleaner_expired now) (pc_table c) s))"

section \<open>Clients\<close>

definition linx_process_cache_get ::
  "bool \<Rightarrow> nat \<Rightarrow> int \<Rightarrow> int \<Rightarrow> proc_files \<Rightarrow> cache_state \<Rightarrow> (nat option \<times> cache_state) res" where
  "linx_process_cache_get ok pagesize now pid files s =
    (case g_process_cache s of
       None \<Rightarrow> Inr (None, s)
     | Some c \<Rightarrow>
         res_bind (find_pid pid (info_heap s) (pc_table c)) (\<lambda>found.
           (case found of
              Some a \<Rightarrow> Inr (Some a, s)
            | None \<Rightarrow>
                res_bind (create_process_info ok pagesize now pid files) (\<lambda>created.
                  (case created of
                     None \<Rightarrow> Inr (None, s)
                   | Some info \<Rightarrow>
                       (let (a, s) = alloc_info info s in Inr (Some a, s\<lparr>info_handed := a # info_handed s\<rparr>)))))))"

fun read_all :: "(nat \<Rightarrow> linx_process_info option) \<Rightarrow> nat list \<Rightarrow> linx_process_info list res" where
  "read_all h [] = Inr []"
| "read_all h (a # as) = (case h a of None \<Rightarrow> Inl UseAfterFree | Some info \<Rightarrow> map_sum id (Cons info) (read_all h as))"

text \<open>Return code, \<^verbatim>\<open>*list\<close> (\<open>None\<close> for NULL) and \<^verbatim>\<open>*count\<close>; the pointers are taken to be valid.\<close>

definition linx_process_cache_get_all :: "bool \<Rightarrow> cache_state \<Rightarrow> (int \<times> linx_process_info list option \<times> nat) option res" where
  "linx_process_cache_get_all ok s =
    (case g_process_cache s of
       None \<Rightarrow> Inr None
     | Some c \<Rightarrow>
         if pc_table c = [] then Inr (Some (0, None, 0))
         else if \<not> ok then Inr (Some (- 1, None, length (pc_table c)))
         else map_sum id (\<lambda>infos. Some (0, Some infos, length (pc_table c))) (read_all (info_heap s) (pc_table c)))"

definition linx_process_cache_update_async :: "bool \<Rightarrow> bool \<Rightarrow> int \<Rightarrow> cache_state \<Rightarrow> int \<times> cache_state" where
  "linx_process_cache_update_async ok okp pid s =
    (case g_process_cache s of
       None \<Rightarrow> (- 1, s)
     | Some c \<Rightarrow>
         if \<not> ok then (- 1, s)
         else if \<not> okp then (- 1, s)
         else (0, s\<lparr>g_process_cache := Some (c\<lparr>pc_tasks := pc_tasks c @ [pid]\<rparr>)\<rparr>))"

definition linx_process_cache_update_sync ::
  "bool \<Rightarrow> bool \<Rightarrow> nat \<Rightarrow> int \<Rightarrow> int \<Rightarrow> proc_files \<Rightarrow> cache_state \<Rightarrow> (int \<times> cache_state) res" where
  "linx_process_cache_update_sync oka ok pagesize now pid files s =
    (case g_process_cache s of
       None \<Rightarrow> Inr (- 1, s)
     | Some c \<Rightarrow>
         if \<not> oka then Inr (- 1, s)
         else map_sum id (\<lambda>s. (0, s)) (update_process_task ok pagesize now pid files 0 s))"

definition linx_process_cache_delete :: "int \<Rightarrow> cache_state \<Rightarrow> (int \<times> cache_state) res" where
  "linx_process_cache_delete pid s =
    (case g_process_cache s of
       None \<Rightarrow> Inr (- 1, s)
     | Some c \<Rightarrow>
         res_bind (find_pid pid (info_heap s) (pc_table c)) (\<lambda>found.
           (case found of
              None \<Rightarrow> Inr (0, s)
            | Some a \<Rightarrow>
                Inr (0, free_process_info a (s\<lparr>g_process_cache := Some (c\<lparr>pc_table := remove1 a (pc_table c)\<rparr>)\<rparr>)))))"

definition linx_process_cache_cleanup :: "int \<Rightarrow> cache_state \<Rightarrow> (int \<times> cache_state) res" where
  "linx_process_cache_cleanup now s =
    (case g_process_cache s of
       None \<Rightarrow> Inr (- 1, s)
     | Some c \<Rightarrow>
         map_sum id (\<lambda>(kept, n, s). (int n, s\<lparr>g_process_cache := Some (c\<lparr>pc_table := kept\<rparr>)\<rparr>))
           (expire_loop (exit_expired now) (pc_table c) s))"

text \<open>\<^verbatim>\<open>*total\<close>, \<^verbatim>\<open>*alive\<close> and \<^verbatim>\<open>*expired\<close>.\<close>

definition linx_process_cache_stats :: "cache_state \<Rightarrow> (nat \<times> nat \<times> nat) res" where
  "linx_process_cache_stats s =
    (case g_process_cache s of
       None \<Rightarrow> Inr (0, 0, 0)
     | Some c \<Rightarrow>
         map_sum id (\<lambda>infos. (length infos, length (filter pi_is_alive infos), length (filter (\<lambda>i. \<not> pi_is_alive i) infos)))
           (read_all (info_heap s) (pc_table c)))"

section \<open>Start and end\<close>

definition proc_mappings :: "field_mapping list" where
  "proc_mappings =
    [\<lparr>fm_field_name = Some ''pid'', fm_offset = 0, fm_type = LINX_FIELD_TYPE_INT32, fm_size = 4\<rparr>,
     \<lparr>fm_field_name = Some ''ppid'', fm_offset = 4, fm_type = LINX_FIELD_TYPE_INT32, fm_size = 4\<rparr>,
     \<lparr>fm_field_name = Some ''pgid'', fm_offset = 8, fm_type = LINX_FIELD_TYPE_INT32, fm_size = 4\<rparr>,
     \<lparr>fm_field_name = Some ''sid'', fm_offset = 12, fm_type = LINX_FIELD_TYPE_INT32, fm_size = 4\<rparr>,
     \<lparr>fm_field_name = Some ''uid'', fm_offset = 16, fm_type = LINX_FIELD_TYPE_INT32, fm_size = 4\<rparr>,
     \<lparr>fm_field_name = Some ''gid'', fm_offset = 20, fm_type = LINX_FIELD_TYPE_INT32, fm_size = 4\<rparr>,
     \<lparr>fm_field_name = Some ''name'', fm_offset = 24, fm_type = LINX_FIELD_TYPE_CHARBUF, fm_size = 256\<rparr>,
     \<lparr>fm_field_name = Some ''comm'', fm_offset = 280, fm_type = LINX_FIELD_TYPE_CHARBUF, fm_size = 256\<rparr>,
     \<lparr>fm_field_name = Some ''cmdline'', fm_offset = 536, fm_type = LINX_FIELD_TYPE_CHARBUF, fm_size = 4096\<rparr>,
     \<lparr>fm_field_name = Some ''exe'', fm_offset = 4632, fm_type = LINX_FIELD_TYPE_CHARBUF, fm_size = 256\<rparr>,
     \<lparr>fm_field_name = Some ''cwd'', fm_offset = 4888, fm_type = LINX_FIELD_TYPE_CHARBUF, fm_size = 256\<rparr>]"

text \<open>The platform of an initialisation: the allocations of the field map, of the cache, the lock, the pool and its
  two tasks.\<close>

record cache_platform =
  cp_table :: bool
  cp_name :: bool
  cp_field :: "nat \<Rightarrow> bool"
  cp_cache :: bool
  cp_lock :: bool
  cp_pool :: bool
  cp_monitor :: bool
  cp_cleaner :: bool

definition linx_process_cache_bind_field :: "cache_platform \<Rightarrow> hash_state \<Rightarrow> (int \<times> hash_state) res" where
  "linx_process_cache_bind_field pl hs =
    linx_hash_map_add_field_batch (cp_table pl) (cp_name pl) (cp_field pl) (Some ''proc'') (Some proc_mappings) hs"

definition linx_process_cache_init ::
  "cache_platform \<Rightarrow> cache_state \<Rightarrow> hash_state \<Rightarrow> (int \<times> cache_state \<times> hash_state) res" where
  "linx_process_cache_init pl s hs =
    (if g_process_cache s \<noteq> None then Inr (0, s, hs)
     else
       res_bind (linx_process_cache_bind_field pl hs) (\<lambda>(ret, hs).
         if ret \<noteq> 0 then Inr (- 1, s, hs)
         else if \<not> cp_cache pl then Inr (- 1, s, hs)
         else if \<not> cp_lock pl then Inr (- 1, s, hs)
         else if \<not> cp_pool pl then Inr (- 1, s, hs)
         else if \<not> cp_monitor pl then Inr (- 1, s, hs)
         else if \<not> cp_cleaner pl then Inr (- 1, s, hs)
         else Inr (0, s\<lparr>g_process_cache := Some \<lparr>pc_table = [], pc_running = True, pc_tasks = []\<rparr>\<rparr>, hs)))"

definition linx_process_cache_deinit :: "cache_state \<Rightarrow> cache_state res" where
  "linx_process_cache_deinit s =
    (case g_process_cache s of
       None \<Rightarrow> Inr s
     | Some c \<Rightarrow>
         map_sum id (\<lambda>(kept, n, s). s\<lparr>g_process_cache := None\<rparr>) (expire_loop (\<lambda>_. True) (pc_table c) s))"

section \<open>Invariant\<close>

text \<open>The table holds each block once and each pid once; the live blocks are those of the table and those handed to
  callers of \<^verbatim>\<open>linx_process_cache_get\<close>, and fresh addresses are fresh.\<close>

definition blocks_inv :: "nat list \<Rightarrow> nat list \<Rightarrow> (nat \<Rightarrow> linx_process_info option) \<Rightarrow> nat \<Rightarrow> bool" where
  "blocks_inv T H h nx \<longleftrightarrow> distinct T \<and> distinct H \<and> set T \<inter> set H = {} \<and> dom h = set T \<union> set H \<and>
     (\<forall>a\<in>set T. \<forall>b\<in>set T. pi_pid (the (h a)) = pi_pid (the (h b)) \<longrightarrow> a = b) \<and> (\<forall>a\<in>dom h. a < nx)"

definition table_of :: "cache_state \<Rightarrow> nat list" where
  "table_of s = (case g_process_cache s of None \<Rightarrow> [] | Some c \<Rightarrow> pc_table c)"

definition cache_inv :: "cache_state \<Rightarrow> bool" where
  "cache_inv s \<longleftrightarrow> blocks_inv (table_of s) (info_handed s) (info_heap s) (info_next s)"

text \<open>The abstract cache: a record for a pid.\<close>

definition lookup_in :: "nat list \<Rightarrow> (nat \<Rightarrow> linx_process_info option) \<Rightarrow> int \<Rightarrow> linx_process_info option" where
  "lookup_in T h pid = Option.bind (find (\<lambda>a. pi_pid (the (h a)) = pid) T) h"

definition cached :: "cache_state \<Rightarrow> int \<Rightarrow> linx_process_info option" where
  "cached s = lookup_in (table_of s) (info_heap s)"

lemma live_block: "blocks_inv T H h nx \<Longrightarrow> a \<in> set T \<Longrightarrow> \<exists>i. h a = Some i"
  by (auto simp: blocks_inv_def dom_def set_eq_iff)

lemma find_pid_find:
  "set T \<subseteq> dom h \<Longrightarrow> find_pid pid h T = Inr (find (\<lambda>a. pi_pid (the (h a)) = pid) T)"
  by (induction T) (auto split: option.splits)

lemma blocks_find:
  assumes "blocks_inv T H h nx"
  shows "find_pid pid h T = Inr (find (\<lambda>a. pi_pid (the (h a)) = pid) T)"
  using assms by (intro find_pid_find) (auto simp: blocks_inv_def)

lemma lookup_in_Some:
  assumes "blocks_inv T H h nx"
  shows "lookup_in T h pid = Some i \<longleftrightarrow> (\<exists>a\<in>set T. h a = Some i \<and> pi_pid i = pid)"
proof -
  have inj: "a = b" if "a \<in> set T" "b \<in> set T" "pi_pid (the (h a)) = pi_pid (the (h b))" for a b
    using assms that by (simp add: blocks_inv_def)
  show ?thesis
  proof (cases "find (\<lambda>a. pi_pid (the (h a)) = pid) T")
    case None
    then have "\<forall>a\<in>set T. pi_pid (the (h a)) \<noteq> pid" by (simp add: find_None_iff)
    with None show ?thesis by (auto simp: lookup_in_def)
  next
    case (Some b)
    then have b: "b \<in> set T" "pi_pid (the (h b)) = pid" by (auto simp: find_Some_iff)
    have l: "lookup_in T h pid = h b" using Some by (simp add: lookup_in_def)
    show ?thesis
    proof
      assume "lookup_in T h pid = Some i"
      with l have "h b = Some i" by simp
      with b show "\<exists>a\<in>set T. h a = Some i \<and> pi_pid i = pid" by (intro bexI [of _ b]) simp_all
    next
      assume "\<exists>a\<in>set T. h a = Some i \<and> pi_pid i = pid"
      then obtain a where a: "a \<in> set T" "h a = Some i" "pi_pid i = pid" by blast
      have "b = a" using inj [OF b(1) a(1)] a(2,3) b(2) by simp
      with l a(2) show "lookup_in T h pid = Some i" by simp
    qed
  qed
qed

lemma lookup_in_eqI:
  assumes "blocks_inv T H h nx" "\<And>pid i. (\<exists>a\<in>set T. h a = Some i \<and> pi_pid i = pid) \<longleftrightarrow> m pid = Some i"
  shows "lookup_in T h = m"
proof
  fix pid
  have "lookup_in T h pid = Some i \<longleftrightarrow> m pid = Some i" for i
    unfolding lookup_in_Some [OF assms(1)] by (rule assms(2))
  then show "lookup_in T h pid = m pid" by (cases "m pid"; cases "lookup_in T h pid") auto
qed

text \<open>The effect of entering a record on the abstract cache.\<close>

definition put_info :: "int \<Rightarrow> linx_process_info \<Rightarrow> (int \<Rightarrow> linx_process_info option) \<Rightarrow> int \<Rightarrow> linx_process_info option" where
  "put_info pid info m = m(pid \<mapsto> (case m pid of None \<Rightarrow> info | Some old \<Rightarrow> keep_history old info))"

lemma keep_history_pid [simp]: "pi_pid (keep_history old info) = pi_pid info"
  by (simp add: keep_history_def Let_def)

lemma blocks_outside:
  assumes "blocks_inv T H h nx" "nx \<le> a"
  shows "a \<notin> set T \<and> a \<notin> set H \<and> h a = None"
proof -
  have d: "dom h = set T \<union> set H" "\<forall>b\<in>dom h. b < nx" using assms(1) by (simp_all add: blocks_inv_def)
  have "a \<notin> dom h" using d(2) assms(2) by (meson leD)
  moreover have "h a = None" using calculation by blast
  ultimately show ?thesis using d(1) by blast
qed

lemma cache_blocks_add:
  assumes "blocks_inv T H h nx" "nx \<le> a" "\<And>b. b \<in> set T \<Longrightarrow> pi_pid (the (h b)) \<noteq> pi_pid i"
  shows "blocks_inv (T @ [a]) H (h(a \<mapsto> i)) (Suc a)"
proof -
  have d: "distinct T" "distinct H" "set T \<inter> set H = {}" "dom h = set T \<union> set H" "\<forall>b\<in>dom h. b < nx"
    "\<forall>a\<in>set T. \<forall>b\<in>set T. pi_pid (the (h a)) = pi_pid (the (h b)) \<longrightarrow> a = b"
    using assms(1) by (simp_all add: blocks_inv_def)
  have a: "a \<notin> set T" "a \<notin> set H" using blocks_outside [OF assms(1,2)] by blast+
  have "\<forall>x\<in>set (T @ [a]). \<forall>y\<in>set (T @ [a]). pi_pid (the ((h(a \<mapsto> i)) x)) = pi_pid (the ((h(a \<mapsto> i)) y)) \<longrightarrow> x = y"
    using d(6) a(1) assms(3) by (auto simp: eq_commute)
  moreover have "\<forall>b\<in>dom (h(a \<mapsto> i)). b < Suc a" using d(5) assms(2) by (auto simp: less_Suc_eq) (meson domI order_less_le_trans)
  moreover have "dom (h(a \<mapsto> i)) = set (T @ [a]) \<union> set H" using d(4) by auto
  moreover have "distinct (T @ [a])" "set (T @ [a]) \<inter> set H = {}" using d(1,3) a by auto
  ultimately show ?thesis using d(2) unfolding blocks_inv_def by blast
qed

lemma blocks_remove:
  assumes "blocks_inv T H h nx" "b \<in> set T"
  shows "blocks_inv (remove1 b T) H (h(b := None)) nx"
  using assms unfolding blocks_inv_def by (auto simp: set_remove1_eq)

lemma blocks_next: "blocks_inv T H h nx \<Longrightarrow> nx \<le> nx' \<Longrightarrow> blocks_inv T H h nx'"
  unfolding blocks_inv_def by (meson order_less_le_trans)

section \<open>The operations and the abstract cache\<close>

lemma lookup_in_None:
  assumes "blocks_inv T H h nx" "lookup_in T h pid = None" "b \<in> set T"
  shows "pi_pid (the (h b)) \<noteq> pid"
proof -
  obtain i where "h b = Some i" using live_block [OF assms(1,3)] by blast
  with lookup_in_Some [OF assms(1), of pid i] assms(2,3) show ?thesis by auto
qed

lemma lookup_add:
  assumes "blocks_inv T H h nx" "nx \<le> a" "lookup_in T h (pi_pid i) = None"
  shows "blocks_inv (T @ [a]) H (h(a \<mapsto> i)) (Suc a) \<and> lookup_in (T @ [a]) (h(a \<mapsto> i)) = (lookup_in T h)(pi_pid i \<mapsto> i)"
proof -
  have inv: "blocks_inv (T @ [a]) H (h(a \<mapsto> i)) (Suc a)"
    using assms by (intro cache_blocks_add [OF assms(1,2)] lookup_in_None [OF assms(1,3)])
  have a: "a \<notin> set T" "h a = None" using blocks_outside [OF assms(1,2)] by blast+
  have "lookup_in (T @ [a]) (h(a \<mapsto> i)) = (lookup_in T h)(pi_pid i \<mapsto> i)"
  proof (rule lookup_in_eqI [OF inv])
    fix pid j
    have "pid = pi_pid i \<Longrightarrow> \<not> (\<exists>b\<in>set T. h b = Some j \<and> pi_pid j = pid)"
      using assms(3) lookup_in_Some [OF assms(1), of pid j] by simp
    then show "(\<exists>b\<in>set (T @ [a]). (h(a \<mapsto> i)) b = Some j \<and> pi_pid j = pid) \<longleftrightarrow>
        ((lookup_in T h)(pi_pid i \<mapsto> i)) pid = Some j"
      using a lookup_in_Some [OF assms(1), of pid j] by auto
  qed
  with inv show ?thesis by blast
qed

lemma lookup_remove:
  assumes "blocks_inv T H h nx" "b \<in> set T"
  shows "blocks_inv (remove1 b T) H (h(b := None)) nx \<and>
    lookup_in (remove1 b T) (h(b := None)) = (lookup_in T h)(pi_pid (the (h b)) := None)"
proof -
  have inv: "blocks_inv (remove1 b T) H (h(b := None)) nx" by (rule blocks_remove [OF assms])
  obtain i where i: "h b = Some i" using live_block [OF assms] by blast
  have d: "distinct T" using assms(1) by (simp add: blocks_inv_def)
  have inj: "c = b" if "c \<in> set T" "h c = Some j" "pi_pid j = pi_pid i" for c j
    using assms that i by (auto simp: blocks_inv_def)
  have "lookup_in (remove1 b T) (h(b := None)) = (lookup_in T h)(pi_pid i := None)"
  proof (rule lookup_in_eqI [OF inv])
    fix pid j
    show "(\<exists>c\<in>set (remove1 b T). (h(b := None)) c = Some j \<and> pi_pid j = pid) \<longleftrightarrow>
        ((lookup_in T h)(pi_pid i := None)) pid = Some j"
      using lookup_in_Some [OF assms(1), of pid j] i inj d by (auto simp: set_remove1_eq)
  qed
  with inv i show ?thesis by simp
qed

lemma cached_table: "g_process_cache s = Some c \<Longrightarrow> cached s = lookup_in (pc_table c) (info_heap s)"
  "g_process_cache s = Some c \<Longrightarrow> table_of s = pc_table c"
  by (simp_all add: cached_def table_of_def)

text \<open>Entering a fresh block.\<close>

lemma enter_info_spec:
  assumes "cache_inv s" "g_process_cache s = Some c" "pi_pid info = pid"
  shows "\<exists>s'. enter_info (info_next s) pid c (snd (alloc_info info s)) = Inr s' \<and> cache_inv s' \<and>
    cached s' = put_info pid info (cached s) \<and> info_handed s' = info_handed s \<and>
    map_option (\<lambda>c. (pc_running c, pc_tasks c)) (g_process_cache s') = Some (pc_running c, pc_tasks c)"
proof -
  let ?T = "pc_table c" and ?h = "info_heap s" and ?a = "info_next s"
  have inv: "blocks_inv ?T (info_handed s) ?h ?a" using assms(1,2) by (simp add: cache_inv_def table_of_def)
  have fresh: "?h ?a = None" "?a \<notin> set ?T" using blocks_outside [OF inv order_refl] by blast+
  have same: "find (\<lambda>x. pi_pid (the ((?h(?a \<mapsto> info)) x)) = pid) ?T = find (\<lambda>x. pi_pid (the (?h x)) = pid) ?T"
    using fresh(2) by (intro find_cong) auto
  have find: "find_pid pid (?h(?a \<mapsto> info)) ?T = Inr (find (\<lambda>x. pi_pid (the (?h x)) = pid) ?T)"
    unfolding same [symmetric] using inv by (intro find_pid_find) (auto simp: blocks_inv_def)
  show ?thesis
  proof (cases "find (\<lambda>x. pi_pid (the (?h x)) = pid) ?T")
    case None
    then have "lookup_in ?T ?h (pi_pid info) = None" using assms(3) by (simp add: lookup_in_def)
    from lookup_add [OF inv order_refl this] None find assms(2,3) show ?thesis
      by (simp add: enter_info_def alloc_info_def cache_inv_def table_of_def cached_def put_info_def
          lookup_in_def [of ?T ?h pid])
  next
    case (Some b)
    then have b: "b \<in> set ?T" "pi_pid (the (?h b)) = pid" by (auto simp: find_Some_iff)
    obtain oi where oi: "?h b = Some oi" using live_block [OF inv b(1)] by blast
    have ne: "b \<noteq> ?a" using b(1) fresh(2) by auto
    let ?i = "keep_history oi info"
    have l: "lookup_in ?T ?h pid = Some oi" using Some oi by (simp add: lookup_in_def)
    note r = lookup_remove [OF inv b(1)]
    then have "lookup_in (remove1 b ?T) (?h(b := None)) (pi_pid ?i) = None" using b(2) assms(3) by simp
    note lookup_add [OF conjunct1 [OF r] order_refl this]
    moreover have "(?h(b := None))(?a \<mapsto> ?i) = (?h(?a \<mapsto> ?i))(b := None)" using ne by auto
    moreover have "((lookup_in ?T ?h)(pid := None))(pid \<mapsto> ?i) = (lookup_in ?T ?h)(pid \<mapsto> ?i)" by simp
    ultimately show ?thesis
      using Some find assms(2,3) ne oi l r b(2)
      by (simp add: enter_info_def alloc_info_def cache_inv_def table_of_def cached_def put_info_def
          free_process_info_def)
  qed
qed

text \<open>Deleting what has expired.\<close>

lemma expire_loop_spec:
  assumes "set T \<subseteq> dom (info_heap s)" "distinct T"
  shows "expire_loop expired T s =
    Inr (filter (\<lambda>a. \<not> expired (the (info_heap s a))) T,
         length (filter (\<lambda>a. expired (the (info_heap s a))) T),
         s\<lparr>info_heap := (\<lambda>a. if a \<in> set T \<and> expired (the (info_heap s a)) then None else info_heap s a)\<rparr>)"
  using assms
proof (induction T arbitrary: s)
  case (Cons a T)
  obtain i where i: "info_heap s a = Some i" using Cons.prems(1) by auto
  show ?case
  proof (cases "expired i")
    case True
    let ?s = "free_process_info a s"
    have h: "info_heap ?s b = info_heap s b" if "b \<in> set T" for b
      using that Cons.prems(2) by (auto simp: free_process_info_def)
    have f: "filter (\<lambda>b. \<not> expired (the (info_heap ?s b))) T = filter (\<lambda>b. \<not> expired (the (info_heap s b))) T"
      "filter (\<lambda>b. expired (the (info_heap ?s b))) T = filter (\<lambda>b. expired (the (info_heap s b))) T"
      by (intro filter_cong refl; simp add: h)+
    have g: "(\<lambda>b. if b \<in> set T \<and> expired (the (info_heap ?s b)) then None else info_heap ?s b) =
        (\<lambda>b. if b \<in> set (a # T) \<and> expired (the (info_heap s b)) then None else info_heap s b)"
      using i True Cons.prems(2) by (auto simp: free_process_info_def)
    have "set T \<subseteq> dom (info_heap ?s)" "distinct T" using Cons.prems h by (auto simp: domIff)
    from Cons.IH [OF this, unfolded f g] show ?thesis using i True by (simp add: free_process_info_def)
  next
    case False
    have "(\<lambda>b. if b \<in> set T \<and> expired (the (info_heap s b)) then None else info_heap s b) =
        (\<lambda>b. if b \<in> set (a # T) \<and> expired (the (info_heap s b)) then None else info_heap s b)"
      using i False by auto
    then show ?thesis using Cons.IH [of s] Cons.prems i False by simp
  qed
qed simp

lemma blocks_filter:
  assumes "blocks_inv T H h nx"
  shows "blocks_inv (filter (\<lambda>a. \<not> expired (the (h a))) T) H (\<lambda>a. if a \<in> set T \<and> expired (the (h a)) then None else h a) nx \<and>
    lookup_in (filter (\<lambda>a. \<not> expired (the (h a))) T) (\<lambda>a. if a \<in> set T \<and> expired (the (h a)) then None else h a) =
      (\<lambda>pid. case lookup_in T h pid of None \<Rightarrow> None | Some i \<Rightarrow> if expired i then None else Some i)"
proof -
  let ?T = "filter (\<lambda>a. \<not> expired (the (h a))) T" and ?h = "\<lambda>a. if a \<in> set T \<and> expired (the (h a)) then None else h a"
  have d: "distinct T" "distinct H" "set T \<inter> set H = {}" "dom h = set T \<union> set H" "\<forall>b\<in>dom h. b < nx"
    "\<forall>a\<in>set T. \<forall>b\<in>set T. pi_pid (the (h a)) = pi_pid (the (h b)) \<longrightarrow> a = b"
    using assms by (simp_all add: blocks_inv_def)
  have "dom ?h = set ?T \<union> set H" using d(3,4) by (auto simp: dom_def split: if_splits)
  moreover have "\<forall>b\<in>dom ?h. b < nx" using d(5) by (auto simp: dom_def split: if_splits)
  moreover have "\<forall>a\<in>set ?T. \<forall>b\<in>set ?T. pi_pid (the (?h a)) = pi_pid (the (?h b)) \<longrightarrow> a = b" using d(6) by simp
  moreover have "distinct ?T" "set ?T \<inter> set H = {}" using d(1,3) by auto
  ultimately have inv: "blocks_inv ?T H ?h nx" using d(2) unfolding blocks_inv_def by blast
  have "lookup_in ?T ?h = (\<lambda>pid. case lookup_in T h pid of None \<Rightarrow> None | Some i \<Rightarrow> if expired i then None else Some i)"
  proof (rule lookup_in_eqI [OF inv])
    fix pid i
    have "(\<exists>a\<in>set ?T. ?h a = Some i \<and> pi_pid i = pid) \<longleftrightarrow> (\<exists>a\<in>set T. h a = Some i \<and> pi_pid i = pid) \<and> \<not> expired i"
      by auto
    also have "\<dots> \<longleftrightarrow> (case lookup_in T h pid of None \<Rightarrow> None | Some i \<Rightarrow> if expired i then None else Some i) = Some i"
      unfolding lookup_in_Some [OF assms, symmetric] by (auto split: option.splits)
    finally show "(\<exists>a\<in>set ?T. ?h a = Some i \<and> pi_pid i = pid) \<longleftrightarrow>
        (case lookup_in T h pid of None \<Rightarrow> None | Some i \<Rightarrow> if expired i then None else Some i) = Some i" .
  qed
  with inv show ?thesis by blast
qed

text \<open>Marking what has exited.\<close>

lemma mark_loop_spec:
  assumes "set T \<subseteq> dom (info_heap s)" "distinct T"
  shows "mark_loop alive now T s =
    Inr (s\<lparr>info_heap := (\<lambda>a. if a \<in> set T then map_option (mark_exited alive now) (info_heap s a) else info_heap s a)\<rparr>)"
  using assms
proof (induction T arbitrary: s)
  case (Cons a T)
  obtain i where i: "info_heap s a = Some i" using Cons.prems(1) by auto
  let ?s = "s\<lparr>info_heap := (info_heap s)(a \<mapsto> mark_exited alive now i)\<rparr>"
  have "(\<lambda>b. if b \<in> set T then map_option (mark_exited alive now) (info_heap ?s b) else info_heap ?s b) =
      (\<lambda>b. if b \<in> set (a # T) then map_option (mark_exited alive now) (info_heap s b) else info_heap s b)"
    using i Cons.prems(2) by auto
  moreover have "mark_loop alive now T ?s =
      Inr (?s\<lparr>info_heap := (\<lambda>b. if b \<in> set T then map_option (mark_exited alive now) (info_heap ?s b) else info_heap ?s b)\<rparr>)"
    using Cons.prems by (intro Cons.IH) auto
  ultimately show ?case using i by simp
qed simp

lemma mark_exited_pid [simp]: "pi_pid (mark_exited alive now i) = pi_pid i"
  by (simp add: mark_exited_def)

lemma blocks_mark:
  assumes "blocks_inv T H h nx"
  shows "blocks_inv T H (\<lambda>a. if a \<in> set T then map_option (mark_exited alive now) (h a) else h a) nx \<and>
    lookup_in T (\<lambda>a. if a \<in> set T then map_option (mark_exited alive now) (h a) else h a) =
      (\<lambda>pid. map_option (mark_exited alive now) (lookup_in T h pid))"
proof -
  let ?h = "\<lambda>a. if a \<in> set T then map_option (mark_exited alive now) (h a) else h a"
  have d: "distinct T" "distinct H" "set T \<inter> set H = {}" "dom h = set T \<union> set H" "\<forall>b\<in>dom h. b < nx"
    "\<forall>a\<in>set T. \<forall>b\<in>set T. pi_pid (the (h a)) = pi_pid (the (h b)) \<longrightarrow> a = b"
    using assms by (simp_all add: blocks_inv_def)
  have dom: "dom ?h = dom h" by (auto simp: dom_def split: if_splits)
  have pid: "pi_pid (the (?h a)) = pi_pid (the (h a))" if "a \<in> set T" for a
    using live_block [OF assms that] that by auto
  have inv: "blocks_inv T H ?h nx"
    using d(1-3,5,6) pid unfolding blocks_inv_def dom d(4) by simp
  have "lookup_in T ?h = (\<lambda>pid. map_option (mark_exited alive now) (lookup_in T h pid))"
  proof (rule lookup_in_eqI [OF inv])
    fix pid i
    have "(\<exists>a\<in>set T. ?h a = Some i \<and> pi_pid i = pid) \<longleftrightarrow>
        (\<exists>j. (\<exists>a\<in>set T. h a = Some j \<and> pi_pid j = pid) \<and> mark_exited alive now j = i)" by auto
    also have "\<dots> \<longleftrightarrow> map_option (mark_exited alive now) (lookup_in T h pid) = Some i"
      by (simp only: lookup_in_Some [OF assms, symmetric] map_option_eq_Some)
    finally show "(\<exists>a\<in>set T. ?h a = Some i \<and> pi_pid i = pid) \<longleftrightarrow>
        map_option (mark_exited alive now) (lookup_in T h pid) = Some i" .
  qed
  with inv show ?thesis by blast
qed

section \<open>Runs\<close>

text \<open>The critical sections of the threads and clients, with all they get from outside. \<open>OpRich\<close> is what
  \<^verbatim>\<open>rich_execve_exit\<close> does: a fresh block handed to \<^verbatim>\<open>linx_process_cache_update\<close>.\<close>

datatype cache_op =
    OpUpdate bool nat int int proc_files nat
  | OpRich linx_process_info
  | OpMonitor "string \<Rightarrow> bool" "string list option" "int \<Rightarrow> bool" int nat
  | OpCleaner int nat
  | OpGet bool nat int int proc_files
  | OpAsync bool bool int
  | OpDelete int
  | OpCleanup int

fun run_op :: "cache_op \<Rightarrow> cache_state \<Rightarrow> cache_state res" where
  "run_op (OpUpdate ok pg now pid files stop) s = update_process_task ok pg now pid files stop s"
| "run_op (OpRich info) s = (let (a, s) = alloc_info info s in map_sum id snd (linx_process_cache_update (Some a) s))"
| "run_op (OpMonitor ok names alive now stop) s = monitor_thread_func ok names alive now stop s"
| "run_op (OpCleaner now stop) s = cleaner_thread_func now stop s"
| "run_op (OpGet ok pg now pid files) s = map_sum id snd (linx_process_cache_get ok pg now pid files s)"
| "run_op (OpAsync ok okp pid) s = Inr (snd (linx_process_cache_update_async ok okp pid s))"
| "run_op (OpDelete pid) s = map_sum id snd (linx_process_cache_delete pid s)"
| "run_op (OpCleanup now) s = map_sum id snd (linx_process_cache_cleanup now s)"

fun run_ops :: "cache_op list \<Rightarrow> cache_state \<Rightarrow> cache_state res" where
  "run_ops [] s = Inr s"
| "run_ops (p # ps) s = res_bind (run_op p s) (run_ops ps)"

text \<open>What the operations mean for the abstract cache.\<close>

definition drop_expired :: "(linx_process_info \<Rightarrow> bool) \<Rightarrow> (int \<Rightarrow> linx_process_info option) \<Rightarrow> int \<Rightarrow> linx_process_info option" where
  "drop_expired expired m = (\<lambda>pid. case m pid of None \<Rightarrow> None | Some i \<Rightarrow> if expired i then None else Some i)"

fun abs_op :: "cache_op \<Rightarrow> (int \<Rightarrow> linx_process_info option) \<Rightarrow> int \<Rightarrow> linx_process_info option" where
  "abs_op (OpUpdate ok pg now pid files stop) m =
     (if stop \<noteq> 0 then m
      else (case create_process_info ok pg now pid files of Inr (Some info) \<Rightarrow> put_info pid info m | _ \<Rightarrow> m))"
| "abs_op (OpRich info) m = put_info (pi_pid info) info m"
| "abs_op (OpMonitor ok names alive now stop) m =
     (if stop \<noteq> 0 \<or> names = None then m else (\<lambda>pid. map_option (mark_exited alive now) (m pid)))"
| "abs_op (OpCleaner now stop) m = (if stop \<noteq> 0 then m else drop_expired (cleaner_expired now) m)"
| "abs_op (OpGet ok pg now pid files) m = m"
| "abs_op (OpAsync ok okp pid) m = m"
| "abs_op (OpDelete pid) m = m(pid := None)"
| "abs_op (OpCleanup now) m = drop_expired (exit_expired now) m"

text \<open>The files of \<^verbatim>\<open>/proc\<close> are such that reading them has defined behaviour.\<close>

fun readable :: "cache_op \<Rightarrow> bool" where
  "readable (OpUpdate ok pg now pid files stop) = (\<exists>r. create_process_info ok pg now pid files = Inr r)"
| "readable (OpGet ok pg now pid files) = (\<exists>r. create_process_info ok pg now pid files = Inr r)"
| "readable _ = True"

definition cache_live :: "cache_state \<Rightarrow> bool" where
  "cache_live s \<longleftrightarrow> (\<exists>c. g_process_cache s = Some c \<and> pc_running c)"

lemma create_pid:
  assumes "create_process_info ok pg now pid files = Inr (Some info)"
  shows "pi_pid info = pid"
proof -
  have st: "pi_pid i' = pi_pid i" if "read_proc_stat pg f i = Inr (r, i')" for f i r i'
    using that by (auto simp: read_proc_stat_def store_stat_def Let_def split: option.splits if_splits)
  have line: "pi_pid (status_line l i) = pi_pid i" for l i by (simp add: status_line_def)
  have loop: "pi_pid (status_loop f i) = pi_pid i" for f i
  proof (induction f i rule: status_loop.induct)
    case (1 f i)
    then show ?case by (subst status_loop.simps) (auto simp: line split: option.splits)
  qed
  show ?thesis
    using assms
    by (auto simp: create_process_info_def read_proc_status_def read_proc_cwd_def read_proc_exe_def read_proc_cmdline_def
        Let_def loop dest!: st split: if_splits option.splits prod.splits)
qed

text \<open>One step: the operation returns, keeps the invariant and acts on the abstract cache as it should.\<close>

definition simulates :: "(int \<Rightarrow> linx_process_info option) \<Rightarrow> cache_state res \<Rightarrow> bool" where
  "simulates m r \<longleftrightarrow> (\<exists>s'. r = Inr s' \<and> cache_inv s' \<and> cache_live s' \<and> cached s' = m)"

lemma simulates_same: "cache_inv s \<Longrightarrow> cache_live s \<Longrightarrow> simulates (cached s) (Inr s)"
  by (simp add: simulates_def)

lemma enter_simulates:
  assumes "cache_inv s" "cache_live s" "pi_pid info = pid"
  shows "simulates (put_info pid info (cached s))
    (enter_info (info_next s) pid (the (g_process_cache s)) (snd (alloc_info info s)))"
proof -
  obtain c where c: "g_process_cache s = Some c" "pc_running c" using assms(2) by (auto simp: cache_live_def)
  from enter_info_spec [OF assms(1) c(1) assms(3)] c show ?thesis
    by (auto simp: simulates_def cache_live_def)
qed

lemma expire_simulates:
  assumes "cache_inv s" "g_process_cache s = Some c" "pc_running c"
  shows "simulates (drop_expired expired (cached s))
    (map_sum id (\<lambda>(kept, n, s). s\<lparr>g_process_cache := Some (c\<lparr>pc_table := kept\<rparr>)\<rparr>) (expire_loop expired (pc_table c) s))"
proof -
  have inv: "blocks_inv (pc_table c) (info_handed s) (info_heap s) (info_next s)"
    using assms(1,2) by (simp add: cache_inv_def table_of_def)
  have sub: "set (pc_table c) \<subseteq> dom (info_heap s)" "distinct (pc_table c)" using inv by (auto simp: blocks_inv_def)
  from blocks_filter [OF inv, of expired] show ?thesis
    using assms(2,3) by (simp add: simulates_def expire_loop_spec [OF sub] cache_inv_def cache_live_def table_of_def
        cached_def drop_expired_def)
qed

lemma lookup_in_cong:
  assumes "\<And>a. a \<in> set T \<Longrightarrow> h' a = h a"
  shows "lookup_in T h' = lookup_in T h"
proof
  fix pid
  have "find (\<lambda>a. pi_pid (the (h' a)) = pid) T = find (\<lambda>a. pi_pid (the (h a)) = pid) T"
    using assms by (intro find_cong) simp_all
  moreover have "a \<in> set T" if "find (\<lambda>a. pi_pid (the (h a)) = pid) T = Some a" for a
    using that by (auto simp: find_Some_iff)
  ultimately show "lookup_in T h' pid = lookup_in T h pid"
    using assms by (cases "find (\<lambda>a. pi_pid (the (h a)) = pid) T") (simp_all add: lookup_in_def)
qed

lemma live_blocks_inv:
  assumes "cache_inv s" "g_process_cache s = Some c"
  shows "blocks_inv (pc_table c) (info_handed s) (info_heap s) (info_next s)"
    "set (pc_table c) \<subseteq> dom (info_heap s)" "distinct (pc_table c)"
  using assms by (auto simp: cache_inv_def table_of_def blocks_inv_def)

lemmas simulates_defs = simulates_def cache_inv_def cache_live_def table_of_def cached_def

lemma update_simulates:
  assumes "cache_inv s" "cache_live s" "readable (OpUpdate ok pg now pid files stop)"
  shows "simulates (abs_op (OpUpdate ok pg now pid files stop) (cached s)) (update_process_task ok pg now pid files stop s)"
proof -
  obtain c where c: "g_process_cache s = Some c" using assms(2) by (auto simp: cache_live_def)
  obtain r where r: "create_process_info ok pg now pid files = Inr r" using assms(3) by auto
  note same = simulates_same [OF assms(1,2)]
  show ?thesis
  proof (cases r)
    case (Some info)
    from enter_simulates [OF assms(1,2) create_pid, of ok pg now pid files info] show ?thesis
      using r Some c same by (simp add: update_process_task_def alloc_info_def Let_def)
  qed (use r same in \<open>simp add: update_process_task_def\<close>)
qed

lemma rich_simulates:
  assumes "cache_inv s" "cache_live s"
  shows "simulates (abs_op (OpRich info) (cached s)) (run_op (OpRich info) s)"
proof -
  obtain c where c: "g_process_cache s = Some c" using assms(2) by (auto simp: cache_live_def)
  from enter_simulates [OF assms refl, of info] c show ?thesis
    by (auto simp: linx_process_cache_update_def alloc_info_def simulates_def)
qed

lemma monitor_simulates:
  assumes "cache_inv s" "cache_live s"
  shows "simulates (abs_op (OpMonitor ok names alive now stop) (cached s)) (monitor_thread_func ok names alive now stop s)"
proof -
  obtain c where c: "g_process_cache s = Some c" "pc_running c" using assms(2) by (auto simp: cache_live_def)
  note inv = live_blocks_inv [OF assms(1) c(1)]
  show ?thesis
  proof (cases "stop \<noteq> 0 \<or> names = None")
    case True
    then show ?thesis
      using simulates_same [OF assms] c by (auto simp: monitor_thread_func_def split: option.split)
  next
    case False
    then obtain ns where n: "names = Some ns" "stop = 0" by auto
    let ?s = "s\<lparr>g_process_cache := Some (queue_pids ok ns c)\<rparr>"
    have "mark_loop alive now (pc_table c) ?s = Inr (?s\<lparr>info_heap :=
        (\<lambda>a. if a \<in> set (pc_table c) then map_option (mark_exited alive now) (info_heap s a) else info_heap s a)\<rparr>)"
      using mark_loop_spec [of "pc_table c" ?s alive now] inv(2,3) by (simp cong: if_cong)
    with n c blocks_mark [OF inv(1), of alive now] show ?thesis
      by (simp add: monitor_thread_func_def simulates_defs queue_pids_def)
  qed
qed

lemma get_simulates:
  assumes "cache_inv s" "cache_live s" "readable (OpGet ok pg now pid files)"
  shows "simulates (cached s) (map_sum id snd (linx_process_cache_get ok pg now pid files s))"
proof -
  obtain c where c: "g_process_cache s = Some c" "pc_running c" using assms(2) by (auto simp: cache_live_def)
  note inv = live_blocks_inv [OF assms(1) c(1)]
  obtain r where r: "create_process_info ok pg now pid files = Inr r" using assms(3) by auto
  have out: "info_next s \<notin> set (pc_table c)" "info_next s \<notin> set (info_handed s)" "info_heap s (info_next s) = None"
    using blocks_outside [OF inv(1) order_refl] by blast+
  have new: "simulates (cached s) (Inr (s\<lparr>info_heap := (info_heap s)(info_next s \<mapsto> info), info_next := Suc (info_next s),
      info_handed := info_next s # info_handed s\<rparr>))" for info
  proof -
    have b: "blocks_inv (pc_table c) (info_next s # info_handed s) ((info_heap s)(info_next s \<mapsto> info)) (Suc (info_next s))"
      using inv(1) out unfolding blocks_inv_def by (auto simp: less_Suc_eq)
    have "lookup_in (pc_table c) ((info_heap s)(info_next s \<mapsto> info)) = lookup_in (pc_table c) (info_heap s)"
      using out(1) by (intro lookup_in_cong) auto
    with b c show ?thesis by (simp add: simulates_defs)
  qed
  show ?thesis
    using c(1) r new simulates_same [OF assms(1,2)]
    by (auto simp: linx_process_cache_get_def blocks_find [OF inv(1)] alloc_info_def split: option.split)
qed

lemma delete_simulates:
  assumes "cache_inv s" "cache_live s"
  shows "simulates ((cached s)(pid := None)) (map_sum id snd (linx_process_cache_delete pid s))"
proof -
  obtain c where c: "g_process_cache s = Some c" "pc_running c" using assms(2) by (auto simp: cache_live_def)
  note inv = live_blocks_inv [OF assms(1) c(1)]
  show ?thesis
  proof (cases "find (\<lambda>a. pi_pid (the (info_heap s a)) = pid) (pc_table c)")
    case None
    then have "cached s pid = None" using c(1) by (simp add: cached_def table_of_def lookup_in_def)
    then have "(cached s)(pid := None) = cached s" by auto
    with None c(1) simulates_same [OF assms] show ?thesis
      by (simp add: linx_process_cache_delete_def blocks_find [OF inv(1)])
  next
    case (Some b)
    then have b: "b \<in> set (pc_table c)" "pi_pid (the (info_heap s b)) = pid" by (auto simp: find_Some_iff)
    from lookup_remove [OF inv(1) b(1)] Some b(2) c show ?thesis
      by (simp add: linx_process_cache_delete_def blocks_find [OF inv(1)] free_process_info_def simulates_defs)
  qed
qed

lemma run_op_simulates:
  assumes "cache_inv s" "cache_live s" "readable p"
  shows "simulates (abs_op p (cached s)) (run_op p s)"
proof -
  obtain c where c: "g_process_cache s = Some c" "pc_running c" using assms(2) by (auto simp: cache_live_def)
  show ?thesis
  proof (cases p)
    case (OpCleaner now stop)
    then show ?thesis
      using expire_simulates [OF assms(1) c, of "cleaner_expired now"] simulates_same [OF assms(1,2)] c
      by (simp add: cleaner_thread_func_def)
  next
    case (OpCleanup now)
    have "map_sum id snd (linx_process_cache_cleanup now s) =
        map_sum id (\<lambda>(kept, n, s). s\<lparr>g_process_cache := Some (c\<lparr>pc_table := kept\<rparr>)\<rparr>)
          (expire_loop (exit_expired now) (pc_table c) s)"
      using c(1) by (cases "expire_loop (exit_expired now) (pc_table c) s") (auto simp: linx_process_cache_cleanup_def)
    with OpCleanup show ?thesis using expire_simulates [OF assms(1) c, of "exit_expired now"] by simp
  next
    case (OpAsync ok okp pid)
    with assms(1) c show ?thesis by (auto simp: linx_process_cache_update_async_def simulates_defs)
  qed (use assms update_simulates rich_simulates monitor_simulates get_simulates delete_simulates in simp_all)
qed

lemma run_ops_simulates:
  assumes "cache_inv s" "cache_live s" "list_all readable ps"
  shows "simulates (fold abs_op ps (cached s)) (run_ops ps s)"
  using assms
proof (induction ps arbitrary: s)
  case (Cons p ps)
  then obtain s1 where "run_op p s = Inr s1" "cache_inv s1" "cache_live s1" "cached s1 = abs_op p (cached s)"
    using run_op_simulates [of s p] by (auto simp: simulates_def)
  with Cons.IH [of s1] Cons.prems(3) show ?case by simp
qed (simp add: simulates_same)

lemma init_ok:
  assumes "g_process_cache s = None" "cache_inv s" "linx_process_cache_init pl s hs = Inr (0, s', hs')"
  shows "cache_inv s' \<and> cache_live s' \<and> cached s' = Map.empty"
  using assms
  by (auto simp: linx_process_cache_init_def cache_inv_def cache_live_def table_of_def cached_def lookup_in_def
      fun_eq_iff split: if_splits)

lemma deinit_frees:
  assumes "cache_inv s"
  shows "\<exists>s'. linx_process_cache_deinit s = Inr s' \<and> g_process_cache s' = None \<and> dom (info_heap s') = set (info_handed s)"
proof (cases "g_process_cache s")
  case None
  then show ?thesis using assms by (simp add: linx_process_cache_deinit_def cache_inv_def table_of_def blocks_inv_def)
next
  case (Some c)
  then have inv: "blocks_inv (pc_table c) (info_handed s) (info_heap s) (info_next s)"
    using assms by (simp add: cache_inv_def table_of_def)
  then have sub: "set (pc_table c) \<subseteq> dom (info_heap s)" "distinct (pc_table c)" by (auto simp: blocks_inv_def)
  have "dom (\<lambda>a. if a \<in> set (pc_table c) then None else info_heap s a) = set (info_handed s)"
    using inv by (auto simp: blocks_inv_def dom_def split: if_splits)
  then show ?thesis using Some by (simp add: linx_process_cache_deinit_def expire_loop_spec [OF sub])
qed

text \<open>
  C12: the process cache is a map from pids to records, under every interleaving. After a successful
  initialisation, any sequence of critical sections of the update tasks, the monitor, the cleaner and the
  clients runs without touching a freed record, and the cache holds exactly what the abstract operations
  give: an update replaces the record of its pid and keeps its creation time and its exit, the monitor
  marks the processes that are gone, the cleaner and the cleanup drop what has expired. Shutting down
  frees every record but those that \<^verbatim>\<open>linx_process_cache_get\<close> created for its callers.
\<close>

theorem process_cache_refines_map:
  assumes "linx_process_cache_init pl cache_start hs = Inr (0, s0, hs')" "list_all readable ps"
  shows "\<exists>s s'. run_ops ps s0 = Inr s \<and> cached s = fold abs_op ps Map.empty \<and>
    linx_process_cache_deinit s = Inr s' \<and> dom (info_heap s') = set (info_handed s)"
proof -
  have "cache_inv cache_start" by (simp add: cache_inv_def cache_start_def table_of_def blocks_inv_def)
  then have "cache_inv s0 \<and> cache_live s0 \<and> cached s0 = Map.empty"
    using assms(1) by (intro init_ok) (simp_all add: cache_start_def)
  with run_ops_simulates [OF _ _ assms(2), of s0] obtain s
    where "run_ops ps s0 = Inr s" "cache_inv s" "cached s = fold abs_op ps Map.empty"
    by (auto simp: simulates_def)
  with deinit_frees [of s] show ?thesis by blast
qed

definition demo_cache_platform :: cache_platform where
  "demo_cache_platform = \<lparr>cp_table = True, cp_name = True, cp_field = (\<lambda>_. True), cp_cache = True, cp_lock = True,
     cp_pool = True, cp_monitor = True, cp_cleaner = True\<rparr>"

definition demo_files :: proc_files where
  "demo_files = \<lparr>pf_stat = Some (stat_text 7 ''sh'' CHR ''S'' (map int [1..<22])), pf_status = Some ''Uid:'',
     pf_cmdline = None, pf_exe = None, pf_cwd = None\<rparr>"

lemma demo_init: "\<exists>s hs. linx_process_cache_init demo_cache_platform cache_start hm_demo_state = Inr (0, s, hs)"
proof -
  have "map_sum id fst (linx_process_cache_bind_field demo_cache_platform hm_demo_state) = Inr 0" by code_simp
  then show ?thesis
    by (cases "linx_process_cache_bind_field demo_cache_platform hm_demo_state")
      (auto simp: linx_process_cache_init_def cache_start_def demo_cache_platform_def)
qed

lemma demo_create: "\<exists>info. create_process_info True 4096 100 7 demo_files = Inr (Some info) \<and> pi_create_time info = 100"
proof -
  have "map_sum id (map_option pi_create_time) (create_process_info True 4096 100 7 demo_files) = Inr (Some 100)" by code_simp
  then show ?thesis by (cases "create_process_info True 4096 100 7 demo_files") auto
qed

theorem process_cache_refines_map_witness:
  "\<exists>s0 hs s s'. linx_process_cache_init demo_cache_platform cache_start hm_demo_state = Inr (0, s0, hs) \<and>
    run_ops [OpRich (zero_info\<lparr>pi_pid := 9\<rparr>), OpUpdate True 4096 100 7 demo_files 0, OpDelete 9] s0 = Inr s \<and>
    cached s 9 = None \<and> map_option pi_create_time (cached s 7) = Some 100 \<and>
    linx_process_cache_deinit s = Inr s' \<and> dom (info_heap s') = set (info_handed s)"
proof -
  let ?ps = "[OpRich (zero_info\<lparr>pi_pid := 9\<rparr>), OpUpdate True 4096 100 7 demo_files 0, OpDelete 9]"
  obtain s0 hs where i: "linx_process_cache_init demo_cache_platform cache_start hm_demo_state = Inr (0, s0, hs)"
    using demo_init by blast
  obtain info where c: "create_process_info True 4096 100 7 demo_files = Inr (Some info)" "pi_create_time info = 100"
    using demo_create by blast
  have "list_all readable ?ps" using c(1) by simp
  moreover have "fold abs_op ?ps Map.empty 9 = None" "fold abs_op ?ps Map.empty 7 = Some info"
    using c(1) by (simp_all add: put_info_def)
  ultimately show ?thesis using process_cache_refines_map [OF i, of ?ps] i c(2) by auto
qed

section \<open>Records that leave too early\<close>

text \<open>
  The records made from events do not live. \<^verbatim>\<open>rich_execve_exit\<close> never sets \<^verbatim>\<open>start_time\<close>, and the cleaner measures the age of
  such a record from it: whatever its creation time, the first round of the cleaner after 20 seconds
  of the epoch drops it, although the process may be alive and the record a moment old.
\<close>

theorem rich_record_expires_at_once:
  assumes "cache_inv s" "cache_live s" "cached s pid = Some info" "pi_is_rich info" "pi_start_time info = 0"
    and "LINX_PROCESS_CACHE_EXPIRE_TIME < now" "now < 2 ^ 63"
  shows "\<exists>s'. cleaner_thread_func now 0 s = Inr s' \<and> cached s' pid = None"
proof -
  have "(20 :: 64 word) < word_of_int now"
    using assms(6,7) by (simp add: LINX_PROCESS_CACHE_EXPIRE_TIME_def word_less_def word_of_int_inverse uint_word_of_int)
  then have "cleaner_expired now info"
    using assms(4,5) by (simp add: cleaner_expired_def LINX_PROCESS_CACHE_EXPIRE_TIME_def)
  with run_op_simulates [OF assms(1,2), of "OpCleaner now 0"] assms(3) show ?thesis
    by (auto simp: simulates_def drop_expired_def)
qed


definition demo_rich :: linx_process_info where
  "demo_rich = zero_info\<lparr>pi_pid := 7, pi_create_time := 1000, pi_is_alive := True, pi_is_rich := True\<rparr>"

definition demo_cache :: cache_state where
  "demo_cache = \<lparr>g_process_cache = Some \<lparr>pc_table = [0], pc_running = True, pc_tasks = []\<rparr>,
     info_heap = [0 \<mapsto> demo_rich], info_next = 1, info_handed = []\<rparr>"

lemma demo_cache_inv: "cache_inv demo_cache" "cache_live demo_cache" "cached demo_cache 7 = Some demo_rich"
  by (simp_all add: cache_inv_def cache_live_def demo_cache_def table_of_def blocks_inv_def cached_def lookup_in_def demo_rich_def)

theorem rich_record_expires_at_once_witness:
  "\<exists>s'. cleaner_thread_func 1001 0 demo_cache = Inr s' \<and> cached s' 7 = None"
  by (rule rich_record_expires_at_once [OF demo_cache_inv])
    (simp_all add: demo_rich_def zero_info_def LINX_PROCESS_CACHE_EXPIRE_TIME_def)


end
