(* ===== verification/Machine_Status.thy ===== *)
theory Machine_Status
  imports Proc_Files Hash_Map
begin

text \<open>
  The user and the group of the machine (\<^verbatim>\<open>linx_machine_status.c\<close>): their records, how they are filled from the
  password and group files, and the registration of their fields. The databases, the ids of the process and the
  login file are parameters.
\<close>

section \<open>Records\<close>

record user_t =
  us_uid :: int
  us_name :: string
  us_homedir :: string
  us_shell :: string
  us_loginuid :: int
  us_loginname :: string

record group_t =
  gr_gid :: int
  gr_name :: string

record passwd =
  pw_name :: string
  pw_dir :: string
  pw_shell :: string

text \<open>What the operating system answers: \<^verbatim>\<open>getuid\<close>, \<^verbatim>\<open>getgid\<close>, \<^verbatim>\<open>/proc/self/loginuid\<close>, \<^verbatim>\<open>getpwuid\<close> and \<^verbatim>\<open>getgrgid\<close>.\<close>

record machine =
  os_uid :: int
  os_gid :: int
  os_loginuid :: "string option"
  os_passwd :: "int \<Rightarrow> passwd option"
  os_group :: "int \<Rightarrow> group_t option"

definition zero_user :: user_t where
  "zero_user = \<lparr>us_uid = 0, us_name = [], us_homedir = [], us_shell = [], us_loginuid = 0, us_loginname = []\<rparr>"

definition zero_group :: group_t where
  "zero_group = \<lparr>gr_gid = 0, gr_name = []\<rparr>"

section \<open>Filling\<close>

definition get_login_uid :: "string option \<Rightarrow> int" where
  "get_login_uid file =
    (case file of
       None \<Rightarrow> - 1
     | Some s \<Rightarrow> (case scan_num s of None \<Rightarrow> - 1 | Some (v, r) \<Rightarrow> v))"

text \<open>The conversion to the unsigned 32-bit type of user and group ids.\<close>

definition to_uid :: "int \<Rightarrow> int" where
  "to_uid v = v mod 2 ^ 32"

text \<open>\<^verbatim>\<open>strncpy\<close> into an array of \<open>n\<close> bytes whose last byte is then cleared.\<close>

definition fit :: "nat \<Rightarrow> string \<Rightarrow> string" where
  "fit n s = take (n - 1) s"

definition get_current_user :: "machine \<Rightarrow> user_t" where
  "get_current_user w =
    (let uid = os_uid w;
         loginuid = get_login_uid (os_loginuid w);
         login = (if loginuid \<ge> 0 then loginuid else uid);
         (nm, dir, sh) = (case os_passwd w uid of
             Some pw \<Rightarrow> (fit 32 (pw_name pw), fit 256 (pw_dir pw), fit 32 (pw_shell pw))
           | None \<Rightarrow> ([], [], []))
     in \<lparr>us_uid = uid, us_name = nm, us_homedir = dir, us_shell = sh, us_loginuid = login,
         us_loginname = (case os_passwd w (to_uid login) of Some pw \<Rightarrow> fit 32 (pw_name pw) | None \<Rightarrow> [])\<rparr>)"

text \<open>The answer of \<^verbatim>\<open>getgrgid\<close> is read before it is compared with NULL.\<close>

definition get_current_group :: "machine \<Rightarrow> group_t res" where
  "get_current_group w =
    (case os_group w (os_gid w) of
       None \<Rightarrow> Inl NullDeref
     | Some gr \<Rightarrow> Inr \<lparr>gr_gid = gr_gid gr, gr_name = fit 32 (gr_name gr)\<rparr>)"

section \<open>Fields\<close>

definition user_mappings :: "field_mapping list" where
  "user_mappings =
    [\<lparr>fm_field_name = Some ''uid'', fm_offset = 0, fm_type = LINX_FIELD_TYPE_UINT32, fm_size = 4\<rparr>,
     \<lparr>fm_field_name = Some ''name'', fm_offset = 4, fm_type = LINX_FIELD_TYPE_CHARBUF, fm_size = 32\<rparr>,
     \<lparr>fm_field_name = Some ''homedir'', fm_offset = 36, fm_type = LINX_FIELD_TYPE_CHARBUF, fm_size = 256\<rparr>,
     \<lparr>fm_field_name = Some ''shell'', fm_offset = 292, fm_type = LINX_FIELD_TYPE_CHARBUF, fm_size = 32\<rparr>,
     \<lparr>fm_field_name = Some ''loginuid'', fm_offset = 328, fm_type = LINX_FIELD_TYPE_INT64, fm_size = 8\<rparr>,
     \<lparr>fm_field_name = Some ''loginname'', fm_offset = 336, fm_type = LINX_FIELD_TYPE_CHARBUF, fm_size = 32\<rparr>]"

definition group_mappings :: "field_mapping list" where
  "group_mappings =
    [\<lparr>fm_field_name = Some ''gid'', fm_offset = 0, fm_type = LINX_FIELD_TYPE_UINT32, fm_size = 4\<rparr>,
     \<lparr>fm_field_name = Some ''name'', fm_offset = 4, fm_type = LINX_FIELD_TYPE_CHARBUF, fm_size = 32\<rparr>]"

text \<open>The allocations of a registration: the table, its name, its fields.\<close>

record bind_alloc =
  ba_table :: bool
  ba_name :: bool
  ba_field :: "nat \<Rightarrow> bool"

definition bind_batch :: "bind_alloc \<Rightarrow> string \<Rightarrow> field_mapping list \<Rightarrow> hash_state \<Rightarrow> (int \<times> hash_state) res" where
  "bind_batch al tn mps hs =
    linx_hash_map_add_field_batch (ba_table al) (ba_name al) (ba_field al) (Some tn) (Some mps) hs"

definition bind_user_field :: "bind_alloc \<Rightarrow> hash_state \<Rightarrow> (int \<times> hash_state) res" where
  "bind_user_field al hs = bind_batch al ''user'' user_mappings hs"

definition bind_group_field :: "bind_alloc \<Rightarrow> hash_state \<Rightarrow> (int \<times> hash_state) res" where
  "bind_group_field al hs =
    map_sum id (\<lambda>(ret, hs). (if ret \<noteq> 0 then - 1 else ret, hs)) (bind_batch al ''group'' group_mappings hs)"

definition linx_machine_status_bind_field :: "bind_alloc \<Rightarrow> bind_alloc \<Rightarrow> hash_state \<Rightarrow> (int \<times> hash_state) res" where
  "linx_machine_status_bind_field alu alg hs =
    res_bind (bind_user_field alu hs) (\<lambda>(ret, hs). if ret \<noteq> 0 then Inr (ret, hs) else bind_group_field alg hs)"

text \<open>Return code, the two static records and the field map.\<close>

definition linx_machine_status_init ::
  "bind_alloc \<Rightarrow> bind_alloc \<Rightarrow> machine \<Rightarrow> user_t \<times> group_t \<Rightarrow> hash_state \<Rightarrow> (int \<times> (user_t \<times> group_t) \<times> hash_state) res" where
  "linx_machine_status_init alu alg w ug hs =
    res_bind (linx_machine_status_bind_field alu alg hs) (\<lambda>(ret, hs).
      if ret \<noteq> 0 then Inr (ret, ug, hs)
      else map_sum id (\<lambda>g. (ret, (get_current_user w, g), hs)) (get_current_group w))"

end
