(* ===== verification/Byte_Memory.thy ===== *)
theory Byte_Memory
  imports Linx_Prelude
begin

text \<open>
  Memory as the matchers and the formatter see it: a list of live objects, each a base address
  with its bytes. A read names an address; it is a fault unless the address lies inside an object
  and the object has enough bytes after it. Multi-byte values are little-endian. Character buffers
  that code writes to are lists with explicit NUL characters.
\<close>

section \<open>Reading\<close>

type_synonym byte_heap = "(64 word \<times> 8 word list) list"

definition in_block :: "64 word \<Rightarrow> 64 word \<times> 8 word list \<Rightarrow> bool" where
  "in_block p blk \<longleftrightarrow> unat (p - fst blk) < length (snd blk)"

definition mem_at :: "byte_heap \<Rightarrow> 64 word \<Rightarrow> 8 word list res" where
  "mem_at h p =
    (if p = 0 then Inl NullDeref
     else case find (in_block p) h of
            None \<Rightarrow> Inl OutOfBounds
          | Some blk \<Rightarrow> Inr (drop (unat (p - fst blk)) (snd blk)))"

definition read_bytes :: "nat \<Rightarrow> byte_heap \<Rightarrow> 64 word \<Rightarrow> 8 word list res" where
  "read_bytes n h p =
    res_bind (mem_at h p) (\<lambda>bs. if length bs < n then Inl OutOfBounds else Inr (take n bs))"

fun le_val :: "8 word list \<Rightarrow> int" where
  "le_val [] = 0"
| "le_val (b # bs) = uint b + 256 * le_val bs"

definition read_u64 :: "byte_heap \<Rightarrow> 64 word \<Rightarrow> 64 word res" where
  "read_u64 h p = map_sum id (\<lambda>bs. word_of_int (le_val bs)) (read_bytes 8 h p)"

definition byte_char :: "8 word \<Rightarrow> char" where
  "byte_char b = char_of (unat b)"

definition read_cstr :: "byte_heap \<Rightarrow> 64 word \<Rightarrow> string res" where
  "read_cstr h p =
    res_bind (mem_at h p) (\<lambda>bs.
      if 0 \<in> set bs then Inr (map byte_char (takeWhile (\<lambda>b. b \<noteq> 0) bs)) else Inl Unterminated)"

fun bytes_le :: "nat \<Rightarrow> int \<Rightarrow> 8 word list" where
  "bytes_le 0 v = []"
| "bytes_le (Suc n) v = word_of_int (v mod 256) # bytes_le n (v div 256)"

definition cstr_bytes :: "string \<Rightarrow> 8 word list" where
  "cstr_bytes s = map (\<lambda>c. word_of_nat (of_char c)) s @ [0]"

lemma length_bytes_le [simp]: "length (bytes_le n v) = n"
  by (induction n arbitrary: v) auto

lemma le_val_bytes_le: "0 \<le> v \<Longrightarrow> v < 256 ^ n \<Longrightarrow> le_val (bytes_le n v) = v"
proof (induction n arbitrary: v)
  case (Suc n)
  have "v div 256 < 256 ^ n" using Suc.prems by (simp add: div_less_iff_less_mult mult.commute)
  with Suc have "le_val (bytes_le n (v div 256)) = v div 256" by (simp add: pos_imp_zdiv_nonneg_iff)
  moreover have "uint (word_of_int (v mod 256) :: 8 word) = v mod 256" by (simp add: uint_word_of_int)
  ultimately show ?case by simp
qed simp

lemma le_val_bounds: "0 \<le> le_val bs \<and> le_val bs < 256 ^ length bs"
proof (induction bs)
  case (Cons b bs)
  have "uint b < 256" using uint_bounded [of b] by simp
  with Cons show ?case by auto
qed simp

lemma mem_at_head: "p \<noteq> 0 \<Longrightarrow> bs \<noteq> [] \<Longrightarrow> mem_at ((p, bs) # h) p = Inr bs"
  by (simp add: mem_at_def in_block_def)

section \<open>Character buffers\<close>

definition NUL :: char where "NUL = CHR 0x00"

definition cstr_of :: "char list \<Rightarrow> string" where
  "cstr_of buf = takeWhile (\<lambda>c. c \<noteq> NUL) buf"

definition write_at :: "nat \<Rightarrow> string \<Rightarrow> char list \<Rightarrow> char list" where
  "write_at k s buf = take k buf @ s @ drop (k + length s) buf"

text \<open>\<open>strncat_at k s buf\<close> is \<^verbatim>\<open>strncat(buf + k, s, strlen(s))\<close> on an array: find the first NUL from \<open>k\<close>
  on and write \<open>s\<close> and a NUL there.\<close>

definition strncat_at :: "nat \<Rightarrow> string \<Rightarrow> char list \<Rightarrow> char list res" where
  "strncat_at k s buf =
    (if k > length buf \<or> NUL \<notin> set (drop k buf) then Inl OutOfBounds
     else
       (let e = k + length (cstr_of (drop k buf))
        in if e + length s + 1 > length buf then Inl OutOfBounds
           else Inr (write_at e (s @ [NUL]) buf)))"

lemma length_write_at [simp]: "k + length s \<le> length buf \<Longrightarrow> length (write_at k s buf) = length buf"
  by (simp add: write_at_def)

lemma cstr_of_append: "NUL \<notin> set s \<Longrightarrow> cstr_of (s @ NUL # t) = s"
  by (induction s) (auto simp: cstr_of_def)

lemma cstr_of_split:
  assumes "NUL \<in> set buf"
  shows "\<exists>t. buf = cstr_of buf @ NUL # t"
proof -
  have "dropWhile (\<lambda>c. c \<noteq> NUL) buf \<noteq> []" using assms by (auto simp: dropWhile_eq_Nil_conv)
  moreover from this have "hd (dropWhile (\<lambda>c. c \<noteq> NUL) buf) = NUL" using hd_dropWhile by blast
  ultimately obtain t where "dropWhile (\<lambda>c. c \<noteq> NUL) buf = NUL # t"
    by (cases "dropWhile (\<lambda>c. c \<noteq> NUL) buf") auto
  then have "buf = cstr_of buf @ NUL # t"
    using takeWhile_dropWhile_id [of "\<lambda>c. c \<noteq> NUL" buf] by (simp add: cstr_of_def)
  then show ?thesis by blast
qed

text \<open>Appending at the end of the text.\<close>

lemma strncat_at_end:
  assumes "NUL \<in> set buf" "NUL \<notin> set s" "length (cstr_of buf) + length s < length buf"
  shows "\<exists>buf'. strncat_at (length (cstr_of buf)) s buf = Inr buf' \<and> cstr_of buf' = cstr_of buf @ s \<and>
    length buf' = length buf \<and> NUL \<in> set buf'"
proof -
  obtain x t where b: "buf = x @ NUL # t" "cstr_of buf = x" using cstr_of_split [OF assms(1)] by metis
  have n: "NUL \<notin> set x" unfolding b(2) [symmetric] by (auto simp: cstr_of_def dest: set_takeWhileD)
  have len: "length s \<le> length t" using assms(3) unfolding b(2) unfolding b(1) by simp
  have "strncat_at (length x) s buf = Inr (x @ s @ NUL # drop (length s) t)"
    using len unfolding b(1) by (simp add: strncat_at_def cstr_of_def write_at_def)
  moreover have "cstr_of (x @ s @ NUL # drop (length s) t) = x @ s"
    using cstr_of_append [of "x @ s" "drop (length s) t"] n assms(2) by simp
  moreover have "length (x @ s @ NUL # drop (length s) t) = length buf" using len unfolding b(1) by simp
  ultimately show ?thesis using b(2) by simp
qed

end
