(* ===== verification/Event_Rich.thy ===== *)
theory Event_Rich
  imports Process_Cache Machine_Status Byte_Memory
begin

text \<open>
  The enrichment of an event (\<^verbatim>\<open>linx_event_rich.c\<close>): the static record \<^verbatim>\<open>evt\<close> that the rules read, how an event of the
  engine fills it, and the base addresses that the field map receives for every event. The password file, the time,
  the contents of \<^verbatim>\<open>/proc\<close> and the outcomes of allocations are parameters.
\<close>

section \<open>Records\<close>

text \<open>The part of \<^verbatim>\<open>linx_event_t\<close> that is read, with the address of the record; its parameters follow it in memory.\<close>

record linx_event =
  le_addr :: ptr
  le_pid :: "64 word"
  le_ppid :: "64 word"
  le_time :: "64 word"
  le_res :: "64 word"
  le_type :: nat
  le_comm :: string
  le_cmdline :: string
  le_params_size :: "nat \<Rightarrow> 64 word"

definition LINX_EVENT_HEADER_SIZE :: "64 word" where "LINX_EVENT_HEADER_SIZE = 4112"

text \<open>What a pointer of \<^verbatim>\<open>arg.data\<close> can be: NULL, an address inside an event, or a string of \<^verbatim>\<open>strdup\<close>.\<close>

datatype arg_slot = SlotNull | SlotData ptr | SlotStr string

record event_t =
  e_num :: nat
  e_time :: string
  e_type :: string
  e_args :: ptr
  e_rawarg :: "nat \<Rightarrow> arg_slot"
  e_arg :: "nat \<Rightarrow> arg_slot"
  e_res :: string
  e_rawres :: int
  e_failed :: bool
  e_dir :: string

definition zero_evt :: event_t where
  "zero_evt = \<lparr>e_num = 0, e_time = [], e_type = [], e_args = 0, e_rawarg = (\<lambda>_. SlotNull), e_arg = (\<lambda>_. SlotNull),
     e_res = [], e_rawres = 0, e_failed = False, e_dir = []\<rparr>"

text \<open>The platform of one event. \<open>rw_call i\<close> belongs to the call of \<^verbatim>\<open>linx_process_cache_get\<close> for parameter \<open>i\<close>, and
  \<open>rw_call 32\<close> to the one of \<^verbatim>\<open>update_field_base\<close>; \<open>rw_strftime\<close> is the text of \<^verbatim>\<open>strftime\<close> for a local time.\<close>

record get_call =
  gc_alloc :: bool
  gc_now :: int
  gc_files :: proc_files

record rich_world =
  rw_strdup :: "nat \<Rightarrow> bool"
  rw_passwd :: "int \<Rightarrow> passwd option"
  rw_pagesize :: nat
  rw_call :: "nat \<Rightarrow> get_call"
  rw_strftime :: "int \<Rightarrow> string"
  rw_malloc :: bool
  rw_now :: int
  rw_evt_addr :: ptr
  rw_info_addr :: "nat \<Rightarrow> ptr"
  rw_user_addr :: ptr
  rw_group_addr :: ptr

definition cache_get :: "rich_world \<Rightarrow> nat \<Rightarrow> int \<Rightarrow> cache_state \<Rightarrow> (nat option \<times> cache_state) res" where
  "cache_get w i pid cs =
    linx_process_cache_get (gc_alloc (rw_call w i)) (rw_pagesize w) (gc_now (rw_call w i)) pid (gc_files (rw_call w i)) cs"

section \<open>The field map\<close>

definition offset_fd :: "64 word" where "offset_fd = 632"

definition update_field_base ::
  "rich_world \<Rightarrow> int \<Rightarrow> cache_state \<Rightarrow> hash_state \<Rightarrow> (int \<times> cache_state \<times> hash_state) res" where
  "update_field_base w pid cs hs =
    res_bind (cache_get w 32 pid cs) (\<lambda>(info, cs).
      let tabs =
        [\<lparr>fu_table_name = Some ''evt'', fu_base_addr = rw_evt_addr w\<rparr>,
         \<lparr>fu_table_name = Some ''fd'', fu_base_addr = rw_evt_addr w + offset_fd\<rparr>,
         \<lparr>fu_table_name = Some ''proc'', fu_base_addr = (case info of None \<Rightarrow> 0 | Some a \<Rightarrow> rw_info_addr w a)\<rparr>,
         \<lparr>fu_table_name = Some ''user'', fu_base_addr = rw_user_addr w\<rparr>,
         \<lparr>fu_table_name = Some ''group'', fu_base_addr = rw_group_addr w\<rparr>];
        (ret, hs) = linx_hash_map_update_tables_base (Some tabs) hs
      in Inr (ret, cs, hs))"

definition evt_mappings :: "field_mapping list" where
  "evt_mappings =
    [\<lparr>fm_field_name = Some ''num'', fm_offset = 0, fm_type = LINX_FIELD_TYPE_UINT64, fm_size = 8\<rparr>,
     \<lparr>fm_field_name = Some ''time'', fm_offset = 8, fm_type = LINX_FIELD_TYPE_CHARBUF, fm_size = 64\<rparr>,
     \<lparr>fm_field_name = Some ''type'', fm_offset = 72, fm_type = LINX_FIELD_TYPE_CHARBUF_ARRAY, fm_size = 8\<rparr>,
     \<lparr>fm_field_name = Some ''args'', fm_offset = 80, fm_type = LINX_FIELD_TYPE_CHARBUF, fm_size = 8\<rparr>,
     \<lparr>fm_field_name = Some ''rawarg'', fm_offset = 88, fm_type = LINX_FIELD_TYPE_STRUCT, fm_size = 256\<rparr>,
     \<lparr>fm_field_name = Some ''arg'', fm_offset = 344, fm_type = LINX_FIELD_TYPE_STRUCT, fm_size = 256\<rparr>,
     \<lparr>fm_field_name = Some ''res'', fm_offset = 600, fm_type = LINX_FIELD_TYPE_CHARBUF, fm_size = 16\<rparr>,
     \<lparr>fm_field_name = Some ''rawres'', fm_offset = 616, fm_type = LINX_FIELD_TYPE_CHARBUF, fm_size = 8\<rparr>,
     \<lparr>fm_field_name = Some ''failed'', fm_offset = 624, fm_type = LINX_FIELD_TYPE_BOOL, fm_size = 1\<rparr>,
     \<lparr>fm_field_name = Some ''dir'', fm_offset = 625, fm_type = LINX_FIELD_TYPE_CHARBUF, fm_size = 1\<rparr>]"

definition bind_field_evt :: "bind_alloc \<Rightarrow> hash_state \<Rightarrow> (int \<times> hash_state) res" where
  "bind_field_evt al hs =
    map_sum id (\<lambda>(ret, hs). (if ret \<noteq> 0 then - 1 else ret, hs)) (bind_batch al ''evt'' evt_mappings hs)"

definition linx_event_rich_bind_field :: "bind_alloc \<Rightarrow> hash_state \<Rightarrow> (int \<times> hash_state) res" where
  "linx_event_rich_bind_field al hs = bind_field_evt al hs"

definition linx_event_rich_init :: "bind_alloc \<Rightarrow> hash_state \<Rightarrow> (int \<times> hash_state) res" where
  "linx_event_rich_init al hs = linx_event_rich_bind_field al hs"

section \<open>Parameters\<close>

definition param_type :: "linx_event_table \<Rightarrow> nat \<Rightarrow> linx_field_type" where
  "param_type row i = (if i < length (params row) then snd (params row ! i) else LINX_FIELD_TYPE_UNKNOWN)"

definition set_slot :: "nat \<Rightarrow> arg_slot \<Rightarrow> event_t \<Rightarrow> event_t" where
  "set_slot i v e = e\<lparr>e_arg := (e_arg e)(i := v), e_rawarg := (e_rawarg e)(i := v)\<rparr>"

text \<open>\<^verbatim>\<open>free\<close> accepts NULL and the start of a block; an address inside an event is neither.\<close>

fun free_slot :: "arg_slot \<Rightarrow> unit res" where
  "free_slot SlotNull = Inr ()"
| "free_slot (SlotStr s) = Inr ()"
| "free_slot (SlotData p) = Inl BadFree"

fun clean_loop :: "linx_event_table \<Rightarrow> nat list \<Rightarrow> event_t \<Rightarrow> event_t res" where
  "clean_loop row [] e = Inr e"
| "clean_loop row (i # is) e =
     (if param_type row i = LINX_FIELD_TYPE_UID \<or> param_type row i = LINX_FIELD_TYPE_PID
      then res_bind (free_slot (e_arg e i)) (\<lambda>_. clean_loop row is (set_slot i SlotNull e))
      else clean_loop row is e)"

definition rich_event_clean :: "linx_event \<Rightarrow> event_t \<Rightarrow> event_t res" where
  "rich_event_clean ev e =
    res_bind (g_linx_event_table (le_type ev)) (\<lambda>row. clean_loop row [0..<nparams row] e)"

definition strdup_slot :: "bool \<Rightarrow> string \<Rightarrow> arg_slot" where
  "strdup_slot ok s = (if ok then SlotStr s else SlotNull)"

definition read_u32 :: "byte_heap \<Rightarrow> ptr \<Rightarrow> int res" where
  "read_u32 h p = map_sum id le_val (read_bytes 4 h p)"

text \<open>The value of one parameter at address \<open>p\<close>: the name of a user, the command of a process, or the address.\<close>

definition arg_value ::
  "rich_world \<Rightarrow> byte_heap \<Rightarrow> linx_field_type \<Rightarrow> nat \<Rightarrow> ptr \<Rightarrow> cache_state \<Rightarrow> (arg_slot \<times> cache_state) res" where
  "arg_value w h ty i p cs =
    (if ty = LINX_FIELD_TYPE_UID then
       map_sum id (\<lambda>uid. (strdup_slot (rw_strdup w i) (case rw_passwd w uid of Some pw \<Rightarrow> pw_name pw | None \<Rightarrow> ''unknown''), cs))
         (read_u32 h p)
     else if ty = LINX_FIELD_TYPE_PID then
       res_bind (read_u64 h p) (\<lambda>v.
       res_bind (cache_get w i (to_int (sint v)) cs) (\<lambda>(info, cs).
         (case info of
            None \<Rightarrow> Inr (strdup_slot (rw_strdup w i) ''unknown'', cs)
          | Some a \<Rightarrow>
              (case info_heap cs a of
                 None \<Rightarrow> Inl UseAfterFree
               | Some pr \<Rightarrow> Inr (strdup_slot (rw_strdup w i) (pi_comm pr), cs)))))
     else Inr (SlotData p, cs))"

fun args_loop ::
  "rich_world \<Rightarrow> byte_heap \<Rightarrow> linx_event \<Rightarrow> linx_event_table \<Rightarrow> ptr \<Rightarrow> nat list \<Rightarrow> event_t \<Rightarrow> cache_state \<Rightarrow>
   (event_t \<times> cache_state) res" where
  "args_loop w h ev row p [] e cs = Inr (e, cs)"
| "args_loop w h ev row p (i # is) e cs =
     res_bind (arg_value w h (param_type row i) i p cs) (\<lambda>(v, cs).
       args_loop w h ev row (p + le_params_size ev i) is (set_slot i v e) cs)"

definition rich_event_args ::
  "rich_world \<Rightarrow> byte_heap \<Rightarrow> linx_event \<Rightarrow> event_t \<Rightarrow> cache_state \<Rightarrow> (event_t \<times> cache_state) res" where
  "rich_event_args w h ev e cs =
    (let base = le_addr ev + LINX_EVENT_HEADER_SIZE
     in res_bind (g_linx_event_table (le_type ev)) (\<lambda>row.
          args_loop w h ev row base [0..<nparams row] (e\<lparr>e_args := base\<rparr>) cs))"

section \<open>An event\<close>

definition rich_execve_exit :: "rich_world \<Rightarrow> linx_event \<Rightarrow> cache_state \<Rightarrow> cache_state res" where
  "rich_execve_exit w ev cs =
    (if \<not> rw_malloc w then Inr cs
     else
       (let info = zero_info\<lparr>pi_pid := to_int (uint (le_pid ev)), pi_ppid := to_int (uint (le_ppid ev)),
              pi_create_time := rw_now w, pi_update_time := rw_now w, pi_is_alive := True, pi_is_rich := True,
              pi_state := LINX_PROCESS_STATE_RUNNING, pi_name := le_comm ev, pi_comm := le_comm ev,
              pi_cmdline := le_cmdline ev\<rparr>;
            (a, cs) = alloc_info info cs
        in map_sum id snd (linx_process_cache_update (Some a) cs)))"

text \<open>\<^verbatim>\<open>strftime\<close> into the 64 bytes of \<^verbatim>\<open>evt.time\<close> (it returns 0 when the text does not fit), then \<^verbatim>\<open>snprintf\<close> of the
  nanoseconds behind it.\<close>

definition pad9 :: "nat \<Rightarrow> string" where
  "pad9 n = replicate (9 - length (show_nat n)) CHR ''0'' @ show_nat n"

definition event_time :: "rich_world \<Rightarrow> 64 word \<Rightarrow> string" where
  "event_time w ns =
    (let remaining_ns = unat ns mod 1000000000;
         stamp = rw_strftime w (int (unat ns div 1000000000));
         written = (if length stamp < 64 then stamp else [])
     in written @ take (63 - length written) (CHR ''.'' # pad9 remaining_ns))"

definition event_heading :: "rich_world \<Rightarrow> linx_event \<Rightarrow> linx_event_table \<Rightarrow> event_t \<Rightarrow> event_t" where
  "event_heading w ev row e =
    e\<lparr>e_time := event_time w (le_time ev), e_num := le_type ev,
      e_dir := (if odd (le_type ev) then ''<'' else ''>''), e_type := evt_name row, e_rawres := sint (le_res ev),
      e_failed := (sint (le_res ev) \<noteq> 0), e_res := (if sint (le_res ev) = 0 then ''SUCCESS'' else ''ERRNO'')\<rparr>"

definition linx_event_rich ::
  "rich_world \<Rightarrow> byte_heap \<Rightarrow> linx_event \<Rightarrow> event_t \<times> cache_state \<times> hash_state \<Rightarrow> (int \<times> event_t \<times> cache_state \<times> hash_state) res" where
  "linx_event_rich w h ev st =
    (let (e, cs, hs) = st
     in res_bind (rich_event_clean ev e) (\<lambda>e.
        res_bind (rich_event_args w h ev e cs) (\<lambda>(e, cs).
        res_bind (if le_type ev = LINX_EVENT_TYPE_EXECVE_X \<and> le_comm ev = ''find''
                  then rich_execve_exit w ev cs else Inr cs) (\<lambda>cs.
        res_bind (g_linx_event_table (le_type ev)) (\<lambda>row.
        res_bind (update_field_base w (to_int (uint (le_pid ev))) cs hs) (\<lambda>(ret, cs, hs).
          Inr (ret, event_heading w ev row e, cs, hs)))))))"

text \<open>The events of the loop in \<^verbatim>\<open>linx_apd.c\<close>, which ignores the return code.\<close>

fun rich_run ::
  "(rich_world \<times> byte_heap \<times> linx_event) list \<Rightarrow> event_t \<times> cache_state \<times> hash_state \<Rightarrow> (event_t \<times> cache_state \<times> hash_state) res" where
  "rich_run [] st = Inr st"
| "rich_run ((w, h, ev) # evs) st = res_bind (linx_event_rich w h ev st) (\<lambda>(ret, st). rich_run evs st)"

section \<open>Slices\<close>

definition slot_addr :: "linx_event \<Rightarrow> nat \<Rightarrow> ptr" where
  "slot_addr ev i = le_addr ev + LINX_EVENT_HEADER_SIZE + sum_list (map (le_params_size ev) [0..<i])"

definition is_text_type :: "linx_field_type \<Rightarrow> bool" where
  "is_text_type ty \<longleftrightarrow> ty = LINX_FIELD_TYPE_UID \<or> ty = LINX_FIELD_TYPE_PID"

text \<open>What a slot shows of parameter \<open>i\<close>, given the process records before and after its evaluation.\<close>

definition slot_shows :: "rich_world \<Rightarrow> byte_heap \<Rightarrow> linx_event \<Rightarrow> linx_field_type \<Rightarrow> nat \<Rightarrow> arg_slot \<Rightarrow> bool" where
  "slot_shows w h ev ty i v \<longleftrightarrow> (\<exists>cs cs'. arg_value w h ty i (slot_addr ev i) cs = Inr (v, cs'))"

lemma set_slot_sel [simp]:
  "e_arg (set_slot i v e) = (e_arg e)(i := v)" "e_rawarg (set_slot i v e) = (e_rawarg e)(i := v)"
  by (simp_all add: set_slot_def)

lemma clean_loop_bad_free:
  assumes "i \<in> set is" "distinct is" "is_text_type (param_type row i)" "e_arg e i = SlotData p"
  shows "clean_loop row is e = Inl BadFree"
  using assms
proof (induction "is" arbitrary: e)
  case (Cons j js)
  show ?case
  proof (cases "i = j")
    case True
    with Cons.prems show ?thesis by (auto simp: is_text_type_def)
  next
    case False
    with Cons.prems have "clean_loop row js (set_slot j SlotNull e) = Inl BadFree" "clean_loop row js e = Inl BadFree"
      by (auto intro: Cons.IH)
    then show ?thesis by (cases "e_arg e j") simp_all
  qed
qed simp

lemma clean_loop_slots:
  "clean_loop row is e = Inr e' \<Longrightarrow> i \<notin> set is \<Longrightarrow> e_arg e' i = e_arg e i"
  by (induction row "is" e rule: clean_loop.induct) (auto split: if_splits)

lemma args_loop_slots:
  assumes "args_loop w h ev row (slot_addr ev m) [m..<n] e cs = Inr (e', cs')"
  shows "(\<forall>i. m \<le> i \<and> i < n \<longrightarrow> slot_shows w h ev (param_type row i) i (e_arg e' i) \<and> e_rawarg e' i = e_arg e' i) \<and>
    (\<forall>i. i < m \<or> n \<le> i \<longrightarrow> e_arg e' i = e_arg e i \<and> e_rawarg e' i = e_rawarg e i)"
  using assms
proof (induction "n - m" arbitrary: m e cs)
  case 0
  then show ?case by auto
next
  case (Suc k)
  then have mn: "m < n" by simp
  obtain v cs1 where v: "arg_value w h (param_type row m) m (slot_addr ev m) cs = Inr (v, cs1)"
    "args_loop w h ev row (slot_addr ev m + le_params_size ev m) [Suc m..<n] (set_slot m v e) cs1 = Inr (e', cs')"
    using Suc.prems mn by (auto simp: upt_conv_Cons)
  have "slot_addr ev m + le_params_size ev m = slot_addr ev (Suc m)" by (simp add: slot_addr_def)
  with v(2) Suc.hyps have IH:
    "(\<forall>i. Suc m \<le> i \<and> i < n \<longrightarrow> slot_shows w h ev (param_type row i) i (e_arg e' i) \<and> e_rawarg e' i = e_arg e' i) \<and>
     (\<forall>i. i < Suc m \<or> n \<le> i \<longrightarrow> e_arg e' i = e_arg (set_slot m v e) i \<and> e_rawarg e' i = e_rawarg (set_slot m v e) i)"
    by (intro Suc.hyps(1) [of "Suc m"]) simp_all
  have "slot_shows w h ev (param_type row m) m v" using v(1) unfolding slot_shows_def by blast
  moreover have "m \<le> i \<longleftrightarrow> i = m \<or> Suc m \<le> i" for i by auto
  ultimately show ?case using IH mn by auto
qed

lemma event_rich_args:
  assumes "linx_event_rich w h ev (e, cs, hs) = Inr (ret, e', cs', hs')"
  obtains row e1 e2 cs1 where "g_linx_event_table (le_type ev) = Inr row" "rich_event_clean ev e = Inr e1"
    "args_loop w h ev row (slot_addr ev 0) [0..<nparams row] (e1\<lparr>e_args := slot_addr ev 0\<rparr>) cs = Inr (e2, cs1)"
    "e' = event_heading w ev row e2"
proof -
  obtain e1 where e1: "rich_event_clean ev e = Inr e1" using assms by (auto simp: linx_event_rich_def)
  then obtain row where row: "g_linx_event_table (le_type ev) = Inr row" by (auto simp: rich_event_clean_def)
  obtain e2 cs1 where "rich_event_args w h ev e1 cs = Inr (e2, cs1)" "e' = event_heading w ev row e2"
    using assms e1 row by (auto simp: linx_event_rich_def)
  with row e1 that [of row e1 e2 cs1] show thesis by (simp add: rich_event_args_def slot_addr_def Let_def)
qed

lemma heading_slots [simp]: "e_arg (event_heading w ev row e) = e_arg e" "e_rawarg (event_heading w ev row e) = e_rawarg e"
  by (simp_all add: event_heading_def)

text \<open>
  After an event of a known type, the record \<^verbatim>\<open>evt\<close> has its number, the name of the system call, its
  direction and its outcome; slot \<open>i\<close> of \<^verbatim>\<open>arg\<close> and of \<^verbatim>\<open>rawarg\<close> hold the same pointer for every parameter of the event table:
  the name of the user or the command of the process whose id lies at the sum of the sizes of the parameters before it,
  and for every other type the address itself. The slots of the further parameters are those of earlier events.
\<close>

theorem event_rich_args_and_heading:
  assumes "linx_event_rich w h ev (e, cs, hs) = Inr (ret, e', cs', hs')"
  shows "\<exists>row. g_linx_event_table (le_type ev) = Inr row \<and>
    e_num e' = le_type ev \<and> e_type e' = evt_name row \<and> (e_dir e' = ''<'') = odd (le_type ev) \<and>
    e_failed e' = (e_rawres e' \<noteq> 0) \<and> (e_res e' = ''SUCCESS'') = (\<not> e_failed e') \<and>
    (\<forall>i < nparams row. e_rawarg e' i = e_arg e' i \<and> slot_shows w h ev (snd (params row ! i)) i (e_arg e' i)) \<and>
    (\<forall>i \<ge> nparams row. e_arg e' i = e_arg e i)"
proof -
  obtain row e1 e2 cs1 where r: "g_linx_event_table (le_type ev) = Inr row" "rich_event_clean ev e = Inr e1"
    "args_loop w h ev row (slot_addr ev 0) [0..<nparams row] (e1\<lparr>e_args := slot_addr ev 0\<rparr>) cs = Inr (e2, cs1)"
    "e' = event_heading w ev row e2"
    using event_rich_args [OF assms] .
  have ok: "nparams row = length (params row)" using g_linx_event_table_row_ok [OF r(1)] by (simp add: row_ok_def)
  have "\<forall>i < nparams row. e_rawarg e' i = e_arg e' i \<and> slot_shows w h ev (snd (params row ! i)) i (e_arg e' i)"
    using args_loop_slots [OF r(3)] r(4) ok by (auto simp: param_type_def)
  moreover have "\<forall>i \<ge> nparams row. e_arg e' i = e_arg e i"
    using args_loop_slots [OF r(3)] clean_loop_slots [of row "[0..<nparams row]" e e1] r by (auto simp: rich_event_clean_def)
  moreover have "e_num e' = le_type ev" "e_type e' = evt_name row" "(e_dir e' = ''<'') = odd (le_type ev)"
    "e_failed e' = (e_rawres e' \<noteq> 0)" "(e_res e' = ''SUCCESS'') = (\<not> e_failed e')"
    using r(4) by (simp_all add: event_heading_def)
  ultimately show ?thesis using r(1) by blast
qed

section \<open>Pointers left by an earlier event\<close>

lemma event_rich_data_slot:
  assumes "linx_event_rich w h ev (e, cs, hs) = Inr (ret, e', cs', hs')" "g_linx_event_table (le_type ev) = Inr row"
    "i < nparams row" "\<not> is_text_type (snd (params row ! i))"
  shows "e_arg e' i = SlotData (slot_addr ev i)"
proof -
  obtain e1 e2 cs1 where r:
    "args_loop w h ev row (slot_addr ev 0) [0..<nparams row] (e1\<lparr>e_args := slot_addr ev 0\<rparr>) cs = Inr (e2, cs1)"
    "e' = event_heading w ev row e2"
    using event_rich_args [OF assms(1)] assms(2) by (metis Inr_inject)
  have "nparams row = length (params row)" using g_linx_event_table_row_ok [OF assms(2)] by (simp add: row_ok_def)
  with args_loop_slots [OF r(1)] assms(3) have "slot_shows w h ev (snd (params row ! i)) i (e_arg e' i)"
    by (simp add: r(2) param_type_def)
  then show ?thesis using assms(4) by (auto simp: slot_shows_def arg_value_def is_text_type_def)
qed

lemma event_rich_bad_free:
  assumes "g_linx_event_table (le_type ev) = Inr row" "i < nparams row" "is_text_type (snd (params row ! i))"
    "e_arg e i = SlotData p"
  shows "linx_event_rich w h ev (e, cs, hs) = Inl BadFree"
proof -
  have "nparams row = length (params row)" using g_linx_event_table_row_ok [OF assms(1)] by (simp add: row_ok_def)
  with assms have "clean_loop row [0..<nparams row] e = Inl BadFree"
    by (intro clean_loop_bad_free [of i _ row e p]) (simp_all add: param_type_def)
  then show ?thesis using assms(1) by (simp add: linx_event_rich_def rich_event_clean_def)
qed

text \<open>
  C23: the cleaning step goes by the type of the new event, the slots by the type of the old one. When parameter \<open>i\<close> of
  an event is plain data and parameter \<open>i\<close> of the next one is a user or a process, the next event frees an address inside
  the buffer of the first. An \<^verbatim>\<open>openat\<close> exit (its seventh parameter is the inode) followed by an \<^verbatim>\<open>execve\<close> exit (its
  seventh parameter is the login user) is such a pair.
\<close>

theorem event_rich_frees_event_buffer:
  assumes "linx_event_rich w1 h1 ev1 (e, cs, hs) = Inr (ret, st)"
    "g_linx_event_table (le_type ev1) = Inr row1" "i < nparams row1" "\<not> is_text_type (snd (params row1 ! i))"
    "g_linx_event_table (le_type ev2) = Inr row2" "i < nparams row2" "is_text_type (snd (params row2 ! i))"
  shows "linx_event_rich w2 h2 ev2 st = Inl BadFree"
proof -
  obtain e' cs' hs' where st: "st = (e', cs', hs')" by (cases st)
  have "e_arg e' i = SlotData (slot_addr ev1 i)" using assms(1-4) unfolding st by (rule event_rich_data_slot)
  with assms(5-7) show ?thesis unfolding st by (intro event_rich_bad_free)
qed

section \<open>Base addresses\<close>

lemma update_field_base_without_fd:
  assumes "update_field_base w pid cs hs = Inr (ret, cs', hs')" "has_table ''evt'' hs" "\<not> has_table ''fd'' hs"
  shows "ret = - 1 \<and> (\<forall>tn. has_table tn hs' = has_table tn hs) \<and>
    (\<forall>tn. linx_hash_map_get_table_base (Some tn) hs' =
       (if tn = ''evt'' then rw_evt_addr w else linx_hash_map_get_table_base (Some tn) hs))"
proof -
  obtain hs1 where hs1: "linx_hash_map_update_table_base (Some ''evt'') (rw_evt_addr w) hs = (0, hs1)"
    "\<forall>tn. has_table tn hs1 = has_table tn hs"
    "\<forall>tn. linx_hash_map_get_table_base (Some tn) hs1 =
       (if tn = ''evt'' then rw_evt_addr w else linx_hash_map_get_table_base (Some tn) hs)"
    using update_table_base_known [OF assms(2)] by blast
  have "\<exists>m. s_linx_hash_map hs = Some m" using assms(2) by (auto simp: has_table_def)
  moreover have "linx_hash_map_update_table_base (Some ''fd'') b hs1 = (- 1, hs1)" for b
    using hs1(2) assms(3) by (simp add: update_table_base_unknown)
  ultimately have "ret = - 1 \<and> hs' = hs1"
    using assms(1) hs1(1) by (auto simp: update_field_base_def linx_hash_map_update_tables_base_def Let_def)
  with hs1 show ?thesis by blast
qed

lemma event_rich_base:
  assumes "linx_event_rich w h ev (e, cs, hs) = Inr (ret, e', cs', hs')"
  obtains pid cs1 where "update_field_base w pid cs1 hs = Inr (ret, cs', hs')"
  using assms by (auto simp: linx_event_rich_def)

lemma rich_run_without_fd:
  assumes "rich_run evs (e, cs, hs) = Inr (e', cs', hs')" "has_table ''evt'' hs" "\<not> has_table ''fd'' hs"
  shows "(\<forall>tn. has_table tn hs' = has_table tn hs) \<and>
    (\<forall>tn. tn \<noteq> ''evt'' \<longrightarrow> linx_hash_map_get_table_base (Some tn) hs' = linx_hash_map_get_table_base (Some tn) hs)"
  using assms
proof (induction evs "(e, cs, hs)" arbitrary: e cs hs rule: rich_run.induct)
  case (2 w h ev evs)
  obtain ret e1 cs1 hs1 where s1: "linx_event_rich w h ev (e, cs, hs) = Inr (ret, e1, cs1, hs1)"
    "rich_run evs (e1, cs1, hs1) = Inr (e', cs', hs')" using 2(2) by auto
  obtain pid cs2 where "update_field_base w pid cs2 hs = Inr (ret, cs1, hs1)" using event_rich_base [OF s1(1)] .
  from update_field_base_without_fd [OF this 2(3,4)] have k: "\<forall>tn. has_table tn hs1 = has_table tn hs"
    "\<forall>tn. tn \<noteq> ''evt'' \<longrightarrow> linx_hash_map_get_table_base (Some tn) hs1 = linx_hash_map_get_table_base (Some tn) hs" by auto
  have "(\<forall>tn. has_table tn hs' = has_table tn hs1) \<and>
    (\<forall>tn. tn \<noteq> ''evt'' \<longrightarrow> linx_hash_map_get_table_base (Some tn) hs' = linx_hash_map_get_table_base (Some tn) hs1)"
    by (rule "2.hyps" [OF s1(2)]) (use k 2(3,4) in simp_all)
  with k show ?case by simp
qed simp

section \<open>Events without users and processes\<close>

lemma clean_loop_plain: "\<forall>i \<in> set is. \<not> is_text_type (param_type row i) \<Longrightarrow> clean_loop row is e = Inr e"
  by (induction "is") (auto simp: is_text_type_def)

lemma args_loop_plain:
  "\<forall>i \<in> set is. \<not> is_text_type (param_type row i) \<Longrightarrow> \<exists>e'. args_loop w h ev row p is e cs = Inr (e', cs)"
  by (induction "is" arbitrary: p e) (auto simp: is_text_type_def arg_value_def)

lemma plain_event_rich:
  assumes "g_linx_event_table (le_type ev) = Inr row" "list_all (\<lambda>q. \<not> is_text_type (snd q)) (params row)"
    and "le_type ev \<noteq> LINX_EVENT_TYPE_EXECVE_X" "cache_get w 32 (to_int (uint (le_pid ev))) cs = Inr (info, cs')"
  shows "\<exists>ret e' hs'. linx_event_rich w h ev (e, cs, hs) = Inr (ret, event_heading w ev row e', cs', hs')"
proof -
  have p: "\<not> is_text_type (param_type row i)" for i
    using assms(2) by (auto simp: param_type_def list_all_iff is_text_type_def dest: nth_mem)
  obtain e2 where "args_loop w h ev row (le_addr ev + LINX_EVENT_HEADER_SIZE) [0..<nparams row]
      (e\<lparr>e_args := le_addr ev + LINX_EVENT_HEADER_SIZE\<rparr>) cs = Inr (e2, cs)"
    using args_loop_plain p by blast
  moreover have "clean_loop row [0..<nparams row] e = Inr e" using clean_loop_plain p by blast
  ultimately show ?thesis using assms(1,3,4)
    by (simp add: linx_event_rich_def rich_event_clean_def rich_event_args_def update_field_base_def Let_def split_beta) blast
qed

definition demo_world :: rich_world where
  "demo_world = \<lparr>rw_strdup = (\<lambda>_. True), rw_passwd = (\<lambda>_. None), rw_pagesize = 4096,
     rw_call = (\<lambda>_. \<lparr>gc_alloc = False, gc_now = 0, gc_files = demo_files\<rparr>), rw_strftime = (\<lambda>_. ''t''), rw_malloc = True, rw_now = 0,
     rw_evt_addr = 4096, rw_info_addr = (\<lambda>_. 0), rw_user_addr = 16384, rw_group_addr = 20480\<rparr>"

definition demo_openat :: linx_event where
  "demo_openat = \<lparr>le_addr = 65536, le_pid = 7, le_ppid = 1, le_time = 5, le_res = 0, le_type = 515, le_comm = ''cat'',
     le_cmdline = ''cat x'', le_params_size = (\<lambda>_. 8)\<rparr>"

definition demo_openat_row :: linx_event_table where
  "demo_openat_row = event_row ''openat'' 7 [(''fd'', LINX_FIELD_TYPE_INT64), (''dirfd'', LINX_FIELD_TYPE_INT64), (''name'', LINX_FIELD_TYPE_CHARBUF),
      (''flags'', LINX_FIELD_TYPE_INT32), (''mode'', LINX_FIELD_TYPE_UINT32), (''dev'', LINX_FIELD_TYPE_UINT32), (''ino'', LINX_FIELD_TYPE_UINT64)]"

definition demo_execve_row :: linx_event_table where
  "demo_execve_row = event_row ''execve'' 8 [(''exe'', LINX_FIELD_TYPE_CHARBUF), (''vm_size'', LINX_FIELD_TYPE_UINT32), (''vm_rss'', LINX_FIELD_TYPE_UINT32),
      (''comm'', LINX_FIELD_TYPE_CHARBUF), (''tty'', LINX_FIELD_TYPE_UINT32), (''env'', LINX_FIELD_TYPE_BYTEBUF),
      (''loginuid'', LINX_FIELD_TYPE_UID), (''pgid'', LINX_FIELD_TYPE_PID)]"

lemma demo_rows: "g_linx_event_table 515 = Inr demo_openat_row" "g_linx_event_table 119 = Inr demo_execve_row"
  unfolding demo_openat_row_def demo_execve_row_def
  by (rule g_linx_event_table_row [of _ _ event_rows_20], simp add: event_rows_20_def, simp add: event_groups_def)
    (rule g_linx_event_table_row [of _ _ event_rows_4], simp add: event_rows_4_def, simp add: event_groups_def)

lemma demo_openat_sel:
  "le_type demo_openat = 515" "le_time demo_openat = 5" "le_res demo_openat = 0" "le_pid demo_openat = 7"
  by (simp_all add: demo_openat_def)

lemma demo_openat_rich:
  assumes "table_of cs = []"
  shows "\<exists>ret e' hs'. linx_event_rich demo_world h demo_openat (e, cs, hs) = Inr (ret, e', cs, hs') \<and>
    e_num e' = 515 \<and> e_time e' = ''t.000000005'' \<and> e_type e' = ''openat'' \<and> e_res e' = ''SUCCESS'' \<and> \<not> e_failed e' \<and> e_dir e' = ''<''"
proof -
  have "cache_get demo_world 32 (to_int (uint (le_pid demo_openat))) cs = Inr (None, cs)"
    using assms by (auto simp: cache_get_def linx_process_cache_get_def table_of_def demo_world_def create_process_info_def split: option.splits)
  moreover have "list_all (\<lambda>q. \<not> is_text_type (snd q)) (params demo_openat_row)"
    by (simp add: demo_openat_row_def event_row_def is_text_type_def)
  moreover have "g_linx_event_table (le_type demo_openat) = Inr demo_openat_row" "le_type demo_openat \<noteq> LINX_EVENT_TYPE_EXECVE_X"
    by (simp_all add: demo_openat_sel demo_rows LINX_EVENT_TYPE_EXECVE_X_def)
  ultimately obtain ret e' hs' where r: "linx_event_rich demo_world h demo_openat (e, cs, hs) =
      Inr (ret, event_heading demo_world demo_openat demo_openat_row e', cs, hs')"
    using plain_event_rich by blast
  have "event_time demo_world 5 = ''t.000000005''"
  proof -
    have "pad9 5 = ''000000005''" by code_simp
    then show ?thesis by (simp add: event_time_def demo_world_def)
  qed
  then show ?thesis
    by (intro exI [of _ ret] exI [of _ hs'] exI [of _ "event_heading demo_world demo_openat demo_openat_row e'"])
      (simp add: r event_heading_def demo_openat_sel demo_openat_row_def event_row_def)
qed

definition demo_execve :: linx_event where
  "demo_execve = demo_openat\<lparr>le_type := 119\<rparr>"

theorem event_rich_args_and_heading_witness:
  "\<exists>ret e' hs'. linx_event_rich demo_world [] demo_openat (zero_evt, cache_start, hash_map_start) = Inr (ret, e', cache_start, hs') \<and>
    e_arg e' 6 = SlotData (65536 + 4112 + 48) \<and> e_rawarg e' 6 = e_arg e' 6 \<and> e_type e' = ''openat''"
proof -
  obtain ret e' hs' where r: "linx_event_rich demo_world [] demo_openat (zero_evt, cache_start, hash_map_start) = Inr (ret, e', cache_start, hs')"
    using demo_openat_rich [of cache_start "[]" zero_evt hash_map_start] by (auto simp: table_of_def cache_start_def)
  have "slot_shows demo_world [] demo_openat LINX_FIELD_TYPE_UINT64 6 v \<Longrightarrow> v = SlotData (65536 + 4112 + 48)" for v
    by (auto simp: slot_shows_def arg_value_def slot_addr_def demo_openat_def LINX_EVENT_HEADER_SIZE_def upt_rec numeral_nat)
  moreover have "nparams demo_openat_row = 7" "evt_name demo_openat_row = ''openat''"
    "snd (params demo_openat_row ! 6) = LINX_FIELD_TYPE_UINT64" by (simp_all add: demo_openat_row_def event_row_def)
  ultimately have "e_arg e' 6 = SlotData (65536 + 4112 + 48) \<and> e_rawarg e' 6 = e_arg e' 6 \<and> e_type e' = ''openat''"
  proof -
    assume v: "\<And>v. slot_shows demo_world [] demo_openat LINX_FIELD_TYPE_UINT64 6 v \<Longrightarrow> v = SlotData (65536 + 4112 + 48)"
      and d: "nparams demo_openat_row = 7" "evt_name demo_openat_row = ''openat''" "snd (params demo_openat_row ! 6) = LINX_FIELD_TYPE_UINT64"
    obtain row where w: "g_linx_event_table 515 = Inr row" "e_type e' = evt_name row"
      "\<forall>i < nparams row. e_rawarg e' i = e_arg e' i \<and> slot_shows demo_world [] demo_openat (snd (params row ! i)) i (e_arg e' i)"
      using event_rich_args_and_heading [OF r] unfolding demo_openat_sel by blast
    have "row = demo_openat_row" using w(1) demo_rows(1) by simp
    then have six: "e_rawarg e' 6 = e_arg e' 6" "slot_shows demo_world [] demo_openat LINX_FIELD_TYPE_UINT64 6 (e_arg e' 6)"
      using w(3) [rule_format, of 6] d by simp_all
    with v [OF six(2)] w(2) d \<open>row = demo_openat_row\<close> show ?thesis by simp
  qed
  with r show ?thesis by blast
qed

theorem event_rich_frees_event_buffer_witness:
  "\<exists>ret st. linx_event_rich demo_world [] demo_openat (zero_evt, cache_start, hash_map_start) = Inr (ret, st) \<and>
    linx_event_rich demo_world [] demo_execve st = Inl BadFree"
proof -
  obtain ret st where r: "linx_event_rich demo_world [] demo_openat (zero_evt, cache_start, hash_map_start) = Inr (ret, st)"
    using demo_openat_rich [of cache_start "[]" zero_evt hash_map_start] by (auto simp: table_of_def cache_start_def)
  have "g_linx_event_table (le_type demo_openat) = Inr demo_openat_row" by (simp add: demo_openat_sel demo_rows)
  moreover have "g_linx_event_table (le_type demo_execve) = Inr demo_execve_row" by (simp add: demo_execve_def demo_rows)
  ultimately show ?thesis
    using event_rich_frees_event_buffer [OF r, of demo_openat_row 6 demo_execve demo_execve_row demo_world "[]"] r
    by (auto simp: demo_openat_row_def demo_execve_row_def event_row_def is_text_type_def)
qed

end
