(* ===== verification/Output_Match.thy ===== *)
theory Output_Match
  imports Hash_Map Byte_Memory
begin

text \<open>
  Output templates (\<^verbatim>\<open>output_match_func.c\<close>): \<^verbatim>\<open>linx_output_match_compile\<close> cuts a template such as
  \<^verbatim>\<open>file %evt.arg.name opened\<close> into literal and variable segments, \<^verbatim>\<open>linx_output_match_format\<close> renders
  them into a caller's buffer for the current event. Allocations are taken to succeed. \<open>pf\<close> and \<open>pd\<close>
  print the bytes of a \<^verbatim>\<open>float\<close> and of a \<^verbatim>\<open>double\<close>.
\<close>

section \<open>Segments\<close>

datatype segment =
    SEGMENT_LITERAL string
  | SEGMENT_VARIABLE field_result

record linx_output_match =
  segments :: "segment list"
  om_capacity :: nat

definition resize_segments :: "linx_output_match \<Rightarrow> linx_output_match" where
  "resize_segments m = m\<lparr>om_capacity := (if om_capacity m \<noteq> 0 then om_capacity m * 2 else 2)\<rparr>"

definition push_segment :: "segment \<Rightarrow> linx_output_match \<Rightarrow> linx_output_match" where
  "push_segment sg m = m\<lparr>segments := segments m @ [sg]\<rparr>"

definition grow_if_full :: "linx_output_match \<Rightarrow> linx_output_match" where
  "grow_if_full m = (if length (segments m) \<ge> om_capacity m then resize_segments m else m)"

definition add_literal_segment :: "string \<Rightarrow> linx_output_match \<Rightarrow> int \<times> linx_output_match" where
  "add_literal_segment lit m =
    (if lit = [] then (- 1, m) else (0, push_segment (SEGMENT_LITERAL lit) (grow_if_full m)))"

definition add_variable_segment ::
  "hash_state \<Rightarrow> string \<Rightarrow> linx_output_match \<Rightarrow> int \<times> linx_output_match" where
  "add_variable_segment hs var m =
    (let m = grow_if_full m;
         v = fst (linx_hash_map_get_field_by_path True (Some var) hs)
     in if \<not> fr_found v then (- 1, m) else (0, push_segment (SEGMENT_VARIABLE v) m))"

definition var_char :: "char \<Rightarrow> bool" where
  "var_char c \<longleftrightarrow> c \<notin> {CHR '' '', CHR 0x09, CHR 0x0A, CHR 0x0D, CHR '')'', CHR ''(''}"

text \<open>\<open>lit\<close> is the text between \<^verbatim>\<open>start\<close> and \<^verbatim>\<open>current\<close>.\<close>

function compile_loop ::
  "hash_state \<Rightarrow> string \<Rightarrow> string \<Rightarrow> linx_output_match \<Rightarrow> int \<times> linx_output_match" where
  "compile_loop hs lit [] m =
     (if lit \<noteq> [] then
        (let (r, m) = add_literal_segment lit m in if r \<noteq> 0 then (- 1, m) else (0, m))
      else (0, m))"
| "compile_loop hs lit (c # cs) m =
     (if c = CHR ''%'' then
        (let (r, m) = (if lit \<noteq> [] then add_literal_segment lit m else (0, m))
         in if r \<noteq> 0 then (- 1, m)
            else
              (let (r, m) = add_variable_segment hs (takeWhile var_char cs) m
               in if r \<noteq> 0 then (- 1, m) else compile_loop hs [] (dropWhile var_char cs) m))
      else compile_loop hs (lit @ [c]) cs m)"
  by pat_completeness auto

termination
  by (relation "measure (\<lambda>(hs, lit, s, m). length s)") (auto simp: le_imp_less_Suc length_dropWhile_le)

definition linx_output_match_compile ::
  "hash_state \<Rightarrow> string option \<Rightarrow> int \<times> linx_output_match option" where
  "linx_output_match_compile hs format =
    (case format of
       None \<Rightarrow> (- 1, None)
     | Some f \<Rightarrow> (let (r, m) = compile_loop hs [] f \<lparr>segments = [], om_capacity = 0\<rparr> in (r, Some m)))"

section \<open>Formatting\<close>

definition show_signed :: "nat \<Rightarrow> int \<Rightarrow> string" where
  "show_signed w v = show_int (if v \<ge> 2 ^ (w - 1) then v - 2 ^ w else v)"

text \<open>The text that \<^verbatim>\<open>snprintf\<close> would write into an unbounded buffer for the value at \<open>p\<close>.\<close>

definition render_value ::
  "byte_heap \<Rightarrow> (8 word list \<Rightarrow> string) \<Rightarrow> (8 word list \<Rightarrow> string) \<Rightarrow> linx_field_type \<Rightarrow> ptr \<Rightarrow> string res" where
  "render_value h pf pd ty p =
    (case ty of
       LINX_FIELD_TYPE_INT8 \<Rightarrow> map_sum id (\<lambda>bs. show_signed 8 (le_val bs)) (read_bytes 1 h p)
     | LINX_FIELD_TYPE_UINT8 \<Rightarrow> map_sum id (\<lambda>bs. show_int (le_val bs)) (read_bytes 1 h p)
     | LINX_FIELD_TYPE_INT16 \<Rightarrow> map_sum id (\<lambda>bs. show_signed 16 (le_val bs)) (read_bytes 2 h p)
     | LINX_FIELD_TYPE_UINT16 \<Rightarrow> map_sum id (\<lambda>bs. show_int (le_val bs)) (read_bytes 2 h p)
     | LINX_FIELD_TYPE_INT32 \<Rightarrow> map_sum id (\<lambda>bs. show_signed 32 (le_val bs)) (read_bytes 4 h p)
     | LINX_FIELD_TYPE_UINT32 \<Rightarrow> map_sum id (\<lambda>bs. show_int (le_val bs)) (read_bytes 4 h p)
     | LINX_FIELD_TYPE_INT64 \<Rightarrow> map_sum id (\<lambda>bs. show_signed 64 (le_val bs)) (read_bytes 8 h p)
     | LINX_FIELD_TYPE_UINT64 \<Rightarrow> map_sum id (\<lambda>bs. show_int (le_val bs)) (read_bytes 8 h p)
     | LINX_FIELD_TYPE_CHARBUF \<Rightarrow> read_cstr h p
     | LINX_FIELD_TYPE_UID \<Rightarrow> read_cstr h p
     | LINX_FIELD_TYPE_PID \<Rightarrow> read_cstr h p
     | LINX_FIELD_TYPE_CHARBUF_ARRAY \<Rightarrow> res_bind (read_u64 h p) (read_cstr h)
     | LINX_FIELD_TYPE_BOOL \<Rightarrow>
         map_sum id (\<lambda>bs. if le_val bs \<noteq> 0 then ''true'' else ''false'') (read_bytes 1 h p)
     | LINX_FIELD_TYPE_FLOAT \<Rightarrow> map_sum id pf (read_bytes 4 h p)
     | LINX_FIELD_TYPE_DOUBLE \<Rightarrow> map_sum id pd (read_bytes 8 h p)
     | _ \<Rightarrow> Inr [])"

record event_view =
  ev_heap :: byte_heap
  ev_num :: nat
  ev_float :: "8 word list \<Rightarrow> string"
  ev_double :: "8 word list \<Rightarrow> string"

text \<open>The text of a field for the current event, empty when it has no value.\<close>

definition field_text :: "event_view \<Rightarrow> hash_state \<Rightarrow> field_result \<Rightarrow> string res" where
  "field_text ev hs fld =
    res_bind (linx_hash_map_get_value_ptr fld (ev_num ev) hs) (\<lambda>(p, ty).
      if \<not> fr_found fld \<or> p = 0 then Inr []
      else
        res_bind (if fr_type fld = LINX_FIELD_TYPE_STRUCT then read_u64 (ev_heap ev) p else Inr p) (\<lambda>p.
          (case ty of None \<Rightarrow> Inl UninitRead
           | Some t \<Rightarrow> render_value (ev_heap ev) (ev_float ev) (ev_double ev) t p)))"

text \<open>\<open>field_str\<close> holds 256 bytes, so at most 255 characters of the text are appended, while the length
  that is compared and returned is the full one.\<close>

definition format_field_value ::
  "event_view \<Rightarrow> hash_state \<Rightarrow> field_result \<Rightarrow> char list \<Rightarrow> 64 word \<Rightarrow> 64 word \<Rightarrow>
   (64 word \<times> char list) res" where
  "format_field_value ev hs fld buf buffer_size total_length =
    res_bind (field_text ev hs fld) (\<lambda>str.
      (let field_str_len = (word_of_nat (length str) :: 64 word)
       in if field_str_len > 0 \<and> total_length + field_str_len < buffer_size - 1
          then map_sum id (\<lambda>b. (field_str_len, b)) (strncat_at (unat total_length) (take 255 str) buf)
          else if field_str_len > 0 then Inr (- 1, buf)
          else Inr (field_str_len, buf)))"

fun format_loop ::
  "event_view \<Rightarrow> hash_state \<Rightarrow> segment list \<Rightarrow> char list \<Rightarrow> 64 word \<Rightarrow> 64 word \<Rightarrow>
   (int \<times> char list) res" where
  "format_loop ev hs [] buf buffer_size total_length =
     Inr (sint (ucast total_length :: 32 word), buf)"
| "format_loop ev hs (SEGMENT_LITERAL t # sgs) buf buffer_size total_length =
     (let literal_len = word_of_nat (length t)
      in if total_length + literal_len \<ge> buffer_size - 1 then Inr (- 1, buf)
         else res_bind (strncat_at (unat total_length) t buf) (\<lambda>buf.
           format_loop ev hs sgs buf buffer_size (total_length + literal_len)))"
| "format_loop ev hs (SEGMENT_VARIABLE v # sgs) buf buffer_size total_length =
     res_bind (format_field_value ev hs v buf buffer_size total_length) (\<lambda>(field_len, buf).
       if field_len = 0 then format_loop ev hs sgs buf buffer_size total_length
       else format_loop ev hs sgs buf buffer_size (total_length + field_len))"

definition linx_output_match_format ::
  "event_view \<Rightarrow> hash_state \<Rightarrow> linx_output_match option \<Rightarrow> char list option \<Rightarrow> (int \<times> char list option) res" where
  "linx_output_match_format ev hs m buf =
    (case (m, buf) of
       (Some mt, Some b) \<Rightarrow>
         if length b = 0 then Inr (- 1, buf)
         else map_sum id (\<lambda>(r, b). (r, Some b))
                (format_loop ev hs (segments mt) (b[0 := NUL]) (word_of_nat (length b)) 0)
     | _ \<Rightarrow> Inr (- 1, buf))"

text \<open>The number of blocks freed: the literal segments with their texts and the match itself; variable
  segments and the segment array stay allocated.\<close>

definition linx_output_match_destroy :: "linx_output_match option \<Rightarrow> nat" where
  "linx_output_match_destroy m =
    (case m of
       None \<Rightarrow> 0
     | Some mt \<Rightarrow> sum_list (map (\<lambda>sg. case sg of SEGMENT_LITERAL t \<Rightarrow> 2 | SEGMENT_VARIABLE v \<Rightarrow> 0)
                   (segments mt)) + 1)"

section \<open>Compilation\<close>

text \<open>The meaning of a template, independent of the scanning loop: a list of literal characters and
  variable names.\<close>

datatype piece = Chars string | Var string

function pieces :: "string \<Rightarrow> piece list" where
  "pieces [] = []"
| "pieces (c # cs) =
     (if c = CHR ''%'' then Var (takeWhile var_char cs) # pieces (dropWhile var_char cs)
      else Chars [c] # pieces cs)"
  by pat_completeness auto

termination
  by (relation "measure length") (auto simp: le_imp_less_Suc length_dropWhile_le)

definition resolve :: "hash_state \<Rightarrow> string \<Rightarrow> field_result" where
  "resolve hs v = fst (linx_hash_map_get_field_by_path True (Some v) hs)"

fun piece_text :: "(field_result \<Rightarrow> string) \<Rightarrow> hash_state \<Rightarrow> piece \<Rightarrow> string" where
  "piece_text val hs (Chars s) = s"
| "piece_text val hs (Var v) = val (resolve hs v)"

fun segment_text :: "(field_result \<Rightarrow> string) \<Rightarrow> segment \<Rightarrow> string" where
  "segment_text val (SEGMENT_LITERAL t) = t"
| "segment_text val (SEGMENT_VARIABLE v) = val v"

definition segments_text :: "(field_result \<Rightarrow> string) \<Rightarrow> segment list \<Rightarrow> string" where
  "segments_text val sgs = concat (map (segment_text val) sgs)"

definition template_text :: "(field_result \<Rightarrow> string) \<Rightarrow> hash_state \<Rightarrow> string \<Rightarrow> string" where
  "template_text val hs f = concat (map (piece_text val hs) (pieces f))"

definition known_variables :: "hash_state \<Rightarrow> string \<Rightarrow> bool" where
  "known_variables hs f \<longleftrightarrow> list_all (\<lambda>p. case p of Chars s \<Rightarrow> True | Var v \<Rightarrow> fr_found (resolve hs v)) (pieces f)"

definition om_inv :: "linx_output_match \<Rightarrow> bool" where
  "om_inv m \<longleftrightarrow> length (segments m) \<le> om_capacity m \<and>
     list_all (\<lambda>sg. case sg of SEGMENT_LITERAL t \<Rightarrow> t \<noteq> [] | SEGMENT_VARIABLE v \<Rightarrow> fr_found v) (segments m)"

lemma grow_simps [simp]: "segments (grow_if_full m) = segments m" "segments (resize_segments m) = segments m"
  by (simp_all add: grow_if_full_def resize_segments_def)

lemma push_simps [simp]: "segments (push_segment sg m) = segments m @ [sg]" "om_capacity (push_segment sg m) = om_capacity m"
  by (simp_all add: push_segment_def)

lemma grow_capacity: "length (segments m) \<le> om_capacity m \<Longrightarrow> length (segments m) < om_capacity (grow_if_full m)"
  by (auto simp: grow_if_full_def resize_segments_def)

lemma om_inv_literal: "om_inv m \<Longrightarrow> om_inv (snd (add_literal_segment t m))"
  using grow_capacity [of m] by (auto simp: add_literal_segment_def om_inv_def)

lemma om_inv_variable: "om_inv m \<Longrightarrow> om_inv (snd (add_variable_segment hs v m))"
  using grow_capacity [of m] by (auto simp: add_variable_segment_def om_inv_def Let_def)

lemma om_inv_compile_loop: "om_inv m \<Longrightarrow> om_inv (snd (compile_loop hs lit s m))"
proof (induction hs lit s m rule: compile_loop.induct)
  case (1 hs lit m)
  then show ?case using om_inv_literal [of m lit] by (auto split: prod.split)
next
  case (2 hs lit c cs m)
  show ?case
  proof (cases "c = CHR ''%''")
    case False
    then show ?thesis using 2 by simp
  next
    case True
    obtain r1 m1 where l: "(if lit \<noteq> [] then add_literal_segment lit m else (0, m)) = (r1, m1)"
      by fastforce
    then have m1: "om_inv m1" using 2(3) om_inv_literal [of m lit] by (auto split: if_splits)
    obtain r2 m2 where v: "add_variable_segment hs (takeWhile var_char cs) m1 = (r2, m2)" by fastforce
    then have m2: "om_inv m2" using om_inv_variable [OF m1] by (metis snd_conv)
    have "om_inv (snd (compile_loop hs [] (dropWhile var_char cs) m2))" if "r1 = 0" "r2 = 0"
      using 2(1) [OF True l [symmetric] refl _ v [symmetric] refl] m2 that by simp
    then show ?thesis using True l v m1 m2 by simp
  qed
qed

lemma compile_loop_text:
  "known_variables hs s \<Longrightarrow>
   fst (compile_loop hs lit s m) = 0 \<and>
   segments_text val (segments (snd (compile_loop hs lit s m))) =
     segments_text val (segments m) @ lit @ template_text val hs s"
proof (induction hs lit s m rule: compile_loop.induct)
  case (1 hs lit m)
  then show ?case by (simp add: add_literal_segment_def segments_text_def template_text_def)
next
  case (2 hs lit c cs m)
  show ?case
  proof (cases "c = CHR ''%''")
    case False
    then have "known_variables hs cs" using 2(3) by (simp add: known_variables_def)
    with False 2(2) show ?thesis by (simp add: template_text_def)
  next
    case True
    let ?v = "takeWhile var_char cs" and ?r = "dropWhile var_char cs"
    let ?m1 = "if lit \<noteq> [] then push_segment (SEGMENT_LITERAL lit) (grow_if_full m) else m"
    let ?m2 = "push_segment (SEGMENT_VARIABLE (resolve hs ?v)) (grow_if_full ?m1)"
    have k: "known_variables hs ?r" "fr_found (resolve hs ?v)"
      using 2(3) True by (simp_all add: known_variables_def)
    have l: "(if lit \<noteq> [] then add_literal_segment lit m else (0, m)) = (0, ?m1)"
      by (simp add: add_literal_segment_def)
    have v: "add_variable_segment hs ?v ?m1 = (0, ?m2)"
      using k(2) by (simp add: add_variable_segment_def resolve_def Let_def)
    have step: "compile_loop hs lit (c # cs) m = compile_loop hs [] ?r ?m2"
      using True l v by simp
    have "fst (compile_loop hs [] ?r ?m2) = 0 \<and>
        segments_text val (segments (snd (compile_loop hs [] ?r ?m2))) =
        segments_text val (segments ?m2) @ [] @ template_text val hs ?r"
      using 2(1) [OF True l [symmetric] refl _ v [symmetric] refl] k(1) by simp
    then show ?thesis
      unfolding step using True by (simp add: segments_text_def template_text_def)
  qed
qed

lemma output_compile_ok:
  assumes "known_variables hs f"
  shows "\<exists>m. linx_output_match_compile hs (Some f) = (0, Some m) \<and> om_inv m \<and>
    (\<forall>val. segments_text val (segments m) = template_text val hs f)"
proof -
  let ?c = "compile_loop hs [] f \<lparr>segments = [], om_capacity = 0\<rparr>"
  have "fst ?c = 0" "\<And>val. segments_text val (segments (snd ?c)) = template_text val hs f"
    using compile_loop_text [OF assms, of "[]" "\<lparr>segments = [], om_capacity = 0\<rparr>"]
    by (simp_all add: segments_text_def)
  moreover have "om_inv (snd ?c)" by (rule om_inv_compile_loop) (simp add: om_inv_def)
  ultimately show ?thesis by (auto simp: linx_output_match_compile_def split_beta Let_def)
qed

section \<open>Rendering\<close>

lemma unat_word_of_nat: "n < 2 ^ 64 \<Longrightarrow> unat (word_of_nat n :: 64 word) = n"
  by (simp add: unat_of_nat take_bit_nat_eq_self)

lemma length_add_less_iff:
  assumes "a + b < 2 ^ 63" "1 \<le> L" "L < 2 ^ 63"
  shows "(word_of_nat a + word_of_nat b :: 64 word) < word_of_nat L - 1 \<longleftrightarrow> a + b < L - 1"
proof -
  have "(word_of_nat L - 1 :: 64 word) = word_of_nat (L - 1)" using assms(2) by (simp add: of_nat_diff)
  then show ?thesis
    using assms unat_word_of_nat [of "a + b"] unat_word_of_nat [of "L - 1"]
    by (simp add: word_less_nat_alt)
qed

lemma length_nonzero_iff: "n < 2 ^ 63 \<Longrightarrow> (word_of_nat n :: 64 word) > 0 \<longleftrightarrow> n > 0"
  using unat_word_of_nat [of n] by (simp add: word_less_nat_alt)

lemma result_length: "n < 2 ^ 31 \<Longrightarrow> sint (ucast (word_of_nat n :: 64 word) :: 32 word) = int n"
proof -
  assume n: "n < 2 ^ 31"
  then have t: "take_bit 64 n = n" by (intro take_bit_nat_eq_self) simp
  have "(ucast (word_of_nat n :: 64 word) :: 32 word) = word_of_nat n" by (simp add: unsigned_of_nat t)
  moreover have "sint (word_of_nat n :: 32 word) = int n"
    using n by (simp add: signed_of_nat signed_take_bit_int_eq_self)
  ultimately show ?thesis by simp
qed

text \<open>\<open>renders\<close>: the field has this text for the current event, and it fits the 256-byte scratch.\<close>

definition renders :: "event_view \<Rightarrow> hash_state \<Rightarrow> (field_result \<Rightarrow> string) \<Rightarrow> segment \<Rightarrow> bool" where
  "renders ev hs val sg \<longleftrightarrow>
    (case sg of
       SEGMENT_LITERAL t \<Rightarrow> NUL \<notin> set t
     | SEGMENT_VARIABLE v \<Rightarrow> field_text ev hs v = Inr (val v) \<and> length (val v) \<le> 255 \<and> NUL \<notin> set (val v))"

lemma format_loop_text_step:
  assumes "list_all (renders ev hs val) (sg # sgs)" "NUL \<in> set buf" "length buf < 2 ^ 31"
    and "length (cstr_of buf) + length (segments_text val (sg # sgs)) < length buf - 1"
    and IH: "\<And>buf. list_all (renders ev hs val) sgs \<Longrightarrow> NUL \<in> set buf \<Longrightarrow> length buf < 2 ^ 31 \<Longrightarrow>
      length (cstr_of buf) + length (segments_text val sgs) < length buf - 1 \<Longrightarrow>
      \<exists>buf'. format_loop ev hs sgs buf (word_of_nat (length buf)) (word_of_nat (length (cstr_of buf))) =
        Inr (int (length (cstr_of buf) + length (segments_text val sgs)), buf') \<and>
      cstr_of buf' = cstr_of buf @ segments_text val sgs \<and> length buf' = length buf"
    and "\<not> (\<exists>v. sg = SEGMENT_VARIABLE v \<and> val v = [])"
  shows "\<exists>buf'. format_loop ev hs (sg # sgs) buf (word_of_nat (length buf)) (word_of_nat (length (cstr_of buf))) =
      Inr (int (length (cstr_of buf) + length (segments_text val (sg # sgs))), buf') \<and>
    cstr_of buf' = cstr_of buf @ segments_text val (sg # sgs) \<and> length buf' = length buf"
proof -
  let ?L = "length buf" and ?k = "length (cstr_of buf)"
  let ?t = "segment_text val sg"
  have t: "segments_text val (sg # sgs) = ?t @ segments_text val sgs" by (simp add: segments_text_def)
  have fit: "?k + length ?t < ?L - 1" "1 \<le> ?L" "?k + length ?t < 2 ^ 63" "?L < 2 ^ 63"
    using assms(3,4) unfolding t by simp_all
  note cmp = length_add_less_iff [OF fit(3,2,4)]
  have nul: "NUL \<notin> set ?t" using assms(1) by (cases sg) (simp_all add: renders_def)
  obtain b1 where b1: "strncat_at ?k ?t buf = Inr b1" "cstr_of b1 = cstr_of buf @ ?t" "length b1 = ?L"
    "NUL \<in> set b1"
    using strncat_at_end [OF assms(2) nul] fit(1) by (metis less_diff_conv add_lessD1)
  have "length (cstr_of b1) + length (segments_text val sgs) < length b1 - 1"
    using assms(4) b1(2,3) unfolding t by simp
  then obtain b2 where b2: "format_loop ev hs sgs b1 (word_of_nat ?L) (word_of_nat (length (cstr_of b1))) =
      Inr (int (length (cstr_of b1) + length (segments_text val sgs)), b2)"
    "cstr_of b2 = cstr_of b1 @ segments_text val sgs" "length b2 = ?L"
    using IH [of b1] assms(1,3) b1(3,4) by auto
  have len: "(word_of_nat (length (cstr_of b1)) :: 64 word) = word_of_nat ?k + word_of_nat (length ?t)"
    by (simp add: b1(2))
  have k: "unat (word_of_nat ?k :: 64 word) = ?k" using fit by (intro unat_word_of_nat) simp
  have "format_loop ev hs (sg # sgs) buf (word_of_nat ?L) (word_of_nat ?k) =
      format_loop ev hs sgs b1 (word_of_nat ?L) (word_of_nat (length (cstr_of b1)))"
  proof (cases sg)
    case (SEGMENT_LITERAL s)
    then have "\<not> (word_of_nat ?L - 1 \<le> (word_of_nat ?k + word_of_nat (length s) :: 64 word))"
      using cmp fit(1) by simp
    then show ?thesis using SEGMENT_LITERAL b1(1) k len by (simp only: format_loop.simps Let_def if_False
          segment_text.simps res_bind.simps)
  next
    case (SEGMENT_VARIABLE v)
    have v: "field_text ev hs v = Inr ?t" "length ?t \<le> 255" "?t \<noteq> []"
      using assms(1,6) SEGMENT_VARIABLE by (auto simp: renders_def)
    have nz: "(word_of_nat (length ?t) :: 64 word) > 0" "(word_of_nat (length ?t) :: 64 word) \<noteq> 0"
      using fit(3) v(3) length_nonzero_iff [of "length ?t"] by (auto simp: word_gt_0)
    have "format_field_value ev hs v buf (word_of_nat ?L) (word_of_nat ?k) =
        Inr (word_of_nat (length ?t), b1)"
      using v cmp fit(1) b1(1) k nz by (simp add: format_field_value_def Let_def)
    then show ?thesis using SEGMENT_VARIABLE nz(2) len by simp
  qed
  with b2 b1(2) show ?thesis unfolding t by auto
qed

lemma format_loop_text:
  assumes "list_all (renders ev hs val) sgs" "NUL \<in> set buf" "length buf < 2 ^ 31"
    and "length (cstr_of buf) + length (segments_text val sgs) < length buf - 1"
  shows "\<exists>buf'. format_loop ev hs sgs buf (word_of_nat (length buf)) (word_of_nat (length (cstr_of buf))) =
      Inr (int (length (cstr_of buf) + length (segments_text val sgs)), buf') \<and>
    cstr_of buf' = cstr_of buf @ segments_text val sgs \<and> length buf' = length buf"
  using assms
proof (induction sgs arbitrary: buf)
  case Nil
  then show ?case by (simp add: segments_text_def result_length)
next
  case (Cons sg sgs)
  show ?case
  proof (cases "\<exists>v. sg = SEGMENT_VARIABLE v \<and> val v = []")
    case True
    then obtain v where v: "sg = SEGMENT_VARIABLE v" "val v = []" by blast
    then have "field_text ev hs v = Inr []" using Cons.prems(1) by (simp add: renders_def)
    then have "format_loop ev hs (sg # sgs) buf L t = format_loop ev hs sgs buf L t" for L t
      using v by (simp add: format_field_value_def)
    moreover have "segments_text val (sg # sgs) = segments_text val sgs"
      using v by (simp add: segments_text_def)
    ultimately show ?thesis using Cons.IH [of buf] Cons.prems by simp
  next
    case False
    show ?thesis using format_loop_text_step [OF Cons.prems Cons.IH False] by simp
  qed
qed

lemma output_format_text:
  assumes "known_variables hs0 f" "linx_output_match_compile hs0 (Some f) = (0, Some m)"
    and "list_all (renders ev hs val) (segments m)"
    and "b \<noteq> []" "length b < 2 ^ 31" "length (template_text val hs0 f) < length b - 1"
  shows "\<exists>b'. linx_output_match_format ev hs (Some m) (Some b) =
      Inr (int (length (template_text val hs0 f)), Some b') \<and>
    cstr_of b' = template_text val hs0 f \<and> length b' = length b"
proof -
  let ?b = "b[0 := NUL]"
  have tx: "segments_text val (segments m) = template_text val hs0 f"
    using output_compile_ok [OF assms(1)] assms(2) by auto
  have b: "cstr_of ?b = []" "NUL \<in> set ?b" using assms(4) by (cases b; simp add: cstr_of_def)+
  from format_loop_text [OF assms(3) b(2)] assms(5,6) b(1) tx
  obtain b' where "format_loop ev hs (segments m) ?b (word_of_nat (length b)) 0 =
      Inr (int (length (template_text val hs0 f)), b')" "cstr_of b' = template_text val hs0 f"
    "length b' = length b" by auto
  then show ?thesis using assms(4) by (simp add: linx_output_match_format_def)
qed

text \<open>The event has a text that can be rendered for every variable of the template.\<close>

definition template_renders ::
  "event_view \<Rightarrow> hash_state \<Rightarrow> hash_state \<Rightarrow> (field_result \<Rightarrow> string) \<Rightarrow> string \<Rightarrow> bool" where
  "template_renders ev hs0 hs val f \<longleftrightarrow> NUL \<notin> set f \<and>
    list_all (\<lambda>p. case p of Chars s \<Rightarrow> True | Var v \<Rightarrow> renders ev hs val (SEGMENT_VARIABLE (resolve hs0 v))) (pieces f)"

lemma compile_loop_renders:
  assumes "template_renders ev hs0 hs val s" "known_variables hs0 s"
    and "list_all (renders ev hs val) (segments m)" "NUL \<notin> set lit"
  shows "list_all (renders ev hs val) (segments (snd (compile_loop hs0 lit s m)))"
  using assms
proof (induction hs0 lit s m rule: compile_loop.induct)
  case (1 hs0 lit m)
  then show ?case by (simp add: add_literal_segment_def renders_def)
next
  case (2 hs0 lit c cs m)
  show ?case
  proof (cases "c = CHR ''%''")
    case False
    then have "template_renders ev hs0 hs val cs" "known_variables hs0 cs" "NUL \<notin> set (lit @ [c])"
      using 2(3,4,6) by (simp_all add: known_variables_def template_renders_def)
    with False 2(2) 2(5) show ?thesis by simp
  next
    case True
    let ?v = "takeWhile var_char cs" and ?r = "dropWhile var_char cs"
    let ?m1 = "if lit \<noteq> [] then push_segment (SEGMENT_LITERAL lit) (grow_if_full m) else m"
    let ?m2 = "push_segment (SEGMENT_VARIABLE (resolve hs0 ?v)) (grow_if_full ?m1)"
    have k: "known_variables hs0 ?r" "fr_found (resolve hs0 ?v)"
      using 2(4) True by (simp_all add: known_variables_def)
    have t: "template_renders ev hs0 hs val ?r" "renders ev hs val (SEGMENT_VARIABLE (resolve hs0 ?v))"
      using 2(3) True by (auto simp: template_renders_def dest: set_dropWhileD)
    have l: "(if lit \<noteq> [] then add_literal_segment lit m else (0, m)) = (0, ?m1)"
      by (simp add: add_literal_segment_def)
    have v: "add_variable_segment hs0 ?v ?m1 = (0, ?m2)"
      using k(2) by (simp add: add_variable_segment_def resolve_def Let_def)
    have "renders ev hs val (SEGMENT_LITERAL lit)" using 2(6) by (simp add: renders_def)
    then have "list_all (renders ev hs val) (segments ?m2)" using 2(5) t(2) by simp
    with 2(1) [OF True l [symmetric] refl _ v [symmetric] refl] k(1) t(1)
    have "list_all (renders ev hs val) (segments (snd (compile_loop hs0 [] ?r ?m2)))" by simp
    then show ?thesis using True l v by simp
  qed
qed

lemma output_compile_renders:
  assumes "known_variables hs0 f" "template_renders ev hs0 hs val f"
    and "linx_output_match_compile hs0 (Some f) = (0, Some m)"
  shows "list_all (renders ev hs val) (segments m)"
  using compile_loop_renders [OF assms(2,1), of "\<lparr>segments = [], om_capacity = 0\<rparr>" "[]"] assms(3)
  by (simp add: linx_output_match_compile_def split_beta Let_def)

text \<open>
  C9: rendering a compiled template is substitution. When every variable of the template is known
  and has a text of at most 255 characters for the current event, compiling and formatting into a
  buffer with room to spare writes exactly the template with each \<^verbatim>\<open>%variable\<close> replaced by its text,
  returns its length, and stays inside the buffer.
\<close>

theorem output_format_is_substitution:
  assumes "known_variables hs f"
    and "linx_output_match_compile hs (Some f) = (0, Some m)" "list_all (renders ev hs val) (segments m)"
    and "b \<noteq> []" "length b < 2 ^ 31" "length (template_text val hs f) < length b - 1"
  shows "\<exists>b'. linx_output_match_format ev hs (Some m) (Some b) =
      Inr (int (length (template_text val hs f)), Some b') \<and>
    cstr_of b' = template_text val hs f \<and> length b' = length b"
  using assms by (rule output_format_text)

definition demo_event :: event_view where
  "demo_event = \<lparr>ev_heap = [(4096, bytes_le 8 42)], ev_num = 118, ev_float = (\<lambda>_. []), ev_double = (\<lambda>_. [])\<rparr>"

definition demo_num_template :: string where
  "demo_num_template = ''num=%evt.num end''"

lemma demo_pieces: "pieces demo_num_template =
    [Chars ''n'', Chars ''u'', Chars ''m'', Chars ''='', Var ''evt.num'', Chars '' '', Chars ''e'', Chars ''n'', Chars ''d'']"
  by code_simp

lemma demo_resolve: "resolve hm_demo_state ''evt.num'' =
    \<lparr>fr_offset = 0, fr_type = LINX_FIELD_TYPE_UINT64, fr_size = 8, fr_found = True, fr_table_name = Some ''evt'',
     fr_field_name = Some ''num'', fr_arg = None, fr_event_type = True\<rparr>"
  by code_simp

theorem output_format_is_substitution_witness:
  "\<exists>m b'. linx_output_match_compile hm_demo_state (Some demo_num_template) = (0, Some m) \<and>
    linx_output_match_format demo_event hm_demo_state (Some m) (Some (replicate 64 (CHR ''x''))) =
      Inr (10, Some b') \<and> cstr_of b' = ''num=42 end''"
proof -
  let ?m = "\<lparr>segments = [SEGMENT_LITERAL ''num='', SEGMENT_VARIABLE (resolve hm_demo_state ''evt.num''),
      SEGMENT_LITERAL '' end''], om_capacity = 4\<rparr>"
  let ?val = "\<lambda>v :: field_result. ''42''"
  have k: "known_variables hm_demo_state demo_num_template"
    unfolding known_variables_def demo_pieces by (simp add: demo_resolve)
  have t: "template_text ?val hm_demo_state demo_num_template = ''num=42 end''"
    unfolding template_text_def demo_pieces by simp
  have c: "linx_output_match_compile hm_demo_state (Some demo_num_template) = (0, Some ?m)"
    by code_simp
  have f: "field_text demo_event hm_demo_state (resolve hm_demo_state ''evt.num'') = Inr ''42''"
    by code_simp
  have r: "list_all (renders demo_event hm_demo_state ?val) (segments ?m)"
    using f by (simp add: renders_def NUL_def)
  from output_format_is_substitution [OF k c r, of "replicate 64 (CHR ''x'')"] t c show ?thesis by auto
qed


text \<open>
  A variable that does not fit is not skipped safely. \<^verbatim>\<open>format_field_value\<close> answers \<^verbatim>\<open>(size_t)-1\<close>, which
  the loop adds to \<^verbatim>\<open>total_length\<close>: when a template starts with such a variable, the next literal is
  appended at \<^verbatim>\<open>buffer + SIZE_MAX\<close>, one byte before the buffer.
\<close>

theorem output_format_overlong_variable_faults:
  assumes "segments m = SEGMENT_VARIABLE v # SEGMENT_LITERAL t # sgs"
    and "field_text ev hs v = Inr str" "length b \<le> length str + 1" "length str < 2 ^ 62"
    and "t \<noteq> []" "length t < length b" "1 < length b"
  shows "linx_output_match_format ev hs (Some m) (Some b) = Inl OutOfBounds"
proof -
  let ?L = "word_of_nat (length b) :: 64 word" and ?b = "b[0 := NUL]"
  have pos: "(word_of_nat (length str) :: 64 word) > 0"
    using length_nonzero_iff [of "length str"] assms(3,4,7) by auto
  have nofit: "\<not> (0 + word_of_nat (length str) :: 64 word) < ?L - 1"
    using length_add_less_iff [of 0 "length str" "length b"] assms(3,4,7) by simp
  have fv: "format_field_value ev hs v ?b ?L 0 = Inr (- 1, ?b)"
    using assms(2) pos nofit by (simp add: format_field_value_def Let_def)
  obtain c cs where t: "t = c # cs" using assms(5) by (cases t) auto
  have wrap: "(- 1 + word_of_nat (length t) :: 64 word) = word_of_nat (length cs)"
    by (simp add: t)
  have fit: "\<not> ?L - 1 \<le> (- 1 + word_of_nat (length t) :: 64 word)"
    unfolding wrap using length_add_less_iff [of 0 "length cs" "length b"] assms(3,4,6,7)
    by (simp add: t not_le)
  have big: "unat (- 1 :: 64 word) = 2 ^ 64 - 1" by (simp add: unsigned_minus_1_eq_mask mask_eq_exp_minus_1)
  then have "strncat_at (unat (- 1 :: 64 word)) t ?b = Inl OutOfBounds"
    using assms(3,4) by (simp add: strncat_at_def)
  then have "format_loop ev hs (SEGMENT_LITERAL t # sgs) ?b ?L (- 1) = Inl OutOfBounds"
    using fit by (simp add: Let_def)
  moreover have "format_loop ev hs (SEGMENT_VARIABLE v # SEGMENT_LITERAL t # sgs) ?b ?L 0 =
      format_loop ev hs (SEGMENT_LITERAL t # sgs) ?b ?L (- 1)"
    using fv by simp
  ultimately have "format_loop ev hs (segments m) ?b ?L 0 = Inl OutOfBounds"
    using assms(1) by simp
  then show ?thesis using assms(7) by (auto simp: linx_output_match_format_def)
qed

theorem output_format_overlong_variable_faults_witness:
  "linx_output_match_format demo_event hm_demo_state
     (snd (linx_output_match_compile hm_demo_state (Some ''%evt.num !''))) (Some ''xyz'') = Inl OutOfBounds"
proof -
  let ?m = "\<lparr>segments = [SEGMENT_VARIABLE (resolve hm_demo_state ''evt.num''), SEGMENT_LITERAL '' !''],
      om_capacity = 2\<rparr>"
  have c: "snd (linx_output_match_compile hm_demo_state (Some ''%evt.num !'')) = Some ?m" by code_simp
  have f: "field_text demo_event hm_demo_state (resolve hm_demo_state ''evt.num'') = Inr ''42''"
    by code_simp
  show ?thesis
    unfolding c by (rule output_format_overlong_variable_faults [OF _ f, of _ "'' !''" "[]"]) simp_all
qed

end
