(* ===== verification/Alert.thy ===== *)
theory Alert
  imports Output_Match
begin

text \<open>
  Alerts (\<^verbatim>\<open>linx_alert.c\<close> and its back ends): the configuration of the four outputs, messages, synchronous
  and asynchronous sending, the worker task and the counters. The asynchronous path hands a task to
  the thread pool; the tasks not yet run are the list \<open>al_tasks\<close>. The text written to standard output
  is part of the state; the other back ends are empty functions. The union of back-end options is
  left out, since no back end reads it.
\<close>

section \<open>Data\<close>

abbreviation (input) "LINX_ALERT_TYPE_STDOUT \<equiv> (0 :: int)"
abbreviation (input) "LINX_ALERT_TYPE_FILE \<equiv> (1 :: int)"
abbreviation (input) "LINX_ALERT_TYPE_HTTP \<equiv> (2 :: int)"
abbreviation (input) "LINX_ALERT_TYPE_SYSLOG \<equiv> (3 :: int)"

definition LINX_ALERT_TYPE_MAX :: int where "LINX_ALERT_TYPE_MAX = 4"

record linx_alert_config =
  ac_type :: int
  ac_enabled :: bool

record linx_alert_message =
  am_message :: "string option"
  am_len :: nat
  am_config :: "linx_alert_config list"
  am_rule_name :: "string option"
  am_priority :: int

record linx_alert_t =
  al_pool :: bool
  al_config :: "linx_alert_config list"
  al_initialized :: bool
  al_sent :: int
  al_failed :: int
  al_tasks :: "linx_alert_message list"

record alert_state =
  s_alert :: "linx_alert_t option"
  alert_stdout :: string

section \<open>Back ends\<close>

definition linx_alert_output_stdout :: "linx_alert_message \<Rightarrow> string \<Rightarrow> int \<times> string" where
  "linx_alert_output_stdout m out = (0, out @ (case am_message m of None \<Rightarrow> ''(null)'' | Some t \<Rightarrow> t))"

definition linx_alert_output_file :: "linx_alert_message \<Rightarrow> int" where "linx_alert_output_file m = 0"
definition linx_alert_output_http :: "linx_alert_message \<Rightarrow> int" where "linx_alert_output_http m = 0"
definition linx_alert_output_syslog :: "linx_alert_message \<Rightarrow> int" where "linx_alert_output_syslog m = 0"

text \<open>One round of the loop over the outputs: successes, attempts and the text written.\<close>

definition output_step ::
  "linx_alert_message \<Rightarrow> linx_alert_config \<Rightarrow> nat \<times> nat \<times> string \<Rightarrow> nat \<times> nat \<times> string" where
  "output_step m config acc =
    (let (ok, tot, out) = acc
     in if \<not> ac_enabled config then acc
        else if ac_type config = LINX_ALERT_TYPE_STDOUT then
          (let (ret, out) = linx_alert_output_stdout m out
           in (if ret = 0 then ok + 1 else ok, tot + 1, out))
        else if ac_type config = LINX_ALERT_TYPE_FILE then
          (if linx_alert_output_file m = 0 then ok + 1 else ok, tot + 1, out)
        else if ac_type config = LINX_ALERT_TYPE_HTTP then
          (if linx_alert_output_http m = 0 then ok + 1 else ok, tot + 1, out)
        else if ac_type config = LINX_ALERT_TYPE_SYSLOG then
          (if linx_alert_output_syslog m = 0 then ok + 1 else ok, tot + 1, out)
        else acc)"

definition linx_alert_send_to_outputs ::
  "linx_alert_message option \<Rightarrow> alert_state \<Rightarrow> (int \<times> alert_state) res" where
  "linx_alert_send_to_outputs msg st =
    (case msg of
       None \<Rightarrow> Inr (- 1, st)
     | Some m \<Rightarrow>
         if am_message m = None then Inr (- 1, st)
         else
           (let (success, tot, out) = fold (output_step m) (am_config m) (0, 0, alert_stdout st)
            in (case s_alert st of
                  None \<Rightarrow> Inl NullDeref
                | Some a \<Rightarrow>
                    Inr (if success > 0 then 0 else - 1,
                         st\<lparr>s_alert := Some (a\<lparr>al_sent := al_sent a + of_bool (success > 0),
                                               al_failed := al_failed a + of_bool (success < tot)\<rparr>),
                            alert_stdout := out\<rparr>))))"

section \<open>Messages\<close>

text \<open>\<open>okm\<close>, \<open>okt\<close> and \<open>okr\<close> are the outcomes of \<^verbatim>\<open>malloc\<close> and of the two \<^verbatim>\<open>strdup\<close>s, which are not checked.\<close>

definition zero_config :: "linx_alert_config list" where
  "zero_config = replicate (nat LINX_ALERT_TYPE_MAX) \<lparr>ac_type = 0, ac_enabled = False\<rparr>"

definition linx_alert_message_create ::
  "bool \<Rightarrow> bool \<Rightarrow> bool \<Rightarrow> string option \<Rightarrow> string option \<Rightarrow> int \<Rightarrow> linx_alert_message option" where
  "linx_alert_message_create okm okt okr formatted rule_name priority =
    (case formatted of
       None \<Rightarrow> None
     | Some t \<Rightarrow>
         if \<not> okm then None
         else Some \<lparr>am_message = (if okt then Some t else None), am_len = length t, am_config = zero_config,
                    am_rule_name = (if okr then rule_name else None), am_priority = priority\<rparr>)"

definition linx_alert_message_destroy :: "linx_alert_message option \<Rightarrow> nat" where
  "linx_alert_message_destroy msg =
    (case msg of None \<Rightarrow> 0 | Some m \<Rightarrow> of_bool (am_message m \<noteq> None) + of_bool (am_rule_name m \<noteq> None) + 1)"

section \<open>Life cycle and configuration\<close>

definition linx_alert_init :: "bool \<Rightarrow> bool \<Rightarrow> bool \<Rightarrow> bool \<Rightarrow> alert_state \<Rightarrow> int \<times> alert_state" where
  "linx_alert_init okm okp okc oks st =
    (case s_alert st of
       Some a \<Rightarrow> (0, st)
     | None \<Rightarrow>
         if \<not> okm then (- 1, st)
         else if \<not> okp then (- 1, st)
         else if \<not> okc then (- 1, st)
         else if \<not> oks then (- 1, st)
         else (0, st\<lparr>s_alert := Some \<lparr>al_pool = True,
                al_config = zero_config[nat LINX_ALERT_TYPE_STDOUT := \<lparr>ac_type = LINX_ALERT_TYPE_STDOUT, ac_enabled = True\<rparr>],
                al_initialized = True, al_sent = 0, al_failed = 0, al_tasks = []\<rparr>\<rparr>))"

definition linx_alert_set_config_enable :: "int \<Rightarrow> bool \<Rightarrow> alert_state \<Rightarrow> int \<times> alert_state" where
  "linx_alert_set_config_enable ty enable st =
    (case s_alert st of
       None \<Rightarrow> (- 1, st)
     | Some a \<Rightarrow>
         if ty < 0 \<or> ty \<ge> LINX_ALERT_TYPE_MAX then (- 1, st)
         else (0, st\<lparr>s_alert := Some (a\<lparr>al_config := (al_config a)[nat ty := (al_config a ! nat ty)\<lparr>ac_enabled := enable\<rparr>]\<rparr>)\<rparr>))"

definition linx_alert_update_config :: "linx_alert_config \<Rightarrow> alert_state \<Rightarrow> int \<times> alert_state" where
  "linx_alert_update_config config st =
    (case s_alert st of
       None \<Rightarrow> (- 1, st)
     | Some a \<Rightarrow>
         if ac_type config < 0 \<or> ac_type config \<ge> LINX_ALERT_TYPE_MAX then (- 1, st)
         else (0, st\<lparr>s_alert := Some (a\<lparr>al_config := (al_config a)[nat (ac_type config) := config]\<rparr>)\<rparr>))"

definition linx_alert_get_stats :: "alert_state \<Rightarrow> int \<times> int" where
  "linx_alert_get_stats st = (case s_alert st of None \<Rightarrow> (0, 0) | Some a \<Rightarrow> (al_sent a, al_failed a))"

section \<open>Sending\<close>

definition ALERT_BUFFER :: nat where "ALERT_BUFFER = 4096"

text \<open>\<open>buf0\<close> is what the stack buffer holds before the call; the four booleans are the outcomes of
  \<^verbatim>\<open>linx_alert_message_create\<close>'s \<^verbatim>\<open>malloc\<close>, of its \<^verbatim>\<open>strdup\<close>s, of the task argument and of the pool.\<close>

definition linx_alert_send_async ::
  "event_view \<Rightarrow> hash_state \<Rightarrow> char list \<Rightarrow> bool \<Rightarrow> bool \<Rightarrow> bool \<Rightarrow> bool \<Rightarrow>
   linx_output_match option \<Rightarrow> string option \<Rightarrow> int \<Rightarrow> alert_state \<Rightarrow> (int \<times> alert_state) res" where
  "linx_alert_send_async ev hs buf0 okm okd oka okp output rule_name priority st =
    (case (s_alert st, output) of
       (Some a, Some om) \<Rightarrow>
         if \<not> al_initialized a then Inr (- 1, st)
         else res_bind (linx_output_match_format ev hs output (Some buf0)) (\<lambda>(ret, buf).
           if ret < 0 then Inr (- 1, st)
           else
             (case linx_alert_message_create okm okd okd (map_option cstr_of buf) rule_name priority of
                None \<Rightarrow> Inr (- 1, st)
              | Some m \<Rightarrow>
                  if \<not> oka then Inr (- 1, st)
                  else if \<not> okp then Inr (- 1, st)
                  else Inr (0, st\<lparr>s_alert := Some (a\<lparr>al_tasks := al_tasks a @ [m\<lparr>am_config := al_config a\<rparr>]\<rparr>)\<rparr>)))
     | _ \<Rightarrow> Inr (- 1, st))"

definition linx_alert_send_sync ::
  "event_view \<Rightarrow> hash_state \<Rightarrow> char list \<Rightarrow> bool \<Rightarrow> bool \<Rightarrow>
   linx_output_match option \<Rightarrow> string option \<Rightarrow> int \<Rightarrow> alert_state \<Rightarrow> (int \<times> alert_state) res" where
  "linx_alert_send_sync ev hs buf0 okm okd output rule_name priority st =
    (case (s_alert st, output) of
       (Some a, Some om) \<Rightarrow>
         if \<not> al_initialized a then Inr (- 1, st)
         else res_bind (linx_output_match_format ev hs output (Some buf0)) (\<lambda>(ret, buf).
           if ret \<noteq> 0 then Inr (- 1, st)
           else
             (case linx_alert_message_create okm okd okd (map_option cstr_of buf) rule_name priority of
                None \<Rightarrow> Inr (- 1, st)
              | Some m \<Rightarrow>
                  map_sum id (\<lambda>(ret, st). (0, st))
                    (linx_alert_send_to_outputs (Some (m\<lparr>am_config := al_config a\<rparr>)) st)))
     | _ \<Rightarrow> Inr (- 1, st))"

definition linx_alert_format_and_send where
  "linx_alert_format_and_send = linx_alert_send_sync"

text \<open>The body of a task, for the value of \<^verbatim>\<open>*should_stop\<close> when it starts.\<close>

definition linx_alert_worker_task :: "nat \<Rightarrow> linx_alert_message \<Rightarrow> alert_state \<Rightarrow> alert_state res" where
  "linx_alert_worker_task stop m st =
    (if stop = 2 then Inr st else map_sum id snd (linx_alert_send_to_outputs (Some m) st))"

text \<open>A worker of the pool takes the oldest task.\<close>

definition run_next_task :: "nat \<Rightarrow> alert_state \<Rightarrow> alert_state res" where
  "run_next_task stop st =
    (case s_alert st of
       None \<Rightarrow> Inr st
     | Some a \<Rightarrow>
         (case al_tasks a of
            [] \<Rightarrow> Inr st
          | m # ms \<Rightarrow> linx_alert_worker_task stop m (st\<lparr>s_alert := Some (a\<lparr>al_tasks := ms\<rparr>)\<rparr>)))"

fun run_tasks :: "nat \<Rightarrow> nat \<Rightarrow> alert_state \<Rightarrow> alert_state res" where
  "run_tasks 0 stop st = Inr st"
| "run_tasks (Suc n) stop st = res_bind (run_next_task stop st) (run_tasks n stop)"

text \<open>\<open>k\<close> is the number of queued tasks the workers still run while the pool shuts down; the others are
  dropped with the pool.\<close>

definition linx_alert_deinit :: "nat \<Rightarrow> alert_state \<Rightarrow> alert_state res" where
  "linx_alert_deinit k st =
    (case s_alert st of
       None \<Rightarrow> Inr st
     | Some a \<Rightarrow>
         res_bind (if al_pool a then run_tasks k 1 (st\<lparr>s_alert := Some (a\<lparr>al_initialized := False\<rparr>)\<rparr>) else Inr st)
           (\<lambda>st. Inr (st\<lparr>s_alert := None\<rparr>)))"


section \<open>What the outputs do\<close>

definition valid_config :: "linx_alert_config list \<Rightarrow> bool" where
  "valid_config cs \<longleftrightarrow> length cs = 4 \<and> list_all (\<lambda>c. 0 \<le> ac_type c \<and> ac_type c < LINX_ALERT_TYPE_MAX) cs"

definition enabled_outputs :: "linx_alert_config list \<Rightarrow> nat" where
  "enabled_outputs cs = length (filter ac_enabled cs)"

definition stdout_outputs :: "linx_alert_config list \<Rightarrow> nat" where
  "stdout_outputs cs = length (filter (\<lambda>c. ac_enabled c \<and> ac_type c = LINX_ALERT_TYPE_STDOUT) cs)"

text \<open>What a task writes: its text once per enabled output of type standard output.\<close>

definition task_text :: "linx_alert_message \<Rightarrow> string" where
  "task_text m = concat (replicate (stdout_outputs (am_config m)) (the (am_message m)))"

lemma fold_outputs:
  assumes "list_all (\<lambda>c. 0 \<le> ac_type c \<and> ac_type c < LINX_ALERT_TYPE_MAX) cs" "am_message m = Some t"
  shows "fold (output_step m) cs (ok, tot, out) =
    (ok + enabled_outputs cs, tot + enabled_outputs cs, out @ concat (replicate (stdout_outputs cs) t))"
  using assms(1)
proof (induction cs arbitrary: ok tot out)
  case (Cons c cs)
  have "output_step m c (ok, tot, out) =
      (if ac_enabled c then (ok + 1, tot + 1, if ac_type c = 0 then out @ t else out) else (ok, tot, out))"
    using Cons.prems assms(2)
    by (auto simp: output_step_def linx_alert_output_stdout_def linx_alert_output_file_def
        linx_alert_output_http_def linx_alert_output_syslog_def LINX_ALERT_TYPE_MAX_def)
  with Cons show ?case by (auto simp: enabled_outputs_def stdout_outputs_def)
qed (simp add: enabled_outputs_def stdout_outputs_def)

definition task_ok :: "linx_alert_message \<Rightarrow> bool" where
  "task_ok m \<longleftrightarrow> am_message m \<noteq> None \<and> valid_config (am_config m)"

lemma worker_task_effect:
  assumes "task_ok m" "stop \<noteq> 2" "s_alert st = Some a"
  shows "linx_alert_worker_task stop m st =
    Inr (st\<lparr>s_alert := Some (a\<lparr>al_sent := al_sent a + of_bool (enabled_outputs (am_config m) > 0)\<rparr>),
            alert_stdout := alert_stdout st @ task_text m\<rparr>)"
proof -
  obtain t where t: "am_message m = Some t" using assms(1) by (auto simp: task_ok_def)
  have v: "list_all (\<lambda>c. 0 \<le> ac_type c \<and> ac_type c < LINX_ALERT_TYPE_MAX) (am_config m)"
    using assms(1) by (simp add: task_ok_def valid_config_def)
  show ?thesis
    using assms(2,3) t fold_outputs [OF v t, of 0 0 "alert_stdout st"]
    by (simp add: linx_alert_worker_task_def linx_alert_send_to_outputs_def task_text_def)
qed


section \<open>Sending\<close>

lemma alert_init_ok:
  assumes "s_alert st = None"
  shows "\<exists>a. linx_alert_init True True True True st = (0, st\<lparr>s_alert := Some a\<rparr>) \<and> al_initialized a \<and> al_tasks a = [] \<and>
    valid_config (al_config a) \<and> stdout_outputs (al_config a) = 1 \<and> enabled_outputs (al_config a) = 1 \<and>
    al_sent a = 0 \<and> al_failed a = 0"
proof -
  let ?c = "zero_config[0 := \<lparr>ac_type = LINX_ALERT_TYPE_STDOUT, ac_enabled = True\<rparr>]"
  let ?a = "\<lparr>al_pool = True, al_config = ?c, al_initialized = True, al_sent = 0, al_failed = 0, al_tasks = []\<rparr>"
  have "valid_config ?c" "stdout_outputs ?c = 1" "enabled_outputs ?c = 1"
    by (simp_all add: zero_config_def valid_config_def stdout_outputs_def enabled_outputs_def
        LINX_ALERT_TYPE_MAX_def eval_nat_numeral)
  then show ?thesis using assms by (intro exI [of _ ?a]) (simp add: linx_alert_init_def)
qed

lemma send_async_queues:
  assumes "s_alert st = Some a" "al_initialized a"
    and "linx_output_match_format ev hs (Some om) (Some buf0) = Inr (r, Some b)" "0 \<le> r"
  shows "linx_alert_send_async ev hs buf0 True True True True (Some om) rule_name priority st =
    Inr (0, st\<lparr>s_alert := Some (a\<lparr>al_tasks := al_tasks a @
      [\<lparr>am_message = Some (cstr_of b), am_len = length (cstr_of b), am_config = al_config a,
        am_rule_name = rule_name, am_priority = priority\<rparr>]\<rparr>)\<rparr>)"
  using assms by (simp add: linx_alert_send_async_def linx_alert_message_create_def)

text \<open>
  The synchronous path never sends a text. \<^verbatim>\<open>linx_output_match_format\<close> returns the number of
  characters it wrote, and \<^verbatim>\<open>linx_alert_send_sync\<close> takes every value but 0 for an error: whenever the
  rendered alert is not empty it answers -1 and writes and counts nothing.
\<close>

theorem alert_sync_drops_text:
  assumes "linx_output_match_format ev hs (Some om) (Some buf0) = Inr (r, buf)" "r \<noteq> 0"
  shows "linx_alert_send_sync ev hs buf0 okm okd (Some om) rule_name priority st = Inr (- 1, st)"
  using assms by (simp add: linx_alert_send_sync_def split: option.splits)

theorem alert_sync_drops_text_witness:
  "linx_alert_send_sync demo_event hm_demo_state (replicate 8 NUL) True True
     (Some \<lparr>segments = [SEGMENT_LITERAL ''hi''], om_capacity = 2\<rparr>) None 0
     (snd (linx_alert_init True True True True \<lparr>s_alert = None, alert_stdout = []\<rparr>)) =
   Inr (- 1, snd (linx_alert_init True True True True \<lparr>s_alert = None, alert_stdout = []\<rparr>))"
proof -
  have "linx_output_match_format demo_event hm_demo_state (Some \<lparr>segments = [SEGMENT_LITERAL ''hi''], om_capacity = 2\<rparr>)
      (Some (replicate 8 NUL)) = Inr (2, Some (''hi'' @ replicate 6 NUL))"
    by code_simp
  from alert_sync_drops_text [OF this] show ?thesis by simp
qed

text \<open>
  Enabling another output duplicates the text on standard output. After initialisation the
  entries of the file, HTTP and syslog outputs still carry type 0, and \<^verbatim>\<open>linx_alert_set_config_enable\<close>
  sets only the flag: with the file output enabled, a task writes its text to standard output twice.
\<close>

theorem alert_enable_file_prints_twice:
  assumes "s_alert st = None" "0 < ty" "ty < LINX_ALERT_TYPE_MAX"
  shows "\<exists>a. s_alert (snd (linx_alert_set_config_enable ty True
      (snd (linx_alert_init True True True True st)))) = Some a \<and>
    task_text \<lparr>am_message = Some t, am_len = length t, am_config = al_config a, am_rule_name = None, am_priority = 0\<rparr> = t @ t"
proof -
  have "ty = 1 \<or> ty = 2 \<or> ty = 3" using assms(2,3) by (auto simp: LINX_ALERT_TYPE_MAX_def)
  then show ?thesis
    using assms(1)
    by (auto simp: linx_alert_init_def linx_alert_set_config_enable_def zero_config_def task_text_def
        stdout_outputs_def LINX_ALERT_TYPE_MAX_def eval_nat_numeral)
qed

theorem alert_enable_file_prints_twice_witness:
  "\<exists>a. s_alert (snd (linx_alert_set_config_enable LINX_ALERT_TYPE_FILE True
      (snd (linx_alert_init True True True True \<lparr>s_alert = None, alert_stdout = []\<rparr>)))) = Some a \<and>
    task_text \<lparr>am_message = Some ''x'', am_len = length ''x'', am_config = al_config a, am_rule_name = None, am_priority = 0\<rparr> = ''xx''"
  using alert_enable_file_prints_twice [of "\<lparr>s_alert = None, alert_stdout = []\<rparr>" 1 "''x''"]
  by (simp add: LINX_ALERT_TYPE_MAX_def)

definition demo_alert :: linx_alert_t where
  "demo_alert = \<lparr>al_pool = True, al_config = zero_config[0 := \<lparr>ac_type = 0, ac_enabled = True\<rparr>], al_initialized = True,
     al_sent = 0, al_failed = 0,
     al_tasks = [\<lparr>am_message = Some ''a'', am_len = 1, am_config = zero_config[0 := \<lparr>ac_type = 0, ac_enabled = True\<rparr>],
                  am_rule_name = None, am_priority = 0\<rparr>,
                 \<lparr>am_message = Some ''b'', am_len = 1, am_config = zero_config, am_rule_name = None, am_priority = 0\<rparr>]\<rparr>"


end
