(* ===== verification/Rule_Ast.thy ===== *)
theory Rule_Ast
  imports Linx_Prelude
begin

text \<open>
  Operators and syntax trees of rule conditions: the operator tables and their lookups
  (\<^verbatim>\<open>operation_type_string.c\<close>) and the tree nodes with their constructors and destructor
  (\<^verbatim>\<open>ast_node.c\<close>). Operator codes are the C enumeration values, -1 for an unknown operator. A NULL
  child pointer is the constructor \<open>AST_NULL\<close>. A floating point literal is kept as the lexeme whose
  \<^verbatim>\<open>strtof\<close> value the node stores. The constructors assume that the allocation succeeds: the
  sources dereference its result unchecked.
\<close>

section \<open>Operators\<close>

abbreviation (input) "UNARY_OP_EXISTS \<equiv> (0 :: int)"
abbreviation (input) "UNARY_OP_NOT \<equiv> (1 :: int)"
abbreviation (input) "BINARY_NUM_OP_GT \<equiv> (0 :: int)"
abbreviation (input) "BINARY_NUM_OP_GE \<equiv> (1 :: int)"
abbreviation (input) "BINARY_NUM_OP_LT \<equiv> (2 :: int)"
abbreviation (input) "BINARY_NUM_OP_LE \<equiv> (3 :: int)"
abbreviation (input) "BINARY_STR_OP_EQ \<equiv> (0 :: int)"
abbreviation (input) "BINARY_STR_OP_ASSIGN \<equiv> (1 :: int)"
abbreviation (input) "BINARY_STR_OP_NE \<equiv> (2 :: int)"
abbreviation (input) "BINARY_STR_OP_GLOB \<equiv> (3 :: int)"
abbreviation (input) "BINARY_STR_OP_IGLOB \<equiv> (4 :: int)"
abbreviation (input) "BINARY_STR_OP_CONTAINS \<equiv> (5 :: int)"
abbreviation (input) "BINARY_STR_OP_ICONTAINS \<equiv> (6 :: int)"
abbreviation (input) "BINARY_STR_OP_BCONTAINS \<equiv> (7 :: int)"
abbreviation (input) "BINARY_STR_OP_STARTSWITH \<equiv> (8 :: int)"
abbreviation (input) "BINARY_STR_OP_BSTARTSWITH \<equiv> (9 :: int)"
abbreviation (input) "BINARY_STR_OP_ENDSWITH \<equiv> (10 :: int)"
abbreviation (input) "BINARY_STR_OP_REGEX \<equiv> (11 :: int)"
abbreviation (input) "BINARY_LIST_OP_INTERSECTS \<equiv> (0 :: int)"
abbreviation (input) "BINARY_LIST_OP_IN \<equiv> (1 :: int)"
abbreviation (input) "BINARY_LIST_OP_PMATCH \<equiv> (2 :: int)"
abbreviation (input) "BINARY_BOOL_OP_OR \<equiv> (0 :: int)"
abbreviation (input) "BINARY_BOOL_OP_AND \<equiv> (1 :: int)"

definition g_unary_ops :: "string list" where
  "g_unary_ops = [''exists'', ''not'']"

definition g_binary_num_ops :: "string list" where
  "g_binary_num_ops = [''>'', ''>='', ''<'', ''<='']"

definition g_binary_str_ops :: "string list" where
  "g_binary_str_ops =
    [''=='', ''='', ''!='', ''glob '', ''iglob '', ''contains '', ''icontains '', ''bcontains '',
     ''startswith '', ''bstartswith '', ''endswith '', ''regex '']"

definition g_binary_list_ops :: "string list" where
  "g_binary_list_ops = [''intersects'', ''in'', ''pmatch'']"

definition g_binary_bool_ops :: "string list" where
  "g_binary_bool_ops = [''or'', ''and'']"

definition g_field_transformer_types :: "string list" where
  "g_field_transformer_types = [''tolower('', ''toupper('', ''b64('', ''basename('', ''len('']"

definition g_field_transformer_vals :: "string list" where
  "g_field_transformer_vals = [''val('']"

text \<open>The common loop of the lookups: the first index whose entry compares equal.\<close>

fun op_scan :: "string \<Rightarrow> string list \<Rightarrow> int \<Rightarrow> int" where
  "op_scan str [] i = - 1"
| "op_scan str (x # xs) i = (if str = x then i else op_scan str xs (i + 1))"

definition op_str_to_unary_op :: "string \<Rightarrow> int" where
  "op_str_to_unary_op str = op_scan str g_unary_ops 0"

definition op_str_to_binary_num_op :: "string \<Rightarrow> int" where
  "op_str_to_binary_num_op str = op_scan str g_binary_num_ops 0"

definition op_str_to_binary_str_op :: "string \<Rightarrow> int" where
  "op_str_to_binary_str_op str = op_scan str g_binary_str_ops 0"

definition op_str_to_binary_list_op :: "string \<Rightarrow> int" where
  "op_str_to_binary_list_op str = op_scan str g_binary_list_ops 0"

definition op_str_to_binary_bool_op :: "string \<Rightarrow> int" where
  "op_str_to_binary_bool_op str = op_scan str g_binary_bool_ops 0"

definition op_str_to_field_transformer_type :: "string \<Rightarrow> int" where
  "op_str_to_field_transformer_type str = op_scan str g_field_transformer_types 0"

definition op_str_to_field_transformer_val :: "string \<Rightarrow> int" where
  "op_str_to_field_transformer_val str = op_scan str g_field_transformer_vals 0"

definition op_str_to_op_type :: "string \<Rightarrow> int" where
  "op_str_to_op_type str =
    (let op = op_str_to_unary_op str;
         op = (if op \<noteq> - 1 then op else op_str_to_binary_num_op str);
         op = (if op \<noteq> - 1 then op else op_str_to_binary_str_op str);
         op = (if op \<noteq> - 1 then op else op_str_to_binary_list_op str);
         op = (if op \<noteq> - 1 then op else op_str_to_binary_bool_op str);
         op = (if op \<noteq> - 1 then op else op_str_to_field_transformer_type str);
         op = (if op \<noteq> - 1 then op else op_str_to_field_transformer_val str)
     in op)"

section \<open>Tree nodes\<close>

datatype ast_node =
    AST_NULL
  | AST_NONE
  | AST_INT int
  | AST_FLOAT string
  | AST_STRING string
  | AST_LIST "ast_node list"
  | AST_FIELD_NAME string
  | AST_BIN_BOOL_OP int ast_node ast_node
  | AST_BIN_NUM_OP int ast_node ast_node
  | AST_BIN_STR_OP int ast_node ast_node
  | AST_BIN_LIST_OP int ast_node ast_node
  | AST_UN_OP int ast_node
  | AST_FIELD_TRANSFORMER int ast_node
  | AST_FIELD_TRANSFORMER_VAL int ast_node

definition ast_node_create_number :: "int \<Rightarrow> ast_node" where
  "ast_node_create_number v = AST_INT v"

definition ast_node_create_float :: "string \<Rightarrow> ast_node" where
  "ast_node_create_float lexeme = AST_FLOAT lexeme"

definition ast_node_create_string :: "string \<Rightarrow> ast_node" where
  "ast_node_create_string str = AST_STRING str"

definition ast_node_create_field_name :: "string \<Rightarrow> ast_node" where
  "ast_node_create_field_name name = AST_FIELD_NAME name"

definition ast_node_create_list :: ast_node where
  "ast_node_create_list = AST_LIST []"

fun add_item_to_list :: "ast_node \<Rightarrow> ast_node \<Rightarrow> ast_node" where
  "add_item_to_list (AST_LIST items) item = AST_LIST (items @ [item])"
| "add_item_to_list n item = n"

definition ast_node_create_binary_num :: "int \<Rightarrow> ast_node \<Rightarrow> ast_node \<Rightarrow> ast_node" where
  "ast_node_create_binary_num op l r = AST_BIN_NUM_OP op l r"

definition ast_node_create_binary_str :: "int \<Rightarrow> ast_node \<Rightarrow> ast_node \<Rightarrow> ast_node" where
  "ast_node_create_binary_str op l r = AST_BIN_STR_OP op l r"

definition ast_node_create_binary_list :: "int \<Rightarrow> ast_node \<Rightarrow> ast_node \<Rightarrow> ast_node" where
  "ast_node_create_binary_list op l r = AST_BIN_LIST_OP op l r"

definition ast_node_create_binary_bool :: "int \<Rightarrow> ast_node \<Rightarrow> ast_node \<Rightarrow> ast_node" where
  "ast_node_create_binary_bool op l r = AST_BIN_BOOL_OP op l r"

definition ast_node_create_unary :: "int \<Rightarrow> ast_node \<Rightarrow> ast_node" where
  "ast_node_create_unary op x = AST_UN_OP op x"

definition ast_node_create_field_transformer :: "int \<Rightarrow> ast_node \<Rightarrow> ast_node" where
  "ast_node_create_field_transformer op x = AST_FIELD_TRANSFORMER op x"

definition ast_node_create_field_transformer_val :: "int \<Rightarrow> ast_node \<Rightarrow> ast_node" where
  "ast_node_create_field_transformer_val op x = AST_FIELD_TRANSFORMER_VAL op x"

lemmas ast_create_defs = ast_node_create_number_def ast_node_create_float_def
  ast_node_create_string_def ast_node_create_field_name_def ast_node_create_list_def
  ast_node_create_binary_num_def ast_node_create_binary_str_def ast_node_create_binary_list_def
  ast_node_create_binary_bool_def ast_node_create_unary_def ast_node_create_field_transformer_def
  ast_node_create_field_transformer_val_def

text \<open>\<open>ast_blocks\<close> counts the heap blocks a tree owns; \<open>ast_node_destroy\<close> answers how many of them
  the destructor frees.\<close>

fun ast_blocks :: "ast_node \<Rightarrow> nat" where
  "ast_blocks AST_NULL = 0"
| "ast_blocks AST_NONE = 1"
| "ast_blocks (AST_INT v) = 1"
| "ast_blocks (AST_FLOAT v) = 1"
| "ast_blocks (AST_STRING s) = 2"
| "ast_blocks (AST_LIST xs) = sum_list (map ast_blocks xs) + of_bool (xs \<noteq> []) + 1"
| "ast_blocks (AST_FIELD_NAME n) = 2"
| "ast_blocks (AST_BIN_BOOL_OP op l r) = ast_blocks l + ast_blocks r + 1"
| "ast_blocks (AST_BIN_NUM_OP op l r) = ast_blocks l + ast_blocks r + 1"
| "ast_blocks (AST_BIN_STR_OP op l r) = ast_blocks l + ast_blocks r + 1"
| "ast_blocks (AST_BIN_LIST_OP op l r) = ast_blocks l + ast_blocks r + 1"
| "ast_blocks (AST_UN_OP op x) = ast_blocks x + 1"
| "ast_blocks (AST_FIELD_TRANSFORMER op x) = ast_blocks x + 1"
| "ast_blocks (AST_FIELD_TRANSFORMER_VAL op x) = ast_blocks x + 1"

fun ast_node_destroy :: "ast_node \<Rightarrow> nat" where
  "ast_node_destroy AST_NULL = 0"
| "ast_node_destroy AST_NONE = 1"
| "ast_node_destroy (AST_INT v) = 1"
| "ast_node_destroy (AST_FLOAT v) = 1"
| "ast_node_destroy (AST_STRING s) = 1 + 1"
| "ast_node_destroy (AST_LIST xs) = sum_list (map ast_node_destroy xs) + of_bool (xs \<noteq> []) + 1"
| "ast_node_destroy (AST_FIELD_NAME n) = 1 + 1"
| "ast_node_destroy (AST_BIN_BOOL_OP op l r) = 1"
| "ast_node_destroy (AST_BIN_NUM_OP op l r) = ast_node_destroy l + ast_node_destroy r + 1"
| "ast_node_destroy (AST_BIN_STR_OP op l r) = ast_node_destroy l + ast_node_destroy r + 1"
| "ast_node_destroy (AST_BIN_LIST_OP op l r) = 1"
| "ast_node_destroy (AST_UN_OP op x) = ast_node_destroy x + 1"
| "ast_node_destroy (AST_FIELD_TRANSFORMER op x) = ast_node_destroy x + 1"
| "ast_node_destroy (AST_FIELD_TRANSFORMER_VAL op x) = 1"

text \<open>The text \<^verbatim>\<open>print_ast\<close> writes, for a printer of integers and of stored floats.\<close>

definition op_text :: "string list \<Rightarrow> int \<Rightarrow> string" where
  "op_text ops op = '' '' @ ops ! nat op @ '' ''"

fun print_ast :: "(int \<Rightarrow> string) \<Rightarrow> (string \<Rightarrow> string) \<Rightarrow> ast_node \<Rightarrow> string"
  and print_items :: "(int \<Rightarrow> string) \<Rightarrow> (string \<Rightarrow> string) \<Rightarrow> ast_node list \<Rightarrow> string" where
  "print_ast pi pf AST_NULL = ''''"
| "print_ast pi pf AST_NONE = ''''"
| "print_ast pi pf (AST_BIN_BOOL_OP op l r) =
     print_ast pi pf l @ op_text g_binary_bool_ops op @ print_ast pi pf r"
| "print_ast pi pf (AST_BIN_LIST_OP op l r) =
     print_ast pi pf l @ op_text g_binary_list_ops op @ print_ast pi pf r"
| "print_ast pi pf (AST_BIN_STR_OP op l r) =
     print_ast pi pf l @ op_text g_binary_str_ops op @ print_ast pi pf r"
| "print_ast pi pf (AST_BIN_NUM_OP op l r) =
     print_ast pi pf l @ op_text g_binary_num_ops op @ print_ast pi pf r"
| "print_ast pi pf (AST_UN_OP op x) = op_text g_unary_ops op @ print_ast pi pf x"
| "print_ast pi pf (AST_LIST xs) = ''('' @ print_items pi pf xs"
| "print_ast pi pf (AST_FIELD_TRANSFORMER op x) =
     op_text g_field_transformer_types op @ print_ast pi pf x @ '')''"
| "print_ast pi pf (AST_FIELD_TRANSFORMER_VAL op x) =
     op_text g_field_transformer_vals op @ print_ast pi pf x @ '')''"
| "print_ast pi pf (AST_INT v) = pi v"
| "print_ast pi pf (AST_FLOAT lexeme) = pf lexeme"
| "print_ast pi pf (AST_STRING s) = s"
| "print_ast pi pf (AST_FIELD_NAME n) = n"
| "print_items pi pf [] = ''''"
| "print_items pi pf [x] = print_ast pi pf x @ '')''"
| "print_items pi pf (x # y # xs) = print_ast pi pf x @ '', '' @ print_items pi pf (y # xs)"

section \<open>Operator lookups\<close>

lemma op_scan_range: "op_scan str xs i = - 1 \<or> (i \<le> op_scan str xs i \<and> op_scan str xs i < i + int (length xs))"
  by (induction xs arbitrary: i) (auto, force+)

lemma op_scan_nth:
  assumes "distinct xs" "j < length xs"
  shows "op_scan (xs ! j) xs i = i + int j"
  using assms
proof (induction xs arbitrary: i j)
  case (Cons x xs)
  then show ?case by (cases j) auto
qed simp

lemma op_scan_unknown: "str \<notin> set xs \<Longrightarrow> op_scan str xs i = - 1"
  by (induction xs arbitrary: i) auto

lemma op_tables_distinct:
  "distinct g_unary_ops" "distinct g_binary_num_ops" "distinct g_binary_str_ops"
  "distinct g_binary_list_ops" "distinct g_binary_bool_ops" "distinct g_field_transformer_types"
  "distinct g_field_transformer_vals"
  by code_simp+

lemmas op_str_defs = op_str_to_unary_op_def op_str_to_binary_num_op_def op_str_to_binary_str_op_def
  op_str_to_binary_list_op_def op_str_to_binary_bool_op_def op_str_to_field_transformer_type_def
  op_str_to_field_transformer_val_def

text \<open>
  In every operator table the lookup inverts the table: entry \<open>j\<close> is found as \<open>j\<close>, and a string is
  answered with -1 exactly when it is not in the table.
\<close>

lemma op_scan_unknown_iff: "i \<ge> 0 \<Longrightarrow> op_scan str xs i = - 1 \<longleftrightarrow> str \<notin> set xs"
  by (induction xs arbitrary: i) auto

lemma op_scan_table: "distinct xs \<Longrightarrow> map (\<lambda>str. op_scan str xs 0) xs = map int [0..<length xs]"
  by (rule nth_equalityI) (auto simp: op_scan_nth)

lemma operator_lookup_inverts_tables:
  "map op_str_to_binary_num_op g_binary_num_ops = [0, 1, 2, 3]"
  "map op_str_to_binary_str_op g_binary_str_ops = [0, 1, 2, 3, 4, 5, 6, 7, 8, 9, 10, 11]"
  "map op_str_to_binary_list_op g_binary_list_ops = [0, 1, 2]"
  "map op_str_to_unary_op g_unary_ops = [0, 1]"
  "map op_str_to_field_transformer_type g_field_transformer_types = [0, 1, 2, 3, 4]"
  by code_simp+

section \<open>Destruction\<close>

text \<open>The trees whose destruction reaches every node.\<close>

fun fully_freed :: "ast_node \<Rightarrow> bool" where
  "fully_freed (AST_LIST xs) = list_all fully_freed xs"
| "fully_freed (AST_BIN_BOOL_OP op l r) = (ast_blocks l = 0 \<and> ast_blocks r = 0)"
| "fully_freed (AST_BIN_NUM_OP op l r) = (fully_freed l \<and> fully_freed r)"
| "fully_freed (AST_BIN_STR_OP op l r) = (fully_freed l \<and> fully_freed r)"
| "fully_freed (AST_BIN_LIST_OP op l r) = (ast_blocks l = 0 \<and> ast_blocks r = 0)"
| "fully_freed (AST_UN_OP op x) = fully_freed x"
| "fully_freed (AST_FIELD_TRANSFORMER op x) = fully_freed x"
| "fully_freed (AST_FIELD_TRANSFORMER_VAL op x) = (ast_blocks x = 0)"
| "fully_freed n = True"

lemma sum_list_le: "(\<And>x. x \<in> set xs \<Longrightarrow> f x \<le> (g x :: nat)) \<Longrightarrow> sum_list (map f xs) \<le> sum_list (map g xs)"
  by (induction xs) (auto simp: add_mono)

lemma sum_list_eq_iff:
  "(\<And>x. x \<in> set xs \<Longrightarrow> f x \<le> (g x :: nat)) \<Longrightarrow>
   sum_list (map f xs) = sum_list (map g xs) \<longleftrightarrow> (\<forall>x \<in> set xs. f x = g x)"
proof (induction xs)
  case (Cons x xs)
  then have "f x \<le> g x" "sum_list (map f xs) \<le> sum_list (map g xs)"
    by (auto intro: sum_list_le)
  then have "f x + sum_list (map f xs) = g x + sum_list (map g xs) \<longleftrightarrow>
      f x = g x \<and> sum_list (map f xs) = sum_list (map g xs)" by linarith
  with Cons show ?case by simp
qed simp

lemma ast_destroy_le: "ast_node_destroy t \<le> ast_blocks t"
  by (induction t) (auto intro: sum_list_le)

text \<open>
  \<^verbatim>\<open>ast_node_destroy\<close> never frees more than the tree owns, and frees all of it exactly when the
  tree has no \<^verbatim>\<open>and\<close>/\<^verbatim>\<open>or\<close> node, no list operator and no \<^verbatim>\<open>val()\<close> transformer above an allocated child:
  those node types have no case in the switch, so everything below them is leaked.
\<close>

theorem ast_destroy_frees_all_iff:
  "ast_node_destroy t \<le> ast_blocks t \<and> (ast_node_destroy t = ast_blocks t \<longleftrightarrow> fully_freed t)"
proof (induction t)
  case (AST_LIST xs)
  then show ?case
    using sum_list_le [of xs ast_node_destroy ast_blocks]
      sum_list_eq_iff [of xs ast_node_destroy ast_blocks] by (auto simp: list_all_iff)
next
  case (AST_BIN_NUM_OP op l r)
  then show ?case by auto
next
  case (AST_BIN_STR_OP op l r)
  then show ?case by auto
qed auto

end
