(* ===== verification/Rule_Match.thy ===== *)
theory Rule_Match
  imports Output_Match Rule_Ast
begin

text \<open>
  From syntax trees to matchers (\<^verbatim>\<open>linx_rule_engine_match.c\<close>) and the matchers themselves
  (\<^verbatim>\<open>rule_match_func.c\<close>). A compiled match is a tree of function pointers with contexts; a function
  pointer or a member the compiler leaves as \<^verbatim>\<open>malloc\<close> returned it is \<open>None\<close> or \<open>SlotUninit\<close>, so that calling
  or reading it is a fault. The union part of the contexts behind \<^verbatim>\<open>field\<close> is the type \<open>slot\<close>.
  \<open>us n\<close> is the usable size of a block from \<^verbatim>\<open>malloc(n)\<close>: every leaf context is allocated with
  \<^verbatim>\<open>sizeof(num_context_t)\<close>, also the longer list context. Allocations are taken to succeed.
\<close>

section \<open>Data\<close>

datatype match_context_type =
    MATCH_CONTEXT_STR
  | MATCH_CONTEXT_NUM
  | MATCH_CONTEXT_LIST
  | MATCH_CONTEXT_UNARY
  | MATCH_CONTEXT_LOGIC

datatype match_func =
    F_and | F_or | F_not
  | F_num_gt | F_num_ge | F_num_lt | F_num_le
  | F_str_assign | F_str_ne | F_str_contains | F_str_icontains | F_str_startswith | F_str_endswith
  | F_list_in

datatype slot =
    SlotUninit
  | SlotInt int
  | SlotFloat string
  | SlotStr string
  | SlotList "string list"

text \<open>The contexts hold their operands as pointers without a type (\<^verbatim>\<open>void *\<close>), which all point to matches: the type of operands is a parameter.\<close>

datatype 'm match_context =
    LeafContext field_result slot
  | UnaryContext "'m option"
  | LogicContext 'm 'm

datatype linx_rule_match =
    RuleMatch "match_func option" "match_context_type option" "linx_rule_match match_context"

definition sizeof_num_context :: nat where "sizeof_num_context = 80"
definition sizeof_list_context :: nat where "sizeof_list_context = 88"

section \<open>Matchers\<close>

definition matcher_get_value_ptr ::
  "event_view \<Rightarrow> hash_state \<Rightarrow> field_result \<Rightarrow> (ptr \<times> linx_field_type option) res" where
  "matcher_get_value_ptr ev hs fld =
    res_bind (linx_hash_map_get_value_ptr fld (ev_num ev) hs) (\<lambda>(p, ty).
      if p \<noteq> 0 \<and> fr_type fld = LINX_FIELD_TYPE_STRUCT
      then map_sum id (\<lambda>q. (q, ty)) (read_u64 (ev_heap ev) p)
      else Inr (p, ty))"

definition linx_str_lower :: "string \<Rightarrow> string" where
  "linx_str_lower str = map c_tolower str"

fun slot_int :: "slot \<Rightarrow> int res" where
  "slot_int (SlotInt v) = Inr v"
| "slot_int SlotUninit = Inl UninitRead"
| "slot_int _ = Inl TypePun"

fun slot_str :: "slot \<Rightarrow> string res" where
  "slot_str (SlotStr s) = Inr s"
| "slot_str SlotUninit = Inl UninitRead"
| "slot_str _ = Inl TypePun"

fun slot_list :: "slot \<Rightarrow> string list res" where
  "slot_list (SlotList xs) = Inr xs"
| "slot_list SlotUninit = Inl UninitRead"
| "slot_list _ = Inl TypePun"

definition num_matcher ::
  "(int \<Rightarrow> int \<Rightarrow> bool) \<Rightarrow> event_view \<Rightarrow> hash_state \<Rightarrow> field_result \<Rightarrow> slot \<Rightarrow> bool res" where
  "num_matcher cmp ev hs fld sl =
    res_bind (matcher_get_value_ptr ev hs fld) (\<lambda>(p, ty).
      if p = 0 then Inr False
      else res_bind (read_u64 (ev_heap ev) p) (\<lambda>w.
        map_sum id (cmp (sint w)) (slot_int sl)))"

definition num_gt_matcher where "num_gt_matcher = num_matcher (\<lambda>a b. a > b)"
definition num_ge_matcher where "num_ge_matcher = num_matcher (\<lambda>a b. a \<ge> b)"
definition num_lt_matcher where "num_lt_matcher = num_matcher (\<lambda>a b. a < b)"
definition num_le_matcher where "num_le_matcher = num_matcher (\<lambda>a b. a \<le> b)"

text \<open>The \<^verbatim>\<open>switch (type)\<close> of the string matchers: the text of the field, or \<open>None\<close> where the matcher
  answers false. \<open>raw\<close> are the types read as a character array in place, \<open>dflt\<close> is the default case.
  \<^verbatim>\<open>type\<close> is uninitialised when the value has no address.\<close>

definition text_operand ::
  "linx_field_type list \<Rightarrow> (unit \<Rightarrow> string option res) \<Rightarrow> event_view \<Rightarrow> hash_state \<Rightarrow> field_result \<Rightarrow>
   string option res" where
  "text_operand raw dflt ev hs fld =
    res_bind (matcher_get_value_ptr ev hs fld) (\<lambda>(p, ty).
      (case ty of
         None \<Rightarrow> Inl UninitRead
       | Some t \<Rightarrow>
           if List.member raw t then map_sum id Some (read_cstr (ev_heap ev) p)
           else if t = LINX_FIELD_TYPE_CHARBUF_ARRAY
           then map_sum id Some (res_bind (read_u64 (ev_heap ev) p) (read_cstr (ev_heap ev)))
           else dflt ()))"

definition charbuf_operand :: "event_view \<Rightarrow> hash_state \<Rightarrow> field_result \<Rightarrow> string option res" where
  "charbuf_operand = text_operand [LINX_FIELD_TYPE_CHARBUF] (\<lambda>_. Inr None)"

definition formatted_operand :: "event_view \<Rightarrow> hash_state \<Rightarrow> field_result \<Rightarrow> string option res" where
  "formatted_operand ev hs fld =
    map_sum id (\<lambda>(len, buf). if sint (ucast len :: 32 word) \<le> 0 then None else Some (cstr_of buf))
      (format_field_value ev hs fld (replicate 256 NUL) 256 0)"

definition str_assign_matcher ::
  "event_view \<Rightarrow> hash_state \<Rightarrow> field_result \<Rightarrow> slot \<Rightarrow> bool res" where
  "str_assign_matcher ev hs fld sl =
    res_bind (text_operand [LINX_FIELD_TYPE_CHARBUF, LINX_FIELD_TYPE_UID, LINX_FIELD_TYPE_PID]
                (\<lambda>_. formatted_operand ev hs fld) ev hs fld) (\<lambda>v.
      (case v of
         None \<Rightarrow> Inr False
       | Some value \<Rightarrow> map_sum id (\<lambda>str.
           if length value \<noteq> length str then False else strncmp_eq value str (length str)) (slot_str sl)))"

definition str_ne_matcher :: "event_view \<Rightarrow> hash_state \<Rightarrow> field_result \<Rightarrow> slot \<Rightarrow> bool res" where
  "str_ne_matcher ev hs fld sl = map_sum id Not (str_assign_matcher ev hs fld sl)"

definition charbuf_matcher ::
  "(string \<Rightarrow> string \<Rightarrow> bool) \<Rightarrow> event_view \<Rightarrow> hash_state \<Rightarrow> field_result \<Rightarrow> slot \<Rightarrow> bool res" where
  "charbuf_matcher test ev hs fld sl =
    res_bind (charbuf_operand ev hs fld) (\<lambda>v.
      (case v of None \<Rightarrow> Inr False | Some value \<Rightarrow> map_sum id (test value) (slot_str sl)))"

definition str_contains_matcher where
  "str_contains_matcher = charbuf_matcher (\<lambda>value str. strstr value str)"

definition str_icontains_matcher where
  "str_icontains_matcher = charbuf_matcher (\<lambda>value str. strstr (linx_str_lower value) (linx_str_lower str))"

definition str_startswith_matcher where
  "str_startswith_matcher = charbuf_matcher (\<lambda>value str.
     if length str > length value then False else strncmp_eq value str (length str))"

definition str_endswith_matcher where
  "str_endswith_matcher = charbuf_matcher (\<lambda>value str.
     if length str > length value then False
     else strncmp_eq (drop (length value - length str) value) str (length str))"

fun list_loop_in :: "string \<Rightarrow> string list \<Rightarrow> bool" where
  "list_loop_in value [] = False"
| "list_loop_in value (x # xs) =
     (if length value \<noteq> length x then list_loop_in value xs
      else if strncmp_eq value x (length x) then True
      else list_loop_in value xs)"

definition list_in_matcher :: "event_view \<Rightarrow> hash_state \<Rightarrow> field_result \<Rightarrow> slot \<Rightarrow> bool res" where
  "list_in_matcher ev hs fld sl =
    res_bind (text_operand [LINX_FIELD_TYPE_CHARBUF] (\<lambda>_. formatted_operand ev hs fld) ev hs fld) (\<lambda>v.
      (case v of
         None \<Rightarrow> Inr False
       | Some value \<Rightarrow> map_sum id (list_loop_in value) (slot_list sl)))"

text \<open>Calling a matcher through its pointer. A leaf matcher is never paired with another context.\<close>

fun leaf_matcher :: "match_func \<Rightarrow> event_view \<Rightarrow> hash_state \<Rightarrow> field_result \<Rightarrow> slot \<Rightarrow> bool res" where
  "leaf_matcher F_num_gt = num_gt_matcher"
| "leaf_matcher F_num_ge = num_ge_matcher"
| "leaf_matcher F_num_lt = num_lt_matcher"
| "leaf_matcher F_num_le = num_le_matcher"
| "leaf_matcher F_str_assign = str_assign_matcher"
| "leaf_matcher F_str_ne = str_ne_matcher"
| "leaf_matcher F_str_contains = str_contains_matcher"
| "leaf_matcher F_str_icontains = str_icontains_matcher"
| "leaf_matcher F_str_startswith = str_startswith_matcher"
| "leaf_matcher F_str_endswith = str_endswith_matcher"
| "leaf_matcher F_list_in = list_in_matcher"
| "leaf_matcher F_and = (\<lambda>ev hs fld sl. Inl TypePun)"
| "leaf_matcher F_or = (\<lambda>ev hs fld sl. Inl TypePun)"
| "leaf_matcher F_not = (\<lambda>ev hs fld sl. Inl TypePun)"

definition and_matcher :: "bool res \<Rightarrow> (unit \<Rightarrow> bool res) \<Rightarrow> bool res" where
  "and_matcher left right = res_bind left (\<lambda>result. if \<not> result then Inr result else right ())"

definition or_matcher :: "bool res \<Rightarrow> (unit \<Rightarrow> bool res) \<Rightarrow> bool res" where
  "or_matcher left right = res_bind left (\<lambda>result. if result then Inr result else right ())"

definition not_matcher :: "bool res \<Rightarrow> bool res" where
  "not_matcher operand = map_sum id Not operand"

fun linx_rule_engine_match :: "event_view \<Rightarrow> hash_state \<Rightarrow> linx_rule_match \<Rightarrow> bool res" where
  "linx_rule_engine_match ev hs (RuleMatch None ty ctx) = Inl WildCall"
| "linx_rule_engine_match ev hs (RuleMatch (Some f) ty (LeafContext fld sl)) = leaf_matcher f ev hs fld sl"
| "linx_rule_engine_match ev hs (RuleMatch (Some f) ty (UnaryContext None)) = Inl UninitRead"
| "linx_rule_engine_match ev hs (RuleMatch (Some f) ty (UnaryContext (Some m))) =
     (if f = F_not then not_matcher (linx_rule_engine_match ev hs m) else Inl TypePun)"
| "linx_rule_engine_match ev hs (RuleMatch (Some f) ty (LogicContext l r)) =
     (if f = F_and
      then and_matcher (linx_rule_engine_match ev hs l) (\<lambda>_. linx_rule_engine_match ev hs r)
      else if f = F_or
      then or_matcher (linx_rule_engine_match ev hs l) (\<lambda>_. linx_rule_engine_match ev hs r)
      else Inl TypePun)"

section \<open>Compilation\<close>

text \<open>\<^verbatim>\<open>items[i]->data.string_value\<close> through the union: a field name has its pointer at the same place.\<close>

fun item_string :: "ast_node \<Rightarrow> string res" where
  "item_string (AST_STRING s) = Inr s"
| "item_string (AST_FIELD_NAME n) = Inr n"
| "item_string AST_NULL = Inl NullDeref"
| "item_string AST_NONE = Inl NullDeref"
| "item_string _ = Inl TypePun"

fun item_strings :: "ast_node list \<Rightarrow> string list res" where
  "item_strings [] = Inr []"
| "item_strings (x # xs) = res_bind (item_string x) (\<lambda>s. map_sum id (Cons s) (item_strings xs))"

fun store_value :: "(nat \<Rightarrow> nat) \<Rightarrow> ast_node \<Rightarrow> slot res" where
  "store_value us (AST_INT v) = Inr (SlotInt v)"
| "store_value us (AST_FLOAT lexeme) = Inr (SlotFloat lexeme)"
| "store_value us (AST_STRING s) = Inr (SlotStr s)"
| "store_value us (AST_LIST xs) =
     (if us sizeof_num_context < sizeof_list_context then Inl OutOfBounds
      else map_sum id SlotList (item_strings xs))"
| "store_value us _ = Inr SlotUninit"

fun is_field_name :: "ast_node \<Rightarrow> bool" where
  "is_field_name (AST_FIELD_NAME n) = True"
| "is_field_name _ = False"

fun name_of :: "ast_node \<Rightarrow> string" where
  "name_of (AST_FIELD_NAME n) = n"
| "name_of _ = ''''"

text \<open>Return code, \<^verbatim>\<open>*name\<close> and the slot of the context.\<close>

definition find_field_name_and_value ::
  "(nat \<Rightarrow> nat) \<Rightarrow> ast_node \<Rightarrow> ast_node \<Rightarrow> (int \<times> string option \<times> slot) res" where
  "find_field_name_and_value us left right =
    (if left = AST_NULL \<or> right = AST_NULL then Inr (- 1, None, SlotUninit)
     else if is_field_name left
     then map_sum id (\<lambda>sl. (0, Some (name_of left), sl)) (store_value us right)
     else if is_field_name right
     then map_sum id (\<lambda>sl. (0, Some (name_of right), sl)) (store_value us left)
     else Inr (- 1, None, SlotUninit))"

text \<open>The common part of the three leaf compilers: a failed search is only logged.\<close>

definition compile_leaf ::
  "(nat \<Rightarrow> nat) \<Rightarrow> match_func option \<Rightarrow> ast_node \<Rightarrow> ast_node \<Rightarrow> hash_state \<Rightarrow>
   (linx_rule_match option \<times> hash_state) res" where
  "compile_leaf us f left right hs =
    res_bind (find_field_name_and_value us left right) (\<lambda>(ret, field_name, sl).
      (let (fld, hs1) = linx_hash_map_get_field_by_path True field_name hs
       in Inr (Some (RuleMatch f None (LeafContext fld sl)), hs1)))"

definition num_func :: "int \<Rightarrow> match_func option" where
  "num_func op =
    (if op = BINARY_NUM_OP_GT then Some F_num_gt else if op = BINARY_NUM_OP_GE then Some F_num_ge
     else if op = BINARY_NUM_OP_LT then Some F_num_lt else if op = BINARY_NUM_OP_LE then Some F_num_le
     else None)"

definition str_func :: "int \<Rightarrow> match_func option" where
  "str_func op =
    (if op = BINARY_STR_OP_ASSIGN then Some F_str_assign
     else if op = BINARY_STR_OP_NE then Some F_str_ne
     else if op = BINARY_STR_OP_CONTAINS then Some F_str_contains
     else if op = BINARY_STR_OP_ICONTAINS then Some F_str_icontains
     else if op = BINARY_STR_OP_STARTSWITH then Some F_str_startswith
     else if op = BINARY_STR_OP_ENDSWITH then Some F_str_endswith
     else None)"

definition list_func :: "int \<Rightarrow> match_func option" where
  "list_func op = (if op = BINARY_LIST_OP_IN then Some F_list_in else None)"

definition bool_func :: "int \<Rightarrow> match_func option" where
  "bool_func op =
    (if op = BINARY_BOOL_OP_OR then Some F_or else if op = BINARY_BOOL_OP_AND then Some F_and else None)"

definition compile_binary_num_node where
  "compile_binary_num_node us op left right hs = compile_leaf us (num_func op) left right hs"

definition compile_binary_str_node where
  "compile_binary_str_node us op left right hs = compile_leaf us (str_func op) left right hs"

definition compile_binary_list_node where
  "compile_binary_list_node us op left right hs = compile_leaf us (list_func op) left right hs"

definition compile_binary_bool_node ::
  "int \<Rightarrow> linx_rule_match option \<Rightarrow> linx_rule_match option \<Rightarrow> linx_rule_match option" where
  "compile_binary_bool_node op left right =
    (case (left, right) of
       (Some l, Some r) \<Rightarrow> Some (RuleMatch (bool_func op) None (LogicContext l r))
     | _ \<Rightarrow> None)"

definition compile_unary_node ::
  "int \<Rightarrow> (linx_rule_match option \<times> hash_state) res \<Rightarrow> hash_state \<Rightarrow>
   (linx_rule_match option \<times> hash_state) res" where
  "compile_unary_node op operand hs =
    (if op = UNARY_OP_NOT
     then map_sum id (\<lambda>(m, hs1).
       (map_option (\<lambda>x. RuleMatch (Some F_not) None (UnaryContext (Some x))) m, hs1)) operand
     else Inr (Some (RuleMatch None None (UnaryContext None)), hs))"

fun compile_ast ::
  "(nat \<Rightarrow> nat) \<Rightarrow> ast_node \<Rightarrow> hash_state \<Rightarrow> (linx_rule_match option \<times> hash_state) res" where
  "compile_ast us (AST_BIN_BOOL_OP op l r) hs =
     res_bind (compile_ast us l hs) (\<lambda>(left, hs1).
       res_bind (compile_ast us r hs1) (\<lambda>(right, hs2).
         Inr (compile_binary_bool_node op left right, hs2)))"
| "compile_ast us (AST_BIN_NUM_OP op l r) hs = compile_binary_num_node us op l r hs"
| "compile_ast us (AST_BIN_STR_OP op l r) hs = compile_binary_str_node us op l r hs"
| "compile_ast us (AST_BIN_LIST_OP op l r) hs = compile_binary_list_node us op l r hs"
| "compile_ast us (AST_UN_OP op x) hs = compile_unary_node op (compile_ast us x hs) hs"
| "compile_ast us _ hs = Inr (None, hs)"

text \<open>The new value of \<^verbatim>\<open>*match\<close> and how many blocks of the tree were given back.\<close>

definition linx_compile_ast ::
  "(nat \<Rightarrow> nat) \<Rightarrow> ast_node \<Rightarrow> linx_rule_match option \<Rightarrow> hash_state \<Rightarrow>
   (int \<times> linx_rule_match option \<times> nat \<times> hash_state) res" where
  "linx_compile_ast us ast mtch hs =
    (if ast = AST_NULL then Inr (- 1, mtch, 0, hs)
     else map_sum id (\<lambda>(m, hs1). (0, m, ast_node_destroy ast, hs1)) (compile_ast us ast hs))"

text \<open>The number of blocks freed. In the LOGIC case the left operand is destroyed twice.\<close>

fun linx_rule_engine_match_destroy :: "linx_rule_match \<Rightarrow> nat res" where
  "linx_rule_engine_match_destroy (RuleMatch f None ctx) = Inl UninitRead"
| "linx_rule_engine_match_destroy (RuleMatch f (Some ty) (LeafContext fld sl)) =
     (case ty of
        MATCH_CONTEXT_STR \<Rightarrow> map_sum id (\<lambda>_. 3) (slot_str sl)
      | MATCH_CONTEXT_NUM \<Rightarrow> Inr 2
      | MATCH_CONTEXT_LIST \<Rightarrow> map_sum id (\<lambda>xs. if xs = [] then 1 else length xs + 3) (slot_list sl)
      | _ \<Rightarrow> Inl TypePun)"
| "linx_rule_engine_match_destroy (RuleMatch f (Some ty) (UnaryContext opnd)) =
     (case ty of
        MATCH_CONTEXT_NUM \<Rightarrow> Inr 2
      | MATCH_CONTEXT_UNARY \<Rightarrow>
          (case opnd of None \<Rightarrow> Inl UninitRead
           | Some m \<Rightarrow> map_sum id (\<lambda>n. n + 2) (linx_rule_engine_match_destroy m))
      | _ \<Rightarrow> Inl TypePun)"
| "linx_rule_engine_match_destroy (RuleMatch f (Some ty) (LogicContext l r)) =
     (case ty of
        MATCH_CONTEXT_NUM \<Rightarrow> Inr 2
      | MATCH_CONTEXT_LOGIC \<Rightarrow> res_bind (linx_rule_engine_match_destroy l) (\<lambda>_. Inl UseAfterFree)
      | _ \<Rightarrow> Inl TypePun)"


section \<open>Meaning of a condition\<close>

text \<open>What a condition says of an event, independent of pointers and buffers: \<open>env_num\<close> and \<open>env_text\<close> give
  the number and the text at a path, \<open>env_chars\<close> says that the field is a character buffer.\<close>

record event_env =
  env_num :: "string \<Rightarrow> int"
  env_text :: "string \<Rightarrow> string"
  env_chars :: "string \<Rightarrow> bool"

definition num_holds :: "int \<Rightarrow> int \<Rightarrow> int \<Rightarrow> bool" where
  "num_holds op a b =
    (if op = BINARY_NUM_OP_GT then a > b else if op = BINARY_NUM_OP_GE then a \<ge> b
     else if op = BINARY_NUM_OP_LT then a < b else a \<le> b)"

definition str_holds :: "int \<Rightarrow> bool \<Rightarrow> string \<Rightarrow> string \<Rightarrow> bool" where
  "str_holds op chars v s =
    (if op = BINARY_STR_OP_ASSIGN then v = s else if op = BINARY_STR_OP_NE then v \<noteq> s
     else chars \<and>
       (if op = BINARY_STR_OP_CONTAINS then sublist s v
        else if op = BINARY_STR_OP_ICONTAINS then sublist (linx_str_lower s) (linx_str_lower v)
        else if op = BINARY_STR_OP_STARTSWITH then prefix s v
        else suffix s v))"

fun is_int :: "ast_node \<Rightarrow> bool" where
  "is_int (AST_INT v) = True"
| "is_int _ = False"

fun int_of_node :: "ast_node \<Rightarrow> int" where
  "int_of_node (AST_INT v) = v"
| "int_of_node _ = 0"

fun is_string :: "ast_node \<Rightarrow> bool" where
  "is_string (AST_STRING s) = True"
| "is_string _ = False"

fun string_of_node :: "ast_node \<Rightarrow> string" where
  "string_of_node (AST_STRING s) = s"
| "string_of_node _ = ''''"

fun items_of :: "ast_node \<Rightarrow> ast_node list option" where
  "items_of (AST_LIST xs) = Some xs"
| "items_of _ = None"

fun cond_holds :: "event_env \<Rightarrow> ast_node \<Rightarrow> bool" where
  "cond_holds en (AST_BIN_BOOL_OP op l r) =
     (if op = BINARY_BOOL_OP_OR then cond_holds en l \<or> cond_holds en r else cond_holds en l \<and> cond_holds en r)"
| "cond_holds en (AST_UN_OP op x) = (\<not> cond_holds en x)"
| "cond_holds en (AST_BIN_NUM_OP op l r) = num_holds op (env_num en (name_of l)) (int_of_node r)"
| "cond_holds en (AST_BIN_STR_OP op l r) =
     str_holds op (env_chars en (name_of l)) (env_text en (name_of l)) (string_of_node r)"
| "cond_holds en (AST_BIN_LIST_OP op l r) =
     (case items_of r of None \<Rightarrow> False | Some xs \<Rightarrow> AST_STRING (env_text en (name_of l)) \<in> set xs)"
| "cond_holds en _ = False"

text \<open>The conditions every operator of which has a matcher.\<close>

fun supported :: "ast_node \<Rightarrow> bool" where
  "supported (AST_BIN_BOOL_OP op l r) =
     ((op = BINARY_BOOL_OP_OR \<or> op = BINARY_BOOL_OP_AND) \<and> supported l \<and> supported r)"
| "supported (AST_UN_OP op x) = (op = UNARY_OP_NOT \<and> supported x)"
| "supported (AST_BIN_NUM_OP op l r) = (is_field_name l \<and> is_int r \<and> num_func op \<noteq> None)"
| "supported (AST_BIN_STR_OP op l r) = (is_field_name l \<and> is_string r \<and> str_func op \<noteq> None)"
| "supported (AST_BIN_LIST_OP op l r) =
     (is_field_name l \<and> pred_option (list_all is_string) (items_of r) \<and> items_of r \<noteq> None \<and> list_func op \<noteq> None)"
| "supported _ = False"

fun num_paths :: "ast_node \<Rightarrow> string list" where
  "num_paths (AST_BIN_BOOL_OP op l r) = num_paths l @ num_paths r"
| "num_paths (AST_UN_OP op x) = num_paths x"
| "num_paths (AST_BIN_NUM_OP op l r) = [name_of l]"
| "num_paths _ = []"

fun text_paths :: "ast_node \<Rightarrow> string list" where
  "text_paths (AST_BIN_BOOL_OP op l r) = text_paths l @ text_paths r"
| "text_paths (AST_UN_OP op x) = text_paths x"
| "text_paths (AST_BIN_STR_OP op l r) = [name_of l]"
| "text_paths (AST_BIN_LIST_OP op l r) = [name_of l]"
| "text_paths _ = []"

text \<open>The event has the number \<open>env_num en f\<close>, respectively the text \<open>env_text en f\<close>, at the field that
  path \<open>f\<close> was resolved to when the rules were loaded (\<open>hs0\<close>); \<open>hs\<close> has the table bases of the event.
  A text that goes through the 256-byte buffer must fit it.\<close>

definition charbuf_type :: "linx_field_type \<Rightarrow> bool" where
  "charbuf_type t \<longleftrightarrow> t = LINX_FIELD_TYPE_CHARBUF \<or> t = LINX_FIELD_TYPE_CHARBUF_ARRAY"

definition provides_num :: "event_view \<Rightarrow> hash_state \<Rightarrow> hash_state \<Rightarrow> event_env \<Rightarrow> string \<Rightarrow> bool" where
  "provides_num ev hs0 hs en f \<longleftrightarrow>
    (\<exists>p ty w. matcher_get_value_ptr ev hs (resolve hs0 f) = Inr (p, ty) \<and> p \<noteq> 0 \<and>
       read_u64 (ev_heap ev) p = Inr w \<and> env_num en f = sint w)"

definition provides_text :: "event_view \<Rightarrow> hash_state \<Rightarrow> hash_state \<Rightarrow> event_env \<Rightarrow> string \<Rightarrow> bool" where
  "provides_text ev hs0 hs en f \<longleftrightarrow>
    (\<exists>p t. matcher_get_value_ptr ev hs (resolve hs0 f) = Inr (p, Some t) \<and> p \<noteq> 0 \<and>
       field_text ev hs (resolve hs0 f) = Inr (env_text en f) \<and>
       env_chars en f = charbuf_type t \<and>
       (charbuf_type t \<or> (env_text en f \<noteq> [] \<and> length (env_text en f) < 255 \<and> NUL \<notin> set (env_text en f))))"

section \<open>Leaves\<close>

lemma strncmp_eq_full: "length a = length b \<Longrightarrow> strncmp_eq a b (length b) \<longleftrightarrow> a = b"
  by (simp add: strncmp_eq_def)

lemma startswith_iff: "(if length s > length v then False else strncmp_eq v s (length s)) \<longleftrightarrow> prefix s v"
  by (auto simp: strncmp_eq_def prefix_def) (metis append_take_drop_id)

lemma endswith_iff:
  "(if length s > length v then False else strncmp_eq (drop (length v - length s) v) s (length s)) \<longleftrightarrow> suffix s v"
  by (auto simp: strncmp_eq_def suffix_def) (metis append_take_drop_id)

lemma list_loop_in_iff: "list_loop_in v xs \<longleftrightarrow> v \<in> set xs"
  by (induction xs) (auto simp: strncmp_eq_full strncmp_eq_def)

text \<open>For a value with an address, the matcher and the formatter look at the same bytes.\<close>

lemma field_text_matcher:
  assumes "matcher_get_value_ptr ev hs fld = Inr (p, Some t)" "fr_found fld" "p \<noteq> 0"
  shows "field_text ev hs fld = render_value (ev_heap ev) (ev_float ev) (ev_double ev) t p"
  using assms
  by (auto simp: matcher_get_value_ptr_def field_text_def split: if_splits)

lemma value_ptr_found: "linx_hash_map_get_value_ptr fld n hs = Inr (p, Some t) \<Longrightarrow> fr_found fld"
  by (auto simp: linx_hash_map_get_value_ptr_def split: if_splits)

lemma matcher_found: "matcher_get_value_ptr ev hs fld = Inr (p, Some t) \<Longrightarrow> fr_found fld"
  using value_ptr_found by (fastforce simp: matcher_get_value_ptr_def split: if_splits)

lemma num_matcher_spec:
  assumes "provides_num ev hs0 hs en f"
  shows "num_matcher cmp ev hs (resolve hs0 f) (SlotInt v) = Inr (cmp (env_num en f) v)"
  using assms by (auto simp: provides_num_def num_matcher_def)

lemma num_leaf_spec:
  assumes "provides_num ev hs0 hs en f" "num_func op = Some fn"
  shows "leaf_matcher fn ev hs (resolve hs0 f) (SlotInt v) = Inr (num_holds op (env_num en f) v)"
  using assms(2) num_matcher_spec [OF assms(1)]
  by (auto simp: num_func_def num_holds_def num_gt_matcher_def num_ge_matcher_def num_lt_matcher_def
      num_le_matcher_def split: if_splits)

lemma formatted_operand_spec:
  assumes "field_text ev hs fld = Inr t" "t \<noteq> []" "length t < 255" "NUL \<notin> set t"
  shows "formatted_operand ev hs fld = Inr (Some t)"
proof -
  let ?b = "replicate 256 NUL"
  have c: "cstr_of ?b = []" by (simp add: cstr_of_def)
  have "NUL \<in> set ?b" by simp
  with strncat_at_end [of ?b t] assms c obtain b where b: "strncat_at 0 t ?b = Inr b" "cstr_of b = t"
    by auto
  have lt: "(0 + word_of_nat (length t) :: 64 word) < 256 - 1"
    using length_add_less_iff [of 0 "length t" 256] assms(3) by simp
  have pos: "(word_of_nat (length t) :: 64 word) > 0"
    using length_nonzero_iff [of "length t"] assms(2,3) by simp
  have "format_field_value ev hs fld ?b 256 0 = Inr (word_of_nat (length t), b)"
    using assms b(1) lt pos by (simp add: format_field_value_def Let_def)
  moreover have "sint (ucast (word_of_nat (length t) :: 64 word) :: 32 word) = int (length t)"
    using assms(3) by (intro result_length) simp
  ultimately show ?thesis using assms(2) b(2) by (simp add: formatted_operand_def)
qed

lemma text_operand_spec:
  assumes "provides_text ev hs0 hs en f" "set raw \<subseteq> {LINX_FIELD_TYPE_CHARBUF, LINX_FIELD_TYPE_UID, LINX_FIELD_TYPE_PID}"
    "LINX_FIELD_TYPE_CHARBUF \<in> set raw"
  shows "text_operand raw (\<lambda>_. formatted_operand ev hs (resolve hs0 f)) ev hs (resolve hs0 f) = Inr (Some (env_text en f))"
proof -
  from assms(1) obtain p t where p: "matcher_get_value_ptr ev hs (resolve hs0 f) = Inr (p, Some t)" "p \<noteq> 0"
    "field_text ev hs (resolve hs0 f) = Inr (env_text en f)"
    "charbuf_type t \<or> (env_text en f \<noteq> [] \<and> length (env_text en f) < 255 \<and> NUL \<notin> set (env_text en f))"
    by (auto simp: provides_text_def)
  have r: "render_value (ev_heap ev) (ev_float ev) (ev_double ev) t p = Inr (env_text en f)"
    using field_text_matcher [OF p(1) matcher_found [OF p(1)] p(2)] p(3) by simp
  consider "t \<in> set raw" | "t = LINX_FIELD_TYPE_CHARBUF_ARRAY" | "t \<notin> set raw" "\<not> charbuf_type t"
    using assms(3) by (auto simp: charbuf_type_def)
  then show ?thesis
  proof cases
    case 1
    then have "read_cstr (ev_heap ev) p = Inr (env_text en f)" using r assms(2) by (auto simp: render_value_def)
    then show ?thesis using 1 p(1) by (simp add: text_operand_def)
  next
    case 2
    then show ?thesis using r p(1) assms(2) by (auto simp: text_operand_def render_value_def)
  next
    case 3
    then have "formatted_operand ev hs (resolve hs0 f) = Inr (Some (env_text en f))"
      using formatted_operand_spec [OF p(3)] p(4) by simp
    then show ?thesis using 3 p(1) by (simp add: text_operand_def charbuf_type_def)
  qed
qed

lemma charbuf_operand_spec:
  assumes "provides_text ev hs0 hs en f"
  shows "charbuf_operand ev hs (resolve hs0 f) = Inr (if env_chars en f then Some (env_text en f) else None)"
proof -
  from assms obtain p t where p: "matcher_get_value_ptr ev hs (resolve hs0 f) = Inr (p, Some t)" "p \<noteq> 0"
    "field_text ev hs (resolve hs0 f) = Inr (env_text en f)" "env_chars en f = charbuf_type t"
    by (auto simp: provides_text_def)
  have "render_value (ev_heap ev) (ev_float ev) (ev_double ev) t p = Inr (env_text en f)"
    using field_text_matcher [OF p(1) matcher_found [OF p(1)] p(2)] p(3) by simp
  then show ?thesis
    using p(1,4) by (auto simp: charbuf_operand_def text_operand_def charbuf_type_def render_value_def)
qed

lemma str_assign_spec:
  assumes "provides_text ev hs0 hs en f"
  shows "str_assign_matcher ev hs (resolve hs0 f) (SlotStr s) = Inr (env_text en f = s)"
  using text_operand_spec [OF assms, of "[LINX_FIELD_TYPE_CHARBUF, LINX_FIELD_TYPE_UID, LINX_FIELD_TYPE_PID]"]
  by (auto simp: str_assign_matcher_def strncmp_eq_full)

lemma charbuf_matcher_spec:
  assumes "provides_text ev hs0 hs en f"
  shows "charbuf_matcher test ev hs (resolve hs0 f) (SlotStr s) = Inr (env_chars en f \<and> test (env_text en f) s)"
  using charbuf_operand_spec [OF assms] by (simp add: charbuf_matcher_def)

lemma str_leaf_spec:
  assumes "provides_text ev hs0 hs en f" "str_func op = Some fn"
  shows "leaf_matcher fn ev hs (resolve hs0 f) (SlotStr s) =
    Inr (str_holds op (env_chars en f) (env_text en f) s)"
  using assms(2) str_assign_spec [OF assms(1), of s] charbuf_matcher_spec [OF assms(1)]
  by (auto simp: str_func_def str_holds_def str_ne_matcher_def str_contains_matcher_def
      str_icontains_matcher_def str_startswith_matcher_def str_endswith_matcher_def strstr_iff
      startswith_iff endswith_iff split: if_splits)

lemma item_strings_spec:
  "list_all is_string xs \<Longrightarrow> \<exists>ss. item_strings xs = Inr ss \<and> (\<forall>v. AST_STRING v \<in> set xs \<longleftrightarrow> v \<in> set ss)"
proof (induction xs)
  case (Cons x xs)
  then show ?case by (cases x) auto
qed simp

lemma list_leaf_spec:
  assumes "provides_text ev hs0 hs en f"
  shows "leaf_matcher F_list_in ev hs (resolve hs0 f) (SlotList xs) = Inr (env_text en f \<in> set xs)"
  using text_operand_spec [OF assms, of "[LINX_FIELD_TYPE_CHARBUF]"]
  by (auto simp: list_in_matcher_def list_loop_in_iff)

section \<open>Compiler correctness\<close>

lemma resolve_cong: "s_linx_hash_map hs' = s_linx_hash_map hs \<Longrightarrow> resolve hs' f = resolve hs f"
  by (simp add: resolve_def linx_hash_map_get_field_by_path_def linx_hash_map_get_field_def Let_def
      split: option.splits prod.splits)

lemma get_field_by_path_map: "s_linx_hash_map (snd (linx_hash_map_get_field_by_path ok p hs)) = s_linx_hash_map hs"
  by (simp add: linx_hash_map_get_field_by_path_def Let_def split: option.splits prod.splits)

text \<open>A tree is compiled to a match that says what the tree says.\<close>

definition compiles :: "(nat \<Rightarrow> nat) \<Rightarrow> event_view \<Rightarrow> hash_state \<Rightarrow> event_env \<Rightarrow> ast_node \<Rightarrow> hash_state \<Rightarrow> bool" where
  "compiles us ev hs en t hs0 \<longleftrightarrow>
    (\<exists>m hs1. compile_ast us t hs0 = Inr (Some m, hs1) \<and> s_linx_hash_map hs1 = s_linx_hash_map hs0 \<and>
       linx_rule_engine_match ev hs m = Inr (cond_holds en t))"

lemma compile_leaf_field:
  assumes "is_field_name l" "r \<noteq> AST_NULL" "store_value us r = Inr sl"
  shows "\<exists>hs1. compile_leaf us f l r hs0 =
      Inr (Some (RuleMatch f None (LeafContext (resolve hs0 (name_of l)) sl)), hs1) \<and>
    s_linx_hash_map hs1 = s_linx_hash_map hs0"
  using assms get_field_by_path_map [of True "Some (name_of l)" hs0]
  by (cases l) (auto simp: compile_leaf_def find_field_name_and_value_def resolve_def split_beta Let_def)

lemma compiles_num:
  assumes "supported (AST_BIN_NUM_OP op l r)" "provides_num ev hs0 hs en (name_of l)"
  shows "compiles us ev hs en (AST_BIN_NUM_OP op l r) hs0"
proof -
  from assms(1) obtain v fn where r: "r = AST_INT v" "num_func op = Some fn" "is_field_name l"
    by (cases r) auto
  with compile_leaf_field [of l r us "SlotInt v" "Some fn" hs0] num_leaf_spec [OF assms(2) r(2)]
  show ?thesis by (auto simp: compiles_def compile_binary_num_node_def)
qed

lemma compiles_str:
  assumes "supported (AST_BIN_STR_OP op l r)" "provides_text ev hs0 hs en (name_of l)"
  shows "compiles us ev hs en (AST_BIN_STR_OP op l r) hs0"
proof -
  from assms(1) obtain s fn where r: "r = AST_STRING s" "str_func op = Some fn" "is_field_name l"
    by (cases r) auto
  with compile_leaf_field [of l r us "SlotStr s" "Some fn" hs0] str_leaf_spec [OF assms(2) r(2)]
  show ?thesis by (auto simp: compiles_def compile_binary_str_node_def)
qed

lemma compiles_list:
  assumes "supported (AST_BIN_LIST_OP op l r)" "provides_text ev hs0 hs en (name_of l)"
    "sizeof_list_context \<le> us sizeof_num_context"
  shows "compiles us ev hs en (AST_BIN_LIST_OP op l r) hs0"
proof -
  from assms(1) obtain xs where r: "r = AST_LIST xs" "list_all is_string xs" "list_func op = Some F_list_in"
    "is_field_name l" by (cases r) (auto simp: list_func_def split: if_splits)
  obtain ss where ss: "item_strings xs = Inr ss" "\<forall>v. AST_STRING v \<in> set xs \<longleftrightarrow> v \<in> set ss"
    using item_strings_spec [OF r(2)] by blast
  with r compile_leaf_field [of l r us "SlotList ss" "Some F_list_in" hs0] list_leaf_spec [OF assms(2), of ss] assms(3)
  show ?thesis by (auto simp: compiles_def compile_binary_list_node_def)
qed

lemma provides_cong:
  assumes "s_linx_hash_map hs0' = s_linx_hash_map hs0"
  shows "provides_num ev hs0' hs en = provides_num ev hs0 hs en"
    "provides_text ev hs0' hs en = provides_text ev hs0 hs en"
  using resolve_cong [OF assms] by (simp_all add: provides_num_def provides_text_def fun_eq_iff)

lemma compiles_supported:
  assumes "sizeof_list_context \<le> us sizeof_num_context"
  shows "supported t \<Longrightarrow> list_all (provides_num ev hs0 hs en) (num_paths t) \<Longrightarrow>
    list_all (provides_text ev hs0 hs en) (text_paths t) \<Longrightarrow> compiles us ev hs en t hs0"
proof (induction t arbitrary: hs0)
  case (AST_BIN_BOOL_OP op l r)
  then have "compiles us ev hs en l hs0" by simp
  then obtain m1 hs1 where l: "compile_ast us l hs0 = Inr (Some m1, hs1)"
    "s_linx_hash_map hs1 = s_linx_hash_map hs0" "linx_rule_engine_match ev hs m1 = Inr (cond_holds en l)"
    by (auto simp: compiles_def)
  have "compiles us ev hs en r hs1" using AST_BIN_BOOL_OP provides_cong [OF l(2)] by simp
  then obtain m2 hs2 where r: "compile_ast us r hs1 = Inr (Some m2, hs2)"
    "s_linx_hash_map hs2 = s_linx_hash_map hs1" "linx_rule_engine_match ev hs m2 = Inr (cond_holds en r)"
    by (auto simp: compiles_def)
  show ?case
    using AST_BIN_BOOL_OP.prems(1) l r
    by (auto simp: compiles_def compile_binary_bool_node_def bool_func_def and_matcher_def or_matcher_def)
next
  case (AST_UN_OP op x)
  then have "compiles us ev hs en x hs0" by simp
  then show ?case
    using AST_UN_OP.prems(1) by (auto simp: compiles_def compile_unary_node_def not_matcher_def)
next
  case (AST_BIN_NUM_OP op l r)
  then show ?case by (intro compiles_num) simp_all
next
  case (AST_BIN_STR_OP op l r)
  then show ?case by (intro compiles_str) simp_all
next
  case (AST_BIN_LIST_OP op l r)
  then show ?case by (intro compiles_list assms) simp_all
qed simp_all


text \<open>
  C6: compiled conditions mean what their trees say. For every tree whose operators have matchers, if
  the event has a number, respectively a text, at each path of the tree, compilation succeeds, gives
  back the nodes of the tree, and evaluating the match for the event answers exactly \<open>cond_holds\<close>:
  comparisons are signed 64-bit, \<^verbatim>\<open>and\<close>, \<^verbatim>\<open>or\<close>, \<^verbatim>\<open>not\<close> are the connectives, \<^verbatim>\<open>=\<close>, \<^verbatim>\<open>!=\<close> and \<^verbatim>\<open>in\<close> compare whole
  texts, \<^verbatim>\<open>contains\<close>, \<^verbatim>\<open>icontains\<close>, \<^verbatim>\<open>startswith\<close>, \<^verbatim>\<open>endswith\<close> are sublist, prefix and suffix on character
  buffers and false on other fields. Paths are resolved in the field map \<open>hs0\<close> at load time, values are
  read through the table bases \<open>hs\<close> of the event.
\<close>

theorem match_compile_correct:
  assumes "supported t" "sizeof_list_context \<le> us sizeof_num_context"
    and "list_all (provides_num ev hs0 hs en) (num_paths t)"
    and "list_all (provides_text ev hs0 hs en) (text_paths t)"
  shows "\<exists>m hs1. linx_compile_ast us t mtch hs0 = Inr (0, Some m, ast_node_destroy t, hs1) \<and>
    linx_rule_engine_match ev hs m = Inr (cond_holds en t)"
proof -
  have "t \<noteq> AST_NULL" using assms(1) by auto
  moreover have "compiles us ev hs en t hs0" using assms by (intro compiles_supported)
  ultimately show ?thesis by (auto simp: compiles_def linx_compile_ast_def)
qed

definition demo_env :: event_env where
  "demo_env = \<lparr>env_num = (\<lambda>_. 42), env_text = (\<lambda>_. ''42''), env_chars = (\<lambda>_. False)\<rparr>"

definition demo_tree :: ast_node where
  "demo_tree =
    AST_BIN_BOOL_OP BINARY_BOOL_OP_AND
      (AST_BIN_NUM_OP BINARY_NUM_OP_GT (AST_FIELD_NAME ''evt.num'') (AST_INT 5))
      (AST_UN_OP UNARY_OP_NOT
        (AST_BIN_LIST_OP BINARY_LIST_OP_IN (AST_FIELD_NAME ''evt.num'') (AST_LIST [AST_STRING ''7'', AST_STRING ''8''])))"

lemma demo_value:
  "matcher_get_value_ptr demo_event hm_demo_state (resolve hm_demo_state ''evt.num'') =
     Inr (4096, Some LINX_FIELD_TYPE_UINT64)"
  "read_u64 (ev_heap demo_event) 4096 = Inr 42"
  "field_text demo_event hm_demo_state (resolve hm_demo_state ''evt.num'') = Inr ''42''"
  by code_simp+

lemma demo_provides:
  "provides_num demo_event hm_demo_state hm_demo_state demo_env ''evt.num''"
  "provides_text demo_event hm_demo_state hm_demo_state demo_env ''evt.num''"
  using demo_value by (auto simp: provides_num_def provides_text_def demo_env_def charbuf_type_def NUL_def)

theorem match_compile_correct_witness:
  "\<exists>m hs1. linx_compile_ast (\<lambda>n. 88) demo_tree None hm_demo_state =
      Inr (0, Some m, ast_node_destroy demo_tree, hs1) \<and>
    linx_rule_engine_match demo_event hm_demo_state m = Inr True"
proof -
  have s: "supported demo_tree" "num_paths demo_tree = [''evt.num'']" "text_paths demo_tree = [''evt.num'']"
    "cond_holds demo_env demo_tree"
    by (simp_all add: demo_tree_def demo_env_def num_func_def list_func_def num_holds_def)
  then show ?thesis
    using match_compile_correct [of demo_tree "\<lambda>n. 88" demo_event hm_demo_state hm_demo_state demo_env None]
      demo_provides by (simp add: sizeof_list_context_def)
qed

section \<open>Operators without a matcher\<close>

definition func_missing :: "ast_node \<Rightarrow> bool" where
  "func_missing t =
    (case t of
       AST_BIN_NUM_OP op l r \<Rightarrow> num_func op = None
     | AST_BIN_STR_OP op l r \<Rightarrow> str_func op = None
     | AST_BIN_LIST_OP op l r \<Rightarrow> list_func op = None
     | AST_UN_OP op x \<Rightarrow> op \<noteq> UNARY_OP_NOT
     | _ \<Rightarrow> False)"



section \<open>Destruction\<close>

lemma compile_bool_type: "compile_binary_bool_node op l r = Some m \<Longrightarrow> \<exists>f ctx. m = RuleMatch f None ctx"
  by (auto simp: compile_binary_bool_node_def split: option.splits)

lemma compile_type_unset: "compile_ast us t hs0 = Inr (Some m, hs1) \<Longrightarrow> \<exists>f ctx. m = RuleMatch f None ctx"
proof (cases t)
  case (AST_BIN_BOOL_OP op l r)
  then show "compile_ast us t hs0 = Inr (Some m, hs1) \<Longrightarrow> \<exists>f ctx. m = RuleMatch f None ctx"
    by (auto dest: compile_bool_type)
qed (auto simp: compile_binary_num_node_def compile_binary_str_node_def compile_binary_list_node_def
      compile_leaf_def compile_unary_node_def split_beta Let_def eq_commute [of "Some m"] split: if_splits)

text \<open>
  The compiler never sets the \<^verbatim>\<open>type\<close> of a match, and the destructor switches on it: destroying any
  compiled match reads an uninitialised member.
\<close>

theorem match_destroy_reads_unset_type:
  assumes "compile_ast us t hs0 = Inr (Some m, hs1)"
  shows "linx_rule_engine_match_destroy m = Inl UninitRead"
  using compile_type_unset [OF assms] by auto

theorem match_destroy_reads_unset_type_witness:
  "map_sum id (\<lambda>(m, _). map_option linx_rule_engine_match_destroy m) (compile_ast (\<lambda>n. 88) demo_tree hm_demo_state) =
    Inr (Some (Inl UninitRead))"
proof -
  obtain m hs1 where m: "compile_ast (\<lambda>n. 88) demo_tree hm_demo_state = Inr (Some m, hs1)"
    using compiles_supported [of "\<lambda>n. 88" demo_tree demo_event hm_demo_state hm_demo_state demo_env] demo_provides
    by (auto simp: compiles_def sizeof_list_context_def demo_tree_def num_func_def list_func_def)
  from match_destroy_reads_unset_type [OF m] m show ?thesis by simp
qed

end
