(* ===== verification/Rule_Set.thy ===== *)
theory Rule_Set
  imports Alert Rule_Match
begin

text \<open>
  The rule set (\<^verbatim>\<open>linx_rule_engine_set.c\<close>) with the rule records of \<^verbatim>\<open>linx_rule_engine_load.c\<close>: three parallel
  arrays of rules, matches and outputs that grow together, and the evaluation of an event against
  them. The arrays are lists of their used entries; \<open>rs_rules_freed\<close> and \<open>rs_matches_freed\<close> say that the
  array pointer is left dangling by a failed growth.
\<close>

section \<open>Data\<close>

record linx_rule =
  r_name :: "string option"
  r_desc :: "string option"
  r_condition :: "string option"
  r_output :: "string option"
  r_priority :: "string option"
  r_tags :: bool
  r_chdesc :: "string option"
  r_title :: "string option"
  r_content :: "string option"

record linx_rule_set =
  rs_rules :: "linx_rule list"
  rs_matches :: "linx_rule_match list"
  rs_outputs :: "linx_output_match list"
  rs_capacity :: nat
  rs_rules_freed :: bool
  rs_matches_freed :: bool

definition linx_rule_create :: linx_rule where
  "linx_rule_create =
    \<lparr>r_name = None, r_desc = None, r_condition = None, r_output = None, r_priority = None, r_tags = False,
     r_chdesc = None, r_title = None, r_content = None\<rparr>"

text \<open>The number of blocks freed.\<close>

definition linx_rule_destroy :: "linx_rule option \<Rightarrow> nat" where
  "linx_rule_destroy rule =
    (case rule of
       None \<Rightarrow> 0
     | Some r \<Rightarrow>
         of_bool (r_name r \<noteq> None) + of_bool (r_desc r \<noteq> None) + of_bool (r_condition r \<noteq> None) +
         of_bool (r_output r \<noteq> None) + of_bool (r_priority r \<noteq> None) + of_bool (r_tags r) +
         of_bool (r_chdesc r \<noteq> None) + of_bool (r_title r \<noteq> None) + of_bool (r_content r \<noteq> None) + 1)"

section \<open>Operations\<close>

definition empty_rule_set :: linx_rule_set where
  "empty_rule_set = \<lparr>rs_rules = [], rs_matches = [], rs_outputs = [], rs_capacity = 0,
     rs_rules_freed = False, rs_matches_freed = False\<rparr>"

text \<open>The global \<^verbatim>\<open>rule_set\<close> is overwritten without a look at its old value.\<close>

definition linx_rule_set_init :: "bool \<Rightarrow> int \<times> linx_rule_set option" where
  "linx_rule_set_init ok = (if ok then (0, Some empty_rule_set) else (- 1, None))"

definition rs_size :: "linx_rule_set \<Rightarrow> nat" where
  "rs_size rs = length (rs_rules rs)"

text \<open>\<open>ok1\<close>, \<open>ok2\<close>, \<open>ok3\<close> are the outcomes of the three \<^verbatim>\<open>realloc\<close>s. A failure frees the arrays already moved; at
  capacity 0 the old pointers were NULL and stay NULL.\<close>

definition linx_rule_set_resize :: "bool \<Rightarrow> bool \<Rightarrow> bool \<Rightarrow> linx_rule_set \<Rightarrow> (int \<times> linx_rule_set) res" where
  "linx_rule_set_resize ok1 ok2 ok3 rs =
    (let new_capacity = (if rs_capacity rs = 0 then 16 else rs_capacity rs * 2)
     in if rs_rules_freed rs \<or> rs_matches_freed rs then Inl UseAfterFree
        else if \<not> ok1 then Inr (- 1, rs)
        else if \<not> ok2 then Inr (- 1, rs\<lparr>rs_rules_freed := rs_capacity rs > 0\<rparr>)
        else if \<not> ok3 then Inr (- 1, rs\<lparr>rs_rules_freed := rs_capacity rs > 0, rs_matches_freed := rs_capacity rs > 0\<rparr>)
        else Inr (0, rs\<lparr>rs_capacity := new_capacity\<rparr>))"

definition store_rule ::
  "linx_rule \<Rightarrow> linx_rule_match \<Rightarrow> linx_output_match \<Rightarrow> linx_rule_set \<Rightarrow> linx_rule_set" where
  "store_rule r m om rs =
    rs\<lparr>rs_rules := rs_rules rs @ [r], rs_matches := rs_matches rs @ [m], rs_outputs := rs_outputs rs @ [om]\<rparr>"

definition linx_rule_set_add ::
  "bool \<Rightarrow> bool \<Rightarrow> bool \<Rightarrow> linx_rule option \<Rightarrow> linx_rule_match option \<Rightarrow> linx_output_match option \<Rightarrow>
   linx_rule_set option \<Rightarrow> (int \<times> linx_rule_set option) res" where
  "linx_rule_set_add ok1 ok2 ok3 rule mtch output rule_set =
    (case (rule_set, rule, mtch, output) of
       (Some rs, Some r, Some m, Some om) \<Rightarrow>
         if rs_size rs \<ge> rs_capacity rs then
           res_bind (linx_rule_set_resize ok1 ok2 ok3 rs) (\<lambda>(ret, rs).
             if ret \<noteq> 0 then Inr (- 1, Some rs) else Inr (0, Some (store_rule r m om rs)))
         else if rs_rules_freed rs \<or> rs_matches_freed rs then Inl UseAfterFree
         else Inr (0, Some (store_rule r m om rs))
     | _ \<Rightarrow> Inr (- 1, rule_set))"

definition linx_rule_set_get :: "linx_rule_set option \<Rightarrow> linx_rule_set option" where
  "linx_rule_set_get rule_set = rule_set"

text \<open>The loop of \<^verbatim>\<open>linx_rule_set_match_rule\<close> from index \<open>i\<close> on; \<open>send\<close> is \<^verbatim>\<open>linx_alert_send_async\<close>, whose result
  is ignored.\<close>

fun match_loop ::
  "(linx_output_match option \<Rightarrow> string option \<Rightarrow> int \<Rightarrow> alert_state \<Rightarrow> (int \<times> alert_state) res) \<Rightarrow>
   event_view \<Rightarrow> hash_state \<Rightarrow> (linx_rule \<times> linx_rule_match \<times> linx_output_match) list \<Rightarrow> bool \<Rightarrow> alert_state \<Rightarrow>
   (bool \<times> alert_state) res" where
  "match_loop send ev hs [] rules_freed st = Inr (False, st)"
| "match_loop send ev hs ((r, m, om) # xs) rules_freed st =
     res_bind (linx_rule_engine_match ev hs m) (\<lambda>b.
       if b then
         if rules_freed then Inl UseAfterFree
         else map_sum id (\<lambda>(ret, st). (True, st)) (send (Some om) (r_name r) 0 st)
       else match_loop send ev hs xs rules_freed st)"

definition rs_entries :: "linx_rule_set \<Rightarrow> (linx_rule \<times> linx_rule_match \<times> linx_output_match) list" where
  "rs_entries rs = zip (rs_rules rs) (zip (rs_matches rs) (rs_outputs rs))"

definition linx_rule_set_match_rule ::
  "(linx_output_match option \<Rightarrow> string option \<Rightarrow> int \<Rightarrow> alert_state \<Rightarrow> (int \<times> alert_state) res) \<Rightarrow>
   event_view \<Rightarrow> hash_state \<Rightarrow> linx_rule_set option \<Rightarrow> alert_state \<Rightarrow> (bool \<times> alert_state) res" where
  "linx_rule_set_match_rule send ev hs rule_set st =
    (case rule_set of
       None \<Rightarrow> Inr (False, st)
     | Some rs \<Rightarrow>
         if rs_matches_freed rs \<and> rs_size rs > 0 then Inl UseAfterFree
         else match_loop send ev hs (rs_entries rs) (rs_rules_freed rs) st)"

text \<open>\<^verbatim>\<open>linx_rule_set_deinit\<close>: the number of blocks freed; the three arrays are not among them.\<close>

fun deinit_loop :: "(linx_rule \<times> linx_rule_match \<times> linx_output_match) list \<Rightarrow> nat res" where
  "deinit_loop [] = Inr 0"
| "deinit_loop ((r, m, om) # xs) =
     res_bind (linx_rule_engine_match_destroy m) (\<lambda>n.
       map_sum id (\<lambda>k. linx_rule_destroy (Some r) + n + linx_output_match_destroy (Some om) + k) (deinit_loop xs))"

definition linx_rule_set_deinit :: "linx_rule_set option \<Rightarrow> (nat \<times> linx_rule_set option) res" where
  "linx_rule_set_deinit rule_set =
    (case rule_set of
       None \<Rightarrow> Inr (0, None)
     | Some rs \<Rightarrow>
         if (rs_rules_freed rs \<or> rs_matches_freed rs) \<and> rs_size rs > 0 then Inl UseAfterFree
         else map_sum id (\<lambda>n. (n + 1, None)) (deinit_loop (rs_entries rs)))"

section \<open>Invariant\<close>

definition rs_inv :: "linx_rule_set \<Rightarrow> bool" where
  "rs_inv rs \<longleftrightarrow> length (rs_matches rs) = rs_size rs \<and> length (rs_outputs rs) = rs_size rs \<and>
     rs_size rs \<le> rs_capacity rs \<and> (rs_capacity rs = 0 \<or> (\<exists>k. rs_capacity rs = 16 * 2 ^ k))"

lemma rs_inv_empty: "rs_inv empty_rule_set"
  by (simp add: rs_inv_def empty_rule_set_def rs_size_def)

lemma rs_inv_resize:
  assumes "rs_inv rs" "linx_rule_set_resize ok1 ok2 ok3 rs = Inr (ret, rs')"
  shows "rs_inv rs' \<and> rs_entries rs' = rs_entries rs \<and> rs_size rs' = rs_size rs \<and>
    (ret = 0 \<longrightarrow> rs_size rs < rs_capacity rs' \<and> rs_rules_freed rs' = rs_rules_freed rs \<and> rs_matches_freed rs' = rs_matches_freed rs)"
proof -
  have "\<exists>j. (16 :: nat) * 2 ^ k * 2 = 16 * 2 ^ j" for k by (rule exI [of _ "Suc k"]) simp
  moreover have "\<exists>j. (16 :: nat) = 16 * 2 ^ j" by (rule exI [of _ 0]) simp
  moreover have "n \<le> 16 * 2 ^ k \<Longrightarrow> n < 32 * (2 :: nat) ^ k" for n k
    by (rule le_less_trans [of _ "16 * 2 ^ k"]) simp_all
  ultimately show ?thesis
    using assms by (auto simp: linx_rule_set_resize_def rs_inv_def rs_entries_def rs_size_def Let_def split: if_splits)
qed

lemma store_rule_inv:
  "rs_inv rs \<Longrightarrow> rs_size rs < rs_capacity rs \<Longrightarrow> rs_inv (store_rule r m om rs) \<and>
   rs_entries (store_rule r m om rs) = rs_entries rs @ [(r, m, om)]"
  by (auto simp: rs_inv_def store_rule_def rs_entries_def rs_size_def)

lemma rule_set_add_spec:
  assumes "rs_inv rs" "\<not> rs_rules_freed rs" "\<not> rs_matches_freed rs"
  shows "\<exists>rs'. linx_rule_set_add True True True (Some r) (Some m) (Some om) (Some rs) = Inr (0, Some rs') \<and> rs_inv rs' \<and>
    rs_entries rs' = rs_entries rs @ [(r, m, om)] \<and> \<not> rs_rules_freed rs' \<and> \<not> rs_matches_freed rs'"
proof (cases "rs_size rs \<ge> rs_capacity rs")
  case True
  let ?n = "if rs_capacity rs = 0 then 16 else rs_capacity rs * 2"
  have r: "linx_rule_set_resize True True True rs = Inr (0, rs\<lparr>rs_capacity := ?n\<rparr>)"
    using assms by (simp add: linx_rule_set_resize_def)
  from rs_inv_resize [OF assms(1) r] have "rs_inv (rs\<lparr>rs_capacity := ?n\<rparr>)" "rs_size rs < ?n"
    "rs_entries (rs\<lparr>rs_capacity := ?n\<rparr>) = rs_entries rs" by simp_all
  with store_rule_inv [of "rs\<lparr>rs_capacity := ?n\<rparr>" r m om] True r assms(2,3) show ?thesis
    by (simp add: linx_rule_set_add_def store_rule_def rs_size_def)
next
  case False
  with store_rule_inv [OF assms(1), of r m om] assms(2,3) show ?thesis
    by (simp add: linx_rule_set_add_def store_rule_def)
qed

fun add_all :: "(linx_rule \<times> linx_rule_match \<times> linx_output_match) list \<Rightarrow> linx_rule_set option \<Rightarrow> linx_rule_set option res" where
  "add_all [] s = Inr s"
| "add_all ((r, m, om) # xs) s =
     res_bind (linx_rule_set_add True True True (Some r) (Some m) (Some om) s) (\<lambda>(ret, s). add_all xs s)"

lemma add_all_spec:
  assumes "rs_inv rs" "\<not> rs_rules_freed rs" "\<not> rs_matches_freed rs"
  shows "\<exists>rs'. add_all xs (Some rs) = Inr (Some rs') \<and> rs_inv rs' \<and> rs_entries rs' = rs_entries rs @ xs \<and>
    \<not> rs_rules_freed rs' \<and> \<not> rs_matches_freed rs'"
  using assms
proof (induction xs arbitrary: rs)
  case (Cons x xs)
  obtain r m om where x: "x = (r, m, om)" by (cases x) auto
  obtain rs1 where "linx_rule_set_add True True True (Some r) (Some m) (Some om) (Some rs) = Inr (0, Some rs1)"
    "rs_inv rs1" "rs_entries rs1 = rs_entries rs @ [(r, m, om)]" "\<not> rs_rules_freed rs1" "\<not> rs_matches_freed rs1"
    using rule_set_add_spec [OF Cons.prems] by blast
  with Cons.IH [of rs1] x show ?case by auto
qed simp

text \<open>
  The rule set keeps what it is given. Adding any number of rules to a fresh set, as long as memory
  lasts, stores exactly these rules with their matches and outputs at equal positions and in order;
  the three arrays never overflow, and their capacity is 16 times a power of two.
\<close>

theorem rule_set_stores_rules:
  "\<exists>rs. add_all xs (snd (linx_rule_set_init True)) = Inr (Some rs) \<and> rs_entries rs = xs \<and>
    rs_size rs = length xs \<and> rs_size rs \<le> rs_capacity rs \<and>
    (rs_capacity rs = 0 \<or> (\<exists>k. rs_capacity rs = 16 * 2 ^ k))"
proof -
  have "rs_entries empty_rule_set = []" by (simp add: rs_entries_def empty_rule_set_def)
  moreover obtain rs where rs: "add_all xs (Some empty_rule_set) = Inr (Some rs)" "rs_inv rs"
    "rs_entries rs = rs_entries empty_rule_set @ xs"
    using add_all_spec [OF rs_inv_empty, of xs] by (auto simp: empty_rule_set_def)
  moreover have "length (rs_entries rs) = rs_size rs" using rs(2) by (simp add: rs_inv_def rs_entries_def rs_size_def)
  ultimately show ?thesis by (auto simp: linx_rule_set_init_def rs_inv_def)
qed

section \<open>Evaluation\<close>

lemma match_loop_find:
  assumes "list_all (\<lambda>(r, m, om). \<exists>b. linx_rule_engine_match ev hs m = Inr b) xs"
  shows "match_loop send ev hs xs False st =
    (case find (\<lambda>(r, m, om). linx_rule_engine_match ev hs m = Inr True) xs of
       None \<Rightarrow> Inr (False, st)
     | Some (r, m, om) \<Rightarrow> map_sum id (\<lambda>(ret, st). (True, st)) (send (Some om) (r_name r) 0 st))"
  using assms by (induction send ev hs xs False st rule: match_loop.induct) auto

text \<open>
  First match wins. When every match of the set can be evaluated for the event, the answer is true
  exactly if some rule matches, and the alert is raised once, with the output and the name of the
  first rule that matches in load order; if none matches, no alert is raised.
\<close>

theorem rule_set_first_match:
  assumes "\<not> rs_rules_freed rs" "\<not> rs_matches_freed rs"
    and "list_all (\<lambda>(r, m, om). \<exists>b. linx_rule_engine_match ev hs m = Inr b) (rs_entries rs)"
  shows "linx_rule_set_match_rule send ev hs (Some rs) st =
    (case find (\<lambda>(r, m, om). linx_rule_engine_match ev hs m = Inr True) (rs_entries rs) of
       None \<Rightarrow> Inr (False, st)
     | Some (r, m, om) \<Rightarrow> map_sum id (\<lambda>(ret, st). (True, st)) (send (Some om) (r_name r) 0 st))"
  using assms match_loop_find [OF assms(3), of send st] by (simp add: linx_rule_set_match_rule_def)

definition never_match :: linx_rule_match where
  "never_match = RuleMatch (Some F_num_gt) None (LeafContext empty_result (SlotInt 0))"

lemma never_match_false: "linx_rule_engine_match ev hs never_match = Inr False"
  by (simp add: never_match_def num_gt_matcher_def num_matcher_def matcher_get_value_ptr_def
      linx_hash_map_get_value_ptr_def empty_result_def)

definition always_match :: linx_rule_match where
  "always_match = RuleMatch (Some F_not) None (UnaryContext (Some never_match))"

lemma always_match_true: "linx_rule_engine_match ev hs always_match = Inr True"
  by (simp add: always_match_def not_matcher_def never_match_false)

definition demo_rule_set :: linx_rule_set where
  "demo_rule_set = \<lparr>rs_rules = [linx_rule_create\<lparr>r_name := Some ''a''\<rparr>, linx_rule_create\<lparr>r_name := Some ''b''\<rparr>, linx_rule_create\<lparr>r_name := Some ''c''\<rparr>],
     rs_matches = [never_match, always_match, always_match],
     rs_outputs = [\<lparr>segments = [], om_capacity = 0\<rparr>, \<lparr>segments = [], om_capacity = 2\<rparr>, \<lparr>segments = [], om_capacity = 0\<rparr>],
     rs_capacity = 16, rs_rules_freed = False, rs_matches_freed = False\<rparr>"

lemma demo_rule_set_evaluable:
  "list_all (\<lambda>(r, m, om). \<exists>b. linx_rule_engine_match ev hs m = Inr b) (rs_entries demo_rule_set)"
  unfolding demo_rule_set_def rs_entries_def by (auto simp: never_match_false always_match_true)

text \<open>A stand-in for \<^verbatim>\<open>linx_alert_send_async\<close> that writes the name of the rule.\<close>

definition write_name :: "linx_output_match option \<Rightarrow> string option \<Rightarrow> int \<Rightarrow> alert_state \<Rightarrow> (int \<times> alert_state) res" where
  "write_name om name priority st = Inr (0, st\<lparr>alert_stdout := alert_stdout st @ the name\<rparr>)"

theorem rule_set_first_match_witness:
  "linx_rule_set_match_rule write_name demo_event hm_demo_state (Some demo_rule_set)
     \<lparr>s_alert = Some demo_alert, alert_stdout = []\<rparr> =
   Inr (True, \<lparr>s_alert = Some demo_alert, alert_stdout = ''b''\<rparr>)"
proof -
  have "find (\<lambda>(r, m, om). linx_rule_engine_match demo_event hm_demo_state m = Inr True) (rs_entries demo_rule_set) =
      Some (linx_rule_create\<lparr>r_name := Some ''b''\<rparr>, always_match, \<lparr>segments = [], om_capacity = 2\<rparr>)"
    "\<not> rs_rules_freed demo_rule_set" "\<not> rs_matches_freed demo_rule_set"
    by (simp_all add: demo_rule_set_def rs_entries_def never_match_false always_match_true)
  then show ?thesis
    using rule_set_first_match [OF _ _ demo_rule_set_evaluable, of write_name demo_event hm_demo_state
        "\<lparr>s_alert = Some demo_alert, alert_stdout = []\<rparr>"]
    by (simp add: write_name_def)
qed

text \<open>
  A failed growth leaves dangling arrays behind. The three arrays are reallocated one after the
  other, and when a later one fails the earlier, already moved ones are freed while the set keeps
  their old addresses: the add is reported as failed, and the next event makes the loop read the
  freed match array.
\<close>

theorem rule_set_growth_failure_dangles:
  assumes "rs_size rs = rs_capacity rs" "0 < rs_capacity rs" "\<not> rs_rules_freed rs" "\<not> rs_matches_freed rs"
  shows "\<exists>rs'. linx_rule_set_add True True False (Some r) (Some m) (Some om) (Some rs) = Inr (- 1, Some rs') \<and>
    linx_rule_set_match_rule send ev hs (Some rs') st = Inl UseAfterFree"
  using assms
  by (auto simp: linx_rule_set_add_def linx_rule_set_resize_def linx_rule_set_match_rule_def rs_size_def)

theorem rule_set_growth_failure_dangles_witness:
  "\<exists>rs'. linx_rule_set_add True True False (Some linx_rule_create) (Some never_match) (Some \<lparr>segments = [], om_capacity = 0\<rparr>)
      (Some (demo_rule_set\<lparr>rs_capacity := 3\<rparr>)) = Inr (- 1, Some rs') \<and>
    linx_rule_set_match_rule write_name demo_event hm_demo_state (Some rs')
      \<lparr>s_alert = Some demo_alert, alert_stdout = []\<rparr> = Inl UseAfterFree"
  by (rule rule_set_growth_failure_dangles) (simp_all add: demo_rule_set_def rs_size_def)

end
