(* ===== verification/Rule_Lexer.thy ===== *)
theory Rule_Lexer
  imports Rule_Ast
begin

text \<open>
  The lexer of rule conditions (\<^verbatim>\<open>lexer.c\<close>) and the regular-expression wrapper it calls
  (\<^verbatim>\<open>linx_regex.c\<close>). PCRE2 is a parameter \<open>pm\<close>: for a pattern and a subject it answers the outcome of
  compiling and of the anchored match. \<open>last_token\<close> is a value of its own type because a quoted
  string without closing quote leaves a buffer without terminator behind.
\<close>

section \<open>linx\_regex.c\<close>

datatype pcre2_result =
    Pcre2CompileError
  | Pcre2NoMatchData
  | Pcre2Error int
  | Pcre2Match nat nat

datatype token =
    NoToken
  | Tok string
  | RawTok string

type_synonym pcre2 = "string \<Rightarrow> string \<Rightarrow> pcre2_result"

definition linx_regex_match :: "pcre2 \<Rightarrow> string \<Rightarrow> string \<Rightarrow> token \<Rightarrow> int \<times> token" where
  "linx_regex_match pm regex str old =
    (case pm regex str of
       Pcre2CompileError \<Rightarrow> (- 1, old)
     | Pcre2NoMatchData \<Rightarrow> (- 1, old)
     | Pcre2Error e \<Rightarrow> (e, old)
     | Pcre2Match a b \<Rightarrow> (int (b - a), Tok (take (b - a) (drop a str))))"

text \<open>What the lexer relies on: error codes of a failed match are negative, and an anchored match
  starts at offset 0 and ends inside the subject.\<close>

definition pcre2_anchored :: "pcre2 \<Rightarrow> bool" where
  "pcre2_anchored pm \<longleftrightarrow>
    (\<forall>r s. case pm r s of Pcre2Error e \<Rightarrow> e < 0 | Pcre2Match a b \<Rightarrow> a = 0 \<and> b \<le> length s | _ \<Rightarrow> True)"

section \<open>Lexer state\<close>

definition RGX_NOTBLANK :: string where
  "RGX_NOTBLANK = ''(not[[:space:]]+)''"
definition RGX_IDENTIFIER :: string where
  "RGX_IDENTIFIER = ''([a-zA-Z]+[a-zA-Z0-9_]*)''"
definition RGX_FIELDNAME :: string where
  "RGX_FIELDNAME = ''([a-zA-Z]+[a-zA-Z0-9_]*('' @ [CHR 0x5C] @ ''.[a-zA-Z]+[a-zA-Z0-9_]*)+)''"
definition RGX_FIELDARGBARESTR :: string where
  "RGX_FIELDARGBARESTR = ''([^]['' @ [CHR 0x22, CHR 0x27] @ ''[:space:]]+)''"
definition RGX_HEXNUM :: string where
  "RGX_HEXNUM = ''(0[xX][0-9a-fA-F]+)''"
definition RGX_NUMBER :: string where
  "RGX_NUMBER = ''([+'' @ [CHR 0x5C] @ ''-]?[0-9]+['' @ [CHR 0x5C] @ ''.]?[0-9]*([eE][+'' @ [CHR 0x5C] @
     ''-][0-9]+)?)''"
definition RGX_BARESTR :: string where
  "RGX_BARESTR = ''([^()'' @ [CHR 0x22, CHR 0x27] @ ''[:space:]=,]+)''"

record linx_lexer =
  input :: string
  line :: nat
  col :: nat
  idx :: nat
  lx_len :: nat
  last_token :: token

definition rest :: "linx_lexer \<Rightarrow> string" where
  "rest lx = drop (idx lx) (input lx)"

definition linx_lexer_update_last_token :: "string \<Rightarrow> linx_lexer \<Rightarrow> linx_lexer" where
  "linx_lexer_update_last_token str lx = lx\<lparr>last_token := Tok str\<rparr>"

definition linx_lexer_create :: "string \<Rightarrow> linx_lexer" where
  "linx_lexer_create inp =
    \<lparr>input = inp, line = 1, col = 1, idx = 0, lx_len = length inp, last_token = NoToken\<rparr>"

definition update_pos_char :: "char \<Rightarrow> linx_lexer \<Rightarrow> linx_lexer" where
  "update_pos_char c lx =
    (let lx = lx\<lparr>col := col lx + 1\<rparr>;
         lx = (if c = CHR 0x0D \<or> c = CHR 0x0A then lx\<lparr>line := line lx + 1, col := 1\<rparr> else lx)
     in lx\<lparr>idx := idx lx + 1\<rparr>)"

definition update_pos_str :: "string \<Rightarrow> nat \<Rightarrow> linx_lexer \<Rightarrow> linx_lexer" where
  "update_pos_str str len lx = fold update_pos_char (take len str) lx"

section \<open>Scanning\<close>

definition is_blank :: "char \<Rightarrow> bool" where
  "is_blank c \<longleftrightarrow> c \<in> {CHR 0x20, CHR 0x09, CHR 0x0A, CHR 0x0D, CHR 0x08}"

fun blank_loop :: "string \<Rightarrow> linx_lexer \<Rightarrow> linx_lexer" where
  "blank_loop [] lx = lx"
| "blank_loop (c # cs) lx = (if is_blank c then blank_loop cs (update_pos_char c lx) else lx)"

definition linx_lexer_blank :: "linx_lexer \<Rightarrow> bool \<times> linx_lexer" where
  "linx_lexer_blank lx =
    (rest lx \<noteq> [] \<and> is_blank (hd (rest lx)), blank_loop (rest lx) lx)"

abbreviation skip_blanks :: "linx_lexer \<Rightarrow> linx_lexer" where
  "skip_blanks lx \<equiv> snd (linx_lexer_blank lx)"

definition linx_lexer_find_str :: "string \<Rightarrow> linx_lexer \<Rightarrow> bool \<times> linx_lexer" where
  "linx_lexer_find_str str lx =
    (let len = length str
     in if strncmp_eq (rest lx) str len
        then (True, update_pos_str str len (linx_lexer_update_last_token str lx))
        else (False, lx))"

text \<open>The body shared by the seven regular-expression scanners.\<close>

definition lexer_regex :: "pcre2 \<Rightarrow> string \<Rightarrow> linx_lexer \<Rightarrow> bool \<times> linx_lexer" where
  "lexer_regex pm rgx lx =
    (let (ret, tok) = linx_regex_match pm rgx (rest lx) (last_token lx);
         lx = lx\<lparr>last_token := tok\<rparr>
     in if ret \<le> 0 then (False, lx)
        else (True, (case tok of Tok str \<Rightarrow> update_pos_str str (nat ret) lx | _ \<Rightarrow> lx)))"

definition linx_lexer_field_name :: "pcre2 \<Rightarrow> linx_lexer \<Rightarrow> bool \<times> linx_lexer" where
  "linx_lexer_field_name pm lx = lexer_regex pm RGX_FIELDNAME lx"
definition linx_lexer_not_blank :: "pcre2 \<Rightarrow> linx_lexer \<Rightarrow> bool \<times> linx_lexer" where
  "linx_lexer_not_blank pm lx = lexer_regex pm RGX_NOTBLANK lx"
definition linx_lexer_hex_num :: "pcre2 \<Rightarrow> linx_lexer \<Rightarrow> bool \<times> linx_lexer" where
  "linx_lexer_hex_num pm lx = lexer_regex pm RGX_HEXNUM lx"
definition linx_lexer_num :: "pcre2 \<Rightarrow> linx_lexer \<Rightarrow> bool \<times> linx_lexer" where
  "linx_lexer_num pm lx = lexer_regex pm RGX_NUMBER lx"
definition linx_lexer_identifier :: "pcre2 \<Rightarrow> linx_lexer \<Rightarrow> bool \<times> linx_lexer" where
  "linx_lexer_identifier pm lx = lexer_regex pm RGX_IDENTIFIER lx"
definition linx_lexer_field_arg_bare_str :: "pcre2 \<Rightarrow> linx_lexer \<Rightarrow> bool \<times> linx_lexer" where
  "linx_lexer_field_arg_bare_str pm lx = lexer_regex pm RGX_FIELDARGBARESTR lx"
definition linx_lexer_bare_str :: "pcre2 \<Rightarrow> linx_lexer \<Rightarrow> bool \<times> linx_lexer" where
  "linx_lexer_bare_str pm lx = lexer_regex pm RGX_BARESTR lx"

fun linx_lexer_find_operator_list :: "string list \<Rightarrow> linx_lexer \<Rightarrow> bool \<times> linx_lexer" where
  "linx_lexer_find_operator_list [] lx = (False, lx)"
| "linx_lexer_find_operator_list (x # xs) lx =
     (let (found, lx1) = linx_lexer_find_str x lx
      in if found then (True, lx1) else linx_lexer_find_operator_list xs lx1)"

definition linx_lexer_unary_op :: "linx_lexer \<Rightarrow> bool \<times> linx_lexer" where
  "linx_lexer_unary_op lx = linx_lexer_find_operator_list (take (2 - 1) g_unary_ops) lx"
definition linx_lexer_num_op :: "linx_lexer \<Rightarrow> bool \<times> linx_lexer" where
  "linx_lexer_num_op lx = linx_lexer_find_operator_list g_binary_num_ops lx"
definition linx_lexer_str_op :: "linx_lexer \<Rightarrow> bool \<times> linx_lexer" where
  "linx_lexer_str_op lx = linx_lexer_find_operator_list g_binary_str_ops lx"
definition linx_lexer_list_op :: "linx_lexer \<Rightarrow> bool \<times> linx_lexer" where
  "linx_lexer_list_op lx = linx_lexer_find_operator_list g_binary_list_ops lx"
definition linx_lexer_field_transformer_type :: "linx_lexer \<Rightarrow> bool \<times> linx_lexer" where
  "linx_lexer_field_transformer_type lx = linx_lexer_find_operator_list g_field_transformer_types lx"
definition linx_lexer_field_transformer_val :: "linx_lexer \<Rightarrow> bool \<times> linx_lexer" where
  "linx_lexer_field_transformer_val lx = linx_lexer_find_operator_list g_field_transformer_vals lx"

definition unescape_char :: "char \<Rightarrow> string" where
  "unescape_char c =
    (if c = CHR ''b'' then [CHR 0x08] else if c = CHR ''f'' then [CHR 0x0C]
     else if c = CHR ''n'' then [CHR 0x0A] else if c = CHR ''r'' then [CHR 0x0D]
     else if c = CHR ''t'' then [CHR 0x09]
     else if c = CHR '' '' \<or> c = CHR 0x5C then [CHR 0x5C]
     else if c = CHR ''/'' then [CHR ''/'']
     else if c = CHR 0x22 then [CHR 0x22] else if c = CHR 0x27 then [CHR 0x27]
     else [])"

text \<open>\<open>d\<close> is the closing delimiter, which a backslash right before it would consume.\<close>

fun unescape_body :: "char \<Rightarrow> string \<Rightarrow> string" where
  "unescape_body d [] = []"
| "unescape_body d [c] = (if c = CHR 0x5C then unescape_char d else [c])"
| "unescape_body d (c # e # cs) =
     (if c = CHR 0x5C then unescape_char e @ unescape_body d cs
      else c # unescape_body d (e # cs))"

definition unescape_str :: "string \<Rightarrow> string" where
  "unescape_str str = unescape_body (last str) (butlast (tl str))"

fun quoted_loop :: "char \<Rightarrow> char \<Rightarrow> string \<Rightarrow> string \<Rightarrow> linx_lexer \<Rightarrow> linx_lexer" where
  "quoted_loop d prev buf [] lx = lx\<lparr>last_token := RawTok buf\<rparr>"
| "quoted_loop d prev buf (c # cs) lx =
     (if c = d \<and> prev \<noteq> CHR 0x5C
      then (update_pos_char c lx)\<lparr>last_token := Tok (unescape_str (buf @ [d]))\<rparr>
      else quoted_loop d c (buf @ [c]) cs (update_pos_char c lx))"

definition linx_lexer_quoted_str :: "linx_lexer \<Rightarrow> bool \<times> linx_lexer" where
  "linx_lexer_quoted_str lx =
    (case rest lx of
       [] \<Rightarrow> (False, lx)
     | d # cs \<Rightarrow>
         if d = CHR 0x27 \<or> d = CHR 0x22
         then (True, quoted_loop d CHR 0x5C [] (d # cs) lx)
         else (False, lx))"

section \<open>Positions\<close>

text \<open>Every scanner keeps the input and only moves forward; a successful one that reads a
  non-empty text leaves a shorter rest. A token once read is never forgotten.\<close>

definition forward :: "linx_lexer \<Rightarrow> linx_lexer \<Rightarrow> bool" where
  "forward lx lx' \<longleftrightarrow> input lx' = input lx \<and> idx lx \<le> idx lx' \<and>
     (idx lx \<le> length (input lx) \<longrightarrow> idx lx' \<le> length (input lx)) \<and>
     (last_token lx = NoToken \<or> last_token lx' \<noteq> NoToken)"

lemma forward_refl [simp]: "forward lx lx"
  by (simp add: forward_def)

lemma forward_trans [trans]: "forward a b \<Longrightarrow> forward b c \<Longrightarrow> forward a c"
  by (auto simp: forward_def)

lemma forward_rest: "forward lx lx' \<Longrightarrow> length (rest lx') \<le> length (rest lx)"
  by (auto simp: forward_def rest_def)

lemma update_pos_char_simps [simp]:
  "input (update_pos_char c lx) = input lx" "idx (update_pos_char c lx) = Suc (idx lx)"
  "last_token (update_pos_char c lx) = last_token lx"
  by (simp_all add: update_pos_char_def Let_def)

lemma last_token_update_simps [simp]:
  "rest (lx\<lparr>last_token := t\<rparr>) = rest lx" "rest (linx_lexer_update_last_token s lx) = rest lx"
  by (simp_all add: rest_def linx_lexer_update_last_token_def)

lemma rest_update_pos_char [simp]: "rest (update_pos_char c lx) = tl (rest lx)"
  by (simp add: rest_def drop_Suc drop_tl)

lemma fold_update_pos:
  "input (fold update_pos_char s lx) = input lx"
  "idx (fold update_pos_char s lx) = idx lx + length s"
  "last_token (fold update_pos_char s lx) = last_token lx"
  by (induction s arbitrary: lx) simp_all

lemma update_pos_str_simps [simp]:
  "input (update_pos_str s n lx) = input lx"
  "idx (update_pos_str s n lx) = idx lx + min n (length s)"
  "last_token (update_pos_str s n lx) = last_token lx"
  by (simp_all add: update_pos_str_def fold_update_pos)

lemma rest_update_pos_str [simp]: "rest (update_pos_str s n lx) = drop (min n (length s)) (rest lx)"
  by (simp add: rest_def add.commute)

lemma rest_nonempty: "rest lx \<noteq> [] \<Longrightarrow> idx lx < length (input lx)"
  by (simp add: rest_def)

lemma length_rest: "length (rest lx) = length (input lx) - idx lx"
  by (simp add: rest_def)

lemma strncmp_eq_prefix: "strncmp_eq r str (length str) \<longleftrightarrow> (\<exists>r'. r = str @ r')"
  by (auto simp: strncmp_eq_def) (metis append_take_drop_id)

lemma find_str_rest:
  "rest lx = str @ r \<Longrightarrow> linx_lexer_find_str str lx =
     (True, update_pos_str str (length str) (linx_lexer_update_last_token str lx))"
  by (simp add: linx_lexer_find_str_def strncmp_eq_def)

lemma find_str_fails:
  "\<not> is_prefix str (rest lx) \<Longrightarrow> linx_lexer_find_str str lx = (False, lx)"
  by (auto simp: linx_lexer_find_str_def Let_def strncmp_eq_prefix is_prefix_iff)

lemma find_str_cases:
  obtains (found) r where "rest lx = str @ r" "fst (linx_lexer_find_str str lx)"
      "rest (snd (linx_lexer_find_str str lx)) = r" "last_token (snd (linx_lexer_find_str str lx)) = Tok str"
      "input (snd (linx_lexer_find_str str lx)) = input lx"
      "idx (snd (linx_lexer_find_str str lx)) = idx lx + length str"
  | (missed) "linx_lexer_find_str str lx = (False, lx)" "\<not> is_prefix str (rest lx)"
proof (cases "is_prefix str (rest lx)")
  case True
  then obtain r where r: "rest lx = str @ r" by (auto simp: is_prefix_iff prefix_def)
  show thesis
    by (rule found [OF r]) (simp_all add: find_str_rest [OF r] r linx_lexer_update_last_token_def)
next
  case False
  then show thesis using missed find_str_fails by blast
qed

lemma find_str_forward: "forward lx (snd (linx_lexer_find_str str lx))"
proof (cases rule: find_str_cases [of lx str])
  case (found r)
  have "idx lx + length str \<le> length (input lx)" if "idx lx \<le> length (input lx)"
    using that length_rest [of lx] unfolding found(1) length_append by linarith
  with found show ?thesis by (simp add: forward_def)
qed simp

lemma find_str_shorter:
  "fst (linx_lexer_find_str str lx) \<Longrightarrow> str \<noteq> [] \<Longrightarrow>
   length (rest (snd (linx_lexer_find_str str lx))) < length (rest lx)"
  by (cases rule: find_str_cases [of lx str]) auto

lemma blank_loop_forward: "rest lx = s \<Longrightarrow> forward lx (blank_loop s lx)"
proof (induction s arbitrary: lx)
  case (Cons c cs)
  then have "rest (update_pos_char c lx) = cs" by simp
  from Cons.IH [OF this] Cons.prems rest_nonempty [of lx] show ?case
    by (auto simp: forward_def)
qed simp

lemma blank_forward: "forward lx (skip_blanks lx)"
  by (simp add: linx_lexer_blank_def blank_loop_forward)

lemma last_token_skip_blanks [simp]: "last_token (skip_blanks lx) = last_token lx"
proof -
  have "last_token (blank_loop s lx) = last_token lx" for s lx
    by (induction s arbitrary: lx) auto
  then show ?thesis by (simp add: linx_lexer_blank_def)
qed

lemma rest_blank_loop: "rest lx = s \<Longrightarrow> rest (blank_loop s lx) = dropWhile is_blank s"
  by (induction s arbitrary: lx) auto

lemma rest_skip_blanks [simp]: "rest (skip_blanks lx) = dropWhile is_blank (rest lx)"
  by (simp add: linx_lexer_blank_def rest_blank_loop)

lemma lexer_regex_forward:
  assumes "pcre2_anchored pm"
  shows "forward lx (snd (lexer_regex pm rgx lx))"
    and "fst (lexer_regex pm rgx lx) \<Longrightarrow> length (rest (snd (lexer_regex pm rgx lx))) < length (rest lx)"
proof -
  have a: "case pm rgx (rest lx) of Pcre2Error e \<Rightarrow> e < 0
      | Pcre2Match a b \<Rightarrow> a = 0 \<and> b \<le> length (rest lx) | _ \<Rightarrow> True"
    using assms by (simp add: pcre2_anchored_def)
  show "forward lx (snd (lexer_regex pm rgx lx))"
    using a length_rest [of lx]
    by (auto simp: lexer_regex_def linx_regex_match_def forward_def Let_def
        split: pcre2_result.splits)
  show "fst (lexer_regex pm rgx lx) \<Longrightarrow> length (rest (snd (lexer_regex pm rgx lx))) < length (rest lx)"
    using a
    by (auto simp: lexer_regex_def linx_regex_match_def Let_def
        split: pcre2_result.splits if_splits)
qed

lemma operator_list_forward: "forward lx (snd (linx_lexer_find_operator_list ops lx))"
proof (induction ops arbitrary: lx)
  case (Cons x xs)
  show ?case
    using find_str_forward [of lx x] Cons.IH [of "snd (linx_lexer_find_str x lx)"]
    by (auto simp: split_beta Let_def intro: forward_trans)
qed simp

lemma operator_list_shorter:
  "fst (linx_lexer_find_operator_list ops lx) \<Longrightarrow> [] \<notin> set ops \<Longrightarrow>
   length (rest (snd (linx_lexer_find_operator_list ops lx))) < length (rest lx)"
proof (induction ops arbitrary: lx)
  case (Cons x xs)
  then show ?case
    using find_str_shorter [of x lx] forward_rest [OF find_str_forward [of lx x]]
    by (cases "fst (linx_lexer_find_str x lx)") (fastforce simp: split_beta Let_def)+
qed simp

lemma lexer_regex_token: "fst (lexer_regex pm rgx lx) \<Longrightarrow> pcre2_anchored pm \<Longrightarrow>
    last_token (snd (lexer_regex pm rgx lx)) \<noteq> NoToken"
proof -
  assume a: "fst (lexer_regex pm rgx lx)" "pcre2_anchored pm"
  then have "case pm rgx (rest lx) of Pcre2Error e \<Rightarrow> e < 0 | _ \<Rightarrow> True"
    by (auto simp: pcre2_anchored_def split: pcre2_result.splits)
  with a(1) show ?thesis
    by (auto simp: lexer_regex_def linx_regex_match_def Let_def split: pcre2_result.splits if_splits)
qed

lemma operator_list_token:
  "fst (linx_lexer_find_operator_list ops lx) \<Longrightarrow>
   \<exists>s \<in> set ops. last_token (snd (linx_lexer_find_operator_list ops lx)) = Tok s"
proof (induction ops arbitrary: lx)
  case (Cons x xs)
  then show ?case
    by (cases rule: find_str_cases [of lx x]) (auto simp: split_beta Let_def)
qed simp

lemma find_str_token:
  "fst (linx_lexer_find_str str lx) \<Longrightarrow> last_token (snd (linx_lexer_find_str str lx)) = Tok str"
  by (cases rule: find_str_cases [of lx str]) auto

lemma quoted_loop_forward: "rest lx = s \<Longrightarrow> forward lx (quoted_loop d prev buf s lx)"
proof (induction s arbitrary: lx prev buf)
  case Nil
  then show ?case by (simp add: forward_def)
next
  case (Cons c cs)
  then have "rest (update_pos_char c lx) = cs" by simp
  from Cons.IH [OF this, of c "buf @ [c]"] Cons.prems rest_nonempty [of lx] show ?case
    by (auto simp: forward_def)
qed

lemma quoted_str_forward: "forward lx (snd (linx_lexer_quoted_str lx))"
  by (auto simp: linx_lexer_quoted_str_def quoted_loop_forward
      simp del: quoted_loop.simps split: list.splits)

lemma quoted_str_token:
  "fst (linx_lexer_quoted_str lx) \<Longrightarrow> last_token (snd (linx_lexer_quoted_str lx)) \<noteq> NoToken"
proof -
  have "last_token (quoted_loop d prev buf s lx) \<noteq> NoToken" for d prev buf s lx
    by (induction s arbitrary: prev buf lx) auto
  then show "fst (linx_lexer_quoted_str lx) \<Longrightarrow> ?thesis"
    by (auto simp: linx_lexer_quoted_str_def simp del: quoted_loop.simps split: list.splits if_splits)
qed

lemmas lexer_scan_defs = linx_lexer_field_name_def linx_lexer_not_blank_def linx_lexer_hex_num_def
  linx_lexer_num_def linx_lexer_identifier_def linx_lexer_field_arg_bare_str_def
  linx_lexer_bare_str_def linx_lexer_unary_op_def linx_lexer_num_op_def linx_lexer_str_op_def
  linx_lexer_list_op_def linx_lexer_field_transformer_type_def linx_lexer_field_transformer_val_def

lemma scan_forward:
  "pcre2_anchored pm \<Longrightarrow> forward lx (snd (linx_lexer_field_name pm lx))"
  "pcre2_anchored pm \<Longrightarrow> forward lx (snd (linx_lexer_not_blank pm lx))"
  "pcre2_anchored pm \<Longrightarrow> forward lx (snd (linx_lexer_hex_num pm lx))"
  "pcre2_anchored pm \<Longrightarrow> forward lx (snd (linx_lexer_num pm lx))"
  "pcre2_anchored pm \<Longrightarrow> forward lx (snd (linx_lexer_identifier pm lx))"
  "pcre2_anchored pm \<Longrightarrow> forward lx (snd (linx_lexer_field_arg_bare_str pm lx))"
  "pcre2_anchored pm \<Longrightarrow> forward lx (snd (linx_lexer_bare_str pm lx))"
  "forward lx (snd (linx_lexer_unary_op lx))" "forward lx (snd (linx_lexer_num_op lx))"
  "forward lx (snd (linx_lexer_str_op lx))" "forward lx (snd (linx_lexer_list_op lx))"
  "forward lx (snd (linx_lexer_field_transformer_type lx))"
  "forward lx (snd (linx_lexer_field_transformer_val lx))"
  by (simp_all only: lexer_scan_defs lexer_regex_forward operator_list_forward)

section \<open>Operators that the lexer cannot read\<close>

text \<open>
  The operator tables are tried in order with a prefix comparison, and \<^verbatim>\<open>>\<close> stands before \<^verbatim>\<open>>=\<close>,
  \<^verbatim>\<open><\<close> before \<^verbatim>\<open><=\<close>: whatever follows, the lexer never reads \<^verbatim>\<open>>=\<close> or \<^verbatim>\<open><=\<close>. On an input starting with
  \<^verbatim>\<open>>=\<close> it answers \<^verbatim>\<open>>\<close> and leaves the \<^verbatim>\<open>=\<close> in front of the number.
\<close>

theorem num_op_ge_le_unreachable:
  "op_str_to_binary_num_op (case last_token (snd (linx_lexer_num_op (linx_lexer_create inp))) of
      Tok s \<Rightarrow> s | _ \<Rightarrow> '''') \<notin> {BINARY_NUM_OP_GE, BINARY_NUM_OP_LE} \<and>
   rest (snd (linx_lexer_num_op (linx_lexer_create (''>='' @ r)))) = ''='' @ r"
proof -
  let ?l = "linx_lexer_create inp"
  have t: "last_token (snd (linx_lexer_num_op ?l)) \<in> {NoToken, Tok ''>'', Tok ''<''}"
  proof (cases "is_prefix ''>'' (rest ?l) \<or> is_prefix ''<'' (rest ?l)")
    case True
    then show ?thesis
      by (auto simp: linx_lexer_num_op_def g_binary_num_ops_def linx_lexer_find_str_def Let_def
          strncmp_eq_def is_prefix_iff prefix_def linx_lexer_update_last_token_def)
  next
    case False
    then have "\<not> is_prefix s (rest ?l)" if "s \<in> set g_binary_num_ops" for s
      using that by (cases "rest ?l") (auto simp: g_binary_num_ops_def)
    then show ?thesis
      by (simp add: linx_lexer_num_op_def g_binary_num_ops_def find_str_fails linx_lexer_create_def)
  qed
  then have "op_str_to_binary_num_op (case last_token (snd (linx_lexer_num_op ?l)) of
      Tok s \<Rightarrow> s | _ \<Rightarrow> '''') \<notin> {BINARY_NUM_OP_GE, BINARY_NUM_OP_LE}"
    by (auto simp: op_str_to_binary_num_op_def g_binary_num_ops_def)
  moreover have "rest (linx_lexer_create (''>='' @ r)) = ''>'' @ ''='' @ r"
    by (simp add: rest_def linx_lexer_create_def)
  ultimately show ?thesis
    by (simp add: linx_lexer_num_op_def g_binary_num_ops_def find_str_rest)
qed

end
