(* ===== verification/Rule_Parser.thy ===== *)
theory Rule_Parser
  imports Rule_Lexer
begin

text \<open>
  The recursive-descent parser of rule conditions (\<^verbatim>\<open>linx_rule_engine_ast.c\<close>). Every function is the
  C function of the same name over an explicit lexer; \<open>pm\<close> is PCRE2 and \<open>us n\<close> the number of bytes that
  are usable in a heap block requested with size \<open>n\<close>, which decides whether the unchecked
  \<^verbatim>\<open>strcat\<close> of \<^verbatim>\<open>field[arg]\<close> stays inside its block. Recursion and loops are bounded by a fuel
  argument: \<open>None\<close> is running out of it, and \<open>condition_fuel\<close> is shown to be enough for every input.
  Uninitialised locals that the C code reads are the fault \<open>UninitRead\<close>.
\<close>

section \<open>Results\<close>

type_synonym 'a parse = "('a \<times> linx_lexer) res option"

fun pbind :: "'a parse \<Rightarrow> ('a \<Rightarrow> linx_lexer \<Rightarrow> 'b parse) \<Rightarrow> 'b parse" where
  "pbind None k = None"
| "pbind (Some (Inl f)) k = Some (Inl f)"
| "pbind (Some (Inr (x, lx))) k = k x lx"

definition pret :: "'a \<Rightarrow> linx_lexer \<Rightarrow> 'a parse" where
  "pret x lx = Some (Inr (x, lx))"

definition pfault :: "fault \<Rightarrow> 'a parse" where
  "pfault f = Some (Inl f)"

fun tok_str :: "token \<Rightarrow> string res" where
  "tok_str NoToken = Inl NullDeref"
| "tok_str (Tok s) = Inr s"
| "tok_str (RawTok s) = Inl Unterminated"

definition with_tok :: "linx_lexer \<Rightarrow> (string \<Rightarrow> 'a parse) \<Rightarrow> 'a parse" where
  "with_tok lx k = (case tok_str (last_token lx) of Inl f \<Rightarrow> pfault f | Inr s \<Rightarrow> k s)"

section \<open>Numbers\<close>

definition hex_digit :: "char \<Rightarrow> int" where
  "hex_digit c =
    (let n = (of_char c :: int)
     in if is_digit c then n - 48 else if 97 \<le> n \<and> n \<le> 102 then n - 87 else n - 55)"

definition strtoul16 :: "string \<Rightarrow> int" where
  "strtoul16 s = min (2 ^ 64 - 1) (fold (\<lambda>c v. v * 16 + hex_digit c) (drop 2 s) 0)"

definition to_long_long :: "int \<Rightarrow> int" where
  "to_long_long v = sint (word_of_int v :: 64 word)"

section \<open>Fields and transformers\<close>

definition parse_field_remainder :: "pcre2 \<Rightarrow> (nat \<Rightarrow> nat) \<Rightarrow> linx_lexer \<Rightarrow> ast_node parse" where
  "parse_field_remainder pm us lx =
    with_tok lx (\<lambda>name.
      (let (b, lx) = linx_lexer_find_str ''['' lx
       in if \<not> b then pret (ast_node_create_field_name name) lx
          else
            (let (q, lx) = linx_lexer_quoted_str lx;
                 (q, lx) = (if q then (True, lx) else linx_lexer_field_arg_bare_str pm lx)
             in if \<not> q then pret AST_NULL lx
                else with_tok lx (\<lambda>arg.
                  if length name + length arg + 2 > us (length name + 1) then pfault OutOfBounds
                  else
                    (let (c, lx) = linx_lexer_find_str '']'' lx
                     in if \<not> c then pret AST_NULL lx
                        else pret (ast_node_create_field_name (name @ ''.'' @ arg)) lx)))))"

definition close_paren :: "ast_node \<Rightarrow> ast_node \<Rightarrow> linx_lexer \<Rightarrow> ast_node parse" where
  "close_paren missing node lx =
    (let (c, lx) = linx_lexer_find_str '')'' (skip_blanks lx)
     in if \<not> c then pret missing lx else pret node lx)"

text \<open>\<open>transformer_tail\<close> is the part after the optional nested transformer; \<open>node\<close> is the local
  variable, \<open>None\<close> while it is not initialised.\<close>

definition transformer_tail ::
  "pcre2 \<Rightarrow> (nat \<Rightarrow> nat) \<Rightarrow> int \<Rightarrow> ast_node option \<Rightarrow> linx_lexer \<Rightarrow> ast_node parse" where
  "transformer_tail pm us op node lx =
    (let (f, lx) = linx_lexer_field_name pm lx
     in pbind (if f then pbind (parse_field_remainder pm us lx) (\<lambda>n. pret (Some n)) else pret node lx)
          (\<lambda>node lx.
            (case node of
               None \<Rightarrow> pfault UninitRead
             | Some AST_NULL \<Rightarrow> pret AST_NULL lx
             | Some n \<Rightarrow> close_paren AST_NULL (ast_node_create_field_transformer op n) lx)))"

fun parse_field_or_transformer_remainder ::
  "nat \<Rightarrow> pcre2 \<Rightarrow> (nat \<Rightarrow> nat) \<Rightarrow> linx_lexer \<Rightarrow> ast_node parse" where
  "parse_field_or_transformer_remainder 0 pm us lx = None"
| "parse_field_or_transformer_remainder (Suc n) pm us lx =
    with_tok lx (\<lambda>str.
      (let op = op_str_to_field_transformer_type str;
           (t, lx) = linx_lexer_field_transformer_type (skip_blanks lx)
       in if t then pbind (parse_field_or_transformer_remainder n pm us (skip_blanks lx))
                      (\<lambda>node. transformer_tail pm us op (Some node))
          else transformer_tail pm us op None lx))"

definition try_parse_transformer_or_val ::
  "nat \<Rightarrow> pcre2 \<Rightarrow> (nat \<Rightarrow> nat) \<Rightarrow> linx_lexer \<Rightarrow> ast_node parse" where
  "try_parse_transformer_or_val n pm us lx =
    (let (v, lx) = linx_lexer_field_transformer_val (skip_blanks lx)
     in if v then
          (let lx = skip_blanks lx
           in with_tok lx (\<lambda>str.
                (let op = op_str_to_field_transformer_val str;
                     (f, lx) = linx_lexer_field_name pm lx
                 in if \<not> f then pret AST_NULL lx
                    else pbind (parse_field_remainder pm us lx) (\<lambda>node lx.
                      close_paren AST_NULL (ast_node_create_field_transformer_val op node) lx))))
        else
          (let (t, lx) = linx_lexer_field_transformer_type lx
           in if t then parse_field_or_transformer_remainder n pm us (skip_blanks lx)
              else pret AST_NULL lx))"

section \<open>Right-hand sides\<close>

definition parse_num_value_or_transformer ::
  "nat \<Rightarrow> pcre2 \<Rightarrow> (nat \<Rightarrow> nat) \<Rightarrow> linx_lexer \<Rightarrow> ast_node parse" where
  "parse_num_value_or_transformer n pm us lx =
    pbind (try_parse_transformer_or_val n pm us (skip_blanks lx)) (\<lambda>node lx.
      if node \<noteq> AST_NULL then pret node lx
      else
        (let (h, lx) = linx_lexer_hex_num pm lx
         in if h then with_tok lx (\<lambda>s. pret (ast_node_create_number (to_long_long (strtoul16 s))) lx)
            else
              (let (d, lx) = linx_lexer_num pm lx
               in if d then with_tok lx (\<lambda>s.
                    if strstr s ''.'' then pret (ast_node_create_float s) lx
                    else pret (ast_node_create_number (fst (strtol s))) lx)
                  else pret AST_NULL lx)))"

definition parse_str_value_or_transformer ::
  "nat \<Rightarrow> pcre2 \<Rightarrow> (nat \<Rightarrow> nat) \<Rightarrow> bool \<Rightarrow> linx_lexer \<Rightarrow> ast_node parse" where
  "parse_str_value_or_transformer n pm us no_transformer lx =
    pbind (if no_transformer then pret AST_NULL (skip_blanks lx)
           else try_parse_transformer_or_val n pm us (skip_blanks lx)) (\<lambda>node lx.
      if node \<noteq> AST_NULL then pret node lx
      else
        (let (q, lx) = linx_lexer_quoted_str lx;
             (q, lx) = (if q then (True, lx) else linx_lexer_bare_str pm lx)
         in if q then with_tok lx (\<lambda>s. pret (ast_node_create_string s) lx)
            else pret AST_NULL lx))"

fun list_loop :: "nat \<Rightarrow> pcre2 \<Rightarrow> (nat \<Rightarrow> nat) \<Rightarrow> ast_node \<Rightarrow> linx_lexer \<Rightarrow> ast_node parse" where
  "list_loop 0 pm us items lx = None"
| "list_loop (Suc n) pm us items lx =
    (let (c, lx) = linx_lexer_find_str '','' (skip_blanks lx)
     in if \<not> c then pret items lx
        else pbind (parse_str_value_or_transformer n pm us True lx)
               (\<lambda>item. list_loop n pm us (add_item_to_list items item)))"

definition parse_list_value_or_transformer ::
  "nat \<Rightarrow> pcre2 \<Rightarrow> (nat \<Rightarrow> nat) \<Rightarrow> linx_lexer \<Rightarrow> ast_node parse" where
  "parse_list_value_or_transformer n pm us lx =
    (let (p, lx) = linx_lexer_find_str ''('' (skip_blanks lx)
     in if p then
          pbind (parse_str_value_or_transformer n pm us True (skip_blanks lx)) (\<lambda>item lx.
            pbind (if item = AST_NULL then pret ast_node_create_list lx
                   else list_loop n pm us (add_item_to_list ast_node_create_list item) lx)
              (\<lambda>items lx. pret items (snd (linx_lexer_find_str '')'' lx))))
        else
          pbind (try_parse_transformer_or_val n pm us lx) (\<lambda>item lx.
            if item = AST_NULL then pret AST_NULL lx
            else pret AST_NULL (snd (linx_lexer_identifier pm lx))))"

section \<open>Conditions\<close>

definition parse_condition ::
  "nat \<Rightarrow> pcre2 \<Rightarrow> (nat \<Rightarrow> nat) \<Rightarrow> ast_node \<Rightarrow> linx_lexer \<Rightarrow> ast_node parse" where
  "parse_condition n pm us left lx =
    (let (u, lx) = linx_lexer_unary_op (skip_blanks lx)
     in if u then with_tok lx (\<lambda>s. pret (ast_node_create_unary (op_str_to_unary_op s) left) lx)
        else
          (let (o1, lx) = linx_lexer_num_op (skip_blanks lx)
           in if o1 then with_tok lx (\<lambda>s.
                pbind (parse_num_value_or_transformer n pm us lx) (\<lambda>right.
                  pret (ast_node_create_binary_num (op_str_to_binary_num_op s) left right)))
              else
                (let (o2, lx) = linx_lexer_str_op lx
                 in if o2 then with_tok lx (\<lambda>s.
                      pbind (parse_str_value_or_transformer n pm us False lx) (\<lambda>right.
                        pret (ast_node_create_binary_str (op_str_to_binary_str_op s) left right)))
                    else
                      (let (o3, lx) = linx_lexer_list_op lx
                       in if o3 then with_tok lx (\<lambda>s.
                            pbind (parse_list_value_or_transformer n pm us lx) (\<lambda>right.
                              pret (ast_node_create_binary_list (op_str_to_binary_list_op s) left right)))
                          else pfault UninitRead))))"

fun not_loop :: "nat \<Rightarrow> pcre2 \<Rightarrow> bool \<Rightarrow> linx_lexer \<Rightarrow> bool parse" where
  "not_loop 0 pm is_not lx = None"
| "not_loop (Suc n) pm is_not lx =
    (let (b, lx) = linx_lexer_not_blank pm lx
     in if b then not_loop n pm (\<not> is_not) lx else pret is_not lx)"

definition wrap_not :: "bool \<Rightarrow> ast_node \<Rightarrow> ast_node" where
  "wrap_not is_not left = (if is_not then ast_node_create_unary UNARY_OP_NOT left else left)"

text \<open>In \<open>and_loop\<close> and \<open>or_loop\<close>, \<open>left\<close> is the tree built so far and \<open>right\<close> the local variable that
  keeps its previous value when neither a blank nor a parenthesis follows the operator.\<close>

function (sequential) parse_check :: "nat \<Rightarrow> pcre2 \<Rightarrow> (nat \<Rightarrow> nat) \<Rightarrow> linx_lexer \<Rightarrow> ast_node parse"
  and parse_not :: "nat \<Rightarrow> pcre2 \<Rightarrow> (nat \<Rightarrow> nat) \<Rightarrow> linx_lexer \<Rightarrow> ast_node parse"
  and and_loop :: "nat \<Rightarrow> pcre2 \<Rightarrow> (nat \<Rightarrow> nat) \<Rightarrow> ast_node \<Rightarrow> ast_node option \<Rightarrow> linx_lexer \<Rightarrow>
      ast_node parse"
  and parse_and :: "nat \<Rightarrow> pcre2 \<Rightarrow> (nat \<Rightarrow> nat) \<Rightarrow> linx_lexer \<Rightarrow> ast_node parse"
  and or_loop :: "nat \<Rightarrow> pcre2 \<Rightarrow> (nat \<Rightarrow> nat) \<Rightarrow> ast_node \<Rightarrow> ast_node option \<Rightarrow> linx_lexer \<Rightarrow>
      ast_node parse"
  and parse_or :: "nat \<Rightarrow> pcre2 \<Rightarrow> (nat \<Rightarrow> nat) \<Rightarrow> linx_lexer \<Rightarrow> ast_node parse"
  and parse_embedded_remainder :: "nat \<Rightarrow> pcre2 \<Rightarrow> (nat \<Rightarrow> nat) \<Rightarrow> linx_lexer \<Rightarrow> ast_node parse"
where
  "parse_check 0 pm us lx = None"
| "parse_check (Suc n) pm us lx =
    (let (p, lx) = linx_lexer_find_str ''('' (skip_blanks lx)
     in if p then parse_embedded_remainder n pm us lx
        else
          (let (f, lx) = linx_lexer_field_name pm lx
           in if f then pbind (parse_field_remainder pm us lx) (parse_condition n pm us)
              else
                (let (t, lx) = linx_lexer_field_transformer_type lx
                 in if t then pbind (parse_field_or_transformer_remainder n pm us (skip_blanks lx))
                                (parse_condition n pm us)
                    else pret AST_NULL (snd (linx_lexer_identifier pm lx)))))"
| "parse_not 0 pm us lx = None"
| "parse_not (Suc n) pm us lx =
    pbind (not_loop n pm False (skip_blanks lx)) (\<lambda>is_not lx.
      (let (p, lx) = linx_lexer_find_str ''not('' lx
       in if p then pbind (parse_embedded_remainder n pm us lx) (\<lambda>left. pret (wrap_not (\<not> is_not) left))
          else pbind (parse_check n pm us lx) (\<lambda>left. pret (wrap_not is_not left))))"
| "and_loop 0 pm us left right lx = None"
| "and_loop (Suc n) pm us left right lx =
    (let (a, lx) = linx_lexer_find_str (g_binary_bool_ops ! nat BINARY_BOOL_OP_AND) lx
     in if \<not> a then pret left lx
        else
          (let (b, lx) = linx_lexer_blank lx
           in pbind (if \<not> b then
                       (let (p, lx) = linx_lexer_find_str ''('' lx
                        in if p then pbind (parse_embedded_remainder n pm us lx) (\<lambda>r. pret (Some r))
                           else pret right lx)
                     else pbind (parse_not n pm us lx) (\<lambda>r. pret (Some r)))
                (\<lambda>right lx.
                  (case right of
                     None \<Rightarrow> pfault UninitRead
                   | Some r \<Rightarrow> and_loop n pm us (ast_node_create_binary_bool BINARY_BOOL_OP_AND left r)
                                 right (skip_blanks lx)))))"
| "parse_and 0 pm us lx = None"
| "parse_and (Suc n) pm us lx =
    pbind (parse_not n pm us (skip_blanks lx)) (\<lambda>left lx. and_loop n pm us left None (skip_blanks lx))"
| "or_loop 0 pm us left right lx = None"
| "or_loop (Suc n) pm us left right lx =
    (let (a, lx) = linx_lexer_find_str (g_binary_bool_ops ! nat BINARY_BOOL_OP_OR) lx
     in if \<not> a then pret left lx
        else
          (let (b, lx) = linx_lexer_blank lx
           in pbind (if \<not> b then
                       (let (p, lx) = linx_lexer_find_str ''('' lx
                        in if p then pbind (parse_embedded_remainder n pm us lx) (\<lambda>r. pret (Some r))
                           else pret right lx)
                     else pbind (parse_and n pm us lx) (\<lambda>r. pret (Some r)))
                (\<lambda>right lx.
                  (case right of
                     None \<Rightarrow> pfault UninitRead
                   | Some r \<Rightarrow> or_loop n pm us (ast_node_create_binary_bool BINARY_BOOL_OP_OR left r)
                                 right (skip_blanks lx)))))"
| "parse_or 0 pm us lx = None"
| "parse_or (Suc n) pm us lx =
    pbind (parse_and n pm us (skip_blanks lx)) (\<lambda>left lx. or_loop n pm us left None (skip_blanks lx))"
| "parse_embedded_remainder 0 pm us lx = None"
| "parse_embedded_remainder (Suc n) pm us lx =
    pbind (parse_or n pm us (skip_blanks lx)) (\<lambda>node lx.
      pret node (snd (linx_lexer_find_str '')'' (skip_blanks lx))))"

  by pat_completeness auto

termination
  by (relation "measure (case_sum (case_sum fst (case_sum fst fst))
        (case_sum (case_sum fst fst) (case_sum fst fst)))") simp_all

text \<open>\<open>condition_to_ast\<close> answers the return code and the tree stored in \<^verbatim>\<open>*ast_root\<close>; the lexer is
  created, and the length of a NULL condition taken, before the NULL check.\<close>

definition condition_fuel :: "string \<Rightarrow> nat" where
  "condition_fuel cond = 8 * length cond + 16"

definition condition_to_ast ::
  "pcre2 \<Rightarrow> (nat \<Rightarrow> nat) \<Rightarrow> string option \<Rightarrow> (int \<times> ast_node) res option" where
  "condition_to_ast pm us condition =
    (case condition of
       None \<Rightarrow> Some (Inl NullDeref)
     | Some cond \<Rightarrow>
         (case parse_or (condition_fuel cond) pm us (linx_lexer_create cond) of
            None \<Rightarrow> None
          | Some (Inl f) \<Rightarrow> Some (Inl f)
          | Some (Inr (ast, lx)) \<Rightarrow> Some (Inr (if ast = AST_NULL then - 1 else 0, ast))))"

section \<open>The parser always returns\<close>

definition parser_fault :: "fault \<Rightarrow> bool" where
  "parser_fault f \<longleftrightarrow> f \<in> {UninitRead, OutOfBounds, Unterminated}"

text \<open>\<open>ends lx p\<close>: the result is there, its fault is one of the three kinds, and the lexer it leaves
  is ahead of \<open>lx\<close>.\<close>

definition ends :: "linx_lexer \<Rightarrow> 'a parse \<Rightarrow> bool" where
  "ends lx p \<longleftrightarrow> (case p of None \<Rightarrow> False | Some (Inl f) \<Rightarrow> parser_fault f
     | Some (Inr (x, lx')) \<Rightarrow> forward lx lx')"

lemma ends_pret [simp]: "ends lx (pret x lx') \<longleftrightarrow> forward lx lx'"
  by (simp add: ends_def pret_def)

lemma ends_pfault [simp]: "ends lx (pfault f) \<longleftrightarrow> parser_fault f"
  by (simp add: ends_def pfault_def)

lemma ends_mono: "forward a b \<Longrightarrow> ends b p \<Longrightarrow> ends a p"
  by (auto simp: ends_def split: option.splits sum.splits intro: forward_trans)

lemma ends_pbind:
  assumes "ends lx p" "\<And>x lx'. forward lx lx' \<Longrightarrow> ends lx' (k x lx')"
  shows "ends lx (pbind p k)"
proof (cases "(p, k)" rule: pbind.cases)
  case (3 x lx' k')
  then have "forward lx lx'" using assms(1) by (simp add: ends_def)
  with 3 assms(2) [of lx' x] show ?thesis using ends_mono by auto
qed (use assms(1) in \<open>auto simp: ends_def\<close>)

lemma ends_with_tok:
  assumes "last_token l \<noteq> NoToken" "\<And>s. ends lx (k s)"
  shows "ends lx (with_tok l k)"
  using assms by (cases "last_token l") (simp_all add: with_tok_def parser_fault_def)

lemma parser_fault_simps [simp]: "parser_fault UninitRead" "parser_fault OutOfBounds"
  by (simp_all add: parser_fault_def)

lemma operator_tables_nonempty:
  "[] \<notin> set g_binary_num_ops" "[] \<notin> set g_binary_str_ops" "[] \<notin> set g_binary_list_ops"
  "[] \<notin> set g_field_transformer_types" "[] \<notin> set g_field_transformer_vals"
  "[] \<notin> set (take (2 - 1) g_unary_ops)"
  by code_simp+

text \<open>Scanner calls as cases: success moves forward, shortens the rest and sets the token.\<close>

definition scans :: "linx_lexer \<Rightarrow> bool \<times> linx_lexer \<Rightarrow> bool" where
  "scans lx r \<longleftrightarrow> forward lx (snd r) \<and>
     (fst r \<longrightarrow> length (rest (snd r)) < length (rest lx) \<and> last_token (snd r) \<noteq> NoToken)"

lemma scans_find_str: "str \<noteq> [] \<Longrightarrow> scans lx (linx_lexer_find_str str lx)"
  by (simp add: scans_def find_str_forward find_str_shorter find_str_token)

lemma scans_regex: "pcre2_anchored pm \<Longrightarrow> scans lx (lexer_regex pm rgx lx)"
  by (simp add: scans_def lexer_regex_forward lexer_regex_token)

lemma scans_operator_list: "[] \<notin> set ops \<Longrightarrow> scans lx (linx_lexer_find_operator_list ops lx)"
  using operator_list_token [of ops lx]
  by (auto simp: scans_def operator_list_forward operator_list_shorter)

lemmas scans_ops = scans_operator_list [OF operator_tables_nonempty(1)]
  scans_operator_list [OF operator_tables_nonempty(2)]
  scans_operator_list [OF operator_tables_nonempty(3)]
  scans_operator_list [OF operator_tables_nonempty(4)]
  scans_operator_list [OF operator_tables_nonempty(5)]
  scans_operator_list [OF operator_tables_nonempty(6)]

lemma scans_all:
  "scans lx (linx_lexer_unary_op lx)" "scans lx (linx_lexer_num_op lx)" "scans lx (linx_lexer_str_op lx)"
  "scans lx (linx_lexer_list_op lx)" "scans lx (linx_lexer_field_transformer_type lx)"
  "scans lx (linx_lexer_field_transformer_val lx)"
  by (simp_all only: lexer_scan_defs scans_ops)

lemma scans_regexes:
  assumes "pcre2_anchored pm"
  shows "scans lx (linx_lexer_field_name pm lx)" "scans lx (linx_lexer_not_blank pm lx)"
    "scans lx (linx_lexer_hex_num pm lx)" "scans lx (linx_lexer_num pm lx)"
    "scans lx (linx_lexer_identifier pm lx)" "scans lx (linx_lexer_field_arg_bare_str pm lx)"
    "scans lx (linx_lexer_bare_str pm lx)"
  by (simp_all only: lexer_scan_defs scans_regex [OF assms])

text \<open>One rule per scanner call: the two continuations start from a lexer ahead of the old one.\<close>

lemma scan_if:
  assumes "scans lx r" "forward a lx"
    and "\<And>lx'. forward lx lx' \<Longrightarrow> length (rest lx') < length (rest lx) \<Longrightarrow> last_token lx' \<noteq> NoToken \<Longrightarrow>
           ends lx' (f lx')"
    and "\<And>lx'. forward lx lx' \<Longrightarrow> ends lx' (g lx')"
  shows "ends a (case r of (b, lx') \<Rightarrow> if b then f lx' else g lx')"
    and "ends a (case r of (b, lx') \<Rightarrow> if \<not> b then g lx' else f lx')"
proof -
  obtain b lx' where r: "r = (b, lx')" by fastforce
  then have fw: "forward lx lx'" "forward a lx'" using assms(1,2) by (auto simp: scans_def intro: forward_trans)
  have "ends lx' (if b then f lx' else g lx')"
    using assms(1,3,4) r fw by (auto simp: scans_def)
  then have "ends a (if b then f lx' else g lx')" using fw ends_mono by blast
  then show "ends a (case r of (b, lx') \<Rightarrow> if b then f lx' else g lx')"
    "ends a (case r of (b, lx') \<Rightarrow> if \<not> b then g lx' else f lx')"
    using r by (auto split: if_splits)
qed

lemma quoted_or_if:
  assumes "\<And>lx. scans lx (h lx)" "forward a lx"
    and "\<And>lx'. forward lx lx' \<Longrightarrow> last_token lx' \<noteq> NoToken \<Longrightarrow> ends lx' (f lx')"
    and "\<And>lx'. forward lx lx' \<Longrightarrow> ends lx' (g lx')"
  shows "ends a (case linx_lexer_quoted_str lx of (q, lx) \<Rightarrow>
           (case if q then (True, lx) else h lx of (q, lx) \<Rightarrow> if q then f lx else g lx))"
    and "ends a (case linx_lexer_quoted_str lx of (q, lx) \<Rightarrow>
           (case if q then (True, lx) else h lx of (q, lx) \<Rightarrow> if \<not> q then g lx else f lx))"
proof -
  obtain q lx1 where q: "linx_lexer_quoted_str lx = (q, lx1)" by fastforce
  then have fw: "forward lx lx1" "forward a lx1"
    using quoted_str_forward [of lx] assms(2) by (auto intro: forward_trans)
  have "ends a (case if q then (True, lx1) else h lx1 of (q, lx) \<Rightarrow> if q then f lx else g lx)"
  proof (cases q)
    case True
    then have "last_token lx1 \<noteq> NoToken" using quoted_str_token [of lx] q by simp
    then have "ends lx1 (f lx1)" using fw assms(3) by blast
    then show ?thesis using True fw ends_mono by auto
  next
    case False
    have "ends a (case h lx1 of (b, lx') \<Rightarrow> if b then f lx' else g lx')"
      by (rule scan_if(1) [OF assms(1) fw(2)]) (use assms(3,4) fw(1) forward_trans in blast)+
    then show ?thesis using False by simp
  qed
  then show "ends a (case linx_lexer_quoted_str lx of (q, lx) \<Rightarrow>
           (case if q then (True, lx) else h lx of (q, lx) \<Rightarrow> if q then f lx else g lx))"
    "ends a (case linx_lexer_quoted_str lx of (q, lx) \<Rightarrow>
           (case if q then (True, lx) else h lx of (q, lx) \<Rightarrow> if \<not> q then g lx else f lx))"
    using q by (auto split: prod.splits if_splits)
qed

lemma ends_parse_field_remainder:
  assumes "pcre2_anchored pm" "last_token lx \<noteq> NoToken"
  shows "ends lx (parse_field_remainder pm us lx)"
  unfolding parse_field_remainder_def Let_def
  by (intro ends_with_tok scan_if(2) [OF scans_find_str forward_refl]
      quoted_or_if(2) [OF scans_regexes(6) [OF assms(1)] forward_refl])
    (auto simp: assms(2) intro!: scan_if(2) [OF scans_find_str forward_refl])

lemma ends_close_paren: "forward a lx \<Longrightarrow> ends a (close_paren m node lx)"
  using forward_trans [OF blank_forward find_str_forward]
  by (auto simp: close_paren_def split_beta Let_def intro: forward_trans)

lemma scan_pbind_if:
  assumes "scans lx r" "forward a lx"
    and "\<And>lx'. forward lx lx' \<Longrightarrow> last_token lx' \<noteq> NoToken \<Longrightarrow> length (rest lx') < length (rest lx) \<Longrightarrow>
           ends lx' (f lx')"
    and "\<And>lx'. forward lx lx' \<Longrightarrow> ends lx' (g lx')"
    and "\<And>x lx'. forward lx lx' \<Longrightarrow> ends lx' (k x lx')"
  shows "ends a (case r of (b, lx') \<Rightarrow> pbind (if b then f lx' else g lx') k)"
proof -
  have "ends lx (case r of (b, lx') \<Rightarrow> if b then f lx' else g lx')"
    by (rule scan_if(1) [OF assms(1) forward_refl]) (use assms(3,4) in auto)
  then have "ends lx (pbind (case r of (b, lx') \<Rightarrow> if b then f lx' else g lx') k)"
    by (rule ends_pbind) (rule assms(5))
  moreover have "(case r of (b, lx') \<Rightarrow> pbind (if b then f lx' else g lx') k) =
      pbind (case r of (b, lx') \<Rightarrow> if b then f lx' else g lx') k" by (simp add: split_beta)
  ultimately show ?thesis using ends_mono [OF assms(2)] by simp
qed

lemma ends_transformer_tail:
  assumes "pcre2_anchored pm"
  shows "ends lx (transformer_tail pm us op node lx)"
  unfolding transformer_tail_def Let_def
proof (rule scan_pbind_if [OF scans_regexes(1) [OF assms] forward_refl])
  fix lx' :: linx_lexer assume "last_token lx' \<noteq> NoToken"
  then show "ends lx' (pbind (parse_field_remainder pm us lx') (\<lambda>n. pret (Some n)))"
    by (intro ends_pbind ends_parse_field_remainder assms) simp_all
next
  fix x and lx' :: linx_lexer
  show "ends lx' (case x of None \<Rightarrow> pfault UninitRead | Some AST_NULL \<Rightarrow> pret AST_NULL lx'
      | Some n \<Rightarrow> close_paren AST_NULL (ast_node_create_field_transformer op n) lx')"
    by (auto simp: ends_close_paren split: option.split ast_node.split)
qed simp

lemma ends_transformer_remainder:
  assumes "pcre2_anchored pm" "last_token lx \<noteq> NoToken" "length (rest lx) < n"
  shows "ends lx (parse_field_or_transformer_remainder n pm us lx)"
  using assms(2,3)
proof (induction n arbitrary: lx)
  case (Suc n)
  have blank: "forward lx (skip_blanks lx)" "length (rest (skip_blanks lx)) \<le> length (rest lx)"
    using blank_forward forward_rest by blast+
  show ?case
    unfolding parse_field_or_transformer_remainder.simps Let_def
  proof (rule ends_with_tok [OF Suc.prems(1)], rule scan_if(1) [OF scans_all(5) blank(1)])
    fix s and lx' :: linx_lexer
    assume l: "forward (skip_blanks lx) lx'" "length (rest lx') < length (rest (skip_blanks lx))"
      "last_token lx' \<noteq> NoToken"
    have "length (rest (skip_blanks lx')) < n"
      using l(2) blank(2) Suc.prems(2) forward_rest [OF blank_forward [of lx']] by linarith
    then have "ends (skip_blanks lx') (parse_field_or_transformer_remainder n pm us (skip_blanks lx'))"
      using Suc.IH l(3) by simp
    then show "ends lx' (pbind (parse_field_or_transformer_remainder n pm us (skip_blanks lx'))
        (\<lambda>node. transformer_tail pm us (op_str_to_field_transformer_type s) (Some node)))"
      by (rule ends_pbind [OF ends_mono [OF blank_forward]]) (rule ends_transformer_tail [OF assms(1)])
  next
    fix s and lx' :: linx_lexer
    show "ends lx' (transformer_tail pm us (op_str_to_field_transformer_type s) None lx')"
      by (rule ends_transformer_tail [OF assms(1)])
  qed
qed simp

lemma ends_try_parse:
  assumes "pcre2_anchored pm" "length (rest lx) < n"
  shows "ends lx (try_parse_transformer_or_val n pm us lx)"
  unfolding try_parse_transformer_or_val_def Let_def
proof (rule scan_if(1) [OF scans_all(6) blank_forward])
  fix lx' :: linx_lexer
  assume "last_token lx' \<noteq> NoToken"
  then show "ends lx' (with_tok (skip_blanks lx') (\<lambda>str. case linx_lexer_field_name pm (skip_blanks lx') of
      (f, lx) \<Rightarrow> if \<not> f then pret AST_NULL lx
        else pbind (parse_field_remainder pm us lx) (\<lambda>node lx. close_paren AST_NULL
          (ast_node_create_field_transformer_val (op_str_to_field_transformer_val str) node) lx)))"
    by (intro ends_with_tok scan_if(2) [OF scans_regexes(1) [OF assms(1)] blank_forward] ends_pbind
        ends_parse_field_remainder assms(1) ends_close_paren forward_refl) simp_all
next
  fix lx' :: linx_lexer
  assume l: "forward (skip_blanks lx) lx'"
  show "ends lx' (case linx_lexer_field_transformer_type lx' of (t, lx) \<Rightarrow>
      if t then parse_field_or_transformer_remainder n pm us (skip_blanks lx) else pret AST_NULL lx)"
  proof (rule scan_if(1) [OF scans_all(5) forward_refl])
    fix l2 :: linx_lexer assume l2: "length (rest l2) < length (rest lx')" "last_token l2 \<noteq> NoToken"
    have "length (rest (skip_blanks l2)) < n"
      using l2(1) assms(2) forward_rest [OF l] forward_rest [OF blank_forward [of lx]]
        forward_rest [OF blank_forward [of l2]] by linarith
    then show "ends l2 (parse_field_or_transformer_remainder n pm us (skip_blanks l2))"
      using l2(2) by (intro ends_mono [OF blank_forward ends_transformer_remainder [OF assms(1)]]) simp_all
  qed simp
qed

lemma ends_num_value:
  assumes "pcre2_anchored pm" "length (rest lx) < n"
  shows "ends lx (parse_num_value_or_transformer n pm us lx)"
  unfolding parse_num_value_or_transformer_def Let_def
proof (rule ends_mono [OF blank_forward], rule ends_pbind)
  show "ends (skip_blanks lx) (try_parse_transformer_or_val n pm us (skip_blanks lx))"
    using assms forward_rest [OF blank_forward [of lx]] by (intro ends_try_parse) simp_all
next
  fix node and lx' :: linx_lexer
  show "ends lx' (if node \<noteq> AST_NULL then pret node lx'
      else case linx_lexer_hex_num pm lx' of (h, lx) \<Rightarrow>
        if h then with_tok lx (\<lambda>s. pret (ast_node_create_number (to_long_long (strtoul16 s))) lx)
        else case linx_lexer_num pm lx of (d, lx) \<Rightarrow>
          if d then with_tok lx (\<lambda>s. if strstr s ''.'' then pret (ast_node_create_float s) lx
                                    else pret (ast_node_create_number (fst (strtol s))) lx)
          else pret AST_NULL lx)"
    by (auto intro!: scan_if(1) [OF scans_regexes(3) [OF assms(1)] forward_refl]
        scan_if(1) [OF scans_regexes(4) [OF assms(1)] forward_refl] ends_with_tok)
qed

lemma ends_str_value:
  assumes "pcre2_anchored pm" "length (rest lx) < n"
  shows "ends lx (parse_str_value_or_transformer n pm us no_transformer lx)"
  unfolding parse_str_value_or_transformer_def Let_def
proof (rule ends_mono [OF blank_forward], rule ends_pbind)
  show "ends (skip_blanks lx) (if no_transformer then pret AST_NULL (skip_blanks lx)
      else try_parse_transformer_or_val n pm us (skip_blanks lx))"
    using assms forward_rest [OF blank_forward [of lx]] by (simp add: ends_try_parse)
next
  fix node and lx' :: linx_lexer
  show "ends lx' (if node \<noteq> AST_NULL then pret node lx'
      else case linx_lexer_quoted_str lx' of (q, lx) \<Rightarrow>
        case if q then (True, lx) else linx_lexer_bare_str pm lx of (q, lx) \<Rightarrow>
          if q then with_tok lx (\<lambda>s. pret (ast_node_create_string s) lx) else pret AST_NULL lx)"
    by (auto intro!: quoted_or_if(1) [OF scans_regexes(7) [OF assms(1)] forward_refl] ends_with_tok)
qed

lemma ends_list_loop:
  assumes "pcre2_anchored pm" "length (rest lx) < n"
  shows "ends lx (list_loop n pm us items lx)"
  using assms(2)
proof (induction n arbitrary: lx items)
  case (Suc n)
  show ?case
    unfolding list_loop.simps Let_def
  proof (rule scan_if(2) [OF scans_find_str blank_forward])
    fix lx' :: linx_lexer
    assume l: "length (rest lx') < length (rest (skip_blanks lx))"
    then have n: "length (rest lx') < n"
      using Suc.prems forward_rest [OF blank_forward [of lx]] by linarith
    show "ends lx' (pbind (parse_str_value_or_transformer n pm us True lx')
        (\<lambda>item. list_loop n pm us (add_item_to_list items item)))"
      using n forward_rest by (intro ends_pbind ends_str_value assms(1) Suc.IH) fastforce+
  qed simp_all
qed simp

lemma ends_list_value:
  assumes "pcre2_anchored pm" "length (rest lx) < n"
  shows "ends lx (parse_list_value_or_transformer n pm us lx)"
  unfolding parse_list_value_or_transformer_def Let_def
proof (rule scan_if(1) [OF scans_find_str blank_forward])
  fix lx' :: linx_lexer
  assume "length (rest lx') < length (rest (skip_blanks lx))"
  then have n: "length (rest lx') < n"
    using assms(2) forward_rest [OF blank_forward [of lx]] by linarith
  have nb: "length (rest (skip_blanks lx')) < n"
    using n forward_rest [OF blank_forward [of lx']] by linarith
  show "ends lx' (pbind (parse_str_value_or_transformer n pm us True (skip_blanks lx')) (\<lambda>item lx.
      pbind (if item = AST_NULL then pret ast_node_create_list lx
             else list_loop n pm us (add_item_to_list ast_node_create_list item) lx)
        (\<lambda>items lx. pret items (snd (linx_lexer_find_str '')'' lx)))))"
  proof (rule ends_mono [OF blank_forward], rule ends_pbind [OF ends_str_value [OF assms(1) nb]])
    fix x and l2 :: linx_lexer assume f: "forward (skip_blanks lx') l2"
    have "length (rest l2) < n" using forward_rest [OF f] nb by linarith
    then show "ends l2 (pbind (if x = AST_NULL then pret ast_node_create_list l2
        else list_loop n pm us (add_item_to_list ast_node_create_list x) l2)
        (\<lambda>items lx. pret items (snd (linx_lexer_find_str '')'' lx))))"
      by (intro ends_pbind) (simp_all add: ends_list_loop assms(1) find_str_forward)
  qed
next
  fix lx' :: linx_lexer
  assume f: "forward (skip_blanks lx) lx'"
  have "length (rest lx') < n"
    using assms(2) forward_rest [OF blank_forward [of lx]] forward_rest [OF f] by linarith
  then show "ends lx' (pbind (try_parse_transformer_or_val n pm us lx') (\<lambda>item lx.
      if item = AST_NULL then pret AST_NULL lx else pret AST_NULL (snd (linx_lexer_identifier pm lx))))"
    by (intro ends_pbind ends_try_parse assms(1)) (simp_all add: scan_forward assms(1))
qed simp

lemma ends_condition:
  assumes "pcre2_anchored pm" "length (rest lx) < n"
  shows "ends lx (parse_condition n pm us left lx)"
proof -
  have len: "length (rest l2) < n" if "forward lx l1" "length (rest l2) \<le> length (rest l1)" for l1 l2
    using forward_rest [OF that(1)] that(2) assms(2) by linarith
  have b: "length (rest (skip_blanks l)) \<le> length (rest l)" for l
    by (rule forward_rest [OF blank_forward])
  show ?thesis
    unfolding parse_condition_def Let_def
    by (intro scan_if(1) [OF scans_all(1) blank_forward] scan_if(1) [OF scans_all(2) blank_forward]
        scan_if(1) [OF scans_all(3) forward_refl] scan_if(1) [OF scans_all(4) forward_refl]
        ends_with_tok ends_pbind ends_num_value ends_str_value ends_list_value assms(1))
      (simp_all, (meson assms(2) b forward_rest le_less_trans less_imp_le order.strict_trans1
        order.strict_trans2 order_trans)+)
qed

lemma ends_not_loop:
  assumes "pcre2_anchored pm" "length (rest lx) < n"
  shows "ends lx (not_loop n pm is_not lx)"
  using assms(2)
proof (induction n arbitrary: lx is_not)
  case (Suc n)
  show ?case
    unfolding not_loop.simps Let_def
    by (rule scan_if(1) [OF scans_regexes(2) [OF assms(1)] forward_refl])
      (use Suc in auto)
qed simp

text \<open>Fuel that is enough for each function, by the length of the rest of the input.\<close>

definition grammar_ends :: "nat \<Rightarrow> pcre2 \<Rightarrow> (nat \<Rightarrow> nat) \<Rightarrow> bool" where
  "grammar_ends n pm us \<longleftrightarrow>
    (\<forall>lx. (8 * length (rest lx) + 2 \<le> n \<longrightarrow> ends lx (parse_check n pm us lx)) \<and>
      (8 * length (rest lx) + 3 \<le> n \<longrightarrow> ends lx (parse_not n pm us lx)) \<and>
      (8 * length (rest lx) + 3 \<le> n \<longrightarrow> (\<forall>left right. ends lx (and_loop n pm us left right lx))) \<and>
      (8 * length (rest lx) + 4 \<le> n \<longrightarrow> ends lx (parse_and n pm us lx)) \<and>
      (8 * length (rest lx) + 4 \<le> n \<longrightarrow> (\<forall>left right. ends lx (or_loop n pm us left right lx))) \<and>
      (8 * length (rest lx) + 5 \<le> n \<longrightarrow> ends lx (parse_or n pm us lx)) \<and>
      (8 * length (rest lx) + 6 \<le> n \<longrightarrow> ends lx (parse_embedded_remainder n pm us lx)))"

lemma grammar_endsD:
  assumes "grammar_ends n pm us"
  shows "8 * length (rest lx) + 2 \<le> n \<Longrightarrow> ends lx (parse_check n pm us lx)"
    "8 * length (rest lx) + 3 \<le> n \<Longrightarrow> ends lx (parse_not n pm us lx)"
    "8 * length (rest lx) + 3 \<le> n \<Longrightarrow> ends lx (and_loop n pm us left right lx)"
    "8 * length (rest lx) + 4 \<le> n \<Longrightarrow> ends lx (parse_and n pm us lx)"
    "8 * length (rest lx) + 4 \<le> n \<Longrightarrow> ends lx (or_loop n pm us left right lx)"
    "8 * length (rest lx) + 5 \<le> n \<Longrightarrow> ends lx (parse_or n pm us lx)"
    "8 * length (rest lx) + 6 \<le> n \<Longrightarrow> ends lx (parse_embedded_remainder n pm us lx)"
  using assms by (simp_all add: grammar_ends_def)

lemma skip_blanks_rest: "length (rest (skip_blanks lx)) \<le> length (rest lx)"
  by (rule forward_rest [OF blank_forward])

lemma ends_check_step:
  assumes "pcre2_anchored pm" "grammar_ends n pm us" "8 * length (rest lx) + 2 \<le> Suc n"
  shows "ends lx (parse_check (Suc n) pm us lx)"
  unfolding parse_check.simps Let_def
proof (rule scan_if(1) [OF scans_find_str blank_forward])
  fix lx' :: linx_lexer
  assume "length (rest lx') < length (rest (skip_blanks lx))"
  then show "ends lx' (parse_embedded_remainder n pm us lx')"
    using assms(3) skip_blanks_rest [of lx] by (intro grammar_endsD(7) [OF assms(2)]) linarith
next
  fix lx' :: linx_lexer
  assume f: "forward (skip_blanks lx) lx'"
  have n: "length (rest lx') < n"
    using assms(3) skip_blanks_rest [of lx] forward_rest [OF f] by (cases "rest lx'") auto
  have n0: "length (rest l) < n" if "forward lx' l" for l
    using forward_rest [OF that] n by linarith
  show "ends lx' (case linx_lexer_field_name pm lx' of (f, lx) \<Rightarrow>
      if f then pbind (parse_field_remainder pm us lx) (parse_condition n pm us)
      else case linx_lexer_field_transformer_type lx of (t, lx) \<Rightarrow>
        if t then pbind (parse_field_or_transformer_remainder n pm us (skip_blanks lx))
                   (parse_condition n pm us)
        else pret AST_NULL (snd (linx_lexer_identifier pm lx)))"
  proof (rule scan_if(1) [OF scans_regexes(1) [OF assms(1)] forward_refl])
    fix l :: linx_lexer
    assume l: "forward lx' l" "last_token l \<noteq> NoToken"
    show "ends l (pbind (parse_field_remainder pm us l) (parse_condition n pm us))"
      by (rule ends_pbind [OF ends_parse_field_remainder [OF assms(1) l(2)]])
        (blast intro: ends_condition [OF assms(1)] n0 forward_trans [OF l(1)])
  next
    fix l :: linx_lexer
    assume l: "forward lx' l"
    show "ends l (case linx_lexer_field_transformer_type l of (t, lx) \<Rightarrow>
        if t then pbind (parse_field_or_transformer_remainder n pm us (skip_blanks lx))
                   (parse_condition n pm us)
        else pret AST_NULL (snd (linx_lexer_identifier pm lx)))"
    proof (rule scan_if(1) [OF scans_all(5) forward_refl])
      fix l2 :: linx_lexer
      assume l2: "forward l l2" "last_token l2 \<noteq> NoToken"
      have fw: "forward lx' (skip_blanks l2)"
        using l l2(1) blank_forward forward_trans by blast
      have "ends (skip_blanks l2) (pbind (parse_field_or_transformer_remainder n pm us (skip_blanks l2))
          (parse_condition n pm us))"
        by (rule ends_pbind [OF ends_transformer_remainder [OF assms(1)]])
          (use l2(2) n0 [OF fw] n0 [OF forward_trans [OF fw]] in \<open>auto intro: ends_condition [OF assms(1)]\<close>)
      then show "ends l2 (pbind (parse_field_or_transformer_remainder n pm us (skip_blanks l2))
          (parse_condition n pm us))"
        by (rule ends_mono [OF blank_forward])
    qed (simp add: scan_forward assms(1))
  qed
qed simp

lemma ends_not_step:
  assumes "pcre2_anchored pm" "grammar_ends n pm us" "8 * length (rest lx) + 3 \<le> Suc n"
  shows "ends lx (parse_not (Suc n) pm us lx)"
  unfolding parse_not.simps Let_def
proof (rule ends_mono [OF blank_forward], rule ends_pbind)
  show "ends (skip_blanks lx) (not_loop n pm False (skip_blanks lx))"
    using assms(3) skip_blanks_rest [of lx] by (intro ends_not_loop [OF assms(1)]) linarith
next
  fix is_not and lx' :: linx_lexer
  assume f: "forward (skip_blanks lx) lx'"
  have n: "8 * length (rest lx') + 2 \<le> n"
    using forward_rest [OF f] skip_blanks_rest [of lx] assms(3) by linarith
  show "ends lx' (case linx_lexer_find_str ''not('' lx' of (p, lx) \<Rightarrow>
      if p then pbind (parse_embedded_remainder n pm us lx) (\<lambda>left. pret (wrap_not (\<not> is_not) left))
      else pbind (parse_check n pm us lx) (\<lambda>left. pret (wrap_not is_not left)))"
  proof (rule scan_if(1) [OF scans_find_str forward_refl])
    fix l :: linx_lexer
    assume "length (rest l) < length (rest lx')"
    then show "ends l (pbind (parse_embedded_remainder n pm us l)
        (\<lambda>left. pret (wrap_not (\<not> is_not) left)))"
      using n by (intro ends_pbind grammar_endsD(7) [OF assms(2)]) simp_all
  next
    fix l :: linx_lexer
    assume "forward lx' l"
    then show "ends l (pbind (parse_check n pm us l) (\<lambda>left. pret (wrap_not is_not left)))"
      using n forward_rest [of lx' l] by (intro ends_pbind grammar_endsD(1) [OF assms(2)]) simp_all
  qed simp
qed

text \<open>The common body of the two loops after their operator has been read.\<close>

lemma ends_loop_right:
  assumes emb: "\<And>l. length (rest l) \<le> length (rest lx) \<Longrightarrow> ends l (parse_embedded_remainder n pm us l)"
    and sub: "\<And>l. length (rest l) \<le> length (rest lx) \<Longrightarrow> ends l (p l)"
    and nxt: "\<And>l left right. length (rest l) \<le> length (rest lx) \<Longrightarrow> ends l (loop left right l)"
  shows "ends lx (case linx_lexer_blank lx of (b, lx) \<Rightarrow>
     pbind (if \<not> b then (case linx_lexer_find_str ''('' lx of (p, lx) \<Rightarrow>
              if p then pbind (parse_embedded_remainder n pm us lx) (\<lambda>r. pret (Some r)) else pret right lx)
            else pbind (p lx) (\<lambda>r. pret (Some r)))
       (\<lambda>right lx. case right of None \<Rightarrow> pfault UninitRead
          | Some r \<Rightarrow> loop (ast_node_create_binary_bool op left r) right (skip_blanks lx)))"
proof -
  obtain b l where bl: "linx_lexer_blank lx = (b, l)" by fastforce
  then have f: "forward lx l" using blank_forward [of lx] by simp
  have "ends l (pbind (if \<not> b then (case linx_lexer_find_str ''('' l of (p, lx) \<Rightarrow>
              if p then pbind (parse_embedded_remainder n pm us lx) (\<lambda>r. pret (Some r)) else pret right lx)
            else pbind (p l) (\<lambda>r. pret (Some r)))
       (\<lambda>right lx. case right of None \<Rightarrow> pfault UninitRead
          | Some r \<Rightarrow> loop (ast_node_create_binary_bool op left r) right (skip_blanks lx)))"
  proof (rule ends_pbind)
    have "ends l (case linx_lexer_find_str ''('' l of (p, lx) \<Rightarrow>
        if p then pbind (parse_embedded_remainder n pm us lx) (\<lambda>r. pret (Some r)) else pret right lx)"
    proof (rule scan_if(1) [OF scans_find_str forward_refl])
      fix l2 :: linx_lexer
      assume "length (rest l2) < length (rest l)"
      then show "ends l2 (pbind (parse_embedded_remainder n pm us l2) (\<lambda>r. pret (Some r)))"
        using forward_rest [OF f] by (intro ends_pbind emb) simp_all
    qed simp_all
    moreover have "ends l (pbind (p l) (\<lambda>r. pret (Some r)))"
      using forward_rest [OF f] by (intro ends_pbind sub) simp_all
    ultimately show "ends l (if \<not> b then (case linx_lexer_find_str ''('' l of (p, lx) \<Rightarrow>
        if p then pbind (parse_embedded_remainder n pm us lx) (\<lambda>r. pret (Some r)) else pret right lx)
        else pbind (p l) (\<lambda>r. pret (Some r)))" by simp
  next
    fix x and l2 :: linx_lexer
    assume l2: "forward l l2"
    have "length (rest (skip_blanks l2)) \<le> length (rest lx)"
      using forward_rest [OF f] forward_rest [OF l2] skip_blanks_rest [of l2] by linarith
    then have "ends (skip_blanks l2) (loop left' right' (skip_blanks l2))" for left' right'
      by (rule nxt)
    then show "ends l2 (case x of None \<Rightarrow> pfault UninitRead
        | Some r \<Rightarrow> loop (ast_node_create_binary_bool op left r) x (skip_blanks l2))"
      using ends_mono [OF blank_forward] by (auto split: option.split)
  qed
  from ends_mono [OF f this] show ?thesis unfolding bl prod.case .
qed

lemma bool_op_text: "g_binary_bool_ops ! nat BINARY_BOOL_OP_AND = ''and''"
  "g_binary_bool_ops ! nat BINARY_BOOL_OP_OR = ''or''"
  by (simp_all add: g_binary_bool_ops_def)

lemma ends_and_loop_step:
  assumes "grammar_ends n pm us" "8 * length (rest lx) + 3 \<le> Suc n"
  shows "ends lx (and_loop (Suc n) pm us left right lx)"
  unfolding and_loop.simps Let_def bool_op_text
proof (rule scan_if(2) [OF scans_find_str forward_refl])
  fix lx' :: linx_lexer
  assume "length (rest lx') < length (rest lx)"
  then show "ends lx' (case linx_lexer_blank lx' of (b, lx) \<Rightarrow>
     pbind (if \<not> b then (case linx_lexer_find_str ''('' lx of (p, lx) \<Rightarrow>
              if p then pbind (parse_embedded_remainder n pm us lx) (\<lambda>r. pret (Some r)) else pret right lx)
            else pbind (parse_not n pm us lx) (\<lambda>r. pret (Some r)))
       (\<lambda>right lx. case right of None \<Rightarrow> pfault UninitRead
          | Some r \<Rightarrow> and_loop n pm us (ast_node_create_binary_bool BINARY_BOOL_OP_AND left r) right
              (skip_blanks lx)))"
    using assms(2) by (intro ends_loop_right grammar_endsD(2,3,7) [OF assms(1)]) linarith+
qed simp_all

lemma ends_or_loop_step:
  assumes "grammar_ends n pm us" "8 * length (rest lx) + 4 \<le> Suc n"
  shows "ends lx (or_loop (Suc n) pm us left right lx)"
  unfolding or_loop.simps Let_def bool_op_text
proof (rule scan_if(2) [OF scans_find_str forward_refl])
  fix lx' :: linx_lexer
  assume "length (rest lx') < length (rest lx)"
  then show "ends lx' (case linx_lexer_blank lx' of (b, lx) \<Rightarrow>
     pbind (if \<not> b then (case linx_lexer_find_str ''('' lx of (p, lx) \<Rightarrow>
              if p then pbind (parse_embedded_remainder n pm us lx) (\<lambda>r. pret (Some r)) else pret right lx)
            else pbind (parse_and n pm us lx) (\<lambda>r. pret (Some r)))
       (\<lambda>right lx. case right of None \<Rightarrow> pfault UninitRead
          | Some r \<Rightarrow> or_loop n pm us (ast_node_create_binary_bool BINARY_BOOL_OP_OR left r) right
              (skip_blanks lx)))"
    using assms(2) by (intro ends_loop_right grammar_endsD(4,5,7) [OF assms(1)]) linarith+
qed simp_all

lemma ends_seq_blanks:
  assumes "\<And>l. length (rest l) \<le> length (rest lx) \<Longrightarrow> ends l (p l)"
    and "\<And>l x. length (rest l) \<le> length (rest lx) \<Longrightarrow> ends l (k x l)"
  shows "ends lx (pbind (p (skip_blanks lx)) (\<lambda>x lx. k x (skip_blanks lx)))"
proof (rule ends_mono [OF blank_forward], rule ends_pbind)
  show "ends (skip_blanks lx) (p (skip_blanks lx))" by (rule assms(1) [OF skip_blanks_rest])
next
  fix x and l :: linx_lexer
  assume f: "forward (skip_blanks lx) l"
  have "length (rest (skip_blanks l)) \<le> length (rest lx)"
    using forward_rest [OF f] skip_blanks_rest [of l] skip_blanks_rest [of lx] by linarith
  then show "ends l (k x (skip_blanks l))" by (rule ends_mono [OF blank_forward assms(2)])
qed

lemma grammar_ends: "pcre2_anchored pm \<Longrightarrow> grammar_ends n pm us"
proof (induction n)
  case 0
  then show ?case by (simp add: grammar_ends_def)
next
  case (Suc n)
  then have g: "grammar_ends n pm us" by simp
  have "ends lx (parse_and (Suc n) pm us lx)" if "8 * length (rest lx) + 4 \<le> Suc n" for lx
    unfolding parse_and.simps
    by (rule ends_seq_blanks) (rule grammar_endsD(2,3) [OF g], use that in linarith)+
  moreover have "ends lx (parse_or (Suc n) pm us lx)" if "8 * length (rest lx) + 5 \<le> Suc n" for lx
    unfolding parse_or.simps
    by (rule ends_seq_blanks) (rule grammar_endsD(4,5) [OF g], use that in linarith)+
  moreover have "ends lx (parse_embedded_remainder (Suc n) pm us lx)"
    if "8 * length (rest lx) + 6 \<le> Suc n" for lx
    unfolding parse_embedded_remainder.simps
    by (rule ends_seq_blanks [where k = "\<lambda>node l. pret node (snd (linx_lexer_find_str '')'' l))"])
      (rule grammar_endsD(6) [OF g], use that in linarith, simp add: find_str_forward)
  ultimately show ?case
    using ends_check_step [OF Suc.prems g] ends_not_step [OF Suc.prems g] ends_and_loop_step [OF g]
      ends_or_loop_step [OF g]
    unfolding grammar_ends_def by blast
qed

text \<open>
  C8: for every condition text and every behaviour of PCRE2 that respects anchored matching,
  \<^verbatim>\<open>condition_to_ast\<close> terminates with a return code, or with undefined behaviour of one of three
  kinds: an uninitialised local (no operator after a field, nothing after \<^verbatim>\<open>and\<close>), the unchecked
  \<^verbatim>\<open>strcat\<close>, or an unterminated quoted string. It reads no NULL token.
\<close>

theorem condition_to_ast_terminates:
  assumes "pcre2_anchored pm"
  shows "case condition_to_ast pm us (Some cond) of
      None \<Rightarrow> False
    | Some (Inl f) \<Rightarrow> f \<in> {UninitRead, OutOfBounds, Unterminated}
    | Some (Inr (ret, ast)) \<Rightarrow> (ret = 0 \<and> ast \<noteq> AST_NULL) \<or> (ret = - 1 \<and> ast = AST_NULL)"
proof -
  have "length (rest (linx_lexer_create cond)) = length cond"
    by (simp add: rest_def linx_lexer_create_def)
  then have "ends (linx_lexer_create cond) (parse_or (condition_fuel cond) pm us (linx_lexer_create cond))"
    by (intro grammar_endsD(6) [OF grammar_ends [OF assms]]) (simp add: condition_fuel_def)
  then show ?thesis
    by (auto simp: condition_to_ast_def ends_def parser_fault_def split: option.splits sum.splits)
qed

end
