(* ===== verification/Rule_Grammar.thy ===== *)
theory Rule_Grammar
  imports Rule_Parser
begin

text \<open>
  What the parser accepts. \<open>rx\<close> is what PCRE2's anchored match answers on the seven patterns of
  \<^verbatim>\<open>lexer.c\<close>, written as longest-match scanners; \<open>pcre2_grammar\<close> is the hypothesis that the PCRE2
  parameter agrees with it. \<open>show_cond\<close> prints a condition tree in the surface syntax, with
  parentheses where precedence needs them, and the round trip says that parsing the printed text
  gives the tree back.
\<close>

section \<open>The seven patterns\<close>

definition is_alpha :: "char \<Rightarrow> bool" where
  "is_alpha c \<longleftrightarrow> (65 \<le> (of_char c :: nat) \<and> (of_char c :: nat) \<le> 90) \<or>
                (97 \<le> (of_char c :: nat) \<and> (of_char c :: nat) \<le> 122)"

definition is_word :: "char \<Rightarrow> bool" where
  "is_word c \<longleftrightarrow> is_alpha c \<or> is_digit c \<or> c = CHR ''_''"

definition is_hexdigit :: "char \<Rightarrow> bool" where
  "is_hexdigit c \<longleftrightarrow> is_digit c \<or> (65 \<le> (of_char c :: nat) \<and> (of_char c :: nat) \<le> 70) \<or>
                    (97 \<le> (of_char c :: nat) \<and> (of_char c :: nat) \<le> 102)"

fun scan_class :: "(char \<Rightarrow> bool) \<Rightarrow> string \<Rightarrow> nat" where
  "scan_class P [] = 0"
| "scan_class P (c # cs) = (if P c then Suc (scan_class P cs) else 0)"

definition nonzero :: "nat \<Rightarrow> nat option" where
  "nonzero n = (if n = 0 then None else Some n)"

definition scan_ident :: "string \<Rightarrow> nat" where
  "scan_ident s = (if s \<noteq> [] \<and> is_alpha (hd s) then scan_class is_word s else 0)"

text \<open>Zero or more segments \<^verbatim>\<open>.ident\<close>; the first argument bounds their number.\<close>

fun scan_segments :: "nat \<Rightarrow> string \<Rightarrow> nat" where
  "scan_segments 0 s = 0"
| "scan_segments (Suc n) s =
     (if s \<noteq> [] \<and> hd s = CHR ''.'' \<and> scan_ident (tl s) > 0
      then (let k = scan_ident (tl s) in Suc (k + scan_segments n (drop k (tl s)))) else 0)"

definition scan_field :: "string \<Rightarrow> nat option" where
  "scan_field s =
    (let n = scan_ident s; m = scan_segments (length s) (drop n s)
     in if n = 0 \<or> m = 0 then None else Some (n + m))"

definition scan_notblank :: "string \<Rightarrow> nat option" where
  "scan_notblank s =
    (if is_prefix ''not'' s \<and> scan_class is_space (drop 3 s) > 0
     then Some (3 + scan_class is_space (drop 3 s)) else None)"

definition scan_hex :: "string \<Rightarrow> nat option" where
  "scan_hex s =
    (if (is_prefix ''0x'' s \<or> is_prefix ''0X'' s) \<and> scan_class is_hexdigit (drop 2 s) > 0
     then Some (2 + scan_class is_hexdigit (drop 2 s)) else None)"

definition scan_exponent :: "string \<Rightarrow> nat" where
  "scan_exponent s =
    (if length s \<ge> 2 \<and> s ! 0 \<in> {CHR ''e'', CHR ''E''} \<and> s ! 1 \<in> {CHR ''+'', CHR ''-''} \<and>
        scan_class is_digit (drop 2 s) > 0
     then 2 + scan_class is_digit (drop 2 s) else 0)"

definition scan_number :: "string \<Rightarrow> nat option" where
  "scan_number s =
    (let a = (if s \<noteq> [] \<and> hd s \<in> {CHR ''+'', CHR ''-''} then 1 else 0);
         b = scan_class is_digit (drop a s);
         c = (if drop (a + b) s \<noteq> [] \<and> hd (drop (a + b) s) = CHR ''.'' then 1 else 0);
         d = scan_class is_digit (drop (a + b + c) s);
         e = scan_exponent (drop (a + b + c + d) s)
     in if b = 0 then None else Some (a + b + c + d + e))"

definition bare_char :: "char \<Rightarrow> bool" where
  "bare_char c \<longleftrightarrow> c \<notin> {CHR ''('', CHR '')'', CHR 0x22, CHR 0x27, CHR ''='', CHR '',''} \<and> \<not> is_space c"

definition arg_char :: "char \<Rightarrow> bool" where
  "arg_char c \<longleftrightarrow> c \<notin> {CHR '']'', CHR ''['', CHR 0x22, CHR 0x27} \<and> \<not> is_space c"

definition rx_answer :: "nat option \<Rightarrow> pcre2_result" where
  "rx_answer m = (case m of None \<Rightarrow> Pcre2Error (- 1) | Some n \<Rightarrow> Pcre2Match 0 n)"

definition rx :: pcre2 where
  "rx r s =
    (if r = RGX_FIELDNAME then rx_answer (scan_field s)
     else if r = RGX_NOTBLANK then rx_answer (scan_notblank s)
     else if r = RGX_IDENTIFIER then rx_answer (nonzero (scan_ident s))
     else if r = RGX_HEXNUM then rx_answer (scan_hex s)
     else if r = RGX_NUMBER then rx_answer (scan_number s)
     else if r = RGX_BARESTR then rx_answer (nonzero (scan_class bare_char s))
     else if r = RGX_FIELDARGBARESTR then rx_answer (nonzero (scan_class arg_char s))
     else Pcre2CompileError)"

definition pcre2_grammar :: "pcre2 \<Rightarrow> bool" where
  "pcre2_grammar pm \<longleftrightarrow>
    (\<forall>s. \<forall>r \<in> {RGX_FIELDNAME, RGX_NOTBLANK, RGX_IDENTIFIER, RGX_HEXNUM, RGX_NUMBER, RGX_BARESTR,
              RGX_FIELDARGBARESTR}. pm r s = rx r s)"

lemma rx_grammar: "pcre2_grammar rx"
  by (simp add: pcre2_grammar_def)

lemma scan_class_le: "scan_class P s \<le> length s"
  by (induction s) auto

lemma scan_ident_le: "scan_ident s \<le> length s"
  by (simp add: scan_ident_def scan_class_le)

lemma scan_segments_le: "scan_segments n s \<le> length s"
proof (induction n arbitrary: s)
  case (Suc n)
  show ?case
  proof (cases s)
    case (Cons c cs)
    have "scan_segments n (drop (scan_ident cs) cs) \<le> length cs - scan_ident cs"
      using Suc.IH [of "drop (scan_ident cs) cs"] by simp
    with Cons scan_ident_le [of cs] show ?thesis by (auto simp: Let_def)
  qed simp
qed simp

lemma rx_patterns_distinct:
  "RGX_NOTBLANK \<noteq> RGX_FIELDNAME" "RGX_IDENTIFIER \<noteq> RGX_FIELDNAME" "RGX_IDENTIFIER \<noteq> RGX_NOTBLANK"
  "RGX_HEXNUM \<noteq> RGX_FIELDNAME" "RGX_HEXNUM \<noteq> RGX_NOTBLANK" "RGX_HEXNUM \<noteq> RGX_IDENTIFIER"
  "RGX_NUMBER \<noteq> RGX_FIELDNAME" "RGX_NUMBER \<noteq> RGX_NOTBLANK" "RGX_NUMBER \<noteq> RGX_IDENTIFIER"
  "RGX_NUMBER \<noteq> RGX_HEXNUM"
  "RGX_BARESTR \<noteq> RGX_FIELDNAME" "RGX_BARESTR \<noteq> RGX_NOTBLANK" "RGX_BARESTR \<noteq> RGX_IDENTIFIER"
  "RGX_BARESTR \<noteq> RGX_HEXNUM" "RGX_BARESTR \<noteq> RGX_NUMBER"
  by (simp_all add: RGX_NOTBLANK_def RGX_FIELDNAME_def RGX_IDENTIFIER_def RGX_HEXNUM_def
      RGX_NUMBER_def RGX_BARESTR_def)

lemma scan_number_le:
  assumes "scan_number s = Some n"
  shows "n \<le> length s"
proof -
  let ?a = "if s \<noteq> [] \<and> hd s \<in> {CHR ''+'', CHR ''-''} then 1 else 0 :: nat"
  let ?b = "scan_class is_digit (drop ?a s)"
  let ?c = "if drop (?a + ?b) s \<noteq> [] \<and> hd (drop (?a + ?b) s) = CHR ''.'' then 1 else 0 :: nat"
  let ?d = "scan_class is_digit (drop (?a + ?b + ?c) s)"
  let ?e = "scan_exponent (drop (?a + ?b + ?c + ?d) s)"
  have a: "?a \<le> length s" by (cases s) auto
  have b: "?b \<le> length s - ?a" using scan_class_le [of is_digit "drop ?a s"] by simp
  have "(if drop k s \<noteq> [] \<and> P then 1 else 0) \<le> length s - k" for k P
    by (auto simp: not_le)
  then have c: "?c \<le> length s - (?a + ?b)" .
  have d: "?d \<le> length s - (?a + ?b + ?c)"
    using scan_class_le [of is_digit "drop (?a + ?b + ?c) s"] by simp
  have "scan_exponent t \<le> length t" for t
    using scan_class_le [of is_digit "drop 2 t"] by (auto simp: scan_exponent_def)
  then have e: "?e \<le> length s - (?a + ?b + ?c + ?d)" by (metis length_drop)
  have "n = ?a + ?b + ?c + ?d + ?e"
    using assms unfolding scan_number_def Let_def by (metis option.distinct(1) option.inject)
  with a b c d e show ?thesis by linarith
qed

lemma rx_answer_anchored:
  "(\<And>n. m = Some n \<Longrightarrow> n \<le> length s) \<Longrightarrow>
   (case rx_answer m of Pcre2Error e \<Rightarrow> e < 0 | Pcre2Match a b \<Rightarrow> a = 0 \<and> b \<le> length s | _ \<Rightarrow> True)"
  by (cases m) (auto simp: rx_answer_def)

lemma rx_anchored: "pcre2_anchored rx"
proof -
  have f: "scan_field s = Some n \<Longrightarrow> n \<le> length s" for s n
    using scan_ident_le [of s] scan_segments_le [of "length s" "drop (scan_ident s) s"]
    by (auto simp: scan_field_def Let_def split: if_splits)
  have b: "scan_notblank s = Some n \<Longrightarrow> n \<le> length s" for s n
    using scan_class_le [of is_space "drop 3 s"]
    by (auto simp: scan_notblank_def is_prefix_iff prefix_def split: if_splits)
  have h: "scan_hex s = Some n \<Longrightarrow> n \<le> length s" for s n
    using scan_class_le [of is_hexdigit "drop 2 s"]
    by (auto simp: scan_hex_def is_prefix_iff prefix_def split: if_splits)
  have z: "nonzero k = Some n \<Longrightarrow> k \<le> length s \<Longrightarrow> n \<le> length s" for s :: string and k n
    by (auto simp: nonzero_def split: if_splits)
  show ?thesis
    unfolding pcre2_anchored_def rx_def
    by (auto intro!: rx_answer_anchored intro: f b h scan_number_le
        z [OF _ scan_ident_le] z [OF _ scan_class_le] split: if_split)
qed

theorem condition_to_ast_terminates_witness:
  "case condition_to_ast rx (\<lambda>n. n) (Some ''evt.num >= 5 and'') of
      None \<Rightarrow> False
    | Some (Inl f) \<Rightarrow> f \<in> {UninitRead, OutOfBounds, Unterminated}
    | Some (Inr (ret, ast)) \<Rightarrow> (ret = 0 \<and> ast \<noteq> AST_NULL) \<or> (ret = - 1 \<and> ast = AST_NULL)"
  by (rule condition_to_ast_terminates [OF rx_anchored])

section \<open>Scanning printed text\<close>

definition word_stop :: "string \<Rightarrow> bool" where
  "word_stop r \<longleftrightarrow> r = [] \<or> (\<not> is_word (hd r) \<and> hd r \<noteq> CHR ''.'')"

definition stop :: "string \<Rightarrow> bool" where
  "stop r \<longleftrightarrow> r = [] \<or> hd r = CHR '' '' \<or> hd r = CHR '')''"

definition valid_field :: "string \<Rightarrow> bool" where
  "valid_field f \<longleftrightarrow> scan_field f = Some (length f)"

lemma stop_word_stop: "stop r \<Longrightarrow> word_stop r"
  by (auto simp: stop_def word_stop_def is_word_def is_alpha_def is_digit_def)

lemma scan_class_append:
  "scan_class P (s @ r) = (if scan_class P s = length s then length s + scan_class P r else scan_class P s)"
  using scan_class_le [of P] by (induction s) (auto simp: Suc_le_eq)

lemma scan_class_all: "scan_class P s = length s \<longleftrightarrow> list_all P s"
  by (induction s) auto

lemma scan_class_stop: "r = [] \<or> \<not> P (hd r) \<Longrightarrow> scan_class P r = 0"
  by (cases r) auto

lemma scan_class_take: "list_all P (take (scan_class P s) s)"
  by (induction s) auto

lemma scan_ident_append:
  assumes "scan_ident s > 0" "word_stop r"
  shows "scan_ident (s @ r) = scan_ident s"
proof -
  have "s \<noteq> []" using assms(1) by (auto simp: scan_ident_def)
  moreover have "scan_class is_word r = 0"
    using assms(2) by (intro scan_class_stop) (auto simp: word_stop_def)
  ultimately show ?thesis by (auto simp: scan_ident_def scan_class_append)
qed

lemma scan_ident_split:
  assumes "scan_ident s > 0"
  shows "scan_ident (s @ r) \<ge> scan_ident s"
  using assms scan_class_le [of is_word s]
  by (auto simp: scan_ident_def scan_class_append split: if_splits)

lemma scan_segments_append:
  assumes "scan_segments n s = length s" "n \<le> m" "word_stop r"
  shows "scan_segments m (s @ r) = length s"
  using assms
proof (induction n arbitrary: s m)
  case 0
  then have "s = []" by simp
  then show ?case using 0(3) by (cases m) (auto simp: word_stop_def)
next
  case (Suc n)
  obtain m' where m: "m = Suc m'" using Suc.prems(2) by (cases m) auto
  show ?case
  proof (cases s)
    case Nil
    then show ?thesis using Suc.prems(3) m by (auto simp: word_stop_def)
  next
    case (Cons c u)
    let ?k = "scan_ident u"
    have c: "c = CHR ''.''" "?k > 0" "scan_segments n (drop ?k u) = length u - ?k"
      using Suc.prems(1) Cons by (auto simp: Let_def split: if_splits)
    have k: "scan_ident (u @ r) = ?k" by (rule scan_ident_append [OF c(2) Suc.prems(3)])
    have d: "drop ?k (u @ r) = drop ?k u @ r" using scan_ident_le [of u] by simp
    have "scan_segments m' (drop ?k u @ r) = length (drop ?k u)"
      using Suc.prems(2,3) c(3) m by (intro Suc.IH) simp_all
    then show ?thesis using Cons c m k d scan_ident_le [of u] by (simp add: Let_def)
  qed
qed

lemma scan_field_append:
  assumes "valid_field f" "word_stop r"
  shows "scan_field (f @ r) = Some (length f)"
proof -
  let ?n = "scan_ident f"
  have n: "?n > 0" "scan_segments (length f) (drop ?n f) = length f - ?n" "length f > ?n"
    using assms(1) scan_ident_le [of f]
    by (auto simp: valid_field_def scan_field_def Let_def split: if_splits)
  have k: "scan_ident (f @ r) = ?n" by (rule scan_ident_append [OF n(1) assms(2)])
  have "scan_segments (length (f @ r)) (drop ?n f @ r) = length (drop ?n f)"
    using n assms(2) by (intro scan_segments_append [of "length f"]) auto
  then show ?thesis using n k by (simp add: scan_field_def Let_def)
qed

lemma scan_segments_chars:
  "list_all (\<lambda>c. is_word c \<or> c = CHR ''.'') (take (scan_segments n s) s)"
proof (induction n arbitrary: s)
  case (Suc n)
  show ?case
  proof (cases s)
    case (Cons c u)
    let ?k = "scan_ident u"
    have w: "list_all is_word (take ?k u)"
      using scan_class_take [of is_word u] by (simp add: scan_ident_def)
    have "take (?k + scan_segments n (drop ?k u)) u =
        take ?k u @ take (scan_segments n (drop ?k u)) (drop ?k u)"
      by (rule take_add)
    then show ?thesis using Cons w Suc.IH [of "drop ?k u"] by (auto simp: Let_def list_all_iff)
  qed simp
qed simp

lemma valid_field_chars:
  assumes "valid_field f"
  shows "list_all (\<lambda>c. is_word c \<or> c = CHR ''.'') f" "f \<noteq> []" "is_alpha (hd f)" "CHR ''.'' \<in> set f"
proof -
  let ?n = "scan_ident f"
  have n: "?n > 0" "scan_segments (length f) (drop ?n f) = length f - ?n" "length f > ?n"
    using assms(1) scan_ident_le [of f]
    by (auto simp: valid_field_def scan_field_def Let_def split: if_splits)
  have "list_all is_word (take ?n f)"
    using scan_class_take [of is_word f] by (simp add: scan_ident_def)
  moreover have "list_all (\<lambda>c. is_word c \<or> c = CHR ''.'') (drop ?n f)"
    using scan_segments_chars [of "length f" "drop ?n f"] n by simp
  ultimately have "list_all (\<lambda>c. is_word c \<or> c = CHR ''.'') (take ?n f @ drop ?n f)"
    unfolding list_all_append by (auto simp: list_all_iff)
  then show "list_all (\<lambda>c. is_word c \<or> c = CHR ''.'') f" by simp
  show "f \<noteq> []" "is_alpha (hd f)" using n(1) by (auto simp: scan_ident_def split: if_splits)
  have "hd (drop ?n f) = CHR ''.''" "drop ?n f \<noteq> []"
    using n by (cases "length f"; auto split: if_splits)+
  then show "CHR ''.'' \<in> set f" by (metis hd_in_set in_set_dropD)
qed

text \<open>What can follow a printed condition cannot be taken for the start of one.\<close>

lemma valid_field_not_not:
  assumes "valid_field f"
  shows "scan_notblank (f @ r) = None" "\<not> is_prefix ''not('' (f @ r)" "\<not> is_prefix ''('' (f @ r)"
    "\<not> is_blank (hd (f @ r))"
proof -
  obtain a f' where f: "f = a # f'" using valid_field_chars(2) [OF assms] by (cases f) auto
  have ch: "c \<in> set f \<Longrightarrow> \<not> is_space c \<and> c \<noteq> CHR ''(''" for c
    using valid_field_chars(1) [OF assms]
    by (auto simp: list_all_iff is_word_def is_alpha_def is_digit_def is_space_def)
  have bl: "\<not> is_blank a" using valid_field_chars(3) [OF assms] f
    by (auto simp: is_blank_def is_alpha_def)
  then show "\<not> is_blank (hd (f @ r))" using f by simp
  show "\<not> is_prefix ''('' (f @ r)" using f ch [of a] by auto
  have long: "length f > 3" if "is_prefix ''not'' (f @ r)"
  proof (rule ccontr)
    assume "\<not> length f > 3"
    then have "set f \<subseteq> set ''not''"
      using that by (auto simp: is_prefix_iff prefix_def append_eq_append_conv2 append_eq_Cons_conv
          Cons_eq_append_conv)
    then show False using valid_field_chars(4) [OF assms] by auto
  qed
  have four: "f ! 3 \<in> set f \<and> (f @ r) ! 3 = f ! 3 \<and> drop 3 (f @ r) \<noteq> [] \<and> hd (drop 3 (f @ r)) = f ! 3"
    if "is_prefix ''not'' (f @ r)"
    using long [OF that] by (simp add: nth_append hd_drop_conv_nth)
  show "scan_notblank (f @ r) = None"
  proof (cases "is_prefix ''not'' (f @ r)")
    case True
    then show ?thesis
      using four ch by (auto simp: scan_notblank_def intro!: scan_class_stop)
  qed (simp add: scan_notblank_def)
  show "\<not> is_prefix ''not('' (f @ r)"
  proof
    assume p: "is_prefix ''not('' (f @ r)"
    then obtain t where t: "f @ r = ''not('' @ t" by (auto simp: is_prefix_iff prefix_def)
    then have "is_prefix ''not'' (f @ r)" "(f @ r) ! 3 = CHR ''(''"
      by (auto simp: is_prefix_iff prefix_def)
    then show False using four ch by metis
  qed
qed

section \<open>Scanner calls on printed text\<close>

lemma lexer_regex_hit:
  assumes "pm rgx (rest lx) = Pcre2Match 0 (length t)" "t \<noteq> []" "rest lx = t @ r"
  shows "\<exists>lx'. lexer_regex pm rgx lx = (True, lx') \<and> rest lx' = r \<and> last_token lx' = Tok t"
  using assms by (simp add: lexer_regex_def linx_regex_match_def)

lemma lexer_regex_miss:
  "pm rgx (rest lx) = Pcre2Error (- 1) \<Longrightarrow> lexer_regex pm rgx lx = (False, lx)"
  by (simp add: lexer_regex_def linx_regex_match_def)

lemma operator_hit:
  assumes "j < length ops" "rest lx = ops ! j @ r" "\<And>i. i < j \<Longrightarrow> \<not> is_prefix (ops ! i) (rest lx)"
  shows "\<exists>lx'. linx_lexer_find_operator_list ops lx = (True, lx') \<and> rest lx' = r \<and>
    last_token lx' = Tok (ops ! j)"
  using assms
proof (induction ops arbitrary: j)
  case (Cons x xs)
  show ?case
  proof (cases j)
    case 0
    then show ?thesis using Cons.prems find_str_rest [of lx x r]
      by (simp add: linx_lexer_update_last_token_def)
  next
    case (Suc i)
    have "linx_lexer_find_str x lx = (False, lx)"
      using Cons.prems(3) [of 0] Suc by (intro find_str_fails) simp
    moreover have "\<And>k. k < i \<Longrightarrow> \<not> is_prefix (xs ! k) (rest lx)"
      using Cons.prems(3) Suc by (metis Suc_mono nth_Cons_Suc)
    ultimately show ?thesis using Cons.IH [of i] Cons.prems Suc by simp
  qed
qed simp

lemma operator_miss:
  "(\<And>x. x \<in> set ops \<Longrightarrow> \<not> is_prefix x (rest lx)) \<Longrightarrow> linx_lexer_find_operator_list ops lx = (False, lx)"
  by (induction ops) (simp_all add: find_str_fails)

definition valid_str :: "string \<Rightarrow> bool" where
  "valid_str s \<longleftrightarrow> CHR 0x22 \<notin> set s \<and> CHR 0x5C \<notin> set s"

definition quote :: "string \<Rightarrow> string" where
  "quote s = [CHR 0x22] @ s @ [CHR 0x22]"

lemma unescape_plain: "CHR 0x5C \<notin> set s \<Longrightarrow> unescape_body d s = s"
  by (induction d s rule: unescape_body.induct) auto

lemma quoted_loop_plain:
  assumes "rest lx = s @ d # r" "d \<notin> set s" "CHR 0x5C \<notin> set s" "prev \<noteq> CHR 0x5C" "d \<noteq> CHR 0x5C"
  shows "rest (quoted_loop d prev buf (s @ d # r) lx) = r \<and>
    last_token (quoted_loop d prev buf (s @ d # r) lx) = Tok (unescape_str (buf @ s @ [d]))"
  using assms
proof (induction s arbitrary: lx prev buf)
  case Nil
  then show ?case by simp
next
  case (Cons c s)
  have "rest (update_pos_char c lx) = s @ d # r" using Cons.prems by simp
  from Cons.IH [OF this, of c "buf @ [c]"] Cons.prems show ?case by auto
qed

lemma quoted_hit:
  assumes "rest lx = quote s @ r" "valid_str s"
  shows "\<exists>lx'. linx_lexer_quoted_str lx = (True, lx') \<and> rest lx' = r \<and> last_token lx' = Tok s"
proof -
  let ?q = "CHR 0x22"
  have r: "rest lx = ?q # s @ ?q # r" using assms(1) by (simp add: quote_def)
  have "rest (update_pos_char ?q lx) = s @ ?q # r" using r by simp
  from quoted_loop_plain [OF this, of ?q "[?q]"] assms(2)
  have "rest (quoted_loop ?q CHR 0x5C [] (rest lx) lx) = r"
    "last_token (quoted_loop ?q CHR 0x5C [] (rest lx) lx) = Tok (unescape_str ([?q] @ s @ [?q]))"
    unfolding r by (simp_all add: valid_str_def)
  moreover have "unescape_str ([?q] @ s @ [?q]) = s"
    using assms(2) by (simp add: unescape_str_def valid_str_def unescape_plain butlast_append)
  ultimately show ?thesis unfolding linx_lexer_quoted_str_def by (simp add: r)
qed

section \<open>Numbers\<close>

lemma stop_number:
  assumes "stop r"
  shows "scan_class is_digit r = 0" "scan_exponent r = 0" "r = [] \<or> hd r \<noteq> CHR ''.''" "\<not> is_prefix ''x'' r"
    "\<not> is_prefix ''X'' r"
  using assms by (cases r; auto simp: stop_def scan_exponent_def is_digit_def)+

lemma is_digit_facts: "is_digit c \<Longrightarrow> \<not> is_space c \<and> c \<noteq> CHR ''-'' \<and> c \<noteq> CHR ''+'' \<and> c \<noteq> CHR ''.'' \<and>
    c \<noteq> CHR ''('' \<and> \<not> is_blank c \<and> c \<noteq> CHR 0x22 \<and> c \<noteq> CHR 0x27 \<and> \<not> is_alpha c"
  by (auto simp: is_digit_def is_space_def is_blank_def is_alpha_def)

lemma scan_digits:
  assumes "list_all is_digit d" "d \<noteq> []" "stop r"
  shows "scan_class is_digit (d @ r) = length d" "hd (d @ r) \<noteq> CHR ''+''" "hd (d @ r) \<noteq> CHR ''-''"
proof -
  show "scan_class is_digit (d @ r) = length d"
    using stop_number(1) [OF assms(3)] assms(1) by (simp add: scan_class_append scan_class_all)
  have "is_digit (hd (d @ r))" using assms(1,2) by (cases d) auto
  then show "hd (d @ r) \<noteq> CHR ''+''" "hd (d @ r) \<noteq> CHR ''-''" using is_digit_facts by blast+
qed

lemma scan_number_digits:
  assumes "list_all is_digit d" "d \<noteq> []" "stop r"
  shows "scan_number (d @ r) = Some (length d)" "scan_number (CHR ''-'' # d @ r) = Some (Suc (length d))"
proof -
  have dot: "\<not> (r \<noteq> [] \<and> hd r = CHR ''.'')" using stop_number(3) [OF assms(3)] by blast
  show "scan_number (d @ r) = Some (length d)"
    unfolding scan_number_def Let_def
    using scan_digits [OF assms] assms(2) stop_number(1,2) [OF assms(3)] dot by simp
  show "scan_number (CHR ''-'' # d @ r) = Some (Suc (length d))"
    unfolding scan_number_def Let_def
    using scan_digits(1) [OF assms] assms(2) stop_number(1,2) [OF assms(3)] dot by simp
qed

lemma scan_number_show_int:
  "stop r \<Longrightarrow> scan_number (show_int v @ r) = Some (length (show_int v))"
  using scan_number_digits show_nat_digits by (simp add: show_int_def)

lemma digits_not_hex:
  assumes "list_all is_digit d" "d \<noteq> []" "stop r" "x = CHR ''x'' \<or> x = CHR ''X''"
  shows "\<not> is_prefix [CHR ''0'', x] (d @ r)"
proof -
  obtain a t where d: "d = a # t" using assms(2) by (cases d) auto
  show ?thesis
  proof (cases t)
    case Nil
    have "\<not> is_prefix [x] r" using assms(3,4) by (cases r) (auto simp: stop_def)
    then show ?thesis using d Nil by simp
  next
    case (Cons b t')
    have "\<not> is_digit x" using assms(4) by (auto simp: is_digit_def)
    then have "b \<noteq> x" using assms(1) d Cons by auto
    then show ?thesis using d Cons by simp
  qed
qed

lemma scan_hex_show_int: "stop r \<Longrightarrow> scan_hex (show_int v @ r) = None"
  using digits_not_hex show_nat_digits by (simp add: show_int_def scan_hex_def)

end
