(* ===== verification/Rule_Roundtrip.thy ===== *)
theory Rule_Roundtrip
  imports Rule_Grammar
begin

text \<open>
  The printer of conditions and the round trip through the parser: operands with transformers,
  comparisons with integers, quoted strings and lists, \<^verbatim>\<open>exists\<close>, and \<^verbatim>\<open>not\<close>, \<^verbatim>\<open>and\<close>, \<^verbatim>\<open>or\<close> with their
  precedences and left associativity.
\<close>

section \<open>Printing\<close>

fun show_left :: "ast_node \<Rightarrow> string" where
  "show_left (AST_FIELD_NAME f) = f"
| "show_left (AST_FIELD_TRANSFORMER op x) = g_field_transformer_types ! nat op @ show_left x @ '')''"
| "show_left _ = ''''"

fun wf_left :: "ast_node \<Rightarrow> bool" where
  "wf_left (AST_FIELD_NAME f) = valid_field f"
| "wf_left (AST_FIELD_TRANSFORMER op x) = (0 \<le> op \<and> op < 5 \<and> wf_left x)"
| "wf_left _ = False"

fun show_items :: "ast_node list \<Rightarrow> string" where
  "show_items [] = ''''"
| "show_items [AST_STRING s] = quote s"
| "show_items (AST_STRING s # xs) = quote s @ '', '' @ show_items xs"
| "show_items _ = ''''"

fun wf_item :: "ast_node \<Rightarrow> bool" where
  "wf_item (AST_STRING s) = valid_str s"
| "wf_item _ = False"

fun wf_atom :: "ast_node \<Rightarrow> bool" where
  "wf_atom (AST_BIN_NUM_OP op l (AST_INT v)) =
     ((op = BINARY_NUM_OP_GT \<or> op = BINARY_NUM_OP_LT) \<and> wf_left l \<and> LONG_MIN \<le> v \<and> v \<le> LONG_MAX)"
| "wf_atom (AST_BIN_STR_OP op l (AST_STRING s)) = (0 \<le> op \<and> op < 12 \<and> wf_left l \<and> valid_str s)"
| "wf_atom (AST_BIN_LIST_OP op l (AST_LIST xs)) = (0 \<le> op \<and> op < 3 \<and> wf_left l \<and> list_all wf_item xs)"
| "wf_atom (AST_UN_OP op l) = (op = UNARY_OP_EXISTS \<and> wf_left l)"
| "wf_atom _ = False"

fun show_rhs :: "ast_node \<Rightarrow> string" where
  "show_rhs (AST_BIN_NUM_OP op l (AST_INT v)) = g_binary_num_ops ! nat op @ '' '' @ show_int v"
| "show_rhs (AST_BIN_STR_OP op l (AST_STRING s)) = g_binary_str_ops ! nat op @ quote s"
| "show_rhs (AST_BIN_LIST_OP op l (AST_LIST xs)) =
     g_binary_list_ops ! nat op @ '' ('' @ show_items xs @ '')''"
| "show_rhs (AST_UN_OP op l) = g_unary_ops ! nat op"
| "show_rhs _ = ''''"

fun left_of :: "ast_node \<Rightarrow> ast_node" where
  "left_of (AST_BIN_NUM_OP op l r) = l"
| "left_of (AST_BIN_STR_OP op l r) = l"
| "left_of (AST_BIN_LIST_OP op l r) = l"
| "left_of (AST_UN_OP op l) = l"
| "left_of t = AST_NULL"

definition show_atom :: "ast_node \<Rightarrow> string" where
  "show_atom t = show_left (left_of t) @ '' '' @ show_rhs t"

definition parens :: "bool \<Rightarrow> string \<Rightarrow> string" where
  "parens b s = (if b then ''('' @ s @ '')'' else s)"

text \<open>The level says how tightly the context binds: 0 \<^verbatim>\<open>or\<close>, 1 \<^verbatim>\<open>and\<close>, 2 \<^verbatim>\<open>not\<close>, 3 a single check.\<close>

fun show_cond :: "nat \<Rightarrow> ast_node \<Rightarrow> string" where
  "show_cond lvl (AST_BIN_BOOL_OP op l r) =
     (if op = BINARY_BOOL_OP_OR then parens (lvl > 0) (show_cond 0 l @ '' or '' @ show_cond 1 r)
      else parens (lvl > 1) (show_cond 1 l @ '' and '' @ show_cond 2 r))"
| "show_cond lvl (AST_UN_OP op x) =
     (if op = UNARY_OP_NOT then parens (lvl > 2) (''not '' @ show_cond 3 x)
      else show_atom (AST_UN_OP op x))"
| "show_cond lvl t = show_atom t"

fun wf_cond :: "ast_node \<Rightarrow> bool" where
  "wf_cond (AST_BIN_BOOL_OP op l r) =
     ((op = BINARY_BOOL_OP_OR \<or> op = BINARY_BOOL_OP_AND) \<and> wf_cond l \<and> wf_cond r)"
| "wf_cond (AST_UN_OP op x) = (if op = UNARY_OP_NOT then wf_cond x else wf_atom (AST_UN_OP op x))"
| "wf_cond t = wf_atom t"

section \<open>Scanner calls as equations\<close>

definition adv :: "string \<Rightarrow> linx_lexer \<Rightarrow> linx_lexer" where
  "adv str lx = update_pos_str str (length str) (linx_lexer_update_last_token str lx)"

lemma adv_simps [simp]:
  "rest (adv str lx) = drop (length str) (rest lx)" "last_token (adv str lx) = Tok str"
  by (simp_all add: adv_def linx_lexer_update_last_token_def)

lemma find_str_if:
  "linx_lexer_find_str str lx = (if is_prefix str (rest lx) then (True, adv str lx) else (False, lx))"
proof (cases "is_prefix str (rest lx)")
  case True
  then obtain r where "rest lx = str @ r" by (auto simp: is_prefix_iff prefix_def)
  then show ?thesis using True by (simp add: find_str_rest adv_def)
qed (simp add: find_str_fails)

lemma is_prefix_append [simp]: "is_prefix s (s @ r)"
  by (simp add: is_prefix_iff)

lemma regex_if:
  assumes "pm rgx (rest lx) = rx_answer m" "rest lx = t @ r" "m = Some (length t)" "t \<noteq> []"
  shows "lexer_regex pm rgx lx = (True, adv t lx)"
  using assms by (simp add: lexer_regex_def linx_regex_match_def rx_answer_def adv_def
      linx_lexer_update_last_token_def)

lemma regex_miss: "pm rgx (rest lx) = rx_answer None \<Longrightarrow> lexer_regex pm rgx lx = (False, lx)"
  by (simp add: lexer_regex_miss rx_answer_def)

lemma grammar_rx:
  assumes "pcre2_grammar pm"
  shows "pm RGX_FIELDNAME s = rx_answer (scan_field s)" "pm RGX_NOTBLANK s = rx_answer (scan_notblank s)"
    "pm RGX_HEXNUM s = rx_answer (scan_hex s)" "pm RGX_NUMBER s = rx_answer (scan_number s)"
    "pm RGX_BARESTR s = rx_answer (nonzero (scan_class bare_char s))"
  using assms rx_patterns_distinct unfolding pcre2_grammar_def by (simp_all add: rx_def)

lemma field_name_hit:
  "pcre2_grammar pm \<Longrightarrow> valid_field f \<Longrightarrow> word_stop r \<Longrightarrow> rest lx = f @ r \<Longrightarrow>
   linx_lexer_field_name pm lx = (True, adv f lx)"
  unfolding linx_lexer_field_name_def
  by (rule regex_if [OF grammar_rx(1)]) (simp_all add: scan_field_append valid_field_chars(2))

lemma field_name_miss:
  "pcre2_grammar pm \<Longrightarrow> scan_field (rest lx) = None \<Longrightarrow> linx_lexer_field_name pm lx = (False, lx)"
  unfolding linx_lexer_field_name_def by (rule regex_miss) (simp add: grammar_rx(1))

lemma not_blank_miss:
  "pcre2_grammar pm \<Longrightarrow> scan_notblank (rest lx) = None \<Longrightarrow> linx_lexer_not_blank pm lx = (False, lx)"
  unfolding linx_lexer_not_blank_def by (rule regex_miss) (simp add: grammar_rx(2))

lemma rest_skip:
  "rest lx = s \<Longrightarrow> s = [] \<or> \<not> is_blank (hd s) \<Longrightarrow> rest (skip_blanks lx) = s"
  by (cases s) auto

lemma dropWhile_first: "s \<noteq> [] \<Longrightarrow> \<not> is_blank (hd s) \<Longrightarrow> dropWhile is_blank (s @ r) = s @ r"
  by (cases s) auto

lemma blank_chars [simp]: "is_blank CHR '' ''" "\<not> is_blank CHR ''(''" "\<not> is_blank CHR '')''"
  "\<not> is_blank CHR 0x22" "\<not> is_blank CHR '',''"
  by (simp_all add: is_blank_def)

section \<open>Operands\<close>

text \<open>No transformer keyword is a prefix of a field name followed by a stop character.\<close>

lemma prefix_before:
  assumes "is_prefix p (f @ c # r)" "c \<notin> set p"
  shows "is_prefix p f"
  using assms
proof (induction p arbitrary: f)
  case (Cons a p)
  then show ?case by (cases f) auto
qed simp

lemma transformer_types_chars:
  "x \<in> set g_field_transformer_types \<or> x \<in> set g_field_transformer_vals \<Longrightarrow>
   CHR ''('' \<in> set x \<and> CHR '')'' \<notin> set x \<and> CHR '' '' \<notin> set x"
  by (auto simp: g_field_transformer_types_def g_field_transformer_vals_def)

lemma field_no_paren: "valid_field f \<Longrightarrow> CHR ''('' \<notin> set f"
  using valid_field_chars(1) [of f] by (auto simp: list_all_iff is_word_def is_alpha_def is_digit_def)

lemma field_not_transformer:
  assumes "valid_field f" "c = CHR '')'' \<or> c = CHR '' ''" "x \<in> set g_field_transformer_types"
  shows "\<not> is_prefix x (f @ c # r)"
proof
  assume "is_prefix x (f @ c # r)"
  then have "is_prefix x f"
    using transformer_types_chars assms(2,3) by (intro prefix_before [of x f c r]) auto
  then have "set x \<subseteq> set f" by (auto simp: is_prefix_iff prefix_def)
  then show False using field_no_paren [OF assms(1)] transformer_types_chars assms(3) by blast
qed

lemma transformer_type_miss:
  "(\<And>x. x \<in> set g_field_transformer_types \<Longrightarrow> \<not> is_prefix x (rest lx)) \<Longrightarrow>
   linx_lexer_field_transformer_type lx = (False, lx)"
  unfolding linx_lexer_field_transformer_type_def by (rule operator_miss)

lemma transformer_type_hit:
  assumes "rest lx = g_field_transformer_types ! j @ r" "j < 5"
  shows "linx_lexer_field_transformer_type lx = (True, adv (g_field_transformer_types ! j) lx)"
proof -
  have "j \<in> {0, 1, 2, 3, 4}" using assms(2) by auto
  then show ?thesis
    using assms(1)
    by (auto simp: linx_lexer_field_transformer_type_def g_field_transformer_types_def find_str_if)
qed

lemma transformer_lookup:
  "0 \<le> op \<Longrightarrow> op < 5 \<Longrightarrow> op_str_to_field_transformer_type (g_field_transformer_types ! nat op) = op"
  using op_scan_nth [OF op_tables_distinct(6), of "nat op" 0]
  by (simp add: op_str_to_field_transformer_type_def g_field_transformer_types_def)

lemma scan_field_paren: "scan_field (CHR '')'' # r) = None" "scan_field (CHR '' '' # r) = None"
  "scan_field (CHR ''('' # r) = None" "scan_field [] = None"
  by (simp_all add: scan_field_def scan_ident_def is_alpha_def)

lemma scan_field_call:
  assumes "list_all is_word w"
  shows "scan_field (w @ CHR ''('' # r) = None"
proof (cases "scan_ident (w @ CHR ''('' # r) = 0")
  case False
  have "\<not> is_word CHR ''(''" by (simp add: is_word_def is_alpha_def is_digit_def)
  then have "scan_class is_word (w @ CHR ''('' # r) = length w"
    using assms by (simp add: scan_class_append scan_class_all)
  then have "scan_ident (w @ CHR ''('' # r) = length w"
    using False by (simp add: scan_ident_def split: if_splits)
  then show ?thesis by (simp add: scan_field_def)
qed (simp add: scan_field_def)

lemma transformer_types_calls:
  "list_all (\<lambda>x. x \<noteq> [] \<and> last x = CHR ''('' \<and> list_all is_word (butlast x)) g_field_transformer_types"
  by code_simp

lemma scan_field_transformer:
  assumes "x \<in> set g_field_transformer_types"
  shows "scan_field (x @ r) = None"
proof -
  have x: "x \<noteq> []" "last x = CHR ''(''" "list_all is_word (butlast x)"
    using transformer_types_calls assms unfolding list_all_iff [of _ g_field_transformer_types] by blast+
  then obtain w where "x = w @ [CHR ''('']" "list_all is_word w"
    by (metis append_butlast_last_id)
  then show ?thesis using scan_field_call [of w r] by simp
qed

lemma transformer_first:
  assumes "x \<in> set g_field_transformer_types"
  shows "x \<noteq> []" "\<not> is_blank (hd (x @ r))" "\<not> is_prefix ''('' (x @ r)" "\<not> is_prefix ''not'' (x @ r)"
    "\<not> is_prefix ''not('' (x @ r)"
  using assms by (auto simp: g_field_transformer_types_def is_blank_def)

lemma transformer_mem:
  "0 \<le> j \<Longrightarrow> j < 5 \<Longrightarrow> g_field_transformer_types ! nat j \<in> set g_field_transformer_types"
  by (rule nth_mem) (simp add: g_field_transformer_types_def)

lemma show_left_first:
  "wf_left x \<Longrightarrow> show_left x \<noteq> [] \<and> \<not> is_blank (hd (show_left x))"
  using valid_field_not_not(4) [of _ "[]"] valid_field_chars(2) transformer_first(1,2) [OF transformer_mem]
  by (cases x) auto

lemma field_remainder_plain:
  assumes "rest lx = c # r" "c \<noteq> CHR ''[''" "last_token lx = Tok f"
  shows "parse_field_remainder pm us lx = pret (AST_FIELD_NAME f) lx"
  using assms by (simp add: parse_field_remainder_def with_tok_def find_str_if
      ast_node_create_field_name_def)

lemma close_paren_hit:
  "rest lx = CHR '')'' # r \<Longrightarrow> \<exists>lx'. close_paren m node lx = pret node lx' \<and> rest lx' = r"
  by (rule exI [of _ "adv '')'' (skip_blanks lx)"]) (simp add: close_paren_def find_str_if)

lemma transformer_tail_field:
  assumes "pcre2_grammar pm" "valid_field f" "rest lx = f @ CHR '')'' # r"
  shows "\<exists>lx'. transformer_tail pm us op node lx =
    pret (AST_FIELD_TRANSFORMER op (AST_FIELD_NAME f)) lx' \<and> rest lx' = r"
proof -
  have "word_stop (CHR '')'' # r)" by (simp add: stop_word_stop stop_def)
  then have "linx_lexer_field_name pm lx = (True, adv f lx)"
    using field_name_hit assms by blast
  moreover have "parse_field_remainder pm us (adv f lx) = pret (AST_FIELD_NAME f) (adv f lx)"
    using assms(3) by (intro field_remainder_plain [of _ "CHR '')''" r]) simp_all
  moreover obtain lx' where "close_paren AST_NULL (AST_FIELD_TRANSFORMER op (AST_FIELD_NAME f)) (adv f lx) =
      pret (AST_FIELD_TRANSFORMER op (AST_FIELD_NAME f)) lx'" "rest lx' = r"
    using close_paren_hit [of "adv f lx" r] assms(3) by auto
  ultimately show ?thesis
    by (simp add: transformer_tail_def pret_def ast_node_create_field_transformer_def)
qed

lemma transformer_tail_node:
  assumes "pcre2_grammar pm" "rest lx = CHR '')'' # r" "wf_left t"
  shows "\<exists>lx'. transformer_tail pm us op (Some t) lx = pret (AST_FIELD_TRANSFORMER op t) lx' \<and> rest lx' = r"
proof -
  have "linx_lexer_field_name pm lx = (False, lx)"
    using assms(1,2) by (intro field_name_miss) (simp_all add: scan_field_paren)
  moreover obtain lx' where "close_paren AST_NULL (AST_FIELD_TRANSFORMER op t) lx =
      pret (AST_FIELD_TRANSFORMER op t) lx'" "rest lx' = r"
    using close_paren_hit [OF assms(2)] by blast
  ultimately show ?thesis
    using assms(3) by (cases t) (simp_all add: transformer_tail_def pret_def ast_node_create_field_transformer_def)
qed

lemma transformer_remainder_roundtrip:
  assumes "pcre2_grammar pm"
  shows "wf_left t \<Longrightarrow> 0 \<le> op \<Longrightarrow> op < 5 \<Longrightarrow> last_token lx = Tok (g_field_transformer_types ! nat op) \<Longrightarrow>
    rest lx = show_left t @ CHR '')'' # r \<Longrightarrow> length (rest lx) < n \<Longrightarrow>
    \<exists>lx'. parse_field_or_transformer_remainder n pm us lx = pret (AST_FIELD_TRANSFORMER op t) lx' \<and>
      rest lx' = r"
proof (induction t arbitrary: op lx r n rule: wf_left.induct)
  case (1 f)
  then obtain m where n: "n = Suc m" by (cases n) auto
  have f: "valid_field f" using 1 by simp
  have r: "rest lx = f @ CHR '')'' # r" using 1 by simp
  then have rs: "rest (skip_blanks lx) = f @ CHR '')'' # r"
    using valid_field_not_not(4) [OF f] by (intro rest_skip) simp_all
  have "linx_lexer_field_transformer_type (skip_blanks lx) = (False, skip_blanks lx)"
    using field_not_transformer [OF f] rs by (intro transformer_type_miss) metis
  then show ?case
    using transformer_tail_field [OF assms f rs, of us op None] transformer_lookup [of op] 1 n
    by (simp add: with_tok_def)
next
  case (2 j x)
  then obtain m where n: "n = Suc m" by (cases n) auto
  let ?x = "g_field_transformer_types ! nat j"
  have j: "nat j < 5" "?x \<in> set g_field_transformer_types" "0 \<le> j" "j < 5" "wf_left x"
    using 2 by (auto intro: transformer_mem)
  have r: "rest lx = ?x @ show_left x @ CHR '')'' # CHR '')'' # r" using 2 by simp
  have rs: "rest (skip_blanks lx) = ?x @ show_left x @ CHR '')'' # CHR '')'' # r"
    using transformer_first(2) [OF j(2)] r by (intro rest_skip) simp_all
  define l1 where "l1 = skip_blanks (adv ?x (skip_blanks lx))"
  have hit: "linx_lexer_field_transformer_type (skip_blanks lx) = (True, adv ?x (skip_blanks lx))"
    using transformer_type_hit [OF rs j(1)] .
  have fst: "show_left x \<noteq> [] \<and> \<not> is_blank (hd (show_left x))"
    using show_left_first [OF j(5)] by simp
  have l1: "rest l1 = show_left x @ CHR '')'' # CHR '')'' # r" "last_token l1 = Tok ?x"
    using rs fst unfolding l1_def by (simp_all add: dropWhile_first)
  have "length (rest l1) < m"
    using 2(7) transformer_first(1) [OF j(2)] n unfolding l1 r by (cases ?x) auto
  then obtain l2 where l2: "parse_field_or_transformer_remainder m pm us l1 =
      pret (AST_FIELD_TRANSFORMER j x) l2" "rest l2 = CHR '')'' # r"
    using 2(1) [OF j(5) j(3,4) l1(2,1)] by blast
  obtain l3 where "transformer_tail pm us op (Some (AST_FIELD_TRANSFORMER j x)) l2 =
      pret (AST_FIELD_TRANSFORMER op (AST_FIELD_TRANSFORMER j x)) l3" "rest l3 = r"
    using transformer_tail_node [OF assms l2(2)] 2(2) by blast
  then show ?case
    using hit l2 transformer_lookup [of op] 2 n unfolding l1_def by (simp add: with_tok_def pret_def)
qed simp_all

section \<open>Comparisons\<close>

lemma skip_one_space:
  "rest lx = CHR '' '' # s \<Longrightarrow> s \<noteq> [] \<Longrightarrow> \<not> is_blank (hd s) \<Longrightarrow> rest (skip_blanks lx) = s"
  using dropWhile_first [of s "[]"] by simp

lemma less_12: "(j :: nat) < 12 \<Longrightarrow> j \<in> {0, 1, 2, 3, 4, 5, 6, 7, 8, 9, 10, 11}"
  unfolding insert_iff empty_iff by presburger

text \<open>At an operator of the string table followed by a quote, the earlier tables do not match.\<close>

lemma str_op_scan:
  assumes "j < 12" "rest lx = g_binary_str_ops ! j @ CHR 0x22 # t"
  shows "linx_lexer_unary_op lx = (False, lx)" "linx_lexer_num_op lx = (False, lx)"
    "linx_lexer_str_op lx = (True, adv (g_binary_str_ops ! j) lx)"
    "\<not> is_blank (hd (g_binary_str_ops ! j @ CHR 0x22 # t))"
  using less_12 [OF assms(1)] assms(2)
  by (elim insertE emptyE; simp add: linx_lexer_unary_op_def linx_lexer_num_op_def linx_lexer_str_op_def
      g_unary_ops_def g_binary_num_ops_def g_binary_str_ops_def find_str_if is_blank_def)+

lemma list_op_scan:
  assumes "j < 3" "rest lx = g_binary_list_ops ! j @ CHR '' '' # t"
  shows "linx_lexer_unary_op lx = (False, lx)" "linx_lexer_num_op lx = (False, lx)"
    "linx_lexer_str_op lx = (False, lx)" "linx_lexer_list_op lx = (True, adv (g_binary_list_ops ! j) lx)"
    "\<not> is_blank (hd (g_binary_list_ops ! j @ CHR '' '' # t))"
proof -
  have "j \<in> {0, 1, 2}" using assms(1) by auto
  then show "linx_lexer_unary_op lx = (False, lx)" "linx_lexer_num_op lx = (False, lx)"
    "linx_lexer_str_op lx = (False, lx)" "linx_lexer_list_op lx = (True, adv (g_binary_list_ops ! j) lx)"
    "\<not> is_blank (hd (g_binary_list_ops ! j @ CHR '' '' # t))"
    using assms(2)
    by (elim insertE emptyE; simp add: linx_lexer_unary_op_def linx_lexer_num_op_def linx_lexer_str_op_def
        linx_lexer_list_op_def g_unary_ops_def g_binary_num_ops_def g_binary_str_ops_def
        g_binary_list_ops_def find_str_if is_blank_def)+
qed

lemma num_op_scan:
  assumes "j = 0 \<or> j = 2" "rest lx = g_binary_num_ops ! j @ CHR '' '' # t"
  shows "linx_lexer_unary_op lx = (False, lx)"
    "linx_lexer_num_op lx = (True, adv (g_binary_num_ops ! j) lx)"
    "\<not> is_blank (hd (g_binary_num_ops ! j @ CHR '' '' # t))"
  using assms
  by (elim disjE; simp add: linx_lexer_unary_op_def linx_lexer_num_op_def g_unary_ops_def
      g_binary_num_ops_def find_str_if is_blank_def)+

lemma op_lookups:
  "j < 12 \<Longrightarrow> op_str_to_binary_str_op (g_binary_str_ops ! j) = int j"
  "j < 3 \<Longrightarrow> op_str_to_binary_list_op (g_binary_list_ops ! j) = int j"
  "j < 4 \<Longrightarrow> op_str_to_binary_num_op (g_binary_num_ops ! j) = int j"
  using op_scan_nth [OF op_tables_distinct(3), of j 0] op_scan_nth [OF op_tables_distinct(4), of j 0]
    op_scan_nth [OF op_tables_distinct(2), of j 0]
  by (simp_all add: op_str_defs g_binary_str_ops_def g_binary_list_ops_def g_binary_num_ops_def)

text \<open>No transformer keyword starts a quoted string, a parenthesis or an integer.\<close>

definition no_keyword :: "string \<Rightarrow> bool" where
  "no_keyword s \<longleftrightarrow> s = [] \<or> \<not> is_alpha (hd s)"

lemma no_keyword_try:
  assumes "no_keyword (rest lx)" "rest lx = [] \<or> \<not> is_blank (hd (rest lx))"
  shows "try_parse_transformer_or_val n pm us lx = pret AST_NULL (skip_blanks lx)"
proof -
  have r: "rest (skip_blanks lx) = rest lx" using rest_skip [OF refl assms(2)] .
  have "\<not> is_prefix x (rest lx)"
    if "x \<in> set g_field_transformer_types \<or> x \<in> set g_field_transformer_vals" for x
    using assms(1) that
    by (cases "rest lx")
      (auto simp: no_keyword_def g_field_transformer_types_def g_field_transformer_vals_def is_alpha_def)
  then have "linx_lexer_field_transformer_val (skip_blanks lx) = (False, skip_blanks lx)"
    "linx_lexer_field_transformer_type (skip_blanks lx) = (False, skip_blanks lx)"
    unfolding linx_lexer_field_transformer_val_def linx_lexer_field_transformer_type_def
    using r by (auto intro!: operator_miss)
  then show ?thesis by (simp add: try_parse_transformer_or_val_def)
qed

lemma quote_first: "quote s \<noteq> []" "hd (quote s @ r) = CHR 0x22"
  by (simp_all add: quote_def)

lemma str_value_roundtrip:
  assumes "valid_str s" "rest (skip_blanks lx) = quote s @ r"
  shows "\<exists>lx'. parse_str_value_or_transformer n pm us b lx = pret (AST_STRING s) lx' \<and> rest lx' = r"
proof -
  define l where "l = (if b then skip_blanks lx else skip_blanks (skip_blanks lx))"
  have r2: "rest (skip_blanks (skip_blanks lx)) = quote s @ r"
    by (rule rest_skip [OF assms(2)]) (simp add: quote_first)
  have l: "rest l = quote s @ r" using assms(2) r2 unfolding l_def by (simp del: rest_skip_blanks)
  have "try_parse_transformer_or_val n pm us (skip_blanks lx) = pret AST_NULL (skip_blanks (skip_blanks lx))"
    using assms(2) by (intro no_keyword_try) (simp_all add: no_keyword_def quote_def is_alpha_def is_blank_def)
  then have t: "(if b then pret AST_NULL (skip_blanks lx)
      else try_parse_transformer_or_val n pm us (skip_blanks lx)) = pret AST_NULL l"
    by (simp add: l_def)
  obtain l2 where "linx_lexer_quoted_str l = (True, l2)" "rest l2 = r" "last_token l2 = Tok s"
    using quoted_hit [OF l assms(1)] by blast
  then show ?thesis
    unfolding parse_str_value_or_transformer_def t
    by (simp add: pret_def with_tok_def ast_node_create_string_def)
qed

lemma num_value_roundtrip:
  assumes "pcre2_grammar pm" "LONG_MIN \<le> v" "v \<le> LONG_MAX" "stop r"
    and "rest (skip_blanks lx) = show_int v @ r"
  shows "\<exists>lx'. parse_num_value_or_transformer n pm us lx = pret (AST_INT v) lx' \<and> rest lx' = r"
proof -
  let ?l = "skip_blanks (skip_blanks lx)"
  have d: "list_all is_digit (show_nat k) \<and> show_nat k \<noteq> []" for k by (rule show_nat_digits)
  have "is_digit (hd (show_nat k))" for k using d [of k] by (cases "show_nat k") auto
  with d have hd: "show_int v \<noteq> []" "is_digit (hd (show_int v)) \<or> hd (show_int v) = CHR ''-''"
    by (auto simp: show_int_def)
  then have first: "\<not> is_alpha (hd (show_int v @ r))" "\<not> is_blank (hd (show_int v @ r))"
    using is_digit_facts by (auto simp: is_alpha_def is_blank_def)
  have l: "rest ?l = show_int v @ r" by (rule rest_skip [OF assms(5)]) (use first in simp)
  have t: "try_parse_transformer_or_val n pm us (skip_blanks lx) = pret AST_NULL ?l"
    using assms(5) first hd by (intro no_keyword_try) (simp_all add: no_keyword_def)
  have h: "linx_lexer_hex_num pm ?l = (False, ?l)"
    unfolding linx_lexer_hex_num_def
    by (rule regex_miss) (simp add: grammar_rx(3) [OF assms(1)] scan_hex_show_int [OF assms(4)] l del: rest_skip_blanks)
  have m: "linx_lexer_num pm ?l = (True, adv (show_int v) ?l)"
    unfolding linx_lexer_num_def
    by (rule regex_if [of pm RGX_NUMBER ?l "scan_number (rest ?l)" "show_int v" r])
      (simp_all only: l grammar_rx(4) [OF assms(1)] scan_number_show_int [OF assms(4)] hd
        not_False_eq_True)
  have "CHR ''.'' \<notin> set (show_int v)"
    using d is_digit_facts by (fastforce simp: show_int_def list_all_iff split: if_splits)
  then have "\<not> strstr (show_int v) ''.''" by (auto simp: strstr_iff sublist_def)
  then show ?thesis
    unfolding parse_num_value_or_transformer_def t
    using h m l strtol_show_int [OF assms(2,3)]
    by (simp add: pret_def with_tok_def ast_node_create_number_def del: rest_skip_blanks)
qed

lemma list_loop_roundtrip:
  assumes "list_all wf_item xs" "rest lx = (if xs = [] then [] else '', '' @ show_items xs) @ CHR '')'' # r"
    and "length (rest lx) < n"
  shows "\<exists>lx'. list_loop n pm us (AST_LIST ys) lx = pret (AST_LIST (ys @ xs)) lx' \<and> rest lx' = CHR '')'' # r"
  using assms
proof (induction n arbitrary: xs ys lx)
  case (Suc n)
  show ?case
  proof (cases xs)
    case Nil
    then have rs: "rest (skip_blanks lx) = CHR '')'' # r" using Suc.prems by simp
    then have "list_loop (Suc n) pm us (AST_LIST ys) lx = pret (AST_LIST ys) (skip_blanks lx)"
      by (simp add: find_str_if del: rest_skip_blanks)
    then show ?thesis using Nil rs by auto
  next
    case (Cons x zs)
    then obtain s where x: "x = AST_STRING s" "valid_str s" using Suc.prems(1) by (cases x) auto
    let ?t = "(if zs = [] then [] else '', '' @ show_items zs) @ CHR '')'' # r"
    have r: "rest lx = CHR '','' # CHR '' '' # quote s @ ?t"
      using Suc.prems(2) Cons x by (cases zs) simp_all
    have rs: "rest (skip_blanks lx) = CHR '','' # CHR '' '' # quote s @ ?t" using r by simp
    define l1 where "l1 = adv '','' (skip_blanks lx)"
    have l1: "rest l1 = CHR '' '' # quote s @ ?t" using rs by (simp add: l1_def del: rest_skip_blanks)
    have "rest (skip_blanks l1) = quote s @ ?t"
      by (rule skip_one_space [OF l1]) (simp_all add: quote_def)
    then obtain l2 where l2: "parse_str_value_or_transformer n pm us True l1 = pret (AST_STRING s) l2"
      "rest l2 = ?t"
      using str_value_roundtrip [OF x(2)] by blast
    have "length (rest l2) < n" using Suc.prems(3) unfolding l2(2) r by (simp add: quote_def)
    then obtain l3 where l3: "list_loop n pm us (AST_LIST (ys @ [x])) l2 = pret (AST_LIST ((ys @ [x]) @ zs)) l3"
      "rest l3 = CHR '')'' # r"
      using Suc.IH [of zs l2 "ys @ [x]"] l2(2) Suc.prems(1) Cons by auto
    have "list_loop (Suc n) pm us (AST_LIST ys) lx = list_loop n pm us (AST_LIST (ys @ [x])) l2"
      using l2 rs x by (simp add: find_str_if pret_def flip: l1_def del: rest_skip_blanks)
    then show ?thesis using l3 Cons by auto
  qed
qed simp

lemma bare_paren_miss:
  "pcre2_grammar pm \<Longrightarrow> rest lx = CHR '')'' # r \<Longrightarrow> linx_lexer_bare_str pm lx = (False, lx)"
  unfolding linx_lexer_bare_str_def
  by (rule regex_miss) (simp add: grammar_rx(5) nonzero_def bare_char_def)

lemma pbind_assoc: "pbind p (\<lambda>x lx. pbind (q x lx) k) = pbind (pbind p q) k"
  by (cases "(p, q)" rule: pbind.cases) simp_all

lemma list_value_items:
  assumes "pcre2_grammar pm" "list_all wf_item xs" "rest lx = show_items xs @ CHR '')'' # r"
    and "length (rest lx) < n"
  shows "\<exists>l2. pbind (parse_str_value_or_transformer n pm us True lx) (\<lambda>item lx.
      if item = AST_NULL then pret ast_node_create_list lx
      else list_loop n pm us (add_item_to_list ast_node_create_list item) lx) = pret (AST_LIST xs) l2 \<and>
      rest l2 = CHR '')'' # r"
proof (cases xs)
  case Nil
  have l: "rest (skip_blanks lx) = CHR '')'' # r" using assms(3) Nil by simp
  then have "linx_lexer_quoted_str (skip_blanks lx) = (False, skip_blanks lx)"
    by (simp add: linx_lexer_quoted_str_def del: rest_skip_blanks)
  then have "parse_str_value_or_transformer n pm us True lx = pret AST_NULL (skip_blanks lx)"
    using bare_paren_miss [OF assms(1) l]
    by (simp add: parse_str_value_or_transformer_def pret_def del: rest_skip_blanks)
  then show ?thesis using Nil l by (simp add: pret_def ast_node_create_list_def)
next
  case (Cons x zs)
  then obtain s where x: "x = AST_STRING s" "valid_str s" using assms(2) by (cases x) auto
  let ?t = "(if zs = [] then [] else '', '' @ show_items zs) @ CHR '')'' # r"
  have r: "rest lx = quote s @ ?t" using assms(3) Cons x by (cases zs) simp_all
  have "rest (skip_blanks lx) = quote s @ ?t" by (rule rest_skip [OF r]) (simp add: quote_first)
  then obtain l2 where l2: "parse_str_value_or_transformer n pm us True lx = pret (AST_STRING s) l2"
    "rest l2 = ?t"
    using str_value_roundtrip [OF x(2)] by blast
  have "length (rest l2) < n" using assms(4) unfolding l2(2) r by simp
  then obtain l3 where "list_loop n pm us (AST_LIST [x]) l2 = pret (AST_LIST ([x] @ zs)) l3"
    "rest l3 = CHR '')'' # r"
    using list_loop_roundtrip [of zs l2 r n pm us "[x]"] l2(2) assms(2) Cons by auto
  then show ?thesis using l2 x Cons by (simp add: pret_def ast_node_create_list_def)
qed

lemma list_value_roundtrip:
  assumes "pcre2_grammar pm" "list_all wf_item xs" "rest lx = '' ('' @ show_items xs @ CHR '')'' # r"
    and "length (rest lx) < n"
  shows "\<exists>lx'. parse_list_value_or_transformer n pm us lx = pret (AST_LIST xs) lx' \<and> rest lx' = r"
proof -
  have rs: "rest (skip_blanks lx) = CHR ''('' # show_items xs @ CHR '')'' # r"
    using assms(3) by simp
  define l1 where "l1 = skip_blanks (adv ''('' (skip_blanks lx))"
  have first: "\<not> is_blank (hd (show_items xs @ CHR '')'' # r))"
  proof (cases xs)
    case (Cons x zs)
    then show ?thesis using assms(2) by (cases x; cases zs) (auto simp: quote_def)
  qed simp
  have l1: "rest l1 = show_items xs @ CHR '')'' # r"
    unfolding l1_def by (rule rest_skip) (use rs first in \<open>simp_all del: rest_skip_blanks\<close>)
  have "length (rest l1) < n" using assms(3,4) unfolding l1 by simp
  from list_value_items [OF assms(1,2) l1 this, of us]
  obtain l2 where l2: "pbind (parse_str_value_or_transformer n pm us True l1) (\<lambda>item lx.
      if item = AST_NULL then pret ast_node_create_list lx
      else list_loop n pm us (add_item_to_list ast_node_create_list item) lx) = pret (AST_LIST xs) l2"
    "rest l2 = CHR '')'' # r" by blast
  have "parse_list_value_or_transformer n pm us lx = pret (AST_LIST xs) (adv '')'' l2)"
    using rs l2 unfolding parse_list_value_or_transformer_def pbind_assoc
    by (simp add: find_str_if pret_def flip: l1_def del: rest_skip_blanks)
  then show ?thesis using l2(2) by auto
qed

text \<open>An operator word after one blank: both blank skips leave it in front.\<close>

lemma skip_to_op:
  assumes "rest lx = CHR '' '' # s" "s \<noteq> []" "\<not> is_blank (hd s)"
  shows "rest (skip_blanks lx) = s" "rest (skip_blanks (skip_blanks lx)) = s"
proof -
  show r: "rest (skip_blanks lx) = s" by (rule skip_one_space [OF assms])
  show "rest (skip_blanks (skip_blanks lx)) = s" by (rule rest_skip [OF r]) (use assms(3) in simp)
qed

lemma show_int_first: "show_int v @ r \<noteq> []" "\<not> is_blank (hd (show_int v @ r))"
proof -
  have "is_digit (hd (show_nat k)) \<and> show_nat k \<noteq> []" for k
    using show_nat_digits [of k] by (cases "show_nat k") auto
  then show "show_int v @ r \<noteq> []" "\<not> is_blank (hd (show_int v @ r))"
    using is_digit_facts by (auto simp: show_int_def is_blank_def)
qed

lemma condition_num_roundtrip:
  assumes "pcre2_grammar pm" "op = 0 \<or> op = 2" "LONG_MIN \<le> v" "v \<le> LONG_MAX" "stop r"
    and "rest lx = CHR '' '' # g_binary_num_ops ! nat op @ '' '' @ show_int v @ r"
  shows "\<exists>lx'. parse_condition n pm us l lx = pret (AST_BIN_NUM_OP op l (AST_INT v)) lx' \<and> rest lx' = r"
proof -
  let ?o = "g_binary_num_ops ! nat op"
  let ?s = "?o @ CHR '' '' # show_int v @ r"
  have op: "nat op = 0 \<or> nat op = 2" "nat op < 4" "int (nat op) = op" using assms(2) by auto
  have first: "?s \<noteq> []" "\<not> is_blank (hd ?s)"
    using assms(2) by (auto simp: g_binary_num_ops_def is_blank_def)
  have a: "rest lx = CHR '' '' # ?s" using assms(6) by simp
  note r = skip_to_op [OF a first]
  let ?l = "adv ?o (skip_blanks (skip_blanks lx))"
  have "rest ?l = CHR '' '' # show_int v @ r" using r(2) by (simp del: rest_skip_blanks)
  then have "rest (skip_blanks ?l) = show_int v @ r" by (rule skip_one_space) (rule show_int_first)+
  from num_value_roundtrip [OF assms(1,3,4,5) this, of n us] obtain lx'
    where "parse_num_value_or_transformer n pm us ?l = pret (AST_INT v) lx'" "rest lx' = r" by blast
  then show ?thesis
    using num_op_scan(1) [OF op(1) r(1)] num_op_scan(2) [OF op(1) r(2)] op_lookups(3) [OF op(2)] op(3)
    by (simp add: parse_condition_def with_tok_def pret_def ast_node_create_binary_num_def)
qed

lemma condition_str_roundtrip:
  assumes "0 \<le> op" "op < 12" "valid_str s" "rest lx = CHR '' '' # g_binary_str_ops ! nat op @ quote s @ r"
  shows "\<exists>lx'. parse_condition n pm us l lx = pret (AST_BIN_STR_OP op l (AST_STRING s)) lx' \<and> rest lx' = r"
proof -
  let ?o = "g_binary_str_ops ! nat op"
  let ?s = "?o @ CHR 0x22 # s @ CHR 0x22 # r"
  have op: "nat op < 12" "int (nat op) = op" using assms(1,2) by auto
  have first: "?s \<noteq> []" "\<not> is_blank (hd ?s)"
    using str_op_scan(4) [OF op(1), of "linx_lexer_create ?s"]
    by (simp_all add: rest_def linx_lexer_create_def)
  have a: "rest lx = CHR '' '' # ?s" using assms(4) by (simp add: quote_def)
  note r = skip_to_op [OF a first]
  let ?l = "adv ?o (skip_blanks (skip_blanks lx))"
  have "rest ?l = quote s @ r" using r(2) by (simp add: quote_def del: rest_skip_blanks)
  then have "rest (skip_blanks ?l) = quote s @ r" by (rule rest_skip) (simp add: quote_first)
  from str_value_roundtrip [OF assms(3) this, of n pm us False] obtain lx'
    where "parse_str_value_or_transformer n pm us False ?l = pret (AST_STRING s) lx'" "rest lx' = r" by blast
  then show ?thesis
    using str_op_scan(1) [OF op(1) r(1)] str_op_scan(2,3) [OF op(1) r(2)] op_lookups(1) [OF op(1)] op(2)
    by (simp add: parse_condition_def with_tok_def pret_def ast_node_create_binary_str_def)
qed

lemma condition_list_roundtrip:
  assumes "pcre2_grammar pm" "0 \<le> op" "op < 3" "list_all wf_item xs" "length (rest lx) < n"
    and "rest lx = CHR '' '' # g_binary_list_ops ! nat op @ '' ('' @ show_items xs @ CHR '')'' # r"
  shows "\<exists>lx'. parse_condition n pm us l lx = pret (AST_BIN_LIST_OP op l (AST_LIST xs)) lx' \<and> rest lx' = r"
proof -
  let ?o = "g_binary_list_ops ! nat op"
  let ?t = "CHR ''('' # show_items xs @ CHR '')'' # r"
  let ?s = "?o @ CHR '' '' # ?t"
  have op: "nat op < 3" "int (nat op) = op" using assms(2,3) by auto
  have first: "?s \<noteq> []" "\<not> is_blank (hd ?s)"
    using list_op_scan(5) [OF op(1), of "linx_lexer_create ?s"]
    by (simp_all add: rest_def linx_lexer_create_def)
  have a: "rest lx = CHR '' '' # ?s" using assms(6) by simp
  note r = skip_to_op [OF a first]
  let ?l = "adv ?o (skip_blanks (skip_blanks lx))"
  have l: "rest ?l = '' ('' @ show_items xs @ CHR '')'' # r" using r(2) by (simp del: rest_skip_blanks)
  have "length (rest ?l) < n" using assms(5) unfolding l a by simp
  from list_value_roundtrip [OF assms(1,4) l this, of us] obtain lx'
    where "parse_list_value_or_transformer n pm us ?l = pret (AST_LIST xs) lx'" "rest lx' = r" by blast
  then show ?thesis
    using list_op_scan(1) [OF op(1) r(1)] list_op_scan(2,3,4) [OF op(1) r(2)] op_lookups(2) [OF op(1)] op(2)
    by (simp add: parse_condition_def with_tok_def pret_def ast_node_create_binary_list_def)
qed

lemma condition_exists_roundtrip:
  assumes "rest lx = '' exists'' @ r"
  shows "\<exists>lx'. parse_condition n pm us l lx = pret (AST_UN_OP 0 l) lx' \<and> rest lx' = r"
proof -
  have "rest (skip_blanks lx) = ''exists'' @ r" using assms by (simp add: is_blank_def)
  then have "linx_lexer_unary_op (skip_blanks lx) = (True, adv ''exists'' (skip_blanks lx))"
    "rest (adv ''exists'' (skip_blanks lx)) = r"
    by (simp_all add: linx_lexer_unary_op_def g_unary_ops_def find_str_if del: rest_skip_blanks)
  then show ?thesis
    by (simp add: parse_condition_def with_tok_def op_str_to_unary_op_def g_unary_ops_def
        ast_node_create_unary_def pret_def)
qed

lemma condition_roundtrip:
  assumes "pcre2_grammar pm" "wf_atom t" "stop r" "rest lx = CHR '' '' # show_rhs t @ r"
    and "length (rest lx) < n"
  shows "\<exists>lx'. parse_condition n pm us (left_of t) lx = pret t lx' \<and> rest lx' = r"
proof (cases t rule: wf_atom.cases)
  case (1 op l v)
  then show ?thesis using condition_num_roundtrip [OF assms(1) _ _ _ assms(3)] assms(2,4) by auto
next
  case (2 op l s)
  then show ?thesis using condition_str_roundtrip assms(2,4) by auto
next
  case (3 op l xs)
  then show ?thesis using condition_list_roundtrip [OF assms(1) _ _ _ assms(5)] assms(2,4) by auto
next
  case (4 op l)
  then show ?thesis using condition_exists_roundtrip [of lx r] assms(2,4) by (simp add: g_unary_ops_def)
qed (use assms(2) in simp_all)

section \<open>Checks\<close>

lemma wf_atom_left: "wf_atom t \<Longrightarrow> wf_left (left_of t)"
  by (cases t rule: wf_atom.cases) simp_all

lemma show_left_cases:
  assumes "wf_left t"
  obtains f where "t = AST_FIELD_NAME f" "valid_field f"
  | op x where "t = AST_FIELD_TRANSFORMER op x" "0 \<le> op" "op < 5" "wf_left x"
  using assms by (cases t) auto

text \<open>Every printed operand starts like a check: no parenthesis, no \<^verbatim>\<open>not\<close>, no blank.\<close>

lemma show_left_start:
  assumes "wf_left t"
  shows "\<not> is_prefix ''('' (show_left t @ s)" "\<not> is_prefix ''not('' (show_left t @ s)"
    "scan_notblank (show_left t @ s) = None"
proof -
  have "\<not> is_prefix ''('' (show_left t @ s) \<and> \<not> is_prefix ''not('' (show_left t @ s) \<and>
      scan_notblank (show_left t @ s) = None"
  proof (cases rule: show_left_cases [OF assms])
    case (1 f)
    then show ?thesis using valid_field_not_not [of f s] by simp
  next
    case (2 op x)
    note m = transformer_mem [OF 2(2,3)]
    show ?thesis using 2 transformer_first [OF m] by (simp add: scan_notblank_def)
  qed
  then show "\<not> is_prefix ''('' (show_left t @ s)" "\<not> is_prefix ''not('' (show_left t @ s)"
    "scan_notblank (show_left t @ s) = None" by auto
qed

lemma check_atom_roundtrip:
  assumes "pcre2_grammar pm" "wf_atom t" "stop r" "rest lx = show_atom t @ r" "length (rest lx) < n"
  shows "\<exists>lx'. parse_check (Suc n) pm us lx = pret t lx' \<and> rest lx' = r"
proof -
  let ?l = "left_of t" and ?s = "CHR '' '' # show_rhs t @ r"
  have wl: "wf_left ?l" by (rule wf_atom_left [OF assms(2)])
  have a: "rest lx = show_left ?l @ ?s" using assms(4) by (simp add: show_atom_def)
  have rs: "rest (skip_blanks lx) = show_left ?l @ ?s"
    by (rule rest_skip [OF a]) (use show_left_first [OF wl] in simp)
  have np: "linx_lexer_find_str ''('' (skip_blanks lx) = (False, skip_blanks lx)"
    using show_left_start(1) [OF wl, of ?s] rs by (simp add: find_str_if del: rest_skip_blanks is_prefix.simps)
  show ?thesis
  proof (cases rule: show_left_cases [OF wl])
    case (1 f)
    let ?m = "adv f (skip_blanks lx)"
    have "word_stop ?s" by (simp add: stop_word_stop stop_def)
    then have hit: "linx_lexer_field_name pm (skip_blanks lx) = (True, ?m)"
      using field_name_hit [OF assms(1) 1(2)] rs 1 by auto
    have m: "rest ?m = ?s" using rs 1 by (simp del: rest_skip_blanks)
    have "parse_field_remainder pm us ?m = pret ?l ?m"
      using field_remainder_plain [OF m, of f pm us] 1 by simp
    moreover have "length (rest ?m) < n" using assms(5) unfolding m a by simp
    then obtain lx' where "parse_condition n pm us ?l ?m = pret t lx'" "rest lx' = r"
      using condition_roundtrip [OF assms(1,2,3) m] by blast
    ultimately show ?thesis using np hit by (simp add: pret_def)
  next
    case (2 op x)
    let ?x = "g_field_transformer_types ! nat op"
    let ?m = "skip_blanks (adv ?x (skip_blanks lx))"
    note mem = transformer_mem [OF 2(2,3)]
    have ra: "rest (skip_blanks lx) = ?x @ show_left x @ CHR '')'' # ?s" using rs 2 by simp
    have miss: "linx_lexer_field_name pm (skip_blanks lx) = (False, skip_blanks lx)"
      using scan_field_transformer [OF mem] ra by (intro field_name_miss [OF assms(1)]) simp
    have hit: "linx_lexer_field_transformer_type (skip_blanks lx) = (True, adv ?x (skip_blanks lx))"
      using transformer_type_hit [OF ra] 2 by simp
    have m: "rest ?m = show_left x @ CHR '')'' # ?s" "last_token ?m = Tok ?x"
      by (rule rest_skip) (use ra show_left_first [OF 2(4)] in \<open>simp_all del: rest_skip_blanks\<close>)
    have lm: "length (rest ?m) < n" using assms(5) unfolding m a 2 by simp
    obtain l2 where l2: "parse_field_or_transformer_remainder n pm us ?m = pret ?l l2" "rest l2 = ?s"
      using transformer_remainder_roundtrip [OF assms(1) 2(4,2,3) m(2,1) lm] 2 by auto
    have "length (rest l2) < n" using lm unfolding l2 m by simp
    then obtain lx' where "parse_condition n pm us ?l l2 = pret t lx'" "rest lx' = r"
      using condition_roundtrip [OF assms(1,2,3) l2(2)] by blast
    then show ?thesis using np miss hit l2 by (simp add: pret_def)
  qed
qed

section \<open>Boolean structure\<close>

definition not_and :: "string \<Rightarrow> bool" where
  "not_and r \<longleftrightarrow> \<not> is_prefix ''and'' (dropWhile is_blank r)"

definition not_or :: "string \<Rightarrow> bool" where
  "not_or r \<longleftrightarrow> \<not> is_prefix ''or'' (dropWhile is_blank r)"

text \<open>What each parser function does on the text of a tree \<open>t\<close> followed by \<open>r\<close>. For \<^verbatim>\<open>parse_and\<close> and
  \<^verbatim>\<open>parse_or\<close> the state reached is that of their loop with \<open>t\<close> as the tree built so far.\<close>

definition check_ok :: "pcre2 \<Rightarrow> (nat \<Rightarrow> nat) \<Rightarrow> ast_node \<Rightarrow> bool" where
  "check_ok pm us t \<longleftrightarrow> (\<forall>n lx r. stop r \<longrightarrow> rest lx = show_cond 3 t @ r \<longrightarrow>
     8 * length (rest lx) + 2 \<le> n \<longrightarrow> (\<exists>lx'. parse_check n pm us lx = pret t lx' \<and> rest lx' = r))"

definition not_ok :: "pcre2 \<Rightarrow> (nat \<Rightarrow> nat) \<Rightarrow> ast_node \<Rightarrow> bool" where
  "not_ok pm us t \<longleftrightarrow> (\<forall>n lx r. stop r \<longrightarrow> rest lx = show_cond 2 t @ r \<longrightarrow>
     8 * length (rest lx) + 3 \<le> n \<longrightarrow> (\<exists>lx'. parse_not n pm us lx = pret t lx' \<and> rest lx' = r))"

definition and_ok :: "pcre2 \<Rightarrow> (nat \<Rightarrow> nat) \<Rightarrow> ast_node \<Rightarrow> bool" where
  "and_ok pm us t \<longleftrightarrow> (\<forall>n lx r. stop r \<longrightarrow> rest lx = show_cond 1 t @ r \<longrightarrow>
     8 * length (rest lx) + 4 \<le> n \<longrightarrow> (\<exists>m right lx'. parse_and n pm us lx = and_loop m pm us t right lx' \<and>
       rest lx' = dropWhile is_blank r \<and> 8 * length (rest lx') + 3 \<le> m))"

definition or_ok :: "pcre2 \<Rightarrow> (nat \<Rightarrow> nat) \<Rightarrow> ast_node \<Rightarrow> bool" where
  "or_ok pm us t \<longleftrightarrow> (\<forall>n lx r. stop r \<longrightarrow> not_and r \<longrightarrow> rest lx = show_cond 0 t @ r \<longrightarrow>
     8 * length (rest lx) + 5 \<le> n \<longrightarrow> (\<exists>m right lx'. parse_or n pm us lx = or_loop m pm us t right lx' \<and>
       rest lx' = dropWhile is_blank r \<and> 8 * length (rest lx') + 4 \<le> m))"

lemma check_okD:
  "check_ok pm us t \<Longrightarrow> stop r \<Longrightarrow> rest lx = show_cond 3 t @ r \<Longrightarrow> 8 * length (rest lx) + 2 \<le> n \<Longrightarrow>
   \<exists>lx'. parse_check n pm us lx = pret t lx' \<and> rest lx' = r"
  by (simp add: check_ok_def)

lemma not_okD:
  "not_ok pm us t \<Longrightarrow> stop r \<Longrightarrow> rest lx = show_cond 2 t @ r \<Longrightarrow> 8 * length (rest lx) + 3 \<le> n \<Longrightarrow>
   \<exists>lx'. parse_not n pm us lx = pret t lx' \<and> rest lx' = r"
  by (simp add: not_ok_def)

lemma and_okD:
  "and_ok pm us t \<Longrightarrow> stop r \<Longrightarrow> rest lx = show_cond 1 t @ r \<Longrightarrow> 8 * length (rest lx) + 4 \<le> n \<Longrightarrow>
   \<exists>m right lx'. parse_and n pm us lx = and_loop m pm us t right lx' \<and>
     rest lx' = dropWhile is_blank r \<and> 8 * length (rest lx') + 3 \<le> m"
  unfolding and_ok_def by blast

lemma or_okD:
  "or_ok pm us t \<Longrightarrow> stop r \<Longrightarrow> not_and r \<Longrightarrow> rest lx = show_cond 0 t @ r \<Longrightarrow>
   8 * length (rest lx) + 5 \<le> n \<Longrightarrow>
   \<exists>m right lx'. parse_or n pm us lx = or_loop m pm us t right lx' \<and>
     rest lx' = dropWhile is_blank r \<and> 8 * length (rest lx') + 4 \<le> m"
  unfolding or_ok_def by blast

lemma not_blank_n: "\<not> is_blank CHR ''n''"
  by (simp add: is_blank_def)

lemma show_atom_first: "wf_atom t \<Longrightarrow> show_atom t \<noteq> [] \<and> \<not> is_blank (hd (show_atom t))"
  using show_left_first [OF wf_atom_left] by (simp add: show_atom_def)

lemma show_cond_first:
  "wf_cond t \<Longrightarrow> show_cond lvl t \<noteq> [] \<and> \<not> is_blank (hd (show_cond lvl t))"
proof (induction t arbitrary: lvl rule: wf_cond.induct)
  case (1 op l r)
  then have "show_cond 0 l \<noteq> [] \<and> \<not> is_blank (hd (show_cond 0 l))"
    "show_cond 1 l \<noteq> [] \<and> \<not> is_blank (hd (show_cond 1 l))"
    using 1(1) [of 0] 1(1) [of 1] by auto
  then show ?case by (auto simp: parens_def)
next
  case (2 op x)
  then show ?case
    using show_left_first [of x] by (auto simp: parens_def show_atom_def not_blank_n split: if_splits)
qed (use show_atom_first in simp_all)

lemma dropWhile_cond: "wf_cond t \<Longrightarrow> dropWhile is_blank (show_cond lvl t @ s) = show_cond lvl t @ s"
  using show_cond_first [of t lvl] by (intro dropWhile_first) auto

lemma stop_space: "stop (CHR '' '' # s)" "stop (CHR '')'' # s)" "stop []"
  by (simp_all add: stop_def)

lemma loops_end:
  "0 < m \<Longrightarrow> \<not> is_prefix ''and'' (rest lx) \<Longrightarrow> and_loop m pm us t right lx = pret t lx"
  "0 < m \<Longrightarrow> \<not> is_prefix ''or'' (rest lx) \<Longrightarrow> or_loop m pm us t right lx = pret t lx"
proof -
  assume m: "0 < m"
  then obtain k where k: "m = Suc k" by (cases m) auto
  show "and_loop m pm us t right lx = pret t lx" if "\<not> is_prefix ''and'' (rest lx)"
    unfolding k and_loop.simps Let_def bool_op_text find_str_fails [OF that] prod.case
    by (simp only: not_False_eq_True if_True)
  show "or_loop m pm us t right lx = pret t lx" if "\<not> is_prefix ''or'' (rest lx)"
    unfolding k or_loop.simps Let_def bool_op_text find_str_fails [OF that] prod.case
    by (simp only: not_False_eq_True if_True)
qed

lemma and_ok_finish:
  assumes "and_ok pm us t" "stop r" "not_and r" "rest lx = show_cond 1 t @ r" "8 * length (rest lx) + 4 \<le> n"
  shows "\<exists>lx'. parse_and n pm us lx = pret t lx' \<and> rest lx' = dropWhile is_blank r"
proof -
  obtain m right lx' where m: "parse_and n pm us lx = and_loop m pm us t right lx'"
    "rest lx' = dropWhile is_blank r" "8 * length (rest lx') + 3 \<le> m"
    using and_okD [OF assms(1,2,4,5)] by blast
  have "and_loop m pm us t right lx' = pret t lx'"
    using m assms(3) by (intro loops_end(1)) (simp_all add: not_and_def)
  then show ?thesis using m by auto
qed

lemma embedded_roundtrip:
  assumes "or_ok pm us t" "wf_cond t" "rest lx = show_cond 0 t @ CHR '')'' # r" "8 * length (rest lx) + 6 \<le> n"
  shows "\<exists>lx'. parse_embedded_remainder n pm us lx = pret t lx' \<and> rest lx' = r"
proof -
  obtain k where n: "n = Suc k" using assms(4) by (cases n) auto
  have rs: "rest (skip_blanks lx) = show_cond 0 t @ CHR '')'' # r"
    using assms(3) dropWhile_cond [OF assms(2)] by simp
  have na: "not_and (CHR '')'' # r)" by (simp add: not_and_def)
  have "8 * length (rest (skip_blanks lx)) + 5 \<le> k"
    using assms(4) n unfolding rs assms(3) by simp
  from or_okD [OF assms(1) stop_space(2) na rs this]
  obtain m right l2 where m0: "parse_or k pm us (skip_blanks lx) = or_loop m pm us t right l2"
    "rest l2 = dropWhile is_blank (CHR '')'' # r)" "8 * length (rest l2) + 4 \<le> m"
    by blast
  then have m: "parse_or k pm us (skip_blanks lx) = or_loop m pm us t right l2"
    "rest l2 = CHR '')'' # r" "0 < m" by simp_all
  have "or_loop m pm us t right l2 = pret t l2"
    using m by (intro loops_end(2)) simp_all
  then show ?thesis using m n by (simp add: pret_def find_str_if)
qed

lemma check_paren_ok:
  assumes "or_ok pm us t" "wf_cond t" "show_cond 3 t = ''('' @ show_cond 0 t @ '')''"
  shows "check_ok pm us t"
  unfolding check_ok_def
proof (intro allI impI)
  fix n lx r
  assume a: "rest lx = show_cond 3 t @ r" "8 * length (rest lx) + 2 \<le> n"
  then obtain k where n: "n = Suc k" by (cases n) auto
  have rs: "rest (skip_blanks lx) = CHR ''('' # show_cond 0 t @ CHR '')'' # r"
    using a(1) assms(3) by simp
  let ?l = "adv ''('' (skip_blanks lx)"
  have l: "rest ?l = show_cond 0 t @ CHR '')'' # r" using rs by (simp del: rest_skip_blanks)
  have "8 * length (rest ?l) + 6 \<le> k" using a n unfolding l by (simp add: assms(3))
  from embedded_roundtrip [OF assms(1,2) l this]
  show "\<exists>lx'. parse_check n pm us lx = pret t lx' \<and> rest lx' = r"
    using rs n by (simp add: find_str_if del: rest_skip_blanks)
qed

lemma not_loop_miss:
  assumes "pcre2_grammar pm" "scan_notblank (rest lx) = None" "0 < n"
  shows "not_loop n pm b lx = pret b lx"
  using not_blank_miss [OF assms(1,2)] assms(3) by (cases n) simp_all

text \<open>A check that does not start with \<^verbatim>\<open>not\<close> passes through \<^verbatim>\<open>parse_not\<close>.\<close>

lemma not_of_check:
  assumes "pcre2_grammar pm" "check_ok pm us t" "wf_cond t" "show_cond 2 t = show_cond 3 t"
    and "\<And>s. scan_notblank (show_cond 3 t @ s) = None" "\<And>s. \<not> is_prefix ''not('' (show_cond 3 t @ s)"
  shows "not_ok pm us t"
  unfolding not_ok_def
proof (intro allI impI)
  fix n lx r
  assume a: "stop r" "rest lx = show_cond 2 t @ r" "8 * length (rest lx) + 3 \<le> n"
  then obtain k where n: "n = Suc k" by (cases n) auto
  have rs: "rest (skip_blanks lx) = show_cond 3 t @ r"
    using a(2) assms(4) dropWhile_cond [OF assms(3)] by simp
  have nl: "not_loop k pm False (skip_blanks lx) = pret False (skip_blanks lx)"
    using not_loop_miss [OF assms(1)] assms(5) rs a(3) n by (simp del: rest_skip_blanks)
  have fs: "linx_lexer_find_str ''not('' (skip_blanks lx) = (False, skip_blanks lx)"
    using assms(6) [of r] rs by (simp add: find_str_if del: rest_skip_blanks is_prefix.simps)
  have "8 * length (rest (skip_blanks lx)) + 2 \<le> k" using a n assms(4) unfolding rs by simp
  then obtain lx' where "parse_check k pm us (skip_blanks lx) = pret t lx'" "rest lx' = r"
    using check_okD [OF assms(2) a(1) rs] by blast
  then show "\<exists>lx'. parse_not n pm us lx = pret t lx' \<and> rest lx' = r"
    using nl fs n by (simp add: pret_def wrap_not_def)
qed

lemma scan_notblank_not: "\<not> is_blank c \<Longrightarrow> \<not> is_space c \<Longrightarrow> scan_notblank (''not '' @ c # s) = Some 4"
  by (simp add: scan_notblank_def is_space_def)

lemma not_not_ok:
  assumes "pcre2_grammar pm" "check_ok pm us t" "wf_cond t"
    and "\<And>s. scan_notblank (show_cond 3 t @ s) = None" "\<And>s. \<not> is_prefix ''not('' (show_cond 3 t @ s)"
    and "\<not> is_space (hd (show_cond 3 t))"
  shows "not_ok pm us (AST_UN_OP UNARY_OP_NOT t)"
  unfolding not_ok_def
proof (intro allI impI)
  fix n lx r
  assume a: "stop r" "rest lx = show_cond 2 (AST_UN_OP UNARY_OP_NOT t) @ r" "8 * length (rest lx) + 3 \<le> n"
  have ra: "rest lx = ''not '' @ show_cond 3 t @ r" using a(2) by (simp add: parens_def)
  obtain k where n: "n = Suc (Suc k)" using a(3) ra by (cases n; cases "n - 1") auto
  have rs: "rest (skip_blanks lx) = ''not '' @ show_cond 3 t @ r" using ra by (simp add: is_blank_def)
  obtain c cs where c: "show_cond 3 t = c # cs" using show_cond_first [OF assms(3)] by (cases "show_cond 3 t") auto
  have sn: "scan_notblank (rest (skip_blanks lx)) = Some (length ''not '')"
    using scan_notblank_not [of c "cs @ r"] show_cond_first [OF assms(3), of 3] assms(6)
    unfolding rs c by simp
  let ?l = "adv ''not '' (skip_blanks lx)"
  have hit: "linx_lexer_not_blank pm (skip_blanks lx) = (True, ?l)"
    unfolding linx_lexer_not_blank_def
    by (rule regex_if [of pm RGX_NOTBLANK _ "scan_notblank (rest (skip_blanks lx))" _ "show_cond 3 t @ r"])
      (simp_all only: grammar_rx(2) [OF assms(1)] sn [unfolded rs] rs list.simps not_False_eq_True)
  have l: "rest ?l = show_cond 3 t @ r" using rs by (simp del: rest_skip_blanks)
  have "0 < k" using a(3) n unfolding ra by simp
  then have "not_loop k pm True ?l = pret True ?l"
    using assms(4) by (intro not_loop_miss [OF assms(1)]) (simp_all only: l)
  then have nl: "not_loop (Suc k) pm False (skip_blanks lx) = pret True ?l"
    using hit by simp
  have fs: "linx_lexer_find_str ''not('' ?l = (False, ?l)"
    using assms(5) [of r] l by (simp add: find_str_if del: adv_simps is_prefix.simps)
  have "8 * length (rest ?l) + 2 \<le> Suc k" using a(3) n unfolding l ra by simp
  then obtain lx' where "parse_check (Suc k) pm us ?l = pret t lx'" "rest lx' = r"
    using check_okD [OF assms(2) a(1) l] by blast
  then show "\<exists>lx'. parse_not n pm us lx = pret (AST_UN_OP UNARY_OP_NOT t) lx' \<and> rest lx' = r"
    using nl fs n by (simp add: pret_def wrap_not_def ast_node_create_unary_def)
qed

lemma and_of_not:
  assumes "not_ok pm us t" "wf_cond t" "show_cond 1 t = show_cond 2 t"
  shows "and_ok pm us t"
  unfolding and_ok_def
proof (intro allI impI)
  fix n lx r
  assume a: "stop r" "rest lx = show_cond 1 t @ r" "8 * length (rest lx) + 4 \<le> n"
  then obtain k where n: "n = Suc k" by (cases n) auto
  have rs: "rest (skip_blanks lx) = show_cond 2 t @ r"
    using a(2) assms(3) dropWhile_cond [OF assms(2)] by simp
  have "8 * length (rest (skip_blanks lx)) + 3 \<le> k" using a n assms(3) unfolding rs by simp
  then obtain l2 where l2: "parse_not k pm us (skip_blanks lx) = pret t l2" "rest l2 = r"
    using not_okD [OF assms(1) a(1) rs] by blast
  have "length (dropWhile is_blank r) \<le> length r" by (rule length_dropWhile_le)
  then have "8 * length (rest (skip_blanks l2)) + 3 \<le> k" using l2(2) a(2,3) n by simp
  moreover have "parse_and n pm us lx = and_loop k pm us t None (skip_blanks l2)"
    using l2 n by (simp add: pret_def)
  ultimately show "\<exists>m right lx'. parse_and n pm us lx = and_loop m pm us t right lx' \<and>
      rest lx' = dropWhile is_blank r \<and> 8 * length (rest lx') + 3 \<le> m"
    using l2(2) by (intro exI [of _ k] exI [of _ None] exI [of _ "skip_blanks l2"]) simp
qed

lemma blank_one_space:
  assumes "rest lx = CHR '' '' # s" "s \<noteq> []" "\<not> is_blank (hd s)"
  shows "\<exists>l. linx_lexer_blank lx = (True, l) \<and> rest l = s"
  using assms skip_one_space [OF assms] by (simp add: linx_lexer_blank_def)

lemma and_and_ok:
  assumes "and_ok pm us l" "not_ok pm us r" "wf_cond r"
  shows "and_ok pm us (AST_BIN_BOOL_OP BINARY_BOOL_OP_AND l r)"
  unfolding and_ok_def
proof (intro allI impI)
  fix n lx q
  let ?t = "AST_BIN_BOOL_OP BINARY_BOOL_OP_AND l r"
  assume a: "stop q" "rest lx = show_cond 1 ?t @ q" "8 * length (rest lx) + 4 \<le> n"
  have ra: "rest lx = show_cond 1 l @ '' and '' @ show_cond 2 r @ q" using a(2) by (simp add: parens_def)
  have st: "stop ('' and '' @ show_cond 2 r @ q)" by (simp add: stop_def)
  obtain m right l1 where m: "parse_and n pm us lx = and_loop m pm us l right l1"
    "rest l1 = ''and '' @ show_cond 2 r @ q" "8 * length (rest l1) + 3 \<le> m"
    using and_okD [OF assms(1) st ra a(3)] by (auto simp: is_blank_def)
  obtain k where k: "m = Suc k" using m(3) by (cases m) auto
  let ?l2 = "adv ''and'' l1"
  have f: "linx_lexer_find_str (g_binary_bool_ops ! nat BINARY_BOOL_OP_AND) l1 = (True, ?l2)"
    using m(2) by (simp add: find_str_if g_binary_bool_ops_def)
  have l2: "rest ?l2 = CHR '' '' # show_cond 2 r @ q" using m(2) by simp
  have fr: "show_cond 2 r @ q \<noteq> []" "\<not> is_blank (hd (show_cond 2 r @ q))"
    using show_cond_first [OF assms(3)] by auto
  obtain lb where b: "linx_lexer_blank ?l2 = (True, lb)" "rest lb = show_cond 2 r @ q"
    using blank_one_space [OF l2 fr] by blast
  have "8 * length (rest lb) + 3 \<le> k" using m(3) k unfolding b(2) m(2) by simp
  then obtain l3 where l3: "parse_not k pm us lb = pret r l3" "rest l3 = q"
    using not_okD [OF assms(2) a(1) b(2)] by blast
  have "length (dropWhile is_blank q) \<le> length q" by (rule length_dropWhile_le)
  then have "8 * length (rest (skip_blanks l3)) + 3 \<le> k" using l3(2) m(2,3) k by simp
  moreover have "and_loop m pm us l right l1 = and_loop k pm us ?t (Some r) (skip_blanks l3)"
    using f b(1) l3(1) k by (simp add: pret_def ast_node_create_binary_bool_def)
  ultimately show "\<exists>m right lx'. parse_and n pm us lx = and_loop m pm us ?t right lx' \<and>
      rest lx' = dropWhile is_blank q \<and> 8 * length (rest lx') + 3 \<le> m"
    using m(1) l3(2) by (intro exI [of _ k] exI [of _ "Some r"] exI [of _ "skip_blanks l3"]) simp
qed

lemma or_of_and:
  assumes "and_ok pm us t" "wf_cond t" "show_cond 0 t = show_cond 1 t"
  shows "or_ok pm us t"
  unfolding or_ok_def
proof (intro allI impI)
  fix n lx r
  assume a: "stop r" "not_and r" "rest lx = show_cond 0 t @ r" "8 * length (rest lx) + 5 \<le> n"
  then obtain k where n: "n = Suc k" by (cases n) auto
  have rs: "rest (skip_blanks lx) = show_cond 1 t @ r"
    using a(3) assms(3) dropWhile_cond [OF assms(2)] by simp
  have "8 * length (rest (skip_blanks lx)) + 4 \<le> k" using a n assms(3) unfolding rs by simp
  then obtain l2 where l2: "parse_and k pm us (skip_blanks lx) = pret t l2" "rest l2 = dropWhile is_blank r"
    using and_ok_finish [OF assms(1) a(1,2) rs] by blast
  have "length (dropWhile is_blank r) \<le> length r" by (rule length_dropWhile_le)
  then have "8 * length (rest (skip_blanks l2)) + 4 \<le> k" using l2(2) a(3,4) n by simp
  moreover have "parse_or n pm us lx = or_loop k pm us t None (skip_blanks l2)"
    using l2 n by (simp add: pret_def)
  ultimately show "\<exists>m right lx'. parse_or n pm us lx = or_loop m pm us t right lx' \<and>
      rest lx' = dropWhile is_blank r \<and> 8 * length (rest lx') + 4 \<le> m"
    using l2(2) by (intro exI [of _ k] exI [of _ None] exI [of _ "skip_blanks l2"]) simp
qed

lemma or_or_ok:
  assumes "or_ok pm us l" "and_ok pm us r" "wf_cond r"
  shows "or_ok pm us (AST_BIN_BOOL_OP BINARY_BOOL_OP_OR l r)"
  unfolding or_ok_def
proof (intro allI impI)
  fix n lx q
  let ?t = "AST_BIN_BOOL_OP BINARY_BOOL_OP_OR l r"
  assume a: "stop q" "not_and q" "rest lx = show_cond 0 ?t @ q" "8 * length (rest lx) + 5 \<le> n"
  have ra: "rest lx = show_cond 0 l @ '' or '' @ show_cond 1 r @ q" using a(3) by (simp add: parens_def)
  have st: "stop ('' or '' @ show_cond 1 r @ q)" "not_and ('' or '' @ show_cond 1 r @ q)"
    by (simp_all add: stop_def not_and_def is_blank_def)
  obtain m right l1 where m: "parse_or n pm us lx = or_loop m pm us l right l1"
    "rest l1 = ''or '' @ show_cond 1 r @ q" "8 * length (rest l1) + 4 \<le> m"
    using or_okD [OF assms(1) st ra a(4)] by (auto simp: is_blank_def)
  obtain k where k: "m = Suc k" using m(3) by (cases m) auto
  let ?l2 = "adv ''or'' l1"
  have f: "linx_lexer_find_str (g_binary_bool_ops ! nat BINARY_BOOL_OP_OR) l1 = (True, ?l2)"
    using m(2) by (simp add: find_str_if g_binary_bool_ops_def)
  have l2: "rest ?l2 = CHR '' '' # show_cond 1 r @ q" using m(2) by simp
  have fr: "show_cond 1 r @ q \<noteq> []" "\<not> is_blank (hd (show_cond 1 r @ q))"
    using show_cond_first [OF assms(3)] by auto
  obtain lb where b: "linx_lexer_blank ?l2 = (True, lb)" "rest lb = show_cond 1 r @ q"
    using blank_one_space [OF l2 fr] by blast
  have "8 * length (rest lb) + 4 \<le> k" using m(3) k unfolding b(2) m(2) by simp
  then obtain l3 where l3: "parse_and k pm us lb = pret r l3" "rest l3 = dropWhile is_blank q"
    using and_ok_finish [OF assms(2) a(1,2) b(2)] by blast
  have "length (dropWhile is_blank q) \<le> length q" by (rule length_dropWhile_le)
  then have "8 * length (rest (skip_blanks l3)) + 4 \<le> k" using l3(2) m(2,3) k by simp
  moreover have "or_loop m pm us l right l1 = or_loop k pm us ?t (Some r) (skip_blanks l3)"
    using f b(1) l3(1) k by (simp add: pret_def ast_node_create_binary_bool_def)
  ultimately show "\<exists>m right lx'. parse_or n pm us lx = or_loop m pm us ?t right lx' \<and>
      rest lx' = dropWhile is_blank q \<and> 8 * length (rest lx') + 4 \<le> m"
    using m(1) l3(2) by (intro exI [of _ k] exI [of _ "Some r"] exI [of _ "skip_blanks l3"]) simp
qed

section \<open>The round trip\<close>

definition starts_check :: "string \<Rightarrow> bool" where
  "starts_check u \<longleftrightarrow> u \<noteq> [] \<and> \<not> is_space (hd u) \<and>
     (\<forall>s. scan_notblank (u @ s) = None \<and> \<not> is_prefix ''not('' (u @ s))"

lemma starts_check_paren: "starts_check (''('' @ u)"
  by (simp add: starts_check_def scan_notblank_def is_space_def)

lemma show_left_not_space: "wf_left t \<Longrightarrow> \<not> is_space (hd (show_left t @ s))"
proof (erule show_left_cases)
  fix f assume "t = AST_FIELD_NAME f" "valid_field f"
  then show ?thesis using valid_field_chars(2,3) [of f] by (auto simp: is_alpha_def is_space_def)
next
  fix op x assume t: "t = AST_FIELD_TRANSFORMER op x" "0 \<le> op" "op < 5"
  have "\<not> is_space (hd (g_field_transformer_types ! nat op)) \<and> g_field_transformer_types ! nat op \<noteq> []"
    using transformer_mem [OF t(2,3)] by (auto simp: g_field_transformer_types_def is_space_def)
  then show ?thesis using t(1) by simp
qed

lemma starts_check_atom: "wf_atom t \<Longrightarrow> starts_check (show_atom t)"
  using show_left_start [OF wf_atom_left] show_left_not_space [OF wf_atom_left] show_atom_first [of t]
  by (simp add: starts_check_def show_atom_def)

lemma check_atom_ok:
  assumes "pcre2_grammar pm" "wf_atom t" "show_cond 3 t = show_atom t"
  shows "check_ok pm us t"
  unfolding check_ok_def
proof (intro allI impI)
  fix n lx r
  assume a: "stop r" "rest lx = show_cond 3 t @ r" "8 * length (rest lx) + 2 \<le> n"
  then obtain k where "n = Suc k" "length (rest lx) < k" by (cases n) auto
  then show "\<exists>lx'. parse_check n pm us lx = pret t lx' \<and> rest lx' = r"
    using check_atom_roundtrip [OF assms(1,2) a(1)] a(2) assms(3) by auto
qed

lemma levels_from_check:
  assumes "pcre2_grammar pm" "check_ok pm us t" "wf_cond t" "starts_check (show_cond 3 t)"
    and "show_cond 2 t = show_cond 3 t"
  shows "not_ok pm us t"
  using assms by (intro not_of_check) (auto simp: starts_check_def)

lemma grammar_atom_ok:
  assumes "pcre2_grammar pm" "wf_atom t" "wf_cond t" "\<And>lvl. show_cond lvl t = show_atom t"
  shows "check_ok pm us t \<and> not_ok pm us t \<and> and_ok pm us t \<and> or_ok pm us t"
proof -
  have c: "check_ok pm us t" by (rule check_atom_ok [OF assms(1,2,4)])
  have n: "not_ok pm us t"
    by (rule levels_from_check [OF assms(1) c assms(3)]) (simp_all add: assms(4) starts_check_atom [OF assms(2)])
  have a: "and_ok pm us t" by (rule and_of_not [OF n assms(3)]) (simp only: assms(4))
  have "or_ok pm us t" by (rule or_of_and [OF a assms(3)]) (simp only: assms(4))
  with c n a show ?thesis by simp
qed

lemma show_cond_starts: "wf_cond t \<Longrightarrow> starts_check (show_cond 3 t)"
  by (cases t rule: wf_cond.cases)
    (auto simp: parens_def starts_check_atom starts_check_paren [simplified] split: if_splits)

lemma grammar_ok:
  assumes "pcre2_grammar pm"
  shows "wf_cond t \<Longrightarrow> check_ok pm us t \<and> not_ok pm us t \<and> and_ok pm us t \<and> or_ok pm us t"
proof (induction t rule: wf_cond.induct)
  case (1 op l r)
  let ?t = "AST_BIN_BOOL_OP op l r"
  have IH: "or_ok pm us l" "and_ok pm us l" "not_ok pm us r" "and_ok pm us r" "wf_cond r"
    using 1 by auto
  show ?case
  proof (cases "op = BINARY_BOOL_OP_OR")
    case True
    have o: "or_ok pm us ?t" unfolding True by (rule or_or_ok [OF IH(1,4,5)])
    have c: "check_ok pm us ?t" by (rule check_paren_ok [OF o "1.prems"]) (simp add: True parens_def)
    have n: "not_ok pm us ?t"
      by (rule levels_from_check [OF assms c "1.prems" show_cond_starts [OF "1.prems"]])
        (simp add: True parens_def)
    have "and_ok pm us ?t" by (rule and_of_not [OF n "1.prems"]) (simp add: True parens_def)
    with o c n show ?thesis by simp
  next
    case False
    then have op: "op = BINARY_BOOL_OP_AND" using "1.prems" by simp
    have a: "and_ok pm us ?t" unfolding op by (rule and_and_ok [OF IH(2,3,5)])
    have o: "or_ok pm us ?t" by (rule or_of_and [OF a "1.prems"]) (simp add: op parens_def)
    have c: "check_ok pm us ?t" by (rule check_paren_ok [OF o "1.prems"]) (simp add: op parens_def)
    have "not_ok pm us ?t"
      by (rule levels_from_check [OF assms c "1.prems" show_cond_starts [OF "1.prems"]])
        (simp add: op parens_def)
    with o c a show ?thesis by simp
  qed
next
  case (2 op x)
  let ?t = "AST_UN_OP op x"
  show ?case
  proof (cases "op = UNARY_OP_NOT")
    case True
    then have x: "wf_cond x" "check_ok pm us x" using 2 by auto
    have st: "starts_check (show_cond 3 x)" by (rule show_cond_starts [OF x(1)])
    have n: "not_ok pm us ?t"
      unfolding True using st by (intro not_not_ok [OF assms x(2,1)]) (auto simp: starts_check_def)
    have a: "and_ok pm us ?t" by (rule and_of_not [OF n "2.prems"]) (simp add: True parens_def)
    have o: "or_ok pm us ?t" by (rule or_of_and [OF a "2.prems"]) (simp add: True parens_def)
    have "check_ok pm us ?t" by (rule check_paren_ok [OF o "2.prems"]) (simp add: True parens_def)
    with o n a show ?thesis by simp
  next
    case False
    then show ?thesis using 2 by (intro grammar_atom_ok [OF assms]) auto
  qed
qed (use grammar_atom_ok [OF assms] in simp_all)

lemma condition_parses:
  assumes "pcre2_grammar pm" "wf_cond t" "stop r" "not_and r" "not_or r"
  shows "condition_to_ast pm us (Some (show_cond 0 t @ r)) = Some (Inr (0, t))"
proof -
  let ?s = "show_cond 0 t @ r"
  let ?lx = "linx_lexer_create ?s"
  have r: "rest ?lx = ?s" by (simp add: rest_def linx_lexer_create_def)
  have f: "8 * length (rest ?lx) + 5 \<le> condition_fuel ?s" by (simp add: r condition_fuel_def)
  from or_okD [OF _ assms(3,4) r f] grammar_ok [OF assms(1,2)]
  obtain m right lx' where m: "parse_or (condition_fuel ?s) pm us ?lx = or_loop m pm us t right lx'"
    "rest lx' = dropWhile is_blank r" "8 * length (rest lx') + 4 \<le> m" by blast
  have "or_loop m pm us t right lx' = pret t lx'"
    using m(2,3) assms(5) by (intro loops_end(2)) (simp_all add: not_or_def)
  moreover have "t \<noteq> AST_NULL" using assms(2) by auto
  ultimately show ?thesis using m(1) by (simp add: condition_to_ast_def pret_def)
qed

text \<open>
  C7: parsing inverts printing. For every well-formed condition tree (operands with any nesting of
  transformers, integer comparisons with \<^verbatim>\<open>>\<close> and \<^verbatim>\<open><\<close>, all twelve string operators, all three list
  operators, \<^verbatim>\<open>exists\<close>, and any nesting of \<^verbatim>\<open>not\<close>, \<^verbatim>\<open>and\<close>, \<^verbatim>\<open>or\<close>) the printed text is accepted and yields
  exactly that tree: \<^verbatim>\<open>or\<close> binds weakest, \<^verbatim>\<open>not\<close> strongest, and both binary connectives associate to
  the left. PCRE2 enters by its answers on the lexer's seven patterns.
\<close>

theorem condition_print_parse_roundtrip:
  assumes "pcre2_grammar pm" "wf_cond t"
  shows "condition_to_ast pm us (Some (show_cond 0 t)) = Some (Inr (0, t))"
  using condition_parses [OF assms stop_space(3), of us] by (simp add: not_and_def not_or_def)

text \<open>
  The grammar has no end-of-text check. Any text may follow a condition, as long as it does not
  extend the last word and does not continue with \<^verbatim>\<open>and\<close> or \<^verbatim>\<open>or\<close>: the condition is accepted with return
  code 0 and the rest of the text is dropped without a message.
\<close>

theorem condition_trailing_text_ignored:
  assumes "pcre2_grammar pm" "wf_cond t" "stop r" "not_and r" "not_or r"
  shows "condition_to_ast pm us (Some (show_cond 0 t @ r)) =
    condition_to_ast pm us (Some (show_cond 0 t))"
  using condition_parses [OF assms, of us] condition_parses [OF assms(1,2) stop_space(3), of us]
  by (simp add: not_and_def not_or_def)

definition demo_condition :: ast_node where
  "demo_condition =
    AST_BIN_BOOL_OP BINARY_BOOL_OP_AND
      (AST_BIN_NUM_OP BINARY_NUM_OP_GT (AST_FIELD_NAME ''evt.num'') (AST_INT 5))
      (AST_BIN_BOOL_OP BINARY_BOOL_OP_OR
        (AST_UN_OP UNARY_OP_NOT
          (AST_BIN_STR_OP BINARY_STR_OP_CONTAINS (AST_FIELD_NAME ''proc.name'') (AST_STRING ''sh'')))
        (AST_BIN_LIST_OP BINARY_LIST_OP_IN
          (AST_FIELD_TRANSFORMER 0 (AST_FIELD_NAME ''evt.arg.path'')) (AST_LIST [AST_STRING ''a'', AST_STRING ''b''])))"

lemma demo_condition_wf: "wf_cond demo_condition"
  by code_simp

theorem condition_print_parse_roundtrip_witness:
  "condition_to_ast rx (\<lambda>n. n) (Some (''evt.num > 5 and (not proc.name contains '' @ quote ''sh'' @
      '' or tolower(evt.arg.path) in ('' @ quote ''a'' @ '', '' @ quote ''b'' @ ''))'')) =
    Some (Inr (0, demo_condition))"
proof -
  have "show_cond 0 demo_condition = ''evt.num > 5 and (not proc.name contains '' @ quote ''sh'' @
      '' or tolower(evt.arg.path) in ('' @ quote ''a'' @ '', '' @ quote ''b'' @ ''))''"
    by code_simp
  with condition_print_parse_roundtrip [OF rx_grammar demo_condition_wf, of "\<lambda>n. n"] show ?thesis by simp
qed

definition demo_typo :: ast_node where
  "demo_typo = AST_BIN_NUM_OP BINARY_NUM_OP_GT (AST_FIELD_NAME ''evt.num'') (AST_INT 5)"

theorem condition_trailing_text_ignored_witness:
  "condition_to_ast rx (\<lambda>n. n) (Some ''evt.num > 5 amd proc.name = sh'') =
   condition_to_ast rx (\<lambda>n. n) (Some ''evt.num > 5'')"
proof -
  have "wf_cond demo_typo" "stop '' amd proc.name = sh''" "not_and '' amd proc.name = sh''"
    "not_or '' amd proc.name = sh''" "show_cond 0 demo_typo = ''evt.num > 5''" by code_simp+
  with condition_trailing_text_ignored [OF rx_grammar, of demo_typo "'' amd proc.name = sh''" "\<lambda>n. n"]
  show ?thesis by simp
qed

end
