(* ===== verification/Yaml_Tree.thy ===== *)
theory Yaml_Tree
  imports Linx_Prelude
begin

text \<open>
  Configuration trees (\<^verbatim>\<open>linx_yaml_node.c\<close>) and the path getters over them (\<^verbatim>\<open>linx_yaml_get.c\<close>). A finished
  tree is a value of \<open>linx_yaml_node\<close>; a NULL node, key or value is \<open>None\<close>. Paths are dot-separated keys
  and sequence indices, cut by \<^verbatim>\<open>strtok_r\<close>.
\<close>

section \<open>Nodes\<close>

datatype linx_yaml_node_type =
    LINX_YAML_NODE_TYPE_SCALAR
  | LINX_YAML_NODE_TYPE_MAPPING
  | LINX_YAML_NODE_TYPE_SEQUENCE

datatype linx_yaml_node =
  YamlNode (ykey: "string option") (yvalue: "string option") (ytype: linx_yaml_node_type)
    (ychildren: "linx_yaml_node list") (yitem: bool)

text \<open>The blocks \<^verbatim>\<open>linx_yaml_node_free\<close> gives back: key, value, child array and the node itself.\<close>

fun linx_yaml_node_free :: "linx_yaml_node \<Rightarrow> nat" where
  "linx_yaml_node_free (YamlNode k v ty ch it) =
     of_bool (k \<noteq> None) + of_bool (v \<noteq> None) + sum_list (map linx_yaml_node_free ch) + of_bool (ch \<noteq> []) + 1"

fun find_key :: "string \<Rightarrow> linx_yaml_node list \<Rightarrow> linx_yaml_node option" where
  "find_key key [] = None"
| "find_key key (c # cs) = (if ykey c = Some key then Some c else find_key key cs)"

definition linx_yaml_node_find_by_key ::
  "linx_yaml_node option \<Rightarrow> string \<Rightarrow> linx_yaml_node option" where
  "linx_yaml_node_find_by_key node key =
    (case node of
       None \<Rightarrow> None
     | Some n \<Rightarrow> if ytype n \<noteq> LINX_YAML_NODE_TYPE_MAPPING then None else find_key key (ychildren n))"

definition linx_yaml_node_sequence_by_index ::
  "linx_yaml_node option \<Rightarrow> int \<Rightarrow> linx_yaml_node option" where
  "linx_yaml_node_sequence_by_index node index =
    (case node of
       None \<Rightarrow> None
     | Some n \<Rightarrow>
         if ytype n \<noteq> LINX_YAML_NODE_TYPE_SEQUENCE then None
         else if index < 0 \<or> index \<ge> int (length (ychildren n)) then None
         else Some (ychildren n ! nat index))"

section \<open>Paths\<close>

text \<open>One round of the loop: the node reached from \<open>current\<close> by one token. In a sequence a token that is
  not a number searches the sequence node itself for the key, which always fails, and the result is
  overwritten with NULL in any case.\<close>

definition path_step :: "string \<Rightarrow> linx_yaml_node \<Rightarrow> linx_yaml_node option" where
  "path_step token current =
    (case ytype current of
       LINX_YAML_NODE_TYPE_MAPPING \<Rightarrow> linx_yaml_node_find_by_key (Some current) token
     | LINX_YAML_NODE_TYPE_SEQUENCE \<Rightarrow>
         (let (index, rest) = strtol token
          in if rest = [] then linx_yaml_node_sequence_by_index (Some current) (to_int index) else None)
     | LINX_YAML_NODE_TYPE_SCALAR \<Rightarrow> None)"

function path_loop :: "string \<Rightarrow> linx_yaml_node option \<Rightarrow> linx_yaml_node option" where
  "path_loop s current =
    (case strtok ''.'' s of
       None \<Rightarrow> current
     | Some (token, rest) \<Rightarrow>
         (case current of None \<Rightarrow> None | Some n \<Rightarrow> path_loop rest (path_step token n)))"
  by pat_completeness auto

termination
  by (relation "measure (\<lambda>(s, current). length s)") (auto dest: strtok_token(3))

declare path_loop.simps [simp del]

definition linx_yaml_get_node_by_path ::
  "linx_yaml_node option \<Rightarrow> string option \<Rightarrow> linx_yaml_node option" where
  "linx_yaml_get_node_by_path root path =
    (case (root, path) of (Some r, Some p) \<Rightarrow> path_loop p root | _ \<Rightarrow> None)"

definition is_scalar :: "linx_yaml_node \<Rightarrow> bool" where
  "is_scalar n \<longleftrightarrow> ytype n = LINX_YAML_NODE_TYPE_SCALAR"

definition linx_yaml_get_string ::
  "linx_yaml_node option \<Rightarrow> string option \<Rightarrow> string option \<Rightarrow> string option" where
  "linx_yaml_get_string root path dflt =
    (case linx_yaml_get_node_by_path root path of
       Some n \<Rightarrow> if is_scalar n then yvalue n else dflt
     | None \<Rightarrow> dflt)"

definition linx_yaml_get_int ::
  "linx_yaml_node option \<Rightarrow> string option \<Rightarrow> int \<Rightarrow> int res" where
  "linx_yaml_get_int root path dflt =
    (case linx_yaml_get_node_by_path root path of
       Some n \<Rightarrow>
         if is_scalar n then
           (case yvalue n of
              None \<Rightarrow> Inl NullDeref
            | Some v \<Rightarrow> (let (value, rest) = strtol v in Inr (if rest = [] then to_int value else dflt)))
         else Inr dflt
     | None \<Rightarrow> Inr dflt)"

definition linx_yaml_get_bool ::
  "linx_yaml_node option \<Rightarrow> string option \<Rightarrow> int \<Rightarrow> int res" where
  "linx_yaml_get_bool root path dflt =
    (case linx_yaml_get_node_by_path root path of
       Some n \<Rightarrow>
         if is_scalar n then
           (case yvalue n of
              None \<Rightarrow> Inl NullDeref
            | Some v \<Rightarrow>
                if v = ''true'' \<or> v = ''yes'' then Inr 1
                else if v = ''false'' \<or> v = ''no'' then Inr 0
                else (let (value, rest) = strtol v in Inr (if rest = [] then of_bool (value \<noteq> 0) else dflt)))
         else Inr dflt
     | None \<Rightarrow> Inr dflt)"

definition linx_yaml_get_sequence_length :: "linx_yaml_node option \<Rightarrow> string option \<Rightarrow> int" where
  "linx_yaml_get_sequence_length root path =
    (case linx_yaml_get_node_by_path root path of
       Some n \<Rightarrow> if ytype n = LINX_YAML_NODE_TYPE_SEQUENCE then int (length (ychildren n)) else 0
     | None \<Rightarrow> 0)"

section \<open>What a path means\<close>

text \<open>The reference: a path is a list of steps, each a key of a mapping or a position of a sequence.\<close>

datatype path_elem = Key string | Pos nat

fun elem_text :: "path_elem \<Rightarrow> string" where
  "elem_text (Key k) = k"
| "elem_text (Pos i) = show_nat i"

fun join_path :: "path_elem list \<Rightarrow> string" where
  "join_path [] = ''''"
| "join_path [e] = elem_text e"
| "join_path (e # es) = elem_text e @ ''.'' @ join_path es"

fun child_at :: "path_elem \<Rightarrow> linx_yaml_node \<Rightarrow> linx_yaml_node option" where
  "child_at (Key k) n =
     (if ytype n = LINX_YAML_NODE_TYPE_MAPPING then find (\<lambda>c. ykey c = Some k) (ychildren n) else None)"
| "child_at (Pos i) n =
     (case ytype n of
        LINX_YAML_NODE_TYPE_SEQUENCE \<Rightarrow> if i < length (ychildren n) then Some (ychildren n ! i) else None
      | LINX_YAML_NODE_TYPE_MAPPING \<Rightarrow> find (\<lambda>c. ykey c = Some (show_nat i)) (ychildren n)
      | LINX_YAML_NODE_TYPE_SCALAR \<Rightarrow> None)"

fun lookup_path :: "path_elem list \<Rightarrow> linx_yaml_node \<Rightarrow> linx_yaml_node option" where
  "lookup_path [] n = Some n"
| "lookup_path (e # es) n = (case child_at e n of None \<Rightarrow> None | Some c \<Rightarrow> lookup_path es c)"

text \<open>Keys that survive the cut at dots and are not taken for numbers; positions of type \<^verbatim>\<open>int\<close>.\<close>

fun clean_elem :: "path_elem \<Rightarrow> bool" where
  "clean_elem (Key k) = (k \<noteq> [] \<and> CHR ''.'' \<notin> set k \<and> snd (strtol k) \<noteq> [])"
| "clean_elem (Pos i) = (i < 2 ^ 31)"

lemma find_key_find: "find_key k cs = find (\<lambda>c. ykey c = Some k) cs"
  by (induction cs) auto


lemma elem_text_clean:
  assumes "clean_elem e"
  shows "elem_text e \<noteq> []" "set (elem_text e) \<inter> set ''.'' = {}"
proof -
  have "CHR ''.'' \<notin> set (show_nat i)" for i
    using show_nat_digits [of i] by (auto simp: list_all_iff is_digit_def)
  with assms show "elem_text e \<noteq> []" "set (elem_text e) \<inter> set ''.'' = {}"
    using show_nat_digits by (cases e; auto)+
qed

lemma strtol_show_nat: "i < 2 ^ 31 \<Longrightarrow> strtol (show_nat i) = (int i, [])"
  using strtol_show_int [of "int i"] by (simp add: show_int_def LONG_MIN_def LONG_MAX_def)

lemma to_int_small: "i < 2 ^ 31 \<Longrightarrow> to_int (int i) = int i"
  by (simp add: to_int_def signed_of_nat signed_take_bit_int_eq_self)

lemma path_step_child:
  assumes "clean_elem e"
  shows "path_step (elem_text e) n = child_at e n"
proof (cases e)
  case (Key k)
  then show ?thesis using assms
    by (auto simp: path_step_def linx_yaml_node_find_by_key_def find_key_find
        split: linx_yaml_node_type.splits prod.splits)
next
  case (Pos i)
  with assms have "strtol (show_nat i) = (int i, [])" "to_int (int i) = int i"
    by (simp_all add: strtol_show_nat to_int_small)
  with Pos show ?thesis
    by (auto simp: path_step_def linx_yaml_node_find_by_key_def find_key_find
        linx_yaml_node_sequence_by_index_def split: linx_yaml_node_type.splits)
qed

lemma path_loop_None: "path_loop s None = None"
  by (subst path_loop.simps) (simp split: option.split)

lemma path_loop_join:
  assumes "list_all clean_elem es"
  shows "path_loop (join_path es) (Some n) = lookup_path es n"
  using assms
proof (induction es arbitrary: n rule: join_path.induct)
  case 1
  then show ?case by (subst path_loop.simps) (simp add: strtok_def)
next
  case (2 e)
  then have tok: "strtok ''.'' (elem_text e) = Some (elem_text e, [])"
    using strtok_clean(2) [of "elem_text e" "''.''" "CHR ''.''"] elem_text_clean by simp
  have "path_loop [] m = m" for m by (subst path_loop.simps) (simp add: strtok_def)
  with 2 tok show ?case
    by (subst path_loop.simps) (simp add: path_step_child split: option.split)
next
  case (3 e e' es)
  have tok: "strtok ''.'' (elem_text e @ CHR ''.'' # join_path (e' # es)) =
      Some (elem_text e, join_path (e' # es))"
    using strtok_clean(1) [of "elem_text e" "''.''" "CHR ''.''"] elem_text_clean 3 by simp
  show ?case
  proof (cases "child_at e n")
    case None
    with 3 tok show ?thesis
      by (subst path_loop.simps) (simp add: path_step_child path_loop_None)
  next
    case (Some c)
    with 3 tok show ?thesis
      by (subst path_loop.simps) (simp add: path_step_child)
  qed
qed


definition demo_rules_tree :: linx_yaml_node where
  "demo_rules_tree =
    YamlNode None None LINX_YAML_NODE_TYPE_SEQUENCE
      [YamlNode None None LINX_YAML_NODE_TYPE_MAPPING
        [YamlNode (Some ''rule'') (Some ''r1'') LINX_YAML_NODE_TYPE_SCALAR [] False,
         YamlNode (Some ''condition'') (Some ''evt.num > 5'') LINX_YAML_NODE_TYPE_SCALAR [] False,
         YamlNode (Some ''output'') (Some ''num=%evt.num end'') LINX_YAML_NODE_TYPE_SCALAR [] False] False] False"


text \<open>The blocks of a tree as its constructor allocates them.\<close>

fun yaml_blocks :: "linx_yaml_node \<Rightarrow> nat" where
  "yaml_blocks (YamlNode k v ty ch it) =
     1 + of_bool (k \<noteq> None) + of_bool (v \<noteq> None) + of_bool (ch \<noteq> []) + sum_list (map yaml_blocks ch)"

lemma yaml_free_all: "linx_yaml_node_free n = yaml_blocks n"
proof (induction n)
  case (YamlNode k v ty ch it)
  then have "map linx_yaml_node_free ch = map yaml_blocks ch" by simp
  then show ?case by (simp only: linx_yaml_node_free.simps yaml_blocks.simps)
qed

end
