(* ===== verification/Yaml_Load.thy ===== *)
theory Yaml_Load
  imports Yaml_Tree
begin

text \<open>
  Building a configuration tree from parser events: the node stack (\<^verbatim>\<open>linx_yaml_stack.c\<close>), the node
  constructors (\<^verbatim>\<open>linx_yaml_node.c\<close>) and the loop of \<^verbatim>\<open>linx_yaml_load\<close> (\<^verbatim>\<open>linx_yaml_load.c\<close>). While it is
  built the tree is a store of cells that refer to their children by address, since the loop
  keeps pointers into it on the stack. libyaml is the list of answers of \<^verbatim>\<open>yaml_parser_parse\<close>;
  a call after the last one fails. \<open>ok\<close> says for each round which of its allocations succeed.
\<close>

section \<open>Store, stack and events\<close>

record yaml_cell =
  c_key :: "string option"
  c_value :: "string option"
  c_type :: linx_yaml_node_type
  c_children :: "nat list"
  c_capacity :: nat
  c_item :: bool

record linx_yaml_stack =
  st_nodes :: "nat list"
  st_capacity :: nat
  current_key :: "string option"
  in_sequence :: "bool option"

datatype yaml_event =
    YAML_STREAM_START_EVENT
  | YAML_STREAM_END_EVENT
  | YAML_DOCUMENT_START_EVENT
  | YAML_DOCUMENT_END_EVENT
  | YAML_MAPPING_START_EVENT
  | YAML_SEQUENCE_START_EVENT
  | YAML_SCALAR_EVENT string
  | YAML_MAPPING_END_EVENT
  | YAML_SEQUENCE_END_EVENT
  | YAML_ALIAS_EVENT

record yaml_alloc =
  ok_node :: bool
  ok_child :: bool
  ok_push :: bool

text \<open>The stack is kept with its top first; \<^verbatim>\<open>in_sequence\<close> is not set by \<^verbatim>\<open>linx_yaml_stack_create\<close>.\<close>

definition linx_yaml_stack_create :: linx_yaml_stack where
  "linx_yaml_stack_create = \<lparr>st_nodes = [], st_capacity = 16, current_key = None, in_sequence = None\<rparr>"

definition linx_yaml_stack_push :: "bool \<Rightarrow> nat \<Rightarrow> linx_yaml_stack \<Rightarrow> int \<times> linx_yaml_stack" where
  "linx_yaml_stack_push ok node st =
    (if length (st_nodes st) \<ge> st_capacity st then
       if \<not> ok then (- 1, st)
       else (0, st\<lparr>st_capacity := st_capacity st * 2, st_nodes := node # st_nodes st\<rparr>)
     else (0, st\<lparr>st_nodes := node # st_nodes st\<rparr>))"

definition linx_yaml_stack_pop :: "linx_yaml_stack \<Rightarrow> nat option \<times> linx_yaml_stack" where
  "linx_yaml_stack_pop st =
    (case st_nodes st of [] \<Rightarrow> (None, st) | a # as \<Rightarrow> (Some a, st\<lparr>st_nodes := as\<rparr>))"

definition linx_yaml_stack_top :: "linx_yaml_stack \<Rightarrow> nat option" where
  "linx_yaml_stack_top st = (case st_nodes st of [] \<Rightarrow> None | a # as \<Rightarrow> Some a)"

definition linx_yaml_node_create :: "linx_yaml_node_type \<Rightarrow> string option \<Rightarrow> yaml_cell" where
  "linx_yaml_node_create ty key =
    \<lparr>c_key = key, c_value = None, c_type = ty, c_children = [], c_capacity = 0, c_item = False\<rparr>"

definition grow_children :: "yaml_cell \<Rightarrow> yaml_cell" where
  "grow_children c = c\<lparr>c_capacity := (if c_capacity c \<noteq> 0 then c_capacity c * 2 else 4)\<rparr>"

definition linx_yaml_node_add_child ::
  "bool \<Rightarrow> nat option \<Rightarrow> nat option \<Rightarrow> yaml_cell list \<Rightarrow> int \<times> yaml_cell list" where
  "linx_yaml_node_add_child ok parent child cs =
    (case (parent, child) of
       (Some p, Some c) \<Rightarrow>
         (let full = length (c_children (cs ! p)) \<ge> c_capacity (cs ! p)
          in if full \<and> \<not> ok then (- 1, cs)
             else (0, cs[p := (let pc = (if full then grow_children (cs ! p) else cs ! p)
                               in pc\<lparr>c_children := c_children pc @ [c]\<rparr>)]))
     | _ \<Rightarrow> (- 1, cs))"

section \<open>The loading loop\<close>

record yaml_state =
  cells :: "yaml_cell list"
  y_root :: "nat option"
  stack :: linx_yaml_stack
  y_error :: bool
  y_done :: bool

definition yaml_start :: yaml_state where
  "yaml_start = \<lparr>cells = [], y_root = None, stack = linx_yaml_stack_create, y_error = False, y_done = False\<rparr>"

definition fail :: "yaml_state \<Rightarrow> yaml_state" where
  "fail s = s\<lparr>y_error := True\<rparr>"

text \<open>Attach the newest cell to the node on top of the stack, if there is one.\<close>

definition attach :: "yaml_alloc \<Rightarrow> nat \<Rightarrow> yaml_state \<Rightarrow> yaml_state" where
  "attach ok a s =
    (if st_nodes (stack s) \<noteq> [] then
       (let (r, cs) = linx_yaml_node_add_child (ok_child ok) (linx_yaml_stack_top (stack s)) (Some a) (cells s)
        in s\<lparr>cells := cs, y_error := r \<noteq> 0\<rparr>)
     else s)"

text \<open>The common part of the two start events.\<close>

definition open_node :: "yaml_alloc \<Rightarrow> linx_yaml_node_type \<Rightarrow> bool \<Rightarrow> yaml_state \<Rightarrow> yaml_state" where
  "open_node ok ty seq s =
    (if \<not> ok_node ok then fail s
     else
       (let a = length (cells s);
            s = s\<lparr>cells := cells s @ [linx_yaml_node_create ty (current_key (stack s))],
                  stack := (stack s)\<lparr>current_key := None\<rparr>\<rparr>;
            s = (if st_nodes (stack s) \<noteq> [] then attach ok a s
                 else if y_root s = None then s\<lparr>y_root := Some a\<rparr> else s);
            (r, st) = linx_yaml_stack_push (ok_push ok) a ((stack s)\<lparr>in_sequence := Some seq\<rparr>)
        in s\<lparr>stack := st, y_error := y_error s \<or> r \<noteq> 0\<rparr>))"

definition scalar_cell :: "string option \<Rightarrow> string \<Rightarrow> bool \<Rightarrow> yaml_cell" where
  "scalar_cell key value item =
    (linx_yaml_node_create LINX_YAML_NODE_TYPE_SCALAR key)\<lparr>c_value := Some value, c_item := item\<rparr>"

definition on_scalar :: "yaml_alloc \<Rightarrow> string \<Rightarrow> yaml_state \<Rightarrow> yaml_state res" where
  "on_scalar ok value s =
    (case in_sequence (stack s) of
       None \<Rightarrow> Inl UninitRead
     | Some q \<Rightarrow>
         if q then
           Inr (if \<not> ok_node ok then fail s
                else attach ok (length (cells s)) (s\<lparr>cells := cells s @ [scalar_cell None value True]\<rparr>))
         else
           (case current_key (stack s) of
              Some k \<Rightarrow>
                Inr (if \<not> ok_node ok then fail s
                     else
                       (let s = attach ok (length (cells s))
                                  (s\<lparr>cells := cells s @ [scalar_cell (Some k) value False]\<rparr>)
                        in s\<lparr>stack := (stack s)\<lparr>current_key := None\<rparr>\<rparr>))
            | None \<Rightarrow> Inr (s\<lparr>stack := (stack s)\<lparr>current_key := Some value\<rparr>\<rparr>)))"

definition close_node :: "yaml_state \<Rightarrow> yaml_state" where
  "close_node s =
    (let (n, st) = linx_yaml_stack_pop (stack s)
     in s\<lparr>stack := st, y_error := y_error s \<or> n = None\<rparr>)"

fun on_event :: "yaml_alloc \<Rightarrow> yaml_event \<Rightarrow> yaml_state \<Rightarrow> yaml_state res" where
  "on_event ok YAML_STREAM_START_EVENT s = Inr s"
| "on_event ok YAML_STREAM_END_EVENT s = Inr (s\<lparr>y_done := True\<rparr>)"
| "on_event ok YAML_DOCUMENT_START_EVENT s = Inr s"
| "on_event ok YAML_DOCUMENT_END_EVENT s = Inr s"
| "on_event ok YAML_MAPPING_START_EVENT s = Inr (open_node ok LINX_YAML_NODE_TYPE_MAPPING False s)"
| "on_event ok YAML_SEQUENCE_START_EVENT s = Inr (open_node ok LINX_YAML_NODE_TYPE_SEQUENCE True s)"
| "on_event ok (YAML_SCALAR_EVENT value) s = on_scalar ok value s"
| "on_event ok YAML_MAPPING_END_EVENT s = Inr (close_node s)"
| "on_event ok YAML_SEQUENCE_END_EVENT s =
     Inr (let s = close_node s in s\<lparr>stack := (stack s)\<lparr>in_sequence := Some False\<rparr>\<rparr>)"
| "on_event ok YAML_ALIAS_EVENT s = Inr s"

text \<open>The \<^verbatim>\<open>while\<close> loop: one answer of the parser per round.\<close>

fun load_loop :: "(nat \<Rightarrow> yaml_alloc) \<Rightarrow> nat \<Rightarrow> yaml_event list \<Rightarrow> yaml_state \<Rightarrow> yaml_state res" where
  "load_loop ok i [] s = (if y_done s \<or> y_error s then Inr s else Inr (fail s))"
| "load_loop ok i (e # es) s =
     (if y_done s \<or> y_error s then Inr s
      else res_bind (on_event (ok i) e s) (load_loop ok (Suc i) es))"

text \<open>\<open>opened\<close>: the stack could be created, the file exists and can be opened, the parser initialised.
  The result is the store with the address of the root, or \<open>None\<close> for NULL.\<close>

definition linx_yaml_load ::
  "(nat \<Rightarrow> yaml_alloc) \<Rightarrow> bool \<Rightarrow> yaml_event list \<Rightarrow> (yaml_cell list \<times> nat) option res" where
  "linx_yaml_load ok opened answers =
    (if \<not> opened then Inr None
     else res_bind (load_loop ok 0 answers yaml_start) (\<lambda>s.
       Inr (if y_error s then None else map_option (\<lambda>r. (cells s, r)) (y_root s))))"

text \<open>The finished tree below an address.\<close>

fun tree_of :: "nat \<Rightarrow> yaml_cell list \<Rightarrow> nat \<Rightarrow> linx_yaml_node" where
  "tree_of 0 cs a = YamlNode None None LINX_YAML_NODE_TYPE_SCALAR [] False"
| "tree_of (Suc n) cs a =
     YamlNode (c_key (cs ! a)) (c_value (cs ! a)) (c_type (cs ! a))
       (map (tree_of n cs) (c_children (cs ! a))) (c_item (cs ! a))"


section \<open>Documents\<close>

datatype doc = Scalar string | Mapping "(string \<times> doc) list" | Sequence "doc list"

text \<open>The events libyaml reports for a document, and the tree a document stands for. Only scalars of a
  sequence carry the item flag.\<close>

primrec doc_events :: "doc \<Rightarrow> yaml_event list" where
  "doc_events (Scalar v) = [YAML_SCALAR_EVENT v]"
| "doc_events (Mapping ps) =
     YAML_MAPPING_START_EVENT #
       concat (map (\<lambda>(k, es). YAML_SCALAR_EVENT k # es) (map (map_prod id doc_events) ps)) @
     [YAML_MAPPING_END_EVENT]"
| "doc_events (Sequence ds) =
     YAML_SEQUENCE_START_EVENT # concat (map doc_events ds) @ [YAML_SEQUENCE_END_EVENT]"

primrec node_of :: "doc \<Rightarrow> string option \<Rightarrow> bool \<Rightarrow> linx_yaml_node" where
  "node_of (Scalar v) = (\<lambda>k it. YamlNode k (Some v) LINX_YAML_NODE_TYPE_SCALAR [] it)"
| "node_of (Mapping ps) = (\<lambda>k it. YamlNode k None LINX_YAML_NODE_TYPE_MAPPING
     (map (\<lambda>(k, f). f (Some k) False) (map (map_prod id node_of) ps)) False)"
| "node_of (Sequence ds) = (\<lambda>k it. YamlNode k None LINX_YAML_NODE_TYPE_SEQUENCE
     (map (\<lambda>f. f None True) (map node_of ds)) False)"

fun is_scal :: "doc \<Rightarrow> bool" where
  "is_scal (Scalar v) = True"
| "is_scal _ = False"

text \<open>In every sequence, the scalars come before the mappings and sequences.\<close>

definition scalars_first :: "doc list \<Rightarrow> bool" where
  "scalars_first ds \<longleftrightarrow> list_all (\<lambda>d. \<not> is_scal d) (dropWhile is_scal ds)"

primrec loadable :: "doc \<Rightarrow> bool" where
  "loadable (Scalar v) = True"
| "loadable (Mapping ps) = list_all id (map snd (map (map_prod id loadable) ps))"
| "loadable (Sequence ds) = (scalars_first ds \<and> list_all id (map loadable ds))"

definition all_ok :: "nat \<Rightarrow> yaml_alloc" where
  "all_ok i = \<lparr>ok_node = True, ok_child = True, ok_push = True\<rparr>"

abbreviation load_on :: "yaml_event list \<Rightarrow> yaml_state \<Rightarrow> yaml_state res" where
  "load_on es s \<equiv> load_loop all_ok 0 es s"

section \<open>Trees in the store\<close>

inductive tree_at :: "nat \<Rightarrow> yaml_cell list \<Rightarrow> nat \<Rightarrow> linx_yaml_node \<Rightarrow> bool" where
  node: "lo \<le> a \<Longrightarrow> a < length cs \<Longrightarrow> list_all2 (tree_at (Suc a) cs) (c_children (cs ! a)) ch \<Longrightarrow>
    tree_at lo cs a (YamlNode (c_key (cs ! a)) (c_value (cs ! a)) (c_type (cs ! a)) ch (c_item (cs ! a)))"
monos list_all2_mono

lemma tree_at_frame:
  assumes "tree_at lo cs a t" "\<And>i. lo \<le> i \<Longrightarrow> i < length cs \<Longrightarrow> cs' ! i = cs ! i" "length cs \<le> length cs'"
  shows "tree_at lo cs' a t"
  using assms
proof (induction rule: tree_at.induct)
  case (node lo a cs ch)
  have "list_all2 (tree_at (Suc a) cs') (c_children (cs ! a)) ch"
    using node.IH by (rule list.rel_mono_strong) (use node in auto)
  moreover have "cs' ! a = cs ! a" using node by simp
  ultimately show ?case using tree_at.node [of lo a cs' ch] node by simp
qed

lemma tree_at_lower: "tree_at lo cs a t \<Longrightarrow> lo' \<le> lo \<Longrightarrow> tree_at lo' cs a t"
  by (erule tree_at.cases) (auto intro: tree_at.node)

lemma tree_of_tree_at:
  assumes "tree_at lo cs a t" "length cs \<le> a + n"
  shows "tree_of n cs a = t"
  using assms
proof (induction arbitrary: n rule: tree_at.induct)
  case (node lo a cs ch)
  then obtain m where m: "n = Suc m" by (cases n) auto
  have "map (tree_of m cs) (c_children (cs ! a)) = ch"
    using node.IH
  proof (induction rule: list_all2_induct)
    case (Cons b bs t ts)
    then have "Suc a \<le> b" by (auto elim: tree_at.cases)
    with Cons node.prems m show ?case by simp
  qed simp
  then show ?case using m by simp
qed

section \<open>What one document adds\<close>

text \<open>\<open>adds p s s' ts\<close>: \<open>s'\<close> is \<open>s\<close> after the trees \<open>ts\<close> were appended below the node \<open>p\<close> on top of the stack.\<close>

definition ready :: "nat \<Rightarrow> yaml_state \<Rightarrow> bool" where
  "ready p s \<longleftrightarrow> (\<exists>ps. st_nodes (stack s) = p # ps) \<and> p < length (cells s) \<and> \<not> y_error s \<and> \<not> y_done s"

definition adds :: "nat \<Rightarrow> yaml_state \<Rightarrow> yaml_state \<Rightarrow> linx_yaml_node list \<Rightarrow> bool" where
  "adds p s s' ts \<longleftrightarrow>
    ready p s' \<and> st_nodes (stack s') = st_nodes (stack s) \<and> y_root s' = y_root s \<and>
    current_key (stack s') = None \<and> length (cells s) \<le> length (cells s') \<and>
    (\<forall>i < length (cells s). i \<noteq> p \<longrightarrow> cells s' ! i = cells s ! i) \<and>
    (\<exists>as cap. cells s' ! p = (cells s ! p)\<lparr>c_children := c_children (cells s ! p) @ as, c_capacity := cap\<rparr> \<and>
      list_all2 (tree_at (length (cells s)) (cells s')) as ts)"

lemma adds_refl: "ready p s \<Longrightarrow> current_key (stack s) = None \<Longrightarrow> adds p s s []"
  unfolding adds_def by (simp, intro exI [of _ "c_capacity (cells s ! p)"]) simp

lemma adds_trans:
  assumes "adds p s s1 ts1" "adds p s1 s2 ts2" "p < length (cells s)"
  shows "adds p s s2 (ts1 @ ts2)"
proof -
  obtain as1 cap1 where 1: "cells s1 ! p = (cells s ! p)\<lparr>c_children := c_children (cells s ! p) @ as1, c_capacity := cap1\<rparr>"
    "list_all2 (tree_at (length (cells s)) (cells s1)) as1 ts1"
    using assms(1) by (auto simp: adds_def)
  obtain as2 cap2 where 2: "cells s2 ! p = (cells s1 ! p)\<lparr>c_children := c_children (cells s1 ! p) @ as2, c_capacity := cap2\<rparr>"
    "list_all2 (tree_at (length (cells s1)) (cells s2)) as2 ts2"
    using assms(2) by (auto simp: adds_def)
  have len: "length (cells s) \<le> length (cells s1)" "length (cells s1) \<le> length (cells s2)"
    using assms by (auto simp: adds_def)
  have "list_all2 (tree_at (length (cells s)) (cells s2)) as1 ts1"
    using 1(2)
  proof (rule list.rel_mono_strong)
    fix a t assume "tree_at (length (cells s)) (cells s1) a t"
    then show "tree_at (length (cells s)) (cells s2) a t"
      by (rule tree_at_frame) (use assms len in \<open>auto simp: adds_def\<close>)
  qed
  moreover have "list_all2 (tree_at (length (cells s)) (cells s2)) as2 ts2"
    using 2(2) by (rule list.rel_mono_strong) (use len in \<open>auto intro: tree_at_lower\<close>)
  ultimately have "list_all2 (tree_at (length (cells s)) (cells s2)) (as1 @ as2) (ts1 @ ts2)"
    by (rule list_all2_appendI)
  with 1(1) 2(1) assms len show ?thesis
    unfolding adds_def by (intro conjI exI [of _ "as1 @ as2"] exI [of _ cap2]) auto
qed

lemma load_loop_index: "load_loop all_ok i es s = load_loop all_ok j es s"
proof (induction es arbitrary: i j s)
  case (Cons e es)
  have "load_loop all_ok (Suc i) es = load_loop all_ok (Suc j) es" using Cons by (intro ext)
  moreover have "all_ok i = all_ok j" by (simp add: all_ok_def)
  ultimately show ?case by simp
qed simp

lemma load_on_Cons:
  assumes "\<not> y_done s" "\<not> y_error s" "on_event (all_ok 0) e s = Inr s'"
  shows "load_on (e # es) s = load_on es s'"
  using assms load_loop_index [of "Suc 0" es s' 0] by simp

text \<open>\<open>consumes es s s'\<close>: the loop takes the events \<open>es\<close> in state \<open>s\<close> and is then in state \<open>s'\<close>.\<close>

definition consumes :: "yaml_event list \<Rightarrow> yaml_state \<Rightarrow> yaml_state \<Rightarrow> bool" where
  "consumes es s s' \<longleftrightarrow> (\<forall>rs. load_on (es @ rs) s = load_on rs s')"

lemma consumes_Nil: "consumes [] s s"
  by (simp add: consumes_def)

lemma consumes_append: "consumes es s s1 \<Longrightarrow> consumes es' s1 s2 \<Longrightarrow> consumes (es @ es') s s2"
  by (simp add: consumes_def)

lemma consumes_event:
  "\<not> y_done s \<Longrightarrow> \<not> y_error s \<Longrightarrow> on_event (all_ok 0) e s = Inr s' \<Longrightarrow> consumes [e] s s'"
  using load_on_Cons by (simp add: consumes_def)


section \<open>Single events\<close>

definition with_child :: "nat \<Rightarrow> nat \<Rightarrow> nat \<Rightarrow> yaml_cell \<Rightarrow> yaml_cell list \<Rightarrow> yaml_cell list" where
  "with_child p a cap c cs =
    cs[p := (cs ! p)\<lparr>c_children := c_children (cs ! p) @ [a], c_capacity := cap\<rparr>] @ [c]"

lemma cell_update_order [simp]:
  "c\<lparr>c_capacity := n, c_children := as\<rparr> = c\<lparr>c_children := as, c_capacity := n\<rparr>"
  by (cases c) simp

lemma attach_cell:
  assumes "ready p s"
  shows "\<exists>cap. attach (all_ok 0) (length (cells s)) (s\<lparr>cells := cells s @ [c]\<rparr>) =
    s\<lparr>cells := with_child p (length (cells s)) cap c (cells s)\<rparr>"
proof -
  obtain ps where p: "st_nodes (stack s) = p # ps" "p < length (cells s)" "\<not> y_error s"
    using assms by (auto simp: ready_def)
  let ?full = "length (c_children (cells s ! p)) \<ge> c_capacity (cells s ! p)"
  let ?cap = "c_capacity (if ?full then grow_children (cells s ! p) else cells s ! p)"
  have "attach (all_ok 0) (length (cells s)) (s\<lparr>cells := cells s @ [c]\<rparr>) =
      s\<lparr>cells := with_child p (length (cells s)) ?cap c (cells s), y_error := False\<rparr>"
    using p by (auto simp: attach_def linx_yaml_node_add_child_def linx_yaml_stack_top_def all_ok_def
        with_child_def grow_children_def nth_append list_update_append Let_def)
  also have "\<dots> = s\<lparr>cells := with_child p (length (cells s)) ?cap c (cells s)\<rparr>"
    using p(3) by (cases s) simp
  finally show ?thesis by blast
qed

text \<open>A cell without children, hung below \<open>p\<close>.\<close>

lemma adds_leaf:
  assumes "ready p s" "c_children c = []" "st_nodes st = st_nodes (stack s)" "current_key st = None"
  shows "adds p s (s\<lparr>cells := with_child p (length (cells s)) cap c (cells s), stack := st\<rparr>)
    [YamlNode (c_key c) (c_value c) (c_type c) [] (c_item c)]"
proof -
  let ?cs = "with_child p (length (cells s)) cap c (cells s)"
  have new: "?cs ! length (cells s) = c" "length ?cs = Suc (length (cells s))"
    by (simp_all add: with_child_def nth_append)
  have "tree_at (length (cells s)) ?cs (length (cells s)) (YamlNode (c_key c) (c_value c) (c_type c) [] (c_item c))"
    using tree_at.node [of "length (cells s)" "length (cells s)" ?cs "[]"] new assms(2) by simp
  moreover have "p < length (cells s)" using assms(1) by (simp add: ready_def)
  moreover from this have "?cs ! p =
      (cells s ! p)\<lparr>c_children := c_children (cells s ! p) @ [length (cells s)], c_capacity := cap\<rparr>"
    by (simp add: with_child_def nth_append)
  moreover have "\<forall>i < length (cells s). i \<noteq> p \<longrightarrow> ?cs ! i = cells s ! i"
    by (simp add: with_child_def nth_append)
  ultimately show ?thesis
    using assms new unfolding adds_def
    by (intro conjI exI [of _ "[length (cells s)]"] exI [of _ cap]) (auto simp: ready_def)
qed

lemma consumes_scalar:
  assumes "ready p s" "in_sequence (stack s) = Some q" "current_key (stack s) = k" "q = (k = None)"
  shows "\<exists>s'. consumes [YAML_SCALAR_EVENT v] s s' \<and> adds p s s' [node_of (Scalar v) k q] \<and>
    in_sequence (stack s') = Some q"
proof -
  let ?c = "scalar_cell k v q"
  obtain cap where at: "attach (all_ok 0) (length (cells s)) (s\<lparr>cells := cells s @ [?c]\<rparr>) =
      s\<lparr>cells := with_child p (length (cells s)) cap ?c (cells s)\<rparr>"
    using attach_cell [OF assms(1)] by blast
  let ?s = "s\<lparr>cells := with_child p (length (cells s)) cap ?c (cells s), stack := (stack s)\<lparr>current_key := None\<rparr>\<rparr>"
  have "on_event (all_ok 0) (YAML_SCALAR_EVENT v) s = Inr ?s"
    using at assms(2-4) by (cases s; cases "stack s"; cases k) (auto simp: on_scalar_def all_ok_def Let_def)
  then have "consumes [YAML_SCALAR_EVENT v] s ?s"
    using assms(1) by (intro consumes_event) (auto simp: ready_def)
  moreover have "adds p s ?s [node_of (Scalar v) k q]"
    using adds_leaf [OF assms(1), of ?c "(stack s)\<lparr>current_key := None\<rparr>" cap]
    by (simp add: scalar_cell_def linx_yaml_node_create_def)
  ultimately show ?thesis using assms(2) by (intro exI [of _ ?s]) simp
qed

lemma consumes_key:
  assumes "ready p s" "in_sequence (stack s) = Some False" "current_key (stack s) = None"
  shows "consumes [YAML_SCALAR_EVENT k] s (s\<lparr>stack := (stack s)\<lparr>current_key := Some k\<rparr>\<rparr>)"
  using assms by (intro consumes_event) (auto simp: ready_def on_scalar_def)

text \<open>Opening a collection below \<open>p\<close> makes the new cell the top of the stack.\<close>

lemma push_ok [simp]:
  "fst (linx_yaml_stack_push True a st) = 0"
  "st_nodes (snd (linx_yaml_stack_push True a st)) = a # st_nodes st"
  "current_key (snd (linx_yaml_stack_push True a st)) = current_key st"
  "in_sequence (snd (linx_yaml_stack_push True a st)) = in_sequence st"
  by (simp_all add: linx_yaml_stack_push_def)

lemma open_node_below:
  assumes "ready p s" "current_key (stack s) = k"
  shows "\<exists>cap s1. open_node (all_ok 0) ty seq s = s1 \<and>
    cells s1 = with_child p (length (cells s)) cap (linx_yaml_node_create ty k) (cells s) \<and>
    st_nodes (stack s1) = length (cells s) # st_nodes (stack s) \<and> current_key (stack s1) = None \<and>
    in_sequence (stack s1) = Some seq \<and> \<not> y_error s1 \<and> \<not> y_done s1 \<and> y_root s1 = y_root s"
proof -
  let ?s = "s\<lparr>stack := (stack s)\<lparr>current_key := None\<rparr>\<rparr>"
  have r: "ready p ?s" using assms(1) by (simp add: ready_def)
  obtain cap where at: "attach (all_ok 0) (length (cells ?s)) (?s\<lparr>cells := cells ?s @ [linx_yaml_node_create ty k]\<rparr>) =
      ?s\<lparr>cells := with_child p (length (cells ?s)) cap (linx_yaml_node_create ty k) (cells ?s)\<rparr>"
    using attach_cell [OF r] by blast
  have comm: "s\<lparr>cells := cs, stack := st\<rparr> = s\<lparr>stack := st, cells := cs\<rparr>" for cs st by (cases s) simp
  have ne: "st_nodes (stack s) \<noteq> []" using assms(1) by (auto simp: ready_def)
  have "open_node (all_ok 0) ty seq s =
      ?s\<lparr>cells := with_child p (length (cells s)) cap (linx_yaml_node_create ty k) (cells s),
         stack := snd (linx_yaml_stack_push True (length (cells s)) ((stack ?s)\<lparr>in_sequence := Some seq\<rparr>)),
         y_error := False\<rparr>"
    using at ne assms by (simp add: open_node_def all_ok_def comm Let_def ready_def split_beta)
  then show ?thesis
    using assms by (intro exI [of _ cap]) (simp add: ready_def)
qed


text \<open>Filling an open collection and closing it appends its tree below \<open>p\<close>.\<close>

lemma adds_collection:
  assumes "ready p s" "c_children c = []" "c_item c = False" "c_value c = None"
    and "cells s1 = with_child p (length (cells s)) cap c (cells s)"
    and "st_nodes (stack s1) = length (cells s) # st_nodes (stack s)" "y_root s1 = y_root s"
    and "adds (length (cells s)) s1 s2 ts"
    and "cells s3 = cells s2" "y_root s3 = y_root s2" "st_nodes (stack s3) = st_nodes (stack s)"
    and "current_key (stack s3) = None" "\<not> y_error s3" "\<not> y_done s3"
  shows "adds p s s3 [YamlNode (c_key c) None (c_type c) ts False]"
proof -
  let ?a = "length (cells s)"
  have p: "p < ?a" using assms(1) by (simp add: ready_def)
  have len1: "length (cells s1) = Suc ?a" by (simp add: assms(5) with_child_def)
  obtain as cap2 where a: "cells s2 ! ?a = (cells s1 ! ?a)\<lparr>c_children := c_children (cells s1 ! ?a) @ as, c_capacity := cap2\<rparr>"
    "list_all2 (tree_at (Suc ?a) (cells s2)) as ts"
    using assms(8) len1 by (auto simp: adds_def)
  have new: "cells s1 ! ?a = c" by (simp add: assms(5) with_child_def nth_append)
  have len2: "Suc ?a \<le> length (cells s2)" using assms(8) len1 by (simp add: adds_def)
  have old: "cells s2 ! i = cells s1 ! i" if "i < ?a" for i
    using assms(8) that len1 by (simp add: adds_def)
  have "tree_at ?a (cells s2) ?a (YamlNode (c_key c) None (c_type c) ts False)"
    using tree_at.node [of ?a ?a "cells s2" ts] a new len2 assms(2-4) by simp
  moreover have "cells s2 ! p = (cells s ! p)\<lparr>c_children := c_children (cells s ! p) @ [?a], c_capacity := cap\<rparr>"
    using old [OF p] p by (simp add: assms(5) with_child_def nth_append)
  moreover have "\<forall>i < ?a. i \<noteq> p \<longrightarrow> cells s2 ! i = cells s ! i"
    using old by (simp add: assms(5) with_child_def nth_append)
  ultimately show ?thesis
    using assms p len2 unfolding adds_def
    by (intro conjI exI [of _ "[?a]"] exI [of _ cap]) (auto simp: ready_def adds_def)
qed

lemma consumes_collection:
  assumes "ready p s" "current_key (stack s) = k"
    and "\<And>s1. ready (length (cells s)) s1 \<Longrightarrow> in_sequence (stack s1) = Some seq \<Longrightarrow>
      current_key (stack s1) = None \<Longrightarrow>
      \<exists>s2. consumes body s1 s2 \<and> adds (length (cells s)) s1 s2 ts \<and> (\<not> seq \<longrightarrow> in_sequence (stack s2) = Some False)"
    and "(start, ty, stop) = (if seq then (YAML_SEQUENCE_START_EVENT, LINX_YAML_NODE_TYPE_SEQUENCE, YAML_SEQUENCE_END_EVENT)
      else (YAML_MAPPING_START_EVENT, LINX_YAML_NODE_TYPE_MAPPING, YAML_MAPPING_END_EVENT))"
  shows "\<exists>s'. consumes (start # body @ [stop]) s s' \<and> adds p s s' [YamlNode k None ty ts False] \<and>
    in_sequence (stack s') = Some False"
proof -
  let ?a = "length (cells s)" and ?c = "linx_yaml_node_create ty k"
  obtain cap s1 where s1: "open_node (all_ok 0) ty seq s = s1"
    "cells s1 = with_child p ?a cap ?c (cells s)" "st_nodes (stack s1) = ?a # st_nodes (stack s)"
    "current_key (stack s1) = None" "in_sequence (stack s1) = Some seq" "\<not> y_error s1" "\<not> y_done s1"
    "y_root s1 = y_root s"
    using open_node_below [OF assms(1,2)] by blast
  have "on_event (all_ok 0) start s = Inr s1"
    using assms(4) s1(1) by (auto split: if_splits)
  then have c1: "consumes [start] s s1" using assms(1) by (intro consumes_event) (auto simp: ready_def)
  have "ready ?a s1" using s1 by (simp add: ready_def with_child_def)
  with assms(3) [OF this s1(5,4)] obtain s2 where s2: "consumes body s1 s2" "adds ?a s1 s2 ts"
    "\<not> seq \<longrightarrow> in_sequence (stack s2) = Some False" by blast
  have top: "st_nodes (stack s2) = ?a # st_nodes (stack s)" "\<not> y_error s2" "\<not> y_done s2" "current_key (stack s2) = None"
    using s2(2) s1(3) by (auto simp: adds_def ready_def)
  let ?s3 = "s2\<lparr>stack := (stack s2)\<lparr>st_nodes := st_nodes (stack s), in_sequence := Some False\<rparr>, y_error := False\<rparr>"
  have "on_event (all_ok 0) stop s2 = Inr ?s3"
    using assms(4) s2(3) top
    by (cases "stack s2") (auto simp: close_node_def linx_yaml_stack_pop_def split: if_splits)
  then have c3: "consumes [stop] s2 ?s3" using top by (intro consumes_event) auto
  have "consumes (start # body @ [stop]) s ?s3"
    using consumes_append [OF c1 consumes_append [OF s2(1) c3]] by simp
  moreover have "adds p s ?s3 [YamlNode (c_key ?c) None (c_type ?c) ts False]"
    by (rule adds_collection [OF assms(1) _ _ _ s1(2,3,8) s2(2)])
      (use top in \<open>simp_all add: linx_yaml_node_create_def\<close>)
  ultimately show ?thesis by (intro exI [of _ ?s3]) (simp add: linx_yaml_node_create_def)
qed


section \<open>Whole documents\<close>

definition loads :: "doc \<Rightarrow> bool" where
  "loads d \<longleftrightarrow> (\<forall>p s k q. ready p s \<longrightarrow> in_sequence (stack s) = Some q \<longrightarrow> current_key (stack s) = k \<longrightarrow>
     (is_scal d \<longrightarrow> q = (k = None)) \<longrightarrow>
     (\<exists>s'. consumes (doc_events d) s s' \<and> adds p s s' [node_of d k q] \<and>
        in_sequence (stack s') = Some (q \<and> is_scal d)))"

lemma loadsD:
  "loads d \<Longrightarrow> ready p s \<Longrightarrow> in_sequence (stack s) = Some q \<Longrightarrow> current_key (stack s) = k \<Longrightarrow>
   (is_scal d \<Longrightarrow> q = (k = None)) \<Longrightarrow>
   \<exists>s'. consumes (doc_events d) s s' \<and> adds p s s' [node_of d k q] \<and> in_sequence (stack s') = Some (q \<and> is_scal d)"
  unfolding loads_def by blast

lemma adds_ready: "adds p s s' ts \<Longrightarrow> ready p s' \<and> current_key (stack s') = None"
  by (simp add: adds_def)

lemma entries_load:
  assumes "\<And>k d. (k, d) \<in> set ps \<Longrightarrow> loads d"
    and "ready p s" "in_sequence (stack s) = Some False" "current_key (stack s) = None"
  shows "\<exists>s'. consumes (concat (map (\<lambda>(k, d). YAML_SCALAR_EVENT k # doc_events d) ps)) s s' \<and>
    adds p s s' (map (\<lambda>(k, d). node_of d (Some k) False) ps) \<and> in_sequence (stack s') = Some False"
  using assms
proof (induction ps arbitrary: s)
  case Nil
  then show ?case using consumes_Nil adds_refl by fastforce
next
  case (Cons e ps)
  obtain k d where e: "e = (k, d)" by fastforce
  let ?sk = "s\<lparr>stack := (stack s)\<lparr>current_key := Some k\<rparr>\<rparr>"
  have r: "ready p ?sk" using Cons.prems(2) by (simp add: ready_def)
  have "loads d" using Cons.prems(1) e by auto
  from loadsD [OF this r, of False "Some k"] Cons.prems obtain s1
    where s1: "consumes (doc_events d) ?sk s1" "adds p ?sk s1 [node_of d (Some k) False]"
      "in_sequence (stack s1) = Some False" by auto
  have a1: "adds p s s1 [node_of d (Some k) False]" using s1(2) by (simp add: adds_def)
  obtain s2 where s2: "consumes (concat (map (\<lambda>(k, d). YAML_SCALAR_EVENT k # doc_events d) ps)) s1 s2"
    "adds p s1 s2 (map (\<lambda>(k, d). node_of d (Some k) False) ps)" "in_sequence (stack s2) = Some False"
    using Cons.IH [of s1] Cons.prems(1) s1(3) adds_ready [OF a1] by auto
  have c1: "consumes ([YAML_SCALAR_EVENT k] @ doc_events d) s s1"
    using consumes_key [OF Cons.prems(2-4)] s1(1) by (rule consumes_append)
  have "consumes (concat (map (\<lambda>(k, d). YAML_SCALAR_EVENT k # doc_events d) (e # ps))) s s2"
    using consumes_append [OF c1 s2(1)] e by simp
  moreover have "adds p s s2 ([node_of d (Some k) False] @ map (\<lambda>(k, d). node_of d (Some k) False) ps)"
    using a1 s2(2) Cons.prems(2) by (intro adds_trans) (auto simp: ready_def)
  ultimately show ?case using s2(3) e by auto
qed

lemma items_load:
  assumes "\<And>d. d \<in> set ds \<Longrightarrow> loads d"
    and "ready p s" "in_sequence (stack s) = Some q" "current_key (stack s) = None"
    and "if q then scalars_first ds else list_all (\<lambda>d. \<not> is_scal d) ds"
  shows "\<exists>s'. consumes (concat (map doc_events ds)) s s' \<and> adds p s s' (map (\<lambda>d. node_of d None True) ds)"
  using assms
proof (induction ds arbitrary: s q)
  case Nil
  then show ?case using consumes_Nil adds_refl by fastforce
next
  case (Cons d ds)
  have "is_scal d \<Longrightarrow> q" using Cons.prems(5) by (auto split: if_splits)
  with loadsD [of d p s q None] Cons.prems obtain s1 where s1: "consumes (doc_events d) s s1"
    "adds p s s1 [node_of d None q]" "in_sequence (stack s1) = Some (q \<and> is_scal d)" by auto
  have node: "node_of d None q = node_of d None True" using \<open>is_scal d \<Longrightarrow> q\<close> by (cases d) auto
  have "if q \<and> is_scal d then scalars_first ds else list_all (\<lambda>d. \<not> is_scal d) ds"
    using Cons.prems(5) by (auto simp: scalars_first_def split: if_splits)
  then obtain s2 where s2: "consumes (concat (map doc_events ds)) s1 s2"
    "adds p s1 s2 (map (\<lambda>d. node_of d None True) ds)"
    using Cons.IH [of s1 "q \<and> is_scal d"] Cons.prems(1) s1(3) adds_ready [OF s1(2)] by auto
  have "adds p s s2 ([node_of d None q] @ map (\<lambda>d. node_of d None True) ds)"
    using s1(2) s2(2) Cons.prems(2) by (intro adds_trans) (auto simp: ready_def)
  with consumes_append [OF s1(1) s2(1)] node show ?case by auto
qed

lemma mapping_body: "concat (map (\<lambda>(k, es). YAML_SCALAR_EVENT k # es) (map (map_prod id doc_events) ps)) =
    concat (map (\<lambda>(k, d). YAML_SCALAR_EVENT k # doc_events d) ps)"
  by (induction ps) auto

lemma mapping_children: "map (\<lambda>(k, f). f (Some k) False) (map (map_prod id node_of) ps) =
    map (\<lambda>(k, d). node_of d (Some k) False) ps"
  by (induction ps) auto

lemma loadable_loads: "loadable d \<Longrightarrow> loads d"
proof (induction d)
  case (Scalar v)
  show ?case unfolding loads_def using consumes_scalar by fastforce
next
  case (Mapping ps)
  then have IH: "\<And>k d. (k, d) \<in> set ps \<Longrightarrow> loads d" by (fastforce simp: list_all_iff)
  show ?case unfolding loads_def
  proof (intro allI impI)
    fix p s k q assume r: "ready p s" "in_sequence (stack s) = Some q" "current_key (stack s) = k"
    show "\<exists>s'. consumes (doc_events (Mapping ps)) s s' \<and> adds p s s' [node_of (Mapping ps) k q] \<and>
        in_sequence (stack s') = Some (q \<and> is_scal (Mapping ps))"
      unfolding doc_events.simps node_of.simps mapping_body mapping_children
      using consumes_collection [OF r(1,3), of False
          "concat (map (\<lambda>(k, d). YAML_SCALAR_EVENT k # doc_events d) ps)"] entries_load [OF IH] by simp
  qed
next
  case (Sequence ds)
  then have IH: "\<And>d. d \<in> set ds \<Longrightarrow> loads d" by (auto simp: list_all_iff)
  show ?case unfolding loads_def
  proof (intro allI impI)
    fix p s k q assume r: "ready p s" "in_sequence (stack s) = Some q" "current_key (stack s) = k"
    show "\<exists>s'. consumes (doc_events (Sequence ds)) s s' \<and> adds p s s' [node_of (Sequence ds) k q] \<and>
        in_sequence (stack s') = Some (q \<and> is_scal (Sequence ds))"
      using consumes_collection [OF r(1,3), of True "concat (map doc_events ds)"
          "map (\<lambda>d. node_of d None True) ds"] items_load [OF IH, where q = True] Sequence.prems
      by (simp add: comp_def)
  qed
qed


definition doc_stream :: "doc \<Rightarrow> yaml_event list" where
  "doc_stream d = [YAML_STREAM_START_EVENT, YAML_DOCUMENT_START_EVENT] @ doc_events d @
     [YAML_DOCUMENT_END_EVENT, YAML_STREAM_END_EVENT]"

text \<open>The start state after the first collection was opened.\<close>

definition opened :: "linx_yaml_node_type \<Rightarrow> bool \<Rightarrow> yaml_state" where
  "opened ty seq =
    \<lparr>cells = [linx_yaml_node_create ty None], y_root = Some 0,
     stack = \<lparr>st_nodes = [0], st_capacity = 16, current_key = None, in_sequence = Some seq\<rparr>,
     y_error = False, y_done = False\<rparr>"

lemma opened_start: "open_node (all_ok 0) ty seq yaml_start = opened ty seq"
  by (simp add: open_node_def opened_def yaml_start_def linx_yaml_stack_create_def all_ok_def
      linx_yaml_stack_push_def)

lemma opened_ready: "ready 0 (opened ty seq)"
  by (simp add: ready_def opened_def)

lemma opened_stack [simp]:
  "in_sequence (stack (opened ty seq)) = Some seq" "current_key (stack (opened ty seq)) = None"
  by (simp_all add: opened_def)

lemma load_root:
  assumes "consumes body (opened ty seq) s2" "adds 0 (opened ty seq) s2 ts"
    and "(start, ty, stop) = (if seq then (YAML_SEQUENCE_START_EVENT, LINX_YAML_NODE_TYPE_SEQUENCE, YAML_SEQUENCE_END_EVENT)
      else (YAML_MAPPING_START_EVENT, LINX_YAML_NODE_TYPE_MAPPING, YAML_MAPPING_END_EVENT))"
  shows "\<exists>cs. linx_yaml_load all_ok True ([YAML_STREAM_START_EVENT, YAML_DOCUMENT_START_EVENT] @
      (start # body @ [stop]) @ [YAML_DOCUMENT_END_EVENT, YAML_STREAM_END_EVENT]) = Inr (Some (cs, 0)) \<and>
    tree_of (length cs) cs 0 = YamlNode None None ty ts False"
proof -
  have s2: "st_nodes (stack s2) = [0]" "\<not> y_error s2" "\<not> y_done s2" "y_root s2 = Some 0" "cells s2 \<noteq> []"
    using assms(2) by (auto simp: adds_def ready_def opened_def)
  have ev: "on_event (all_ok 0) start yaml_start = Inr (opened ty seq)"
    using assms(3) opened_start by (auto split: if_splits)
  have go: "\<not> y_done yaml_start" "\<not> y_error yaml_start" by (simp_all add: yaml_start_def)
  have "load_on ([YAML_STREAM_START_EVENT, YAML_DOCUMENT_START_EVENT] @ (start # body @ [stop]) @ rs) yaml_start =
      load_on (stop # rs) s2" for rs
    using assms(1) load_on_Cons [OF go ev] load_on_Cons [OF go, of YAML_STREAM_START_EVENT]
      load_on_Cons [OF go, of YAML_DOCUMENT_START_EVENT]
    by (simp add: consumes_def del: load_loop.simps)
  moreover have "\<exists>s3. on_event (all_ok 0) stop s2 = Inr s3 \<and> cells s3 = cells s2 \<and> y_root s3 = Some 0 \<and>
      \<not> y_error s3 \<and> \<not> y_done s3"
    using assms(3) s2 by (auto simp: close_node_def linx_yaml_stack_pop_def split: if_splits)
  ultimately obtain s4 where "load_on ([YAML_STREAM_START_EVENT, YAML_DOCUMENT_START_EVENT] @ (start # body @ [stop]) @
      [YAML_DOCUMENT_END_EVENT, YAML_STREAM_END_EVENT]) yaml_start = Inr s4"
      "cells s4 = cells s2" "y_root s4 = Some 0" "\<not> y_error s4"
    using s2(2,3) by (auto simp: load_on_Cons)
  moreover have "tree_of (length (cells s2)) (cells s2) 0 = YamlNode None None ty ts False"
  proof (rule tree_of_tree_at)
    show "tree_at 0 (cells s2) 0 (YamlNode None None ty ts False)"
      using assms(2) s2(5) tree_at.node [of 0 0 "cells s2" ts]
      by (auto simp: adds_def opened_def linx_yaml_node_create_def)
  qed simp
  ultimately show ?thesis by (auto simp: linx_yaml_load_def simp del: load_loop.simps)
qed

lemma load_document:
  assumes "loadable d" "\<not> is_scal d"
  shows "\<exists>cs. linx_yaml_load all_ok True (doc_stream d) = Inr (Some (cs, 0)) \<and>
    tree_of (length cs) cs 0 = node_of d None False"
proof (cases d)
  case (Scalar v)
  then show ?thesis using assms by simp
next
  case (Mapping ps)
  then have "\<And>k d. (k, d) \<in> set ps \<Longrightarrow> loads d"
    using assms(1) loadable_loads by (fastforce simp: list_all_iff)
  then have "\<exists>s2. consumes (concat (map (\<lambda>(k, d). YAML_SCALAR_EVENT k # doc_events d) ps)) (opened LINX_YAML_NODE_TYPE_MAPPING False) s2 \<and>
      adds 0 (opened LINX_YAML_NODE_TYPE_MAPPING False) s2 (map (\<lambda>(k, d). node_of d (Some k) False) ps) \<and>
      in_sequence (stack s2) = Some False"
    by (rule entries_load [OF _ opened_ready]) simp_all
  then obtain s2
    where "consumes (concat (map (\<lambda>(k, d). YAML_SCALAR_EVENT k # doc_events d) ps)) (opened LINX_YAML_NODE_TYPE_MAPPING False) s2"
      "adds 0 (opened LINX_YAML_NODE_TYPE_MAPPING False) s2 (map (\<lambda>(k, d). node_of d (Some k) False) ps)"
    by blast
  from load_root [OF this] show ?thesis
    unfolding Mapping doc_stream_def doc_events.simps node_of.simps mapping_body mapping_children by simp
next
  case (Sequence ds)
  then have "\<And>d. d \<in> set ds \<Longrightarrow> loads d" "scalars_first ds"
    using assms(1) loadable_loads by (auto simp: list_all_iff)
  then have "\<exists>s2. consumes (concat (map doc_events ds)) (opened LINX_YAML_NODE_TYPE_SEQUENCE True) s2 \<and>
      adds 0 (opened LINX_YAML_NODE_TYPE_SEQUENCE True) s2 (map (\<lambda>d. node_of d None True) ds)"
    by (intro items_load [OF _ opened_ready, where q = True]) simp_all
  then obtain s2
    where "consumes (concat (map doc_events ds)) (opened LINX_YAML_NODE_TYPE_SEQUENCE True) s2"
      "adds 0 (opened LINX_YAML_NODE_TYPE_SEQUENCE True) s2 (map (\<lambda>d. node_of d None True) ds)"
    by blast
  from load_root [OF this] show ?thesis
    unfolding Sequence doc_stream_def by (simp add: comp_def)
qed

text \<open>
  C33: loading rebuilds the document. For every document whose root is a mapping or a sequence and in
  whose sequences the scalars come before the collections, the events of the document are turned
  into the tree of the document: every key, value, type, item flag and the order of children.
\<close>

theorem yaml_load_builds_document:
  assumes "loadable d" "\<not> is_scal d"
  shows "\<exists>cs. linx_yaml_load all_ok True (doc_stream d) = Inr (Some (cs, 0)) \<and>
    tree_of (length cs) cs 0 = node_of d None False"
  using assms by (rule load_document)

definition demo_rules_doc :: doc where
  "demo_rules_doc = Sequence [Mapping [(''rule'', Scalar ''r1''), (''condition'', Scalar ''evt.num > 5''),
     (''output'', Scalar ''num=%evt.num end'')]]"

theorem yaml_load_builds_document_witness:
  "\<exists>cs. linx_yaml_load all_ok True (doc_stream demo_rules_doc) = Inr (Some (cs, 0)) \<and>
    tree_of (length cs) cs 0 = demo_rules_tree"
proof -
  have "loadable demo_rules_doc" "\<not> is_scal demo_rules_doc" "node_of demo_rules_doc None False = demo_rules_tree"
    by code_simp+
  with yaml_load_builds_document [of demo_rules_doc] show ?thesis by simp
qed

text \<open>
  C25: \<^verbatim>\<open>in_sequence\<close> is one flag for all nesting levels and the end of a mapping does not restore it. In a
  sequence of a mapping followed by a scalar, the scalar is taken for a key and vanishes: the loader
  answers a tree with one child for a document with two items, and reports no error.
\<close>

theorem yaml_load_loses_scalar_after_mapping:
  "\<exists>cs. linx_yaml_load all_ok True (doc_stream (Sequence [Mapping [(''a'', Scalar ''1'')], Scalar ''x''])) =
      Inr (Some (cs, 0)) \<and>
    tree_of (length cs) cs 0 = node_of (Sequence [Mapping [(''a'', Scalar ''1'')]]) None False"
proof -
  have "linx_yaml_load all_ok True (doc_stream (Sequence [Mapping [(''a'', Scalar ''1'')], Scalar ''x''])) =
    Inr (Some ([\<lparr>c_key = None, c_value = None, c_type = LINX_YAML_NODE_TYPE_SEQUENCE, c_children = [1], c_capacity = 4, c_item = False\<rparr>,
      \<lparr>c_key = None, c_value = None, c_type = LINX_YAML_NODE_TYPE_MAPPING, c_children = [2], c_capacity = 4, c_item = False\<rparr>,
      \<lparr>c_key = Some ''a'', c_value = Some ''1'', c_type = LINX_YAML_NODE_TYPE_SCALAR, c_children = [], c_capacity = 0, c_item = False\<rparr>], 0))"
    by code_simp
  moreover have "tree_of 3 [\<lparr>c_key = None, c_value = None, c_type = LINX_YAML_NODE_TYPE_SEQUENCE, c_children = [1], c_capacity = 4, c_item = False\<rparr>,
      \<lparr>c_key = None, c_value = None, c_type = LINX_YAML_NODE_TYPE_MAPPING, c_children = [2], c_capacity = 4, c_item = False\<rparr>,
      \<lparr>c_key = Some ''a'', c_value = Some ''1'', c_type = LINX_YAML_NODE_TYPE_SCALAR, c_children = [], c_capacity = 0, c_item = False\<rparr>] 0 =
    node_of (Sequence [Mapping [(''a'', Scalar ''1'')]]) None False"
    by code_simp
  ultimately show ?thesis by simp
qed

end
