(* ===== verification/Rule_Load.thy ===== *)
theory Rule_Load
  imports Rule_Set Rule_Roundtrip Yaml_Load
begin

text \<open>
  Loading rules (\<^verbatim>\<open>linx_rule_engine_load.c\<close>): from a file or a directory of files, through the YAML tree, the
  condition parser and the two compilers, into the rule set. The file system, the answers of libyaml,
  PCRE2 and the outcomes of allocations are parameters. Messages to the log are left out.
\<close>

section \<open>One file\<close>

record load_alloc =
  ok_rule :: bool
  ok_rules :: bool
  ok_matches :: bool
  ok_outputs :: bool

definition PATH_BUF :: nat where "PATH_BUF = 256"

text \<open>The \<^verbatim>\<open>snprintf\<close> of a path and the \<^verbatim>\<open>strdup\<close> of what is found there.\<close>

definition rule_path :: "nat \<Rightarrow> string \<Rightarrow> string" where
  "rule_path i key = take (PATH_BUF - 1) (show_nat i @ ''.'' @ key)"

definition rule_text :: "linx_yaml_node \<Rightarrow> nat \<Rightarrow> string \<Rightarrow> string \<Rightarrow> string res" where
  "rule_text root i key dflt =
    (case linx_yaml_get_string (Some root) (Some (rule_path i key)) (Some dflt) of
       None \<Rightarrow> Inl NullDeref
     | Some t \<Rightarrow> Inr t)"

definition read_rule :: "linx_yaml_node \<Rightarrow> nat \<Rightarrow> linx_rule res" where
  "read_rule root i =
    res_bind (rule_text root i ''rule'' ''unknown'') (\<lambda>nm.
    res_bind (rule_text root i ''desc'' ''NO'') (\<lambda>desc.
    res_bind (rule_text root i ''condition'' ''NO'') (\<lambda>cond.
    res_bind (rule_text root i ''output'' ''NO'') (\<lambda>out.
    res_bind (rule_text root i ''priority'' ''ERROR'') (\<lambda>prio.
    res_bind (rule_text root i ''chdesc'' ''NO'') (\<lambda>chdesc.
    res_bind (rule_text root i ''notify.title'' ''NO'') (\<lambda>title.
    res_bind (rule_text root i ''notify.content'' ''NO'') (\<lambda>content.
      Inr (linx_rule_create\<lparr>r_name := Some nm, r_desc := Some desc, r_condition := Some cond, r_output := Some out,
        r_priority := Some prio, r_chdesc := Some chdesc, r_title := Some title, r_content := Some content\<rparr>)))))))))"

text \<open>What the loop carries from one rule to the next: the return code, the local pointer \<^verbatim>\<open>match\<close>, the rule
  set and the field map.\<close>

record load_state =
  ld_ret :: int
  ld_match :: "linx_rule_match option"
  ld_set :: "linx_rule_set option"
  ld_hash :: hash_state

text \<open>From the condition text to the entry of the set. The pointer \<^verbatim>\<open>match\<close> keeps its value when the condition
  has no tree. \<open>None\<close> stands for a parser that does not return.\<close>

definition install_rule ::
  "pcre2 \<Rightarrow> (nat \<Rightarrow> nat) \<Rightarrow> load_alloc \<Rightarrow> linx_rule \<Rightarrow> load_state \<Rightarrow> load_state res option" where
  "install_rule pm us al rule st =
    map_option (\<lambda>parsed.
      res_bind parsed (\<lambda>(ret, ast).
      res_bind (linx_compile_ast us ast (ld_match st) (ld_hash st)) (\<lambda>(ret, mtch, freed, hs).
        (let (ret, output) = linx_output_match_compile hs (r_output rule)
         in res_bind (linx_rule_set_add (ok_rules al) (ok_matches al) (ok_outputs al) (Some rule) mtch output (ld_set st))
              (\<lambda>(ret, s). Inr \<lparr>ld_ret = ret, ld_match = mtch, ld_set = s, ld_hash = hs\<rparr>)))))
      (condition_to_ast pm us (r_condition rule))"

text \<open>The \<^verbatim>\<open>for\<close> loop from index \<open>i\<close> on with \<open>n\<close> rounds left; the boolean says that \<^verbatim>\<open>linx_rule_create\<close> failed and
  the function returned early.\<close>

fun add_rule_loop ::
  "pcre2 \<Rightarrow> (nat \<Rightarrow> nat) \<Rightarrow> (nat \<Rightarrow> load_alloc) \<Rightarrow> linx_yaml_node \<Rightarrow> nat \<Rightarrow> nat \<Rightarrow> load_state \<Rightarrow>
   (bool \<times> load_state) res option" where
  "add_rule_loop pm us al root i 0 st = Some (Inr (False, st))"
| "add_rule_loop pm us al root i (Suc n) st =
     (if \<not> ok_rule (al i) then Some (Inr (True, st))
      else
        (case read_rule root i of
           Inl f \<Rightarrow> Some (Inl f)
         | Inr rule \<Rightarrow>
             (case install_rule pm us (al i) rule st of
                None \<Rightarrow> None
              | Some (Inl f) \<Rightarrow> Some (Inl f)
              | Some (Inr st1) \<Rightarrow> add_rule_loop pm us al root (Suc i) n st1)))"

text \<open>The results of the functions below: return code, rule set and field map.\<close>

type_synonym loaded = "(int \<times> linx_rule_set option \<times> hash_state) res option"

definition linx_rule_engine_add_rule_to_set ::
  "pcre2 \<Rightarrow> (nat \<Rightarrow> nat) \<Rightarrow> (nat \<Rightarrow> load_alloc) \<Rightarrow> linx_yaml_node option \<Rightarrow> linx_rule_set option \<Rightarrow> hash_state \<Rightarrow> loaded" where
  "linx_rule_engine_add_rule_to_set pm us al root s hs =
    (case root of
       None \<Rightarrow> Some (Inr (- 1, s, hs))
     | Some r \<Rightarrow>
         map_option (map_sum id (\<lambda>(early, st). (if early then - 1 else ld_ret st, ld_set st, ld_hash st)))
           (add_rule_loop pm us al r 0 (length (ychildren r))
             \<lparr>ld_ret = 0, ld_match = None, ld_set = s, ld_hash = hs\<rparr>))"

section \<open>Files and directories\<close>

datatype path_kind = NoPath | Directory | RegularFile | OtherFile

text \<open>The file system: the kind of a path, the answers of libyaml for the contents of a file that can be
  opened, and the names of a directory that can be opened, in the order of \<^verbatim>\<open>readdir\<close>.\<close>

record file_system =
  fs_kind :: "string \<Rightarrow> path_kind"
  fs_events :: "string \<Rightarrow> yaml_event list option"
  fs_names :: "string \<Rightarrow> string list option"

text \<open>Everything a load gets from outside.\<close>

record load_env =
  le_pcre2 :: pcre2
  le_usable :: "nat \<Rightarrow> nat"
  le_alloc :: "nat \<Rightarrow> load_alloc"
  le_yaml :: "nat \<Rightarrow> yaml_alloc"
  le_fs :: file_system

definition linx_rule_engine_load_file :: "load_env \<Rightarrow> string \<Rightarrow> linx_rule_set option \<Rightarrow> hash_state \<Rightarrow> loaded" where
  "linx_rule_engine_load_file le file_path s hs =
    (case linx_yaml_load (le_yaml le) (fs_events (le_fs le) file_path \<noteq> None) (the (fs_events (le_fs le) file_path)) of
       Inl f \<Rightarrow> Some (Inl f)
     | Inr None \<Rightarrow> Some (Inr (- 1, s, hs))
     | Inr (Some (cs, a)) \<Rightarrow>
         linx_rule_engine_add_rule_to_set (le_pcre2 le) (le_usable le) (le_alloc le) (Some (tree_of (length cs) cs a)) s hs)"

definition FULL_PATH :: nat where "FULL_PATH = 1024"

fun load_dir_loop ::
  "load_env \<Rightarrow> string \<Rightarrow> string list \<Rightarrow> linx_rule_set option \<Rightarrow> hash_state \<Rightarrow> loaded" where
  "load_dir_loop le dir_path [] s hs = Some (Inr (0, s, hs))"
| "load_dir_loop le dir_path (d_name # names) s hs =
     (if d_name = ''.'' \<or> d_name = ''..'' then load_dir_loop le dir_path names s hs
      else
        (case linx_rule_engine_load_file le (take (FULL_PATH - 1) (dir_path @ ''/'' @ d_name)) s hs of
           Some (Inr (ret, s, hs)) \<Rightarrow>
             if ret \<noteq> 0 then Some (Inr (ret, s, hs)) else load_dir_loop le dir_path names s hs
         | r \<Rightarrow> r))"

definition linx_rule_engine_load_dir :: "load_env \<Rightarrow> string \<Rightarrow> linx_rule_set option \<Rightarrow> hash_state \<Rightarrow> loaded" where
  "linx_rule_engine_load_dir le dir_path s hs =
    (case fs_names (le_fs le) dir_path of
       None \<Rightarrow> Some (Inr (- 1, s, hs))
     | Some names \<Rightarrow> load_dir_loop le dir_path names s hs)"

definition linx_rule_engine_load :: "bool \<Rightarrow> load_env \<Rightarrow> string \<Rightarrow> hash_state \<Rightarrow> loaded" where
  "linx_rule_engine_load ok le rules_file_path hs =
    (let (ret, s) = linx_rule_set_init ok
     in if ret \<noteq> 0 then Some (Inr (ret, s, hs))
        else
          (case fs_kind (le_fs le) rules_file_path of
             NoPath \<Rightarrow> Some (Inr (- 1, s, hs))
           | Directory \<Rightarrow> linx_rule_engine_load_dir le rules_file_path s hs
           | RegularFile \<Rightarrow> linx_rule_engine_load_file le rules_file_path s hs
           | OtherFile \<Rightarrow> Some (Inr (- 1, s, hs))))"

section \<open>Reading a rule\<close>

text \<open>Every scalar of the tree has a value, as in the trees the loader builds.\<close>

fun valued :: "linx_yaml_node \<Rightarrow> bool" where
  "valued (YamlNode k v ty ch it) =
     ((ty = LINX_YAML_NODE_TYPE_SCALAR \<longrightarrow> v \<noteq> None) \<and> list_all valued ch)"

lemma valued_node_of: "valued (node_of d k it)"
proof (induction d arbitrary: k it)
  case (Mapping ps)
  have "valued (node_of d (Some k) False)" if "(k, d) \<in> set ps" for k d
    using Mapping that by (fastforce simp: snds.simps)
  then show ?case by (auto simp: list_all_iff)
next
  case (Sequence ds)
  then show ?case by (auto simp: list_all_iff)
qed simp

lemma valued_children: "valued n \<Longrightarrow> c \<in> set (ychildren n) \<Longrightarrow> valued c"
  by (cases n) (auto simp: list_all_iff)

lemma valued_scalar: "valued n \<Longrightarrow> is_scalar n \<Longrightarrow> yvalue n \<noteq> None"
  by (cases n) (simp add: is_scalar_def)

lemma find_key_member: "find_key key cs = Some c \<Longrightarrow> c \<in> set cs"
  by (induction cs) (auto split: if_splits)

lemma path_step_child_member: "path_step tok n = Some c \<Longrightarrow> c \<in> set (ychildren n)"
  by (auto simp: path_step_def linx_yaml_node_find_by_key_def linx_yaml_node_sequence_by_index_def find_key_member
      split: linx_yaml_node_type.splits prod.splits if_splits)

lemma valued_path_loop: "(\<forall>n. cur = Some n \<longrightarrow> valued n) \<Longrightarrow> path_loop s cur = Some m \<Longrightarrow> valued m"
proof (induction s cur rule: path_loop.induct)
  case (1 s cur)
  show ?case
  proof (cases "strtok ''.'' s")
    case None
    then show ?thesis using 1(2,3) by (simp add: path_loop.simps [of s])
  next
    case (Some tr)
    obtain tok r n where t: "tr = (tok, r)" "cur = Some n" "path_loop r (path_step tok n) = Some m"
      using Some 1(3) by (cases tr) (auto simp: path_loop.simps [of s] split: option.splits)
    moreover have "\<forall>c. path_step tok n = Some c \<longrightarrow> valued c"
      using 1(2) t(2) valued_children path_step_child_member by blast
    ultimately show ?thesis using 1(1) [OF Some _ t(2), of tok r] by simp
  qed
qed

lemma rule_text_total:
  assumes "valued root"
  shows "\<exists>t. rule_text root i key dflt = Inr t"
proof -
  let ?n = "linx_yaml_get_node_by_path (Some root) (Some (rule_path i key))"
  have "valued m" if "?n = Some m" for m
  proof (rule valued_path_loop)
    show "\<forall>n. Some root = Some n \<longrightarrow> valued n" using assms by simp
    show "path_loop (rule_path i key) (Some root) = Some m" using that by (simp add: linx_yaml_get_node_by_path_def)
  qed
  then have "linx_yaml_get_string (Some root) (Some (rule_path i key)) (Some dflt) \<noteq> None"
    by (cases ?n) (auto simp: linx_yaml_get_string_def dest: valued_scalar)
  then show ?thesis by (auto simp: rule_text_def)
qed

lemma rule_path_join:
  assumes "i < 2 ^ 31" "length key \<le> 200"
  shows "rule_path i key = join_path [Pos i, Key key]"
proof -
  have "length (show_nat i) \<le> Suc 9" using assms(1) by (intro length_show_nat) simp
  with assms(2) show ?thesis by (simp add: rule_path_def PATH_BUF_def)
qed

lemma rule_text_scalar:
  assumes "i < length ds" "length ds < 2 ^ 31" "ds ! i = Mapping ps"
    and "clean_elem (Key key)" "length key \<le> 200" "map_of ps key = Some (Scalar v)"
  shows "rule_text (node_of (Sequence ds) k it) i key dflt = Inr v"
proof -
  have ch: "ychildren (node_of (Mapping ps) k' b) = map (\<lambda>(k, d). node_of d (Some k) False) ps"
    "ytype (node_of (Mapping ps) k' b) = LINX_YAML_NODE_TYPE_MAPPING" for k' b
    unfolding node_of.simps mapping_children by simp_all
  have find: "find (\<lambda>c. ykey c = Some key) (map (\<lambda>(k, d). node_of d (Some k) False) qs) = Some (node_of (Scalar v) (Some key) False)"
    if "map_of qs key = Some (Scalar v)" for qs
    using that
  proof (induction qs)
    case (Cons q qs)
    have "ykey (node_of d k' b) = k'" for d k' b by (cases d) simp_all
    with Cons show ?case by (cases q) (auto split: if_splits)
  qed simp
  have "path_loop (join_path [Pos i, Key key]) (Some (node_of (Sequence ds) k it)) =
      lookup_path [Pos i, Key key] (node_of (Sequence ds) k it)"
    using assms by (intro path_loop_join) simp_all
  also have "\<dots> = lookup_path [Key key] (node_of (Mapping ps) None True)" using assms(1,3) by simp
  also have "\<dots> = Some (node_of (Scalar v) (Some key) False)"
    by (simp only: lookup_path.simps child_at.simps ch find [OF assms(6)] option.simps simp_thms if_True)
  finally show ?thesis
    using rule_path_join [of i key] assms(1,2,5)
    by (simp add: rule_text_def linx_yaml_get_string_def linx_yaml_get_node_by_path_def is_scalar_def)
qed

section \<open>Loading well-formed rules\<close>

text \<open>What a rule of a rule file says: its name, its condition as a tree, its output template and whatever
  other keys it has.\<close>

record rule_spec =
  sp_name :: string
  sp_cond :: ast_node
  sp_output :: string
  sp_more :: "(string \<times> doc) list"

definition rule_doc :: "rule_spec \<Rightarrow> doc" where
  "rule_doc sp = Mapping ([(''rule'', Scalar (sp_name sp)), (''condition'', Scalar (show_cond 0 (sp_cond sp))),
     (''output'', Scalar (sp_output sp))] @ sp_more sp)"

definition rules_doc :: "rule_spec list \<Rightarrow> doc" where
  "rules_doc sps = Sequence (map rule_doc sps)"

definition good_spec :: "hash_state \<Rightarrow> rule_spec \<Rightarrow> bool" where
  "good_spec hs sp \<longleftrightarrow> wf_cond (sp_cond sp) \<and> supported (sp_cond sp) \<and> known_variables hs (sp_output sp) \<and>
     list_all (\<lambda>(k, d). loadable d) (sp_more sp)"

definition all_alloc :: "nat \<Rightarrow> load_alloc" where
  "all_alloc i = \<lparr>ok_rule = True, ok_rules = True, ok_matches = True, ok_outputs = True\<rparr>"

text \<open>An entry of the rule set that does what the rule says: its match answers the condition for every event
  that has values at the paths of the condition.\<close>

definition installed :: "hash_state \<Rightarrow> rule_spec \<Rightarrow> linx_rule \<times> linx_rule_match \<times> linx_output_match \<Rightarrow> bool" where
  "installed hs0 sp x \<longleftrightarrow> (case x of (r, m, om) \<Rightarrow>
     r_name r = Some (sp_name sp) \<and> linx_output_match_compile hs0 (Some (sp_output sp)) = (0, Some om) \<and>
     (\<forall>ev hs en. list_all (provides_num ev hs0 hs en) (num_paths (sp_cond sp)) \<longrightarrow>
        list_all (provides_text ev hs0 hs en) (text_paths (sp_cond sp)) \<longrightarrow>
        linx_rule_engine_match ev hs m = Inr (cond_holds en (sp_cond sp))))"

lemma clean_keys:
  "clean_elem (Key ''rule'')" "clean_elem (Key ''condition'')" "clean_elem (Key ''output'')"
  by code_simp+

lemma read_rule_spec:
  assumes "i < length sps" "length sps < 2 ^ 31"
  shows "\<exists>r. read_rule (node_of (rules_doc sps) None False) i = Inr r \<and> r_name r = Some (sp_name (sps ! i)) \<and>
    r_condition r = Some (show_cond 0 (sp_cond (sps ! i))) \<and> r_output r = Some (sp_output (sps ! i))"
proof -
  let ?root = "node_of (rules_doc sps) None False"
  have total: "\<exists>t. rule_text ?root i key dflt = Inr t" for key dflt
    by (rule rule_text_total) (rule valued_node_of)
  have val_at: "rule_text ?root i key dflt = Inr v"
    if "clean_elem (Key key)" "length key \<le> 200"
      "map_of ([(''rule'', Scalar (sp_name (sps ! i))), (''condition'', Scalar (show_cond 0 (sp_cond (sps ! i)))),
        (''output'', Scalar (sp_output (sps ! i)))] @ sp_more (sps ! i)) key = Some (Scalar v)" for key dflt v
    unfolding rules_doc_def using assms by (intro rule_text_scalar [OF _ _ _ that]) (simp_all add: rule_doc_def)
  have t: "rule_text ?root i ''rule'' dflt = Inr (sp_name (sps ! i))"
    "rule_text ?root i ''condition'' dflt = Inr (show_cond 0 (sp_cond (sps ! i)))"
    "rule_text ?root i ''output'' dflt = Inr (sp_output (sps ! i))" for dflt
    by (intro val_at clean_keys; simp)+
  obtain a b c d e where "rule_text ?root i ''desc'' ''NO'' = Inr a" "rule_text ?root i ''priority'' ''ERROR'' = Inr b"
    "rule_text ?root i ''chdesc'' ''NO'' = Inr c" "rule_text ?root i ''notify.title'' ''NO'' = Inr d"
    "rule_text ?root i ''notify.content'' ''NO'' = Inr e"
    using total by meson
  with t show ?thesis by (simp add: read_rule_def)
qed

text \<open>The block that \<^verbatim>\<open>compile_binary_list_node\<close> allocates too small still has room for a list context.\<close>

definition room_for_lists :: "(nat \<Rightarrow> nat) \<Rightarrow> bool" where
  "room_for_lists us \<longleftrightarrow> sizeof_list_context \<le> us sizeof_num_context"

lemma compile_total:
  assumes "room_for_lists us"
  shows "supported t \<Longrightarrow> \<exists>m hs1. compile_ast us t hs0 = Inr (Some m, hs1) \<and> s_linx_hash_map hs1 = s_linx_hash_map hs0"
proof (induction t arbitrary: hs0)
  case (AST_BIN_BOOL_OP op l r)
  then obtain m1 hs1 where l: "compile_ast us l hs0 = Inr (Some m1, hs1)" "s_linx_hash_map hs1 = s_linx_hash_map hs0"
    by fastforce
  from AST_BIN_BOOL_OP obtain m2 hs2 where "compile_ast us r hs1 = Inr (Some m2, hs2)" "s_linx_hash_map hs2 = s_linx_hash_map hs1"
    by fastforce
  with l show ?case by (auto simp: compile_binary_bool_node_def)
next
  case (AST_UN_OP op x)
  then obtain m hs1 where "compile_ast us x hs0 = Inr (Some m, hs1)" "s_linx_hash_map hs1 = s_linx_hash_map hs0"
    by fastforce
  with AST_UN_OP.prems show ?case by (auto simp: compile_unary_node_def)
next
  case (AST_BIN_NUM_OP op l r)
  then obtain v where "r = AST_INT v" "is_field_name l" by (cases r) auto
  with compile_leaf_field [of l r us "SlotInt v" "num_func op" hs0] show ?case
    by (auto simp: compile_binary_num_node_def)
next
  case (AST_BIN_STR_OP op l r)
  then obtain s where "r = AST_STRING s" "is_field_name l" by (cases r) auto
  with compile_leaf_field [of l r us "SlotStr s" "str_func op" hs0] show ?case
    by (auto simp: compile_binary_str_node_def)
next
  case (AST_BIN_LIST_OP op l r)
  then obtain xs where r: "r = AST_LIST xs" "list_all is_string xs" "is_field_name l" by (cases r) auto
  obtain ss where "item_strings xs = Inr ss" using item_strings_spec [OF r(2)] by blast
  with r compile_leaf_field [of l r us "SlotList ss" "list_func op" hs0] assms [unfolded room_for_lists_def] show ?case
    by (auto simp: compile_binary_list_node_def)
qed simp_all

lemma compile_loop_cong:
  assumes "s_linx_hash_map hs' = s_linx_hash_map hs"
  shows "compile_loop hs' lit s m = compile_loop hs lit s m"
proof -
  have v: "add_variable_segment hs' = add_variable_segment hs"
    using resolve_cong [OF assms] by (simp add: add_variable_segment_def resolve_def fun_eq_iff)
  show ?thesis
  proof (induction s arbitrary: lit m rule: length_induct)
    case (1 s)
    show ?case
    proof (cases s)
      case (Cons c cs)
      have "length (dropWhile var_char cs) < length s" "length cs < length s"
        using Cons length_dropWhile_le [of var_char cs] by simp_all
      with 1 have "compile_loop hs' [] (dropWhile var_char cs) = compile_loop hs [] (dropWhile var_char cs)"
        "compile_loop hs' (lit @ [c]) cs m = compile_loop hs (lit @ [c]) cs m" by (auto simp: fun_eq_iff)
      with Cons show ?thesis by (simp only: compile_loop.simps v)
    qed simp
  qed
qed

lemma output_compile_cong:
  "s_linx_hash_map hs' = s_linx_hash_map hs \<Longrightarrow> linx_output_match_compile hs' f = linx_output_match_compile hs f"
  by (simp add: linx_output_match_compile_def compile_loop_cong [of hs' hs] split: option.split)

text \<open>The invariant of the loop: the rules before index \<open>i\<close> are installed, in order.\<close>

definition load_inv :: "hash_state \<Rightarrow> rule_spec list \<Rightarrow> load_state \<Rightarrow> bool" where
  "load_inv hs0 sps st \<longleftrightarrow> ld_ret st = 0 \<and> s_linx_hash_map (ld_hash st) = s_linx_hash_map hs0 \<and>
     (\<exists>rs. ld_set st = Some rs \<and> rs_inv rs \<and> \<not> rs_rules_freed rs \<and> \<not> rs_matches_freed rs \<and>
        list_all2 (installed hs0) sps (rs_entries rs))"

lemma compiled_installed:
  assumes "room_for_lists us" "supported (sp_cond sp)"
    and "compile_ast us (sp_cond sp) hs' = Inr (Some m, hs1)" "s_linx_hash_map hs' = s_linx_hash_map hs0"
    and "r_name r = Some (sp_name sp)" "linx_output_match_compile hs0 (Some (sp_output sp)) = (0, Some om)"
  shows "installed hs0 sp (r, m, om)"
proof -
  have "linx_rule_engine_match ev hs m = Inr (cond_holds en (sp_cond sp))"
    if "list_all (provides_num ev hs0 hs en) (num_paths (sp_cond sp))"
      "list_all (provides_text ev hs0 hs en) (text_paths (sp_cond sp))" for ev hs en
  proof -
    have "compiles us ev hs en (sp_cond sp) hs'"
      using that provides_cong [OF assms(4)] by (intro compiles_supported assms(1) [unfolded room_for_lists_def] assms(2)) simp_all
    with assms(3) show ?thesis by (simp add: compiles_def)
  qed
  with assms(5,6) show ?thesis by (simp add: installed_def)
qed

lemma install_good_rule:
  assumes "pcre2_grammar pm" "room_for_lists us" "good_spec hs0 sp" "load_inv hs0 sps st"
    and "r_name r = Some (sp_name sp)" "r_condition r = Some (show_cond 0 (sp_cond sp))" "r_output r = Some (sp_output sp)"
  shows "\<exists>st'. install_rule pm us (all_alloc i) r st = Some (Inr st') \<and> load_inv hs0 (sps @ [sp]) st'"
proof -
  have good: "wf_cond (sp_cond sp)" "supported (sp_cond sp)" "known_variables hs0 (sp_output sp)"
    using assms(3) by (simp_all add: good_spec_def)
  obtain rs where rs: "ld_set st = Some rs" "rs_inv rs" "\<not> rs_rules_freed rs" "\<not> rs_matches_freed rs"
    "list_all2 (installed hs0) sps (rs_entries rs)" "s_linx_hash_map (ld_hash st) = s_linx_hash_map hs0"
    using assms(4) by (auto simp: load_inv_def)
  obtain m hs1 where m: "compile_ast us (sp_cond sp) (ld_hash st) = Inr (Some m, hs1)"
    "s_linx_hash_map hs1 = s_linx_hash_map (ld_hash st)"
    using compile_total [OF assms(2) good(2)] by blast
  obtain om where om: "linx_output_match_compile hs0 (Some (sp_output sp)) = (0, Some om)"
    using output_compile_ok [OF good(3)] by blast
  then have om1: "linx_output_match_compile hs1 (Some (sp_output sp)) = (0, Some om)"
    using output_compile_cong [of hs1 hs0] m(2) rs(6) by simp
  have p: "condition_to_ast pm us (r_condition r) = Some (Inr (0, sp_cond sp))"
    using condition_parses [OF assms(1) good(1) stop_space(3), of us] assms(6) by (simp add: not_and_def not_or_def)
  have c: "linx_compile_ast us (sp_cond sp) mtch (ld_hash st) = Inr (0, Some m, ast_node_destroy (sp_cond sp), hs1)" for mtch
    using m(1) good(2) by (auto simp: linx_compile_ast_def)
  obtain rs' where rs': "linx_rule_set_add True True True (Some r) (Some m) (Some om) (Some rs) = Inr (0, Some rs')"
    "rs_inv rs'" "rs_entries rs' = rs_entries rs @ [(r, m, om)]" "\<not> rs_rules_freed rs'" "\<not> rs_matches_freed rs'"
    using rule_set_add_spec [OF rs(2-4)] by blast
  have "install_rule pm us (all_alloc i) r st = Some (Inr \<lparr>ld_ret = 0, ld_match = Some m, ld_set = Some rs', ld_hash = hs1\<rparr>)"
    using p c om1 rs'(1) rs(1) assms(7) by (simp add: install_rule_def all_alloc_def)
  moreover have "installed hs0 sp (r, m, om)"
    using compiled_installed [OF assms(2) good(2) m(1) rs(6) assms(5) om] .
  ultimately show ?thesis
    using rs' rs(5,6) m(2) by (auto simp: load_inv_def intro: list_all2_appendI)
qed

lemma add_rule_loop_good:
  assumes "pcre2_grammar pm" "room_for_lists us" "list_all (good_spec hs0) sps"
    and "length sps < 2 ^ 31"
  shows "i + n = length sps \<Longrightarrow> load_inv hs0 (acc @ take i sps) st \<Longrightarrow>
    \<exists>st'. add_rule_loop pm us all_alloc (node_of (rules_doc sps) None False) i n st = Some (Inr (False, st')) \<and>
      load_inv hs0 (acc @ sps) st'"
proof (induction n arbitrary: i st)
  case (Suc n)
  have i: "i < length sps" using Suc.prems(1) by simp
  obtain r where r: "read_rule (node_of (rules_doc sps) None False) i = Inr r" "r_name r = Some (sp_name (sps ! i))"
    "r_condition r = Some (show_cond 0 (sp_cond (sps ! i)))" "r_output r = Some (sp_output (sps ! i))"
    using read_rule_spec [OF i assms(4)] by blast
  have "good_spec hs0 (sps ! i)" using assms(3) i by (simp add: list_all_length)
  from install_good_rule [OF assms(1,2) this Suc.prems(2) r(2-4)] obtain st1
    where st1: "install_rule pm us (all_alloc i) r st = Some (Inr st1)" "load_inv hs0 ((acc @ take i sps) @ [sps ! i]) st1" by blast
  then have "load_inv hs0 (acc @ take (Suc i) sps) st1" using i by (simp add: take_Suc_conv_app_nth)
  with Suc.IH [of "Suc i" st1] Suc.prems(1) st1(1) r(1) show ?case by (simp add: all_alloc_def)
qed simp

lemma loadable_rules:
  assumes "list_all (good_spec hs0) sps"
  shows "loadable (rules_doc sps)"
proof -
  have "loadable (rule_doc sp)" if "sp \<in> set sps" for sp
    using assms that by (force simp: list_all_iff rule_doc_def good_spec_def)
  moreover have "dropWhile is_scal (map rule_doc sps) = map rule_doc sps"
    by (cases sps) (simp_all add: rule_doc_def)
  moreover have "list_all (\<lambda>d. \<not> is_scal d) (map rule_doc sps)" by (simp add: list_all_iff rule_doc_def)
  ultimately show ?thesis by (simp add: rules_doc_def scalars_first_def list_all_iff)
qed

text \<open>A load environment in which memory lasts and PCRE2 follows its documentation; a file with the rules
  \<open>sps\<close>; a regular file or a directory whose files hold the rules \<open>sps\<close>.\<close>

definition good_env :: "load_env \<Rightarrow> bool" where
  "good_env le \<longleftrightarrow> pcre2_grammar (le_pcre2 le) \<and> room_for_lists (le_usable le) \<and> le_alloc le = all_alloc \<and> le_yaml le = all_ok"

definition holds_rules :: "load_env \<Rightarrow> string \<Rightarrow> rule_spec list \<Rightarrow> bool" where
  "holds_rules le path sps \<longleftrightarrow> fs_events (le_fs le) path = Some (doc_stream (rules_doc sps)) \<and> length sps < 2 ^ 31"

definition real_names :: "string list \<Rightarrow> string list" where
  "real_names names = filter (\<lambda>n. n \<noteq> ''.'' \<and> n \<noteq> ''..'') names"

definition dir_holds :: "load_env \<Rightarrow> string \<Rightarrow> string list \<Rightarrow> rule_spec list list \<Rightarrow> bool" where
  "dir_holds le path names spss \<longleftrightarrow>
     list_all2 (\<lambda>n sps. length (path @ ''/'' @ n) < FULL_PATH \<and> holds_rules le (path @ ''/'' @ n) sps) (real_names names) spss"

definition rule_source :: "load_env \<Rightarrow> string \<Rightarrow> rule_spec list \<Rightarrow> bool" where
  "rule_source le path sps \<longleftrightarrow>
     fs_kind (le_fs le) path = RegularFile \<and> holds_rules le path sps \<or>
     fs_kind (le_fs le) path = Directory \<and>
       (\<exists>names spss. fs_names (le_fs le) path = Some names \<and> dir_holds le path names spss \<and> sps = concat spss)"

text \<open>A load that leaves the rules \<open>sps\<close> in the set and returns 0.\<close>

definition loads_rules :: "hash_state \<Rightarrow> rule_spec list \<Rightarrow> loaded \<Rightarrow> bool" where
  "loads_rules hs0 sps l \<longleftrightarrow> (\<exists>m s hs. l = Some (Inr (0, s, hs)) \<and>
     load_inv hs0 sps \<lparr>ld_ret = 0, ld_match = m, ld_set = s, ld_hash = hs\<rparr>)"

lemma load_inv_match: "load_inv hs0 sps \<lparr>ld_ret = 0, ld_match = m, ld_set = s, ld_hash = hs\<rparr> \<Longrightarrow>
    load_inv hs0 sps \<lparr>ld_ret = 0, ld_match = m', ld_set = s, ld_hash = hs\<rparr>"
  by (simp add: load_inv_def)

lemma load_file_good:
  assumes "good_env le" "holds_rules le path sps" "list_all (good_spec hs0) sps"
    and "load_inv hs0 acc \<lparr>ld_ret = 0, ld_match = None, ld_set = s, ld_hash = hs\<rparr>"
  shows "loads_rules hs0 (acc @ sps) (linx_rule_engine_load_file le path s hs)"
proof -
  let ?root = "node_of (rules_doc sps) None False"
  have rf: "pcre2_grammar (le_pcre2 le)" "room_for_lists (le_usable le)" "le_alloc le = all_alloc" "le_yaml le = all_ok"
    "fs_events (le_fs le) path = Some (doc_stream (rules_doc sps))" "length sps < 2 ^ 31"
    using assms(1,2) by (simp_all add: good_env_def holds_rules_def)
  obtain cs where cs: "linx_yaml_load all_ok True (doc_stream (rules_doc sps)) = Inr (Some (cs, 0))"
    "tree_of (length cs) cs 0 = ?root"
    using load_document [OF loadable_rules [OF assms(3)]] by (auto simp: rules_doc_def)
  have len: "length (ychildren ?root) = length sps" by (simp add: rules_doc_def)
  obtain st where st: "add_rule_loop (le_pcre2 le) (le_usable le) all_alloc ?root 0 (length sps)
      \<lparr>ld_ret = 0, ld_match = None, ld_set = s, ld_hash = hs\<rparr> = Some (Inr (False, st))" "load_inv hs0 (acc @ sps) st"
    using add_rule_loop_good [OF rf(1,2) assms(3) rf(6), of 0 _ acc] assms(4) by auto
  have "linx_rule_engine_load_file le path s hs = Some (Inr (0, ld_set st, ld_hash st))"
    using cs st rf(3-5) len
    by (simp add: linx_rule_engine_load_file_def linx_rule_engine_add_rule_to_set_def load_inv_def)
  with st(2) show ?thesis by (auto simp: loads_rules_def load_inv_def)
qed

lemma load_dir_good:
  assumes "good_env le" "dir_holds le path names spss" "list_all (good_spec hs0) (concat spss)"
    and "load_inv hs0 acc \<lparr>ld_ret = 0, ld_match = None, ld_set = s, ld_hash = hs\<rparr>"
  shows "loads_rules hs0 (acc @ concat spss) (load_dir_loop le path names s hs)"
  using assms(2-)
proof (induction names arbitrary: spss acc s hs)
  case Nil
  then show ?case by (auto simp: dir_holds_def real_names_def loads_rules_def)
next
  case (Cons n names)
  show ?case
  proof (cases "n = ''.'' \<or> n = ''..''")
    case True
    then show ?thesis using Cons by (auto simp: dir_holds_def real_names_def)
  next
    case False
    then obtain sps rest where s: "spss = sps # rest" "length (path @ ''/'' @ n) < FULL_PATH"
      "holds_rules le (path @ ''/'' @ n) sps" "dir_holds le path names rest"
      using Cons.prems(1) by (cases spss) (auto simp: dir_holds_def real_names_def)
    have "loads_rules hs0 (acc @ sps) (linx_rule_engine_load_file le (path @ ''/'' @ n) s hs)"
      using Cons.prems(2,3) s(1) by (intro load_file_good [OF assms(1) s(3)]) simp_all
    then obtain m s1 hs1 where l: "linx_rule_engine_load_file le (path @ ''/'' @ n) s hs = Some (Inr (0, s1, hs1))"
      "load_inv hs0 (acc @ sps) \<lparr>ld_ret = 0, ld_match = m, ld_set = s1, ld_hash = hs1\<rparr>"
      by (auto simp: loads_rules_def)
    have "loads_rules hs0 ((acc @ sps) @ concat rest) (load_dir_loop le path names s1 hs1)"
      using Cons.prems(2) s(1) by (intro Cons.IH [OF s(4)] load_inv_match [OF l(2)]) simp
    then show ?thesis using False l(1) s(1,2) by simp
  qed
qed

lemma load_rules_good:
  assumes "good_env le" "rule_source le path sps" "list_all (good_spec hs0) sps"
  shows "loads_rules hs0 sps (linx_rule_engine_load True le path hs0)"
proof -
  have e: "load_inv hs0 [] \<lparr>ld_ret = 0, ld_match = None, ld_set = Some empty_rule_set, ld_hash = hs0\<rparr>"
    using rs_inv_empty by (simp add: load_inv_def empty_rule_set_def rs_entries_def)
  show ?thesis
  proof (cases "fs_kind (le_fs le) path = RegularFile")
    case True
    then have "holds_rules le path sps" using assms(2) by (simp add: rule_source_def)
    from load_file_good [OF assms(1) this assms(3) e] True show ?thesis
      by (simp add: linx_rule_engine_load_def linx_rule_set_init_def)
  next
    case False
    then obtain names spss where d: "fs_kind (le_fs le) path = Directory" "fs_names (le_fs le) path = Some names"
      "dir_holds le path names spss" "sps = concat spss" using assms(2) by (auto simp: rule_source_def)
    from load_dir_good [OF assms(1) d(3) assms(3) [unfolded d(4)] e] d show ?thesis
      by (simp add: linx_rule_engine_load_def linx_rule_set_init_def linx_rule_engine_load_dir_def)
  qed
qed

lemma load_rules_ok:
  assumes "good_env le" "rule_source le path sps" "list_all (good_spec hs0) sps"
  shows "\<exists>rs hs1. linx_rule_engine_load True le path hs0 = Some (Inr (0, Some rs, hs1)) \<and>
    s_linx_hash_map hs1 = s_linx_hash_map hs0 \<and> \<not> rs_rules_freed rs \<and> \<not> rs_matches_freed rs \<and>
    list_all2 (installed hs0) sps (rs_entries rs)"
  using load_rules_good [OF assms] by (auto simp: loads_rules_def load_inv_def)

text \<open>
  C3: rule files are loaded as they read. For a file, or a directory of files, whose rules have a name, a
  condition in the printed form of a well-formed tree with supported operators, an output whose
  variables exist, and any other keys, loading succeeds and the rule set holds exactly these rules in the
  order of the files: each with its name, with the compiled form of its output, and with a match that
  answers its condition for every event that has values at its paths.
\<close>

theorem rules_load_as_written:
  assumes "good_env le" "rule_source le path sps" "list_all (good_spec hs0) sps"
  shows "\<exists>rs hs1. linx_rule_engine_load True le path hs0 = Some (Inr (0, Some rs, hs1)) \<and>
    list_all2 (installed hs0) sps (rs_entries rs)"
  using load_rules_ok [OF assms] by blast

text \<open>A directory with one rule file.\<close>

definition demo_spec :: rule_spec where
  "demo_spec = \<lparr>sp_name = ''r1'',
     sp_cond = AST_BIN_NUM_OP BINARY_NUM_OP_GT (AST_FIELD_NAME ''evt.num'') (AST_INT 5),
     sp_output = demo_num_template, sp_more = [(''tags'', Sequence [Scalar ''a'', Scalar ''b''])]\<rparr>"

definition demo_fs :: file_system where
  "demo_fs = \<lparr>fs_kind = (\<lambda>p. if p = ''rules'' then Directory else NoPath),
     fs_events = (\<lambda>p. if p = ''rules/a.yaml'' then Some (doc_stream (rules_doc [demo_spec])) else None),
     fs_names = (\<lambda>p. if p = ''rules'' then Some [''.'', ''..'', ''a.yaml''] else None)\<rparr>"

definition demo_load_env :: load_env where
  "demo_load_env = \<lparr>le_pcre2 = rx, le_usable = (\<lambda>n. 88), le_alloc = all_alloc, le_yaml = all_ok, le_fs = demo_fs\<rparr>"

lemma demo_load_good:
  "good_env demo_load_env" "rule_source demo_load_env ''rules'' [demo_spec]" "good_spec hm_demo_state demo_spec"
proof -
  show "good_env demo_load_env"
    by (simp add: good_env_def demo_load_env_def rx_grammar room_for_lists_def sizeof_list_context_def)
  have "dir_holds demo_load_env ''rules'' [''.'', ''..'', ''a.yaml''] [[demo_spec]]"
    by (simp add: dir_holds_def real_names_def holds_rules_def demo_load_env_def demo_fs_def FULL_PATH_def)
  then show "rule_source demo_load_env ''rules'' [demo_spec]"
    by (auto simp: rule_source_def demo_load_env_def demo_fs_def intro!: exI [of _ "[[demo_spec]]"])
  show "good_spec hm_demo_state demo_spec" by code_simp
qed

theorem rules_load_as_written_witness:
  "\<exists>rs hs1. linx_rule_engine_load True demo_load_env ''rules'' hm_demo_state = Some (Inr (0, Some rs, hs1)) \<and>
    list_all2 (installed hm_demo_state) [demo_spec] (rs_entries rs)"
  using rules_load_as_written [OF demo_load_good(1,2)] demo_load_good(3) by simp

section \<open>Rules with a syntax error\<close>

lemma match_loop_skip_last:
  "linx_rule_engine_match ev hs m = Inr False \<Longrightarrow>
   match_loop send ev hs (xs @ [(r, m, om)]) fr st = match_loop send ev hs xs fr st"
proof (induction xs)
  case (Cons x xs)
  then show ?case by (cases x; cases "linx_rule_engine_match ev hs (fst (snd x))") auto
qed simp

lemma match_loop_repeated:
  "(r0, m, om0) \<in> set xs \<Longrightarrow>
   match_loop send ev hs (xs @ [(r, m, om)]) fr st = match_loop send ev hs xs fr st"
proof (induction xs)
  case (Cons x xs)
  obtain rx mx ox where x: "x = (rx, mx, ox)" by (cases x) auto
  show ?case
  proof (cases "linx_rule_engine_match ev hs mx")
    case (Inr b)
    then show ?thesis
      using Cons x match_loop_skip_last [of ev hs mx send xs r om fr st] by (cases b) auto
  qed (simp add: x)
qed simp

text \<open>
  C32: a rule with a syntax error is accepted and can never fire. When the condition of a rule has no tree,
  the loop still holds the match of the rule before it and stores that match a second time, with return
  code 0; since the first match wins, the set answers every event exactly as without the rule.
\<close>

theorem syntax_error_rule_never_fires:
  assumes "condition_to_ast pm us (r_condition r) = Some (Inr (- 1, AST_NULL))"
    and "ld_set st = Some rs" "rs_inv rs" "\<not> rs_rules_freed rs" "\<not> rs_matches_freed rs"
    and "ld_match st = Some m" "(r0, m, om0) \<in> set (rs_entries rs)"
    and "linx_output_match_compile (ld_hash st) (r_output r) = (c, Some om)"
  shows "\<exists>st' rs'. install_rule pm us (all_alloc i) r st = Some (Inr st') \<and> ld_ret st' = 0 \<and> ld_set st' = Some rs' \<and>
    rs_entries rs' = rs_entries rs @ [(r, m, om)] \<and>
    linx_rule_set_match_rule send ev hs (Some rs') a = linx_rule_set_match_rule send ev hs (Some rs) a"
proof -
  obtain rs' where rs': "linx_rule_set_add True True True (Some r) (Some m) (Some om) (Some rs) = Inr (0, Some rs')"
    "rs_entries rs' = rs_entries rs @ [(r, m, om)]" "\<not> rs_rules_freed rs'" "\<not> rs_matches_freed rs'"
    using rule_set_add_spec [OF assms(3-5)] by blast
  have "install_rule pm us (all_alloc i) r st =
      Some (Inr \<lparr>ld_ret = 0, ld_match = Some m, ld_set = Some rs', ld_hash = ld_hash st\<rparr>)"
    using assms(1,2,6,8) rs'(1) by (simp add: install_rule_def all_alloc_def linx_compile_ast_def)
  moreover have "linx_rule_set_match_rule send ev hs (Some rs') a = linx_rule_set_match_rule send ev hs (Some rs) a"
    using rs'(2-4) assms(4,5) match_loop_repeated [OF assms(7)] by (simp add: linx_rule_set_match_rule_def)
  ultimately show ?thesis using rs'(2) by auto
qed

definition demo_bad_rule :: linx_rule where
  "demo_bad_rule = linx_rule_create\<lparr>r_name := Some ''r2'', r_condition := Some ''= 5'', r_output := Some ''hit''\<rparr>"

lemma demo_bad_condition: "condition_to_ast rx (\<lambda>n. 88) (Some ''= 5'') = Some (Inr (- 1, AST_NULL))"
  by code_simp

theorem syntax_error_rule_never_fires_witness:
  "\<exists>st' rs' om. install_rule rx (\<lambda>n. 88) (all_alloc 1) demo_bad_rule
      \<lparr>ld_ret = 0, ld_match = Some always_match, ld_set = Some demo_rule_set, ld_hash = hm_demo_state\<rparr> = Some (Inr st') \<and>
    ld_ret st' = 0 \<and> ld_set st' = Some rs' \<and>
    rs_entries rs' = rs_entries demo_rule_set @ [(demo_bad_rule, always_match, om)] \<and>
    linx_rule_set_match_rule write_name demo_event hm_demo_state (Some rs') \<lparr>s_alert = None, alert_stdout = []\<rparr> =
    linx_rule_set_match_rule write_name demo_event hm_demo_state (Some demo_rule_set) \<lparr>s_alert = None, alert_stdout = []\<rparr>"
proof -
  let ?st = "\<lparr>ld_ret = 0, ld_match = Some always_match, ld_set = Some demo_rule_set, ld_hash = hm_demo_state\<rparr>"
  have c: "condition_to_ast rx (\<lambda>n. 88) (r_condition demo_bad_rule) = Some (Inr (- 1, AST_NULL))"
    using demo_bad_condition by (simp add: demo_bad_rule_def)
  have i: "rs_inv demo_rule_set" "\<not> rs_rules_freed demo_rule_set" "\<not> rs_matches_freed demo_rule_set"
    by (auto simp: rs_inv_def demo_rule_set_def rs_size_def intro: exI [of _ 0])
  have m: "(linx_rule_create\<lparr>r_name := Some ''b''\<rparr>, always_match, \<lparr>segments = [], om_capacity = 2\<rparr>) \<in> set (rs_entries demo_rule_set)"
    by (simp add: demo_rule_set_def rs_entries_def)
  obtain x om where o: "linx_output_match_compile (ld_hash ?st) (r_output demo_bad_rule) = (x, Some om)"
    by (simp add: demo_bad_rule_def linx_output_match_compile_def split_beta Let_def)
  have "ld_set ?st = Some demo_rule_set" "ld_match ?st = Some always_match" by simp_all
  from syntax_error_rule_never_fires [OF c this(1) i this(2) m o, of 1 write_name demo_event hm_demo_state
      "\<lparr>s_alert = None, alert_stdout = []\<rparr>"]
  show ?thesis by blast
qed

end
