(* ===== verification/Config.thy ===== *)
theory Config
  imports Yaml_Tree Event_Table Byte_Memory
begin

text \<open>
  The command line (\<^verbatim>\<open>linx_arg_parser.c\<close>) and the configuration (\<^verbatim>\<open>linx_config.c\<close>) read from the tree of the configuration
  file. The parsed options, the interest file and its JSON members and the outcomes of allocations are parameters.
\<close>

section \<open>Command line\<close>

text \<open>A member of the record is \<open>None\<close> as long as it was not written: \<^verbatim>\<open>malloc\<close> leaves it uninitialised. A written member is
  the result of \<^verbatim>\<open>strdup\<close>, NULL or a string.\<close>

record linx_arg_config =
  linx_apd_config :: "string option option"
  linx_apd_rules :: "string option option"

definition linx_arg_init :: "bool \<Rightarrow> linx_arg_config option \<Rightarrow> int \<times> linx_arg_config option" where
  "linx_arg_init ok ac =
    (case ac of
       Some c \<Rightarrow> (0, Some c)
     | None \<Rightarrow> if \<not> ok then (- 1, None) else (0, Some \<lparr>linx_apd_config = None, linx_apd_rules = None\<rparr>))"

definition ARGP_ERR_UNKNOWN :: int where "ARGP_ERR_UNKNOWN = 7"

text \<open>\<open>key\<close> is the option letter, with \<open>None\<close> for the special keys of \<^verbatim>\<open>argp\<close>.\<close>

definition linx_arg_parse :: "bool \<Rightarrow> char option \<Rightarrow> string \<Rightarrow> linx_arg_config \<Rightarrow> int \<times> linx_arg_config" where
  "linx_arg_parse ok key arg c =
    (if key = Some CHR ''c'' then (0, c\<lparr>linx_apd_config := Some (if ok then Some arg else None)\<rparr>)
     else if key = Some CHR ''r'' then (0, c\<lparr>linx_apd_rules := Some (if ok then Some arg else None)\<rparr>)
     else (ARGP_ERR_UNKNOWN, c))"

text \<open>The test of a member reads it; the result is the number of blocks freed and the pointer, NULL.\<close>

definition linx_arg_deinit :: "linx_arg_config option \<Rightarrow> (nat \<times> linx_arg_config option) res" where
  "linx_arg_deinit ac =
    (case ac of
       None \<Rightarrow> Inr (0, None)
     | Some c \<Rightarrow>
         (case (linx_apd_config c, linx_apd_rules c) of
            (Some f, Some r) \<Rightarrow> Inr (1 + of_bool (f \<noteq> None) + of_bool (r \<noteq> None), None)
          | _ \<Rightarrow> Inl UninitRead))"

section \<open>Configuration\<close>

definition LINX_SYSCALL_ID_MAX :: nat where "LINX_SYSCALL_ID_MAX = 453"
definition LINX_BPF_FILTER_PID_MAX_SIZE :: nat where "LINX_BPF_FILTER_PID_MAX_SIZE = 64"
definition LINX_BPF_FILTER_COMM_MAX_SIZE :: nat where "LINX_BPF_FILTER_COMM_MAX_SIZE = 16"
definition LINX_COMM_MAX_SIZE :: nat where "LINX_COMM_MAX_SIZE = 16"

text \<open>\<open>cfg_kind\<close> and its union member \<^verbatim>\<open>ebpf\<close> stand for \<^verbatim>\<open>engine\<close>; pointers are options.\<close>

record linx_global_config =
  cfg_output :: "string option"
  cfg_log_level :: "string option"
  cfg_kind :: "string option"
  drop_mode :: bool
  drop_failed :: bool
  filter_pids :: "32 word list"
  filter_comms :: "string list"
  interest_syscall_table :: "8 word list"

definition zero_config :: linx_global_config where
  "zero_config = \<lparr>cfg_output = None, cfg_log_level = None, cfg_kind = None, drop_mode = False, drop_failed = False,
     filter_pids = replicate LINX_BPF_FILTER_PID_MAX_SIZE 0,
     filter_comms = replicate LINX_BPF_FILTER_COMM_MAX_SIZE [],
     interest_syscall_table = replicate LINX_SYSCALL_ID_MAX 0\<rparr>"

definition linx_config_init :: "bool \<Rightarrow> linx_global_config option \<Rightarrow> int \<times> linx_global_config option" where
  "linx_config_init ok g =
    (case g of Some c \<Rightarrow> (0, Some c) | None \<Rightarrow> if \<not> ok then (- 1, None) else (0, Some zero_config))"

text \<open>The number of blocks freed: the record, the level and the output, but not \<^verbatim>\<open>engine.kind\<close>.\<close>

definition linx_config_deinit :: "linx_global_config option \<Rightarrow> nat \<times> linx_global_config option" where
  "linx_config_deinit g =
    (case g of
       None \<Rightarrow> (0, None)
     | Some c \<Rightarrow> (1 + of_bool (cfg_log_level c \<noteq> None) + of_bool (cfg_output c \<noteq> None), None))"

text \<open>The interest file: its contents, whether \<^verbatim>\<open>fstat\<close>, \<^verbatim>\<open>malloc\<close> and \<^verbatim>\<open>read\<close> succeed, the bytes of the heap behind
  the buffer, and the JSON library: for a text, the \<^verbatim>\<open>interesting\<close> number of a member.\<close>

record interest_world =
  iw_open :: "string \<Rightarrow> string option"
  iw_fstat :: bool
  iw_malloc :: bool
  iw_read :: bool
  iw_slack :: "char list"
  iw_json :: "string \<Rightarrow> (string \<Rightarrow> int option) option"

text \<open>Writing \<open>xs[i]\<close> of an array.\<close>

definition store :: "nat \<Rightarrow> 'a \<Rightarrow> 'a list \<Rightarrow> 'a list res" where
  "store i v xs = (if i < length xs then Inr (xs[i := v]) else Inl OutOfBounds)"

fun interest_loop :: "(string \<Rightarrow> int option) \<Rightarrow> nat list \<Rightarrow> 8 word list \<Rightarrow> 8 word list res" where
  "interest_loop member [] tab = Inr tab"
| "interest_loop member (i # is) tab =
     res_bind (g_linx_event_table (i * 2)) (\<lambda>row.
       (case member (evt_name row) of
          None \<Rightarrow> interest_loop member is tab
        | Some v \<Rightarrow> res_bind (store i (word_of_int v) tab) (interest_loop member is)))"

definition linx_config_fill_interest_syscall_table ::
  "interest_world \<Rightarrow> string option \<Rightarrow> linx_global_config \<Rightarrow> (int \<times> linx_global_config) res" where
  "linx_config_fill_interest_syscall_table w path c =
    (case Option.bind path (iw_open w) of
       None \<Rightarrow> Inr (- 1, c)
     | Some content \<Rightarrow>
         if \<not> iw_fstat w \<or> \<not> iw_malloc w \<or> \<not> iw_read w then Inr (- 1, c)
         else if NUL \<notin> set (content @ iw_slack w) then Inl Unterminated
         else
           (case iw_json w (cstr_of (content @ iw_slack w)) of
              None \<Rightarrow> Inr (- 1, c)
            | Some member \<Rightarrow>
                map_sum id (\<lambda>tab. (0, c\<lparr>interest_syscall_table := tab\<rparr>))
                  (interest_loop member [0..<LINX_SYSCALL_ID_MAX] (interest_syscall_table c))))"

text \<open>\<^verbatim>\<open>strdup\<close> of a string that may be NULL.\<close>

definition strdup :: "bool \<Rightarrow> string option \<Rightarrow> string option res" where
  "strdup ok s = (case s of None \<Rightarrow> Inl NullDeref | Some v \<Rightarrow> Inr (if ok then Some v else None))"

definition item_path :: "string \<Rightarrow> nat \<Rightarrow> string" where
  "item_path seq i = take 255 (seq @ ''.'' @ show_nat i)"

definition pids_path :: string where "pids_path = ''engine.ebpf.filter_pids''"
definition comms_path :: string where "comms_path = ''engine.ebpf.filter_comms''"

fun pids_loop :: "linx_yaml_node option \<Rightarrow> nat list \<Rightarrow> 32 word list \<Rightarrow> 32 word list res" where
  "pids_loop root [] pids = Inr pids"
| "pids_loop root (i # is) pids =
     res_bind (linx_yaml_get_int root (Some (item_path pids_path i)) 0) (\<lambda>v.
     res_bind (store i (word_of_int v) pids) (pids_loop root is))"

text \<open>\<^verbatim>\<open>snprintf\<close> with \<^verbatim>\<open>%s\<close> into 16 bytes; a NULL argument prints as \<^verbatim>\<open>(null)\<close>.\<close>

definition comm_text :: "string option \<Rightarrow> string" where
  "comm_text s = take (LINX_COMM_MAX_SIZE - 1) (case s of None \<Rightarrow> ''(null)'' | Some v \<Rightarrow> v)"

fun comms_loop :: "linx_yaml_node option \<Rightarrow> nat list \<Rightarrow> string list \<Rightarrow> string list res" where
  "comms_loop root [] comms = Inr comms"
| "comms_loop root (i # is) comms =
     res_bind (store i (comm_text (linx_yaml_get_string root (Some (item_path comms_path i)) (Some []))) comms)
       (comms_loop root is)"

definition fill_ebpf :: "interest_world \<Rightarrow> linx_yaml_node option \<Rightarrow> linx_global_config \<Rightarrow> linx_global_config res" where
  "fill_ebpf w root c =
    res_bind (linx_yaml_get_bool root (Some ''engine.ebpf.drop_mode'') 0) (\<lambda>dm.
    res_bind (linx_yaml_get_bool root (Some ''engine.ebpf.drop_failed'') 0) (\<lambda>df.
    res_bind (pids_loop root [0..<nat (linx_yaml_get_sequence_length root (Some pids_path))] (filter_pids c)) (\<lambda>pids.
    res_bind (comms_loop root [0..<nat (linx_yaml_get_sequence_length root (Some comms_path))] (filter_comms c)) (\<lambda>comms.
      map_sum id snd (linx_config_fill_interest_syscall_table w
        (linx_yaml_get_string root (Some ''engine.ebpf.interest_syscall_file'') None)
        (c\<lparr>drop_mode := (dm \<noteq> 0), drop_failed := (df \<noteq> 0), filter_pids := pids, filter_comms := comms\<rparr>))))))"

definition linx_config_fill_engine ::
  "interest_world \<Rightarrow> bool \<Rightarrow> linx_yaml_node option \<Rightarrow> linx_global_config \<Rightarrow> (int \<times> linx_global_config) res" where
  "linx_config_fill_engine w ok root c =
    res_bind (strdup ok (linx_yaml_get_string root (Some ''engine.kind'') (Some ''unknown''))) (\<lambda>kind.
      (let c = c\<lparr>cfg_kind := kind\<rparr>
       in if kind = None then Inr (- 1, c)
          else if kind = Some ''ebpf'' then map_sum id (\<lambda>c. (0, c)) (fill_ebpf w root c)
          else if kind = Some ''kmod'' then Inr (0, c)
          else Inr (- 1, c)))"

text \<open>The tree of the file, \<open>None\<close> when the file could not be loaded. \<open>ok i\<close> is the outcome of the \<open>i\<close>-th \<^verbatim>\<open>strdup\<close>. The
  second component of the result is the number of blocks of the tree that are freed.\<close>

definition linx_config_load ::
  "interest_world \<Rightarrow> (nat \<Rightarrow> bool) \<Rightarrow> linx_yaml_node option \<Rightarrow> linx_global_config option \<Rightarrow>
   (int \<times> nat \<times> linx_global_config option) res" where
  "linx_config_load w ok root g =
    (case root of
       None \<Rightarrow> Inr (- 1, 0, g)
     | Some r \<Rightarrow>
         (case g of
            None \<Rightarrow> Inl NullDeref
          | Some c \<Rightarrow>
              res_bind (linx_config_fill_engine w (ok 0) root c) (\<lambda>(ret, c).
                if ret \<noteq> 0 then Inr (ret, 0, Some c)
                else
                  res_bind (strdup (ok 1) (linx_yaml_get_string root (Some ''log.output'') (Some ''stderr''))) (\<lambda>out.
                  res_bind (strdup (ok 2) (linx_yaml_get_string root (Some ''log.level'') (Some ''ERROR''))) (\<lambda>lvl.
                    Inr (ret, linx_yaml_node_free r, Some (c\<lparr>cfg_output := out, cfg_log_level := lvl\<rparr>)))))))"

section \<open>Filling an array\<close>

fun fill :: "(nat \<Rightarrow> 'a option res) \<Rightarrow> nat list \<Rightarrow> 'a list \<Rightarrow> 'a list res" where
  "fill f [] xs = Inr xs"
| "fill f (i # is) xs =
     res_bind (f i) (\<lambda>v. case v of None \<Rightarrow> fill f is xs | Some a \<Rightarrow> res_bind (store i a xs) (fill f is))"

lemma pids_loop_fill:
  "pids_loop root is xs =
     fill (\<lambda>i. map_sum id (\<lambda>v. Some (word_of_int v)) (linx_yaml_get_int root (Some (item_path pids_path i)) 0)) is xs"
proof (induction root "is" xs rule: pids_loop.induct)
  case (2 root i "is" pids)
  then show ?case
    by (cases "linx_yaml_get_int root (Some (item_path pids_path i)) 0") (simp_all add: store_def)
qed simp

lemma comms_loop_fill:
  "comms_loop root is xs =
     fill (\<lambda>i. Inr (Some (comm_text (linx_yaml_get_string root (Some (item_path comms_path i)) (Some []))))) is xs"
  by (induction root "is" xs rule: comms_loop.induct) (simp_all add: store_def)

lemma interest_loop_fill:
  "interest_loop member is xs =
     fill (\<lambda>i. map_sum id (\<lambda>row. map_option word_of_int (member (evt_name row))) (g_linx_event_table (i * 2))) is xs"
proof (induction member "is" xs rule: interest_loop.induct)
  case (2 member i "is" tab)
  then show ?case by (cases "g_linx_event_table (i * 2)") (simp_all add: store_def split: option.split)
qed simp

text \<open>A loop whose values are all defined overwrites a prefix, and leaves the array when it is too short.\<close>

lemma fill_from:
  assumes "\<And>i. i < n \<Longrightarrow> f i = Inr (Some (g i))" "m \<le> n" "m \<le> length xs"
  shows "fill f [m..<n] xs =
    (if n \<le> length xs then Inr (take m xs @ map g [m..<n] @ drop n xs) else Inl OutOfBounds)"
  using assms(2,3)
proof (induction "n - m" arbitrary: m xs)
  case 0
  then show ?case by simp
next
  case (Suc k)
  then have mn: "m < n" by simp
  have step: "fill f [m..<n] xs = res_bind (store m (g m) xs) (fill f [Suc m..<n])"
    using mn assms(1) [of m] by (simp add: upt_conv_Cons)
  show ?case
  proof (cases "m < length xs")
    case False
    with step mn Suc.prems show ?thesis by (simp add: store_def)
  next
    case True
    then have "take (Suc m) (xs[m := g m]) = take m xs @ [g m]" by (simp add: take_Suc_conv_app_nth)
    moreover have "drop n (xs[m := g m]) = drop n xs" using mn by simp
    ultimately show ?thesis
      using step True mn Suc(1) [of "Suc m" "xs[m := g m]"] Suc(2) by (simp add: store_def upt_conv_Cons)
  qed
qed

lemma fill_spec:
  assumes "\<And>i. i < n \<Longrightarrow> f i = Inr (Some (g i))"
  shows "fill f [0..<n] xs = (if n \<le> length xs then Inr (map g [0..<n] @ drop n xs) else Inl OutOfBounds)"
  using fill_from [of n f g 0 xs] assms by simp

text \<open>A loop over distinct indices of the array succeeds, and each index holds its value or what it held.\<close>

lemma fill_total:
  assumes "\<And>i. i \<in> set is \<Longrightarrow> f i = Inr (g i)" "\<forall>i \<in> set is. i < length xs" "distinct is"
  shows "\<exists>ys. fill f is xs = Inr ys \<and> length ys = length xs \<and>
    (\<forall>i < length xs. ys ! i = (if i \<in> set is then (case g i of None \<Rightarrow> xs ! i | Some a \<Rightarrow> a) else xs ! i))"
  using assms
proof (induction "is" arbitrary: xs)
  case (Cons j js)
  let ?xs = "case g j of None \<Rightarrow> xs | Some a \<Rightarrow> xs[j := a]"
  have step: "fill f (j # js) xs = fill f js ?xs"
    using Cons.prems(1) [of j] Cons.prems(2) by (simp add: store_def split: option.split)
  have len: "length ?xs = length xs" by (simp split: option.split)
  have "\<exists>ys. fill f js ?xs = Inr ys \<and> length ys = length ?xs \<and>
    (\<forall>i < length ?xs. ys ! i = (if i \<in> set js then (case g i of None \<Rightarrow> ?xs ! i | Some a \<Rightarrow> a) else ?xs ! i))"
    by (rule Cons.IH) (use Cons.prems len in auto)
  then obtain ys where ys: "fill f js ?xs = Inr ys" "length ys = length xs"
    "\<forall>i < length xs. ys ! i = (if i \<in> set js then (case g i of None \<Rightarrow> ?xs ! i | Some a \<Rightarrow> a) else ?xs ! i)"
    using len by auto
  have "j \<notin> set js" using Cons.prems(3) by simp
  moreover have "?xs ! i = (if i = j then (case g j of None \<Rightarrow> xs ! i | Some a \<Rightarrow> a) else xs ! i)" if "i < length xs" for i
    using that by (cases "g j") (auto simp: nth_list_update)
  ultimately have "\<forall>i < length xs. ys ! i =
      (if i \<in> set (j # js) then (case g i of None \<Rightarrow> xs ! i | Some a \<Rightarrow> a) else xs ! i)"
    using ys(3) by (auto split: option.split)
  then show ?case unfolding step using ys(1,2) by blast
qed simp

section \<open>What a configuration file says\<close>

definition seq_at :: "string \<Rightarrow> linx_yaml_node \<Rightarrow> linx_yaml_node list" where
  "seq_at key r =
    (case lookup_path [Key ''engine'', Key ''ebpf'', Key key] r of
       Some n \<Rightarrow> if ytype n = LINX_YAML_NODE_TYPE_SEQUENCE then ychildren n else []
     | None \<Rightarrow> [])"

text \<open>The number of an item of a sequence: of a scalar whose whole text is one, and 0 otherwise.\<close>

definition item_number :: "linx_yaml_node \<Rightarrow> int" where
  "item_number n =
    (if is_scalar n then (let (v, rest) = strtol (the (yvalue n)) in if rest = [] then to_int v else 0) else 0)"

definition item_text :: "linx_yaml_node \<Rightarrow> string" where
  "item_text n = take 15 (if is_scalar n then the (yvalue n) else [])"

definition has_value :: "linx_yaml_node \<Rightarrow> bool" where
  "has_value n \<longleftrightarrow> is_scalar n \<longrightarrow> yvalue n \<noteq> None"

lemma engine_keys_clean:
  "list_all clean_elem [Key ''engine'', Key ''ebpf'', Key ''filter_pids'']"
  "list_all clean_elem [Key ''engine'', Key ''ebpf'', Key ''filter_comms'']"
  by code_simp+

lemma item_path_join:
  assumes "i < 2 ^ 31"
  shows "item_path pids_path i = join_path [Key ''engine'', Key ''ebpf'', Key ''filter_pids'', Pos i]"
    "item_path comms_path i = join_path [Key ''engine'', Key ''ebpf'', Key ''filter_comms'', Pos i]"
proof -
  have "length (show_nat i) \<le> Suc 9" using assms by (intro length_show_nat) simp
  then show "item_path pids_path i = join_path [Key ''engine'', Key ''ebpf'', Key ''filter_pids'', Pos i]"
    "item_path comms_path i = join_path [Key ''engine'', Key ''ebpf'', Key ''filter_comms'', Pos i]"
    by (simp_all add: item_path_def pids_path_def comms_path_def)
qed

lemma item_lookup:
  assumes "i < 2 ^ 31" "key = ''filter_pids'' \<and> path = pids_path \<or> key = ''filter_comms'' \<and> path = comms_path"
  shows "linx_yaml_get_node_by_path (Some r) (Some (item_path path i)) =
    Option.bind (lookup_path [Key ''engine'', Key ''ebpf'', Key key] r) (child_at (Pos i))"
    "linx_yaml_get_sequence_length (Some r) (Some path) = int (length (seq_at key r))"
proof -
  have p: "path = join_path [Key ''engine'', Key ''ebpf'', Key key]"
    "item_path path i = join_path [Key ''engine'', Key ''ebpf'', Key key, Pos i]"
    "list_all clean_elem [Key ''engine'', Key ''ebpf'', Key key]"
    using assms item_path_join [OF assms(1)] engine_keys_clean by (auto simp: pids_path_def comms_path_def)
  have l: "linx_yaml_get_node_by_path (Some r) (Some (join_path es)) = lookup_path es r" if "list_all clean_elem es" for es
    using path_loop_join [OF that] by (simp add: linx_yaml_get_node_by_path_def)
  show "linx_yaml_get_node_by_path (Some r) (Some (item_path path i)) =
    Option.bind (lookup_path [Key ''engine'', Key ''ebpf'', Key key] r) (child_at (Pos i))"
    unfolding p(2) using l [of "[Key ''engine'', Key ''ebpf'', Key key, Pos i]"] p(3) assms(1)
    by (auto split: option.split)
  show "linx_yaml_get_sequence_length (Some r) (Some path) = int (length (seq_at key r))"
    using l [OF p(3)] unfolding p(1) [symmetric]
    by (simp add: linx_yaml_get_sequence_length_def seq_at_def split: option.split)
qed

lemma item_node:
  assumes "key = ''filter_pids'' \<and> path = pids_path \<or> key = ''filter_comms'' \<and> path = comms_path"
    "i < length (seq_at key r)" "length (seq_at key r) < 2 ^ 31"
  shows "linx_yaml_get_node_by_path (Some r) (Some (item_path path i)) = Some (seq_at key r ! i)"
proof -
  have "i < 2 ^ 31" using assms(2,3) by (rule less_trans)
  from item_lookup(1) [OF this assms(1)] assms(2) show ?thesis
    by (auto simp: seq_at_def split: option.splits if_splits)
qed

lemma pids_loop_items:
  assumes "length (seq_at ''filter_pids'' r) < 2 ^ 31" "list_all has_value (seq_at ''filter_pids'' r)"
  shows "pids_loop (Some r) [0..<length (seq_at ''filter_pids'' r)] xs =
    (if length (seq_at ''filter_pids'' r) \<le> length xs
     then Inr (map (\<lambda>n. word_of_int (item_number n)) (seq_at ''filter_pids'' r) @ drop (length (seq_at ''filter_pids'' r)) xs)
     else Inl OutOfBounds)"
proof -
  let ?ch = "seq_at ''filter_pids'' r"
  have "linx_yaml_get_int (Some r) (Some (item_path pids_path i)) 0 = Inr (item_number (?ch ! i))" if "i < length ?ch" for i
  proof -
    have "has_value (?ch ! i)" using assms(2) that by (simp add: list_all_length)
    then show ?thesis using item_node [of "''filter_pids''" pids_path i r] that assms(1)
      by (auto simp: linx_yaml_get_int_def item_number_def has_value_def Let_def split: prod.split)
  qed
  then have "fill (\<lambda>i. map_sum id (\<lambda>v. Some (word_of_int v)) (linx_yaml_get_int (Some r) (Some (item_path pids_path i)) 0)) [0..<length ?ch] xs =
    (if length ?ch \<le> length xs then Inr (map (\<lambda>i. word_of_int (item_number (?ch ! i))) [0..<length ?ch] @ drop (length ?ch) xs) else Inl OutOfBounds)"
    by (intro fill_spec) simp
  moreover have "map (\<lambda>i. word_of_int (item_number (?ch ! i)) :: 32 word) [0..<length ?ch] = map (\<lambda>n. word_of_int (item_number n)) ?ch"
    by (rule nth_equalityI) simp_all
  ultimately show ?thesis unfolding pids_loop_fill by presburger
qed

lemma comms_loop_items:
  assumes "length (seq_at ''filter_comms'' r) < 2 ^ 31" "list_all has_value (seq_at ''filter_comms'' r)"
  shows "comms_loop (Some r) [0..<length (seq_at ''filter_comms'' r)] xs =
    (if length (seq_at ''filter_comms'' r) \<le> length xs
     then Inr (map item_text (seq_at ''filter_comms'' r) @ drop (length (seq_at ''filter_comms'' r)) xs)
     else Inl OutOfBounds)"
proof -
  let ?ch = "seq_at ''filter_comms'' r"
  have "comm_text (linx_yaml_get_string (Some r) (Some (item_path comms_path i)) (Some [])) = item_text (?ch ! i)" if "i < length ?ch" for i
  proof -
    have "has_value (?ch ! i)" using assms(2) that by (simp add: list_all_length)
    then show ?thesis using item_node [of "''filter_comms''" comms_path i r] that assms(1)
      by (auto simp: linx_yaml_get_string_def comm_text_def item_text_def has_value_def LINX_COMM_MAX_SIZE_def)
  qed
  then have "fill (\<lambda>i. Inr (Some (comm_text (linx_yaml_get_string (Some r) (Some (item_path comms_path i)) (Some []))))) [0..<length ?ch] xs =
    (if length ?ch \<le> length xs then Inr (map (\<lambda>i. item_text (?ch ! i)) [0..<length ?ch] @ drop (length ?ch) xs) else Inl OutOfBounds)"
    by (intro fill_spec) simp
  moreover have "map (\<lambda>i. item_text (?ch ! i)) [0..<length ?ch] = map item_text ?ch"
    by (rule nth_equalityI) simp_all
  ultimately show ?thesis unfolding comms_loop_fill by presburger
qed

lemma interest_loop_total:
  assumes "length tab = LINX_SYSCALL_ID_MAX"
  shows "\<exists>ys. interest_loop member [0..<LINX_SYSCALL_ID_MAX] tab = Inr ys \<and> length ys = LINX_SYSCALL_ID_MAX \<and>
    (\<forall>i < LINX_SYSCALL_ID_MAX. \<exists>row. g_linx_event_table (i * 2) = Inr row \<and>
       ys ! i = (case member (evt_name row) of None \<Rightarrow> tab ! i | Some v \<Rightarrow> word_of_int v))"
proof -
  let ?row = "\<lambda>i. projr (g_linx_event_table (i * 2))"
  have row: "g_linx_event_table (i * 2) = Inr (?row i)" if "i < LINX_SYSCALL_ID_MAX" for i
    using that by (auto simp: g_linx_event_table_def LINX_SYSCALL_ID_MAX_def LINX_EVENT_TYPE_MAX_def split: option.split)
  have "\<exists>ys. interest_loop member [0..<LINX_SYSCALL_ID_MAX] tab = Inr ys \<and> length ys = length tab \<and>
    (\<forall>i < length tab. ys ! i = (if i \<in> set [0..<LINX_SYSCALL_ID_MAX]
       then (case map_option word_of_int (member (evt_name (?row i))) of None \<Rightarrow> tab ! i | Some a \<Rightarrow> a) else tab ! i))"
    unfolding interest_loop_fill
  proof (rule fill_total)
    fix i
    assume "i \<in> set [0..<LINX_SYSCALL_ID_MAX]"
    then show "map_sum id (\<lambda>row. map_option word_of_int (member (evt_name row))) (g_linx_event_table (i * 2)) =
        Inr (map_option word_of_int (member (evt_name (?row i))))"
      using row by (metis atLeastLessThan_iff set_upt map_sum.simps(2))
  qed (use assms in auto)
  then obtain ys where ys: "interest_loop member [0..<LINX_SYSCALL_ID_MAX] tab = Inr ys" "length ys = length tab"
    "\<forall>i < length tab. ys ! i = (if i \<in> set [0..<LINX_SYSCALL_ID_MAX]
       then (case map_option word_of_int (member (evt_name (?row i))) of None \<Rightarrow> tab ! i | Some a \<Rightarrow> a) else tab ! i)" by blast
  have "\<exists>row. g_linx_event_table (i * 2) = Inr row \<and>
       ys ! i = (case member (evt_name row) of None \<Rightarrow> tab ! i | Some v \<Rightarrow> word_of_int v)" if "i < LINX_SYSCALL_ID_MAX" for i
    using ys(3) assms that row [OF that] by (intro exI [of _ "?row i"]) (auto split: option.split)
  with ys(1,2) assms show ?thesis by (intro exI [of _ ys]) simp
qed

definition interest_ends :: "interest_world \<Rightarrow> string option \<Rightarrow> bool" where
  "interest_ends w path \<longleftrightarrow> (case Option.bind path (iw_open w) of None \<Rightarrow> True | Some content \<Rightarrow> NUL \<in> set (content @ iw_slack w))"

lemma fill_interest_total:
  assumes "interest_ends w path" "length (interest_syscall_table c) = LINX_SYSCALL_ID_MAX"
  shows "\<exists>rt tab. linx_config_fill_interest_syscall_table w path c = Inr (rt, c\<lparr>interest_syscall_table := tab\<rparr>) \<and>
    length tab = LINX_SYSCALL_ID_MAX"
proof -
  have same: "c = c\<lparr>interest_syscall_table := interest_syscall_table c\<rparr>" by simp
  show ?thesis
  proof (cases "Option.bind path (iw_open w)")
    case None
    then have "linx_config_fill_interest_syscall_table w path c = Inr (- 1, c)"
      by (simp add: linx_config_fill_interest_syscall_table_def)
    with assms(2) same show ?thesis by metis
  next
    case (Some content)
    with assms(1) have nul: "NUL \<in> set (content @ iw_slack w)" by (simp add: interest_ends_def)
    show ?thesis
    proof (cases "iw_fstat w \<and> iw_malloc w \<and> iw_read w \<and> iw_json w (cstr_of (content @ iw_slack w)) \<noteq> None")
      case False
      with Some nul have "linx_config_fill_interest_syscall_table w path c = Inr (- 1, c)"
        by (auto simp: linx_config_fill_interest_syscall_table_def simp del: set_append)
      with assms(2) same show ?thesis by metis
    next
      case True
      then obtain member where "iw_json w (cstr_of (content @ iw_slack w)) = Some member" by blast
      with True Some nul interest_loop_total [OF assms(2), of member] show ?thesis
        by (auto simp: linx_config_fill_interest_syscall_table_def simp del: set_append)
    qed
  qed
qed

text \<open>The configuration that a file describes, up to the interest table.\<close>

definition config_of :: "linx_yaml_node \<Rightarrow> int \<Rightarrow> int \<Rightarrow> string \<Rightarrow> string \<Rightarrow> 8 word list \<Rightarrow> linx_global_config" where
  "config_of r dm df out lvl tab =
    \<lparr>cfg_output = Some out, cfg_log_level = Some lvl, cfg_kind = Some ''ebpf'', drop_mode = (dm \<noteq> 0), drop_failed = (df \<noteq> 0),
     filter_pids = map (\<lambda>n. word_of_int (item_number n)) (seq_at ''filter_pids'' r) @ replicate (64 - length (seq_at ''filter_pids'' r)) 0,
     filter_comms = map item_text (seq_at ''filter_comms'' r) @ replicate (16 - length (seq_at ''filter_comms'' r)) [],
     interest_syscall_table = tab\<rparr>"

lemma fill_ebpf_items:
  assumes "linx_yaml_get_bool (Some r) (Some ''engine.ebpf.drop_mode'') 0 = Inr dm"
    "linx_yaml_get_bool (Some r) (Some ''engine.ebpf.drop_failed'') 0 = Inr df"
    "length (seq_at ''filter_pids'' r) < 2 ^ 31" "list_all has_value (seq_at ''filter_pids'' r)"
    "length (seq_at ''filter_comms'' r) < 2 ^ 31" "list_all has_value (seq_at ''filter_comms'' r)"
    "interest_ends w (linx_yaml_get_string (Some r) (Some ''engine.ebpf.interest_syscall_file'') None)"
  shows "if length (seq_at ''filter_pids'' r) \<le> 64 \<and> length (seq_at ''filter_comms'' r) \<le> 16
    then \<exists>tab. fill_ebpf w (Some r) (zero_config\<lparr>cfg_kind := Some ''ebpf''\<rparr>) =
        Inr (config_of r dm df out lvl tab\<lparr>cfg_output := None, cfg_log_level := None\<rparr>) \<and> length tab = LINX_SYSCALL_ID_MAX
    else fill_ebpf w (Some r) (zero_config\<lparr>cfg_kind := Some ''ebpf''\<rparr>) = Inl OutOfBounds"
proof -
  let ?p = "length (seq_at ''filter_pids'' r)" and ?c = "length (seq_at ''filter_comms'' r)"
  have len: "nat (linx_yaml_get_sequence_length (Some r) (Some pids_path)) = ?p"
    "nat (linx_yaml_get_sequence_length (Some r) (Some comms_path)) = ?c"
    using item_lookup(2) [of 0 "''filter_pids''" pids_path r] item_lookup(2) [of 0 "''filter_comms''" comms_path r] by simp_all
  note loops = pids_loop_items [OF assms(3,4)] comms_loop_items [OF assms(5,6)]
  show ?thesis
  proof (cases "?p \<le> 64 \<and> ?c \<le> 16")
    case False
    then show ?thesis unfolding fill_ebpf_def len
      by (auto simp: assms(1,2) loops zero_config_def LINX_BPF_FILTER_PID_MAX_SIZE_def LINX_BPF_FILTER_COMM_MAX_SIZE_def)
  next
    case True
    let ?z = "config_of r dm df out lvl (replicate LINX_SYSCALL_ID_MAX 0)\<lparr>cfg_output := None, cfg_log_level := None\<rparr>"
    have "length (interest_syscall_table ?z) = LINX_SYSCALL_ID_MAX" by (simp add: config_of_def)
    from fill_interest_total [OF assms(7) this] obtain rt tab where tab: "length tab = LINX_SYSCALL_ID_MAX"
      "linx_config_fill_interest_syscall_table w
        (linx_yaml_get_string (Some r) (Some ''engine.ebpf.interest_syscall_file'') None) ?z = Inr (rt, ?z\<lparr>interest_syscall_table := tab\<rparr>)"
      by blast
    have "fill_ebpf w (Some r) (zero_config\<lparr>cfg_kind := Some ''ebpf''\<rparr>) = Inr (?z\<lparr>interest_syscall_table := tab\<rparr>)"
      unfolding fill_ebpf_def len using True tab(2)
      by (simp add: assms(1,2) loops zero_config_def config_of_def LINX_BPF_FILTER_PID_MAX_SIZE_def LINX_BPF_FILTER_COMM_MAX_SIZE_def)
    with True tab(1) show ?thesis by (auto simp: config_of_def)
  qed
qed


definition demo_config_tree :: linx_yaml_node where
  "demo_config_tree =
    YamlNode None None LINX_YAML_NODE_TYPE_MAPPING
      [YamlNode (Some ''engine'') None LINX_YAML_NODE_TYPE_MAPPING
        [YamlNode (Some ''kind'') (Some ''ebpf'') LINX_YAML_NODE_TYPE_SCALAR [] False,
         YamlNode (Some ''ebpf'') None LINX_YAML_NODE_TYPE_MAPPING
           [YamlNode (Some ''drop_mode'') (Some ''true'') LINX_YAML_NODE_TYPE_SCALAR [] False,
            YamlNode (Some ''filter_pids'') None LINX_YAML_NODE_TYPE_SEQUENCE
              [YamlNode None (Some ''1'') LINX_YAML_NODE_TYPE_SCALAR [] True,
               YamlNode None (Some ''42'') LINX_YAML_NODE_TYPE_SCALAR [] True] False] False] False] False"

definition demo_interest :: interest_world where
  "demo_interest = \<lparr>iw_open = (\<lambda>_. None), iw_fstat = True, iw_malloc = True, iw_read = True, iw_slack = [], iw_json = (\<lambda>_. None)\<rparr>"

lemma demo_config_reads:
  "linx_yaml_get_string (Some demo_config_tree) (Some ''engine.kind'') (Some ''unknown'') = Some ''ebpf''"
  "linx_yaml_get_bool (Some demo_config_tree) (Some ''engine.ebpf.drop_mode'') 0 = Inr 1"
  "linx_yaml_get_bool (Some demo_config_tree) (Some ''engine.ebpf.drop_failed'') 0 = Inr 0"
  "linx_yaml_get_string (Some demo_config_tree) (Some ''engine.ebpf.interest_syscall_file'') None = None"
  "linx_yaml_get_string (Some demo_config_tree) (Some ''log.output'') (Some ''stderr'') = Some ''stderr''"
  "linx_yaml_get_string (Some demo_config_tree) (Some ''log.level'') (Some ''ERROR'') = Some ''ERROR''"
  by code_simp+

lemma demo_config_items:
  "seq_at ''filter_pids'' demo_config_tree =
    [YamlNode None (Some ''1'') LINX_YAML_NODE_TYPE_SCALAR [] True, YamlNode None (Some ''42'') LINX_YAML_NODE_TYPE_SCALAR [] True]"
  "seq_at ''filter_comms'' demo_config_tree = []"
  by code_simp+


end
