(* ===== verification/Apd.thy ===== *)
theory Apd
  imports Event_Rich Rule_Load Config
begin

text \<open>
  The daemon (\<^verbatim>\<open>linx_apd.c\<close>, \<^verbatim>\<open>linx_resource_cleanup.c\<close>): the order in which \<^verbatim>\<open>main\<close> initialises the components and what is
  cleaned up after each outcome, the registration of the tables of the field map, and one turn of the event loop.
\<close>

section \<open>Resource cleanup\<close>

datatype linx_resource_cleanup_type =
    LINX_RESOURCE_CLEANUP_ERROR
  | LINX_RESOURCE_CLEANUP_ARGS
  | LINX_RESOURCE_CLEANUP_CONFIG
  | LINX_RESOURCE_CLEANUP_LOG
  | LINX_RESOURCE_CLEANUP_HASH_MAP
  | LINX_RESOURCE_CLEANUP_PROCESS_CACHE
  | LINX_RESOURCE_CLEANUP_MACHINE_STATUS
  | LINX_RESOURCE_CLEANUP_EVENT_QUEUE
  | LINX_RESOURCE_CLEANUP_EVENT_RICH
  | LINX_RESOURCE_CLEANUP_ALERT
  | LINX_RESOURCE_CLEANUP_RULE_ENGINE
  | LINX_RESOURCE_CLEANUP_ENGINE
  | LINX_RESOURCE_CLEANUP_MAX

text \<open>The components whose \<^verbatim>\<open>_init\<close> and \<^verbatim>\<open>_deinit\<close> (or \<^verbatim>\<open>_load\<close> and \<^verbatim>\<open>_free\<close>) are called.\<close>

datatype component = ARGS | CONFIG | LOG | HASH_MAP | PROCESS_CACHE | MACHINE_STATUS | EVENT_QUEUE | EVENT_RICH | ALERT | RULE_ENGINE | ENGINE

primrec enum_value :: "linx_resource_cleanup_type \<Rightarrow> nat" where
  "enum_value LINX_RESOURCE_CLEANUP_ERROR = 0"
| "enum_value LINX_RESOURCE_CLEANUP_ARGS = 1"
| "enum_value LINX_RESOURCE_CLEANUP_CONFIG = 2"
| "enum_value LINX_RESOURCE_CLEANUP_LOG = 3"
| "enum_value LINX_RESOURCE_CLEANUP_HASH_MAP = 4"
| "enum_value LINX_RESOURCE_CLEANUP_PROCESS_CACHE = 5"
| "enum_value LINX_RESOURCE_CLEANUP_MACHINE_STATUS = 6"
| "enum_value LINX_RESOURCE_CLEANUP_EVENT_QUEUE = 7"
| "enum_value LINX_RESOURCE_CLEANUP_EVENT_RICH = 8"
| "enum_value LINX_RESOURCE_CLEANUP_ALERT = 9"
| "enum_value LINX_RESOURCE_CLEANUP_RULE_ENGINE = 10"
| "enum_value LINX_RESOURCE_CLEANUP_ENGINE = 11"
| "enum_value LINX_RESOURCE_CLEANUP_MAX = 12"

text \<open>The calls of the switch from its entry on; every case falls through.\<close>

function linx_resource_cleanup :: "linx_resource_cleanup_type \<Rightarrow> component list" where
  "linx_resource_cleanup LINX_RESOURCE_CLEANUP_ENGINE = linx_resource_cleanup LINX_RESOURCE_CLEANUP_RULE_ENGINE"
| "linx_resource_cleanup LINX_RESOURCE_CLEANUP_RULE_ENGINE = RULE_ENGINE # linx_resource_cleanup LINX_RESOURCE_CLEANUP_ALERT"
| "linx_resource_cleanup LINX_RESOURCE_CLEANUP_ALERT = ALERT # linx_resource_cleanup LINX_RESOURCE_CLEANUP_EVENT_RICH"
| "linx_resource_cleanup LINX_RESOURCE_CLEANUP_EVENT_RICH = linx_resource_cleanup LINX_RESOURCE_CLEANUP_EVENT_QUEUE"
| "linx_resource_cleanup LINX_RESOURCE_CLEANUP_EVENT_QUEUE = EVENT_QUEUE # linx_resource_cleanup LINX_RESOURCE_CLEANUP_MACHINE_STATUS"
| "linx_resource_cleanup LINX_RESOURCE_CLEANUP_MACHINE_STATUS = MACHINE_STATUS # linx_resource_cleanup LINX_RESOURCE_CLEANUP_PROCESS_CACHE"
| "linx_resource_cleanup LINX_RESOURCE_CLEANUP_PROCESS_CACHE = PROCESS_CACHE # linx_resource_cleanup LINX_RESOURCE_CLEANUP_HASH_MAP"
| "linx_resource_cleanup LINX_RESOURCE_CLEANUP_HASH_MAP = HASH_MAP # linx_resource_cleanup LINX_RESOURCE_CLEANUP_LOG"
| "linx_resource_cleanup LINX_RESOURCE_CLEANUP_LOG = LOG # linx_resource_cleanup LINX_RESOURCE_CLEANUP_CONFIG"
| "linx_resource_cleanup LINX_RESOURCE_CLEANUP_CONFIG = CONFIG # linx_resource_cleanup LINX_RESOURCE_CLEANUP_ARGS"
| "linx_resource_cleanup LINX_RESOURCE_CLEANUP_ARGS = [ARGS]"
| "linx_resource_cleanup LINX_RESOURCE_CLEANUP_ERROR = []"
| "linx_resource_cleanup LINX_RESOURCE_CLEANUP_MAX = []"
  by pat_completeness auto

termination
  by (relation "measure enum_value") simp_all

text \<open>The progress of \<^verbatim>\<open>main\<close>: \<^verbatim>\<open>*type\<close>, the initialisations that returned 0 (last first), and whether control has left for
  \<^verbatim>\<open>out\<close>. Outcomes are an argument, so that every path is covered.\<close>

record progress =
  pg_type :: linx_resource_cleanup_type
  pg_done :: "component list"
  pg_out :: bool

definition init_step :: "bool \<Rightarrow> (component \<Rightarrow> bool) \<Rightarrow> component \<Rightarrow> linx_resource_cleanup_type \<Rightarrow> progress \<Rightarrow> progress" where
  "init_step fatal ok c ty p =
    (if pg_out p then p
     else if ok c then p\<lparr>pg_type := ty, pg_done := c # pg_done p\<rparr>
     else p\<lparr>pg_out := fatal\<rparr>)"

definition check_step :: "bool \<Rightarrow> progress \<Rightarrow> progress" where
  "check_step ok p = (if pg_out p then p else p\<lparr>pg_out := \<not> ok\<rparr>)"

definition main_start :: "(component \<Rightarrow> bool) \<Rightarrow> bool \<Rightarrow> bool \<Rightarrow> progress" where
  "main_start ok argp load =
    (let p = \<lparr>pg_type = LINX_RESOURCE_CLEANUP_ERROR, pg_done = [], pg_out = False\<rparr>;
         p = init_step True ok ARGS LINX_RESOURCE_CLEANUP_ARGS p;
         p = check_step argp p;
         p = init_step True ok CONFIG LINX_RESOURCE_CLEANUP_CONFIG p;
         p = check_step load p;
         p = init_step True ok LOG LINX_RESOURCE_CLEANUP_LOG p;
         p = init_step False ok HASH_MAP LINX_RESOURCE_CLEANUP_HASH_MAP p;
         p = init_step False ok PROCESS_CACHE LINX_RESOURCE_CLEANUP_PROCESS_CACHE p;
         p = init_step False ok MACHINE_STATUS LINX_RESOURCE_CLEANUP_MACHINE_STATUS p;
         p = init_step False ok EVENT_QUEUE LINX_RESOURCE_CLEANUP_EVENT_QUEUE p;
         p = init_step False ok EVENT_RICH LINX_RESOURCE_CLEANUP_EVENT_RICH p;
         p = init_step True ok ALERT LINX_RESOURCE_CLEANUP_ALERT p;
         p = init_step True ok RULE_ENGINE LINX_RESOURCE_CLEANUP_RULE_ENGINE p
     in init_step True ok ENGINE LINX_RESOURCE_CLEANUP_ENGINE p)"

section \<open>Cleanup undoes the start\<close>

text \<open>The components without a call of their own in the switch.\<close>

definition uncleaned :: "component \<Rightarrow> bool" where
  "uncleaned c \<longleftrightarrow> c = ENGINE \<or> c = EVENT_RICH"

text \<open>The distance of a component from the end of \<^verbatim>\<open>main\<close>, and the type stored after it.\<close>

primrec place :: "component \<Rightarrow> nat" where
  "place ENGINE = 0"
| "place RULE_ENGINE = 1"
| "place ALERT = 2"
| "place EVENT_RICH = 3"
| "place EVENT_QUEUE = 4"
| "place MACHINE_STATUS = 5"
| "place PROCESS_CACHE = 6"
| "place HASH_MAP = 7"
| "place LOG = 8"
| "place CONFIG = 9"
| "place ARGS = 10"

primrec type_of :: "component \<Rightarrow> linx_resource_cleanup_type" where
  "type_of ENGINE = LINX_RESOURCE_CLEANUP_ENGINE"
| "type_of RULE_ENGINE = LINX_RESOURCE_CLEANUP_RULE_ENGINE"
| "type_of ALERT = LINX_RESOURCE_CLEANUP_ALERT"
| "type_of EVENT_RICH = LINX_RESOURCE_CLEANUP_EVENT_RICH"
| "type_of EVENT_QUEUE = LINX_RESOURCE_CLEANUP_EVENT_QUEUE"
| "type_of MACHINE_STATUS = LINX_RESOURCE_CLEANUP_MACHINE_STATUS"
| "type_of PROCESS_CACHE = LINX_RESOURCE_CLEANUP_PROCESS_CACHE"
| "type_of HASH_MAP = LINX_RESOURCE_CLEANUP_HASH_MAP"
| "type_of LOG = LINX_RESOURCE_CLEANUP_LOG"
| "type_of CONFIG = LINX_RESOURCE_CLEANUP_CONFIG"
| "type_of ARGS = LINX_RESOURCE_CLEANUP_ARGS"

definition start_inv :: "nat \<Rightarrow> progress \<Rightarrow> bool" where
  "start_inv n p \<longleftrightarrow> sorted_wrt (<) (map place (pg_done p)) \<and> (\<forall>c \<in> set (pg_done p). n \<le> place c) \<and>
     pg_type p = (case pg_done p of [] \<Rightarrow> LINX_RESOURCE_CLEANUP_ERROR | c # _ \<Rightarrow> type_of c)"

lemma init_step_inv: "start_inv n p \<Longrightarrow> place c < n \<Longrightarrow> start_inv (place c) (init_step fatal ok c (type_of c) p)"
  by (auto simp: start_inv_def init_step_def)

lemma check_step_inv: "start_inv n p \<Longrightarrow> start_inv n (check_step ok p)"
  by (simp add: start_inv_def check_step_def)

lemma inj_place: "inj place"
proof
  fix c d
  show "place c = place d \<Longrightarrow> c = d" by (cases c; cases d) simp_all
qed

lemma cleanup_places:
  "sorted_wrt (<) (map place (linx_resource_cleanup (type_of c)))"
  "d \<in> set (linx_resource_cleanup (type_of c)) \<longleftrightarrow> \<not> uncleaned d \<and> place c \<le> place d"
  by (cases c; simp) (cases c; cases d; simp add: uncleaned_def)

lemma sorted_filter_eq:
  fixes f :: "'a \<Rightarrow> nat"
  assumes "sorted_wrt (<) (map f xs)" "sorted_wrt (<) (map f ys)" "set xs = set ys" "inj f"
  shows "xs = ys"
proof -
  have "map f xs = map f ys" using strict_sorted_equal [of "map f ys" "map f xs"] assms by simp
  then show ?thesis using assms(4) by (simp add: inj_map_eq_map)
qed

lemma start_inv_cleanup:
  assumes "start_inv n p"
  shows "filter (\<lambda>c. c \<in> set (pg_done p)) (linx_resource_cleanup (pg_type p)) = filter (\<lambda>c. \<not> uncleaned c) (pg_done p)"
proof (cases "pg_done p")
  case (Cons c cs)
  let ?l = "linx_resource_cleanup (pg_type p)"
  have ty: "?l = linx_resource_cleanup (type_of c)" using assms Cons by (simp add: start_inv_def)
  have "\<forall>d \<in> set (pg_done p). place c \<le> place d" using assms Cons by (auto simp: start_inv_def)
  then have "set (filter (\<lambda>c. c \<in> set (pg_done p)) ?l) = set (filter (\<lambda>c. \<not> uncleaned c) (pg_done p))"
    using ty cleanup_places(2) by auto
  moreover have "sorted_wrt (<) (map place (filter (\<lambda>c. c \<in> set (pg_done p)) ?l))"
    using cleanup_places(1) [of c] ty by (simp add: sorted_wrt_map sorted_wrt_filter)
  moreover have "sorted_wrt (<) (map place (filter (\<lambda>c. \<not> uncleaned c) (pg_done p)))"
    using assms by (simp add: start_inv_def sorted_wrt_map sorted_wrt_filter)
  ultimately show ?thesis using sorted_filter_eq [OF _ _ _ inj_place] by blast
qed simp

lemma main_start_inv: "\<exists>n. start_inv n (main_start ok argp load)"
proof -
  have "start_inv 11 \<lparr>pg_type = LINX_RESOURCE_CLEANUP_ERROR, pg_done = [], pg_out = False\<rparr>" by (simp add: start_inv_def)
  note p0 = init_step_inv [OF this, of ARGS True ok, simplified]
  note p1 = init_step_inv [OF check_step_inv [OF p0, of argp], of CONFIG True ok, simplified]
  note p2 = init_step_inv [OF check_step_inv [OF p1, of load], of LOG True ok, simplified]
  note p3 = init_step_inv [OF p2, of HASH_MAP False ok, simplified]
  note p4 = init_step_inv [OF p3, of PROCESS_CACHE False ok, simplified]
  note p5 = init_step_inv [OF p4, of MACHINE_STATUS False ok, simplified]
  note p6 = init_step_inv [OF p5, of EVENT_QUEUE False ok, simplified]
  note p7 = init_step_inv [OF p6, of EVENT_RICH False ok, simplified]
  note p8 = init_step_inv [OF p7, of ALERT True ok, simplified]
  note p9 = init_step_inv [OF p8, of RULE_ENGINE True ok, simplified]
  note p10 = init_step_inv [OF p9, of ENGINE True ok, simplified]
  then show ?thesis unfolding main_start_def Let_def by blast
qed


section \<open>The tables of the field map\<close>

text \<open>The platform of the part of \<^verbatim>\<open>main\<close> that sets up the field map: from \<^verbatim>\<open>linx_hash_map_init\<close> to \<^verbatim>\<open>linx_event_rich_init\<close>. A
  failure is logged and the next component is tried.\<close>

record start_world =
  sw_map :: bool
  sw_size :: "64 word"
  sw_capacity :: "64 word"
  sw_cache :: cache_platform
  sw_user :: bind_alloc
  sw_group :: bind_alloc
  sw_evt :: bind_alloc
  sw_machine :: machine

definition start_fields :: "start_world \<Rightarrow> (cache_state \<times> (user_t \<times> group_t) \<times> hash_state) res" where
  "start_fields w =
    (let (ret, hs) = linx_hash_map_init (sw_map w) (sw_size w) (sw_capacity w) hash_map_start
     in res_bind (linx_process_cache_init (sw_cache w) cache_start hs) (\<lambda>(ret, cs, hs).
        res_bind (linx_machine_status_init (sw_user w) (sw_group w) (sw_machine w) (zero_user, zero_group) hs) (\<lambda>(ret, ug, hs).
        res_bind (linx_event_rich_init (sw_evt w) hs) (\<lambda>(ret, hs).
          Inr (cs, ug, hs)))))"

definition all_binds :: bind_alloc where
  "all_binds = \<lparr>ba_table = True, ba_name = True, ba_field = (\<lambda>_. True)\<rparr>"

text \<open>A platform on which nothing fails.\<close>

definition sound_start :: "start_world \<Rightarrow> bool" where
  "sound_start w \<longleftrightarrow> sw_map w \<and> sw_user w = all_binds \<and> sw_group w = all_binds \<and> sw_evt w = all_binds \<and>
     sw_cache w = \<lparr>cp_table = True, cp_name = True, cp_field = (\<lambda>_. True), cp_cache = True, cp_lock = True, cp_pool = True,
       cp_monitor = True, cp_cleaner = True\<rparr> \<and>
     os_group (sw_machine w) (os_gid (sw_machine w)) \<noteq> None"

text \<open>The field map before the first event: four tables, none of them with a base.\<close>

definition fields_ready :: "hash_state \<Rightarrow> bool" where
  "fields_ready hs \<longleftrightarrow> (\<forall>tn. has_table tn hs \<longleftrightarrow> tn \<in> {''proc'', ''user'', ''group'', ''evt''}) \<and>
     (\<forall>tn. linx_hash_map_get_table_base (Some tn) hs = 0) \<and>
     (\<forall>mp \<in> set evt_mappings. lookup_field ''evt'' (the (fm_field_name mp)) hs = Some (mapping_info mp))"

lemma has_table_map: "has_table tn hs \<Longrightarrow> \<exists>m. s_linx_hash_map hs = Some m"
  by (auto simp: has_table_def)

lemma mappings_distinct:
  "list_all (\<lambda>mp. fm_field_name mp \<noteq> None) proc_mappings" "distinct (map (the \<circ> fm_field_name) proc_mappings)"
  "list_all (\<lambda>mp. fm_field_name mp \<noteq> None) user_mappings" "distinct (map (the \<circ> fm_field_name) user_mappings)"
  "list_all (\<lambda>mp. fm_field_name mp \<noteq> None) group_mappings" "distinct (map (the \<circ> fm_field_name) group_mappings)"
  "list_all (\<lambda>mp. fm_field_name mp \<noteq> None) evt_mappings" "distinct (map (the \<circ> fm_field_name) evt_mappings)"
  by (simp_all add: proc_mappings_def user_mappings_def group_mappings_def evt_mappings_def)

lemma bind_batch_registers:
  assumes "s_linx_hash_map hs = Some m" "\<not> has_table tn hs"
    and "list_all (\<lambda>mp. fm_field_name mp \<noteq> None) mps" "distinct (map (the \<circ> fm_field_name) mps)"
  obtains hs' where "bind_batch all_binds tn mps hs = Inr (0, hs')" "registers tn mps hs hs'"
  using batch_registers [OF assms] by (auto simp: bind_batch_def all_binds_def)

lemma start_fields_ready:
  assumes "sound_start w"
  shows "\<exists>cs ug hs. start_fields w = Inr (cs, ug, hs) \<and> fields_ready hs \<and>
    g_process_cache cs = Some \<lparr>pc_table = [], pc_running = True, pc_tasks = []\<rparr>"
proof -
  define h0 where "h0 = with_map \<lparr>tables = [], hm_size = sw_size w, hm_capacity = sw_capacity w\<rparr> 1 hash_map_start"
  have init: "linx_hash_map_init True (sw_size w) (sw_capacity w) hash_map_start = (0, h0)"
    by (simp add: linx_hash_map_init_def hash_map_start_def h0_def)
  have e: "\<not> has_table tn h0" "linx_hash_map_get_table_base (Some tn) h0 = 0" for tn
    by (simp_all add: h0_def has_table_def linx_hash_map_get_table_base_def)
  have m0: "s_linx_hash_map h0 = Some \<lparr>tables = [], hm_size = sw_size w, hm_capacity = sw_capacity w\<rparr>" by (simp add: h0_def with_map_def)
  obtain h1 where h1: "bind_batch all_binds ''proc'' proc_mappings h0 = Inr (0, h1)" "registers ''proc'' proc_mappings h0 h1"
    using bind_batch_registers [OF m0 e(1) mappings_distinct(1,2)] .
  then have "has_table ''proc'' h1" "\<not> has_table ''user'' h1" using e by (simp_all add: registers_def)
  then obtain h2 where h2: "bind_batch all_binds ''user'' user_mappings h1 = Inr (0, h2)" "registers ''user'' user_mappings h1 h2"
    using has_table_map bind_batch_registers [OF _ _ mappings_distinct(3,4)] by metis
  then have "has_table ''user'' h2" "\<not> has_table ''group'' h2" using e h1 by (simp_all add: registers_def)
  then obtain h3 where h3: "bind_batch all_binds ''group'' group_mappings h2 = Inr (0, h3)" "registers ''group'' group_mappings h2 h3"
    using has_table_map bind_batch_registers [OF _ _ mappings_distinct(5,6)] by metis
  then have "has_table ''group'' h3" "\<not> has_table ''evt'' h3" using e h1 h2 by (simp_all add: registers_def)
  then obtain h4 where h4: "bind_batch all_binds ''evt'' evt_mappings h3 = Inr (0, h4)" "registers ''evt'' evt_mappings h3 h4"
    using has_table_map bind_batch_registers [OF _ _ mappings_distinct(7,8)] by metis
  have "fields_ready h4" unfolding fields_ready_def
    using h1(2) h2(2) h3(2) h4(2) e by (auto simp: registers_def)
  moreover have "linx_process_cache_bind_field (sw_cache w) h0 = Inr (0, h1)"
    using assms h1(1) by (simp add: sound_start_def linx_process_cache_bind_field_def bind_batch_def all_binds_def)
  ultimately show ?thesis
    using assms init h2(1) h3(1) h4(1)
    by (auto simp: sound_start_def start_fields_def linx_process_cache_init_def cache_start_def linx_machine_status_init_def
        linx_machine_status_bind_field_def bind_user_field_def bind_group_field_def get_current_group_def
        linx_event_rich_init_def linx_event_rich_bind_field_def bind_field_evt_def)
qed

text \<open>
  C13: no rule sees a process, a user or a group. After a start in which nothing fails, and after any events, every path of the
  tables \<^verbatim>\<open>proc\<close>, \<^verbatim>\<open>user\<close> and \<^verbatim>\<open>group\<close> resolves to NULL and prints as the empty text: \<^verbatim>\<open>update_field_base\<close> gives up at the table
  \<^verbatim>\<open>fd\<close>, whose registration is commented out, before it reaches their bases, and its return code is ignored.
\<close>

theorem process_fields_never_resolve:
  assumes "sound_start w" "start_fields w = Inr (cs, ug, hs)" "rich_run evs (zero_evt, cs, hs) = Inr (e', cs', hs')"
    and "fr_table_name fld = Some tn" "tn \<noteq> ''evt''"
  shows "matcher_get_value_ptr view hs' fld = Inr (0, None) \<and> field_text view hs' fld = Inr []"
proof -
  have r: "fields_ready hs" using start_fields_ready [OF assms(1)] assms(2) by auto
  then have "has_table ''evt'' hs" "\<not> has_table ''fd'' hs" by (simp_all add: fields_ready_def)
  from rich_run_without_fd [OF assms(3) this] assms(5) have "linx_hash_map_get_table_base (Some tn) hs' = 0"
    using r by (simp add: fields_ready_def)
  with assms(4) have "linx_hash_map_get_value_ptr fld num hs' = Inr (0, None)" for num
    by (simp add: linx_hash_map_get_value_ptr_def)
  then show ?thesis by (simp add: matcher_get_value_ptr_def field_text_def)
qed

section \<open>A turn of the event loop\<close>

text \<open>One event that \<^verbatim>\<open>linx_engine_next\<close> handed out: the enrichment, the queue (whose \<^verbatim>\<open>push\<close> does nothing and returns 0), the rules.
  Return codes are ignored. \<open>view\<close> gives the memory that holds the record \<^verbatim>\<open>evt\<close>.\<close>

definition linx_event_loop ::
  "rich_world \<Rightarrow> byte_heap \<Rightarrow> linx_event \<Rightarrow> (event_t \<Rightarrow> event_view) \<Rightarrow> char list \<Rightarrow> linx_rule_set option \<Rightarrow>
   (event_t \<times> cache_state \<times> hash_state) \<times> alert_state \<Rightarrow> ((event_t \<times> cache_state \<times> hash_state) \<times> alert_state) res" where
  "linx_event_loop w h ev view buf rs s =
    (let (st, al) = s
     in res_bind (linx_event_rich w h ev st) (\<lambda>(ret, e, cs, hs).
          map_sum id (\<lambda>(matched, al). ((e, cs, hs), al))
            (linx_rule_set_match_rule (linx_alert_send_async (view e) hs buf True True True True) (view e) hs rs al)))"

text \<open>The memory at \<open>b\<close> holds the record: the layout that \<^verbatim>\<open>bind_field_evt\<close> registers.\<close>

definition evt_in_memory :: "ptr \<Rightarrow> byte_heap \<Rightarrow> event_t \<Rightarrow> bool" where
  "evt_in_memory b h e \<longleftrightarrow>
     read_u64 h b = Inr (word_of_nat (e_num e)) \<and> read_cstr h (b + 8) = Inr (e_time e) \<and>
     res_bind (read_u64 h (b + 72)) (read_cstr h) = Inr (e_type e) \<and>
     read_cstr h (b + 600) = Inr (e_res e) \<and>
     read_bytes 1 h (b + 624) = Inr [if e_failed e then 1 else 0] \<and> read_cstr h (b + 625) = Inr (e_dir e)"

definition evt_text :: "event_t \<Rightarrow> string \<Rightarrow> string" where
  "evt_text e f =
    (if f = ''evt.num'' then show_int (int (e_num e)) else if f = ''evt.time'' then e_time e
     else if f = ''evt.type'' then e_type e else if f = ''evt.res'' then e_res e
     else if f = ''evt.failed'' then (if e_failed e then ''true'' else ''false'')
     else if f = ''evt.dir'' then e_dir e else [])"

definition text_fields :: "string list" where
  "text_fields = [''evt.time'', ''evt.type'', ''evt.res'', ''evt.dir'']"

definition evt_env :: "event_t \<Rightarrow> event_env" where
  "evt_env e = \<lparr>env_num = (\<lambda>f. int (e_num e)), env_text = evt_text e, env_chars = (\<lambda>f. f \<in> set text_fields)\<rparr>"

text \<open>The fields that hold the value of their type; \<^verbatim>\<open>evt.args\<close> and \<^verbatim>\<open>evt.rawres\<close> are registered as text and are not, and the
  pointers of \<^verbatim>\<open>evt.arg\<close> need an argument.\<close>

definition plain_fields :: "string list" where
  "plain_fields = text_fields @ [''evt.num'', ''evt.failed'']"

definition field_type_of :: "string \<Rightarrow> linx_field_type" where
  "field_type_of f =
    (if f = ''evt.num'' then LINX_FIELD_TYPE_UINT64 else if f = ''evt.type'' then LINX_FIELD_TYPE_CHARBUF_ARRAY
     else if f = ''evt.failed'' then LINX_FIELD_TYPE_BOOL else LINX_FIELD_TYPE_CHARBUF)"

definition field_offset_of :: "string \<Rightarrow> 64 word" where
  "field_offset_of f =
    (if f = ''evt.num'' then 0 else if f = ''evt.time'' then 8 else if f = ''evt.type'' then 72
     else if f = ''evt.res'' then 600 else if f = ''evt.failed'' then 624 else 625)"

lemma plain_fields_cases:
  assumes "f \<in> set plain_fields"
  obtains "f = ''evt.time''" | "f = ''evt.type''" | "f = ''evt.res''" | "f = ''evt.dir''" | "f = ''evt.num''" | "f = ''evt.failed''"
proof -
  have "f = ''evt.time'' \<or> f = ''evt.type'' \<or> f = ''evt.res'' \<or> f = ''evt.dir'' \<or> f = ''evt.num'' \<or> f = ''evt.failed''"
    using assms by (simp only: plain_fields_def text_fields_def append.simps list.set insert_iff empty_iff simp_thms)
  then show thesis by (elim disjE) (erule that)+
qed

lemma resolve_plain:
  assumes "fields_ready hs" "f \<in> set plain_fields"
  shows "fr_found (resolve hs f) \<and> fr_table_name (resolve hs f) = Some ''evt'' \<and> fr_arg (resolve hs f) = None \<and>
    fr_type (resolve hs f) = field_type_of f \<and> fr_offset (resolve hs f) = field_offset_of f \<and>
    Some f = map_option (\<lambda>k. ''evt.'' @ k) (fr_field_name (resolve hs f))"
proof -
  have l: "lookup_field ''evt'' (the (fm_field_name mp)) hs = Some (mapping_info mp)" if "mp \<in> set evt_mappings" for mp
    using assms(1) that by (simp add: fields_ready_def)
  have res: "resolve hs (''evt'' @ ''.'' @ k) = (field_answer ''evt'' (mapping_info mp))\<lparr>fr_arg := None, fr_event_type := True\<rparr>"
    if "mp \<in> set evt_mappings" "fm_field_name mp = Some k" "k \<noteq> []" "CHR ''.'' \<notin> set k" for mp k
    using get_field_by_path_lookup [of "''evt''" k hs "mapping_info mp" True] l [OF that(1)] that(2-4)
    by (simp add: resolve_def)
  from assms(2) show ?thesis
  proof (cases rule: plain_fields_cases)
    case 1 then show ?thesis using res [of "evt_mappings ! 1" "''time''"]
      by (simp add: evt_mappings_def field_answer_def empty_result_def field_type_of_def field_offset_of_def)
  next
    case 2 then show ?thesis using res [of "evt_mappings ! 2" "''type''"]
      by (simp add: evt_mappings_def field_answer_def empty_result_def field_type_of_def field_offset_of_def)
  next
    case 3 then show ?thesis using res [of "evt_mappings ! 6" "''res''"]
      by (simp add: evt_mappings_def field_answer_def empty_result_def field_type_of_def field_offset_of_def)
  next
    case 4 then show ?thesis using res [of "evt_mappings ! 9" "''dir''"]
      by (simp add: evt_mappings_def field_answer_def empty_result_def field_type_of_def field_offset_of_def)
  next
    case 5 then show ?thesis using res [of "evt_mappings ! 0" "''num''"]
      by (simp add: evt_mappings_def field_answer_def empty_result_def field_type_of_def field_offset_of_def)
  next
    case 6 then show ?thesis using res [of "evt_mappings ! 8" "''failed''"]
      by (simp add: evt_mappings_def field_answer_def empty_result_def field_type_of_def field_offset_of_def)
  qed
qed

lemma read_nonnull:
  "read_bytes n h p = Inr bs \<Longrightarrow> p \<noteq> 0" "read_cstr h p = Inr s \<Longrightarrow> p \<noteq> 0" "read_u64 h p = Inr v \<Longrightarrow> p \<noteq> 0"
  by (auto simp: read_bytes_def read_cstr_def read_u64_def mem_at_def)

text \<open>Reading a plain field of an event whose record is in memory gives the value of the record.\<close>

lemma plain_field_value:
  assumes "fields_ready hs0" "f \<in> set plain_fields" "linx_hash_map_get_table_base (Some ''evt'') hs = b" "b \<noteq> 0"
    and "evt_in_memory b (ev_heap view) e" "e_num e < 2 ^ 63"
  shows "\<exists>p. matcher_get_value_ptr view hs (resolve hs0 f) = Inr (p, Some (field_type_of f)) \<and> p \<noteq> 0 \<and>
    field_text view hs (resolve hs0 f) = Inr (evt_text e f) \<and>
    (f = ''evt.num'' \<longrightarrow> (\<exists>v. read_u64 (ev_heap view) p = Inr v \<and> sint v = int (e_num e)))"
proof -
  note r = resolve_plain [OF assms(1,2)]
  let ?p = "b + field_offset_of f"
  have ptr: "linx_hash_map_get_value_ptr (resolve hs0 f) (ev_num view) hs = Inr (?p, Some (field_type_of f))"
    using r assms(3,4) by (simp add: linx_hash_map_get_value_ptr_def)
  have nst: "field_type_of f \<noteq> LINX_FIELD_TYPE_STRUCT" by (simp add: field_type_of_def)
  have num: "read_u64 (ev_heap view) b = Inr (word_of_nat (e_num e))" using assms(5) by (simp add: evt_in_memory_def)
  have val: "?p \<noteq> 0 \<and> render_value (ev_heap view) (ev_float view) (ev_double view) (field_type_of f) ?p = Inr (evt_text e f)"
  proof -
    obtain bs where bs: "read_bytes 8 (ev_heap view) b = Inr bs" "word_of_int (le_val bs) = (word_of_nat (e_num e) :: 64 word)"
      using num by (auto simp: read_u64_def)
    have "length bs = 8" using bs(1) by (auto simp: read_bytes_def split: if_splits)
    then have "uint (word_of_int (le_val bs) :: 64 word) = le_val bs" using le_val_bounds [of bs] by (simp add: uint_word_of_int)
    moreover have "uint (word_of_nat (e_num e) :: 64 word) = int (e_num e)"
      using assms(6) by (simp add: unsigned_of_nat take_bit_nat_eq_self)
    ultimately have v: "le_val bs = int (e_num e)" using bs(2) by simp
    note m = assms(5) [unfolded evt_in_memory_def]
    have t: "b + 72 \<noteq> 0" using m by (cases "read_u64 (ev_heap view) (b + 72)") (auto dest: read_nonnull)
    have nz: "b + 8 \<noteq> 0" "b + 600 \<noteq> 0" "b + 625 \<noteq> 0" using m read_nonnull(2) by blast+
    have nf: "b + 624 \<noteq> 0" using m read_nonnull(1) by blast
    from assms(2) show ?thesis
      by (cases rule: plain_fields_cases)
        (use m t nz nf v bs(1) assms(4) in \<open>simp_all add: field_offset_of_def field_type_of_def render_value_def evt_text_def
           del: res_bind_Inr_iff\<close>)
  qed
  have "sint (word_of_nat (e_num e) :: 64 word) = int (e_num e)"
    using assms(6) by (simp add: signed_of_nat signed_take_bit_int_eq_self)
  then show ?thesis using ptr nst val num r
    by (auto simp: matcher_get_value_ptr_def field_text_def field_offset_of_def)
qed

lemma show_int_fits: "n < 2 ^ 63 \<Longrightarrow> show_int (int n) \<noteq> [] \<and> length (show_int (int n)) < 255 \<and> NUL \<notin> set (show_int (int n))"
  using show_nat_digits [of n] length_show_nat [of n 18] by (auto simp: show_int_def list_all_iff is_digit_def NUL_def)

lemma event_rich_type:
  assumes "linx_event_rich w h ev (e, cs, hs) = Inr (ret, e', cs', hs')"
  shows "e_num e' = le_type ev \<and> le_type ev < 906"
proof -
  obtain row e1 e2 cs1 where r: "g_linx_event_table (le_type ev) = Inr row" "rich_event_clean ev e = Inr e1"
    "args_loop w h ev row (slot_addr ev 0) [0..<nparams row] (e1\<lparr>e_args := slot_addr ev 0\<rparr>) cs = Inr (e2, cs1)"
    "e' = event_heading w ev row e2"
    using event_rich_args [OF assms] .
  then show ?thesis by (auto simp: event_heading_def g_linx_event_table_def LINX_EVENT_TYPE_MAX_def split: if_splits)
qed

text \<open>After an event, its record in memory provides the plain fields to the rules, whatever came before.\<close>

lemma event_provides_fields:
  assumes "fields_ready hs0" "fields_ready hs1" "rich_run evs (zero_evt, cs0, hs1) = Inr (e, cs, hs)"
    and "linx_event_rich w h ev (e, cs, hs) = Inr (ret, e', cs', hs')" "rw_evt_addr w \<noteq> 0"
    and "evt_in_memory (rw_evt_addr w) (ev_heap view) e'"
  shows "provides_num view hs0 hs' (evt_env e') ''evt.num''"
    and "f \<in> set plain_fields \<Longrightarrow> provides_text view hs0 hs' (evt_env e') f"
    and "f \<in> set plain_fields \<Longrightarrow> field_text view hs' (resolve hs0 f) = Inr (evt_text e' f)"
proof -
  have t0: "has_table ''evt'' hs1" "\<not> has_table ''fd'' hs1" using assms(2) by (simp_all add: fields_ready_def)
  have "\<forall>tn. has_table tn hs = has_table tn hs1" using rich_run_without_fd [OF assms(3) t0] by blast
  then have t1: "has_table ''evt'' hs" "\<not> has_table ''fd'' hs" using t0 by simp_all
  obtain pid cs1 where "update_field_base w pid cs1 hs = Inr (ret, cs', hs')" using event_rich_base [OF assms(4)] .
  from update_field_base_without_fd [OF this t1] have b: "linx_hash_map_get_table_base (Some ''evt'') hs' = rw_evt_addr w" by simp
  have n: "e_num e' < 2 ^ 63" using event_rich_type [OF assms(4)] by simp
  note v = plain_field_value [OF assms(1) _ b assms(5,6) n]
  have "''evt.num'' \<in> set plain_fields" by (simp add: plain_fields_def)
  from v [OF this] show "provides_num view hs0 hs' (evt_env e') ''evt.num''" by (auto simp: provides_num_def evt_env_def)
  assume f: "f \<in> set plain_fields"
  from v [OF f] show "field_text view hs' (resolve hs0 f) = Inr (evt_text e' f)" by blast
  have c: "(f \<in> set text_fields) = charbuf_type (field_type_of f)"
    "charbuf_type (field_type_of f) \<or> evt_text e' f \<noteq> [] \<and> length (evt_text e' f) < 255 \<and> NUL \<notin> set (evt_text e' f)"
    using f by (cases rule: plain_fields_cases; simp add: text_fields_def charbuf_type_def field_type_of_def evt_text_def NUL_def
        show_int_fits [OF n, unfolded NUL_def])+
  from v [OF f] c show "provides_text view hs0 hs' (evt_env e') f" by (auto simp: provides_text_def evt_env_def)
qed

lemma read_cstr_text: "read_cstr h p = Inr s \<Longrightarrow> NUL \<notin> set s"
proof
  assume r: "read_cstr h p = Inr s" and n: "NUL \<in> set s"
  obtain bs where "s = map byte_char (takeWhile (\<lambda>b. b \<noteq> 0) bs)" using r by (auto simp: read_cstr_def split: if_splits)
  with n obtain b where b: "b \<in> set (takeWhile (\<lambda>b. b \<noteq> 0) bs)" "byte_char b = NUL" by auto
  have "unat b < 256" using unsigned_less [of b, where 'a = nat] by simp
  then have "unat b = of_char (byte_char b)" by (simp add: byte_char_def)
  also have "\<dots> = 0" using b(2) by (simp add: NUL_def)
  finally have "b = 0" by (simp add: unat_eq_zero)
  with b(1) show False by (auto dest: set_takeWhileD)
qed

lemma event_texts_fit:
  assumes "linx_event_rich w h ev (e, cs, hs) = Inr (ret, e', cs', hs')" "evt_in_memory b hp e'" "f \<in> set plain_fields"
  shows "length (evt_text e' f) \<le> 255 \<and> NUL \<notin> set (evt_text e' f)"
proof -
  obtain row e1 e2 cs1 where r: "g_linx_event_table (le_type ev) = Inr row" "rich_event_clean ev e = Inr e1"
    "args_loop w h ev row (slot_addr ev 0) [0..<nparams row] (e1\<lparr>e_args := slot_addr ev 0\<rparr>) cs = Inr (e2, cs1)"
    "e' = event_heading w ev row e2"
    using event_rich_args [OF assms(1)] .
  have nm: "length (evt_name row) < 32" using g_linx_event_table_row_ok [OF r(1)] by (simp add: row_ok_def)
  have tm: "length (event_time w ns) \<le> 64" for ns by (auto simp: event_time_def Let_def)
  have l: "length (e_time e') \<le> 255" "length (e_type e') \<le> 255" "length (e_res e') \<le> 255" "length (e_dir e') \<le> 255"
    using r(4) nm order_trans [OF tm [of "le_time ev"], of 255] by (simp_all add: event_heading_def)
  note m = assms(2) [unfolded evt_in_memory_def]
  have n: "NUL \<notin> set (e_time e')" "NUL \<notin> set (e_res e')" "NUL \<notin> set (e_dir e')" using m read_cstr_text by blast+
  have ty: "NUL \<notin> set (e_type e')" using m read_cstr_text by (metis res_bind_Inr_iff)
  have num: "length (show_int (int (e_num e'))) \<le> 255 \<and> NUL \<notin> set (show_int (int (e_num e')))"
    using event_rich_type [OF assms(1)] show_int_fits [of "e_num e'"] by simp
  from assms(3) show ?thesis
    by (cases rule: plain_fields_cases) (use l n ty num in \<open>simp_all add: evt_text_def NUL_def\<close>)
qed

lemma fields_ready_cong: "s_linx_hash_map hs = s_linx_hash_map hs' \<Longrightarrow> fields_ready hs = fields_ready hs'"
  by (simp add: fields_ready_def has_table_def linx_hash_map_get_table_base_def lookup_field_def)

section \<open>A start and an event\<close>

definition demo_start :: start_world where
  "demo_start = \<lparr>sw_map = True, sw_size = 0, sw_capacity = 0,
     sw_cache = \<lparr>cp_table = True, cp_name = True, cp_field = (\<lambda>_. True), cp_cache = True, cp_lock = True, cp_pool = True,
       cp_monitor = True, cp_cleaner = True\<rparr>,
     sw_user = all_binds, sw_group = all_binds, sw_evt = all_binds,
     sw_machine = \<lparr>os_uid = 0, os_gid = 0, os_loginuid = None, os_passwd = (\<lambda>_. None),
       os_group = (\<lambda>g. Some \<lparr>gr_gid = g, gr_name = ''root''\<rparr>)\<rparr>\<rparr>"

lemma demo_start_sound: "sound_start demo_start"
  by (simp add: sound_start_def demo_start_def)

lemma demo_started:
  obtains cs ug hs where "start_fields demo_start = Inr (cs, ug, hs)" "fields_ready hs" "table_of cs = []"
  using start_fields_ready [OF demo_start_sound] by (auto simp: table_of_def)

theorem process_fields_never_resolve_witness:
  "\<exists>cs ug hs e' cs' hs'. start_fields demo_start = Inr (cs, ug, hs) \<and>
    rich_run [(demo_world, [], demo_openat)] (zero_evt, cs, hs) = Inr (e', cs', hs') \<and> e_type e' = ''openat'' \<and>
    matcher_get_value_ptr demo_event hs' (empty_result\<lparr>fr_found := True, fr_table_name := Some ''proc''\<rparr>) = Inr (0, None)"
proof -
  obtain cs ug hs where s: "start_fields demo_start = Inr (cs, ug, hs)" "table_of cs = []" using demo_started by metis
  from demo_openat_rich [OF s(2), of "[]" zero_evt hs] obtain ret e' hs' where
    "linx_event_rich demo_world [] demo_openat (zero_evt, cs, hs) = Inr (ret, e', cs, hs')" "e_type e' = ''openat''" by blast
  then have r: "rich_run [(demo_world, [], demo_openat)] (zero_evt, cs, hs) = Inr (e', cs, hs')" "e_type e' = ''openat''" by simp_all
  have "matcher_get_value_ptr demo_event hs' (empty_result\<lparr>fr_found := True, fr_table_name := Some ''proc''\<rparr>) = Inr (0, None)"
    using process_fields_never_resolve [OF demo_start_sound s(1) r(1),
        of "empty_result\<lparr>fr_found := True, fr_table_name := Some ''proc''\<rparr>" "''proc''" demo_event] by simp
  with s(1) r show ?thesis by blast
qed

definition demo_mem :: byte_heap where
  "demo_mem =
    [(4096, bytes_le 8 515 @ cstr_bytes ''t.000000005'' @ replicate 52 0 @ bytes_le 8 8192 @ replicate 520 0 @
       cstr_bytes ''SUCCESS'' @ replicate 16 0 @ [0] @ cstr_bytes ''<''),
     (8192, cstr_bytes ''openat'')]"

lemma demo_mem_reads:
  "read_u64 demo_mem 4096 = Inr 515" "read_cstr demo_mem (4096 + 8) = Inr ''t.000000005''"
  "res_bind (read_u64 demo_mem (4096 + 72)) (read_cstr demo_mem) = Inr ''openat''"
  "read_cstr demo_mem (4096 + 600) = Inr ''SUCCESS''" "read_bytes 1 demo_mem (4096 + 624) = Inr [0]"
  "read_cstr demo_mem (4096 + 625) = Inr ''<''"
  by code_simp+

end
