(* ===== verification/Probe_Ring.thy ===== *)
theory Probe_Ring
  imports Event_Rich
begin

text \<open>
  The event buffer of the probe (\<^verbatim>\<open>kernel/ebpf/include/ringbuf_func.h\<close>, \<^verbatim>\<open>extract_from_kernel.h\<close>, \<^verbatim>\<open>get_pt_regs.h\<close>): a program of the
  probe fills the header of an event in the buffer of its processor, appends the parameters of the system call behind it and
  submits the bytes. The buffer is an array of bytes in which header and parameters lie side by side, so that a store
  that runs past its place would be seen. What the helpers of the kernel return is a parameter of the model.
\<close>

unbundle bit_operations_syntax

section \<open>The buffer\<close>

type_synonym bytes = "8 word list"

record linx_ringbuf =
  rb_data :: "nat \<Rightarrow> 8 word"
  rb_index :: "8 word"
  rb_pos :: "64 word"
  rb_reserved :: "64 word"

definition LINX_EVENT_MAX_SIZE :: "64 word" where "LINX_EVENT_MAX_SIZE = 32768"
definition LINX_CMDLINE_MAX_SIZE :: nat where "LINX_CMDLINE_MAX_SIZE = 128"
definition LINX_CHARBUF_MAX_SIZE :: "16 word" where "LINX_CHARBUF_MAX_SIZE = 4096"

text \<open>Offsets of the members of \<^verbatim>\<open>linx_event_t\<close>.\<close>

definition off_params_size :: nat where "off_params_size = 3848"
definition off_comm :: nat where "off_comm = 3188"
definition off_cmdline :: nat where "off_cmdline = 3204"
definition off_size :: nat where "off_size = 4104"

definition put :: "nat \<Rightarrow> bytes \<Rightarrow> (nat \<Rightarrow> 8 word) \<Rightarrow> nat \<Rightarrow> 8 word" where
  "put a bs d = (\<lambda>i. if a \<le> i \<and> i < a + length bs then bs ! (i - a) else d i)"

definition fetch :: "nat \<Rightarrow> nat \<Rightarrow> (nat \<Rightarrow> 8 word) \<Rightarrow> bytes" where
  "fetch a n d = map d [a..<a + n]"

definition put_word :: "nat \<Rightarrow> 'a::len word \<Rightarrow> (nat \<Rightarrow> 8 word) \<Rightarrow> nat \<Rightarrow> 8 word" where
  "put_word a v d = put a (bytes_le (LENGTH('a) div 8) (uint v)) d"

definition SAFE_ACCESS :: "64 word \<Rightarrow> nat" where
  "SAFE_ACCESS x = unat (x AND (LINX_EVENT_MAX_SIZE - 1))"

section \<open>What the kernel provides\<close>

datatype read_memory = USER | KERNEL
datatype connection_direction = OUTBOUND | INBOUND

text \<open>The number of a process as its namespaces see it (\<^verbatim>\<open>struct pid\<close>): its level and, per level, the number and the namespace.\<close>

record pid_view =
  pv_level :: "32 word"
  pv_numbers :: "nat \<Rightarrow> 32 word \<times> ptr"
  pv_ns_level :: "ptr \<Rightarrow> 32 word"

text \<open>Members of kernel structures that the probe reads; a structure behind a NULL pointer is \<open>None\<close>. \<open>kv_fdt\<close> is the table of open
  files (\<^verbatim>\<open>max_fds\<close> and the array), \<open>kv_tty\<close> the major number, the first minor number and the index of the terminal.\<close>

record kernel_view =
  kv_parent_tgid :: "32 word option"
  kv_real_parent_tgid :: "32 word option"
  kv_args :: "(ptr \<times> ptr) option"
  kv_comm_addr :: ptr
  kv_total_vm :: "64 word"
  kv_rss :: "64 word \<times> 64 word \<times> 64 word"
  kv_tty :: "(32 word \<times> 32 word \<times> 32 word) option"
  kv_loginuid :: "32 word"
  kv_thread_pid :: "pid_view option"
  kv_fdt :: "(int \<times> (nat \<Rightarrow> ptr) option) option"
  kv_private_data :: "ptr \<Rightarrow> ptr"
  kv_sk :: "ptr \<Rightarrow> ptr"
  kv_family :: "ptr \<Rightarrow> 16 word"
  kv_saddr :: "ptr \<Rightarrow> 32 word"
  kv_sport :: "ptr \<Rightarrow> 16 word"
  kv_daddr :: "ptr \<Rightarrow> 32 word"
  kv_dport :: "ptr \<Rightarrow> 16 word"
  kv_s_dev :: "ptr \<Rightarrow> 32 word"
  kv_i_ino :: "ptr \<Rightarrow> 64 word"

text \<open>One run of a program: the registers, the return value of the system call, and the helpers. A read helper answers its return
  value and the bytes it wrote to the destination.\<close>

record probe_env =
  pe_regs :: "nat \<Rightarrow> 64 word"
  pe_ret :: "64 word"
  pe_boot_time :: "64 word"
  pe_pid_tgid :: "64 word"
  pe_uid_gid :: "64 word"
  pe_boot_ns :: "64 word"
  pe_comm :: bytes
  pe_read_str :: "read_memory \<Rightarrow> ptr \<Rightarrow> nat \<Rightarrow> int \<times> bytes"
  pe_read :: "read_memory \<Rightarrow> ptr \<Rightarrow> nat \<Rightarrow> int \<times> bytes"
  pe_kernel :: kernel_view

text \<open>The documented behaviour of the helpers: a string read writes as many bytes as it returns, at most the limit; a read that
  returns 0 wrote all bytes; neither writes past the limit when it fails; the name of the task takes its 16 bytes.\<close>

definition helpers_ok :: "probe_env \<Rightarrow> bool" where
  "helpers_ok pe \<longleftrightarrow> length (pe_comm pe) = 16 \<and>
     (\<forall>m p n. let (r, bs) = pe_read_str pe m p n in r \<le> int n \<and> length bs \<le> n \<and> (0 \<le> r \<longrightarrow> int (length bs) = r)) \<and>
     (\<forall>m p n. let (r, bs) = pe_read pe m p n in r \<le> 0 \<and> length bs \<le> n \<and> (r = 0 \<longrightarrow> length bs = n))"

definition get_pt_regs_argumnet :: "(nat \<Rightarrow> 64 word) \<Rightarrow> nat \<Rightarrow> 64 word" where
  "get_pt_regs_argumnet regs idx = (if idx \<le> 5 then regs idx else 0)"

section \<open>Values read from kernel structures\<close>

definition MAJOR :: "32 word \<Rightarrow> 32 word" where "MAJOR dev = drop_bit 20 dev"
definition MINOR :: "32 word \<Rightarrow> 32 word" where "MINOR dev = dev AND (push_bit 20 1 - 1)"
definition MKDEV :: "32 word \<Rightarrow> 32 word \<Rightarrow> 32 word" where "MKDEV ma mi = push_bit 20 ma OR mi"

definition encode_dev :: "32 word \<Rightarrow> 32 word" where
  "encode_dev dev =
    (let major = MAJOR dev; minor = MINOR dev
     in (minor AND 0xff) OR push_bit 8 major OR push_bit 12 (minor AND NOT 0xff))"

definition pages_to_kb :: "64 word \<Rightarrow> 64 word" where
  "pages_to_kb x = push_bit 2 x"

definition extract__vm_size :: "kernel_view \<Rightarrow> 64 word" where
  "extract__vm_size kv = pages_to_kb (kv_total_vm kv)"

definition extract__vm_rss :: "kernel_view \<Rightarrow> 64 word" where
  "extract__vm_rss kv = (let (file_pages, anon_pages, shmem_pages) = kv_rss kv in pages_to_kb (file_pages + anon_pages + shmem_pages))"

definition extract__tty :: "kernel_view \<Rightarrow> 32 word" where
  "extract__tty kv =
    (case kv_tty kv of None \<Rightarrow> 0 | Some (major, minor_start, index) \<Rightarrow> encode_dev (MKDEV major minor_start + index))"

definition extract__namespace_of_pid :: "pid_view option \<Rightarrow> ptr" where
  "extract__namespace_of_pid p = (case p of None \<Rightarrow> 0 | Some pv \<Rightarrow> snd (pv_numbers pv (unat (pv_level pv))))"

definition extract__xid_nr_seen_by_namespace :: "pid_view option \<Rightarrow> ptr \<Rightarrow> 32 word" where
  "extract__xid_nr_seen_by_namespace p ns =
    (case p of
       None \<Rightarrow> 0
     | Some pv \<Rightarrow>
         if pv_ns_level pv ns \<le> pv_level pv then
           (let (nr, uns) = pv_numbers pv (unat (pv_ns_level pv ns)) in if uns = ns then nr else 0)
         else 0)"

definition extract__task_xid_vnr :: "kernel_view \<Rightarrow> 32 word" where
  "extract__task_xid_vnr kv =
    extract__xid_nr_seen_by_namespace (kv_thread_pid kv) (extract__namespace_of_pid (kv_thread_pid kv))"

text \<open>0 is the NULL pointer.\<close>

definition extract__file_struct_from_fd :: "kernel_view \<Rightarrow> 32 word \<Rightarrow> ptr" where
  "extract__file_struct_from_fd kv file =
    (if 0 \<le> sint file then
       (case kv_fdt kv of
          None \<Rightarrow> 0
        | Some (max_fds, fds) \<Rightarrow>
            if sint file \<ge> max_fds then 0 else (case fds of None \<Rightarrow> 0 | Some f \<Rightarrow> f (nat (sint file))))
     else 0)"

definition get_sock_from_file :: "kernel_view \<Rightarrow> ptr \<Rightarrow> ptr" where
  "get_sock_from_file kv file = (if file = 0 then 0 else kv_private_data kv file)"

definition extract__dev_ino_overlay_from_fd :: "kernel_view \<Rightarrow> 32 word \<Rightarrow> 32 word \<times> 64 word \<Rightarrow> 32 word \<times> 64 word" where
  "extract__dev_ino_overlay_from_fd kv fd di =
    (let f = extract__file_struct_from_fd kv fd in if f = 0 then di else (encode_dev (kv_s_dev kv f), kv_i_ino kv f))"

section \<open>The header\<close>

definition linx_get_ppid :: "kernel_view \<Rightarrow> 64 word" where
  "linx_get_ppid kv =
    ucast (case kv_parent_tgid kv of
       Some ppid \<Rightarrow> ppid
     | None \<Rightarrow> (case kv_real_parent_tgid kv of Some ppid \<Rightarrow> ppid | None \<Rightarrow> 0))"

definition linx_get_process_cmdline :: "probe_env \<Rightarrow> (nat \<Rightarrow> 8 word) \<Rightarrow> int \<times> (nat \<Rightarrow> 8 word)" where
  "linx_get_process_cmdline pe d =
    (case kv_args (pe_kernel pe) of
       None \<Rightarrow> (- 1, d)
     | Some (arg_start, arg_end) \<Rightarrow>
         let len = unat (arg_end - arg_start)
         in if len = 0 \<or> len > LINX_CMDLINE_MAX_SIZE - 1 then (- 1, d)
            else
              (let (ret, bs) = pe_read pe USER arg_start len;
                   d = put off_cmdline bs d;
                   d = put off_cmdline (map (\<lambda>b. if b = 0 then 32 else b) (fetch off_cmdline len d)) d
               in (ret, put (off_cmdline + (len - 1)) [0] d)))"

definition linx_ringbuf_load_event :: "probe_env \<Rightarrow> nat \<Rightarrow> 64 word \<Rightarrow> linx_ringbuf \<Rightarrow> linx_ringbuf" where
  "linx_ringbuf_load_event pe type res rb =
    (let d = rb_data rb;
         d = put_word 0 (drop_bit 32 (pe_pid_tgid pe)) d;
         d = put_word 8 (ucast (ucast (pe_pid_tgid pe) :: 32 word) :: 64 word) d;
         d = put_word 16 (linx_get_ppid (pe_kernel pe)) d;
         d = put_word 24 (ucast (ucast (pe_uid_gid pe) :: 32 word) :: 64 word) d;
         d = put_word 32 (drop_bit 32 (pe_uid_gid pe)) d;
         d = put_word 40 (pe_boot_time pe + pe_boot_ns pe) d;
         d = put_word 48 res d;
         d = put_word 56 (word_of_nat type :: 32 word) d;
         d = put_word off_size (0 :: 64 word) d;
         d = put off_comm (pe_comm pe) d;
         d = snd (linx_get_process_cmdline pe d)
     in \<lparr>rb_data = d, rb_index = 0, rb_pos = LINX_EVENT_HEADER_SIZE, rb_reserved = LINX_EVENT_MAX_SIZE\<rparr>)"

text \<open>\<open>ok\<close> tells whether the ring has room; the result is the record that \<^verbatim>\<open>bpf_ringbuf_output\<close> copies, if any.\<close>

definition linx_ringbuf_submit_event :: "bool \<Rightarrow> linx_ringbuf \<Rightarrow> bytes option \<times> linx_ringbuf" where
  "linx_ringbuf_submit_event ok rb =
    (if rb_pos rb > LINX_EVENT_MAX_SIZE then (None, rb)
     else
       (let rb = rb\<lparr>rb_data := put_word off_size (rb_pos rb) (rb_data rb)\<rparr>
        in (if ok then Some (fetch 0 (unat (rb_pos rb)) (rb_data rb)) else None, rb)))"

section \<open>Stores\<close>

definition push_value :: "'a::len word \<Rightarrow> linx_ringbuf \<Rightarrow> linx_ringbuf" where
  "push_value v rb =
    rb\<lparr>rb_data := put_word (SAFE_ACCESS (rb_pos rb)) v (rb_data rb), rb_pos := rb_pos rb + word_of_nat (LENGTH('a) div 8)\<rparr>"

definition push_size :: "64 word \<Rightarrow> linx_ringbuf \<Rightarrow> linx_ringbuf" where
  "push_size sz rb =
    rb\<lparr>rb_data := put_word (off_params_size + 8 * unat (rb_index rb)) sz (rb_data rb), rb_index := rb_index rb + 1\<rparr>"

definition push_value_and_size :: "'a::len word \<Rightarrow> linx_ringbuf \<Rightarrow> linx_ringbuf" where
  "push_value_and_size v rb = push_size (word_of_nat (LENGTH('a) div 8)) (push_value v rb)"

definition linx_push_previous_character :: "8 word \<Rightarrow> linx_ringbuf \<Rightarrow> linx_ringbuf" where
  "linx_push_previous_character c rb = rb\<lparr>rb_data := put (SAFE_ACCESS (rb_pos rb - 1)) [c] (rb_data rb)\<rparr>"

definition linx_ringbuf_store_s8 :: "8 word \<Rightarrow> linx_ringbuf \<Rightarrow> linx_ringbuf" where
  "linx_ringbuf_store_s8 = push_value_and_size"
definition linx_ringbuf_store_s16 :: "16 word \<Rightarrow> linx_ringbuf \<Rightarrow> linx_ringbuf" where
  "linx_ringbuf_store_s16 = push_value_and_size"
definition linx_ringbuf_store_s32 :: "32 word \<Rightarrow> linx_ringbuf \<Rightarrow> linx_ringbuf" where
  "linx_ringbuf_store_s32 = push_value_and_size"
definition linx_ringbuf_store_s64 :: "64 word \<Rightarrow> linx_ringbuf \<Rightarrow> linx_ringbuf" where
  "linx_ringbuf_store_s64 = push_value_and_size"
definition linx_ringbuf_store_u8 :: "8 word \<Rightarrow> linx_ringbuf \<Rightarrow> linx_ringbuf" where
  "linx_ringbuf_store_u8 = push_value_and_size"
definition linx_ringbuf_store_u16 :: "16 word \<Rightarrow> linx_ringbuf \<Rightarrow> linx_ringbuf" where
  "linx_ringbuf_store_u16 = push_value_and_size"
definition linx_ringbuf_store_u32 :: "32 word \<Rightarrow> linx_ringbuf \<Rightarrow> linx_ringbuf" where
  "linx_ringbuf_store_u32 = push_value_and_size"
definition linx_ringbuf_store_u64 :: "64 word \<Rightarrow> linx_ringbuf \<Rightarrow> linx_ringbuf" where
  "linx_ringbuf_store_u64 = push_value_and_size"

definition linx_ringbuf_store_empty :: "linx_ringbuf \<Rightarrow> linx_ringbuf" where
  "linx_ringbuf_store_empty rb = push_size 0 rb"

text \<open>A helper writes to \<open>data + a\<close>; the array has \<open>65536\<close> bytes.\<close>

definition put_checked :: "bytes \<Rightarrow> linx_ringbuf \<Rightarrow> linx_ringbuf res" where
  "put_checked bs rb =
    (let a = SAFE_ACCESS (rb_pos rb)
     in if a + length bs \<le> 65536 then Inr (rb\<lparr>rb_data := put a bs (rb_data rb)\<rparr>) else Inl OutOfBounds)"

definition linx_push_charpointer ::
  "probe_env \<Rightarrow> ptr \<Rightarrow> 16 word \<Rightarrow> read_memory \<Rightarrow> linx_ringbuf \<Rightarrow> (16 word \<times> linx_ringbuf) res" where
  "linx_push_charpointer pe charpointer limit mem rb =
    (let (written_bytes, bs) = pe_read_str pe mem charpointer (unat limit)
     in res_bind (put_checked bs rb) (\<lambda>rb.
        if written_bytes < 0 then Inr (0, rb)
        else if written_bytes = 0 then
          map_sum id (\<lambda>rb. (1, rb\<lparr>rb_pos := rb_pos rb + 1\<rparr>)) (put_checked [0] rb)
        else Inr (word_of_int written_bytes, rb\<lparr>rb_pos := rb_pos rb + word_of_int written_bytes\<rparr>)))"

definition linx_push_bytebuf ::
  "probe_env \<Rightarrow> ptr \<Rightarrow> 16 word \<Rightarrow> read_memory \<Rightarrow> linx_ringbuf \<Rightarrow> (16 word \<times> linx_ringbuf) res" where
  "linx_push_bytebuf pe bytebuf_pointer len_to_read mem rb =
    (let (ret, bs) = pe_read pe mem bytebuf_pointer (unat len_to_read)
     in res_bind (put_checked bs rb) (\<lambda>rb.
        if ret \<noteq> 0 then Inr (0, rb) else Inr (len_to_read, rb\<lparr>rb_pos := rb_pos rb + ucast len_to_read\<rparr>)))"

definition linx_ringbuf_store_charpointer ::
  "probe_env \<Rightarrow> ptr \<Rightarrow> 16 word \<Rightarrow> read_memory \<Rightarrow> linx_ringbuf \<Rightarrow> (16 word \<times> linx_ringbuf) res" where
  "linx_ringbuf_store_charpointer pe charpointer len_to_read mem rb =
    map_sum id (\<lambda>(charbuf_len, rb). (charbuf_len, push_size (ucast charbuf_len) rb))
      (if charpointer \<noteq> 0 then linx_push_charpointer pe charpointer len_to_read mem rb else Inr (0, rb))"

definition linx_ringbuf_store_bytebuf ::
  "probe_env \<Rightarrow> ptr \<Rightarrow> 16 word \<Rightarrow> read_memory \<Rightarrow> linx_ringbuf \<Rightarrow> (16 word \<times> linx_ringbuf) res" where
  "linx_ringbuf_store_bytebuf pe charpointer len_to_read mem rb =
    map_sum id (\<lambda>(bytebuf_len, rb). (bytebuf_len, push_size (ucast bytebuf_len) rb))
      (if charpointer \<noteq> 0 \<and> len_to_read > 0 then linx_push_bytebuf pe charpointer len_to_read mem rb else Inr (0, rb))"

definition linx_ringbuf_store_charbufarray_as_bytebuf ::
  "probe_env \<Rightarrow> ptr \<Rightarrow> 16 word \<Rightarrow> 16 word \<Rightarrow> linx_ringbuf \<Rightarrow> linx_ringbuf res" where
  "linx_ringbuf_store_charbufarray_as_bytebuf pe start_pointer len_to_read max_len rb =
    (let len_to_read = (if len_to_read \<ge> max_len then max_len else len_to_read)
     in map_sum id (\<lambda>(n, rb). if n > 0 then linx_push_previous_character 0 rb else rb)
          (linx_ringbuf_store_bytebuf pe start_pointer len_to_read USER rb))"

definition AF_INET :: "16 word" where "AF_INET = 2"

definition ntohs :: "16 word \<Rightarrow> 16 word" where
  "ntohs x = (drop_bit 8 x AND 0xff) OR push_bit 8 (x AND 0xff)"

text \<open>When the socket has no remote port and the caller passed an address, 16 bytes are read into a pointer variable of 8 bytes,
  which is then followed.\<close>

definition linx_ringbuf_store_socktuple ::
  "probe_env \<Rightarrow> 32 word \<Rightarrow> connection_direction \<Rightarrow> ptr \<Rightarrow> linx_ringbuf \<Rightarrow> linx_ringbuf res" where
  "linx_ringbuf_store_socktuple pe socket_fd direction usrsockaddr rb =
    (let kv = pe_kernel pe; socket = get_sock_from_file kv (extract__file_struct_from_fd kv socket_fd)
     in if socket = 0 then Inr (linx_ringbuf_store_empty rb)
        else
          (let sk = kv_sk kv socket
           in if sk = 0 then Inr (linx_ringbuf_store_empty rb)
              else if kv_family kv sk = AF_INET then
                (if kv_dport kv sk = 0 \<and> usrsockaddr \<noteq> 0 then Inl OutOfBounds
                 else
                   (let rb = push_value (ucast (kv_family kv sk) :: 8 word) rb;
                        rb = (if direction = OUTBOUND
                          then push_value (ntohs (kv_dport kv sk)) (push_value (kv_daddr kv sk)
                                 (push_value (ntohs (kv_sport kv sk)) (push_value (kv_saddr kv sk) rb)))
                          else push_value (ntohs (kv_sport kv sk)) (push_value (kv_saddr kv sk)
                                 (push_value (ntohs (kv_dport kv sk)) (push_value (kv_daddr kv sk) rb))))
                    in Inr (push_size 13 rb)))
              else Inr (push_size 0 rb)))"

section \<open>Bytes\<close>

lemma length_fetch [simp]: "length (fetch a n d) = n"
  by (simp add: fetch_def)

lemma fetch_put_same: "n = length bs \<Longrightarrow> fetch a n (put a bs d) = bs"
  by (rule nth_equalityI) (simp_all add: fetch_def put_def)

lemma fetch_put_other: "a + n \<le> b \<or> b + length bs \<le> a \<Longrightarrow> fetch a n (put b bs d) = fetch a n d"
  by (auto simp: fetch_def put_def)

lemma fetch_add: "fetch a (m + n) d = fetch a m d @ fetch (a + m) n d"
  using upt_add_eq_append [of a "a + m" n] by (simp add: fetch_def add.assoc)

lemma fetch_put_prefix: "n \<le> length bs \<Longrightarrow> fetch a n (put a bs d) = take n bs"
  by (simp add: fetch_def put_def list_eq_iff_nth_eq)

lemma fetch_nth: "i < n \<Longrightarrow> fetch a n d ! i = d (a + i)"
  by (simp add: fetch_def)

lemma take_drop_fetch: "i + m \<le> n \<Longrightarrow> take m (drop i (fetch a n d)) = fetch (a + i) m d"
  by (simp add: fetch_def list_eq_iff_nth_eq add.assoc)

lemma put_Nil [simp]: "put a [] d = d"
  by (rule ext) (auto simp add: put_def)

lemma put_put_same: "length bs = length cs \<Longrightarrow> put a bs (put a cs d) = put a bs d"
  by (auto simp: put_def)

lemma put_app: "put a (bs @ cs) d = put (a + length bs) cs (put a bs d)"
  by (rule ext) (auto simp: put_def nth_append)

lemma put_commute: "a + length bs \<le> b \<or> b + length cs \<le> a \<Longrightarrow> put a bs (put b cs d) = put b cs (put a bs d)"
  by (rule ext) (auto simp: put_def)

lemma SAFE_ACCESS_small: "n < 32768 \<Longrightarrow> SAFE_ACCESS (word_of_nat n) = n"
proof -
  assume n: "n < 32768"
  have "SAFE_ACCESS (word_of_nat n) = unat (take_bit 15 (word_of_nat n :: 64 word))"
    by (simp add: SAFE_ACCESS_def LINX_EVENT_MAX_SIZE_def take_bit_eq_mask mask_eq_exp_minus_1)
  also have "\<dots> = take_bit 15 (unat (word_of_nat n :: 64 word))" by (rule unsigned_take_bit_eq)
  also have "\<dots> = n" using n by (simp add: unat_of_nat take_bit_nat_eq_self)
  finally show ?thesis .
qed

section \<open>A buffer holds a list of parameters\<close>

definition payload_len :: "bytes list \<Rightarrow> nat" where
  "payload_len cs = length (concat cs)"

definition holds :: "linx_ringbuf \<Rightarrow> bytes list \<Rightarrow> bool" where
  "holds rb cs \<longleftrightarrow> rb_index rb = word_of_nat (length cs) \<and> rb_pos rb = word_of_nat (4112 + payload_len cs) \<and>
     (\<forall>i < length cs. fetch (off_params_size + 8 * i) 8 (rb_data rb) = bytes_le 8 (int (length (cs ! i)))) \<and>
     fetch 4112 (payload_len cs) (rb_data rb) = concat cs"

text \<open>The header is unchanged but for the first \<open>k\<close> sizes.\<close>

definition same_header :: "nat \<Rightarrow> linx_ringbuf \<Rightarrow> linx_ringbuf \<Rightarrow> bool" where
  "same_header k rb rb' \<longleftrightarrow>
    (\<forall>i. i < off_params_size \<or> off_params_size + 8 * k \<le> i \<and> i < 4112 \<longrightarrow> rb_data rb' i = rb_data rb i)"

text \<open>What every store does: it writes \<open>w\<close> behind the parameters, of which the bytes of the parameter \<open>c\<close> are a prefix, and
  records the size of \<open>c\<close>.\<close>

definition append_param :: "bytes \<Rightarrow> bytes \<Rightarrow> linx_ringbuf \<Rightarrow> linx_ringbuf" where
  "append_param c w rb =
    push_size (word_of_nat (length c))
      (rb\<lparr>rb_data := put (SAFE_ACCESS (rb_pos rb)) w (rb_data rb), rb_pos := rb_pos rb + word_of_nat (length c)\<rparr>)"

definition fits :: "bytes list \<Rightarrow> bool" where
  "fits cs \<longleftrightarrow> length cs \<le> 32 \<and> 4112 + payload_len cs < 32768"

lemma payload_len_simps [simp]: "payload_len [] = 0" "payload_len (c # cs) = length c + payload_len cs" "payload_len (cs @ ds) = payload_len cs + payload_len ds"
  by (simp_all add: payload_len_def)

lemma holds_append:
  assumes "holds rb cs" "length cs < 32" "4112 + payload_len cs < 32768" "length c \<le> length w" "take (length c) w = c" "length c < 2 ^ 64"
  shows "holds (append_param c w rb) (cs @ [c]) \<and> same_header (Suc (length cs)) rb (append_param c w rb)"
proof -
  let ?rb = "append_param c w rb" and ?d = "put (4112 + payload_len cs) w (rb_data rb)"
  have idx: "unat (rb_index rb) = length cs" using assms(1,2) by (simp add: holds_def unat_of_nat)
  have pos: "SAFE_ACCESS (rb_pos rb) = 4112 + payload_len cs"
    using assms(1) SAFE_ACCESS_small [OF assms(3)] by (simp add: holds_def)
  have d: "rb_data ?rb = put (off_params_size + 8 * length cs) (bytes_le 8 (int (length c))) ?d"
    using assms(6) by (simp add: append_param_def push_size_def put_word_def idx pos unsigned_of_nat take_bit_nat_eq_self)
  have sizes: "fetch (off_params_size + 8 * i) 8 (rb_data ?rb) = bytes_le 8 (int (length ((cs @ [c]) ! i)))" if "i \<le> length cs" for i
  proof (cases "i = length cs")
    case True
    then show ?thesis by (simp add: d fetch_put_same)
  next
    case False
    with that have i: "i < length cs" by simp
    with assms(2) have "fetch (off_params_size + 8 * i) 8 (rb_data ?rb) = fetch (off_params_size + 8 * i) 8 (rb_data rb)"
      by (simp add: d fetch_put_other off_params_size_def)
    with i assms(1) show ?thesis by (simp add: holds_def nth_append)
  qed
  have "fetch 4112 (payload_len cs + length c) (rb_data ?rb) = fetch 4112 (payload_len cs + length c) ?d"
    using assms(2) by (simp add: d fetch_put_other off_params_size_def)
  also have "\<dots> = fetch 4112 (payload_len cs) ?d @ fetch (4112 + payload_len cs) (length c) ?d" by (rule fetch_add)
  also have "\<dots> = concat cs @ c" using assms(1,4,5) by (simp add: fetch_put_prefix fetch_put_other holds_def)
  finally have "fetch 4112 (payload_len (cs @ [c])) (rb_data ?rb) = concat (cs @ [c])" by simp
  moreover have "rb_index ?rb = word_of_nat (length (cs @ [c]))" "rb_pos ?rb = word_of_nat (4112 + payload_len (cs @ [c]))"
    using assms(1) by (simp_all add: append_param_def push_size_def holds_def)
  ultimately have "holds ?rb (cs @ [c])" using sizes unfolding holds_def by (simp add: less_Suc_eq_le)
  moreover have "same_header (Suc (length cs)) rb ?rb" by (simp add: same_header_def d put_def off_params_size_def)
  ultimately show ?thesis by simp
qed

lemma push_value_bytes:
  "push_value (v :: 'a::len word) rb =
    rb\<lparr>rb_data := put (SAFE_ACCESS (rb_pos rb)) (bytes_le (LENGTH('a) div 8) (uint v)) (rb_data rb),
      rb_pos := rb_pos rb + word_of_nat (LENGTH('a) div 8)\<rparr>"
  by (simp add: push_value_def put_word_def)

lemma push_value_and_size_append:
  "push_value_and_size (v :: 'a::len word) rb = append_param (bytes_le (LENGTH('a) div 8) (uint v)) (bytes_le (LENGTH('a) div 8) (uint v)) rb"
  by (simp add: push_value_and_size_def append_param_def push_value_bytes)

lemma store_empty_append: "linx_ringbuf_store_empty rb = append_param [] [] rb"
  by (simp add: linx_ringbuf_store_empty_def append_param_def put_Nil)

section \<open>Every store appends one parameter\<close>

definition appends :: "linx_ringbuf \<Rightarrow> bytes \<Rightarrow> linx_ringbuf \<Rightarrow> bool" where
  "appends rb c rb' \<longleftrightarrow> (\<exists>w. rb' = append_param c w rb \<and> take (length c) w = c \<and> length c \<le> length w)"

definition str_param :: "probe_env \<Rightarrow> ptr \<Rightarrow> 16 word \<Rightarrow> read_memory \<Rightarrow> bytes" where
  "str_param pe p limit mem =
    (if p = 0 then []
     else (let (r, bs) = pe_read_str pe mem p (unat limit) in if r < 0 then [] else if r = 0 then [0] else bs))"

definition buf_param :: "probe_env \<Rightarrow> ptr \<Rightarrow> 16 word \<Rightarrow> read_memory \<Rightarrow> bytes" where
  "buf_param pe p len mem =
    (if p = 0 \<or> len = 0 then [] else (let (r, bs) = pe_read pe mem p (unat len) in if r \<noteq> 0 then [] else bs))"

definition args_param :: "probe_env \<Rightarrow> ptr \<Rightarrow> 16 word \<Rightarrow> 16 word \<Rightarrow> bytes" where
  "args_param pe p len max_len =
    (let c = buf_param pe p (if len \<ge> max_len then max_len else len) USER in if c = [] then [] else butlast c @ [0])"

definition tuple_param :: "kernel_view \<Rightarrow> ptr \<Rightarrow> connection_direction \<Rightarrow> bytes" where
  "tuple_param kv sk dir =
    (let local = bytes_le 4 (uint (kv_saddr kv sk)) @ bytes_le 2 (uint (ntohs (kv_sport kv sk)));
         remote = bytes_le 4 (uint (kv_daddr kv sk)) @ bytes_le 2 (uint (ntohs (kv_dport kv sk)))
     in bytes_le 1 2 @ (if dir = OUTBOUND then local @ remote else remote @ local))"

definition sock_param :: "probe_env \<Rightarrow> 32 word \<Rightarrow> connection_direction \<Rightarrow> ptr \<Rightarrow> bytes res" where
  "sock_param pe fd dir usr =
    (let kv = pe_kernel pe; socket = get_sock_from_file kv (extract__file_struct_from_fd kv fd); sk = kv_sk kv socket
     in if socket = 0 \<or> sk = 0 \<or> kv_family kv sk \<noteq> AF_INET then Inr []
        else if kv_dport kv sk = 0 \<and> usr \<noteq> 0 then Inl OutOfBounds
        else Inr (tuple_param kv sk dir))"

lemma appendsI: "rb' = append_param c w rb \<Longrightarrow> take (length c) w = c \<Longrightarrow> length c \<le> length w \<Longrightarrow> appends rb c rb'"
  by (auto simp: appends_def)

lemma appends_self: "appends rb c (append_param c c rb)"
  by (rule appendsI [OF refl]) simp_all

lemma appends_value: "appends rb (bytes_le (LENGTH('a) div 8) (uint v)) (push_value_and_size (v :: 'a::len word) rb)"
  by (rule appendsI [OF push_value_and_size_append]) simp_all

lemma appends_empty: "appends rb [] (linx_ringbuf_store_empty rb)"
  by (rule appendsI [OF store_empty_append]) simp_all

lemma push_size_zero: "push_size 0 (rb\<lparr>rb_data := put (SAFE_ACCESS (rb_pos rb)) w (rb_data rb)\<rparr>) = append_param [] w rb"
  by (simp add: append_param_def)

lemma helpers_str:
  assumes "helpers_ok pe" "pe_read_str pe m p n = (r, bs)"
  shows "r \<le> int n" "length bs \<le> n" "0 \<le> r \<Longrightarrow> int (length bs) = r"
  using assms unfolding helpers_ok_def by (metis (mono_tags, lifting) case_prod_conv)+

lemma helpers_read:
  assumes "helpers_ok pe" "pe_read pe m p n = (r, bs)"
  shows "length bs \<le> n" "r = 0 \<Longrightarrow> length bs = n"
  using assms unfolding helpers_ok_def by (metis (mono_tags, lifting) case_prod_conv)+

lemma str_param_length: "helpers_ok pe \<Longrightarrow> length (str_param pe p limit mem) \<le> max 1 (unat limit)"
  using helpers_str [of pe mem p "unat limit"]
  by (cases "pe_read_str pe mem p (unat limit)") (auto simp: str_param_def)

lemma buf_param_length: "helpers_ok pe \<Longrightarrow> length (buf_param pe p len mem) \<le> unat len"
  using helpers_read [of pe mem p "unat len"]
  by (cases "pe_read pe mem p (unat len)") (auto simp: buf_param_def)

lemma put_checked_ok:
  "rb_pos rb = word_of_nat n \<Longrightarrow> n < 32768 \<Longrightarrow> n + length bs \<le> 65536 \<Longrightarrow>
   put_checked bs rb = Inr (rb\<lparr>rb_data := put (SAFE_ACCESS (rb_pos rb)) bs (rb_data rb)\<rparr>)"
  using SAFE_ACCESS_small [of n] by (simp add: put_checked_def)

lemma appends_charpointer:
  assumes "helpers_ok pe" "rb_pos rb = word_of_nat n" "n < 32768" "n + unat limit \<le> 65536"
  shows "\<exists>k rb'. linx_ringbuf_store_charpointer pe p limit mem rb = Inr (k, rb') \<and> appends rb (str_param pe p limit mem) rb'"
proof -
  obtain r bs where r: "pe_read_str pe mem p (unat limit) = (r, bs)" by (cases "pe_read_str pe mem p (unat limit)")
  note h = helpers_str [OF assms(1) r]
  have lim: "unat limit < 65536" using unsigned_less [of limit] by simp
  have ok: "put_checked bs rb = Inr (rb\<lparr>rb_data := put (SAFE_ACCESS (rb_pos rb)) bs (rb_data rb)\<rparr>)"
    using put_checked_ok [OF assms(2,3), of bs] h(2) assms(4) by simp
  consider "p = 0" | "p \<noteq> 0" "r < 0" | "p \<noteq> 0" "r = 0" | "p \<noteq> 0" "0 < r" by linarith
  then show ?thesis
  proof cases
    case 1
    then have "linx_ringbuf_store_charpointer pe p limit mem rb = Inr (0, append_param [] [] rb)"
      by (simp add: linx_ringbuf_store_charpointer_def append_param_def)
    with 1 show ?thesis by (simp add: appendsI str_param_def)
  next
    case 2
    then have "linx_ringbuf_store_charpointer pe p limit mem rb = Inr (0, append_param [] bs rb)"
      by (simp add: linx_ringbuf_store_charpointer_def linx_push_charpointer_def r ok push_size_zero)
    with 2 show ?thesis by (simp add: appendsI str_param_def r)
  next
    case 3
    with h have "bs = []" by simp
    moreover have "put_checked [0] rb = Inr (rb\<lparr>rb_data := put (SAFE_ACCESS (rb_pos rb)) [0] (rb_data rb)\<rparr>)"
      using put_checked_ok [OF assms(2,3), of "[0]"] assms(3) by simp
    ultimately have "linx_ringbuf_store_charpointer pe p limit mem rb = Inr (1, append_param [0] [0] rb)"
      using 3 ok by (simp add: linx_ringbuf_store_charpointer_def linx_push_charpointer_def r append_param_def)
    with 3 show ?thesis by (simp add: appendsI str_param_def r)
  next
    case 4
    have len: "int (length bs) = r" "length bs < 65536" using h 4 lim by auto
    then have "(word_of_int r :: 16 word) = word_of_nat (length bs)" "(word_of_int r :: 64 word) = word_of_nat (length bs)"
      by (auto simp: of_int_of_nat_eq simp flip: len(1))
    moreover have "(ucast (word_of_nat (length bs) :: 16 word) :: 64 word) = word_of_nat (length bs)"
      using len(2) by (intro word_unat_eq_iff [THEN iffD2]) (simp add: unat_of_nat unsigned_ucast_eq take_bit_nat_eq_self)
    ultimately have "linx_ringbuf_store_charpointer pe p limit mem rb = Inr (word_of_int r, append_param bs bs rb)"
      using 4 by (simp add: linx_ringbuf_store_charpointer_def linx_push_charpointer_def r ok append_param_def)
    with 4 show ?thesis by (simp add: appendsI str_param_def r)
  qed
qed

lemma appends_bytebuf:
  assumes "helpers_ok pe" "rb_pos rb = word_of_nat n" "n < 32768" "n + unat len \<le> 65536"
  shows "\<exists>k rb'. linx_ringbuf_store_bytebuf pe p len mem rb = Inr (k, rb') \<and> unat k = length (buf_param pe p len mem) \<and>
    appends rb (buf_param pe p len mem) rb' \<and>
    (buf_param pe p len mem \<noteq> [] \<longrightarrow> rb' = append_param (buf_param pe p len mem) (buf_param pe p len mem) rb)"
proof -
  obtain r bs where r: "pe_read pe mem p (unat len) = (r, bs)" by (cases "pe_read pe mem p (unat len)")
  note h = helpers_read [OF assms(1) r]
  have ok: "put_checked bs rb = Inr (rb\<lparr>rb_data := put (SAFE_ACCESS (rb_pos rb)) bs (rb_data rb)\<rparr>)"
    using put_checked_ok [OF assms(2,3), of bs] h(1) assms(4) by simp
  consider "p = 0 \<or> len = 0" | "p \<noteq> 0" "len \<noteq> 0" "r \<noteq> 0" | "p \<noteq> 0" "len \<noteq> 0" "r = 0" by blast
  then show ?thesis
  proof cases
    case 1
    then have "linx_ringbuf_store_bytebuf pe p len mem rb = Inr (0, append_param [] [] rb)"
      by (auto simp: linx_ringbuf_store_bytebuf_def append_param_def)
    with 1 show ?thesis by (auto simp: appendsI buf_param_def)
  next
    case 2
    then have "linx_ringbuf_store_bytebuf pe p len mem rb = Inr (0, append_param [] bs rb)"
      by (simp add: linx_ringbuf_store_bytebuf_def linx_push_bytebuf_def r ok push_size_zero word_gt_0)
    with 2 show ?thesis by (simp add: appendsI buf_param_def r)
  next
    case 3
    then have len: "unat len = length bs" using h by simp
    then have "(ucast len :: 64 word) = word_of_nat (length bs)" by (simp flip: len)
    with 3 have "linx_ringbuf_store_bytebuf pe p len mem rb = Inr (len, append_param bs bs rb)"
      by (simp add: linx_ringbuf_store_bytebuf_def linx_push_bytebuf_def r ok append_param_def word_gt_0)
    moreover have "buf_param pe p len mem = bs" using 3 by (simp add: buf_param_def r)
    ultimately show ?thesis using len by (simp add: appendsI)
  qed
qed

lemma previous_character_append:
  assumes "rb_pos rb = word_of_nat n" "4112 \<le> n" "n + length c \<le> 32768" "c \<noteq> []" "unat (rb_index rb) < 32"
  shows "linx_push_previous_character 0 (append_param c c rb) = append_param (butlast c @ [0]) (butlast c @ [0]) rb"
proof -
  let ?k = "n + (length c - 1)"
  have "rb_pos (append_param c c rb) - 1 = word_of_nat ?k"
    using assms(1,4) by (cases c) (simp_all add: append_param_def push_size_def)
  moreover have "0 < length c" using assms(4) by simp
  then have "?k < 32768" "n < 32768" using assms(3) by linarith+
  ultimately have at: "SAFE_ACCESS (rb_pos (append_param c c rb) - 1) = ?k" "SAFE_ACCESS (rb_pos rb) = n"
    using SAFE_ACCESS_small [of ?k] SAFE_ACCESS_small [of n] assms(1) by (simp_all only:)
  have "put ?k [0] (put n (butlast c @ [last c]) d) = put n (butlast c @ [0]) d" for d
    using put_put_same [of "[0]" "[last c]" ?k] by (simp add: put_app)
  then have "put ?k [0] (put n c d) = put n (butlast c @ [0]) d" for d using assms(4) by simp
  moreover have "put ?k [0] (put (off_params_size + 8 * unat (rb_index rb)) (bytes_le 8 v) d) =
      put (off_params_size + 8 * unat (rb_index rb)) (bytes_le 8 v) (put ?k [0] d)" for v d
    using assms(2,5) by (intro put_commute) (simp add: off_params_size_def)
  ultimately show ?thesis
    using assms(4) at by (simp add: linx_push_previous_character_def append_param_def push_size_def put_word_def)
qed

lemma appends_args:
  assumes "helpers_ok pe" "rb_pos rb = word_of_nat n" "4112 \<le> n" "n < 32768" "n + unat max_len \<le> 32768" "unat (rb_index rb) < 32"
  shows "\<exists>rb'. linx_ringbuf_store_charbufarray_as_bytebuf pe p len max_len rb = Inr rb' \<and>
    appends rb (args_param pe p len max_len) rb'"
proof -
  define L where "L = (if len \<ge> max_len then max_len else len)"
  let ?c = "buf_param pe p L USER"
  have L: "unat L \<le> unat max_len" by (auto simp: L_def word_le_nat_alt)
  with buf_param_length [OF assms(1), of p L USER] assms(5) have n: "n + length ?c \<le> 32768" by linarith
  obtain k rb1 where b: "linx_ringbuf_store_bytebuf pe p L USER rb = Inr (k, rb1)" "unat k = length ?c" "appends rb ?c rb1"
    "?c \<noteq> [] \<Longrightarrow> rb1 = append_param ?c ?c rb"
    using appends_bytebuf [OF assms(1,2,4), of L p USER] L assms(5) by auto
  have eq: "linx_ringbuf_store_charbufarray_as_bytebuf pe p len max_len rb =
      Inr (if k > 0 then linx_push_previous_character 0 rb1 else rb1)"
    "args_param pe p len max_len = (if ?c = [] then [] else butlast ?c @ [0])"
    using b(1) by (simp_all add: linx_ringbuf_store_charbufarray_as_bytebuf_def args_param_def L_def Let_def)
  show ?thesis
  proof (cases "?c = []")
    case True
    with b(2) have "k = 0" by (simp add: unat_eq_0)
    with b(3) True show ?thesis by (simp add: eq)
  next
    case False
    with b(2) have "k > 0" by (metis length_0_conv unat_0 word_gt_0)
    with False b(4) previous_character_append [OF assms(2,3) n False assms(6)]
    have "linx_ringbuf_store_charbufarray_as_bytebuf pe p len max_len rb = Inr (append_param (butlast ?c @ [0]) (butlast ?c @ [0]) rb)"
      by (simp add: eq(1))
    then show ?thesis unfolding eq(2) using False by (simp add: appends_self)
  qed
qed

lemma push_value_at:
  assumes "rb = rb0\<lparr>rb_data := put n bs (rb_data rb0), rb_pos := word_of_nat (n + length bs)\<rparr>" "n + length bs < 32768"
  shows "push_value (v :: 'a::len word) rb =
    rb0\<lparr>rb_data := put n (bs @ bytes_le (LENGTH('a) div 8) (uint v)) (rb_data rb0),
      rb_pos := word_of_nat (n + length (bs @ bytes_le (LENGTH('a) div 8) (uint v)))\<rparr>"
  using assms SAFE_ACCESS_small [OF assms(2)] by (simp add: push_value_bytes put_app)

lemma appends_socktuple:
  assumes "rb_pos rb = word_of_nat n" "n + 13 \<le> 32768"
  shows "case sock_param pe fd dir usr of
      Inl f \<Rightarrow> linx_ringbuf_store_socktuple pe fd dir usr rb = Inl f
    | Inr c \<Rightarrow> \<exists>rb'. linx_ringbuf_store_socktuple pe fd dir usr rb = Inr rb' \<and> appends rb c rb' \<and> length c \<le> 13"
proof -
  let ?kv = "pe_kernel pe"
  let ?so = "get_sock_from_file ?kv (extract__file_struct_from_fd ?kv fd)"
  let ?sk = "kv_sk ?kv ?so"
  have at: "SAFE_ACCESS (rb_pos rb) = n" using assms SAFE_ACCESS_small by simp
  have rb: "rb = rb\<lparr>rb_data := put n [] (rb_data rb), rb_pos := word_of_nat (n + length ([] :: bytes))\<rparr>" using assms by simp
  consider "?so = 0 \<or> ?sk = 0" | "?so \<noteq> 0" "?sk \<noteq> 0" "kv_family ?kv ?sk \<noteq> AF_INET"
    | "?so \<noteq> 0" "?sk \<noteq> 0" "kv_family ?kv ?sk = AF_INET" "kv_dport ?kv ?sk = 0 \<and> usr \<noteq> 0"
    | "?so \<noteq> 0" "?sk \<noteq> 0" "kv_family ?kv ?sk = AF_INET" "\<not> (kv_dport ?kv ?sk = 0 \<and> usr \<noteq> 0)" by blast
  then show ?thesis
  proof cases
    case 1
    then show ?thesis using appends_empty by (auto simp: sock_param_def linx_ringbuf_store_socktuple_def Let_def)
  next
    case 2
    then show ?thesis using appends_empty
      by (simp add: sock_param_def linx_ringbuf_store_socktuple_def linx_ringbuf_store_empty_def Let_def)
  next
    case 3
    then show ?thesis by (simp add: sock_param_def linx_ringbuf_store_socktuple_def Let_def)
  next
    case 4
    let ?c = "tuple_param ?kv ?sk dir"
    have len: "length ?c = 13" by (simp add: tuple_param_def Let_def)
    note p1 = push_value_at [OF rb, of "ucast (kv_family ?kv ?sk) :: 8 word"]
    note p2 = push_value_at [OF p1, where v = "if dir = OUTBOUND then kv_saddr ?kv ?sk else kv_daddr ?kv ?sk"]
    note p3 = push_value_at [OF p2, where v = "ntohs (if dir = OUTBOUND then kv_sport ?kv ?sk else kv_dport ?kv ?sk)"]
    note p4 = push_value_at [OF p3, where v = "if dir = OUTBOUND then kv_daddr ?kv ?sk else kv_saddr ?kv ?sk"]
    note p5 = push_value_at [OF p4, where v = "ntohs (if dir = OUTBOUND then kv_dport ?kv ?sk else kv_sport ?kv ?sk)"]
    have "linx_ringbuf_store_socktuple pe fd dir usr rb = Inr (append_param ?c ?c rb)"
      using 4 p5 assms len at by (cases dir) (simp_all add: linx_ringbuf_store_socktuple_def append_param_def tuple_param_def AF_INET_def Let_def)
    with 4 len show ?thesis by (auto simp: sock_param_def Let_def intro: appendsI)
  qed
qed

end
