(* ===== verification/Probe_Steps.thy ===== *)
theory Probe_Steps
  imports Probe_Ring
begin

text \<open>
  The programs of the probe (\<^verbatim>\<open>kernel/ebpf/tail_calls\<close>) all have the same form: get the buffer, load the header, store the
  parameters one after the other, submit. A program is the list of its stores; \<open>run_steps\<close> gives their meaning through the store functions
  of the buffer, \<open>steps_params\<close> says which parameters they append, and the theorem of this theory relates the two.
\<close>

section \<open>Programs\<close>

datatype c_int = S8 | S16 | S32 | S64 | U8 | U16 | U32 | U64

fun c_cast :: "c_int \<Rightarrow> int \<Rightarrow> int" where
  "c_cast S8 v = sint (word_of_int v :: 8 word)"
| "c_cast S16 v = sint (word_of_int v :: 16 word)"
| "c_cast S32 v = sint (word_of_int v :: 32 word)"
| "c_cast S64 v = sint (word_of_int v :: 64 word)"
| "c_cast U8 v = uint (word_of_int v :: 8 word)"
| "c_cast U16 v = uint (word_of_int v :: 16 word)"
| "c_cast U32 v = uint (word_of_int v :: 32 word)"
| "c_cast U64 v = uint (word_of_int v :: 64 word)"

fun c_size :: "c_int \<Rightarrow> nat" where
  "c_size S8 = 1" | "c_size U8 = 1" | "c_size S16 = 2" | "c_size U16 = 2"
| "c_size S32 = 4" | "c_size U32 = 4" | "c_size S64 = 8" | "c_size U64 = 8"

text \<open>Where a stored value comes from. \<open>Arg ty i\<close>: a local of type \<open>ty\<close> initialised with argument \<open>i\<close> of the system call.
  \<open>UserArg ty i\<close>: a local of type \<open>ty\<close>, 0 at first, filled from the address in argument \<open>i\<close> unless that is NULL.\<close>

datatype value_src = Arg c_int nat | UserArg c_int nat | Ret | VmSize | VmRss | Tty | LoginUid | Pgid | Dev | Ino

datatype ptr_src = ArgPtr nat | ArgStart | TaskComm

text \<open>\<open>SendLen\<close> is the length that \<^verbatim>\<open>sendto_x\<close> computes.\<close>

datatype len_src = Len "16 word" | SendLen

datatype probe_step =
    Store c_int value_src
  | StoreChar ptr_src "16 word" read_memory
  | StoreBytes ptr_src len_src
  | StoreArgs "16 word"
  | StoreEmpty
  | StoreTuple connection_direction
  | IfRet "probe_step list" "probe_step list"
  | IfFd "probe_step list" "probe_step list"

record probe_prog =
  pp_name :: string
  pp_type :: nat
  pp_ret :: bool
  pp_steps :: "probe_step list"

section \<open>Meaning\<close>

definition arg :: "probe_env \<Rightarrow> nat \<Rightarrow> 64 word" where
  "arg pe i = get_pt_regs_argumnet (pe_regs pe) i"

definition dev_ino :: "probe_env \<Rightarrow> 32 word \<times> 64 word" where
  "dev_ino pe = (if 0 < sint (pe_ret pe) then extract__dev_ino_overlay_from_fd (pe_kernel pe) (ucast (pe_ret pe)) (0, 0) else (0, 0))"

fun get_value :: "probe_env \<Rightarrow> value_src \<Rightarrow> int" where
  "get_value pe (Arg ty i) = c_cast ty (uint (arg pe i))"
| "get_value pe (UserArg ty i) =
     (if arg pe i = 0 then 0 else c_cast ty (le_val (snd (pe_read pe USER (arg pe i) (c_size ty)))))"
| "get_value pe Ret = sint (pe_ret pe)"
| "get_value pe VmSize = c_cast U32 (uint (extract__vm_size (pe_kernel pe)))"
| "get_value pe VmRss = c_cast U32 (uint (extract__vm_rss (pe_kernel pe)))"
| "get_value pe Tty = uint (extract__tty (pe_kernel pe))"
| "get_value pe LoginUid = uint (kv_loginuid (pe_kernel pe))"
| "get_value pe Pgid = sint (extract__task_xid_vnr (pe_kernel pe))"
| "get_value pe Dev = uint (fst (dev_ino pe))"
| "get_value pe Ino = uint (snd (dev_ino pe))"

definition arg_start :: "probe_env \<Rightarrow> ptr" where
  "arg_start pe = (case kv_args (pe_kernel pe) of None \<Rightarrow> 0 | Some (s, e) \<Rightarrow> s)"

definition arg_end :: "probe_env \<Rightarrow> ptr" where
  "arg_end pe = (case kv_args (pe_kernel pe) of None \<Rightarrow> 0 | Some (s, e) \<Rightarrow> e)"

fun get_ptr :: "probe_env \<Rightarrow> ptr_src \<Rightarrow> ptr" where
  "get_ptr pe (ArgPtr i) = arg pe i"
| "get_ptr pe ArgStart = arg_start pe"
| "get_ptr pe TaskComm = kv_comm_addr (pe_kernel pe)"

definition send_len :: "probe_env \<Rightarrow> 16 word" where
  "send_len pe =
    (let bytes_to_read = (if 0 < sint (pe_ret pe) then pe_ret pe else arg pe 2)
     in if 128 > sint bytes_to_read then ucast bytes_to_read else 128)"

fun get_len :: "probe_env \<Rightarrow> len_src \<Rightarrow> 16 word" where
  "get_len pe (Len n) = n"
| "get_len pe SendLen = send_len pe"

fun store_c_int :: "c_int \<Rightarrow> int \<Rightarrow> linx_ringbuf \<Rightarrow> linx_ringbuf" where
  "store_c_int S8 v = linx_ringbuf_store_s8 (word_of_int v)"
| "store_c_int S16 v = linx_ringbuf_store_s16 (word_of_int v)"
| "store_c_int S32 v = linx_ringbuf_store_s32 (word_of_int v)"
| "store_c_int S64 v = linx_ringbuf_store_s64 (word_of_int v)"
| "store_c_int U8 v = linx_ringbuf_store_u8 (word_of_int v)"
| "store_c_int U16 v = linx_ringbuf_store_u16 (word_of_int v)"
| "store_c_int U32 v = linx_ringbuf_store_u32 (word_of_int v)"
| "store_c_int U64 v = linx_ringbuf_store_u64 (word_of_int v)"

fun run_step :: "probe_env \<Rightarrow> probe_step \<Rightarrow> linx_ringbuf \<Rightarrow> linx_ringbuf res"
and run_steps :: "probe_env \<Rightarrow> probe_step list \<Rightarrow> linx_ringbuf \<Rightarrow> linx_ringbuf res" where
  "run_step pe (Store ty src) rb = Inr (store_c_int ty (get_value pe src) rb)"
| "run_step pe (StoreChar p limit mem) rb = map_sum id snd (linx_ringbuf_store_charpointer pe (get_ptr pe p) limit mem rb)"
| "run_step pe (StoreBytes p len) rb = map_sum id snd (linx_ringbuf_store_bytebuf pe (get_ptr pe p) (get_len pe len) USER rb)"
| "run_step pe (StoreArgs max_len) rb =
     linx_ringbuf_store_charbufarray_as_bytebuf pe (arg_start pe) (ucast (arg_end pe - arg_start pe)) max_len rb"
| "run_step pe StoreEmpty rb = Inr (linx_ringbuf_store_empty rb)"
| "run_step pe (StoreTuple dir) rb = linx_ringbuf_store_socktuple pe (ucast (arg pe 0)) dir (arg pe 4) rb"
| "run_step pe (IfRet ss ts) rb = (if 0 < sint (pe_ret pe) then run_steps pe ss rb else run_steps pe ts rb)"
| "run_step pe (IfFd ss ts) rb = (if 0 \<le> sint (ucast (arg pe 0) :: 32 word) then run_steps pe ss rb else run_steps pe ts rb)"
| "run_steps pe [] rb = Inr rb"
| "run_steps pe (s # ss) rb = res_bind (run_step pe s rb) (run_steps pe ss)"

text \<open>A run of a program on the buffer of its processor, \<open>None\<close> when \<^verbatim>\<open>linx_ringbuf_get\<close> finds none; the result is the submitted record.\<close>

definition run_prog :: "bool \<Rightarrow> probe_env \<Rightarrow> probe_prog \<Rightarrow> linx_ringbuf option \<Rightarrow> (bytes option \<times> linx_ringbuf option) res" where
  "run_prog ok pe p rbo =
    (case rbo of
       None \<Rightarrow> Inr (None, None)
     | Some rb \<Rightarrow>
         map_sum id (\<lambda>rb. let (out, rb) = linx_ringbuf_submit_event ok rb in (out, Some rb))
           (run_steps pe (pp_steps p) (linx_ringbuf_load_event pe (pp_type p) (if pp_ret p then pe_ret pe else - 1) rb)))"

section \<open>The parameters of a run\<close>

fun step_params :: "probe_env \<Rightarrow> probe_step \<Rightarrow> bytes list res"
and steps_params :: "probe_env \<Rightarrow> probe_step list \<Rightarrow> bytes list res" where
  "step_params pe (Store ty src) = Inr [bytes_le (c_size ty) (get_value pe src mod 256 ^ c_size ty)]"
| "step_params pe (StoreChar p limit mem) = Inr [str_param pe (get_ptr pe p) limit mem]"
| "step_params pe (StoreBytes p len) = Inr [buf_param pe (get_ptr pe p) (get_len pe len) USER]"
| "step_params pe (StoreArgs max_len) = Inr [args_param pe (arg_start pe) (ucast (arg_end pe - arg_start pe)) max_len]"
| "step_params pe StoreEmpty = Inr [[]]"
| "step_params pe (StoreTuple dir) = map_sum id (\<lambda>c. [c]) (sock_param pe (ucast (arg pe 0)) dir (arg pe 4))"
| "step_params pe (IfRet ss ts) = (if 0 < sint (pe_ret pe) then steps_params pe ss else steps_params pe ts)"
| "step_params pe (IfFd ss ts) = (if 0 \<le> sint (ucast (arg pe 0) :: 32 word) then steps_params pe ss else steps_params pe ts)"
| "steps_params pe [] = Inr []"
| "steps_params pe (s # ss) = res_bind (step_params pe s) (\<lambda>cs. map_sum id (\<lambda>ds. cs @ ds) (steps_params pe ss))"

text \<open>Static bounds: how many bytes and how many parameters the steps append at most.\<close>

fun len_max :: "len_src \<Rightarrow> nat" where
  "len_max (Len n) = unat n"
| "len_max SendLen = 65535"

fun step_max :: "probe_step \<Rightarrow> nat" and steps_max :: "probe_step list \<Rightarrow> nat" where
  "step_max (Store ty src) = c_size ty"
| "step_max (StoreChar p limit mem) = max 1 (unat limit)"
| "step_max (StoreBytes p len) = len_max len"
| "step_max (StoreArgs max_len) = unat max_len"
| "step_max StoreEmpty = 0"
| "step_max (StoreTuple dir) = 13"
| "step_max (IfRet ss ts) = max (steps_max ss) (steps_max ts)"
| "step_max (IfFd ss ts) = max (steps_max ss) (steps_max ts)"
| "steps_max [] = 0"
| "steps_max (s # ss) = step_max s + steps_max ss"

fun step_count :: "probe_step \<Rightarrow> nat" and steps_count :: "probe_step list \<Rightarrow> nat" where
  "step_count (IfRet ss ts) = max (steps_count ss) (steps_count ts)"
| "step_count (IfFd ss ts) = max (steps_count ss) (steps_count ts)"
| "step_count s = 1"
| "steps_count [] = 0"
| "steps_count (s # ss) = step_count s + steps_count ss"

definition steps_bounded :: "probe_step list \<Rightarrow> bool" where
  "steps_bounded ss \<longleftrightarrow> steps_count ss \<le> 32 \<and> 4112 + steps_max ss < 32768"

section \<open>The runs append the parameters\<close>

definition step_refines :: "linx_ringbuf \<Rightarrow> bytes list \<Rightarrow> nat \<Rightarrow> nat \<Rightarrow> bytes list res \<Rightarrow> linx_ringbuf res \<Rightarrow> bool" where
  "step_refines rb cs n k ds r \<longleftrightarrow>
    (case ds of
       Inl f \<Rightarrow> r = Inl f
     | Inr ds \<Rightarrow> \<exists>rb'. r = Inr rb' \<and> holds rb' (cs @ ds) \<and> same_header (length (cs @ ds)) rb rb' \<and> payload_len ds \<le> n \<and> length ds \<le> k)"

lemma step_refinesI:
  "appends rb c rb' \<Longrightarrow> r = Inr rb' \<Longrightarrow> holds rb cs \<Longrightarrow> length cs < 32 \<Longrightarrow> 4112 + payload_len cs < 32768 \<Longrightarrow> length c \<le> n \<Longrightarrow> n \<le> 65536 \<Longrightarrow>
   step_refines rb cs n (Suc 0) (Inr [c]) r"
  using holds_append by (fastforce simp: step_refines_def appends_def)

lemma bytes_le_store:
  "bytes_le (LENGTH('a::len) div 8) (uint (word_of_int v :: 'a word)) = bytes_le (LENGTH('a) div 8) (v mod 2 ^ LENGTH('a))"
  by (simp add: unsigned_of_int take_bit_eq_mod)

lemma appends_store_c_int: "appends rb (bytes_le (c_size ty) (v mod 256 ^ c_size ty)) (store_c_int ty v rb)"
  using appends_value [of rb "word_of_int v :: 8 word"] appends_value [of rb "word_of_int v :: 16 word"]
    appends_value [of rb "word_of_int v :: 32 word"] appends_value [of rb "word_of_int v :: 64 word"]
  by (cases ty) (simp_all add: bytes_le_store linx_ringbuf_store_s8_def linx_ringbuf_store_s16_def linx_ringbuf_store_s32_def
      linx_ringbuf_store_s64_def linx_ringbuf_store_u8_def linx_ringbuf_store_u16_def linx_ringbuf_store_u32_def linx_ringbuf_store_u64_def
      unsigned_of_int take_bit_eq_mod)

lemma c_size_le: "c_size ty \<le> 8"
  by (cases ty) simp_all

lemma args_param_length: "helpers_ok pe \<Longrightarrow> length (args_param pe p len m) \<le> unat m"
  using buf_param_length [of pe p m USER] buf_param_length [of pe p len USER]
  by (auto simp: args_param_def Let_def word_le_nat_alt Suc_le_eq le_diff_conv)

lemma len_max_bound: "unat (get_len pe len) \<le> len_max len"
proof -
  have "unat (send_len pe) < 65536" using unsigned_less [of "send_len pe"] by simp
  then show ?thesis by (cases len) simp_all
qed

lemma holds_pos: "holds rb cs \<Longrightarrow> rb_pos rb = word_of_nat (4112 + payload_len cs)"
  by (simp add: holds_def)

lemma holds_index: "holds rb cs \<Longrightarrow> length cs < 32 \<Longrightarrow> unat (rb_index rb) < 32"
  by (simp add: holds_def unat_of_nat)

lemma same_header_refl [simp]: "same_header k rb rb"
  by (simp add: same_header_def)

lemma same_header_trans: "same_header j a b \<Longrightarrow> same_header k b c \<Longrightarrow> j \<le> k \<Longrightarrow> same_header k a c"
  by (auto simp: same_header_def)

lemma refines_char:
  assumes "helpers_ok pe" "holds rb cs" "length cs < 32" "4112 + payload_len cs + max 1 (unat limit) < 32768"
  shows "step_refines rb cs (max 1 (unat limit)) 1 (step_params pe (StoreChar p limit mem)) (run_step pe (StoreChar p limit mem) rb)"
proof -
  obtain k rb' where "linx_ringbuf_store_charpointer pe (get_ptr pe p) limit mem rb = Inr (k, rb')"
    "appends rb (str_param pe (get_ptr pe p) limit mem) rb'"
    using appends_charpointer [OF assms(1) holds_pos [OF assms(2)], of limit "get_ptr pe p" mem] assms(4)
    by (auto simp: max_def split: if_splits)
  then show ?thesis
    using assms str_param_length [OF assms(1), of "get_ptr pe p" limit mem] by (auto intro!: step_refinesI)
qed

lemma refines_bytes:
  assumes "helpers_ok pe" "holds rb cs" "length cs < 32" "4112 + payload_len cs + len_max len < 32768"
  shows "step_refines rb cs (len_max len) 1 (step_params pe (StoreBytes p len)) (run_step pe (StoreBytes p len) rb)"
proof -
  have len: "unat (get_len pe len) \<le> len_max len" by (rule len_max_bound)
  obtain k rb' where "linx_ringbuf_store_bytebuf pe (get_ptr pe p) (get_len pe len) USER rb = Inr (k, rb')"
    "appends rb (buf_param pe (get_ptr pe p) (get_len pe len) USER) rb'"
    using appends_bytebuf [OF assms(1) holds_pos [OF assms(2)], of "get_len pe len" "get_ptr pe p" USER] assms(4) len by auto
  then show ?thesis
    using assms len buf_param_length [OF assms(1), of "get_ptr pe p" "get_len pe len" USER] by (auto intro!: step_refinesI)
qed

lemma refines_args:
  assumes "helpers_ok pe" "holds rb cs" "length cs < 32" "4112 + payload_len cs + unat m < 32768"
  shows "step_refines rb cs (unat m) 1 (step_params pe (StoreArgs m)) (run_step pe (StoreArgs m) rb)"
proof -
  let ?len = "ucast (arg_end pe - arg_start pe) :: 16 word"
  obtain rb' where "linx_ringbuf_store_charbufarray_as_bytebuf pe (arg_start pe) ?len m rb = Inr rb'"
    "appends rb (args_param pe (arg_start pe) ?len m) rb'"
    using appends_args [OF assms(1) holds_pos [OF assms(2)] _ _ _ holds_index [OF assms(2,3)], of m "arg_start pe" ?len] assms(4) by auto
  then show ?thesis using assms args_param_length [OF assms(1), of "arg_start pe" ?len m] by (auto intro!: step_refinesI)
qed

lemma refines_tuple:
  assumes "holds rb cs" "length cs < 32" "4112 + payload_len cs + 13 < 32768"
  shows "step_refines rb cs 13 1 (step_params pe (StoreTuple dir)) (run_step pe (StoreTuple dir) rb)"
proof -
  let ?s = "sock_param pe (ucast (arg pe 0)) dir (arg pe 4)"
  note a = appends_socktuple [OF holds_pos [OF assms(1)], of pe "ucast (arg pe 0)" dir "arg pe 4"]
  show ?thesis
  proof (cases ?s)
    case (Inl f)
    with a assms(3) show ?thesis by (simp add: step_refines_def)
  next
    case (Inr c)
    with a assms(3) obtain rb' where "run_step pe (StoreTuple dir) rb = Inr rb'" "appends rb c rb'" "length c \<le> 13" by auto
    with Inr assms show ?thesis by (auto intro!: step_refinesI)
  qed
qed

lemma refines_weaken: "step_refines rb cs n k ds r \<Longrightarrow> n \<le> n' \<Longrightarrow> k \<le> k' \<Longrightarrow> step_refines rb cs n' k' ds r"
  by (auto simp: step_refines_def split: sum.splits)

lemma branch_bounds:
  fixes a b c :: nat
  assumes "a + max k l \<le> 32" "b + max m n < c"
  shows "a + k \<le> 32" "b + m < c" "a + l \<le> 32" "b + n < c"
  using assms by auto

lemma refines_seq:
  assumes "step_refines rb cs n k ds r"
    and "\<And>rb' d. holds rb' (cs @ d) \<Longrightarrow> payload_len d \<le> n \<Longrightarrow> length d \<le> k \<Longrightarrow> step_refines rb' (cs @ d) n' k' es (f rb')"
  shows "step_refines rb cs (n + n') (k + k') (res_bind ds (\<lambda>d. map_sum id (\<lambda>e. d @ e) es)) (res_bind r f)"
proof (cases ds)
  case (Inl x)
  with assms(1) show ?thesis by (simp add: step_refines_def)
next
  case (Inr d)
  with assms(1) obtain rb' where rb': "r = Inr rb'" "holds rb' (cs @ d)" "same_header (length (cs @ d)) rb rb'" "payload_len d \<le> n" "length d \<le> k"
    by (auto simp: step_refines_def)
  show ?thesis
  proof (cases es)
    case (Inl x)
    with Inr rb' assms(2) [of rb' d] show ?thesis by (simp add: step_refines_def)
  next
    case es: (Inr e)
    with rb' assms(2) [of rb' d] obtain rb2 where rb2: "f rb' = Inr rb2" "holds rb2 (cs @ d @ e)"
      "same_header (length (cs @ d @ e)) rb' rb2" "payload_len e \<le> n'" "length e \<le> k'" by (auto simp: step_refines_def)
    have "same_header (length (cs @ d @ e)) rb rb2" using same_header_trans [OF rb'(3) rb2(3)] by simp
    with Inr es rb' rb2 show ?thesis by (simp add: step_refines_def)
  qed
qed

text \<open>Within the static bounds a run of the steps faults exactly where \<open>steps_params\<close> does, and otherwise it appends these parameters
  and leaves the header alone.\<close>

lemma run_refines:
  assumes pe: "helpers_ok pe"
  shows "holds rb cs \<Longrightarrow> length cs + step_count s \<le> 32 \<Longrightarrow> 4112 + payload_len cs + step_max s < 32768 \<Longrightarrow>
      step_refines rb cs (step_max s) (step_count s) (step_params pe s) (run_step pe s rb)"
    and "holds rb cs \<Longrightarrow> length cs + steps_count ss \<le> 32 \<Longrightarrow> 4112 + payload_len cs + steps_max ss < 32768 \<Longrightarrow>
      step_refines rb cs (steps_max ss) (steps_count ss) (steps_params pe ss) (run_steps pe ss rb)"
proof (induction s and ss arbitrary: rb cs and rb cs rule: step_max_steps_max.induct)
  case (1 ty src)
  then show ?case using c_size_le [of ty] by (auto intro!: step_refinesI [OF appends_store_c_int])
next
  case (2 p limit mem)
  then show ?case using refines_char [OF pe 2(1)] by simp
next
  case (3 p len)
  then show ?case using refines_bytes [OF pe 3(1)] by simp
next
  case (4 m)
  then show ?case using refines_args [OF pe 4(1)] by simp
next
  case 5
  then show ?case by (auto intro!: step_refinesI [OF appends_empty])
next
  case (6 dir)
  then show ?case using refines_tuple [OF 6(1)] by simp
next
  case (7 ss ts)
  note b = branch_bounds [OF 7(4) [unfolded step_count.simps] 7(5) [unfolded step_max.simps]]
  show ?case
    using refines_weaken [OF 7(1) [OF 7(3) b(1,2)]] refines_weaken [OF 7(2) [OF 7(3) b(3,4)]] by simp
next
  case (8 ss ts)
  note b = branch_bounds [OF 8(4) [unfolded step_count.simps] 8(5) [unfolded step_max.simps]]
  show ?case
    using refines_weaken [OF 8(1) [OF 8(3) b(1,2)]] refines_weaken [OF 8(2) [OF 8(3) b(3,4)]] by simp
next
  case 9
  then show ?case by (simp add: step_refines_def)
next
  case (10 s ss)
  have "step_refines rb cs (step_max s) (step_count s) (step_params pe s) (run_step pe s rb)"
    using 10(3-5) by (intro 10(1)) simp_all
  then show ?case
    using 10(2,4,5) refines_seq [of rb cs "step_max s" "step_count s" "step_params pe s" "run_step pe s rb" "steps_max ss" "steps_count ss"
        "steps_params pe ss" "run_steps pe ss"] by (simp add: eta_contract_eq)
qed

section \<open>The submitted record\<close>

definition bytes_at :: "nat \<Rightarrow> nat \<Rightarrow> bytes \<Rightarrow> bytes" where
  "bytes_at k n buf = take n (drop k buf)"

definition word_at :: "nat \<Rightarrow> bytes \<Rightarrow> 64 word" where
  "word_at k buf = word_of_int (le_val (bytes_at k 8 buf))"

definition text_at :: "nat \<Rightarrow> bytes \<Rightarrow> string" where
  "text_at k buf = map byte_char (takeWhile (\<lambda>b. b \<noteq> 0) (drop k buf))"

text \<open>The members of \<^verbatim>\<open>linx_event_t\<close> as a reader at address \<open>a\<close> sees them in the bytes \<open>buf\<close>.\<close>

definition event_of :: "ptr \<Rightarrow> bytes \<Rightarrow> linx_event" where
  "event_of a buf =
    \<lparr>le_addr = a, le_pid = word_at 8 buf, le_ppid = word_at 16 buf, le_time = word_at 40 buf, le_res = word_at 48 buf,
     le_type = nat (le_val (bytes_at 56 4 buf)), le_comm = text_at off_comm buf, le_cmdline = text_at off_cmdline buf,
     le_params_size = (\<lambda>i. word_at (off_params_size + 8 * i) buf)\<rparr>"

definition event_record :: "probe_env \<Rightarrow> nat \<Rightarrow> 64 word \<Rightarrow> bytes list \<Rightarrow> bytes \<Rightarrow> bool" where
  "event_record pe type res cs out \<longleftrightarrow> length out = 4112 + payload_len cs \<and>
     bytes_at 8 8 out = bytes_le 8 (uint (ucast (pe_pid_tgid pe) :: 32 word)) \<and>
     bytes_at 16 8 out = bytes_le 8 (uint (linx_get_ppid (pe_kernel pe))) \<and>
     bytes_at 40 8 out = bytes_le 8 (uint (pe_boot_time pe + pe_boot_ns pe)) \<and> bytes_at 48 8 out = bytes_le 8 (uint res) \<and>
     bytes_at 56 4 out = bytes_le 4 (uint (word_of_nat type :: 32 word)) \<and> bytes_at off_comm 16 out = pe_comm pe \<and>
     (\<forall>i < length cs. bytes_at (off_params_size + 8 * i) 8 out = bytes_le 8 (int (length (cs ! i)))) \<and>
     bytes_at off_size 8 out = bytes_le 8 (int (length out)) \<and> drop 4112 out = concat cs"

lemma bytes_at_fetch: "k + m \<le> n \<Longrightarrow> bytes_at k m (fetch 0 n d) = fetch k m d"
  by (simp add: bytes_at_def take_drop_fetch)

lemma bytes_at_append: "k + m \<le> length out \<Longrightarrow> bytes_at k m (out @ junk) = bytes_at k m out"
  by (simp add: bytes_at_def)

lemma cmdline_outside:
  assumes "helpers_ok pe" "a + n \<le> off_cmdline \<or> off_params_size \<le> a"
  shows "fetch a n (snd (linx_get_process_cmdline pe d)) = fetch a n d"
proof (cases "kv_args (pe_kernel pe)")
  case None
  then show ?thesis by (simp add: linx_get_process_cmdline_def)
next
  case (Some se)
  obtain s e where se: "se = (s, e)" by (cases se)
  let ?len = "unat (e - s)"
  obtain r bs where r: "pe_read pe USER s ?len = (r, bs)" by (cases "pe_read pe USER s ?len")
  have "fetch a n (put off_cmdline xs d') = fetch a n d'" if "length xs \<le> 127" for xs d'
    using that assms(2) by (intro fetch_put_other) (auto simp: off_cmdline_def off_params_size_def)
  moreover have "fetch a n (put (off_cmdline + (?len - 1)) [0] d') = fetch a n d'" if "?len \<le> 127" for d'
    using that assms(2) by (intro fetch_put_other) (auto simp: off_cmdline_def off_params_size_def)
  ultimately show ?thesis
    using Some se r helpers_read(1) [OF assms(1) r]
    by (auto simp: linx_get_process_cmdline_def LINX_CMDLINE_MAX_SIZE_def Let_def)
qed

lemma length_put_word: "length (bytes_le (LENGTH('a::len) div 8) (uint (v :: 'a word))) = LENGTH('a) div 8"
  by simp

lemmas fetch_header = fetch_put_other fetch_put_same put_word_def off_size_def off_comm_def

lemma load_event_header:
  assumes "helpers_ok pe"
  shows "let d = rb_data (linx_ringbuf_load_event pe type res rb)
    in fetch 8 8 d = bytes_le 8 (uint (ucast (pe_pid_tgid pe) :: 32 word)) \<and> fetch 16 8 d = bytes_le 8 (uint (linx_get_ppid (pe_kernel pe))) \<and>
       fetch 40 8 d = bytes_le 8 (uint (pe_boot_time pe + pe_boot_ns pe)) \<and> fetch 48 8 d = bytes_le 8 (uint res) \<and>
       fetch 56 4 d = bytes_le 4 (uint (word_of_nat type :: 32 word)) \<and> fetch off_comm 16 d = pe_comm pe"
proof -
  have c: "length (pe_comm pe) = 16" using assms by (simp add: helpers_ok_def)
  note out = cmdline_outside [OF assms, unfolded off_cmdline_def off_params_size_def]
  have u: "uint (ucast x :: 64 word) = uint x" for x :: "32 word"
    using uint_bounded [of x] by (simp add: unsigned_ucast_eq take_bit_int_eq_self)
  show ?thesis
    using c by (simp add: linx_ringbuf_load_event_def Let_def out fetch_header u)
qed

lemma load_event_holds: "holds (linx_ringbuf_load_event pe type res rb) []"
  by (simp add: holds_def linx_ringbuf_load_event_def Let_def LINX_EVENT_HEADER_SIZE_def fetch_def)

lemma fetch_same_header:
  "same_header k rb rb' \<Longrightarrow> a + n \<le> off_params_size \<or> off_params_size + 8 * k \<le> a \<and> a + n \<le> 4112 \<Longrightarrow>
   fetch a n (rb_data rb') = fetch a n (rb_data rb)"
  by (auto simp: same_header_def fetch_def)

lemma load_event_keeps:
  assumes "helpers_ok pe" "off_params_size \<le> a \<and> a + n \<le> off_size"
  shows "fetch a n (rb_data (linx_ringbuf_load_event pe type res rb)) = fetch a n (rb_data rb)"
proof -
  have c: "length (pe_comm pe) = 16" using assms(1) by (simp add: helpers_ok_def)
  show ?thesis
    using assms(2) c cmdline_outside [OF assms(1), of a n]
    by (simp add: linx_ringbuf_load_event_def Let_def put_word_def fetch_put_other off_size_def off_comm_def off_params_size_def)
qed

text \<open>What the record keeps of the buffer: the sizes behind those of its parameters, and the command line when the one of the
  process is empty or does not fit.\<close>

definition keeps_old :: "probe_env \<Rightarrow> nat \<Rightarrow> linx_ringbuf \<Rightarrow> bytes \<Rightarrow> bool" where
  "keeps_old pe k rb out \<longleftrightarrow>
     (\<forall>i. k \<le> i \<and> i < 32 \<longrightarrow> bytes_at (off_params_size + 8 * i) 8 out = fetch (off_params_size + 8 * i) 8 (rb_data rb)) \<and>
     ((case kv_args (pe_kernel pe) of None \<Rightarrow> True | Some (s, e) \<Rightarrow> e = s \<or> unat (e - s) \<ge> LINX_CMDLINE_MAX_SIZE) \<longrightarrow>
        bytes_at off_cmdline LINX_CMDLINE_MAX_SIZE out = fetch off_cmdline LINX_CMDLINE_MAX_SIZE (rb_data rb))"

lemma load_event_old_cmdline:
  assumes "helpers_ok pe"
    and "case kv_args (pe_kernel pe) of None \<Rightarrow> True | Some (s, e) \<Rightarrow> e = s \<or> unat (e - s) \<ge> LINX_CMDLINE_MAX_SIZE"
  shows "fetch off_cmdline 128 (rb_data (linx_ringbuf_load_event pe type res rb)) = fetch off_cmdline 128 (rb_data rb)"
proof -
  have c: "length (pe_comm pe) = 16" using assms(1) by (simp add: helpers_ok_def)
  have "snd (linx_get_process_cmdline pe d) = d" for d
    using assms(2) by (auto simp: linx_get_process_cmdline_def LINX_CMDLINE_MAX_SIZE_def Let_def split: option.splits prod.splits)
  with c show ?thesis
    by (simp add: linx_ringbuf_load_event_def Let_def put_word_def fetch_put_other off_size_def off_comm_def off_cmdline_def)
qed

text \<open>A program within the bounds never loses its event: it submits one record with the header of the run and its parameters, and
  the record is at most as long as the buffer of the reader.\<close>

lemma run_prog_record:
  assumes "helpers_ok pe" "steps_bounded (pp_steps p)" "steps_params pe (pp_steps p) = Inr cs"
  shows "\<exists>out rb'. run_prog ok pe p (Some rb) = Inr (if ok then Some out else None, Some rb') \<and> length out < 32768 \<and> length cs \<le> 32 \<and>
    event_record pe (pp_type p) (if pp_ret p then pe_ret pe else - 1) cs out \<and> keeps_old pe (length cs) rb out"
proof -
  let ?res = "if pp_ret p then pe_ret pe else - 1"
  let ?rb0 = "linx_ringbuf_load_event pe (pp_type p) ?res rb"
  obtain rb1 where rb1: "run_steps pe (pp_steps p) ?rb0 = Inr rb1" "holds rb1 cs" "same_header (length cs) ?rb0 rb1"
    "payload_len cs \<le> steps_max (pp_steps p)" "length cs \<le> steps_count (pp_steps p)"
    using run_refines(2) [OF assms(1) load_event_holds, of "pp_steps p"] assms(2,3)
    by (fastforce simp: step_refines_def steps_bounded_def)
  then have n: "payload_len cs < 28656" "length cs \<le> 32" using assms(2) by (simp_all add: steps_bounded_def)
  then have pos: "unat (rb_pos rb1) = 4112 + payload_len cs" "\<not> 32768 < rb_pos rb1"
    using rb1(2) by (simp_all add: holds_def unat_word_ariths word_less_nat_alt unat_of_nat)
  define d where "d = put_word off_size (rb_pos rb1) (rb_data rb1)"
  let ?out = "fetch 0 (4112 + payload_len cs) d"
  have run: "run_prog ok pe p (Some rb) = Inr (if ok then Some ?out else None, Some (rb1\<lparr>rb_data := d\<rparr>))"
    using rb1(1) pos by (simp add: run_prog_def linx_ringbuf_submit_event_def LINX_EVENT_MAX_SIZE_def d_def Let_def)
  have low: "fetch a m d = fetch a m (rb_data rb1)" if "a + m \<le> off_size \<or> 4112 \<le> a" for a m
    using that by (simp add: d_def put_word_def off_size_def fetch_put_other)
  have head: "fetch a m d = fetch a m (rb_data ?rb0)" if "a + m \<le> off_params_size" for a m
    using that low [of a m] fetch_same_header [OF rb1(3)] by (simp add: off_size_def off_params_size_def)
  have out: "bytes_at a m ?out = fetch a m d" if "a + m \<le> 4112 + payload_len cs" for a m using that by (rule bytes_at_fetch)
  have "fetch off_size 8 d = bytes_le 8 (int (4112 + payload_len cs))"
    using arg_cong [OF pos(1), of int] by (simp add: d_def put_word_def fetch_put_same)
  moreover have "fetch (off_params_size + 8 * i) 8 d = bytes_le 8 (int (length (cs ! i)))" if "i < length cs" for i
    using that low [of "off_params_size + 8 * i" 8] rb1(2) n(2) by (simp add: holds_def off_params_size_def off_size_def)
  moreover have "drop 4112 ?out = concat cs"
    using fetch_add [of 0 4112 "payload_len cs" d] low [of 4112 "payload_len cs"] rb1(2) by (simp add: holds_def)
  ultimately have "event_record pe (pp_type p) ?res cs ?out"
    using out head load_event_header [OF assms(1), of "pp_type p" ?res rb] n
    by (simp add: event_record_def Let_def off_params_size_def off_size_def off_comm_def)
  moreover have "bytes_at (off_params_size + 8 * i) 8 ?out = fetch (off_params_size + 8 * i) 8 (rb_data rb)" if "length cs \<le> i" "i < 32" for i
    using that out [of "off_params_size + 8 * i" 8] low [of "off_params_size + 8 * i" 8] fetch_same_header [OF rb1(3), of "off_params_size + 8 * i" 8]
      load_event_keeps [OF assms(1), of "off_params_size + 8 * i" 8 "pp_type p" ?res rb] by (simp add: off_size_def off_params_size_def)
  then have "keeps_old pe (length cs) rb ?out"
    using out [of off_cmdline 128] head [of off_cmdline 128] load_event_old_cmdline [OF assms(1), of "pp_type p" ?res rb]
    by (simp add: keeps_old_def LINX_CMDLINE_MAX_SIZE_def off_cmdline_def off_params_size_def)
  ultimately show ?thesis using n run by (intro exI [of _ ?out]) auto
qed

section \<open>Reading the record\<close>

lemma word_at_bytes: "bytes_at k 8 buf = bytes_le 8 v \<Longrightarrow> 0 \<le> v \<Longrightarrow> v < 2 ^ 64 \<Longrightarrow> word_at k buf = word_of_int v"
  using le_val_bytes_le [of v 8] by (simp add: word_at_def)

lemma event_of_fields:
  assumes "event_record pe type res cs out" "type < 2 ^ 32"
  shows "le_type (event_of a (out @ junk)) = type"
    and "le_pid (event_of a (out @ junk)) = ucast (ucast (pe_pid_tgid pe) :: 32 word)"
    and "le_res (event_of a (out @ junk)) = res"
    and "le_time (event_of a (out @ junk)) = pe_boot_time pe + pe_boot_ns pe"
proof -
  note r = assms(1) [unfolded event_record_def]
  have len: "4112 \<le> length out" using r by simp
  have w: "word_at k (out @ junk) = v" if "bytes_at k 8 out = bytes_le 8 (uint v)" "k \<le> 4104" for k and v :: "64 word"
    using that len uint_bounded [of v] by (subst word_at_bytes [of _ _ "uint v"]) (simp_all add: bytes_at_append)
  have "le_val (bytes_at 56 4 out) = int type"
    using r assms(2) by (simp add: le_val_bytes_le unsigned_of_nat take_bit_nat_eq_self)
  then show "le_type (event_of a (out @ junk)) = type" using len by (simp add: event_of_def bytes_at_append)
  have u: "uint (ucast x :: 64 word) = uint x" for x :: "32 word"
    using uint_bounded [of x] by (simp add: unsigned_ucast_eq take_bit_int_eq_self)
  show "le_pid (event_of a (out @ junk)) = ucast (ucast (pe_pid_tgid pe) :: 32 word)"
    using r w [of 8] by (simp add: event_of_def u)
  show "le_res (event_of a (out @ junk)) = res" "le_time (event_of a (out @ junk)) = pe_boot_time pe + pe_boot_ns pe"
    using r w [of 48] w [of 40] by (simp_all add: event_of_def)
qed

lemma event_of_sizes:
  assumes "event_record pe type res cs out" "length cs \<le> 32" "length out < 2 ^ 32" "i < length cs"
  shows "le_params_size (event_of a (out @ junk)) i = word_of_nat (length (cs ! i))"
proof -
  have "length (cs ! i) \<le> payload_len cs"
    using assms(4) by (simp add: payload_len_def length_concat member_le_sum_list)
  then have "length (cs ! i) < 2 ^ 64" using assms(1,3) by (simp add: event_record_def)
  moreover have "bytes_at (off_params_size + 8 * i) 8 (out @ junk) = bytes_le 8 (int (length (cs ! i)))"
    using assms(1,2,4) by (subst bytes_at_append) (simp_all add: event_record_def off_params_size_def)
  ultimately show ?thesis using word_at_bytes [of "off_params_size + 8 * i" "out @ junk" "int (length (cs ! i))"] by (simp add: event_of_def)
qed

lemma payload_len_take: "i < length cs \<Longrightarrow> payload_len (take (Suc i) cs) = payload_len (take i cs) + length (cs ! i)"
  by (simp add: take_Suc_conv_app_nth)

lemma slot_of_record:
  assumes "event_record pe type res cs out" "length cs \<le> 32" "length out < 2 ^ 32" "i \<le> length cs"
  shows "slot_addr (event_of a (out @ junk)) i = a + word_of_nat (4112 + payload_len (take i cs))"
  using assms(4)
proof (induction i)
  case 0
  then show ?case by (simp add: slot_addr_def event_of_def LINX_EVENT_HEADER_SIZE_def)
next
  case (Suc i)
  have "slot_addr (event_of a (out @ junk)) (Suc i) = slot_addr (event_of a (out @ junk)) i + le_params_size (event_of a (out @ junk)) i"
    by (simp add: slot_addr_def)
  with Suc event_of_sizes [OF assms(1-3), of i a junk] show ?case by (simp add: payload_len_take add.assoc)
qed

lemma slot_inside:
  assumes "event_record pe type res cs out" "length cs \<le> 32" "length out < 2 ^ 32" "i < length cs"
  shows "unat (slot_addr (event_of a (out @ junk)) i - a) = 4112 + payload_len (take i cs)"
    and "unat (slot_addr (event_of a (out @ junk)) i - a) + length (cs ! i) \<le> length out"
proof -
  let ?n = "payload_len (take i cs)"
  have len: "?n + length (cs ! i) \<le> payload_len cs"
    using assms(4) payload_len_simps(3) [of "take (Suc i) cs" "drop (Suc i) cs"] by (simp add: payload_len_take)
  with assms(1,3) have "4112 + ?n < 2 ^ 32" by (simp add: event_record_def)
  then show at: "unat (slot_addr (event_of a (out @ junk)) i - a) = 4112 + ?n"
    using slot_of_record [OF assms(1-3), of i a junk] assms(4) by (simp add: unat_word_ariths unat_of_nat)
  show "unat (slot_addr (event_of a (out @ junk)) i - a) + length (cs ! i) \<le> length out"
    using len assms(1) unfolding at by (simp add: event_record_def)
qed

lemma slot_bytes:
  assumes "event_record pe type res cs out" "length cs \<le> 32" "length out < 2 ^ 32" "i < length cs"
  shows "bytes_at (unat (slot_addr (event_of a (out @ junk)) i - a)) (length (cs ! i)) (out @ junk) = cs ! i"
proof -
  let ?n = "payload_len (take i cs)"
  note at = slot_inside(1) [OF assms, of a junk] and inside = slot_inside(2) [OF assms, of a junk]
  have "concat cs = concat (take i cs) @ cs ! i @ concat (drop (Suc i) cs)"
    using assms(4) by (metis concat.simps(2) concat_append id_take_nth_drop)
  then have "take (length (cs ! i)) (drop ?n (concat cs)) = cs ! i" by (simp add: payload_len_def)
  moreover have "bytes_at (4112 + ?n) (length (cs ! i)) (out @ junk) = bytes_at (4112 + ?n) (length (cs ! i)) out"
    using inside unfolding at by (rule bytes_at_append)
  moreover have "bytes_at (4112 + ?n) (length (cs ! i)) out = take (length (cs ! i)) (drop ?n (drop 4112 out))"
    by (simp add: bytes_at_def add.commute)
  moreover have "drop 4112 out = concat cs" using assms(1) by (simp add: event_record_def)
  ultimately show ?thesis by (simp only: at)
qed

section \<open>Shapes\<close>

text \<open>The widths that the stores of a program give its parameters, per branch: an exact width, or anything.\<close>

datatype shape = Exact nat | Any

fun step_shapes :: "probe_step \<Rightarrow> shape list list" and steps_shapes :: "probe_step list \<Rightarrow> shape list list" where
  "step_shapes (Store ty src) = [[Exact (c_size ty)]]"
| "step_shapes StoreEmpty = [[Exact 0]]"
| "step_shapes (IfRet ss ts) = steps_shapes ss @ steps_shapes ts"
| "step_shapes (IfFd ss ts) = steps_shapes ss @ steps_shapes ts"
| "step_shapes s = [[Any]]"
| "steps_shapes [] = [[]]"
| "steps_shapes (s # ss) = concat (map (\<lambda>x. map (\<lambda>y. x @ y) (steps_shapes ss)) (step_shapes s))"

fun has_shape :: "shape \<Rightarrow> bytes \<Rightarrow> bool" where
  "has_shape (Exact n) c = (length c = n)"
| "has_shape Any c = True"

lemma params_shapes:
  "step_params pe s = Inr cs \<Longrightarrow> \<exists>sh \<in> set (step_shapes s). list_all2 has_shape sh cs"
  "steps_params pe ss = Inr cs \<Longrightarrow> \<exists>sh \<in> set (steps_shapes ss). list_all2 has_shape sh cs"
proof (induction pe s and pe ss arbitrary: cs and cs rule: step_params_steps_params.induct)
  case (10 pe s ss)
  then obtain ds es where d: "step_params pe s = Inr ds" "steps_params pe ss = Inr es" "cs = ds @ es" by auto
  with 10 obtain x y where "x \<in> set (step_shapes s)" "list_all2 has_shape x ds" "y \<in> set (steps_shapes ss)" "list_all2 has_shape y es"
    by blast
  with d have "x @ y \<in> set (steps_shapes (s # ss))" "list_all2 has_shape (x @ y) cs" by (auto intro!: list_all2_appendI)
  then show ?case by blast
qed (auto split: if_splits)

end
