(* ===== verification/Probe_Calls.thy ===== *)
theory Probe_Calls
  imports Probe_Steps
begin

text \<open>
  The programs of \<^verbatim>\<open>kernel/ebpf/tail_calls/NNN-<name>.bpf.c\<close>, one definition per file: the program at the entry and the program at
  the exit of a system call, with the number of their event type in \<^verbatim>\<open>linx_event_type.h\<close> and their stores. The theory compares them with
  the rows of the event table: the enrichment takes the number and the types of the parameters from there, not from the event.
\<close>

section \<open>The programs\<close>

definition probe :: "string \<Rightarrow> nat \<Rightarrow> bool \<Rightarrow> probe_step list \<Rightarrow> probe_prog" where
  "probe nm ty ret ss = \<lparr>pp_name = nm, pp_type = ty, pp_ret = ret, pp_steps = ss\<rparr>"

definition calls_read :: "probe_prog list" where
  "calls_read =
    [probe ''read_e'' 0 False [Store S64 (Arg S32 0), Store U32 (Arg U32 2)],
      probe ''read_x'' 1 True [Store S64 Ret, IfRet [StoreBytes (ArgPtr 1) (Len 512)] [StoreEmpty], Store S64 (Arg S32 0), Store
       U32 (Arg U32 2)]]"

definition calls_write :: "probe_prog list" where
  "calls_write =
    [probe ''write_e'' 2 False [Store S64 (Arg S32 0), Store U32 (Arg U32 2)],
      probe ''write_x'' 3 True [Store S64 Ret, StoreBytes (ArgPtr 1) (Len 512), Store S64 (Arg S32 0), Store U32 (Arg U64 2)]]"

definition calls_open :: "probe_prog list" where
  "calls_open =
    [probe ''open_e'' 4 False [],
      probe ''open_x'' 5 True [StoreChar (ArgPtr 0) LINX_CHARBUF_MAX_SIZE USER, Store S32 (Arg S32 1), Store U16 (Arg U16 2)]]"

definition calls_close :: "probe_prog list" where
  "calls_close =
    [probe ''close_e'' 6 False [],
      probe ''close_x'' 7 True [Store U32 (Arg U32 0)]]"

definition calls_stat :: "probe_prog list" where
  "calls_stat =
    [probe ''stat_e'' 8 False [],
      probe ''stat_x'' 9 True [StoreChar (ArgPtr 0) LINX_CHARBUF_MAX_SIZE USER, Store U64 (Arg U64 1)]]"

definition calls_fstat :: "probe_prog list" where
  "calls_fstat =
    [probe ''fstat_e'' 10 False [],
      probe ''fstat_x'' 11 True [Store U32 (Arg U32 0), Store U64 (Arg U64 1)]]"

definition calls_lstat :: "probe_prog list" where
  "calls_lstat =
    [probe ''lstat_e'' 12 False [],
      probe ''lstat_x'' 13 True [StoreChar (ArgPtr 0) LINX_CHARBUF_MAX_SIZE USER, Store U64 (Arg U64 1)]]"

definition calls_poll :: "probe_prog list" where
  "calls_poll =
    [probe ''poll_e'' 14 False [],
      probe ''poll_x'' 15 True [Store U64 (Arg U64 0), Store U32 (Arg U32 1), Store S32 (Arg S32 2)]]"

definition calls_lseek :: "probe_prog list" where
  "calls_lseek =
    [probe ''lseek_e'' 16 False [],
      probe ''lseek_x'' 17 True [Store U32 (Arg U32 0), Store S64 (Arg S64 1), Store U32 (Arg U32 2)]]"

definition calls_mmap :: "probe_prog list" where
  "calls_mmap =
    [probe ''mmap_e'' 18 False [],
      probe ''mmap_x'' 19 True [Store U64 (Arg U64 0), Store U64 (Arg U64 1), Store U64 (Arg U64 2), Store U64 (Arg U64 3),
       Store U64 (Arg U64 4), Store U64 (Arg U64 5)]]"

definition calls_mprotect :: "probe_prog list" where
  "calls_mprotect =
    [probe ''mprotect_e'' 20 False [],
      probe ''mprotect_x'' 21 True [Store U64 (Arg U64 0), Store U64 (Arg U64 1), Store U64 (Arg U64 2)]]"

definition calls_munmap :: "probe_prog list" where
  "calls_munmap =
    [probe ''munmap_e'' 22 False [],
      probe ''munmap_x'' 23 True [Store U64 (Arg U64 0), Store U64 (Arg U64 1)]]"

definition calls_brk :: "probe_prog list" where
  "calls_brk =
    [probe ''brk_e'' 24 False [],
      probe ''brk_x'' 25 True [Store U64 (Arg U64 0)]]"

definition calls_rt_sigaction :: "probe_prog list" where
  "calls_rt_sigaction =
    [probe ''rt_sigaction_e'' 26 False [],
      probe ''rt_sigaction_x'' 27 True [Store S32 (Arg S32 0), Store U64 (Arg U64 1), Store U64 (Arg U64 2), Store U64 (Arg U64
       3)]]"

definition calls_rt_sigprocmask :: "probe_prog list" where
  "calls_rt_sigprocmask =
    [probe ''rt_sigprocmask_e'' 28 False [],
      probe ''rt_sigprocmask_x'' 29 True [Store S32 (Arg S32 0), Store U64 (Arg U64 1), Store U64 (Arg U64 2), Store U64 (Arg
       U64 3)]]"

definition calls_rt_sigreturn :: "probe_prog list" where
  "calls_rt_sigreturn =
    [probe ''rt_sigreturn_e'' 30 False [],
      probe ''rt_sigreturn_x'' 31 True []]"

definition calls_ioctl :: "probe_prog list" where
  "calls_ioctl =
    [probe ''ioctl_e'' 32 False [],
      probe ''ioctl_x'' 33 True [Store U32 (Arg U32 0), Store U32 (Arg U32 1), Store U64 (Arg U64 2)]]"

definition calls_pread64 :: "probe_prog list" where
  "calls_pread64 =
    [probe ''pread64_e'' 34 False [],
      probe ''pread64_x'' 35 True [Store U32 (Arg U32 0), StoreChar (ArgPtr 1) LINX_CHARBUF_MAX_SIZE USER, Store U64 (Arg U64
       2), Store S64 (Arg S64 3)]]"

definition calls_pwrite64 :: "probe_prog list" where
  "calls_pwrite64 =
    [probe ''pwrite64_e'' 36 False [],
      probe ''pwrite64_x'' 37 True [Store U32 (Arg U32 0), StoreChar (ArgPtr 1) LINX_CHARBUF_MAX_SIZE USER, Store U64 (Arg U64
       2), Store S64 (Arg S64 3)]]"

definition calls_readv :: "probe_prog list" where
  "calls_readv =
    [probe ''readv_e'' 38 False [],
      probe ''readv_x'' 39 True [Store U64 (Arg U64 0), Store U64 (Arg U64 1), Store U64 (Arg U64 2)]]"

definition calls_writev :: "probe_prog list" where
  "calls_writev =
    [probe ''writev_e'' 40 False [],
      probe ''writev_x'' 41 True [Store U64 (Arg U64 0), Store U64 (Arg U64 1), Store U64 (Arg U64 2)]]"

definition calls_access :: "probe_prog list" where
  "calls_access =
    [probe ''access_e'' 42 False [],
      probe ''access_x'' 43 True [StoreChar (ArgPtr 0) LINX_CHARBUF_MAX_SIZE USER, Store S32 (Arg S32 1)]]"

definition calls_pipe :: "probe_prog list" where
  "calls_pipe =
    [probe ''pipe_e'' 44 False [],
      probe ''pipe_x'' 45 True [Store S32 (UserArg S32 0)]]"

definition calls_select :: "probe_prog list" where
  "calls_select =
    [probe ''select_e'' 46 False [],
      probe ''select_x'' 47 True [Store S32 (Arg S32 0), Store U64 (Arg U64 1), Store U64 (Arg U64 2), Store U64 (Arg U64 3),
       Store U64 (Arg U64 4)]]"

definition calls_sched_yield :: "probe_prog list" where
  "calls_sched_yield =
    [probe ''sched_yield_e'' 48 False [],
      probe ''sched_yield_x'' 49 True []]"

definition calls_mremap :: "probe_prog list" where
  "calls_mremap =
    [probe ''mremap_e'' 50 False [],
      probe ''mremap_x'' 51 True [Store U64 (Arg U64 0), Store U64 (Arg U64 1), Store U64 (Arg U64 2), Store U64 (Arg U64 3),
       Store U64 (Arg U64 4)]]"

definition calls_msync :: "probe_prog list" where
  "calls_msync =
    [probe ''msync_e'' 52 False [],
      probe ''msync_x'' 53 True [Store U64 (Arg U64 0), Store U64 (Arg U64 1), Store S32 (Arg S32 2)]]"

definition calls_mincore :: "probe_prog list" where
  "calls_mincore =
    [probe ''mincore_e'' 54 False [],
      probe ''mincore_x'' 55 True [Store U64 (Arg U64 0), Store U64 (Arg U64 1), StoreChar (ArgPtr 2) LINX_CHARBUF_MAX_SIZE
       USER]]"

definition calls_madvise :: "probe_prog list" where
  "calls_madvise =
    [probe ''madvise_e'' 56 False [],
      probe ''madvise_x'' 57 True [Store U64 (Arg U64 0), Store U64 (Arg U64 1), Store S32 (Arg S32 2)]]"

definition calls_shmget :: "probe_prog list" where
  "calls_shmget =
    [probe ''shmget_e'' 58 False [],
      probe ''shmget_x'' 59 True [Store S32 (Arg S32 0), Store U64 (Arg U64 1), Store S32 (Arg S32 2)]]"

definition calls_shmat :: "probe_prog list" where
  "calls_shmat =
    [probe ''shmat_e'' 60 False [],
      probe ''shmat_x'' 61 True [Store S32 (Arg S32 0), StoreChar (ArgPtr 1) LINX_CHARBUF_MAX_SIZE USER, Store S32 (Arg S32
       2)]]"

definition calls_shmctl :: "probe_prog list" where
  "calls_shmctl =
    [probe ''shmctl_e'' 62 False [],
      probe ''shmctl_x'' 63 True [Store S32 (Arg S32 0), Store S32 (Arg S32 1), Store U64 (Arg U64 2)]]"

definition calls_dup :: "probe_prog list" where
  "calls_dup =
    [probe ''dup_e'' 64 False [Store S64 (Arg S32 0)],
      probe ''dup_x'' 65 True [Store S64 Ret, Store S64 (Arg S32 0)]]"

definition calls_dup2 :: "probe_prog list" where
  "calls_dup2 =
    [probe ''dup2_e'' 66 False [Store S64 (Arg S32 0)],
      probe ''dup2_x'' 67 True [Store S64 Ret, Store S64 (Arg S32 0), Store S64 (Arg S32 1)]]"

definition calls_pause :: "probe_prog list" where
  "calls_pause =
    [probe ''pause_e'' 68 False [],
      probe ''pause_x'' 69 True []]"

definition calls_nanosleep :: "probe_prog list" where
  "calls_nanosleep =
    [probe ''nanosleep_e'' 70 False [],
      probe ''nanosleep_x'' 71 True [Store U64 (Arg U64 0), Store U64 (Arg U64 1)]]"

definition calls_getitimer :: "probe_prog list" where
  "calls_getitimer =
    [probe ''getitimer_e'' 72 False [],
      probe ''getitimer_x'' 73 True [Store S32 (Arg S32 0), Store U64 (Arg U64 1)]]"

definition calls_alarm :: "probe_prog list" where
  "calls_alarm =
    [probe ''alarm_e'' 74 False [],
      probe ''alarm_x'' 75 True [Store U32 (Arg U32 0)]]"

definition calls_setitimer :: "probe_prog list" where
  "calls_setitimer =
    [probe ''setitimer_e'' 76 False [],
      probe ''setitimer_x'' 77 True [Store S32 (Arg S32 0), Store U64 (Arg U64 1), Store U64 (Arg U64 2)]]"

definition calls_getpid :: "probe_prog list" where
  "calls_getpid =
    [probe ''getpid_e'' 78 False [],
      probe ''getpid_x'' 79 True []]"

definition calls_sendfile :: "probe_prog list" where
  "calls_sendfile =
    [probe ''sendfile_e'' 80 False [],
      probe ''sendfile_x'' 81 True [Store S32 (Arg S32 0), Store S32 (Arg S32 1), Store S64 (UserArg S64 2), Store U64 (Arg U64
       3)]]"

definition calls_socket :: "probe_prog list" where
  "calls_socket =
    [probe ''socket_e'' 82 False [],
      probe ''socket_x'' 83 True [Store S32 (Arg S32 0), Store S32 (Arg S32 1), Store S32 (Arg S32 2)]]"

definition calls_connect :: "probe_prog list" where
  "calls_connect =
    [probe ''connect_e'' 84 False [],
      probe ''connect_x'' 85 True [Store S32 (Arg S32 0), Store U64 (Arg U64 1), Store S32 (Arg S32 2)]]"

definition calls_accept :: "probe_prog list" where
  "calls_accept =
    [probe ''accept_e'' 86 False [],
      probe ''accept_x'' 87 True [Store S32 (Arg S32 0), Store U64 (Arg U64 1), Store S32 (UserArg S32 2)]]"

definition calls_sendto :: "probe_prog list" where
  "calls_sendto =
    [probe ''sendto_e'' 88 False [Store S64 (Arg S32 0), Store U32 (Arg U32 2), IfFd [StoreTuple OUTBOUND] [StoreEmpty]],
      probe ''sendto_x'' 89 True [Store S64 Ret, StoreBytes (ArgPtr 1) SendLen]]"

definition calls_recvfrom :: "probe_prog list" where
  "calls_recvfrom =
    [probe ''recvfrom_e'' 90 False [Store S64 (Arg S32 0), Store U32 (Arg U32 2)],
      probe ''recvfrom_x'' 91 True [Store S64 Ret, IfRet [StoreTuple INBOUND] [StoreEmpty, StoreEmpty]]]"

definition calls_sendmsg :: "probe_prog list" where
  "calls_sendmsg =
    [probe ''sendmsg_e'' 92 False [],
      probe ''sendmsg_x'' 93 True [Store S32 (Arg S32 0), Store U64 (Arg U64 1), Store U32 (Arg U32 2)]]"

definition calls_recvmsg :: "probe_prog list" where
  "calls_recvmsg =
    [probe ''recvmsg_e'' 94 False [],
      probe ''recvmsg_x'' 95 True [Store S32 (Arg S32 0), Store U64 (Arg U64 1), Store U32 (Arg U32 2)]]"

definition calls_shutdown :: "probe_prog list" where
  "calls_shutdown =
    [probe ''shutdown_e'' 96 False [],
      probe ''shutdown_x'' 97 True [Store S32 (Arg S32 0), Store S32 (Arg S32 1)]]"

definition calls_bind :: "probe_prog list" where
  "calls_bind =
    [probe ''bind_e'' 98 False [],
      probe ''bind_x'' 99 True [Store S32 (Arg S32 0), Store U64 (Arg U64 1), Store S32 (Arg S32 2)]]"

definition calls_listen :: "probe_prog list" where
  "calls_listen =
    [probe ''listen_e'' 100 False [],
      probe ''listen_x'' 101 True [Store S32 (Arg S32 0), Store S32 (Arg S32 1)]]"

definition calls_getsockname :: "probe_prog list" where
  "calls_getsockname =
    [probe ''getsockname_e'' 102 False [],
      probe ''getsockname_x'' 103 True [Store S32 (Arg S32 0), Store U64 (Arg U64 1), Store S32 (UserArg S32 2)]]"

definition calls_getpeername :: "probe_prog list" where
  "calls_getpeername =
    [probe ''getpeername_e'' 104 False [],
      probe ''getpeername_x'' 105 True [Store S32 (Arg S32 0), Store U64 (Arg U64 1), Store S32 (UserArg S32 2)]]"

definition calls_socketpair :: "probe_prog list" where
  "calls_socketpair =
    [probe ''socketpair_e'' 106 False [],
      probe ''socketpair_x'' 107 True [Store S32 (Arg S32 0), Store S32 (Arg S32 1), Store S32 (Arg S32 2), Store S32 (UserArg
       S32 3)]]"

definition calls_setsockopt :: "probe_prog list" where
  "calls_setsockopt =
    [probe ''setsockopt_e'' 108 False [],
      probe ''setsockopt_x'' 109 True [Store S32 (Arg S32 0), Store S32 (Arg S32 1), Store S32 (Arg S32 2), StoreChar (ArgPtr 3)
       LINX_CHARBUF_MAX_SIZE USER, Store S32 (Arg S32 4)]]"

definition calls_getsockopt :: "probe_prog list" where
  "calls_getsockopt =
    [probe ''getsockopt_e'' 110 False [],
      probe ''getsockopt_x'' 111 True [Store S32 (Arg S32 0), Store S32 (Arg S32 1), Store S32 (Arg S32 2), StoreChar (ArgPtr 3)
       LINX_CHARBUF_MAX_SIZE USER, Store S32 (UserArg S32 4)]]"

definition calls_clone :: "probe_prog list" where
  "calls_clone =
    [probe ''clone_e'' 112 False [],
      probe ''clone_x'' 113 True [Store U64 (Arg U64 0), Store U64 (Arg U64 1), Store S32 (UserArg S32 2), Store S32 (UserArg
       S32 3), Store U64 (Arg U64 4)]]"

definition calls_fork :: "probe_prog list" where
  "calls_fork =
    [probe ''fork_e'' 114 False [],
      probe ''fork_x'' 115 True []]"

definition calls_vfork :: "probe_prog list" where
  "calls_vfork =
    [probe ''vfork_e'' 116 False [],
      probe ''vfork_x'' 117 True []]"

definition calls_execve :: "probe_prog list" where
  "calls_execve =
    [probe ''execve_e'' 118 False [StoreChar (ArgPtr 0) LINX_CHARBUF_MAX_SIZE USER],
      probe ''execve_x'' 119 True [StoreChar ArgStart LINX_CHARBUF_MAX_SIZE USER, Store U32 VmSize, Store U32 VmRss, StoreChar
       TaskComm 16 KERNEL, Store U32 Tty, StoreArgs 4096, Store U32 LoginUid, Store S64 Pgid]]"

definition calls_exit :: "probe_prog list" where
  "calls_exit =
    [probe ''exit_e'' 120 False [],
      probe ''exit_x'' 121 True [Store S32 (Arg S32 0)]]"

definition calls_wait4 :: "probe_prog list" where
  "calls_wait4 =
    [probe ''wait4_e'' 122 False [],
      probe ''wait4_x'' 123 True [Store S32 (Arg S32 0), Store S32 (UserArg S32 1), Store S32 (Arg S32 2), Store U64 (Arg U64
       3)]]"

definition calls_kill :: "probe_prog list" where
  "calls_kill =
    [probe ''kill_e'' 124 False [],
      probe ''kill_x'' 125 True [Store S32 (Arg S32 0), Store S32 (Arg S32 1)]]"

definition calls_uname :: "probe_prog list" where
  "calls_uname =
    [probe ''uname_e'' 126 False [],
      probe ''uname_x'' 127 True [Store U64 (Arg U64 0)]]"

definition calls_semget :: "probe_prog list" where
  "calls_semget =
    [probe ''semget_e'' 128 False [],
      probe ''semget_x'' 129 True [Store S32 (Arg S32 0), Store S32 (Arg S32 1), Store S32 (Arg S32 2)]]"

definition calls_semop :: "probe_prog list" where
  "calls_semop =
    [probe ''semop_e'' 130 False [],
      probe ''semop_x'' 131 True [Store S32 (Arg S32 0), Store U64 (Arg U64 1), Store U32 (Arg U32 2)]]"

definition calls_semctl :: "probe_prog list" where
  "calls_semctl =
    [probe ''semctl_e'' 132 False [],
      probe ''semctl_x'' 133 True [Store S32 (Arg S32 0), Store S32 (Arg S32 1), Store S32 (Arg S32 2), Store U64 (Arg U64 3)]]"

definition calls_shmdt :: "probe_prog list" where
  "calls_shmdt =
    [probe ''shmdt_e'' 134 False [],
      probe ''shmdt_x'' 135 True [StoreChar (ArgPtr 0) LINX_CHARBUF_MAX_SIZE USER]]"

definition calls_msgget :: "probe_prog list" where
  "calls_msgget =
    [probe ''msgget_e'' 136 False [],
      probe ''msgget_x'' 137 True [Store S32 (Arg S32 0), Store S32 (Arg S32 1)]]"

definition calls_msgsnd :: "probe_prog list" where
  "calls_msgsnd =
    [probe ''msgsnd_e'' 138 False [],
      probe ''msgsnd_x'' 139 True [Store S32 (Arg S32 0), Store U64 (Arg U64 1), Store U64 (Arg U64 2), Store S32 (Arg S32 3)]]"

definition calls_msgrcv :: "probe_prog list" where
  "calls_msgrcv =
    [probe ''msgrcv_e'' 140 False [],
      probe ''msgrcv_x'' 141 True [Store S32 (Arg S32 0), Store U64 (Arg U64 1), Store U64 (Arg U64 2), Store S64 (Arg S64 3),
       Store S32 (Arg S32 4)]]"

definition calls_msgctl :: "probe_prog list" where
  "calls_msgctl =
    [probe ''msgctl_e'' 142 False [],
      probe ''msgctl_x'' 143 True [Store S32 (Arg S32 0), Store S32 (Arg S32 1), Store U64 (Arg U64 2)]]"

definition calls_fcntl :: "probe_prog list" where
  "calls_fcntl =
    [probe ''fcntl_e'' 144 False [],
      probe ''fcntl_x'' 145 True [Store U32 (Arg U32 0), Store U32 (Arg U32 1), Store U64 (Arg U64 2)]]"

definition calls_flock :: "probe_prog list" where
  "calls_flock =
    [probe ''flock_e'' 146 False [],
      probe ''flock_x'' 147 True [Store U32 (Arg U32 0), Store U32 (Arg U32 1)]]"

definition calls_fsync :: "probe_prog list" where
  "calls_fsync =
    [probe ''fsync_e'' 148 False [],
      probe ''fsync_x'' 149 True [Store U32 (Arg U32 0)]]"

definition calls_fdatasync :: "probe_prog list" where
  "calls_fdatasync =
    [probe ''fdatasync_e'' 150 False [],
      probe ''fdatasync_x'' 151 True [Store U32 (Arg U32 0)]]"

definition calls_truncate :: "probe_prog list" where
  "calls_truncate =
    [probe ''truncate_e'' 152 False [],
      probe ''truncate_x'' 153 True [StoreChar (ArgPtr 0) LINX_CHARBUF_MAX_SIZE USER, Store S64 (Arg S64 1)]]"

definition calls_ftruncate :: "probe_prog list" where
  "calls_ftruncate =
    [probe ''ftruncate_e'' 154 False [],
      probe ''ftruncate_x'' 155 True [Store U32 (Arg U32 0), Store S64 (Arg S64 1)]]"

definition calls_getdents :: "probe_prog list" where
  "calls_getdents =
    [probe ''getdents_e'' 156 False [],
      probe ''getdents_x'' 157 True [Store U32 (Arg U32 0), Store U64 (Arg U64 1), Store U32 (Arg U32 2)]]"

definition calls_getcwd :: "probe_prog list" where
  "calls_getcwd =
    [probe ''getcwd_e'' 158 False [],
      probe ''getcwd_x'' 159 True [StoreChar (ArgPtr 0) LINX_CHARBUF_MAX_SIZE USER, Store U64 (Arg U64 1)]]"

definition calls_chdir :: "probe_prog list" where
  "calls_chdir =
    [probe ''chdir_e'' 160 False [],
      probe ''chdir_x'' 161 True [StoreChar (ArgPtr 0) LINX_CHARBUF_MAX_SIZE USER]]"

definition calls_fchdir :: "probe_prog list" where
  "calls_fchdir =
    [probe ''fchdir_e'' 162 False [],
      probe ''fchdir_x'' 163 True [Store U32 (Arg U32 0)]]"

definition calls_rename :: "probe_prog list" where
  "calls_rename =
    [probe ''rename_e'' 164 False [],
      probe ''rename_x'' 165 True [StoreChar (ArgPtr 0) LINX_CHARBUF_MAX_SIZE USER, StoreChar (ArgPtr 1) LINX_CHARBUF_MAX_SIZE
       USER]]"

definition calls_mkdir :: "probe_prog list" where
  "calls_mkdir =
    [probe ''mkdir_e'' 166 False [],
      probe ''mkdir_x'' 167 True [StoreChar (ArgPtr 0) LINX_CHARBUF_MAX_SIZE USER, Store U16 (Arg U16 1)]]"

definition calls_rmdir :: "probe_prog list" where
  "calls_rmdir =
    [probe ''rmdir_e'' 168 False [],
      probe ''rmdir_x'' 169 True [StoreChar (ArgPtr 0) LINX_CHARBUF_MAX_SIZE USER]]"

definition calls_creat :: "probe_prog list" where
  "calls_creat =
    [probe ''creat_e'' 170 False [],
      probe ''creat_x'' 171 True [StoreChar (ArgPtr 0) LINX_CHARBUF_MAX_SIZE USER, Store U16 (Arg U16 1)]]"

definition calls_link :: "probe_prog list" where
  "calls_link =
    [probe ''link_e'' 172 False [],
      probe ''link_x'' 173 True [StoreChar (ArgPtr 0) LINX_CHARBUF_MAX_SIZE USER, StoreChar (ArgPtr 1) LINX_CHARBUF_MAX_SIZE
       USER]]"

definition calls_unlink :: "probe_prog list" where
  "calls_unlink =
    [probe ''unlink_e'' 174 False [],
      probe ''unlink_x'' 175 True [StoreChar (ArgPtr 0) LINX_CHARBUF_MAX_SIZE USER]]"

definition calls_symlink :: "probe_prog list" where
  "calls_symlink =
    [probe ''symlink_e'' 176 False [],
      probe ''symlink_x'' 177 True [StoreChar (ArgPtr 0) LINX_CHARBUF_MAX_SIZE USER, StoreChar (ArgPtr 1) LINX_CHARBUF_MAX_SIZE
       USER]]"

definition calls_readlink :: "probe_prog list" where
  "calls_readlink =
    [probe ''readlink_e'' 178 False [],
      probe ''readlink_x'' 179 True [StoreChar (ArgPtr 0) LINX_CHARBUF_MAX_SIZE USER, StoreChar (ArgPtr 1) LINX_CHARBUF_MAX_SIZE
       USER, Store S32 (Arg S32 2)]]"

definition calls_chmod :: "probe_prog list" where
  "calls_chmod =
    [probe ''chmod_e'' 180 False [],
      probe ''chmod_x'' 181 True [StoreChar (ArgPtr 0) LINX_CHARBUF_MAX_SIZE USER, Store U16 (Arg U16 1)]]"

definition calls_fchmod :: "probe_prog list" where
  "calls_fchmod =
    [probe ''fchmod_e'' 182 False [],
      probe ''fchmod_x'' 183 True [Store U32 (Arg U32 0), Store U16 (Arg U16 1)]]"

definition calls_chown :: "probe_prog list" where
  "calls_chown =
    [probe ''chown_e'' 184 False [],
      probe ''chown_x'' 185 True [StoreChar (ArgPtr 0) LINX_CHARBUF_MAX_SIZE USER, Store U32 (Arg U32 1), Store U32 (Arg U32
       2)]]"

definition calls_fchown :: "probe_prog list" where
  "calls_fchown =
    [probe ''fchown_e'' 186 False [],
      probe ''fchown_x'' 187 True [Store U32 (Arg U32 0), Store U32 (Arg U32 1), Store U32 (Arg U32 2)]]"

definition calls_lchown :: "probe_prog list" where
  "calls_lchown =
    [probe ''lchown_e'' 188 False [],
      probe ''lchown_x'' 189 True [StoreChar (ArgPtr 0) LINX_CHARBUF_MAX_SIZE USER, Store U32 (Arg U32 1), Store U32 (Arg U32
       2)]]"

definition calls_umask :: "probe_prog list" where
  "calls_umask =
    [probe ''umask_e'' 190 False [],
      probe ''umask_x'' 191 True [Store S32 (Arg S32 0)]]"

definition calls_gettimeofday :: "probe_prog list" where
  "calls_gettimeofday =
    [probe ''gettimeofday_e'' 192 False [],
      probe ''gettimeofday_x'' 193 True [Store U64 (Arg U64 0), Store U64 (Arg U64 1)]]"

definition calls_getrlimit :: "probe_prog list" where
  "calls_getrlimit =
    [probe ''getrlimit_e'' 194 False [],
      probe ''getrlimit_x'' 195 True [Store U32 (Arg U32 0), Store U64 (Arg U64 1)]]"

definition calls_getrusage :: "probe_prog list" where
  "calls_getrusage =
    [probe ''getrusage_e'' 196 False [],
      probe ''getrusage_x'' 197 True [Store S32 (Arg S32 0), Store U64 (Arg U64 1)]]"

definition calls_sysinfo :: "probe_prog list" where
  "calls_sysinfo =
    [probe ''sysinfo_e'' 198 False [],
      probe ''sysinfo_x'' 199 True [Store U64 (Arg U64 0)]]"

definition calls_times :: "probe_prog list" where
  "calls_times =
    [probe ''times_e'' 200 False [],
      probe ''times_x'' 201 True [Store U64 (Arg U64 0)]]"

definition calls_ptrace :: "probe_prog list" where
  "calls_ptrace =
    [probe ''ptrace_e'' 202 False [],
      probe ''ptrace_x'' 203 True [Store S64 (Arg S64 0), Store S64 (Arg S64 1), Store U64 (Arg U64 2), Store U64 (Arg U64 3)]]"

definition calls_getuid :: "probe_prog list" where
  "calls_getuid =
    [probe ''getuid_e'' 204 False [],
      probe ''getuid_x'' 205 True []]"

definition calls_syslog :: "probe_prog list" where
  "calls_syslog =
    [probe ''syslog_e'' 206 False [],
      probe ''syslog_x'' 207 True [Store S32 (Arg S32 0), StoreChar (ArgPtr 1) LINX_CHARBUF_MAX_SIZE USER, Store S32 (Arg S32
       2)]]"

definition calls_getgid :: "probe_prog list" where
  "calls_getgid =
    [probe ''getgid_e'' 208 False [],
      probe ''getgid_x'' 209 True []]"

definition calls_setuid :: "probe_prog list" where
  "calls_setuid =
    [probe ''setuid_e'' 210 False [],
      probe ''setuid_x'' 211 True [Store U32 (Arg U32 0)]]"

definition calls_setgid :: "probe_prog list" where
  "calls_setgid =
    [probe ''setgid_e'' 212 False [],
      probe ''setgid_x'' 213 True [Store U32 (Arg U32 0)]]"

definition calls_geteuid :: "probe_prog list" where
  "calls_geteuid =
    [probe ''geteuid_e'' 214 False [],
      probe ''geteuid_x'' 215 True []]"

definition calls_getegid :: "probe_prog list" where
  "calls_getegid =
    [probe ''getegid_e'' 216 False [],
      probe ''getegid_x'' 217 True []]"

definition calls_setpgid :: "probe_prog list" where
  "calls_setpgid =
    [probe ''setpgid_e'' 218 False [],
      probe ''setpgid_x'' 219 True [Store S32 (Arg S32 0), Store S32 (Arg S32 1)]]"

definition calls_getppid :: "probe_prog list" where
  "calls_getppid =
    [probe ''getppid_e'' 220 False [],
      probe ''getppid_x'' 221 True []]"

definition calls_getpgrp :: "probe_prog list" where
  "calls_getpgrp =
    [probe ''getpgrp_e'' 222 False [],
      probe ''getpgrp_x'' 223 True []]"

definition calls_setsid :: "probe_prog list" where
  "calls_setsid =
    [probe ''setsid_e'' 224 False [],
      probe ''setsid_x'' 225 True []]"

definition calls_setreuid :: "probe_prog list" where
  "calls_setreuid =
    [probe ''setreuid_e'' 226 False [],
      probe ''setreuid_x'' 227 True [Store U32 (Arg U32 0), Store U32 (Arg U32 1)]]"

definition calls_setregid :: "probe_prog list" where
  "calls_setregid =
    [probe ''setregid_e'' 228 False [],
      probe ''setregid_x'' 229 True [Store U32 (Arg U32 0), Store U32 (Arg U32 1)]]"

definition calls_getgroups :: "probe_prog list" where
  "calls_getgroups =
    [probe ''getgroups_e'' 230 False [],
      probe ''getgroups_x'' 231 True [Store S32 (Arg S32 0), Store U32 (UserArg U32 1)]]"

definition calls_setgroups :: "probe_prog list" where
  "calls_setgroups =
    [probe ''setgroups_e'' 232 False [],
      probe ''setgroups_x'' 233 True [Store S32 (Arg S32 0), Store U32 (UserArg U32 1)]]"

definition calls_setresuid :: "probe_prog list" where
  "calls_setresuid =
    [probe ''setresuid_e'' 234 False [],
      probe ''setresuid_x'' 235 True [Store U32 (Arg U32 0), Store U32 (Arg U32 1), Store U32 (Arg U32 2)]]"

definition calls_getresuid :: "probe_prog list" where
  "calls_getresuid =
    [probe ''getresuid_e'' 236 False [],
      probe ''getresuid_x'' 237 True [Store U32 (UserArg U32 0), Store U32 (UserArg U32 1), Store U32 (UserArg U32 2)]]"

definition calls_setresgid :: "probe_prog list" where
  "calls_setresgid =
    [probe ''setresgid_e'' 238 False [],
      probe ''setresgid_x'' 239 True [Store U32 (Arg U32 0), Store U32 (Arg U32 1), Store U32 (Arg U32 2)]]"

definition calls_getresgid :: "probe_prog list" where
  "calls_getresgid =
    [probe ''getresgid_e'' 240 False [],
      probe ''getresgid_x'' 241 True [Store U32 (UserArg U32 0), Store U32 (UserArg U32 1), Store U32 (UserArg U32 2)]]"

definition calls_getpgid :: "probe_prog list" where
  "calls_getpgid =
    [probe ''getpgid_e'' 242 False [],
      probe ''getpgid_x'' 243 True [Store S32 (Arg S32 0)]]"

definition calls_setfsuid :: "probe_prog list" where
  "calls_setfsuid =
    [probe ''setfsuid_e'' 244 False [],
      probe ''setfsuid_x'' 245 True [Store U32 (Arg U32 0)]]"

definition calls_setfsgid :: "probe_prog list" where
  "calls_setfsgid =
    [probe ''setfsgid_e'' 246 False [],
      probe ''setfsgid_x'' 247 True [Store U32 (Arg U32 0)]]"

definition calls_getsid :: "probe_prog list" where
  "calls_getsid =
    [probe ''getsid_e'' 248 False [],
      probe ''getsid_x'' 249 True [Store S32 (Arg S32 0)]]"

definition calls_capget :: "probe_prog list" where
  "calls_capget =
    [probe ''capget_e'' 250 False [],
      probe ''capget_x'' 251 True [Store U64 (Arg U64 0), Store U64 (Arg U64 1)]]"

definition calls_capset :: "probe_prog list" where
  "calls_capset =
    [probe ''capset_e'' 252 False [],
      probe ''capset_x'' 253 True [Store U64 (Arg U64 0), Store U64 (Arg U64 1)]]"

definition calls_rt_sigpending :: "probe_prog list" where
  "calls_rt_sigpending =
    [probe ''rt_sigpending_e'' 254 False [],
      probe ''rt_sigpending_x'' 255 True [Store U64 (Arg U64 0), Store U64 (Arg U64 1)]]"

definition calls_rt_sigtimedwait :: "probe_prog list" where
  "calls_rt_sigtimedwait =
    [probe ''rt_sigtimedwait_e'' 256 False [],
      probe ''rt_sigtimedwait_x'' 257 True [Store U64 (Arg U64 0), Store U64 (Arg U64 1), Store U64 (Arg U64 2), Store U64 (Arg
       U64 3)]]"

definition calls_rt_sigqueueinfo :: "probe_prog list" where
  "calls_rt_sigqueueinfo =
    [probe ''rt_sigqueueinfo_e'' 258 False [],
      probe ''rt_sigqueueinfo_x'' 259 True [Store S32 (Arg S32 0), Store S32 (Arg S32 1), Store U64 (Arg U64 2)]]"

definition calls_rt_sigsuspend :: "probe_prog list" where
  "calls_rt_sigsuspend =
    [probe ''rt_sigsuspend_e'' 260 False [],
      probe ''rt_sigsuspend_x'' 261 True [Store U64 (Arg U64 0), Store U64 (Arg U64 1)]]"

definition calls_sigaltstack :: "probe_prog list" where
  "calls_sigaltstack =
    [probe ''sigaltstack_e'' 262 False [],
      probe ''sigaltstack_x'' 263 True [Store U64 (Arg U64 0), Store U64 (Arg U64 1)]]"

definition calls_utime :: "probe_prog list" where
  "calls_utime =
    [probe ''utime_e'' 264 False [],
      probe ''utime_x'' 265 True [StoreChar (ArgPtr 0) LINX_CHARBUF_MAX_SIZE USER, Store U64 (Arg U64 1)]]"

definition calls_mknod :: "probe_prog list" where
  "calls_mknod =
    [probe ''mknod_e'' 266 False [],
      probe ''mknod_x'' 267 True [StoreChar (ArgPtr 0) LINX_CHARBUF_MAX_SIZE USER, Store U16 (Arg U16 1), Store U32 (Arg U32
       2)]]"

definition calls_uselib :: "probe_prog list" where
  "calls_uselib =
    [probe ''uselib_e'' 268 False [],
      probe ''uselib_x'' 269 True [StoreChar (ArgPtr 0) LINX_CHARBUF_MAX_SIZE USER]]"

definition calls_personality :: "probe_prog list" where
  "calls_personality =
    [probe ''personality_e'' 270 False [],
      probe ''personality_x'' 271 True [Store U32 (Arg U32 0)]]"

definition calls_ustat :: "probe_prog list" where
  "calls_ustat =
    [probe ''ustat_e'' 272 False [],
      probe ''ustat_x'' 273 True [Store U32 (Arg U32 0), Store U64 (Arg U64 1)]]"

definition calls_statfs :: "probe_prog list" where
  "calls_statfs =
    [probe ''statfs_e'' 274 False [],
      probe ''statfs_x'' 275 True [StoreChar (ArgPtr 0) LINX_CHARBUF_MAX_SIZE USER, Store U64 (Arg U64 1)]]"

definition calls_fstatfs :: "probe_prog list" where
  "calls_fstatfs =
    [probe ''fstatfs_e'' 276 False [],
      probe ''fstatfs_x'' 277 True [Store U32 (Arg U32 0), Store U64 (Arg U64 1)]]"

definition calls_sysfs :: "probe_prog list" where
  "calls_sysfs =
    [probe ''sysfs_e'' 278 False [],
      probe ''sysfs_x'' 279 True [Store S32 (Arg S32 0), Store U64 (Arg U64 1), Store U64 (Arg U64 2)]]"

definition calls_getpriority :: "probe_prog list" where
  "calls_getpriority =
    [probe ''getpriority_e'' 280 False [],
      probe ''getpriority_x'' 281 True [Store S32 (Arg S32 0), Store S32 (Arg S32 1)]]"

definition calls_setpriority :: "probe_prog list" where
  "calls_setpriority =
    [probe ''setpriority_e'' 282 False [],
      probe ''setpriority_x'' 283 True [Store S32 (Arg S32 0), Store S32 (Arg S32 1), Store S32 (Arg S32 2)]]"

definition calls_sched_setparam :: "probe_prog list" where
  "calls_sched_setparam =
    [probe ''sched_setparam_e'' 284 False [],
      probe ''sched_setparam_x'' 285 True [Store S32 (Arg S32 0), Store U64 (Arg U64 1)]]"

definition calls_sched_getparam :: "probe_prog list" where
  "calls_sched_getparam =
    [probe ''sched_getparam_e'' 286 False [],
      probe ''sched_getparam_x'' 287 True [Store S32 (Arg S32 0), Store U64 (Arg U64 1)]]"

definition calls_sched_setscheduler :: "probe_prog list" where
  "calls_sched_setscheduler =
    [probe ''sched_setscheduler_e'' 288 False [],
      probe ''sched_setscheduler_x'' 289 True [Store S32 (Arg S32 0), Store S32 (Arg S32 1), Store U64 (Arg U64 2)]]"

definition calls_sched_getscheduler :: "probe_prog list" where
  "calls_sched_getscheduler =
    [probe ''sched_getscheduler_e'' 290 False [],
      probe ''sched_getscheduler_x'' 291 True [Store S32 (Arg S32 0)]]"

definition calls_sched_get_priority_max :: "probe_prog list" where
  "calls_sched_get_priority_max =
    [probe ''sched_get_priority_max_e'' 292 False [],
      probe ''sched_get_priority_max_x'' 293 True [Store S32 (Arg S32 0)]]"

definition calls_sched_get_priority_min :: "probe_prog list" where
  "calls_sched_get_priority_min =
    [probe ''sched_get_priority_min_e'' 294 False [],
      probe ''sched_get_priority_min_x'' 295 True [Store S32 (Arg S32 0)]]"

definition calls_sched_rr_get_interval :: "probe_prog list" where
  "calls_sched_rr_get_interval =
    [probe ''sched_rr_get_interval_e'' 296 False [],
      probe ''sched_rr_get_interval_x'' 297 True [Store S32 (Arg S32 0), Store U64 (Arg U64 1)]]"

definition calls_mlock :: "probe_prog list" where
  "calls_mlock =
    [probe ''mlock_e'' 298 False [],
      probe ''mlock_x'' 299 True [Store U64 (Arg U64 0), Store U64 (Arg U64 1)]]"

definition calls_munlock :: "probe_prog list" where
  "calls_munlock =
    [probe ''munlock_e'' 300 False [],
      probe ''munlock_x'' 301 True [Store U64 (Arg U64 0), Store U64 (Arg U64 1)]]"

definition calls_mlockall :: "probe_prog list" where
  "calls_mlockall =
    [probe ''mlockall_e'' 302 False [],
      probe ''mlockall_x'' 303 True [Store S32 (Arg S32 0)]]"

definition calls_munlockall :: "probe_prog list" where
  "calls_munlockall =
    [probe ''munlockall_e'' 304 False [],
      probe ''munlockall_x'' 305 True []]"

definition calls_vhangup :: "probe_prog list" where
  "calls_vhangup =
    [probe ''vhangup_e'' 306 False [],
      probe ''vhangup_x'' 307 True []]"

definition calls_modify_ldt :: "probe_prog list" where
  "calls_modify_ldt =
    [probe ''modify_ldt_e'' 308 False [],
      probe ''modify_ldt_x'' 309 True [Store S32 (Arg S32 0), Store U64 (Arg U64 1), Store U64 (Arg U64 2)]]"

definition calls_pivot_root :: "probe_prog list" where
  "calls_pivot_root =
    [probe ''pivot_root_e'' 310 False [],
      probe ''pivot_root_x'' 311 True [StoreChar (ArgPtr 0) LINX_CHARBUF_MAX_SIZE USER, StoreChar (ArgPtr 1)
       LINX_CHARBUF_MAX_SIZE USER]]"

definition calls_sysctl :: "probe_prog list" where
  "calls_sysctl =
    [probe ''_sysctl_e'' 312 False [],
      probe ''_sysctl_x'' 313 True [Store U64 (Arg U64 0)]]"

definition calls_prctl :: "probe_prog list" where
  "calls_prctl =
    [probe ''prctl_e'' 314 False [],
      probe ''prctl_x'' 315 True [Store S32 (Arg S32 0), Store U64 (Arg U64 1), Store U64 (Arg U64 2), Store U64 (Arg U64 3),
       Store U64 (Arg U64 4)]]"

definition calls_arch_prctl :: "probe_prog list" where
  "calls_arch_prctl =
    [probe ''arch_prctl_e'' 316 False [],
      probe ''arch_prctl_x'' 317 True [Store S32 (Arg S32 0), Store U64 (Arg U64 1)]]"

definition calls_adjtimex :: "probe_prog list" where
  "calls_adjtimex =
    [probe ''adjtimex_e'' 318 False [],
      probe ''adjtimex_x'' 319 True [Store U64 (Arg U64 0)]]"

definition calls_setrlimit :: "probe_prog list" where
  "calls_setrlimit =
    [probe ''setrlimit_e'' 320 False [],
      probe ''setrlimit_x'' 321 True [Store U32 (Arg U32 0), Store U64 (Arg U64 1)]]"

definition calls_chroot :: "probe_prog list" where
  "calls_chroot =
    [probe ''chroot_e'' 322 False [],
      probe ''chroot_x'' 323 True [StoreChar (ArgPtr 0) LINX_CHARBUF_MAX_SIZE USER]]"

definition calls_sync :: "probe_prog list" where
  "calls_sync =
    [probe ''sync_e'' 324 False [],
      probe ''sync_x'' 325 True []]"

definition calls_acct :: "probe_prog list" where
  "calls_acct =
    [probe ''acct_e'' 326 False [],
      probe ''acct_x'' 327 True [StoreChar (ArgPtr 0) LINX_CHARBUF_MAX_SIZE USER]]"

definition calls_settimeofday :: "probe_prog list" where
  "calls_settimeofday =
    [probe ''settimeofday_e'' 328 False [],
      probe ''settimeofday_x'' 329 True [Store U64 (Arg U64 0), Store U64 (Arg U64 1)]]"

definition calls_mount :: "probe_prog list" where
  "calls_mount =
    [probe ''mount_e'' 330 False [],
      probe ''mount_x'' 331 True [StoreChar (ArgPtr 0) LINX_CHARBUF_MAX_SIZE USER, StoreChar (ArgPtr 1) LINX_CHARBUF_MAX_SIZE
       USER, StoreChar (ArgPtr 2) LINX_CHARBUF_MAX_SIZE USER, Store U64 (Arg U64 3), Store U64 (Arg U64 4)]]"

definition calls_umount2 :: "probe_prog list" where
  "calls_umount2 =
    [probe ''umount2_e'' 332 False [],
      probe ''umount2_x'' 333 True [StoreChar (ArgPtr 0) LINX_CHARBUF_MAX_SIZE USER, Store S32 (Arg S32 1)]]"

definition calls_swapon :: "probe_prog list" where
  "calls_swapon =
    [probe ''swapon_e'' 334 False [],
      probe ''swapon_x'' 335 True [StoreChar (ArgPtr 0) LINX_CHARBUF_MAX_SIZE USER, Store S32 (Arg S32 1)]]"

definition calls_swapoff :: "probe_prog list" where
  "calls_swapoff =
    [probe ''swapoff_e'' 336 False [],
      probe ''swapoff_x'' 337 True [StoreChar (ArgPtr 0) LINX_CHARBUF_MAX_SIZE USER]]"

definition calls_reboot :: "probe_prog list" where
  "calls_reboot =
    [probe ''reboot_e'' 338 False [],
      probe ''reboot_x'' 339 True [Store S32 (Arg S32 0), Store S32 (Arg S32 1), Store U32 (Arg U32 2), Store U64 (Arg U64 3)]]"

definition calls_sethostname :: "probe_prog list" where
  "calls_sethostname =
    [probe ''sethostname_e'' 340 False [],
      probe ''sethostname_x'' 341 True [StoreChar (ArgPtr 0) LINX_CHARBUF_MAX_SIZE USER, Store S32 (Arg S32 1)]]"

definition calls_setdomainname :: "probe_prog list" where
  "calls_setdomainname =
    [probe ''setdomainname_e'' 342 False [],
      probe ''setdomainname_x'' 343 True [StoreChar (ArgPtr 0) LINX_CHARBUF_MAX_SIZE USER, Store S32 (Arg S32 1)]]"

definition calls_iopl :: "probe_prog list" where
  "calls_iopl =
    [probe ''iopl_e'' 344 False [],
      probe ''iopl_x'' 345 True [Store U32 (Arg U32 0)]]"

definition calls_ioperm :: "probe_prog list" where
  "calls_ioperm =
    [probe ''ioperm_e'' 346 False [],
      probe ''ioperm_x'' 347 True [Store U64 (Arg U64 0), Store U64 (Arg U64 1), Store S32 (Arg S32 2)]]"

definition calls_create_module :: "probe_prog list" where
  "calls_create_module =
    [probe ''create_module_e'' 348 False [],
      probe ''create_module_x'' 349 True [StoreChar (ArgPtr 0) LINX_CHARBUF_MAX_SIZE USER, Store U64 (Arg U64 1)]]"

definition calls_init_module :: "probe_prog list" where
  "calls_init_module =
    [probe ''init_module_e'' 350 False [],
      probe ''init_module_x'' 351 True [Store U64 (Arg U64 0), Store U64 (Arg U64 1), StoreChar (ArgPtr 2) LINX_CHARBUF_MAX_SIZE
       USER]]"

definition calls_delete_module :: "probe_prog list" where
  "calls_delete_module =
    [probe ''delete_module_e'' 352 False [],
      probe ''delete_module_x'' 353 True [StoreChar (ArgPtr 0) LINX_CHARBUF_MAX_SIZE USER, Store U32 (Arg U32 1)]]"

definition calls_get_kernel_syms :: "probe_prog list" where
  "calls_get_kernel_syms =
    [probe ''get_kernel_syms_e'' 354 False [],
      probe ''get_kernel_syms_x'' 355 True [Store U64 (Arg U64 0)]]"

definition calls_query_module :: "probe_prog list" where
  "calls_query_module =
    [probe ''query_module_e'' 356 False [],
      probe ''query_module_x'' 357 True [StoreChar (ArgPtr 0) LINX_CHARBUF_MAX_SIZE USER, Store S32 (Arg S32 1), Store U64 (Arg
       U64 2), Store U64 (Arg U64 3), Store U64 (UserArg U64 4)]]"

definition calls_quotactl :: "probe_prog list" where
  "calls_quotactl =
    [probe ''quotactl_e'' 358 False [],
      probe ''quotactl_x'' 359 True [Store U32 (Arg U32 0), StoreChar (ArgPtr 1) LINX_CHARBUF_MAX_SIZE USER, Store U32 (Arg U32
       2), Store U64 (Arg U64 3)]]"

definition calls_nfsservctl :: "probe_prog list" where
  "calls_nfsservctl =
    [probe ''nfsservctl_e'' 360 False [],
      probe ''nfsservctl_x'' 361 True [Store S32 (Arg S32 0), Store U64 (Arg U64 1), Store U64 (Arg U64 2)]]"

definition calls_gettid :: "probe_prog list" where
  "calls_gettid =
    [probe ''gettid_e'' 372 False [],
      probe ''gettid_x'' 373 True []]"

definition calls_readahead :: "probe_prog list" where
  "calls_readahead =
    [probe ''readahead_e'' 374 False [],
      probe ''readahead_x'' 375 True [Store S32 (Arg S32 0), Store S64 (Arg S64 1), Store U64 (Arg U64 2)]]"

definition calls_setxattr :: "probe_prog list" where
  "calls_setxattr =
    [probe ''setxattr_e'' 376 False [],
      probe ''setxattr_x'' 377 True [StoreChar (ArgPtr 0) LINX_CHARBUF_MAX_SIZE USER, StoreChar (ArgPtr 1) LINX_CHARBUF_MAX_SIZE
       USER, Store U64 (Arg U64 2), Store U64 (Arg U64 3), Store S32 (Arg S32 4)]]"

definition calls_lsetxattr :: "probe_prog list" where
  "calls_lsetxattr =
    [probe ''lsetxattr_e'' 378 False [],
      probe ''lsetxattr_x'' 379 True [StoreChar (ArgPtr 0) LINX_CHARBUF_MAX_SIZE USER, StoreChar (ArgPtr 1)
       LINX_CHARBUF_MAX_SIZE USER, Store U64 (Arg U64 2), Store U64 (Arg U64 3), Store S32 (Arg S32 4)]]"

definition calls_fsetxattr :: "probe_prog list" where
  "calls_fsetxattr =
    [probe ''fsetxattr_e'' 380 False [],
      probe ''fsetxattr_x'' 381 True [Store S32 (Arg S32 0), StoreChar (ArgPtr 1) LINX_CHARBUF_MAX_SIZE USER, Store U64 (Arg U64
       2), Store U64 (Arg U64 3), Store S32 (Arg S32 4)]]"

definition calls_getxattr :: "probe_prog list" where
  "calls_getxattr =
    [probe ''getxattr_e'' 382 False [],
      probe ''getxattr_x'' 383 True [StoreChar (ArgPtr 0) LINX_CHARBUF_MAX_SIZE USER, StoreChar (ArgPtr 1) LINX_CHARBUF_MAX_SIZE
       USER, Store U64 (Arg U64 2), Store U64 (Arg U64 3)]]"

definition calls_lgetxattr :: "probe_prog list" where
  "calls_lgetxattr =
    [probe ''lgetxattr_e'' 384 False [],
      probe ''lgetxattr_x'' 385 True [StoreChar (ArgPtr 0) LINX_CHARBUF_MAX_SIZE USER, StoreChar (ArgPtr 1)
       LINX_CHARBUF_MAX_SIZE USER, Store U64 (Arg U64 2), Store U64 (Arg U64 3)]]"

definition calls_fgetxattr :: "probe_prog list" where
  "calls_fgetxattr =
    [probe ''fgetxattr_e'' 386 False [],
      probe ''fgetxattr_x'' 387 True [Store S32 (Arg S32 0), StoreChar (ArgPtr 1) LINX_CHARBUF_MAX_SIZE USER, Store U64 (Arg U64
       2), Store U64 (Arg U64 3)]]"

definition calls_listxattr :: "probe_prog list" where
  "calls_listxattr =
    [probe ''listxattr_e'' 388 False [],
      probe ''listxattr_x'' 389 True [StoreChar (ArgPtr 0) LINX_CHARBUF_MAX_SIZE USER, StoreChar (ArgPtr 1)
       LINX_CHARBUF_MAX_SIZE USER, Store U64 (Arg U64 2)]]"

definition calls_llistxattr :: "probe_prog list" where
  "calls_llistxattr =
    [probe ''llistxattr_e'' 390 False [],
      probe ''llistxattr_x'' 391 True [StoreChar (ArgPtr 0) LINX_CHARBUF_MAX_SIZE USER, StoreChar (ArgPtr 1)
       LINX_CHARBUF_MAX_SIZE USER, Store U64 (Arg U64 2)]]"

definition calls_flistxattr :: "probe_prog list" where
  "calls_flistxattr =
    [probe ''flistxattr_e'' 392 False [],
      probe ''flistxattr_x'' 393 True [Store S32 (Arg S32 0), StoreChar (ArgPtr 1) LINX_CHARBUF_MAX_SIZE USER, Store U64 (Arg
       U64 2)]]"

definition calls_removexattr :: "probe_prog list" where
  "calls_removexattr =
    [probe ''removexattr_e'' 394 False [],
      probe ''removexattr_x'' 395 True [StoreChar (ArgPtr 0) LINX_CHARBUF_MAX_SIZE USER, StoreChar (ArgPtr 1)
       LINX_CHARBUF_MAX_SIZE USER]]"

definition calls_lremovexattr :: "probe_prog list" where
  "calls_lremovexattr =
    [probe ''lremovexattr_e'' 396 False [],
      probe ''lremovexattr_x'' 397 True [StoreChar (ArgPtr 0) LINX_CHARBUF_MAX_SIZE USER, StoreChar (ArgPtr 1)
       LINX_CHARBUF_MAX_SIZE USER]]"

definition calls_fremovexattr :: "probe_prog list" where
  "calls_fremovexattr =
    [probe ''fremovexattr_e'' 398 False [],
      probe ''fremovexattr_x'' 399 True [Store S32 (Arg S32 0), StoreChar (ArgPtr 1) LINX_CHARBUF_MAX_SIZE USER]]"

definition calls_tkill :: "probe_prog list" where
  "calls_tkill =
    [probe ''tkill_e'' 400 False [],
      probe ''tkill_x'' 401 True [Store S32 (Arg S32 0), Store S32 (Arg S32 1)]]"

definition calls_time :: "probe_prog list" where
  "calls_time =
    [probe ''time_e'' 402 False [],
      probe ''time_x'' 403 True [Store U64 (Arg U64 0)]]"

definition calls_futex :: "probe_prog list" where
  "calls_futex =
    [probe ''futex_e'' 404 False [],
      probe ''futex_x'' 405 True [Store U32 (UserArg U32 0), Store S32 (Arg S32 1), Store U32 (Arg U32 2), Store U64 (Arg U64
       3), Store U32 (UserArg U32 4), Store U32 (Arg U32 5)]]"

definition calls_sched_setaffinity :: "probe_prog list" where
  "calls_sched_setaffinity =
    [probe ''sched_setaffinity_e'' 406 False [],
      probe ''sched_setaffinity_x'' 407 True [Store S32 (Arg S32 0), Store U32 (Arg U32 1), Store U64 (UserArg U64 2)]]"

definition calls_sched_getaffinity :: "probe_prog list" where
  "calls_sched_getaffinity =
    [probe ''sched_getaffinity_e'' 408 False [],
      probe ''sched_getaffinity_x'' 409 True [Store S32 (Arg S32 0), Store U32 (Arg U32 1), Store U64 (UserArg U64 2)]]"

definition calls_set_thread_area :: "probe_prog list" where
  "calls_set_thread_area =
    [probe ''set_thread_area_e'' 410 False [],
      probe ''set_thread_area_x'' 411 True [Store U64 (Arg U64 0)]]"

definition calls_io_setup :: "probe_prog list" where
  "calls_io_setup =
    [probe ''io_setup_e'' 412 False [],
      probe ''io_setup_x'' 413 True [Store U32 (Arg U32 0), Store U64 (Arg U64 1)]]"

definition calls_io_destroy :: "probe_prog list" where
  "calls_io_destroy =
    [probe ''io_destroy_e'' 414 False [],
      probe ''io_destroy_x'' 415 True [Store U64 (Arg U64 0)]]"

definition calls_io_getevents :: "probe_prog list" where
  "calls_io_getevents =
    [probe ''io_getevents_e'' 416 False [],
      probe ''io_getevents_x'' 417 True [Store U64 (Arg U64 0), Store S64 (Arg S64 1), Store S64 (Arg S64 2), Store U64 (Arg U64
       3), Store U64 (Arg U64 4)]]"

definition calls_io_submit :: "probe_prog list" where
  "calls_io_submit =
    [probe ''io_submit_e'' 418 False [],
      probe ''io_submit_x'' 419 True [Store U64 (Arg U64 0), Store S64 (Arg S64 1), Store U64 (Arg U64 2)]]"

definition calls_io_cancel :: "probe_prog list" where
  "calls_io_cancel =
    [probe ''io_cancel_e'' 420 False [],
      probe ''io_cancel_x'' 421 True [Store U64 (Arg U64 0), Store U64 (Arg U64 1), Store U64 (Arg U64 2)]]"

definition calls_get_thread_area :: "probe_prog list" where
  "calls_get_thread_area =
    [probe ''get_thread_area_e'' 422 False [],
      probe ''get_thread_area_x'' 423 True [Store U64 (Arg U64 0)]]"

definition calls_lookup_dcookie :: "probe_prog list" where
  "calls_lookup_dcookie =
    [probe ''lookup_dcookie_e'' 424 False [],
      probe ''lookup_dcookie_x'' 425 True [Store U64 (Arg U64 0), StoreChar (ArgPtr 1) LINX_CHARBUF_MAX_SIZE USER, Store U64
       (Arg U64 2)]]"

definition calls_epoll_create :: "probe_prog list" where
  "calls_epoll_create =
    [probe ''epoll_create_e'' 426 False [],
      probe ''epoll_create_x'' 427 True [Store S32 (Arg S32 0)]]"

definition calls_remap_file_pages :: "probe_prog list" where
  "calls_remap_file_pages =
    [probe ''remap_file_pages_e'' 432 False [],
      probe ''remap_file_pages_x'' 433 True [Store U64 (Arg U64 0), Store U64 (Arg U64 1), Store U64 (Arg U64 2), Store U64 (Arg
       U64 3), Store U64 (Arg U64 4)]]"

definition calls_getdents64 :: "probe_prog list" where
  "calls_getdents64 =
    [probe ''getdents64_e'' 434 False [],
      probe ''getdents64_x'' 435 True [Store U32 (Arg U32 0), Store U64 (Arg U64 1), Store U32 (Arg U32 2)]]"

definition calls_set_tid_address :: "probe_prog list" where
  "calls_set_tid_address =
    [probe ''set_tid_address_e'' 436 False [],
      probe ''set_tid_address_x'' 437 True [Store S32 (UserArg S32 0)]]"

definition calls_restart_syscall :: "probe_prog list" where
  "calls_restart_syscall =
    [probe ''restart_syscall_e'' 438 False [],
      probe ''restart_syscall_x'' 439 True []]"

definition calls_semtimedop :: "probe_prog list" where
  "calls_semtimedop =
    [probe ''semtimedop_e'' 440 False [],
      probe ''semtimedop_x'' 441 True [Store S32 (Arg S32 0), Store U64 (Arg U64 1), Store U32 (Arg U32 2), Store U64 (Arg U64
       3)]]"

definition calls_fadvise64 :: "probe_prog list" where
  "calls_fadvise64 =
    [probe ''fadvise64_e'' 442 False [],
      probe ''fadvise64_x'' 443 True [Store S32 (Arg S32 0), Store S64 (Arg S64 1), Store U64 (Arg U64 2), Store S32 (Arg S32
       3)]]"

definition calls_timer_create :: "probe_prog list" where
  "calls_timer_create =
    [probe ''timer_create_e'' 444 False [],
      probe ''timer_create_x'' 445 True [Store S32 (Arg S32 0), Store U64 (Arg U64 1), Store U64 (Arg U64 2)]]"

definition calls_timer_settime :: "probe_prog list" where
  "calls_timer_settime =
    [probe ''timer_settime_e'' 446 False [],
      probe ''timer_settime_x'' 447 True [Store S32 (Arg S32 0), Store S32 (Arg S32 1), Store U64 (Arg U64 2), Store U64 (Arg
       U64 3)]]"

definition calls_timer_gettime :: "probe_prog list" where
  "calls_timer_gettime =
    [probe ''timer_gettime_e'' 448 False [],
      probe ''timer_gettime_x'' 449 True [Store S32 (Arg S32 0), Store U64 (Arg U64 1)]]"

definition calls_timer_getoverrun :: "probe_prog list" where
  "calls_timer_getoverrun =
    [probe ''timer_getoverrun_e'' 450 False [],
      probe ''timer_getoverrun_x'' 451 True [Store S32 (Arg S32 0)]]"

definition calls_timer_delete :: "probe_prog list" where
  "calls_timer_delete =
    [probe ''timer_delete_e'' 452 False [],
      probe ''timer_delete_x'' 453 True [Store S32 (Arg S32 0)]]"

definition calls_clock_settime :: "probe_prog list" where
  "calls_clock_settime =
    [probe ''clock_settime_e'' 454 False [],
      probe ''clock_settime_x'' 455 True [Store S32 (Arg S32 0), Store U64 (Arg U64 1)]]"

definition calls_clock_gettime :: "probe_prog list" where
  "calls_clock_gettime =
    [probe ''clock_gettime_e'' 456 False [],
      probe ''clock_gettime_x'' 457 True [Store S32 (Arg S32 0), Store U64 (Arg U64 1)]]"

definition calls_clock_getres :: "probe_prog list" where
  "calls_clock_getres =
    [probe ''clock_getres_e'' 458 False [],
      probe ''clock_getres_x'' 459 True [Store S32 (Arg S32 0), Store U64 (Arg U64 1)]]"

definition calls_clock_nanosleep :: "probe_prog list" where
  "calls_clock_nanosleep =
    [probe ''clock_nanosleep_e'' 460 False [],
      probe ''clock_nanosleep_x'' 461 True [Store S32 (Arg S32 0), Store S32 (Arg S32 1), Store U64 (Arg U64 2), Store U64 (Arg
       U64 3)]]"

definition calls_exit_group :: "probe_prog list" where
  "calls_exit_group =
    [probe ''exit_group_e'' 462 False [],
      probe ''exit_group_x'' 463 True [Store S32 (Arg S32 0)]]"

definition calls_epoll_wait :: "probe_prog list" where
  "calls_epoll_wait =
    [probe ''epoll_wait_e'' 464 False [],
      probe ''epoll_wait_x'' 465 True [Store S32 (Arg S32 0), Store U64 (Arg U64 1), Store S32 (Arg S32 2), Store S32 (Arg S32
       3)]]"

definition calls_epoll_ctl :: "probe_prog list" where
  "calls_epoll_ctl =
    [probe ''epoll_ctl_e'' 466 False [],
      probe ''epoll_ctl_x'' 467 True [Store S32 (Arg S32 0), Store S32 (Arg S32 1), Store S32 (Arg S32 2), Store U64 (Arg U64
       3)]]"

definition calls_tgkill :: "probe_prog list" where
  "calls_tgkill =
    [probe ''tgkill_e'' 468 False [],
      probe ''tgkill_x'' 469 True [Store S32 (Arg S32 0), Store S32 (Arg S32 1), Store S32 (Arg S32 2)]]"

definition calls_utimes :: "probe_prog list" where
  "calls_utimes =
    [probe ''utimes_e'' 470 False [],
      probe ''utimes_x'' 471 True [StoreChar (ArgPtr 0) LINX_CHARBUF_MAX_SIZE USER, Store U64 (Arg U64 1)]]"

definition calls_mbind :: "probe_prog list" where
  "calls_mbind =
    [probe ''mbind_e'' 474 False [],
      probe ''mbind_x'' 475 True [Store U64 (Arg U64 0), Store U64 (Arg U64 1), Store U64 (Arg U64 2), Store U64 (UserArg U64
       3), Store U64 (Arg U64 4), Store U32 (Arg U32 5)]]"

definition calls_set_mempolicy :: "probe_prog list" where
  "calls_set_mempolicy =
    [probe ''set_mempolicy_e'' 476 False [],
      probe ''set_mempolicy_x'' 477 True [Store S32 (Arg S32 0), Store U64 (UserArg U64 1), Store U64 (Arg U64 2)]]"

definition calls_get_mempolicy :: "probe_prog list" where
  "calls_get_mempolicy =
    [probe ''get_mempolicy_e'' 478 False [],
      probe ''get_mempolicy_x'' 479 True [Store S32 (UserArg S32 0), Store U64 (UserArg U64 1), Store U64 (Arg U64 2), Store U64
       (Arg U64 3), Store U64 (Arg U64 4)]]"

definition calls_mq_open :: "probe_prog list" where
  "calls_mq_open =
    [probe ''mq_open_e'' 480 False [],
      probe ''mq_open_x'' 481 True [StoreChar (ArgPtr 0) LINX_CHARBUF_MAX_SIZE USER, Store S32 (Arg S32 1), Store U16 (Arg U16
       2), Store U64 (Arg U64 3)]]"

definition calls_mq_unlink :: "probe_prog list" where
  "calls_mq_unlink =
    [probe ''mq_unlink_e'' 482 False [],
      probe ''mq_unlink_x'' 483 True [StoreChar (ArgPtr 0) LINX_CHARBUF_MAX_SIZE USER]]"

definition calls_mq_timedsend :: "probe_prog list" where
  "calls_mq_timedsend =
    [probe ''mq_timedsend_e'' 484 False [],
      probe ''mq_timedsend_x'' 485 True [Store S32 (Arg S32 0), StoreChar (ArgPtr 1) LINX_CHARBUF_MAX_SIZE USER, Store U64 (Arg
       U64 2), Store U32 (Arg U32 3), Store U64 (Arg U64 4)]]"

definition calls_mq_timedreceive :: "probe_prog list" where
  "calls_mq_timedreceive =
    [probe ''mq_timedreceive_e'' 486 False [],
      probe ''mq_timedreceive_x'' 487 True [Store S32 (Arg S32 0), StoreChar (ArgPtr 1) LINX_CHARBUF_MAX_SIZE USER, Store U64
       (Arg U64 2), Store U32 (UserArg U32 3), Store U64 (Arg U64 4)]]"

definition calls_mq_notify :: "probe_prog list" where
  "calls_mq_notify =
    [probe ''mq_notify_e'' 488 False [],
      probe ''mq_notify_x'' 489 True [Store S32 (Arg S32 0), Store U64 (Arg U64 1)]]"

definition calls_mq_getsetattr :: "probe_prog list" where
  "calls_mq_getsetattr =
    [probe ''mq_getsetattr_e'' 490 False [],
      probe ''mq_getsetattr_x'' 491 True [Store S32 (Arg S32 0), Store U64 (Arg U64 1), Store U64 (Arg U64 2)]]"

definition calls_kexec_load :: "probe_prog list" where
  "calls_kexec_load =
    [probe ''kexec_load_e'' 492 False [],
      probe ''kexec_load_x'' 493 True [Store U64 (Arg U64 0), Store U64 (Arg U64 1), Store U64 (Arg U64 2), Store U64 (Arg U64
       3)]]"

definition calls_waitid :: "probe_prog list" where
  "calls_waitid =
    [probe ''waitid_e'' 494 False [],
      probe ''waitid_x'' 495 True [Store S32 (Arg S32 0), Store S32 (Arg S32 1), Store U64 (Arg U64 2), Store S32 (Arg S32 3),
       Store U64 (Arg U64 4)]]"

definition calls_add_key :: "probe_prog list" where
  "calls_add_key =
    [probe ''add_key_e'' 496 False [],
      probe ''add_key_x'' 497 True [StoreChar (ArgPtr 0) LINX_CHARBUF_MAX_SIZE USER, StoreChar (ArgPtr 1) LINX_CHARBUF_MAX_SIZE
       USER, Store U64 (Arg U64 2), Store U64 (Arg U64 3), Store S32 (Arg S32 4)]]"

definition calls_request_key :: "probe_prog list" where
  "calls_request_key =
    [probe ''request_key_e'' 498 False [],
      probe ''request_key_x'' 499 True [StoreChar (ArgPtr 0) LINX_CHARBUF_MAX_SIZE USER, StoreChar (ArgPtr 1)
       LINX_CHARBUF_MAX_SIZE USER, StoreChar (ArgPtr 2) LINX_CHARBUF_MAX_SIZE USER, Store S32 (Arg S32 3)]]"

definition calls_keyctl :: "probe_prog list" where
  "calls_keyctl =
    [probe ''keyctl_e'' 500 False [],
      probe ''keyctl_x'' 501 True [Store S32 (Arg S32 0), Store U64 (Arg U64 1), Store U64 (Arg U64 2), Store U64 (Arg U64 3),
       Store U64 (Arg U64 4)]]"

definition calls_ioprio_set :: "probe_prog list" where
  "calls_ioprio_set =
    [probe ''ioprio_set_e'' 502 False [],
      probe ''ioprio_set_x'' 503 True [Store S32 (Arg S32 0), Store S32 (Arg S32 1), Store S32 (Arg S32 2)]]"

definition calls_ioprio_get :: "probe_prog list" where
  "calls_ioprio_get =
    [probe ''ioprio_get_e'' 504 False [],
      probe ''ioprio_get_x'' 505 True [Store S32 (Arg S32 0), Store S32 (Arg S32 1)]]"

definition calls_inotify_init :: "probe_prog list" where
  "calls_inotify_init =
    [probe ''inotify_init_e'' 506 False [],
      probe ''inotify_init_x'' 507 True []]"

definition calls_inotify_add_watch :: "probe_prog list" where
  "calls_inotify_add_watch =
    [probe ''inotify_add_watch_e'' 508 False [],
      probe ''inotify_add_watch_x'' 509 True [Store S32 (Arg S32 0), StoreChar (ArgPtr 1) LINX_CHARBUF_MAX_SIZE USER, Store U32
       (Arg U32 2)]]"

definition calls_inotify_rm_watch :: "probe_prog list" where
  "calls_inotify_rm_watch =
    [probe ''inotify_rm_watch_e'' 510 False [],
      probe ''inotify_rm_watch_x'' 511 True [Store S32 (Arg S32 0), Store S32 (Arg S32 1)]]"

definition calls_migrate_pages :: "probe_prog list" where
  "calls_migrate_pages =
    [probe ''migrate_pages_e'' 512 False [],
      probe ''migrate_pages_x'' 513 True [Store S32 (Arg S32 0), Store U64 (Arg U64 1), Store U64 (UserArg U64 2), Store U64
       (UserArg U64 3)]]"

definition calls_openat :: "probe_prog list" where
  "calls_openat =
    [probe ''openat_e'' 514 False [Store S64 (Arg S32 0), StoreChar (ArgPtr 1) LINX_CHARBUF_MAX_SIZE USER, Store U32 (Arg U32
       2), Store U32 (Arg U64 3)],
      probe ''openat_x'' 515 True [Store S64 Ret, Store S64 (Arg S32 0), StoreChar (ArgPtr 1) LINX_CHARBUF_MAX_SIZE USER, Store
       U32 (Arg U32 2), Store U32 (Arg U64 3), Store U32 Dev, Store U64 Ino]]"

definition calls_mkdirat :: "probe_prog list" where
  "calls_mkdirat =
    [probe ''mkdirat_e'' 516 False [],
      probe ''mkdirat_x'' 517 True [Store S32 (Arg S32 0), StoreChar (ArgPtr 1) LINX_CHARBUF_MAX_SIZE USER, Store U16 (Arg U16
       2)]]"

definition calls_mknodat :: "probe_prog list" where
  "calls_mknodat =
    [probe ''mknodat_e'' 518 False [],
      probe ''mknodat_x'' 519 True [Store S32 (Arg S32 0), StoreChar (ArgPtr 1) LINX_CHARBUF_MAX_SIZE USER, Store U16 (Arg U16
       2), Store U32 (Arg U32 3)]]"

definition calls_fchownat :: "probe_prog list" where
  "calls_fchownat =
    [probe ''fchownat_e'' 520 False [],
      probe ''fchownat_x'' 521 True [Store S32 (Arg S32 0), StoreChar (ArgPtr 1) LINX_CHARBUF_MAX_SIZE USER, Store U32 (Arg U32
       2), Store U32 (Arg U32 3), Store S32 (Arg S32 4)]]"

definition calls_futimesat :: "probe_prog list" where
  "calls_futimesat =
    [probe ''futimesat_e'' 522 False [],
      probe ''futimesat_x'' 523 True [Store S32 (Arg S32 0), StoreChar (ArgPtr 1) LINX_CHARBUF_MAX_SIZE USER, Store U64 (Arg U64
       2)]]"

definition calls_newfstatat :: "probe_prog list" where
  "calls_newfstatat =
    [probe ''newfstatat_e'' 524 False [],
      probe ''newfstatat_x'' 525 True [Store S32 (Arg S32 0), StoreChar (ArgPtr 1) LINX_CHARBUF_MAX_SIZE USER, Store U64 (Arg
       U64 2), Store S32 (Arg S32 3)]]"

definition calls_unlinkat :: "probe_prog list" where
  "calls_unlinkat =
    [probe ''unlinkat_e'' 526 False [],
      probe ''unlinkat_x'' 527 True [Store S32 (Arg S32 0), StoreChar (ArgPtr 1) LINX_CHARBUF_MAX_SIZE USER, Store S32 (Arg S32
       2)]]"

definition calls_renameat :: "probe_prog list" where
  "calls_renameat =
    [probe ''renameat_e'' 528 False [],
      probe ''renameat_x'' 529 True [Store S32 (Arg S32 0), StoreChar (ArgPtr 1) LINX_CHARBUF_MAX_SIZE USER, Store S32 (Arg S32
       2), StoreChar (ArgPtr 3) LINX_CHARBUF_MAX_SIZE USER]]"

definition calls_linkat :: "probe_prog list" where
  "calls_linkat =
    [probe ''linkat_e'' 530 False [],
      probe ''linkat_x'' 531 True [Store S32 (Arg S32 0), StoreChar (ArgPtr 1) LINX_CHARBUF_MAX_SIZE USER, Store S32 (Arg S32
       2), StoreChar (ArgPtr 3) LINX_CHARBUF_MAX_SIZE USER, Store S32 (Arg S32 4)]]"

definition calls_symlinkat :: "probe_prog list" where
  "calls_symlinkat =
    [probe ''symlinkat_e'' 532 False [],
      probe ''symlinkat_x'' 533 True [StoreChar (ArgPtr 0) LINX_CHARBUF_MAX_SIZE USER, Store S32 (Arg S32 1), StoreChar (ArgPtr
       2) LINX_CHARBUF_MAX_SIZE USER]]"

definition calls_readlinkat :: "probe_prog list" where
  "calls_readlinkat =
    [probe ''readlinkat_e'' 534 False [],
      probe ''readlinkat_x'' 535 True [Store S32 (Arg S32 0), StoreChar (ArgPtr 1) LINX_CHARBUF_MAX_SIZE USER, StoreChar (ArgPtr
       2) LINX_CHARBUF_MAX_SIZE USER, Store S32 (Arg S32 3)]]"

definition calls_fchmodat :: "probe_prog list" where
  "calls_fchmodat =
    [probe ''fchmodat_e'' 536 False [],
      probe ''fchmodat_x'' 537 True [Store S32 (Arg S32 0), StoreChar (ArgPtr 1) LINX_CHARBUF_MAX_SIZE USER, Store U16 (Arg U16
       2)]]"

definition calls_faccessat :: "probe_prog list" where
  "calls_faccessat =
    [probe ''faccessat_e'' 538 False [],
      probe ''faccessat_x'' 539 True [Store S32 (Arg S32 0), StoreChar (ArgPtr 1) LINX_CHARBUF_MAX_SIZE USER, Store S32 (Arg S32
       2)]]"

definition calls_pselect6 :: "probe_prog list" where
  "calls_pselect6 =
    [probe ''pselect6_e'' 540 False [],
      probe ''pselect6_x'' 541 True [Store S32 (Arg S32 0), Store U64 (Arg U64 1), Store U64 (Arg U64 2), Store U64 (Arg U64 3),
       Store U64 (Arg U64 4), Store U64 (Arg U64 5)]]"

definition calls_ppoll :: "probe_prog list" where
  "calls_ppoll =
    [probe ''ppoll_e'' 542 False [],
      probe ''ppoll_x'' 543 True [Store U64 (Arg U64 0), Store U32 (Arg U32 1), Store U64 (Arg U64 2), Store U64 (Arg U64 3),
       Store U64 (Arg U64 4)]]"

definition calls_unshare :: "probe_prog list" where
  "calls_unshare =
    [probe ''unshare_e'' 544 False [],
      probe ''unshare_x'' 545 True [Store U64 (Arg U64 0)]]"

definition calls_set_robust_list :: "probe_prog list" where
  "calls_set_robust_list =
    [probe ''set_robust_list_e'' 546 False [],
      probe ''set_robust_list_x'' 547 True [Store U64 (Arg U64 0), Store U64 (Arg U64 1)]]"

definition calls_get_robust_list :: "probe_prog list" where
  "calls_get_robust_list =
    [probe ''get_robust_list_e'' 548 False [],
      probe ''get_robust_list_x'' 549 True [Store S32 (Arg S32 0), Store U64 (Arg U64 1), Store U64 (UserArg U64 2)]]"

definition calls_splice :: "probe_prog list" where
  "calls_splice =
    [probe ''splice_e'' 550 False [],
      probe ''splice_x'' 551 True [Store S32 (Arg S32 0), Store S64 (UserArg S64 1), Store S32 (Arg S32 2), Store S64 (UserArg
       S64 3), Store U64 (Arg U64 4), Store U32 (Arg U32 5)]]"

definition calls_tee :: "probe_prog list" where
  "calls_tee =
    [probe ''tee_e'' 552 False [],
      probe ''tee_x'' 553 True [Store S32 (Arg S32 0), Store S32 (Arg S32 1), Store U64 (Arg U64 2), Store U32 (Arg U32 3)]]"

definition calls_sync_file_range :: "probe_prog list" where
  "calls_sync_file_range =
    [probe ''sync_file_range_e'' 554 False [],
      probe ''sync_file_range_x'' 555 True [Store S32 (Arg S32 0), Store S64 (Arg S64 1), Store S64 (Arg S64 2), Store U32 (Arg
       U32 3)]]"

definition calls_vmsplice :: "probe_prog list" where
  "calls_vmsplice =
    [probe ''vmsplice_e'' 556 False [],
      probe ''vmsplice_x'' 557 True [Store S32 (Arg S32 0), Store U64 (Arg U64 1), Store U64 (Arg U64 2), Store U32 (Arg U32
       3)]]"

definition calls_move_pages :: "probe_prog list" where
  "calls_move_pages =
    [probe ''move_pages_e'' 558 False [],
      probe ''move_pages_x'' 559 True [Store S32 (Arg S32 0), Store U64 (Arg U64 1), Store U64 (Arg U64 2), Store U64 (Arg U64
       3), Store S32 (UserArg S32 4), Store S32 (Arg S32 5)]]"

definition calls_utimensat :: "probe_prog list" where
  "calls_utimensat =
    [probe ''utimensat_e'' 560 False [],
      probe ''utimensat_x'' 561 True [Store S32 (Arg S32 0), StoreChar (ArgPtr 1) LINX_CHARBUF_MAX_SIZE USER, Store U64 (Arg U64
       2), Store S32 (Arg S32 3)]]"

definition calls_epoll_pwait :: "probe_prog list" where
  "calls_epoll_pwait =
    [probe ''epoll_pwait_e'' 562 False [],
      probe ''epoll_pwait_x'' 563 True [Store S32 (Arg S32 0), Store U64 (Arg U64 1), Store S32 (Arg S32 2), Store S32 (Arg S32
       3), Store U64 (Arg U64 4), Store U64 (Arg U64 5)]]"

definition calls_signalfd :: "probe_prog list" where
  "calls_signalfd =
    [probe ''signalfd_e'' 564 False [],
      probe ''signalfd_x'' 565 True [Store S32 (Arg S32 0), Store U64 (Arg U64 1), Store U64 (Arg U64 2)]]"

definition calls_timerfd_create :: "probe_prog list" where
  "calls_timerfd_create =
    [probe ''timerfd_create_e'' 566 False [],
      probe ''timerfd_create_x'' 567 True [Store S32 (Arg S32 0), Store S32 (Arg S32 1)]]"

definition calls_eventfd :: "probe_prog list" where
  "calls_eventfd =
    [probe ''eventfd_e'' 568 False [],
      probe ''eventfd_x'' 569 True [Store U32 (Arg U32 0)]]"

definition calls_fallocate :: "probe_prog list" where
  "calls_fallocate =
    [probe ''fallocate_e'' 570 False [],
      probe ''fallocate_x'' 571 True [Store S32 (Arg S32 0), Store S32 (Arg S32 1), Store S64 (Arg S64 2), Store S64 (Arg S64
       3)]]"

definition calls_timerfd_settime :: "probe_prog list" where
  "calls_timerfd_settime =
    [probe ''timerfd_settime_e'' 572 False [],
      probe ''timerfd_settime_x'' 573 True [Store S32 (Arg S32 0), Store S32 (Arg S32 1), Store U64 (Arg U64 2), Store U64 (Arg
       U64 3)]]"

definition calls_timerfd_gettime :: "probe_prog list" where
  "calls_timerfd_gettime =
    [probe ''timerfd_gettime_e'' 574 False [],
      probe ''timerfd_gettime_x'' 575 True [Store S32 (Arg S32 0), Store U64 (Arg U64 1)]]"

definition calls_accept4 :: "probe_prog list" where
  "calls_accept4 =
    [probe ''accept4_e'' 576 False [],
      probe ''accept4_x'' 577 True [Store S32 (Arg S32 0), Store U64 (Arg U64 1), Store S32 (UserArg S32 2), Store S32 (Arg S32
       3)]]"

definition calls_signalfd4 :: "probe_prog list" where
  "calls_signalfd4 =
    [probe ''signalfd4_e'' 578 False [],
      probe ''signalfd4_x'' 579 True [Store S32 (Arg S32 0), Store U64 (Arg U64 1), Store U64 (Arg U64 2), Store S32 (Arg S32
       3)]]"

definition calls_eventfd2 :: "probe_prog list" where
  "calls_eventfd2 =
    [probe ''eventfd2_e'' 580 False [],
      probe ''eventfd2_x'' 581 True [Store U32 (Arg U32 0), Store S32 (Arg S32 1)]]"

definition calls_epoll_create1 :: "probe_prog list" where
  "calls_epoll_create1 =
    [probe ''epoll_create1_e'' 582 False [],
      probe ''epoll_create1_x'' 583 True [Store S32 (Arg S32 0)]]"

definition calls_dup3 :: "probe_prog list" where
  "calls_dup3 =
    [probe ''dup3_e'' 584 False [Store S64 (Arg S32 0)],
      probe ''dup3_x'' 585 True [Store S64 Ret, Store S64 (Arg S32 0), Store S64 (Arg S32 1), Store S32 (Arg S32 2)]]"

definition calls_pipe2 :: "probe_prog list" where
  "calls_pipe2 =
    [probe ''pipe2_e'' 586 False [],
      probe ''pipe2_x'' 587 True [Store S32 (UserArg S32 0), Store S32 (Arg S32 1)]]"

definition calls_inotify_init1 :: "probe_prog list" where
  "calls_inotify_init1 =
    [probe ''inotify_init1_e'' 588 False [],
      probe ''inotify_init1_x'' 589 True [Store S32 (Arg S32 0)]]"

definition calls_preadv :: "probe_prog list" where
  "calls_preadv =
    [probe ''preadv_e'' 590 False [],
      probe ''preadv_x'' 591 True [Store U64 (Arg U64 0), Store U64 (Arg U64 1), Store U64 (Arg U64 2), Store U64 (Arg U64 3),
       Store U64 (Arg U64 4)]]"

definition calls_pwritev :: "probe_prog list" where
  "calls_pwritev =
    [probe ''pwritev_e'' 592 False [],
      probe ''pwritev_x'' 593 True [Store U64 (Arg U64 0), Store U64 (Arg U64 1), Store U64 (Arg U64 2), Store U64 (Arg U64 3),
       Store U64 (Arg U64 4)]]"

definition calls_rt_tgsigqueueinfo :: "probe_prog list" where
  "calls_rt_tgsigqueueinfo =
    [probe ''rt_tgsigqueueinfo_e'' 594 False [],
      probe ''rt_tgsigqueueinfo_x'' 595 True [Store S32 (Arg S32 0), Store S32 (Arg S32 1), Store S32 (Arg S32 2), Store U64
       (Arg U64 3)]]"

definition calls_perf_event_open :: "probe_prog list" where
  "calls_perf_event_open =
    [probe ''perf_event_open_e'' 596 False [],
      probe ''perf_event_open_x'' 597 True [Store U64 (Arg U64 0), Store S32 (Arg S32 1), Store S32 (Arg S32 2), Store S32 (Arg
       S32 3), Store U64 (Arg U64 4)]]"

definition calls_recvmmsg :: "probe_prog list" where
  "calls_recvmmsg =
    [probe ''recvmmsg_e'' 598 False [],
      probe ''recvmmsg_x'' 599 True [Store S32 (Arg S32 0), Store U64 (Arg U64 1), Store U32 (Arg U32 2), Store U32 (Arg U32 3),
       Store U64 (Arg U64 4)]]"

definition calls_fanotify_init :: "probe_prog list" where
  "calls_fanotify_init =
    [probe ''fanotify_init_e'' 600 False [],
      probe ''fanotify_init_x'' 601 True [Store U32 (Arg U32 0), Store U32 (Arg U32 1)]]"

definition calls_fanotify_mark :: "probe_prog list" where
  "calls_fanotify_mark =
    [probe ''fanotify_mark_e'' 602 False [],
      probe ''fanotify_mark_x'' 603 True [Store S32 (Arg S32 0), Store U32 (Arg U32 1), Store U64 (Arg U64 2), Store S32 (Arg
       S32 3), StoreChar (ArgPtr 4) LINX_CHARBUF_MAX_SIZE USER]]"

definition calls_prlimit64 :: "probe_prog list" where
  "calls_prlimit64 =
    [probe ''prlimit64_e'' 604 False [],
      probe ''prlimit64_x'' 605 True [Store S32 (Arg S32 0), Store U32 (Arg U32 1), Store U64 (Arg U64 2), Store U64 (Arg U64
       3)]]"

definition calls_name_to_handle_at :: "probe_prog list" where
  "calls_name_to_handle_at =
    [probe ''name_to_handle_at_e'' 606 False [],
      probe ''name_to_handle_at_x'' 607 True [Store S32 (Arg S32 0), StoreChar (ArgPtr 1) LINX_CHARBUF_MAX_SIZE USER, Store U64
       (Arg U64 2), Store S32 (UserArg S32 3), Store S32 (Arg S32 4)]]"

definition calls_open_by_handle_at :: "probe_prog list" where
  "calls_open_by_handle_at =
    [probe ''open_by_handle_at_e'' 608 False [],
      probe ''open_by_handle_at_x'' 609 True [Store S32 (Arg S32 0), Store U64 (Arg U64 1), Store S32 (Arg S32 2)]]"

definition calls_clock_adjtime :: "probe_prog list" where
  "calls_clock_adjtime =
    [probe ''clock_adjtime_e'' 610 False [],
      probe ''clock_adjtime_x'' 611 True [Store S32 (Arg S32 0), Store U64 (Arg U64 1)]]"

definition calls_syncfs :: "probe_prog list" where
  "calls_syncfs =
    [probe ''syncfs_e'' 612 False [],
      probe ''syncfs_x'' 613 True [Store S32 (Arg S32 0)]]"

definition calls_sendmmsg :: "probe_prog list" where
  "calls_sendmmsg =
    [probe ''sendmmsg_e'' 614 False [],
      probe ''sendmmsg_x'' 615 True [Store S32 (Arg S32 0), Store U64 (Arg U64 1), Store U32 (Arg U32 2), Store U32 (Arg U32
       3)]]"

definition calls_setns :: "probe_prog list" where
  "calls_setns =
    [probe ''setns_e'' 616 False [],
      probe ''setns_x'' 617 True [Store S32 (Arg S32 0), Store S32 (Arg S32 1)]]"

definition calls_getcpu :: "probe_prog list" where
  "calls_getcpu =
    [probe ''getcpu_e'' 618 False [],
      probe ''getcpu_x'' 619 True [Store U32 (UserArg U32 0), Store U32 (UserArg U32 1), Store U64 (Arg U64 2)]]"

definition calls_process_vm_readv :: "probe_prog list" where
  "calls_process_vm_readv =
    [probe ''process_vm_readv_e'' 620 False [],
      probe ''process_vm_readv_x'' 621 True [Store S32 (Arg S32 0), Store U64 (Arg U64 1), Store U64 (Arg U64 2), Store U64 (Arg
       U64 3), Store U64 (Arg U64 4), Store U64 (Arg U64 5)]]"

definition calls_process_vm_writev :: "probe_prog list" where
  "calls_process_vm_writev =
    [probe ''process_vm_writev_e'' 622 False [],
      probe ''process_vm_writev_x'' 623 True [Store S32 (Arg S32 0), Store U64 (Arg U64 1), Store U64 (Arg U64 2), Store U64
       (Arg U64 3), Store U64 (Arg U64 4), Store U64 (Arg U64 5)]]"

definition calls_kcmp :: "probe_prog list" where
  "calls_kcmp =
    [probe ''kcmp_e'' 624 False [],
      probe ''kcmp_x'' 625 True [Store S32 (Arg S32 0), Store S32 (Arg S32 1), Store S32 (Arg S32 2), Store U64 (Arg U64 3),
       Store U64 (Arg U64 4)]]"

definition calls_finit_module :: "probe_prog list" where
  "calls_finit_module =
    [probe ''finit_module_e'' 626 False [],
      probe ''finit_module_x'' 627 True [Store S32 (Arg S32 0), StoreChar (ArgPtr 1) LINX_CHARBUF_MAX_SIZE USER, Store S32 (Arg
       S32 2)]]"

definition calls_sched_setattr :: "probe_prog list" where
  "calls_sched_setattr =
    [probe ''sched_setattr_e'' 628 False [],
      probe ''sched_setattr_x'' 629 True [Store S32 (Arg S32 0), Store U64 (Arg U64 1), Store U32 (Arg U32 2)]]"

definition calls_sched_getattr :: "probe_prog list" where
  "calls_sched_getattr =
    [probe ''sched_getattr_e'' 630 False [],
      probe ''sched_getattr_x'' 631 True [Store S32 (Arg S32 0), Store U64 (Arg U64 1), Store U32 (Arg U32 2), Store U32 (Arg
       U32 3)]]"

definition calls_renameat2 :: "probe_prog list" where
  "calls_renameat2 =
    [probe ''renameat2_e'' 632 False [],
      probe ''renameat2_x'' 633 True [Store S32 (Arg S32 0), StoreChar (ArgPtr 1) LINX_CHARBUF_MAX_SIZE USER, Store S32 (Arg S32
       2), StoreChar (ArgPtr 3) LINX_CHARBUF_MAX_SIZE USER, Store U32 (Arg U32 4)]]"

definition calls_seccomp :: "probe_prog list" where
  "calls_seccomp =
    [probe ''seccomp_e'' 634 False [],
      probe ''seccomp_x'' 635 True [Store U32 (Arg U32 0), Store U32 (Arg U32 1), Store U64 (Arg U64 2)]]"

definition calls_getrandom :: "probe_prog list" where
  "calls_getrandom =
    [probe ''getrandom_e'' 636 False [],
      probe ''getrandom_x'' 637 True [StoreChar (ArgPtr 0) LINX_CHARBUF_MAX_SIZE USER, Store U64 (Arg U64 1), Store U32 (Arg U32
       2)]]"

definition calls_memfd_create :: "probe_prog list" where
  "calls_memfd_create =
    [probe ''memfd_create_e'' 638 False [],
      probe ''memfd_create_x'' 639 True [StoreChar (ArgPtr 0) LINX_CHARBUF_MAX_SIZE USER, Store U32 (Arg U32 1)]]"

definition calls_kexec_file_load :: "probe_prog list" where
  "calls_kexec_file_load =
    [probe ''kexec_file_load_e'' 640 False [],
      probe ''kexec_file_load_x'' 641 True [Store S32 (Arg S32 0), Store S32 (Arg S32 1), Store U64 (Arg U64 2), StoreChar
       (ArgPtr 3) LINX_CHARBUF_MAX_SIZE USER, Store U64 (Arg U64 4)]]"

definition calls_bpf :: "probe_prog list" where
  "calls_bpf =
    [probe ''bpf_e'' 642 False [],
      probe ''bpf_x'' 643 True [Store S32 (Arg S32 0), Store U64 (Arg U64 1), Store U32 (Arg U32 2)]]"

definition calls_execveat :: "probe_prog list" where
  "calls_execveat =
    [probe ''execveat_e'' 644 False [],
      probe ''execveat_x'' 645 True [Store S32 (Arg S32 0), StoreChar (ArgPtr 1) LINX_CHARBUF_MAX_SIZE USER, StoreChar (ArgPtr
       2) LINX_CHARBUF_MAX_SIZE USER, StoreChar (ArgPtr 3) LINX_CHARBUF_MAX_SIZE USER, Store S32 (Arg S32 4)]]"

definition calls_userfaultfd :: "probe_prog list" where
  "calls_userfaultfd =
    [probe ''userfaultfd_e'' 646 False [],
      probe ''userfaultfd_x'' 647 True [Store S32 (Arg S32 0)]]"

definition calls_membarrier :: "probe_prog list" where
  "calls_membarrier =
    [probe ''membarrier_e'' 648 False [],
      probe ''membarrier_x'' 649 True [Store S32 (Arg S32 0), Store U32 (Arg U32 1), Store S32 (Arg S32 2)]]"

definition calls_mlock2 :: "probe_prog list" where
  "calls_mlock2 =
    [probe ''mlock2_e'' 650 False [],
      probe ''mlock2_x'' 651 True [Store U64 (Arg U64 0), Store U64 (Arg U64 1), Store S32 (Arg S32 2)]]"

definition calls_copy_file_range :: "probe_prog list" where
  "calls_copy_file_range =
    [probe ''copy_file_range_e'' 652 False [],
      probe ''copy_file_range_x'' 653 True [Store S32 (Arg S32 0), Store S64 (UserArg S64 1), Store S32 (Arg S32 2), Store S64
       (UserArg S64 3), Store U64 (Arg U64 4), Store U32 (Arg U32 5)]]"

definition calls_preadv2 :: "probe_prog list" where
  "calls_preadv2 =
    [probe ''preadv2_e'' 654 False [],
      probe ''preadv2_x'' 655 True [Store U64 (Arg U64 0), Store U64 (Arg U64 1), Store U64 (Arg U64 2), Store U64 (Arg U64 3),
       Store U64 (Arg U64 4), Store S32 (Arg S32 5)]]"

definition calls_pwritev2 :: "probe_prog list" where
  "calls_pwritev2 =
    [probe ''pwritev2_e'' 656 False [],
      probe ''pwritev2_x'' 657 True [Store U64 (Arg U64 0), Store U64 (Arg U64 1), Store U64 (Arg U64 2), Store U64 (Arg U64 3),
       Store U64 (Arg U64 4), Store S32 (Arg S32 5)]]"

definition calls_pkey_mprotect :: "probe_prog list" where
  "calls_pkey_mprotect =
    [probe ''pkey_mprotect_e'' 658 False [],
      probe ''pkey_mprotect_x'' 659 True [Store U64 (Arg U64 0), Store U64 (Arg U64 1), Store U64 (Arg U64 2), Store S32 (Arg
       S32 3)]]"

definition calls_pkey_alloc :: "probe_prog list" where
  "calls_pkey_alloc =
    [probe ''pkey_alloc_e'' 660 False [],
      probe ''pkey_alloc_x'' 661 True [Store U64 (Arg U64 0), Store U64 (Arg U64 1)]]"

definition calls_pkey_free :: "probe_prog list" where
  "calls_pkey_free =
    [probe ''pkey_free_e'' 662 False [],
      probe ''pkey_free_x'' 663 True [Store S32 (Arg S32 0)]]"

definition calls_statx :: "probe_prog list" where
  "calls_statx =
    [probe ''statx_e'' 664 False [],
      probe ''statx_x'' 665 True [Store S32 (Arg S32 0), StoreChar (ArgPtr 1) LINX_CHARBUF_MAX_SIZE USER, Store U32 (Arg U32 2),
       Store U32 (Arg U32 3), Store U64 (Arg U64 4)]]"

definition calls_io_pgetevents :: "probe_prog list" where
  "calls_io_pgetevents =
    [probe ''io_pgetevents_e'' 666 False [],
      probe ''io_pgetevents_x'' 667 True [Store U64 (Arg U64 0), Store S64 (Arg S64 1), Store S64 (Arg S64 2), Store U64 (Arg
       U64 3), Store U64 (Arg U64 4), Store U64 (Arg U64 5)]]"

definition calls_rseq :: "probe_prog list" where
  "calls_rseq =
    [probe ''rseq_e'' 668 False [],
      probe ''rseq_x'' 669 True [Store U64 (Arg U64 0), Store U32 (Arg U32 1), Store S32 (Arg S32 2), Store U32 (Arg U32 3)]]"

definition calls_pidfd_send_signal :: "probe_prog list" where
  "calls_pidfd_send_signal =
    [probe ''pidfd_send_signal_e'' 848 False [],
      probe ''pidfd_send_signal_x'' 849 True [Store S32 (Arg S32 0), Store S32 (Arg S32 1), Store U64 (Arg U64 2), Store U32
       (Arg U32 3)]]"

definition calls_io_uring_setup :: "probe_prog list" where
  "calls_io_uring_setup =
    [probe ''io_uring_setup_e'' 850 False [],
      probe ''io_uring_setup_x'' 851 True [Store U32 (Arg U32 0), Store U64 (Arg U64 1)]]"

definition calls_io_uring_enter :: "probe_prog list" where
  "calls_io_uring_enter =
    [probe ''io_uring_enter_e'' 852 False [],
      probe ''io_uring_enter_x'' 853 True [Store U32 (Arg U32 0), Store U32 (Arg U32 1), Store U32 (Arg U32 2), Store U32 (Arg
       U32 3), Store U64 (Arg U64 4), Store U64 (Arg U64 5)]]"

definition calls_io_uring_register :: "probe_prog list" where
  "calls_io_uring_register =
    [probe ''io_uring_register_e'' 854 False [],
      probe ''io_uring_register_x'' 855 True [Store U32 (Arg U32 0), Store U32 (Arg U32 1), Store U64 (Arg U64 2), Store U32
       (Arg U32 3)]]"

definition calls_open_tree :: "probe_prog list" where
  "calls_open_tree =
    [probe ''open_tree_e'' 856 False [],
      probe ''open_tree_x'' 857 True [Store S32 (Arg S32 0), StoreChar (ArgPtr 1) LINX_CHARBUF_MAX_SIZE USER, Store U32 (Arg U32
       2)]]"

definition calls_move_mount :: "probe_prog list" where
  "calls_move_mount =
    [probe ''move_mount_e'' 858 False [],
      probe ''move_mount_x'' 859 True [Store S32 (Arg S32 0), StoreChar (ArgPtr 1) LINX_CHARBUF_MAX_SIZE USER, Store S32 (Arg
       S32 2), StoreChar (ArgPtr 3) LINX_CHARBUF_MAX_SIZE USER, Store U32 (Arg U32 4)]]"

definition calls_fsopen :: "probe_prog list" where
  "calls_fsopen =
    [probe ''fsopen_e'' 860 False [],
      probe ''fsopen_x'' 861 True [StoreChar (ArgPtr 0) LINX_CHARBUF_MAX_SIZE USER, Store U32 (Arg U32 1)]]"

definition calls_fsconfig :: "probe_prog list" where
  "calls_fsconfig =
    [probe ''fsconfig_e'' 862 False [],
      probe ''fsconfig_x'' 863 True [Store S32 (Arg S32 0), Store U32 (Arg U32 1), StoreChar (ArgPtr 2) LINX_CHARBUF_MAX_SIZE
       USER, Store U64 (Arg U64 3), Store S32 (Arg S32 4)]]"

definition calls_fsmount :: "probe_prog list" where
  "calls_fsmount =
    [probe ''fsmount_e'' 864 False [],
      probe ''fsmount_x'' 865 True [Store S32 (Arg S32 0), Store U32 (Arg U32 1), Store U32 (Arg U32 2)]]"

definition calls_fspick :: "probe_prog list" where
  "calls_fspick =
    [probe ''fspick_e'' 866 False [],
      probe ''fspick_x'' 867 True [Store S32 (Arg S32 0), StoreChar (ArgPtr 1) LINX_CHARBUF_MAX_SIZE USER, Store U32 (Arg U32
       2)]]"

definition calls_pidfd_open :: "probe_prog list" where
  "calls_pidfd_open =
    [probe ''pidfd_open_e'' 868 False [],
      probe ''pidfd_open_x'' 869 True [Store S32 (Arg S32 0), Store U32 (Arg U32 1)]]"

definition calls_clone3 :: "probe_prog list" where
  "calls_clone3 =
    [probe ''clone3_e'' 870 False [],
      probe ''clone3_x'' 871 True [Store U64 (Arg U64 0), Store U64 (Arg U64 1)]]"

definition calls_close_range :: "probe_prog list" where
  "calls_close_range =
    [probe ''close_range_e'' 872 False [],
      probe ''close_range_x'' 873 True [Store U32 (Arg U32 0), Store U32 (Arg U32 1), Store U32 (Arg U32 2)]]"

definition calls_openat2 :: "probe_prog list" where
  "calls_openat2 =
    [probe ''openat2_e'' 874 False [],
      probe ''openat2_x'' 875 True [Store S32 (Arg S32 0), StoreChar (ArgPtr 1) LINX_CHARBUF_MAX_SIZE USER, Store U64 (Arg U64
       2), Store U64 (Arg U64 3)]]"

definition calls_pidfd_getfd :: "probe_prog list" where
  "calls_pidfd_getfd =
    [probe ''pidfd_getfd_e'' 876 False [],
      probe ''pidfd_getfd_x'' 877 True [Store S32 (Arg S32 0), Store S32 (Arg S32 1), Store U32 (Arg U32 2)]]"

definition calls_faccessat2 :: "probe_prog list" where
  "calls_faccessat2 =
    [probe ''faccessat2_e'' 878 False [],
      probe ''faccessat2_x'' 879 True [Store S32 (Arg S32 0), StoreChar (ArgPtr 1) LINX_CHARBUF_MAX_SIZE USER, Store S32 (Arg
       S32 2), Store S32 (Arg S32 3)]]"

definition calls_process_madvise :: "probe_prog list" where
  "calls_process_madvise =
    [probe ''process_madvise_e'' 880 False [],
      probe ''process_madvise_x'' 881 True [Store S32 (Arg S32 0), Store U64 (Arg U64 1), Store U64 (Arg U64 2), Store S32 (Arg
       S32 3), Store U32 (Arg U32 4)]]"

definition calls_epoll_pwait2 :: "probe_prog list" where
  "calls_epoll_pwait2 =
    [probe ''epoll_pwait2_e'' 882 False [],
      probe ''epoll_pwait2_x'' 883 True [Store S32 (Arg S32 0), Store U64 (Arg U64 1), Store S32 (Arg S32 2), Store U64 (Arg U64
       3), Store U64 (Arg U64 4), Store U64 (Arg U64 5)]]"

definition calls_mount_setattr :: "probe_prog list" where
  "calls_mount_setattr =
    [probe ''mount_setattr_e'' 884 False [],
      probe ''mount_setattr_x'' 885 True [Store S32 (Arg S32 0), StoreChar (ArgPtr 1) LINX_CHARBUF_MAX_SIZE USER, Store U32 (Arg
       U32 2), Store U64 (Arg U64 3), Store U64 (Arg U64 4)]]"

definition calls_quotactl_fd :: "probe_prog list" where
  "calls_quotactl_fd =
    [probe ''quotactl_fd_e'' 886 False [],
      probe ''quotactl_fd_x'' 887 True [Store U32 (Arg U32 0), Store U32 (Arg U32 1), Store U32 (Arg U32 2), Store U64 (Arg U64
       3)]]"

definition calls_landlock_create_ruleset :: "probe_prog list" where
  "calls_landlock_create_ruleset =
    [probe ''landlock_create_ruleset_e'' 888 False [],
      probe ''landlock_create_ruleset_x'' 889 True [Store U64 (Arg U64 0), Store U64 (Arg U64 1), Store U64 (Arg U64 2)]]"

definition calls_landlock_add_rule :: "probe_prog list" where
  "calls_landlock_add_rule =
    [probe ''landlock_add_rule_e'' 890 False [],
      probe ''landlock_add_rule_x'' 891 True [Store S32 (Arg S32 0), Store U64 (Arg U64 1), Store U64 (Arg U64 2), Store U64
       (Arg U64 3)]]"

definition calls_landlock_restrict_self :: "probe_prog list" where
  "calls_landlock_restrict_self =
    [probe ''landlock_restrict_self_e'' 892 False [],
      probe ''landlock_restrict_self_x'' 893 True [Store S32 (Arg S32 0), Store U64 (Arg U64 1)]]"

definition calls_memfd_secret :: "probe_prog list" where
  "calls_memfd_secret =
    [probe ''memfd_secret_e'' 894 False [],
      probe ''memfd_secret_x'' 895 True [Store U32 (Arg U32 0)]]"

definition calls_process_mrelease :: "probe_prog list" where
  "calls_process_mrelease =
    [probe ''process_mrelease_e'' 896 False [],
      probe ''process_mrelease_x'' 897 True [Store S32 (Arg S32 0), Store U32 (Arg U32 1)]]"

definition calls_futex_waitv :: "probe_prog list" where
  "calls_futex_waitv =
    [probe ''futex_waitv_e'' 898 False [],
      probe ''futex_waitv_x'' 899 True [Store U64 (Arg U64 0), Store U32 (Arg U32 1), Store U32 (Arg U32 2), Store U64 (Arg U64
       3), Store S32 (Arg S32 4)]]"

definition calls_set_mempolicy_home_node :: "probe_prog list" where
  "calls_set_mempolicy_home_node =
    [probe ''set_mempolicy_home_node_e'' 900 False [],
      probe ''set_mempolicy_home_node_x'' 901 True [Store U64 (Arg U64 0), Store U64 (Arg U64 1), Store U64 (Arg U64 2), Store
       U64 (Arg U64 3)]]"

definition calls_cachestat :: "probe_prog list" where
  "calls_cachestat =
    [probe ''cachestat_e'' 902 False [],
      probe ''cachestat_x'' 903 True [Store U32 (Arg U32 0), Store U64 (Arg U64 1), Store U64 (Arg U64 2), Store U32 (Arg U32
       3)]]"

definition calls_fchmodat2 :: "probe_prog list" where
  "calls_fchmodat2 =
    [probe ''fchmodat2_e'' 904 False [],
      probe ''fchmodat2_x'' 905 True [Store S32 (Arg S32 0), StoreChar (ArgPtr 1) LINX_CHARBUF_MAX_SIZE USER, Store U16 (Arg U16
       2), Store U32 (Arg U32 3)]]"

section \<open>The object file\<close>

definition probe_group_0 :: "probe_prog list" where
  "probe_group_0 =
    calls_read @ calls_write @ calls_open @ calls_close @ calls_stat @ calls_fstat @ calls_lstat @ calls_poll @ calls_lseek @
    calls_mmap @ calls_mprotect @ calls_munmap"

definition probe_group_1 :: "probe_prog list" where
  "probe_group_1 =
    calls_brk @ calls_rt_sigaction @ calls_rt_sigprocmask @ calls_rt_sigreturn @ calls_ioctl @ calls_pread64 @ calls_pwrite64 @
    calls_readv @ calls_writev @ calls_access @ calls_pipe @ calls_select"

definition probe_group_2 :: "probe_prog list" where
  "probe_group_2 =
    calls_sched_yield @ calls_mremap @ calls_msync @ calls_mincore @ calls_madvise @ calls_shmget @ calls_shmat @ calls_shmctl @
    calls_dup @ calls_dup2 @ calls_pause @ calls_nanosleep"

definition probe_group_3 :: "probe_prog list" where
  "probe_group_3 =
    calls_getitimer @ calls_alarm @ calls_setitimer @ calls_getpid @ calls_sendfile @ calls_socket @ calls_connect @
    calls_accept @ calls_sendto @ calls_recvfrom @ calls_sendmsg @ calls_recvmsg"

definition probe_group_4 :: "probe_prog list" where
  "probe_group_4 =
    calls_shutdown @ calls_bind @ calls_listen @ calls_getsockname @ calls_getpeername @ calls_socketpair @ calls_setsockopt @
    calls_getsockopt @ calls_clone @ calls_fork @ calls_vfork @ calls_execve"

definition probe_group_5 :: "probe_prog list" where
  "probe_group_5 =
    calls_exit @ calls_wait4 @ calls_kill @ calls_uname @ calls_semget @ calls_semop @ calls_semctl @ calls_shmdt @ calls_msgget
    @ calls_msgsnd @ calls_msgrcv @ calls_msgctl"

definition probe_group_6 :: "probe_prog list" where
  "probe_group_6 =
    calls_fcntl @ calls_flock @ calls_fsync @ calls_fdatasync @ calls_truncate @ calls_ftruncate @ calls_getdents @ calls_getcwd
    @ calls_chdir @ calls_fchdir @ calls_rename @ calls_mkdir @ calls_rmdir"

definition probe_group_7 :: "probe_prog list" where
  "probe_group_7 =
    calls_creat @ calls_link @ calls_unlink @ calls_symlink @ calls_readlink @ calls_chmod @ calls_fchmod @ calls_chown @
    calls_fchown @ calls_lchown @ calls_umask @ calls_gettimeofday @ calls_getrlimit"

definition probe_group_8 :: "probe_prog list" where
  "probe_group_8 =
    calls_getrusage @ calls_sysinfo @ calls_times @ calls_ptrace @ calls_getuid @ calls_syslog @ calls_getgid @ calls_setuid @
    calls_setgid @ calls_geteuid @ calls_getegid @ calls_setpgid @ calls_getppid @ calls_getpgrp @ calls_setsid"

definition probe_group_9 :: "probe_prog list" where
  "probe_group_9 =
    calls_setreuid @ calls_setregid @ calls_getgroups @ calls_setgroups @ calls_setresuid @ calls_getresuid @ calls_setresgid @
    calls_getresgid @ calls_getpgid @ calls_setfsuid @ calls_setfsgid @ calls_getsid @ calls_capget"

definition probe_group_10 :: "probe_prog list" where
  "probe_group_10 =
    calls_capset @ calls_rt_sigpending @ calls_rt_sigtimedwait @ calls_rt_sigqueueinfo @ calls_rt_sigsuspend @ calls_sigaltstack
    @ calls_utime @ calls_mknod @ calls_uselib @ calls_personality @ calls_ustat @ calls_statfs @ calls_fstatfs"

definition probe_group_11 :: "probe_prog list" where
  "probe_group_11 =
    calls_sysfs @ calls_getpriority @ calls_setpriority @ calls_sched_setparam @ calls_sched_getparam @ calls_sched_setscheduler
    @ calls_sched_getscheduler @ calls_sched_get_priority_max @ calls_sched_get_priority_min @ calls_sched_rr_get_interval @
    calls_mlock @ calls_munlock @ calls_mlockall"

definition probe_group_12 :: "probe_prog list" where
  "probe_group_12 =
    calls_munlockall @ calls_vhangup @ calls_modify_ldt @ calls_pivot_root @ calls_sysctl @ calls_prctl @ calls_arch_prctl @
    calls_adjtimex @ calls_setrlimit @ calls_chroot @ calls_sync @ calls_acct @ calls_settimeofday"

definition probe_group_13 :: "probe_prog list" where
  "probe_group_13 =
    calls_mount @ calls_umount2 @ calls_swapon @ calls_swapoff @ calls_reboot @ calls_sethostname @ calls_setdomainname @
    calls_iopl @ calls_ioperm @ calls_create_module @ calls_init_module @ calls_delete_module @ calls_get_kernel_syms"

definition probe_group_14 :: "probe_prog list" where
  "probe_group_14 =
    calls_query_module @ calls_quotactl @ calls_nfsservctl @ calls_gettid @ calls_readahead @ calls_setxattr @ calls_lsetxattr @
    calls_fsetxattr @ calls_getxattr @ calls_lgetxattr @ calls_fgetxattr"

definition probe_group_15 :: "probe_prog list" where
  "probe_group_15 =
    calls_listxattr @ calls_llistxattr @ calls_flistxattr @ calls_removexattr @ calls_lremovexattr @ calls_fremovexattr @
    calls_tkill @ calls_time @ calls_futex @ calls_sched_setaffinity @ calls_sched_getaffinity @ calls_set_thread_area @
    calls_io_setup"

definition probe_group_16 :: "probe_prog list" where
  "probe_group_16 =
    calls_io_destroy @ calls_io_getevents @ calls_io_submit @ calls_io_cancel @ calls_get_thread_area @ calls_lookup_dcookie @
    calls_epoll_create @ calls_remap_file_pages @ calls_getdents64 @ calls_set_tid_address @ calls_restart_syscall @
    calls_semtimedop"

definition probe_group_17 :: "probe_prog list" where
  "probe_group_17 =
    calls_fadvise64 @ calls_timer_create @ calls_timer_settime @ calls_timer_gettime @ calls_timer_getoverrun @
    calls_timer_delete @ calls_clock_settime @ calls_clock_gettime @ calls_clock_getres @ calls_clock_nanosleep @
    calls_exit_group @ calls_epoll_wait"

definition probe_group_18 :: "probe_prog list" where
  "probe_group_18 =
    calls_epoll_ctl @ calls_tgkill @ calls_utimes @ calls_mbind @ calls_set_mempolicy @ calls_get_mempolicy @ calls_mq_open @
    calls_mq_unlink @ calls_mq_timedsend @ calls_mq_timedreceive @ calls_mq_notify"

definition probe_group_19 :: "probe_prog list" where
  "probe_group_19 =
    calls_mq_getsetattr @ calls_kexec_load @ calls_waitid @ calls_add_key @ calls_request_key @ calls_keyctl @ calls_ioprio_set
    @ calls_ioprio_get @ calls_inotify_init @ calls_inotify_add_watch @ calls_inotify_rm_watch @ calls_migrate_pages"

definition probe_group_20 :: "probe_prog list" where
  "probe_group_20 =
    calls_openat @ calls_mkdirat @ calls_mknodat @ calls_fchownat @ calls_futimesat @ calls_newfstatat @ calls_unlinkat @
    calls_renameat @ calls_linkat @ calls_symlinkat @ calls_readlinkat"

definition probe_group_21 :: "probe_prog list" where
  "probe_group_21 =
    calls_fchmodat @ calls_faccessat @ calls_pselect6 @ calls_ppoll @ calls_unshare @ calls_set_robust_list @
    calls_get_robust_list @ calls_splice @ calls_tee @ calls_sync_file_range @ calls_vmsplice"

definition probe_group_22 :: "probe_prog list" where
  "probe_group_22 =
    calls_move_pages @ calls_utimensat @ calls_epoll_pwait @ calls_signalfd @ calls_timerfd_create @ calls_eventfd @
    calls_fallocate @ calls_timerfd_settime @ calls_timerfd_gettime @ calls_accept4 @ calls_signalfd4 @ calls_eventfd2"

definition probe_group_23 :: "probe_prog list" where
  "probe_group_23 =
    calls_epoll_create1 @ calls_dup3 @ calls_pipe2 @ calls_inotify_init1 @ calls_preadv @ calls_pwritev @
    calls_rt_tgsigqueueinfo @ calls_perf_event_open @ calls_recvmmsg @ calls_fanotify_init @ calls_fanotify_mark"

definition probe_group_24 :: "probe_prog list" where
  "probe_group_24 =
    calls_prlimit64 @ calls_name_to_handle_at @ calls_open_by_handle_at @ calls_clock_adjtime @ calls_syncfs @ calls_sendmmsg @
    calls_setns @ calls_getcpu @ calls_process_vm_readv @ calls_process_vm_writev @ calls_kcmp"

definition probe_group_25 :: "probe_prog list" where
  "probe_group_25 =
    calls_finit_module @ calls_sched_setattr @ calls_sched_getattr @ calls_renameat2 @ calls_seccomp @ calls_getrandom @
    calls_memfd_create @ calls_kexec_file_load @ calls_bpf @ calls_execveat @ calls_userfaultfd @ calls_membarrier"

definition probe_group_26 :: "probe_prog list" where
  "probe_group_26 =
    calls_mlock2 @ calls_copy_file_range @ calls_preadv2 @ calls_pwritev2 @ calls_pkey_mprotect @ calls_pkey_alloc @
    calls_pkey_free @ calls_statx @ calls_io_pgetevents @ calls_rseq @ calls_pidfd_send_signal"

definition probe_group_27 :: "probe_prog list" where
  "probe_group_27 =
    calls_io_uring_setup @ calls_io_uring_enter @ calls_io_uring_register @ calls_open_tree @ calls_move_mount @ calls_fsopen @
    calls_fsconfig @ calls_fsmount @ calls_fspick @ calls_pidfd_open @ calls_clone3 @ calls_close_range"

definition probe_group_28 :: "probe_prog list" where
  "probe_group_28 =
    calls_openat2 @ calls_pidfd_getfd @ calls_faccessat2 @ calls_process_madvise @ calls_epoll_pwait2 @ calls_mount_setattr @
    calls_quotactl_fd @ calls_landlock_create_ruleset @ calls_landlock_add_rule @ calls_landlock_restrict_self @
    calls_memfd_secret"

definition probe_group_29 :: "probe_prog list" where
  "probe_group_29 =
    calls_process_mrelease @ calls_futex_waitv @ calls_set_mempolicy_home_node @ calls_cachestat @ calls_fchmodat2"

definition probe_groups :: "probe_prog list list" where
  "probe_groups =
    [probe_group_0, probe_group_1, probe_group_2, probe_group_3, probe_group_4, probe_group_5, probe_group_6, probe_group_7,
     probe_group_8, probe_group_9, probe_group_10, probe_group_11, probe_group_12, probe_group_13, probe_group_14,
     probe_group_15, probe_group_16, probe_group_17, probe_group_18, probe_group_19, probe_group_20, probe_group_21,
     probe_group_22, probe_group_23, probe_group_24, probe_group_25, probe_group_26, probe_group_27, probe_group_28,
     probe_group_29]"

definition probe_progs :: "probe_prog list" where
  "probe_progs = concat probe_groups"

section \<open>Agreement with the event table\<close>

fun type_width :: "linx_field_type \<Rightarrow> nat option" where
  "type_width LINX_FIELD_TYPE_INT8 = Some 1"
| "type_width LINX_FIELD_TYPE_UINT8 = Some 1"
| "type_width LINX_FIELD_TYPE_BOOL = Some 1"
| "type_width LINX_FIELD_TYPE_INT16 = Some 2"
| "type_width LINX_FIELD_TYPE_UINT16 = Some 2"
| "type_width LINX_FIELD_TYPE_INT32 = Some 4"
| "type_width LINX_FIELD_TYPE_UINT32 = Some 4"
| "type_width LINX_FIELD_TYPE_UID = Some 4"
| "type_width LINX_FIELD_TYPE_INT64 = Some 8"
| "type_width LINX_FIELD_TYPE_UINT64 = Some 8"
| "type_width LINX_FIELD_TYPE_PID = Some 8"
| "type_width ty = None"

text \<open>The bytes that a reader of the type needs.\<close>

definition wide_enough :: "linx_field_type \<Rightarrow> bytes \<Rightarrow> bool" where
  "wide_enough ty c \<longleftrightarrow> (case type_width ty of None \<Rightarrow> True | Some w \<Rightarrow> w \<le> length c)"

fun shape_ok :: "shape \<Rightarrow> linx_field_type \<Rightarrow> bool" where
  "shape_ok (Exact n) ty = (case type_width ty of None \<Rightarrow> True | Some w \<Rightarrow> w \<le> n)"
| "shape_ok Any ty = (type_width ty = None)"

definition RECVFROM_X :: nat where "RECVFROM_X = 91"
definition SENDTO_X :: nat where "SENDTO_X = 89"

definition suffix :: "nat \<Rightarrow> string" where
  "suffix t = (if even t then ''_e'' else ''_x'')"

definition row_matches :: "probe_prog \<Rightarrow> nat \<times> linx_event_table \<Rightarrow> bool" where
  "row_matches p tr \<longleftrightarrow> pp_type p = fst tr \<and> pp_name p = evt_name (snd tr) @ suffix (fst tr) \<and> pp_ret p = odd (fst tr) \<and>
     (fst tr = RECVFROM_X \<or> list_all (\<lambda>sh. list_all2 shape_ok sh (map snd (params (snd tr)))) (steps_shapes (pp_steps p))) \<and>
     (fst tr = SENDTO_X \<or> steps_bounded (pp_steps p))"

lemma row_matches_probe:
  "row_matches (probe nm ty ret ss) (t, event_row en n ps) \<longleftrightarrow> ty = t \<and> nm = en @ suffix t \<and> ret = odd t \<and>
     (t = 91 \<or> list_all (\<lambda>sh. list_all2 shape_ok sh (map snd ps)) (steps_shapes ss)) \<and> (t = 89 \<or> steps_bounded ss)"
  by (auto simp: row_matches_def probe_def event_row_def RECVFROM_X_def SENDTO_X_def)

lemmas row_matches_simps =
  row_matches_probe suffix_def steps_bounded_def LINX_CHARBUF_MAX_SIZE_def

lemma probe_group_0_matches: "list_all2 row_matches probe_group_0 event_rows_0"
  by (simp add: probe_group_0_def event_rows_0_def row_matches_simps
      calls_read_def calls_write_def calls_open_def calls_close_def calls_stat_def calls_fstat_def calls_lstat_def calls_poll_def calls_lseek_def calls_mmap_def calls_mprotect_def calls_munmap_def)

lemma probe_group_1_matches: "list_all2 row_matches probe_group_1 event_rows_1"
  by (simp add: probe_group_1_def event_rows_1_def row_matches_simps
      calls_brk_def calls_rt_sigaction_def calls_rt_sigprocmask_def calls_rt_sigreturn_def calls_ioctl_def calls_pread64_def calls_pwrite64_def calls_readv_def calls_writev_def calls_access_def calls_pipe_def calls_select_def)

lemma probe_group_2_matches: "list_all2 row_matches probe_group_2 event_rows_2"
  by (simp add: probe_group_2_def event_rows_2_def row_matches_simps
      calls_sched_yield_def calls_mremap_def calls_msync_def calls_mincore_def calls_madvise_def calls_shmget_def calls_shmat_def calls_shmctl_def calls_dup_def calls_dup2_def calls_pause_def calls_nanosleep_def)

lemma probe_group_3_matches: "list_all2 row_matches probe_group_3 event_rows_3"
  by (simp add: probe_group_3_def event_rows_3_def row_matches_simps
      calls_getitimer_def calls_alarm_def calls_setitimer_def calls_getpid_def calls_sendfile_def calls_socket_def calls_connect_def calls_accept_def calls_sendto_def calls_recvfrom_def calls_sendmsg_def calls_recvmsg_def)

lemma probe_group_4_matches: "list_all2 row_matches probe_group_4 event_rows_4"
  by (simp add: probe_group_4_def event_rows_4_def row_matches_simps
      calls_shutdown_def calls_bind_def calls_listen_def calls_getsockname_def calls_getpeername_def calls_socketpair_def calls_setsockopt_def calls_getsockopt_def calls_clone_def calls_fork_def calls_vfork_def calls_execve_def)

lemma probe_group_5_matches: "list_all2 row_matches probe_group_5 event_rows_5"
  by (simp add: probe_group_5_def event_rows_5_def row_matches_simps
      calls_exit_def calls_wait4_def calls_kill_def calls_uname_def calls_semget_def calls_semop_def calls_semctl_def calls_shmdt_def calls_msgget_def calls_msgsnd_def calls_msgrcv_def calls_msgctl_def)

lemma probe_group_6_matches: "list_all2 row_matches probe_group_6 event_rows_6"
  by (simp add: probe_group_6_def event_rows_6_def row_matches_simps
      calls_fcntl_def calls_flock_def calls_fsync_def calls_fdatasync_def calls_truncate_def calls_ftruncate_def calls_getdents_def calls_getcwd_def calls_chdir_def calls_fchdir_def calls_rename_def calls_mkdir_def calls_rmdir_def)

lemma probe_group_7_matches: "list_all2 row_matches probe_group_7 event_rows_7"
  by (simp add: probe_group_7_def event_rows_7_def row_matches_simps
      calls_creat_def calls_link_def calls_unlink_def calls_symlink_def calls_readlink_def calls_chmod_def calls_fchmod_def calls_chown_def calls_fchown_def calls_lchown_def calls_umask_def calls_gettimeofday_def calls_getrlimit_def)

lemma probe_group_8_matches: "list_all2 row_matches probe_group_8 event_rows_8"
  by (simp add: probe_group_8_def event_rows_8_def row_matches_simps
      calls_getrusage_def calls_sysinfo_def calls_times_def calls_ptrace_def calls_getuid_def calls_syslog_def calls_getgid_def calls_setuid_def calls_setgid_def calls_geteuid_def calls_getegid_def calls_setpgid_def calls_getppid_def calls_getpgrp_def calls_setsid_def)

lemma probe_group_9_matches: "list_all2 row_matches probe_group_9 event_rows_9"
  by (simp add: probe_group_9_def event_rows_9_def row_matches_simps
      calls_setreuid_def calls_setregid_def calls_getgroups_def calls_setgroups_def calls_setresuid_def calls_getresuid_def calls_setresgid_def calls_getresgid_def calls_getpgid_def calls_setfsuid_def calls_setfsgid_def calls_getsid_def calls_capget_def)

lemma probe_group_10_matches: "list_all2 row_matches probe_group_10 event_rows_10"
  by (simp add: probe_group_10_def event_rows_10_def row_matches_simps
      calls_capset_def calls_rt_sigpending_def calls_rt_sigtimedwait_def calls_rt_sigqueueinfo_def calls_rt_sigsuspend_def calls_sigaltstack_def calls_utime_def calls_mknod_def calls_uselib_def calls_personality_def calls_ustat_def calls_statfs_def calls_fstatfs_def)

lemma probe_group_11_matches: "list_all2 row_matches probe_group_11 event_rows_11"
  by (simp add: probe_group_11_def event_rows_11_def row_matches_simps
      calls_sysfs_def calls_getpriority_def calls_setpriority_def calls_sched_setparam_def calls_sched_getparam_def calls_sched_setscheduler_def calls_sched_getscheduler_def calls_sched_get_priority_max_def calls_sched_get_priority_min_def calls_sched_rr_get_interval_def calls_mlock_def calls_munlock_def calls_mlockall_def)

lemma probe_group_12_matches: "list_all2 row_matches probe_group_12 event_rows_12"
  by (simp add: probe_group_12_def event_rows_12_def row_matches_simps
      calls_munlockall_def calls_vhangup_def calls_modify_ldt_def calls_pivot_root_def calls_sysctl_def calls_prctl_def calls_arch_prctl_def calls_adjtimex_def calls_setrlimit_def calls_chroot_def calls_sync_def calls_acct_def calls_settimeofday_def)

lemma probe_group_13_matches: "list_all2 row_matches probe_group_13 event_rows_13"
  by (simp add: probe_group_13_def event_rows_13_def row_matches_simps
      calls_mount_def calls_umount2_def calls_swapon_def calls_swapoff_def calls_reboot_def calls_sethostname_def calls_setdomainname_def calls_iopl_def calls_ioperm_def calls_create_module_def calls_init_module_def calls_delete_module_def calls_get_kernel_syms_def)

lemma probe_group_14_matches: "list_all2 row_matches probe_group_14 event_rows_14"
  by (simp add: probe_group_14_def event_rows_14_def row_matches_simps
      calls_query_module_def calls_quotactl_def calls_nfsservctl_def calls_gettid_def calls_readahead_def calls_setxattr_def calls_lsetxattr_def calls_fsetxattr_def calls_getxattr_def calls_lgetxattr_def calls_fgetxattr_def)

lemma probe_group_15_matches: "list_all2 row_matches probe_group_15 event_rows_15"
  by (simp add: probe_group_15_def event_rows_15_def row_matches_simps
      calls_listxattr_def calls_llistxattr_def calls_flistxattr_def calls_removexattr_def calls_lremovexattr_def calls_fremovexattr_def calls_tkill_def calls_time_def calls_futex_def calls_sched_setaffinity_def calls_sched_getaffinity_def calls_set_thread_area_def calls_io_setup_def)

lemma probe_group_16_matches: "list_all2 row_matches probe_group_16 event_rows_16"
  by (simp add: probe_group_16_def event_rows_16_def row_matches_simps
      calls_io_destroy_def calls_io_getevents_def calls_io_submit_def calls_io_cancel_def calls_get_thread_area_def calls_lookup_dcookie_def calls_epoll_create_def calls_remap_file_pages_def calls_getdents64_def calls_set_tid_address_def calls_restart_syscall_def calls_semtimedop_def)

lemma probe_group_17_matches: "list_all2 row_matches probe_group_17 event_rows_17"
  by (simp add: probe_group_17_def event_rows_17_def row_matches_simps
      calls_fadvise64_def calls_timer_create_def calls_timer_settime_def calls_timer_gettime_def calls_timer_getoverrun_def calls_timer_delete_def calls_clock_settime_def calls_clock_gettime_def calls_clock_getres_def calls_clock_nanosleep_def calls_exit_group_def calls_epoll_wait_def)

lemma probe_group_18_matches: "list_all2 row_matches probe_group_18 event_rows_18"
  by (simp add: probe_group_18_def event_rows_18_def row_matches_simps
      calls_epoll_ctl_def calls_tgkill_def calls_utimes_def calls_mbind_def calls_set_mempolicy_def calls_get_mempolicy_def calls_mq_open_def calls_mq_unlink_def calls_mq_timedsend_def calls_mq_timedreceive_def calls_mq_notify_def)

lemma probe_group_19_matches: "list_all2 row_matches probe_group_19 event_rows_19"
  by (simp add: probe_group_19_def event_rows_19_def row_matches_simps
      calls_mq_getsetattr_def calls_kexec_load_def calls_waitid_def calls_add_key_def calls_request_key_def calls_keyctl_def calls_ioprio_set_def calls_ioprio_get_def calls_inotify_init_def calls_inotify_add_watch_def calls_inotify_rm_watch_def calls_migrate_pages_def)

lemma probe_group_20_matches: "list_all2 row_matches probe_group_20 event_rows_20"
  by (simp add: probe_group_20_def event_rows_20_def row_matches_simps
      calls_openat_def calls_mkdirat_def calls_mknodat_def calls_fchownat_def calls_futimesat_def calls_newfstatat_def calls_unlinkat_def calls_renameat_def calls_linkat_def calls_symlinkat_def calls_readlinkat_def)

lemma probe_group_21_matches: "list_all2 row_matches probe_group_21 event_rows_21"
  by (simp add: probe_group_21_def event_rows_21_def row_matches_simps
      calls_fchmodat_def calls_faccessat_def calls_pselect6_def calls_ppoll_def calls_unshare_def calls_set_robust_list_def calls_get_robust_list_def calls_splice_def calls_tee_def calls_sync_file_range_def calls_vmsplice_def)

lemma probe_group_22_matches: "list_all2 row_matches probe_group_22 event_rows_22"
  by (simp add: probe_group_22_def event_rows_22_def row_matches_simps
      calls_move_pages_def calls_utimensat_def calls_epoll_pwait_def calls_signalfd_def calls_timerfd_create_def calls_eventfd_def calls_fallocate_def calls_timerfd_settime_def calls_timerfd_gettime_def calls_accept4_def calls_signalfd4_def calls_eventfd2_def)

lemma probe_group_23_matches: "list_all2 row_matches probe_group_23 event_rows_23"
  by (simp add: probe_group_23_def event_rows_23_def row_matches_simps
      calls_epoll_create1_def calls_dup3_def calls_pipe2_def calls_inotify_init1_def calls_preadv_def calls_pwritev_def calls_rt_tgsigqueueinfo_def calls_perf_event_open_def calls_recvmmsg_def calls_fanotify_init_def calls_fanotify_mark_def)

lemma probe_group_24_matches: "list_all2 row_matches probe_group_24 event_rows_24"
  by (simp add: probe_group_24_def event_rows_24_def row_matches_simps
      calls_prlimit64_def calls_name_to_handle_at_def calls_open_by_handle_at_def calls_clock_adjtime_def calls_syncfs_def calls_sendmmsg_def calls_setns_def calls_getcpu_def calls_process_vm_readv_def calls_process_vm_writev_def calls_kcmp_def)

lemma probe_group_25_matches: "list_all2 row_matches probe_group_25 event_rows_25"
  by (simp add: probe_group_25_def event_rows_25_def row_matches_simps
      calls_finit_module_def calls_sched_setattr_def calls_sched_getattr_def calls_renameat2_def calls_seccomp_def calls_getrandom_def calls_memfd_create_def calls_kexec_file_load_def calls_bpf_def calls_execveat_def calls_userfaultfd_def calls_membarrier_def)

lemma probe_group_26_matches: "list_all2 row_matches probe_group_26 event_rows_26"
  by (simp add: probe_group_26_def event_rows_26_def row_matches_simps
      calls_mlock2_def calls_copy_file_range_def calls_preadv2_def calls_pwritev2_def calls_pkey_mprotect_def calls_pkey_alloc_def calls_pkey_free_def calls_statx_def calls_io_pgetevents_def calls_rseq_def calls_pidfd_send_signal_def)

lemma probe_group_27_matches: "list_all2 row_matches probe_group_27 event_rows_27"
  by (simp add: probe_group_27_def event_rows_27_def row_matches_simps
      calls_io_uring_setup_def calls_io_uring_enter_def calls_io_uring_register_def calls_open_tree_def calls_move_mount_def calls_fsopen_def calls_fsconfig_def calls_fsmount_def calls_fspick_def calls_pidfd_open_def calls_clone3_def calls_close_range_def)

lemma probe_group_28_matches: "list_all2 row_matches probe_group_28 event_rows_28"
  by (simp add: probe_group_28_def event_rows_28_def row_matches_simps
      calls_openat2_def calls_pidfd_getfd_def calls_faccessat2_def calls_process_madvise_def calls_epoll_pwait2_def calls_mount_setattr_def calls_quotactl_fd_def calls_landlock_create_ruleset_def calls_landlock_add_rule_def calls_landlock_restrict_self_def calls_memfd_secret_def)

lemma probe_group_29_matches: "list_all2 row_matches probe_group_29 event_rows_29"
  by (simp add: probe_group_29_def event_rows_29_def row_matches_simps
      calls_process_mrelease_def calls_futex_waitv_def calls_set_mempolicy_home_node_def calls_cachestat_def calls_fchmodat2_def)

lemmas probe_matches =
  probe_group_0_matches probe_group_1_matches probe_group_2_matches probe_group_3_matches probe_group_4_matches
  probe_group_5_matches probe_group_6_matches probe_group_7_matches probe_group_8_matches probe_group_9_matches
  probe_group_10_matches probe_group_11_matches probe_group_12_matches probe_group_13_matches probe_group_14_matches
  probe_group_15_matches probe_group_16_matches probe_group_17_matches probe_group_18_matches probe_group_19_matches
  probe_group_20_matches probe_group_21_matches probe_group_22_matches probe_group_23_matches probe_group_24_matches
  probe_group_25_matches probe_group_26_matches probe_group_27_matches probe_group_28_matches probe_group_29_matches

lemma probe_progs_match: "list_all2 row_matches probe_progs (concat event_groups)"
  unfolding probe_progs_def probe_groups_def event_groups_def concat.simps
  by (intro list_all2_appendI list.rel_intros(1) probe_matches)

section \<open>Names\<close>

text \<open>A hash of the names of the system calls, which tells them apart.\<close>

definition name_key :: "string \<Rightarrow> nat" where
  "name_key s = foldl (\<lambda>a c. (a * 3 + of_char c) mod 65521) 0 s"

fun row_keys :: "(nat \<times> linx_event_table) list \<Rightarrow> nat list" where
  "row_keys ((i, a) # (j, b) # xs) = name_key (evt_name a) # row_keys xs"
| "row_keys xs = []"

lemma event_rows_0_keys: "row_keys event_rows_0 =
    [4378, 14111, 4418, 12380, 4556, 12818, 13304, 4455, 13172, 4327, 33573, 40318]"
  by (simp add: event_rows_0_def evt_name_event_row name_key_def)

lemma event_rows_1_keys: "row_keys event_rows_1 =
    [1331, 1056, 51824, 5466, 12849, 55743, 44552, 13252, 42451, 35632, 4406, 40364]"
  by (simp add: event_rows_1_def evt_name_event_row name_key_def)

lemma event_rows_2_keys: "row_keys event_rows_2 =
    [55329, 39832, 13452, 52480, 50188, 40658, 13511, 40659, 1363, 4139, 13190, 6231]"
  by (simp add: event_rows_2_def evt_name_event_row name_key_def)

lemma event_rows_3_keys: "row_keys event_rows_3 =
    [37563, 12097, 50774, 37765, 36483, 40991, 46825, 35624, 40455, 33179, 55896, 54762]"
  by (simp add: event_rows_3_def evt_name_event_row name_key_def)

lemma event_rows_4_keys: "row_keys event_rows_4 =
    [41709, 4021, 39311, 27585, 14787, 48547, 27015, 52903, 12365, 4202, 13760, 38336]"
  by (simp add: event_rows_4_def evt_name_event_row name_key_def)

lemma event_rows_5_keys: "row_keys event_rows_5 =
    [4238, 13603, 4266, 13748, 40415, 13468, 40416, 13520, 39929, 40048, 40024, 39930]"
  by (simp add: event_rows_5_def evt_name_event_row name_key_def)

lemma event_rows_6_keys: "row_keys event_rows_6 =
    [12381, 12581, 12885, 16488, 50529, 64541, 11753, 37690, 12156, 36942, 40154, 13047, 13506]"
  by (simp add: event_rows_6_def evt_name_event_row name_key_def)

lemma event_rows_7_keys: "row_keys event_rows_7 =
    [12413, 4298, 41639, 60844, 31311, 12241, 37027, 12293, 37079, 38537, 13745, 16749, 39116]"
  by (simp add: event_rows_7_def evt_name_event_row name_key_def)

lemma event_rows_8_keys: "row_keys event_rows_8 =
    [39986, 61274, 13630, 40961, 37810, 42259, 37684, 40726, 40600, 47700, 47574, 56619, 47952, 47910, 40708]"
  by (simp add: event_rows_8_def evt_name_event_row name_key_def)

lemma event_rows_9_keys: "row_keys event_rows_9 =
    [39146, 39020, 37183, 50394, 52086, 38875, 51960, 38749, 47871, 38552, 38426, 37792, 36284]"
  by (simp add: event_rows_9_def evt_name_event_row name_key_def)

lemma event_rows_10_keys: "row_keys event_rows_10 =
    [36392, 14017, 29832, 34255, 20782, 37766, 13982, 13141, 41858, 23658, 14033, 41425, 50262]"
  by (simp add: event_rows_10_def evt_name_event_row name_key_def)

lemma event_rows_11_keys: "row_keys event_rows_11 =
    [14038, 25214, 13071, 41697, 15453, 57444, 28352, 18618, 18632, 11409, 13148, 55600, 28696]"
  by (simp add: event_rows_11_def evt_name_event_row name_key_def)

lemma event_rows_12_keys: "row_keys event_rows_12 =
    [61043, 57990, 62495, 62266, 45932, 13497, 37671, 62348, 52327, 37007, 4623, 3923, 45841]"
  by (simp add: event_rows_12_def evt_name_event_row name_key_def)

lemma event_rows_13_keys: "row_keys event_rows_13 =
    [13325, 59797, 41654, 59519, 39977, 61523, 55133, 4278, 38890, 1283, 47280, 32308, 54348]"
  by (simp add: event_rows_13_def evt_name_event_row name_key_def)

lemma event_rows_14_keys: "row_keys event_rows_14 =
    [27201, 45154, 62994, 37801, 27483, 39562, 27419, 53574, 13318, 1175, 27330]"
  by (simp add: event_rows_14_def evt_name_event_row name_key_def)

lemma event_rows_15_keys: "row_keys event_rows_15 =
    [15755, 44847, 57791, 39256, 39000, 24454, 13662, 4505, 12888, 47496, 59639, 29247, 19583]"
  by (simp add: event_rows_15_def evt_name_event_row name_key_def)

lemma event_rows_16_keys: "row_keys event_rows_16 =
    [34634, 1286, 59582, 54288, 30015, 2731, 26144, 32435, 40470, 10282, 19399, 11519]"
  by (simp add: event_rows_16_def evt_name_event_row name_key_def)

lemma event_rows_17_keys: "row_keys event_rows_17 =
    [12853, 35642, 51664, 42916, 45579, 35057, 33622, 24874, 30074, 60091, 45983, 3273]"
  by (simp add: event_rows_17_def evt_name_event_row name_key_def)

lemma event_rows_18_keys: "row_keys event_rows_18 =
    [44613, 40797, 42061, 12850, 2159, 45925, 53512, 24838, 63943, 22722, 23424]"
  by (simp add: event_rows_18_def evt_name_event_row name_key_def)

lemma event_rows_19_keys: "row_keys event_rows_19 =
    [1174, 61382, 41068, 41544, 3613, 38796, 16553, 16445, 16468, 1061, 44319, 20762]"
  by (simp add: event_rows_19_def evt_name_event_row name_key_def)

lemma event_rows_20_keys: "row_keys event_rows_20 =
    [40169, 52309, 53155, 6513, 65363, 58805, 47553, 34188, 39089, 23835, 20122]"
  by (simp add: event_rows_20_def evt_name_event_row name_key_def)

lemma event_rows_21_keys: "row_keys event_rows_21 =
    [6045, 7502, 38485, 13527, 59941, 61754, 62522, 41276, 1448, 7219, 51198]"
  by (simp add: event_rows_21_def evt_name_event_row name_key_def)

lemma event_rows_22_keys: "row_keys event_rows_22 =
    [31005, 23097, 9857, 38381, 28335, 49383, 16508, 29743, 20995, 41403, 49674, 17157]"
  by (simp add: event_rows_22_def evt_name_event_row name_key_def)

lemma event_rows_23_keys: "row_keys event_rows_23 =
    [12960, 4140, 13268, 49453, 40468, 58578, 5719, 61347, 33329, 61869, 61878]"
  by (simp add: event_rows_23_def evt_name_event_row name_key_def)

lemma event_rows_24_keys: "row_keys event_rows_24 =
    [52983, 30280, 49828, 19447, 42028, 36731, 13531, 37686, 64889, 799, 4219]"
  by (simp add: event_rows_24_def evt_name_event_row name_key_def)

lemma event_rows_25_keys: "row_keys event_rows_25 =
    [32478, 35492, 26744, 37093, 54987, 38290, 42343, 10334, 1320, 17826, 40274, 10170]"
  by (simp add: event_rows_25_def evt_name_event_row name_key_def)

lemma event_rows_26_keys: "row_keys event_rows_26 =
    [39494, 32657, 55933, 44742, 8046, 40352, 35416, 13788, 38282, 4529, 35184]"
  by (simp add: event_rows_26_def evt_name_event_row name_key_def)

lemma event_rows_27_keys: "row_keys event_rows_27 =
    [46915, 45978, 17030, 37495, 31294, 38519, 16658, 50107, 38474, 12343, 37146, 19460]"
  by (simp add: event_rows_27_def evt_name_event_row name_key_def)

lemma event_rows_28_keys: "row_keys event_rows_28 =
    [55036, 36295, 22556, 56398, 29621, 22370, 41041, 63946, 55087, 30194, 45247]"
  by (simp add: event_rows_28_def evt_name_event_row name_key_def)

lemma event_rows_29_keys: "row_keys event_rows_29 =
    [49851, 62603, 11056, 54564, 18185]"
  by (simp add: event_rows_29_def evt_name_event_row name_key_def)

lemmas event_rows_keys =
  event_rows_0_keys event_rows_1_keys event_rows_2_keys event_rows_3_keys event_rows_4_keys event_rows_5_keys event_rows_6_keys
  event_rows_7_keys event_rows_8_keys event_rows_9_keys event_rows_10_keys event_rows_11_keys event_rows_12_keys
  event_rows_13_keys event_rows_14_keys event_rows_15_keys event_rows_16_keys event_rows_17_keys event_rows_18_keys
  event_rows_19_keys event_rows_20_keys event_rows_21_keys event_rows_22_keys event_rows_23_keys event_rows_24_keys
  event_rows_25_keys event_rows_26_keys event_rows_27_keys event_rows_28_keys event_rows_29_keys

lemma keys_distinct: "distinct (concat (map row_keys event_groups))"
  by (simp add: event_groups_def event_rows_keys)

lemma row_keys_append: "paired_rows lo hi xs \<Longrightarrow> row_keys (xs @ ys) = row_keys xs @ row_keys ys"
  by (induction lo hi xs rule: paired_rows.induct) auto

lemma event_table_keys: "row_keys (concat event_groups) = concat (map row_keys event_groups)"
  by (simp add: event_groups_def event_rows_pairs [THEN row_keys_append])

lemma row_keys_member:
  "paired_rows lo hi xs \<Longrightarrow> (t, r) \<in> set xs \<Longrightarrow> name_key (evt_name r) \<in> set (row_keys xs)"
  by (induction lo hi xs rule: paired_rows.induct) auto

lemma row_names_unique:
  "paired_rows lo hi xs \<Longrightarrow> distinct (row_keys xs) \<Longrightarrow> (t, r) \<in> set xs \<Longrightarrow> (u, q) \<in> set xs \<Longrightarrow> evt_name r = evt_name q \<Longrightarrow>
   t div 2 = u div 2"
proof (induction lo hi xs rule: paired_rows.induct)
  case (3 lo hi i a j b xs)
  have neq: "(v, x) \<in> set xs \<Longrightarrow> evt_name x \<noteq> evt_name a \<and> evt_name x \<noteq> evt_name b" for v x
    using 3 row_keys_member [of "Suc j" hi xs v x] by auto
  show ?case using 3 by (auto dest: neq)
qed auto

text \<open>No two system calls of the table have the same name.\<close>

lemma event_names_unique:
  assumes "(t, r) \<in> set (concat event_groups)" "(u, q) \<in> set (concat event_groups)" "evt_name r = evt_name q"
  shows "t div 2 = u div 2"
  using row_names_unique [OF event_rows_paired _ assms] keys_distinct by (simp add: event_table_keys)

end
