(* ===== verification/Probe_Table.thy ===== *)
theory Probe_Table
  imports Probe_Calls
begin

text \<open>
  The programs of the probe against their reader: every row of the event table has its program, the parameters that the program stores are
  those that the row announces, and what the enrichment finds at the slot of a parameter is what the program stored. The exceptions are
  \<^verbatim>\<open>recvfrom_x\<close>, which stores one parameter too few, and \<^verbatim>\<open>sendto_x\<close>, whose length is not bounded.
\<close>

section \<open>Rows and programs\<close>

lemma probe_row:
  assumes "p \<in> set probe_progs"
  obtains row where "(pp_type p, row) \<in> set (concat event_groups)" "row_matches p (pp_type p, row)" "g_linx_event_table (pp_type p) = Inr row"
proof -
  from assms obtain i where i: "i < length probe_progs" "p = probe_progs ! i" by (auto simp: in_set_conv_nth)
  with probe_progs_match have m: "i < length (concat event_groups)" "row_matches p (concat event_groups ! i)"
    by (auto simp: list_all2_conv_all_nth)
  obtain t row where tr: "concat event_groups ! i = (t, row)" by (cases "concat event_groups ! i")
  with m have in_set: "(t, row) \<in> set (concat event_groups)" by (metis nth_mem)
  from m(2) tr have t: "pp_type p = t" by (simp add: row_matches_def)
  from in_set obtain g where "(t, row) \<in> set g" "g \<in> set event_groups" by auto
  then have "g_linx_event_table t = Inr row" by (rule g_linx_event_table_row)
  with that [of row] in_set m(2) tr t show thesis by simp
qed

lemma row_probe:
  assumes "g_linx_event_table t = Inr row" "evt_name row \<noteq> []"
  obtains p where "p \<in> set probe_progs" "row_matches p (t, row)" "(t, row) \<in> set (concat event_groups)"
proof -
  have m: "map_of (concat event_groups) t = Some row"
    using assms by (auto simp: g_linx_event_table_def zero_row_def event_row_def split: if_splits option.splits)
  then have "(t, row) \<in> set (concat event_groups)" by (rule map_of_SomeD)
  then obtain i where i: "i < length (concat event_groups)" "concat event_groups ! i = (t, row)"
    using in_set_conv_nth [THEN iffD1] by fast
  with probe_progs_match have "i < length probe_progs" "row_matches (probe_progs ! i) (t, row)"
    by (auto simp: list_all2_conv_all_nth)
  with that [of "probe_progs ! i"] i show thesis by (metis nth_mem)
qed

lemma suffix_inj: "xs @ suffix t = ys @ suffix u \<Longrightarrow> xs = ys \<and> even t = even u"
  by (auto simp: suffix_def split: if_splits)

lemma probe_name_type:
  assumes "p \<in> set probe_progs" "q \<in> set probe_progs" "pp_name p = pp_name q"
  shows "pp_type p = pp_type q"
proof -
  obtain r where r: "(pp_type p, r) \<in> set (concat event_groups)" "row_matches p (pp_type p, r)" using probe_row [OF assms(1)] by blast
  obtain s where s: "(pp_type q, s) \<in> set (concat event_groups)" "row_matches q (pp_type q, s)" using probe_row [OF assms(2)] by blast
  have e: "evt_name r = evt_name s" "even (pp_type p) = even (pp_type q)"
    using suffix_inj [of "evt_name r" "pp_type p" "evt_name s" "pp_type q"] assms(3) r(2) s(2) by (simp_all add: row_matches_def)
  have "pp_type p div 2 = pp_type q div 2" by (rule event_names_unique [OF r(1) s(1) e(1)])
  with e(2) show ?thesis by (metis div_mult_mod_eq parity_cases)
qed

lemma probe_type_inj:
  assumes "p \<in> set probe_progs" "q \<in> set probe_progs" "pp_type p = pp_type q"
  shows "p = q"
proof -
  have types: "map pp_type probe_progs = map fst (concat event_groups)"
    using probe_progs_match by (auto simp: list_all2_conv_all_nth row_matches_def intro: nth_equalityI)
  have "distinct (map pp_type probe_progs)" unfolding types by (rule paired_rows_distinct [OF event_rows_paired])
  with assms show ?thesis by (metis distinct_map inj_onD)
qed

lemma shape_wide: "shape_ok sh ty \<Longrightarrow> has_shape sh c \<Longrightarrow> wide_enough ty c"
  by (cases sh) (auto simp: wide_enough_def split: option.splits)

lemma row_matches_params:
  assumes "row_matches p (t, row)" "t \<noteq> RECVFROM_X" "steps_params pe (pp_steps p) = Inr cs"
  shows "list_all2 wide_enough (map snd (params row)) cs"
proof -
  obtain sh where sh: "sh \<in> set (steps_shapes (pp_steps p))" "list_all2 has_shape sh cs" using params_shapes(2) [OF assms(3)] by blast
  with assms(1,2) have "list_all2 shape_ok sh (map snd (params row))" by (auto simp: row_matches_def list_all_iff)
  with sh(2) have "list_all2 (\<lambda>ty c. wide_enough ty c) (map snd (params row)) cs"
    using shape_wide unfolding list_all2_conv_all_nth by metis
  then show ?thesis .
qed

text \<open>
  C10: the probe and the event table agree. Every row with a name has exactly one program that is named after the system call of the row
  and its direction; it announces the number of the row as its event type, it reports the return value exactly at the exit, and every run of
  it, \<^verbatim>\<open>recvfrom_x\<close> apart, stores as many parameters as the row lists, in the order of the row and none of them narrower than its
  type. There are no programs beyond those of the rows.
\<close>

theorem probe_programs_match_table:
  "(\<forall>t row. g_linx_event_table t = Inr row \<and> evt_name row \<noteq> [] \<longrightarrow>
      (\<exists>!p. p \<in> set probe_progs \<and> pp_name p = evt_name row @ suffix t)) \<and>
   (\<forall>p \<in> set probe_progs. \<exists>row. g_linx_event_table (pp_type p) = Inr row \<and>
      pp_name p = evt_name row @ suffix (pp_type p) \<and> pp_ret p = odd (pp_type p) \<and>
      (pp_type p \<noteq> RECVFROM_X \<longrightarrow> (\<forall>pe cs. steps_params pe (pp_steps p) = Inr cs \<longrightarrow>
         length cs = nparams row \<and> (\<forall>i < nparams row. wide_enough (snd (params row ! i)) (cs ! i)))))"
proof (intro conjI allI impI ballI)
  fix t row
  assume "g_linx_event_table t = Inr row \<and> evt_name row \<noteq> []"
  then obtain p where p: "p \<in> set probe_progs" "row_matches p (t, row)" using row_probe by blast
  show "\<exists>!p. p \<in> set probe_progs \<and> pp_name p = evt_name row @ suffix t"
  proof (rule ex1I [of _ p])
    show "p \<in> set probe_progs \<and> pp_name p = evt_name row @ suffix t" using p by (simp add: row_matches_def)
    fix q
    assume "q \<in> set probe_progs \<and> pp_name q = evt_name row @ suffix t"
    with p show "q = p" using probe_name_type [of q p] probe_type_inj [of q p] by (simp add: row_matches_def)
  qed
next
  fix p
  assume "p \<in> set probe_progs"
  then obtain row where row: "row_matches p (pp_type p, row)" "g_linx_event_table (pp_type p) = Inr row" using probe_row by blast
  have "nparams row = length (params row)" using g_linx_event_table_row_ok [OF row(2)] by (simp add: row_ok_def)
  with row_matches_params [OF row(1)] row
  show "\<exists>row. g_linx_event_table (pp_type p) = Inr row \<and> pp_name p = evt_name row @ suffix (pp_type p) \<and> pp_ret p = odd (pp_type p) \<and>
    (pp_type p \<noteq> RECVFROM_X \<longrightarrow> (\<forall>pe cs. steps_params pe (pp_steps p) = Inr cs \<longrightarrow>
       length cs = nparams row \<and> (\<forall>i < nparams row. wide_enough (snd (params row ! i)) (cs ! i))))"
    by (intro exI [of _ row]) (auto simp: row_matches_def list_all2_conv_all_nth)
qed

theorem probe_programs_match_table_witness:
  "\<exists>!p. p \<in> set probe_progs \<and> pp_name p = ''execve_e''"
proof -
  have "g_linx_event_table 118 = Inr (event_row ''execve'' 1 [(''filename'', LINX_FIELD_TYPE_CHARBUF)]) \<and>
      evt_name (event_row ''execve'' 1 [(''filename'', LINX_FIELD_TYPE_CHARBUF)]) \<noteq> []"
    by (simp add: g_linx_event_table_execve evt_name_event_row)
  from probe_programs_match_table [THEN conjunct1, rule_format, OF this] show ?thesis
    by (simp add: evt_name_event_row suffix_def)
qed

section \<open>From the probe to the reader\<close>

lemma socket_probe: "q \<in> set (calls_sendto @ calls_recvfrom) \<Longrightarrow> q \<in> set probe_progs"
  unfolding probe_progs_def probe_groups_def probe_group_3_def by (simp only: concat.simps set_append Un_iff) blast

text \<open>A run for the witnesses: a process with one connected socket, descriptor 3, that calls with a length of 100; no user memory is readable.\<close>

definition sample_kernel :: kernel_view where
  "sample_kernel = \<lparr>kv_parent_tgid = Some 1, kv_real_parent_tgid = None, kv_args = None, kv_comm_addr = 0, kv_total_vm = 0, kv_rss = (0, 0, 0),
     kv_tty = None, kv_loginuid = 0, kv_thread_pid = None, kv_fdt = Some (4, Some (\<lambda>_. 16)), kv_private_data = (\<lambda>_. 32), kv_sk = (\<lambda>_. 48),
     kv_family = (\<lambda>_. 2), kv_saddr = (\<lambda>_. 1), kv_sport = (\<lambda>_. 2), kv_daddr = (\<lambda>_. 3), kv_dport = (\<lambda>_. 4), kv_s_dev = (\<lambda>_. 0),
     kv_i_ino = (\<lambda>_. 0)\<rparr>"

definition sample_env :: probe_env where
  "sample_env = \<lparr>pe_regs = (\<lambda>i. if i = 0 then 3 else if i = 2 then 100 else 0), pe_ret = 5, pe_boot_time = 0, pe_pid_tgid = 7, pe_uid_gid = 0,
     pe_boot_ns = 0, pe_comm = replicate 16 0, pe_read_str = (\<lambda>_ _ _. (- 14, [])), pe_read = (\<lambda>_ _ _. (- 14, [])),
     pe_kernel = sample_kernel\<rparr>"

definition zero_ringbuf :: linx_ringbuf where
  "zero_ringbuf = \<lparr>rb_data = (\<lambda>_. 0), rb_index = 0, rb_pos = 0, rb_reserved = 0\<rparr>"

definition recvfrom_e :: probe_prog where "recvfrom_e = calls_recvfrom ! 0"
definition recvfrom_x :: probe_prog where "recvfrom_x = calls_recvfrom ! 1"

lemmas sample_simps = sample_env_def sample_kernel_def recvfrom_e_def recvfrom_x_def calls_recvfrom_def probe_def SENDTO_X_def RECVFROM_X_def

lemma sample_helpers: "helpers_ok sample_env"
  by (simp add: helpers_ok_def sample_env_def)

lemma sample_probes: "recvfrom_e \<in> set probe_progs" "recvfrom_x \<in> set probe_progs"
  by (rule socket_probe, simp add: recvfrom_e_def recvfrom_x_def calls_recvfrom_def)+

lemma sample_params: "steps_params sample_env (pp_steps recvfrom_e) = Inr [bytes_le 8 3, bytes_le 4 100]"
  by (simp add: sample_simps arg_def get_pt_regs_argumnet_def)

text \<open>
  The reader finds what the probe stored. Unless it runs into the fault of \<open>sock_param\<close>, a program other than \<^verbatim>\<open>sendto_x\<close> submits
  a record that fits the buffer of the reader, whatever the kernel and the process answer and whatever the buffer held before; the event in
  it has the type of the program and, for every parameter of its row, the bytes at the address that the enrichment computes are those that the
  program stored, at least as many as the type of the parameter needs.
\<close>

lemma probe_event_read_back:
  assumes "p \<in> set probe_progs" "pp_type p \<noteq> SENDTO_X" "pp_type p \<noteq> RECVFROM_X"
    and "helpers_ok pe" "steps_params pe (pp_steps p) = Inr cs"
  shows "\<exists>row out rb'. g_linx_event_table (pp_type p) = Inr row \<and> run_prog True pe p (Some rb) = Inr (Some out, Some rb') \<and>
    length out < 32768 \<and> nparams row = length cs \<and> le_type (event_of a (out @ junk)) = pp_type p \<and>
    (\<forall>i < nparams row. wide_enough (snd (params row ! i)) (cs ! i) \<and>
       bytes_at (unat (slot_addr (event_of a (out @ junk)) i - a)) (length (cs ! i)) (out @ junk) = cs ! i \<and>
       unat (slot_addr (event_of a (out @ junk)) i - a) + length (cs ! i) \<le> length out)"
proof -
  obtain row where row: "row_matches p (pp_type p, row)" "g_linx_event_table (pp_type p) = Inr row" using probe_row [OF assms(1)] by blast
  then have b: "steps_bounded (pp_steps p)" using assms(2) by (simp add: row_matches_def)
  obtain out rb' where out: "run_prog True pe p (Some rb) = Inr (Some out, Some rb')" "length out < 32768" "length cs \<le> 32"
    "event_record pe (pp_type p) (if pp_ret p then pe_ret pe else - 1) cs out"
    using run_prog_record [OF assms(4) b assms(5), of True rb] by auto
  have len: "nparams row = length (params row)" using g_linx_event_table_row_ok [OF row(2)] by (simp add: row_ok_def)
  note wide = row_matches_params [OF row(1) assms(3,5)]
  have "pp_type p < 906" using row(2) by (simp add: g_linx_event_table_def LINX_EVENT_TYPE_MAX_def split: if_splits)
  then have "le_type (event_of a (out @ junk)) = pp_type p" using event_of_fields(1) [OF out(4)] by simp
  then show ?thesis
    using row(2) out len wide slot_bytes [OF out(4,3)] slot_inside [OF out(4,3)]
    by (intro exI [of _ row] exI [of _ out] exI [of _ rb']) (simp add: list_all2_conv_all_nth)
qed

lemma probe_by_type:
  assumes "p \<in> set probe_progs" "q \<in> set (calls_sendto @ calls_recvfrom)" "pp_type p = pp_type q"
  shows "p = q"
  using probe_type_inj [OF assms(1) socket_probe [OF assms(2)] assms(3)] .

lemma sendto_x_overflows:
  assumes "p \<in> set probe_progs" "pp_type p = SENDTO_X" "helpers_ok pe"
    and "sint (pe_ret pe) \<le> 0" "pe_regs pe 1 \<noteq> 0" "pe_regs pe 2 = - 1" "length (snd (pe_read pe USER (pe_regs pe 1) 65535)) = 65535"
  shows "run_prog True pe p (Some rb) = Inl OutOfBounds"
proof -
  let ?rb0 = "linx_ringbuf_load_event pe 89 (pe_ret pe) rb"
  have p: "p = probe ''sendto_x'' 89 True [Store S64 Ret, StoreBytes (ArgPtr 1) SendLen]"
    using assms(2) by (intro probe_by_type [OF assms(1)]) (simp_all add: calls_sendto_def probe_def SENDTO_X_def)
  obtain rb1 where rb1: "run_step pe (Store S64 Ret) ?rb0 = Inr rb1" "holds rb1 [bytes_le 8 (sint (pe_ret pe) mod 256 ^ 8)]"
    using run_refines(1) [OF assms(3) load_event_holds [of pe 89 "pe_ret pe" rb], of "Store S64 Ret"] by (auto simp: step_refines_def)
  from holds_pos [OF rb1(2)] have "SAFE_ACCESS (rb_pos rb1) = 4120" using SAFE_ACCESS_small [of 4120] by simp
  then have big: "put_checked bs rb1 = Inl OutOfBounds" if "length bs = 65535" for bs using that by (simp add: put_checked_def)
  have "(ucast (- 1 :: 64 word) :: 16 word) = - 1" by (rule bit_word_eqI) (simp add: bit_simps)
  moreover have "(- 1 :: 16 word) = 65535" by simp
  ultimately have args: "arg pe (Suc 0) = pe_regs pe (Suc 0)" "send_len pe = 65535"
    using assms(4,6) by (simp_all add: arg_def get_pt_regs_argumnet_def send_len_def)
  obtain r bs where r: "pe_read pe USER (pe_regs pe 1) 65535 = (r, bs)" by (cases "pe_read pe USER (pe_regs pe 1) 65535")
  have "run_step pe (StoreBytes (ArgPtr 1) SendLen) rb1 = Inl OutOfBounds"
    using assms(5,7) r big [of bs] by (simp add: args linx_ringbuf_store_bytebuf_def linx_push_bytebuf_def)
  with rb1(1) show ?thesis by (simp add: p run_prog_def probe_def del: run_step.simps)
qed



section \<open>The parameters of \<^verbatim>\<open>recvfrom_x\<close>\<close>

lemma recvfrom_row:
  "g_linx_event_table 91 = Inr (event_row ''recvfrom'' 3 [(''res'', LINX_FIELD_TYPE_INT32), (''data'', LINX_FIELD_TYPE_BYTEBUF),
     (''tuple'', LINX_FIELD_TYPE_SOCKTUPLE)])"
  by (rule g_linx_event_table_row [of _ _ event_rows_3]) (simp_all add: event_rows_3_def event_groups_def)

text \<open>
  A successful \<^verbatim>\<open>recvfrom\<close> is recorded with its parameters shifted. The program stores the result and the addresses of the connection, but
  the row has the received data in between: the slot of \<^verbatim>\<open>data\<close> shows the addresses, the slot of \<^verbatim>\<open>tuple\<close> is the end of the record, and the size
  recorded for it is the one that an earlier event of the processor left in the buffer.
\<close>

theorem recvfrom_parameters_shifted:
  assumes "p \<in> set probe_progs" "pp_type p = RECVFROM_X" "helpers_ok pe" "0 < sint (pe_ret pe)"
    and "sock_param pe (ucast (pe_regs pe 0)) INBOUND (pe_regs pe 4) = Inr c"
  shows "\<exists>row out rb'. g_linx_event_table RECVFROM_X = Inr row \<and> map fst (params row) = [''res'', ''data'', ''tuple''] \<and>
    run_prog True pe p (Some rb) = Inr (Some out, Some rb') \<and>
    bytes_at (unat (slot_addr (event_of a (out @ junk)) 1 - a)) (length c) (out @ junk) = c \<and>
    slot_addr (event_of a (out @ junk)) 2 = a + word_of_nat (length out) \<and>
    le_params_size (event_of a (out @ junk)) 2 = word_of_int (le_val (fetch (off_params_size + 16) 8 (rb_data rb)))"
proof -
  let ?cs = "[bytes_le 8 (sint (pe_ret pe) mod 256 ^ 8), c]"
  have p: "p = probe ''recvfrom_x'' 91 True [Store S64 Ret, IfRet [StoreTuple INBOUND] [StoreEmpty, StoreEmpty]]"
    using assms(2) by (intro probe_by_type [OF assms(1)]) (simp_all add: calls_recvfrom_def probe_def RECVFROM_X_def)
  have "steps_params pe (pp_steps p) = Inr ?cs" using assms(4,5) by (simp add: p probe_def arg_def get_pt_regs_argumnet_def)
  moreover have "steps_bounded (pp_steps p)" by (simp add: p probe_def steps_bounded_def)
  ultimately obtain out rb' where out: "run_prog True pe p (Some rb) = Inr (Some out, Some rb')" "length out < 32768" "length ?cs \<le> 32"
    "event_record pe (pp_type p) (if pp_ret p then pe_ret pe else - 1) ?cs out" "keeps_old pe (length ?cs) rb out"
    using run_prog_record [OF assms(3), of p ?cs True rb] by auto
  have len: "length out < 2 ^ 32" "length out = 4112 + payload_len ?cs" using out(2,4) by (simp_all add: event_record_def)
  have "bytes_at (off_params_size + 16) 8 (out @ junk) = fetch (off_params_size + 16) 8 (rb_data rb)"
    using out(5) [unfolded keeps_old_def, THEN conjunct1, rule_format, of 2] len(2)
    by (subst bytes_at_append) (simp_all add: off_params_size_def)
  then have "le_params_size (event_of a (out @ junk)) 2 = word_of_int (le_val (fetch (off_params_size + 16) 8 (rb_data rb)))"
    by (simp add: event_of_def word_at_def)
  moreover have "slot_addr (event_of a (out @ junk)) 2 = a + word_of_nat (length out)"
    using slot_of_record [OF out(4,3) len(1), of 2 a junk] len(2) by simp
  moreover have "bytes_at (unat (slot_addr (event_of a (out @ junk)) 1 - a)) (length c) (out @ junk) = c"
    using slot_bytes [OF out(4,3) len(1), of 1 a junk] by simp
  moreover obtain row where "g_linx_event_table RECVFROM_X = Inr row" "map fst (params row) = [''res'', ''data'', ''tuple'']"
    using recvfrom_row by (simp add: RECVFROM_X_def event_row_def)
  ultimately show ?thesis using out(1) by (intro exI [of _ row] exI [of _ out] exI [of _ rb'] conjI)
qed

theorem recvfrom_parameters_shifted_witness:
  "\<exists>out rb'. run_prog True sample_env recvfrom_x (Some zero_ringbuf) = Inr (Some out, Some rb') \<and>
    bytes_at (unat (slot_addr (event_of 4096 (out @ [])) 1 - 4096)) 13 (out @ []) = tuple_param sample_kernel 48 INBOUND \<and>
    slot_addr (event_of 4096 (out @ [])) 2 = 4096 + word_of_nat (length out)"
proof -
  let ?c = "tuple_param sample_kernel 48 INBOUND"
  have "pp_type recvfrom_x = RECVFROM_X" "0 < sint (pe_ret sample_env)" by (simp_all add: sample_simps)
  moreover have "sock_param sample_env (ucast (pe_regs sample_env 0)) INBOUND (pe_regs sample_env 4) = Inr ?c"
    by (simp add: sock_param_def sample_simps get_sock_from_file_def extract__file_struct_from_fd_def AF_INET_def)
  moreover have "length ?c = 13" by (simp add: tuple_param_def Let_def)
  ultimately show ?thesis
    using recvfrom_parameters_shifted [OF sample_probes(2) _ sample_helpers, of ?c zero_ringbuf 4096 "[]"] by auto
qed

end
