(* ===== verification/Engine.thy ===== *)
theory Engine
  imports Config Probe_Table
begin

text \<open>
  The engine (\<^verbatim>\<open>linx_engine.c\<close>, \<^verbatim>\<open>linx_engine/ebpf\<close>) and the two programs of the probe that the kernel calls first (\<^verbatim>\<open>syscall_enter.bpf.c\<close>,
  \<^verbatim>\<open>syscall_exit.bpf.c\<close>, \<^verbatim>\<open>bpf_check.h\<close>): loading and attaching the programs, the variables that both sides share, the filters, and the
  ring from which the daemon takes events. The outcomes of the calls into libbpf are parameters.
\<close>

section \<open>The filters of the probe\<close>

text \<open>The variables of \<^verbatim>\<open>maps.h\<close>, which live in the \<^verbatim>\<open>.bss\<close> section of the object.\<close>

record bpf_bss =
  g_filter_pids :: "32 word list"
  g_filter_comms :: "bytes list"
  g_interesting_syscalls_table :: "8 word list"
  g_boot_time :: "64 word"
  g_drop_mode :: "8 word"
  g_drop_failed :: "8 word"

definition zero_bss :: bpf_bss where
  "zero_bss = \<lparr>g_filter_pids = replicate LINX_BPF_FILTER_PID_MAX_SIZE 0,
     g_filter_comms = replicate LINX_BPF_FILTER_COMM_MAX_SIZE (replicate LINX_COMM_MAX_SIZE 0),
     g_interesting_syscalls_table = replicate LINX_SYSCALL_ID_MAX 0, g_boot_time = 0, g_drop_mode = 0, g_drop_failed = 0\<rparr>"

fun check_pid_need_filtered :: "32 word \<Rightarrow> 32 word list \<Rightarrow> int" where
  "check_pid_need_filtered pid [] = 0"
| "check_pid_need_filtered pid (p # ps) = (if p = 0 then 0 else if pid = p then - 1 else check_pid_need_filtered pid ps)"

fun comm_flag :: "bool \<Rightarrow> bytes \<Rightarrow> bytes \<Rightarrow> bool" where
  "comm_flag flag (x # xs) (y # ys) = (if x \<noteq> y then False else comm_flag True xs ys)"
| "comm_flag flag xs ys = flag"

fun check_comm_need_filtered :: "bytes \<Rightarrow> bytes list \<Rightarrow> int" where
  "check_comm_need_filtered comm [] = 0"
| "check_comm_need_filtered comm (f # fs) =
     (if f = [] \<or> hd f = 0 then 0 else if comm_flag False comm f then - 1 else check_comm_need_filtered comm fs)"

definition check_drop_mode :: "bpf_bss \<Rightarrow> int" where
  "check_drop_mode b = uint (g_drop_mode b)"

definition check_drop_failed :: "bpf_bss \<Rightarrow> int" where
  "check_drop_failed b = uint (g_drop_failed b)"

definition check_interesting_syscall :: "32 word \<Rightarrow> bpf_bss \<Rightarrow> int" where
  "check_interesting_syscall syscall_id b =
    (if unat syscall_id \<ge> LINX_SYSCALL_ID_MAX then 0 else uint (g_interesting_syscalls_table b ! unat syscall_id))"

text \<open>A tail call table maps system call numbers to programs. The result is the program that \<^verbatim>\<open>bpf_tail_call\<close> enters, if any.\<close>

definition sys_enter :: "bpf_bss \<Rightarrow> (nat \<Rightarrow> probe_prog option) \<Rightarrow> 64 word \<Rightarrow> bytes \<Rightarrow> 64 word \<Rightarrow> probe_prog option" where
  "sys_enter b syscall_enter_tail_table pid_tgid comm syscall_id =
    (if check_pid_need_filtered (ucast pid_tgid) (g_filter_pids b) \<noteq> 0 \<or> check_comm_need_filtered comm (g_filter_comms b) \<noteq> 0 \<or>
        check_drop_mode b \<noteq> 0 then None
     else if check_interesting_syscall (ucast syscall_id) b = 0 then None
     else syscall_enter_tail_table (unat (ucast syscall_id :: 32 word)))"

definition sys_exit :: "bpf_bss \<Rightarrow> (nat \<Rightarrow> probe_prog option) \<Rightarrow> 64 word \<Rightarrow> bytes \<Rightarrow> 64 word \<Rightarrow> 64 word \<Rightarrow> probe_prog option" where
  "sys_exit b syscall_exit_tail_table pid_tgid comm syscall_id ret =
    (if check_pid_need_filtered (ucast pid_tgid) (g_filter_pids b) \<noteq> 0 \<or> check_comm_need_filtered comm (g_filter_comms b) \<noteq> 0 \<or>
        check_drop_mode b \<noteq> 0 then None
     else if check_interesting_syscall (ucast syscall_id) b = 0 then None
     else if check_drop_failed b \<noteq> 0 \<and> sint ret < 0 then None
     else syscall_exit_tail_table (unat (ucast syscall_id :: 32 word)))"

section \<open>The loader\<close>

record linx_bpf =
  sk_bss :: bpf_bss
  sk_max_entries :: int
  sk_autoload :: "string \<Rightarrow> bool"
  sk_enter :: "nat \<Rightarrow> probe_prog option"
  sk_exit :: "nat \<Rightarrow> probe_prog option"
  sk_attached :: "string list"

text \<open>The pointer \<^verbatim>\<open>skel\<close>: NULL, a skeleton, or a skeleton that was destroyed.\<close>

datatype skel_ptr = NoSkel | Skel linx_bpf | FreedSkel

record linx_ebpf =
  em_skel :: skel_ptr
  em_rb :: bool
  em_ringbuf_data :: bytes

text \<open>What the calls into libbpf and the clock return. \<open>lb_update\<close> belongs to a table (enter is \<open>False\<close>) and a key; the clocks are
  seconds and nanoseconds.\<close>

record libbpf =
  lb_open :: bool
  lb_ncpu :: int
  lb_set_max :: int
  lb_find :: "string \<Rightarrow> probe_prog option"
  lb_set_autoload :: "string \<Rightarrow> int"
  lb_load :: int
  lb_ring :: bool
  lb_fd :: "string \<Rightarrow> int"
  lb_update :: "bool \<Rightarrow> nat \<Rightarrow> int"
  lb_attach :: "string \<Rightarrow> bool"
  lb_boottime :: "(int \<times> int) option"
  lb_realtime :: "(int \<times> int) option"

definition zero_skel :: linx_bpf where
  "zero_skel = \<lparr>sk_bss = zero_bss, sk_max_entries = 0, sk_autoload = (\<lambda>_. True), sk_enter = (\<lambda>_. None), sk_exit = (\<lambda>_. None),
     sk_attached = []\<rparr>"

definition with_skel :: "(linx_bpf \<Rightarrow> int \<times> linx_bpf) \<Rightarrow> linx_ebpf \<Rightarrow> (int \<times> linx_ebpf) res" where
  "with_skel f m =
    (case em_skel m of
       NoSkel \<Rightarrow> Inl NullDeref
     | FreedSkel \<Rightarrow> Inl UseAfterFree
     | Skel s \<Rightarrow> (let (ret, s) = f s in Inr (ret, m\<lparr>em_skel := Skel s\<rparr>)))"

definition linx_ebpf_set_print :: "linx_ebpf \<Rightarrow> (int \<times> linx_ebpf) res" where
  "linx_ebpf_set_print m = Inr (0, m)"

definition linx_ebpf_open :: "libbpf \<Rightarrow> linx_ebpf \<Rightarrow> (int \<times> linx_ebpf) res" where
  "linx_ebpf_open lb m = Inr (if lb_open lb then (0, m\<lparr>em_skel := Skel zero_skel\<rparr>) else (- 1, m\<lparr>em_skel := NoSkel\<rparr>))"

definition linx_ebpf_maps_before_load :: "libbpf \<Rightarrow> linx_ebpf \<Rightarrow> (int \<times> linx_ebpf) res" where
  "linx_ebpf_maps_before_load lb m =
    (if lb_ncpu lb = - 1 then Inr (- 1, m)
     else with_skel (\<lambda>s. if lb_set_max lb \<noteq> 0 then (- 1, s) else (0, s\<lparr>sk_max_entries := lb_ncpu lb\<rparr>)) m)"

definition call_name :: "nat \<Rightarrow> string" where
  "call_name i = (case g_linx_event_table (i * 2) of Inl f \<Rightarrow> [] | Inr row \<Rightarrow> evt_name row)"

definition name_of_prog :: "nat \<Rightarrow> string \<Rightarrow> string" where
  "name_of_prog i sfx = take 63 (call_name i @ sfx)"

definition interesting :: "linx_global_config \<Rightarrow> nat \<Rightarrow> bool" where
  "interesting c i \<longleftrightarrow> interest_syscall_table c ! i \<noteq> 0"

definition disable_prog :: "libbpf \<Rightarrow> string \<Rightarrow> linx_bpf \<Rightarrow> linx_bpf" where
  "disable_prog lb nm s =
    (if lb_find lb nm \<noteq> None \<and> lb_set_autoload lb nm = 0 then s\<lparr>sk_autoload := (sk_autoload s)(nm := False)\<rparr> else s)"

fun disable_loop :: "libbpf \<Rightarrow> linx_global_config \<Rightarrow> nat list \<Rightarrow> linx_bpf \<Rightarrow> linx_bpf" where
  "disable_loop lb c [] s = s"
| "disable_loop lb c (i # is) s =
     (if interesting c i then disable_loop lb c is s
      else disable_loop lb c is (disable_prog lb (name_of_prog i ''_x'') (disable_prog lb (name_of_prog i ''_e'') s)))"

text \<open>The pointer keeps its value when the skeleton is destroyed.\<close>

definition linx_ebpf_load :: "libbpf \<Rightarrow> linx_global_config \<Rightarrow> linx_ebpf \<Rightarrow> (int \<times> linx_ebpf) res" where
  "linx_ebpf_load lb c m =
    res_bind (with_skel (\<lambda>s. (0, disable_loop lb c [0..<LINX_SYSCALL_ID_MAX] s)) m) (\<lambda>(ret, m).
      if lb_load lb \<noteq> 0 then Inr (- 1, m\<lparr>em_skel := FreedSkel\<rparr>) else Inr (0, m))"

definition linx_ebpf_ringbuf_init :: "libbpf \<Rightarrow> linx_ebpf \<Rightarrow> (int \<times> linx_ebpf) res" where
  "linx_ebpf_ringbuf_init lb m =
    res_bind (with_skel (\<lambda>s. (0, s)) m) (\<lambda>(ret, m).
      if \<not> lb_ring lb then Inr (- 1, m\<lparr>em_rb := False, em_skel := FreedSkel\<rparr>) else Inr (0, m\<lparr>em_rb := True\<rparr>))"

definition linx_ebpf_add_prog_to_tail_table :: "libbpf \<Rightarrow> bool \<Rightarrow> string \<Rightarrow> nat \<Rightarrow> linx_bpf \<Rightarrow> int \<times> linx_bpf" where
  "linx_ebpf_add_prog_to_tail_table lb exit prog_name key s =
    (case lb_find lb prog_name of
       None \<Rightarrow> (0, s)
     | Some p \<Rightarrow>
         if lb_fd lb prog_name \<le> 0 then (- 1, s)
         else if lb_update lb exit key \<noteq> 0 then (- 1, s)
         else (0, if exit then s\<lparr>sk_exit := (sk_exit s)(key \<mapsto> p)\<rparr> else s\<lparr>sk_enter := (sk_enter s)(key \<mapsto> p)\<rparr>))"

fun tail_loop :: "libbpf \<Rightarrow> linx_global_config \<Rightarrow> nat list \<Rightarrow> linx_bpf \<Rightarrow> int \<times> linx_bpf" where
  "tail_loop lb c [] s = (0, s)"
| "tail_loop lb c (i # is) s =
     (if \<not> interesting c i then tail_loop lb c is s
      else
        (let (ret, s) = linx_ebpf_add_prog_to_tail_table lb False (name_of_prog i ''_e'') i s
         in if ret \<noteq> 0 then (- 1, s)
            else
              (let (ret, s) = linx_ebpf_add_prog_to_tail_table lb True (name_of_prog i ''_x'') i s
               in if ret \<noteq> 0 then (- 1, s) else tail_loop lb c is s)))"

definition linx_ebpf_load_tail_call_map :: "libbpf \<Rightarrow> linx_global_config \<Rightarrow> linx_ebpf \<Rightarrow> (int \<times> linx_ebpf) res" where
  "linx_ebpf_load_tail_call_map lb c m = with_skel (tail_loop lb c [0..<LINX_SYSCALL_ID_MAX]) m"

definition linx_ebpf_probe_load :: "libbpf \<Rightarrow> linx_ebpf \<Rightarrow> (int \<times> linx_ebpf) res" where
  "linx_ebpf_probe_load lb m =
    with_skel (\<lambda>s.
      if \<not> lb_attach lb ''sys_enter'' then (- 1, s)
      else
        (let s = s\<lparr>sk_attached := sk_attached s @ [''sys_enter'']\<rparr>
         in if \<not> lb_attach lb ''sys_exit'' then (- 1, s) else (0, s\<lparr>sk_attached := sk_attached s @ [''sys_exit'']\<rparr>))) m"

definition timespec_to_nsec :: "int \<times> int \<Rightarrow> 64 word" where
  "timespec_to_nsec ts = word_of_int (fst ts * 1000000000 + snd ts)"

definition linx_get_boot_time :: "libbpf \<Rightarrow> int \<times> 64 word" where
  "linx_get_boot_time lb =
    (case lb_boottime lb of
       None \<Rightarrow> (- 1, 0)
     | Some boot_ts \<Rightarrow>
         (case lb_realtime lb of
            None \<Rightarrow> (- 1, 0)
          | Some wall_ts \<Rightarrow> (0, timespec_to_nsec wall_ts - timespec_to_nsec boot_ts)))"

section \<open>The shared variables\<close>

text \<open>The programs of the probe are attached when these functions run, so their assignments are kept apart: each function is the list of
  its assignments in order.\<close>

type_synonym bss_write = "bpf_bss \<Rightarrow> bpf_bss"

definition linx_ebpf_set_boot_time :: "64 word \<Rightarrow> bss_write list" where
  "linx_ebpf_set_boot_time boot_time = [g_boot_time_update (\<lambda>_. boot_time)]"

definition linx_ebpf_set_filter_pids :: "linx_global_config \<Rightarrow> bss_write list" where
  "linx_ebpf_set_filter_pids c =
    map (\<lambda>i. g_filter_pids_update (\<lambda>xs. xs[i := filter_pids c ! i]))
      (takeWhile (\<lambda>i. filter_pids c ! i \<noteq> 0) [0..<LINX_BPF_FILTER_PID_MAX_SIZE])"

text \<open>\<^verbatim>\<open>snprintf\<close> into an array of 16 bytes.\<close>

definition snprintf16 :: "string \<Rightarrow> bytes \<Rightarrow> bytes" where
  "snprintf16 s old = cstr_bytes (take 15 s) @ drop (Suc (length (take 15 s))) old"

definition linx_ebpf_set_filter_comms :: "linx_global_config \<Rightarrow> bss_write list" where
  "linx_ebpf_set_filter_comms c =
    map (\<lambda>i. g_filter_comms_update (\<lambda>xs. xs[i := snprintf16 (filter_comms c ! i) (xs ! i)]))
      (takeWhile (\<lambda>i. filter_comms c ! i \<noteq> []) [0..<LINX_BPF_FILTER_COMM_MAX_SIZE])"

definition linx_ebpf_set_drop_mode :: "8 word \<Rightarrow> bss_write list" where
  "linx_ebpf_set_drop_mode v = [g_drop_mode_update (\<lambda>_. v)]"

definition linx_ebpf_set_drop_failed :: "8 word \<Rightarrow> bss_write list" where
  "linx_ebpf_set_drop_failed v = [g_drop_failed_update (\<lambda>_. v)]"

definition linx_ebpf_set_interesting_syscalls_table :: "linx_global_config \<Rightarrow> bss_write list" where
  "linx_ebpf_set_interesting_syscalls_table c =
    map (\<lambda>i. g_interesting_syscalls_table_update (\<lambda>xs. xs[i := interest_syscall_table c ! i])) [0..<LINX_SYSCALL_ID_MAX]"

definition write_bss :: "bss_write list \<Rightarrow> bpf_bss \<Rightarrow> bpf_bss" where
  "write_bss ws b = fold (\<lambda>w. w) ws b"

definition bss_writes :: "linx_global_config \<Rightarrow> 64 word \<Rightarrow> bss_write list" where
  "bss_writes c boot_time =
    linx_ebpf_set_boot_time boot_time @ linx_ebpf_set_filter_pids c @ linx_ebpf_set_filter_comms c @ linx_ebpf_set_drop_mode 0 @
    linx_ebpf_set_drop_failed 0 @ linx_ebpf_set_interesting_syscalls_table c"

section \<open>The engine\<close>

text \<open>\<^verbatim>\<open>ret = ret ? : f()\<close>\<close>

definition unless :: "(linx_ebpf \<Rightarrow> (int \<times> linx_ebpf) res) \<Rightarrow> int \<times> linx_ebpf \<Rightarrow> (int \<times> linx_ebpf) res" where
  "unless f st = (if fst st \<noteq> 0 then Inr st else f (snd st))"

definition ebpf_init :: "libbpf \<Rightarrow> linx_global_config \<Rightarrow> linx_ebpf \<Rightarrow> (int \<times> linx_ebpf) res" where
  "ebpf_init lb c m =
    res_bind (unless linx_ebpf_set_print (0, m)) (\<lambda>st.
    res_bind (unless (linx_ebpf_open lb) st) (\<lambda>st.
    res_bind (unless (linx_ebpf_maps_before_load lb) st) (\<lambda>st.
    res_bind (unless (linx_ebpf_load lb c) st) (\<lambda>st.
    res_bind (unless (linx_ebpf_ringbuf_init lb) st) (\<lambda>st.
    res_bind (unless (linx_ebpf_load_tail_call_map lb c) st) (\<lambda>st.
    res_bind (unless (linx_ebpf_probe_load lb) st) (\<lambda>(ret, m).
      let (ret, boot_time) = (if ret \<noteq> 0 then (ret, 0) else linx_get_boot_time lb)
      in map_sum id (\<lambda>(_, m). (ret, m))
           (with_skel (\<lambda>s. (0, s\<lparr>sk_bss := write_bss (bss_writes c boot_time) (sk_bss s)\<rparr>)) m))))))))"

definition linx_handle_event :: "bytes \<Rightarrow> bytes \<Rightarrow> int \<times> bytes" where
  "linx_handle_event data buf =
    (if length data > unat LINX_EVENT_MAX_SIZE then (- 1, buf)
     else (0, data @ replicate (unat LINX_EVENT_MAX_SIZE - length data) 0))"

text \<open>One call of \<^verbatim>\<open>ring_buffer__poll\<close>: the records that it hands to the callback one after the other, and what it returns. The event is
  the buffer of the manager, or NULL.\<close>

definition linx_ebpf_get_ringbuf_msg :: "bytes list \<times> int \<Rightarrow> linx_ebpf \<Rightarrow> int \<times> bytes option \<times> linx_ebpf" where
  "linx_ebpf_get_ringbuf_msg poll m =
    (let m = m\<lparr>em_ringbuf_data := fold (\<lambda>data buf. snd (linx_handle_event data buf)) (fst poll) (em_ringbuf_data m)\<rparr>; ret = snd poll
     in (ret, if ret < 0 then None else if ret = 0 then None else Some (em_ringbuf_data m), m))"

definition ebpf_next :: "bytes list \<times> int \<Rightarrow> linx_ebpf \<Rightarrow> int \<times> bytes option \<times> linx_ebpf" where
  "ebpf_next poll m = linx_ebpf_get_ringbuf_msg poll m"

definition linx_engine_init :: "libbpf \<Rightarrow> linx_global_config \<Rightarrow> linx_ebpf \<Rightarrow> (int \<times> linx_ebpf) res" where
  "linx_engine_init lb c m = ebpf_init lb c m"

definition linx_engine_next :: "bytes list \<times> int \<Rightarrow> linx_ebpf \<Rightarrow> int \<times> bytes option \<times> linx_ebpf" where
  "linx_engine_next poll m = ebpf_next poll m"

definition linx_engine_close :: "linx_ebpf \<Rightarrow> int \<times> linx_ebpf" where "linx_engine_close m = (0, m)"
definition linx_engine_start :: "linx_ebpf \<Rightarrow> int \<times> linx_ebpf" where "linx_engine_start m = (0, m)"
definition linx_engine_stop :: "linx_ebpf \<Rightarrow> int \<times> linx_ebpf" where "linx_engine_stop m = (0, m)"

section \<open>Starting the engine\<close>

lemma with_skel_Skel: "em_skel m = Skel s \<Longrightarrow> with_skel f m = Inr (fst (f s), m\<lparr>em_skel := Skel (snd (f s))\<rparr>)"
  by (simp add: with_skel_def split_beta)

lemma disable_loop_bss: "sk_bss (disable_loop lb c is s) = sk_bss s \<and> sk_attached (disable_loop lb c is s) = sk_attached s \<and>
    sk_enter (disable_loop lb c is s) = sk_enter s \<and> sk_exit (disable_loop lb c is s) = sk_exit s"
  by (induction lb c "is" s rule: disable_loop.induct) (simp_all add: disable_prog_def)

lemma add_prog_keeps:
  "linx_ebpf_add_prog_to_tail_table lb exit nm key s = (ret, s') \<Longrightarrow> sk_bss s' = sk_bss s \<and> sk_attached s' = sk_attached s"
  by (auto simp: linx_ebpf_add_prog_to_tail_table_def split: option.splits if_splits)

lemma tail_loop_keeps: "tail_loop lb c is s = (ret, s') \<Longrightarrow> sk_bss s' = sk_bss s \<and> sk_attached s' = sk_attached s"
proof (induction lb c "is" s arbitrary: ret s' rule: tail_loop.induct)
  case (2 lb c i "is" s)
  obtain r1 s1 where 1: "linx_ebpf_add_prog_to_tail_table lb False (name_of_prog i ''_e'') i s = (r1, s1)" by fastforce
  obtain r2 s2 where 2: "linx_ebpf_add_prog_to_tail_table lb True (name_of_prog i ''_x'') i s1 = (r2, s2)" by fastforce
  show ?case
    using "2.prems" 1 2 "2.IH"(1) [of ret s'] "2.IH"(2) [OF _ 1 [symmetric] refl _ 2 [symmetric] refl] add_prog_keeps [OF 1] add_prog_keeps [OF 2]
    by (auto split: if_splits)
qed simp

text \<open>The skeleton when the shared variables are set, and the return code at that point.\<close>

definition engine_before_writes :: "libbpf \<Rightarrow> linx_global_config \<Rightarrow> linx_ebpf \<Rightarrow> (int \<times> linx_ebpf) res" where
  "engine_before_writes lb c m =
    res_bind (unless linx_ebpf_set_print (0, m)) (\<lambda>st.
    res_bind (unless (linx_ebpf_open lb) st) (\<lambda>st.
    res_bind (unless (linx_ebpf_maps_before_load lb) st) (\<lambda>st.
    res_bind (unless (linx_ebpf_load lb c) st) (\<lambda>st.
    res_bind (unless (linx_ebpf_ringbuf_init lb) st) (\<lambda>st.
    res_bind (unless (linx_ebpf_load_tail_call_map lb c) st) (unless (linx_ebpf_probe_load lb)))))))"

lemma ebpf_init_before:
  "ebpf_init lb c m =
    res_bind (engine_before_writes lb c m) (\<lambda>(ret, m).
      let (ret, boot_time) = (if ret \<noteq> 0 then (ret, 0) else linx_get_boot_time lb)
      in map_sum id (\<lambda>(_, m). (ret, m))
           (with_skel (\<lambda>s. (0, s\<lparr>sk_bss := write_bss (bss_writes c boot_time) (sk_bss s)\<rparr>)) m))"
proof -
  have assoc: "res_bind (res_bind r f) g = res_bind r (\<lambda>x. res_bind (f x) g)" for r f and g :: "int \<times> linx_ebpf \<Rightarrow> (int \<times> linx_ebpf) res"
    by (cases r) simp_all
  show ?thesis by (simp add: ebpf_init_def engine_before_writes_def assoc)
qed

definition skel_usable :: "libbpf \<Rightarrow> bool" where
  "skel_usable lb \<longleftrightarrow> lb_open lb \<and> (lb_ncpu lb = - 1 \<or> lb_set_max lb \<noteq> 0 \<or> lb_load lb = 0 \<and> lb_ring lb)"

lemma engine_before_writes_outcome:
  "\<exists>ret m'. engine_before_writes lb c m = Inr (ret, m') \<and>
    (em_skel m' = NoSkel \<longleftrightarrow> \<not> lb_open lb) \<and> (em_skel m' = FreedSkel \<longleftrightarrow> lb_open lb \<and> \<not> skel_usable lb) \<and>
    (\<forall>s. em_skel m' = Skel s \<longrightarrow> sk_bss s = zero_bss \<and>
       (ret = 0 \<longrightarrow> em_rb m' \<and> sk_attached s = [''sys_enter'', ''sys_exit''] \<and>
          (\<exists>s0 s1. sk_enter s0 = (\<lambda>_. None) \<and> sk_exit s0 = (\<lambda>_. None) \<and> tail_loop lb c [0..<LINX_SYSCALL_ID_MAX] s0 = (0, s1) \<and>
            sk_enter s = sk_enter s1 \<and> sk_exit s = sk_exit s1)))"
proof -
  consider "\<not> lb_open lb" | "lb_open lb" "lb_ncpu lb = - 1 \<or> lb_set_max lb \<noteq> 0"
    | "lb_open lb" "lb_ncpu lb \<noteq> - 1" "lb_set_max lb = 0" "lb_load lb \<noteq> 0"
    | "lb_open lb" "lb_ncpu lb \<noteq> - 1" "lb_set_max lb = 0" "lb_load lb = 0" "\<not> lb_ring lb"
    | "lb_open lb" "lb_ncpu lb \<noteq> - 1" "lb_set_max lb = 0" "lb_load lb = 0" "lb_ring lb" by blast
  then show ?thesis
  proof cases
    case 5
    let ?s0 = "disable_loop lb c [0..<LINX_SYSCALL_ID_MAX] (zero_skel\<lparr>sk_max_entries := lb_ncpu lb\<rparr>)"
    obtain ret s1 where t: "tail_loop lb c [0..<LINX_SYSCALL_ID_MAX] ?s0 = (ret, s1)" by fastforce
    have s1: "sk_bss s1 = zero_bss" "sk_attached s1 = []" "sk_enter ?s0 = (\<lambda>_. None)" "sk_exit ?s0 = (\<lambda>_. None)"
      using tail_loop_keeps [OF t] disable_loop_bss [of lb c "[0..<LINX_SYSCALL_ID_MAX]" "zero_skel\<lparr>sk_max_entries := lb_ncpu lb\<rparr>"]
      by (simp_all add: zero_skel_def)
    show ?thesis
      using 5 t s1 by (auto simp: engine_before_writes_def unless_def linx_ebpf_set_print_def linx_ebpf_open_def linx_ebpf_maps_before_load_def
          linx_ebpf_load_def linx_ebpf_ringbuf_init_def linx_ebpf_load_tail_call_map_def linx_ebpf_probe_load_def with_skel_def skel_usable_def Let_def)
  qed (auto simp: engine_before_writes_def unless_def linx_ebpf_set_print_def linx_ebpf_open_def linx_ebpf_maps_before_load_def
      linx_ebpf_load_def linx_ebpf_ringbuf_init_def with_skel_def skel_usable_def zero_skel_def)
qed


text \<open>Calls into libbpf that all succeed; \<^verbatim>\<open>bpf_object__find_program_by_name\<close> finds the programs of the object by their names.\<close>

definition find_by_name :: "string \<Rightarrow> probe_prog option" where
  "find_by_name nm = find (\<lambda>p. pp_name p = nm) probe_progs"

definition good_libbpf :: libbpf where
  "good_libbpf = \<lparr>lb_open = True, lb_ncpu = 4, lb_set_max = 0, lb_find = find_by_name, lb_set_autoload = (\<lambda>_. 0), lb_load = 0, lb_ring = True,
     lb_fd = (\<lambda>_. 5), lb_update = (\<lambda>_ _. 0), lb_attach = (\<lambda>_. True), lb_boottime = Some (10, 0), lb_realtime = Some (30, 7)\<rparr>"

definition zero_manager :: linx_ebpf where
  "zero_manager = \<lparr>em_skel = NoSkel, em_rb = False, em_ringbuf_data = replicate 32768 0\<rparr>"


section \<open>What the filters let through\<close>

definition filtered_pid :: "linx_global_config \<Rightarrow> 32 word \<Rightarrow> bool" where
  "filtered_pid c pid \<longleftrightarrow> pid \<in> set (takeWhile (\<lambda>p. p \<noteq> 0) (filter_pids c))"

definition comm_bytes :: "string \<Rightarrow> bytes" where
  "comm_bytes s = snprintf16 s (replicate 16 0)"

definition filtered_comm :: "linx_global_config \<Rightarrow> bytes \<Rightarrow> bool" where
  "filtered_comm c comm \<longleftrightarrow> comm \<in> comm_bytes ` set (takeWhile (\<lambda>s. s \<noteq> []) (filter_comms c))"

definition config_arrays :: "linx_global_config \<Rightarrow> bool" where
  "config_arrays c \<longleftrightarrow> length (filter_pids c) = 64 \<and> length (filter_comms c) = 16 \<and> length (interest_syscall_table c) = 453 \<and>
     list_all (\<lambda>s. NUL \<notin> set s) (filter_comms c)"

lemma check_pid_iff: "check_pid_need_filtered pid ps \<noteq> 0 \<longleftrightarrow> pid \<in> set (takeWhile (\<lambda>p. p \<noteq> 0) ps)"
  by (induction ps) auto

lemma comm_flag_iff: "length xs = length ys \<Longrightarrow> comm_flag flag xs ys \<longleftrightarrow> (if xs = [] then flag else xs = ys)"
  by (induction flag xs ys rule: comm_flag.induct) auto

lemma check_comm_iff:
  "list_all (\<lambda>f. length f = length comm) fs \<Longrightarrow> comm \<noteq> [] \<Longrightarrow>
   check_comm_need_filtered comm fs \<noteq> 0 \<longleftrightarrow> comm \<in> set (takeWhile (\<lambda>f. hd f \<noteq> 0) fs)"
  by (induction fs) (auto simp: comm_flag_iff)

lemma length_comm_bytes [simp]: "length (comm_bytes s) = 16"
  by (simp add: comm_bytes_def snprintf16_def cstr_bytes_def)

lemma comm_bytes_hd: "NUL \<notin> set s \<Longrightarrow> hd (comm_bytes s) = 0 \<longleftrightarrow> s = []"
proof (cases s)
  case (Cons x xs)
  assume "NUL \<notin> set s"
  moreover have "char_of (0 :: nat) = NUL" by (simp add: NUL_def char_of_def)
  ultimately have "(of_char x :: nat) \<noteq> 0" using Cons by (metis char_of_char list.set_intros(1))
  moreover have "(of_char x :: nat) < 256" by simp
  ultimately have "(word_of_nat (of_char x) :: 8 word) \<noteq> 0" by (simp add: word_of_nat_eq_0_iff nat_dvd_not_less)
  with Cons show ?thesis by (simp add: comm_bytes_def snprintf16_def cstr_bytes_def)
qed (simp add: comm_bytes_def snprintf16_def cstr_bytes_def)

lemma fold_update:
  "k \<le> length xs \<Longrightarrow> fold (\<lambda>i xs. xs[i := f i (xs ! i)]) [0..<k] xs = map (\<lambda>i. f i (xs ! i)) [0..<k] @ drop k xs"
proof (induction k)
  case (Suc k)
  then have "drop k xs = xs ! k # drop (Suc k) xs" by (simp add: Cons_nth_drop_Suc)
  with Suc show ?case by (simp add: list_update_append nth_append)
qed simp

lemma takeWhile_index: "length xs = n \<Longrightarrow> takeWhile (\<lambda>i. P (xs ! i)) [0..<n] = [0..<length (takeWhile P xs)]"
proof -
  assume n: "length xs = n"
  have "takeWhile P xs = map ((!) xs) (takeWhile (\<lambda>i. P (xs ! i)) [0..<n])"
    by (metis (no_types, lifting) map_nth n takeWhile_map comp_def takeWhile_cong)
  then have "length (takeWhile P xs) = length (takeWhile (\<lambda>i. P (xs ! i)) [0..<n])" by simp
  then show ?thesis by (metis takeWhile_eq_take take_upt add_0 length_takeWhile_le length_upt minus_nat.diff_0)
qed

lemma takeWhile_zero_pad: "length xs = n \<Longrightarrow> \<not> P z \<Longrightarrow> takeWhile P (takeWhile P xs @ replicate k z) = takeWhile P xs"
  by (cases k) (auto simp: takeWhile_append takeWhile_eq_all_conv dest: set_takeWhileD)

text \<open>The variables after the first \<open>k\<close> assignments of the two filter functions.\<close>

lemma write_bss_append: "write_bss (ws @ vs) b = write_bss vs (write_bss ws b)"
  by (simp add: write_bss_def)

lemma write_pids:
  assumes "config_arrays c" "g_filter_pids b = replicate 64 0"
  shows "write_bss (linx_ebpf_set_filter_pids c) b =
    b\<lparr>g_filter_pids := takeWhile (\<lambda>p. p \<noteq> 0) (filter_pids c) @ replicate (64 - length (takeWhile (\<lambda>p. p \<noteq> 0) (filter_pids c))) 0\<rparr>"
proof -
  let ?k = "length (takeWhile (\<lambda>p. p \<noteq> 0) (filter_pids c))"
  have k: "?k \<le> 64" using length_takeWhile_le [of "\<lambda>p. p \<noteq> 0" "filter_pids c"] assms(1) by (simp add: config_arrays_def)
  have "fold (\<lambda>w. w) (map (\<lambda>i. g_filter_pids_update (\<lambda>xs. xs[i := filter_pids c ! i])) is) b =
      b\<lparr>g_filter_pids := fold (\<lambda>i xs. xs[i := filter_pids c ! i]) is (g_filter_pids b)\<rparr>" for "is" and b :: bpf_bss
    by (induction "is" arbitrary: b) simp_all
  moreover have "fold (\<lambda>i xs. xs[i := filter_pids c ! i]) [0..<?k] (replicate 64 0) = map (\<lambda>i. filter_pids c ! i) [0..<?k] @ replicate (64 - ?k) 0"
    using fold_update [of ?k "replicate 64 0" "\<lambda>i _. filter_pids c ! i"] k by simp
  moreover have "map (\<lambda>i. filter_pids c ! i) [0..<?k] = takeWhile (\<lambda>p. p \<noteq> 0) (filter_pids c)"
    by (rule nth_equalityI) (simp_all add: takeWhile_nth)
  ultimately show ?thesis
    using assms takeWhile_index [of "filter_pids c" 64 "\<lambda>p. p \<noteq> 0"]
    by (simp add: write_bss_def linx_ebpf_set_filter_pids_def config_arrays_def LINX_BPF_FILTER_PID_MAX_SIZE_def)
qed

lemma write_comms:
  assumes "config_arrays c" "g_filter_comms b = replicate 16 (replicate 16 0)"
  shows "write_bss (linx_ebpf_set_filter_comms c) b =
    b\<lparr>g_filter_comms := map comm_bytes (takeWhile (\<lambda>s. s \<noteq> []) (filter_comms c)) @
      replicate (16 - length (takeWhile (\<lambda>s. s \<noteq> []) (filter_comms c))) (replicate 16 0)\<rparr>"
proof -
  let ?k = "length (takeWhile (\<lambda>s. s \<noteq> []) (filter_comms c))"
  have k: "?k \<le> 16" using length_takeWhile_le [of "\<lambda>s. s \<noteq> []" "filter_comms c"] assms(1) by (simp add: config_arrays_def)
  have "fold (\<lambda>w. w) (map (\<lambda>i. g_filter_comms_update (\<lambda>xs. xs[i := snprintf16 (filter_comms c ! i) (xs ! i)])) is) b =
      b\<lparr>g_filter_comms := fold (\<lambda>i xs. xs[i := snprintf16 (filter_comms c ! i) (xs ! i)]) is (g_filter_comms b)\<rparr>" for "is" and b :: bpf_bss
    by (induction "is" arbitrary: b) simp_all
  moreover have "fold (\<lambda>i xs. xs[i := snprintf16 (filter_comms c ! i) (xs ! i)]) [0..<?k] (replicate 16 (replicate 16 0)) =
      map (\<lambda>i. comm_bytes (filter_comms c ! i)) [0..<?k] @ replicate (16 - ?k) (replicate 16 0)"
    using fold_update [of ?k "replicate 16 (replicate 16 0)" "\<lambda>i. snprintf16 (filter_comms c ! i)"] k by (simp add: comm_bytes_def cong: map_cong)
  moreover have "map (\<lambda>i. comm_bytes (filter_comms c ! i)) [0..<?k] = map comm_bytes (takeWhile (\<lambda>s. s \<noteq> []) (filter_comms c))"
    by (rule nth_equalityI) (simp_all add: takeWhile_nth)
  ultimately show ?thesis
    using assms takeWhile_index [of "filter_comms c" 16 "\<lambda>s. s \<noteq> []"]
    by (simp add: write_bss_def linx_ebpf_set_filter_comms_def config_arrays_def LINX_BPF_FILTER_COMM_MAX_SIZE_def)
qed

lemma take_upt_min: "take k [0..<n] = [0..<min k n]"
  by (cases "k \<le> n") (simp_all add: min_def)

lemma write_interest:
  "write_bss (take k (linx_ebpf_set_interesting_syscalls_table c)) b =
    b\<lparr>g_interesting_syscalls_table := fold (\<lambda>i xs. xs[i := interest_syscall_table c ! i]) [0..<min k 453] (g_interesting_syscalls_table b)\<rparr>"
proof -
  have "fold (\<lambda>w. w) (map (\<lambda>i. g_interesting_syscalls_table_update (\<lambda>xs. xs[i := interest_syscall_table c ! i])) is) b =
      b\<lparr>g_interesting_syscalls_table := fold (\<lambda>i xs. xs[i := interest_syscall_table c ! i]) is (g_interesting_syscalls_table b)\<rparr>" for "is" and b :: bpf_bss
    by (induction "is" arbitrary: b) simp_all
  then show ?thesis
    by (simp add: write_bss_def linx_ebpf_set_interesting_syscalls_table_def LINX_SYSCALL_ID_MAX_def take_map take_upt_min)
qed

definition filter_writes :: "linx_global_config \<Rightarrow> 64 word \<Rightarrow> bss_write list" where
  "filter_writes c boot_time =
    linx_ebpf_set_boot_time boot_time @ linx_ebpf_set_filter_pids c @ linx_ebpf_set_filter_comms c @ linx_ebpf_set_drop_mode 0 @
    linx_ebpf_set_drop_failed 0"

lemma bss_writes_split: "bss_writes c boot_time = filter_writes c boot_time @ linx_ebpf_set_interesting_syscalls_table c"
  by (simp add: bss_writes_def filter_writes_def)

lemma filter_writes_bss:
  assumes "config_arrays c"
  shows "write_bss (filter_writes c boot_time) zero_bss = zero_bss\<lparr>g_boot_time := boot_time,
    g_filter_pids := takeWhile (\<lambda>p. p \<noteq> 0) (filter_pids c) @ replicate (64 - length (takeWhile (\<lambda>p. p \<noteq> 0) (filter_pids c))) 0,
    g_filter_comms := map comm_bytes (takeWhile (\<lambda>s. s \<noteq> []) (filter_comms c)) @
      replicate (16 - length (takeWhile (\<lambda>s. s \<noteq> []) (filter_comms c))) (replicate 16 0)\<rparr>"
proof -
  have "write_bss (linx_ebpf_set_boot_time boot_time) zero_bss = zero_bss\<lparr>g_boot_time := boot_time\<rparr>"
    by (simp add: write_bss_def linx_ebpf_set_boot_time_def)
  moreover have "write_bss (linx_ebpf_set_drop_mode 0 @ linx_ebpf_set_drop_failed 0) b = b" if "g_drop_mode b = 0" "g_drop_failed b = 0" for b
    using that by (simp add: write_bss_def linx_ebpf_set_drop_mode_def linx_ebpf_set_drop_failed_def)
  ultimately show ?thesis
    by (simp add: filter_writes_def write_bss_append [of _ "_ @ _"] write_pids [OF assms] write_comms [OF assms] zero_bss_def
        LINX_BPF_FILTER_PID_MAX_SIZE_def LINX_BPF_FILTER_COMM_MAX_SIZE_def LINX_COMM_MAX_SIZE_def)
qed

lemma filter_writes_interest:
  assumes "set ws \<subseteq> set (filter_writes c boot_time)"
  shows "g_interesting_syscalls_table (write_bss ws b) = g_interesting_syscalls_table b"
  using assms
proof (induction ws arbitrary: b)
  case (Cons w ws)
  have "g_interesting_syscalls_table (w b) = g_interesting_syscalls_table b"
    using Cons.prems by (auto simp: filter_writes_def linx_ebpf_set_boot_time_def linx_ebpf_set_filter_pids_def linx_ebpf_set_filter_comms_def
        linx_ebpf_set_drop_mode_def linx_ebpf_set_drop_failed_def)
  with Cons show ?case by (simp add: write_bss_def)
qed (simp add: write_bss_def)

text \<open>What the filters of a probe do whose variables hold the lists of the configuration.\<close>

lemma filters_configured:
  assumes "config_arrays c" "length comm = 16"
    "g_filter_pids b = takeWhile (\<lambda>p. p \<noteq> 0) (filter_pids c) @ replicate (64 - length (takeWhile (\<lambda>p. p \<noteq> 0) (filter_pids c))) 0"
    "g_filter_comms b = map comm_bytes (takeWhile (\<lambda>s. s \<noteq> []) (filter_comms c)) @
      replicate (16 - length (takeWhile (\<lambda>s. s \<noteq> []) (filter_comms c))) (replicate 16 0)"
  shows "check_pid_need_filtered pid (g_filter_pids b) \<noteq> 0 \<longleftrightarrow> filtered_pid c pid"
    and "check_comm_need_filtered comm (g_filter_comms b) \<noteq> 0 \<longleftrightarrow> filtered_comm c comm"
proof -
  let ?cs = "takeWhile (\<lambda>s. s \<noteq> []) (filter_comms c)"
  show "check_pid_need_filtered pid (g_filter_pids b) \<noteq> 0 \<longleftrightarrow> filtered_pid c pid"
    unfolding check_pid_iff assms(3) by (subst takeWhile_zero_pad) (simp_all add: filtered_pid_def)
  have nul: "NUL \<notin> set s \<and> s \<noteq> []" if "s \<in> set ?cs" for s
    using that assms(1) by (auto simp: config_arrays_def list_all_iff dest: set_takeWhileD)
  have "comm \<noteq> []" "list_all (\<lambda>f. length f = length comm) (g_filter_comms b)"
    using assms(2,4) by (auto simp: list_all_iff)
  then have "check_comm_need_filtered comm (g_filter_comms b) \<noteq> 0 \<longleftrightarrow> comm \<in> set (takeWhile (\<lambda>f. hd f \<noteq> 0) (g_filter_comms b))"
    by (rule check_comm_iff [rotated])
  also have "takeWhile (\<lambda>f. hd f \<noteq> 0) (g_filter_comms b) = map comm_bytes ?cs"
  proof -
    have "takeWhile (\<lambda>f. hd f \<noteq> 0) (map comm_bytes ?cs) = map comm_bytes ?cs" using nul by (simp add: takeWhile_eq_all_conv comm_bytes_hd)
    then have "takeWhile (\<lambda>f. hd f \<noteq> 0) (map comm_bytes ?cs @ replicate k (replicate 16 0)) = map comm_bytes ?cs" for k
      by (cases k) (simp_all add: takeWhile_append takeWhile_eq_all_conv)
    then show ?thesis by (simp add: assms(4))
  qed
  finally show "check_comm_need_filtered comm (g_filter_comms b) \<noteq> 0 \<longleftrightarrow> filtered_comm c comm" by (simp add: filtered_comm_def)
qed

lemma dispatch_passes:
  assumes "sys_enter b tab pid_tgid comm nr = Some p \<or> sys_exit b tab pid_tgid comm nr ret = Some p"
  shows "check_pid_need_filtered (ucast pid_tgid) (g_filter_pids b) = 0" "check_comm_need_filtered comm (g_filter_comms b) = 0"
    "unat (ucast nr :: 32 word) < 453" "g_interesting_syscalls_table b ! unat (ucast nr :: 32 word) \<noteq> 0"
  using assms by (auto simp: sys_enter_def sys_exit_def check_interesting_syscall_def LINX_SYSCALL_ID_MAX_def split: if_splits)

lemma map_nth_take: "k \<le> length xs \<Longrightarrow> map ((!) xs) [0..<k] = take k xs"
  by (rule nth_equalityI) simp_all

lemma fold_interest:
  assumes "k \<le> 453" "length (interest_syscall_table c) = 453"
  shows "fold (\<lambda>i xs. xs[i := interest_syscall_table c ! i]) [0..<k] (replicate 453 0) = take k (interest_syscall_table c) @ replicate (453 - k) 0"
  using fold_update [of k "replicate 453 0" "\<lambda>i _. interest_syscall_table c ! i"] assms by (simp add: map_nth_take)

text \<open>
  C18: the filters are in place before the first event. The probe is attached before its variables are set, so it runs between any two of the
  assignments of \<^verbatim>\<open>ebpf_init\<close>; but at every such moment, and after the last one, a call passes only when its thread and its command are not
  in the lists of the configuration and the configuration asks for the system call, because the table of interesting calls is filled
  last.
\<close>

theorem filters_precede_events:
  assumes "config_arrays c" "length comm = 16" "b = write_bss (take k (bss_writes c boot_time)) zero_bss"
    and "sys_enter b tab pid_tgid comm nr = Some p \<or> sys_exit b tab pid_tgid comm nr ret = Some p"
  shows "\<not> filtered_pid c (ucast pid_tgid) \<and> \<not> filtered_comm c comm \<and> unat (ucast nr :: 32 word) < LINX_SYSCALL_ID_MAX \<and>
    interesting c (unat (ucast nr :: 32 word))"
proof -
  note pass = dispatch_passes [OF assms(4)]
  let ?n = "unat (ucast nr :: 32 word)" and ?A = "filter_writes c boot_time"
  show ?thesis
  proof (cases "k \<le> length ?A")
    case True
    then have "b = write_bss (take k ?A) zero_bss" using assms(3) by (simp add: bss_writes_split)
    then have "g_interesting_syscalls_table b = replicate 453 0"
      using filter_writes_interest [OF set_take_subset] by (simp add: zero_bss_def LINX_SYSCALL_ID_MAX_def)
    with pass(3,4) show ?thesis by simp
  next
    case False
    let ?j = "min (k - length ?A) 453"
    have "b = write_bss (take (k - length ?A) (linx_ebpf_set_interesting_syscalls_table c)) (write_bss ?A zero_bss)"
      using assms(3) False by (simp add: bss_writes_split write_bss_append)
    then have b: "b = (write_bss ?A zero_bss)\<lparr>g_interesting_syscalls_table :=
        fold (\<lambda>i xs. xs[i := interest_syscall_table c ! i]) [0..<?j] (g_interesting_syscalls_table (write_bss ?A zero_bss))\<rparr>"
      unfolding write_interest .
    have "g_interesting_syscalls_table b = take ?j (interest_syscall_table c) @ replicate (453 - ?j) 0"
      using fold_interest [of ?j c] assms(1) unfolding b filter_writes_bss [OF assms(1)]
      by (simp add: zero_bss_def LINX_SYSCALL_ID_MAX_def config_arrays_def)
    with pass(3,4) assms(1) have "interesting c ?n"
      by (auto simp: interesting_def nth_append config_arrays_def split: if_splits)
    moreover have "\<not> filtered_pid c (ucast pid_tgid)" "\<not> filtered_comm c comm"
      using pass(1,2) filters_configured(1) [OF assms(1,2), of b "ucast pid_tgid"] filters_configured(2) [OF assms(1,2), of b]
      unfolding b filter_writes_bss [OF assms(1)] by simp_all
    ultimately show ?thesis using pass(3) by (simp add: LINX_SYSCALL_ID_MAX_def)
  qed
qed

section \<open>What the engine records\<close>

lemma final_bss:
  assumes "config_arrays c" "b = write_bss (bss_writes c boot_time) zero_bss"
  shows "g_filter_pids b = takeWhile (\<lambda>p. p \<noteq> 0) (filter_pids c) @ replicate (64 - length (takeWhile (\<lambda>p. p \<noteq> 0) (filter_pids c))) 0"
    "g_filter_comms b = map comm_bytes (takeWhile (\<lambda>s. s \<noteq> []) (filter_comms c)) @
      replicate (16 - length (takeWhile (\<lambda>s. s \<noteq> []) (filter_comms c))) (replicate 16 0)"
    "g_interesting_syscalls_table b = interest_syscall_table c" "g_drop_mode b = 0" "g_drop_failed b = 0" "g_boot_time b = boot_time"
proof -
  have "linx_ebpf_set_interesting_syscalls_table c = take 453 (linx_ebpf_set_interesting_syscalls_table c)"
    by (simp add: linx_ebpf_set_interesting_syscalls_table_def LINX_SYSCALL_ID_MAX_def)
  then have "b = write_bss (take 453 (linx_ebpf_set_interesting_syscalls_table c)) (write_bss (filter_writes c boot_time) zero_bss)"
    using assms(2) by (metis bss_writes_split write_bss_append)
  then have b: "b = (write_bss (filter_writes c boot_time) zero_bss)\<lparr>g_interesting_syscalls_table :=
      fold (\<lambda>i xs. xs[i := interest_syscall_table c ! i]) [0..<453] (g_interesting_syscalls_table (write_bss (filter_writes c boot_time) zero_bss))\<rparr>"
    unfolding write_interest by simp
  have "length (interest_syscall_table c) = 453" using assms(1) by (simp add: config_arrays_def)
  with fold_interest [of 453 c]
  show "g_filter_pids b = takeWhile (\<lambda>p. p \<noteq> 0) (filter_pids c) @ replicate (64 - length (takeWhile (\<lambda>p. p \<noteq> 0) (filter_pids c))) 0"
    "g_filter_comms b = map comm_bytes (takeWhile (\<lambda>s. s \<noteq> []) (filter_comms c)) @
      replicate (16 - length (takeWhile (\<lambda>s. s \<noteq> []) (filter_comms c))) (replicate 16 0)"
    "g_interesting_syscalls_table b = interest_syscall_table c" "g_drop_mode b = 0" "g_drop_failed b = 0" "g_boot_time b = boot_time"
    unfolding b filter_writes_bss [OF assms(1)] by (simp_all add: zero_bss_def LINX_SYSCALL_ID_MAX_def)
qed

definition passes :: "linx_global_config \<Rightarrow> 64 word \<Rightarrow> bytes \<Rightarrow> nat \<Rightarrow> bool" where
  "passes c pid_tgid comm n \<longleftrightarrow> \<not> filtered_pid c (ucast pid_tgid) \<and> \<not> filtered_comm c comm \<and> interesting c n"

lemma dispatch_configured:
  assumes "config_arrays c" "length comm = 16" "b = write_bss (bss_writes c boot_time) zero_bss" "n < 453"
  shows "sys_enter b tab pid_tgid comm (word_of_nat n) = (if passes c pid_tgid comm n then tab n else None)"
    "sys_exit b tab pid_tgid comm (word_of_nat n) ret = (if passes c pid_tgid comm n then tab n else None)"
proof -
  note fb = final_bss [OF assms(1,3)]
  have n: "unat (ucast (word_of_nat n :: 64 word) :: 32 word) = n"
    using assms(4) by (simp add: unsigned_ucast_eq unat_of_nat take_bit_nat_eq_self)
  have i: "check_interesting_syscall (ucast (word_of_nat n :: 64 word)) b = 0 \<longleftrightarrow> \<not> interesting c n"
    using assms(4) by (simp add: check_interesting_syscall_def n fb(3) interesting_def LINX_SYSCALL_ID_MAX_def unsigned_eq_0_iff)
  show "sys_enter b tab pid_tgid comm (word_of_nat n) = (if passes c pid_tgid comm n then tab n else None)"
    "sys_exit b tab pid_tgid comm (word_of_nat n) ret = (if passes c pid_tgid comm n then tab n else None)"
    using filters_configured [OF assms(1,2) fb(1,2)] i
    by (simp_all add: sys_enter_def sys_exit_def check_drop_mode_def check_drop_failed_def fb(4,5) n passes_def)
qed

lemma add_prog_entry:
  assumes "linx_ebpf_add_prog_to_tail_table lb exit nm key s = (0, s')"
  shows "sk_exit s' n = (if exit \<and> n = key \<and> lb_find lb nm \<noteq> None then lb_find lb nm else sk_exit s n)"
    "sk_enter s' n = (if \<not> exit \<and> n = key \<and> lb_find lb nm \<noteq> None then lb_find lb nm else sk_enter s n)"
  using assms by (auto simp: linx_ebpf_add_prog_to_tail_table_def split: option.splits if_splits)

lemma tail_loop_entry:
  assumes "tail_loop lb c is s = (0, s')" "distinct is" "\<forall>i \<in> set is. sk_enter s i = None \<and> sk_exit s i = None"
  shows "sk_exit s' n = (if n \<in> set is \<and> interesting c n then lb_find lb (name_of_prog n ''_x'') else sk_exit s n) \<and>
    sk_enter s' n = (if n \<in> set is \<and> interesting c n then lb_find lb (name_of_prog n ''_e'') else sk_enter s n)"
  using assms
proof (induction lb c "is" s arbitrary: s' rule: tail_loop.induct)
  case (2 lb c i "is" s)
  show ?case
  proof (cases "interesting c i")
    case True
    obtain r1 s1 where 1: "linx_ebpf_add_prog_to_tail_table lb False (name_of_prog i ''_e'') i s = (r1, s1)" by fastforce
    obtain r2 s2 where 2: "linx_ebpf_add_prog_to_tail_table lb True (name_of_prog i ''_x'') i s1 = (r2, s2)" by fastforce
    have z: "r1 = 0" "r2 = 0" and rest: "tail_loop lb c is s2 = (0, s')" using "2.prems"(1) True 1 2 by (auto split: if_splits)
    note e = add_prog_entry [OF 1 [unfolded z]] add_prog_entry [OF 2 [unfolded z]]
    have "\<forall>j \<in> set is. sk_enter s2 j = None \<and> sk_exit s2 j = None" using "2.prems"(2,3) e by auto
    moreover have "distinct is" using "2.prems"(2) by simp
    ultimately have IH: "sk_exit s' n = (if n \<in> set is \<and> interesting c n then lb_find lb (name_of_prog n ''_x'') else sk_exit s2 n) \<and>
        sk_enter s' n = (if n \<in> set is \<and> interesting c n then lb_find lb (name_of_prog n ''_e'') else sk_enter s2 n)"
      using "2.IH"(2) [OF _ 1 [symmetric] refl _ 2 [symmetric] refl] True z rest by simp
    show ?thesis using IH e True "2.prems"(2,3) by auto
  next
    case False
    with 2 show ?thesis by auto
  qed
qed simp

lemma paired_rows_partner:
  "paired_rows lo hi xs \<Longrightarrow> (t, r) \<in> set xs \<Longrightarrow> evt_name r \<noteq> [] \<and> (\<exists>r'. (t div 2 * 2, r') \<in> set xs \<and> evt_name r' = evt_name r)"
proof (induction lo hi xs rule: paired_rows.induct)
  case (3 lo hi i a j b xs)
  then have "i div 2 * 2 = i" "Suc i div 2 * 2 = i" by auto
  with 3 show ?case by auto
qed auto

lemma call_name_row: "(t, r) \<in> set (concat event_groups) \<Longrightarrow> call_name (t div 2) = evt_name r"
proof -
  assume "(t, r) \<in> set (concat event_groups)"
  from paired_rows_partner [OF event_rows_paired this] obtain r' where r': "(t div 2 * 2, r') \<in> set (concat event_groups)" "evt_name r' = evt_name r"
    by blast
  from r'(1) obtain g where "(t div 2 * 2, r') \<in> set g" "g \<in> set event_groups" by auto
  then have "g_linx_event_table (t div 2 * 2) = Inr r'" by (rule g_linx_event_table_row)
  with r'(2) show ?thesis by (simp add: call_name_def)
qed

lemma prog_named_iff:
  assumes "p \<in> set probe_progs" "t < 906"
  shows "pp_name p = name_of_prog (t div 2) (suffix t) \<longleftrightarrow> pp_type p = t"
proof -
  obtain row where row: "(pp_type p, row) \<in> set (concat event_groups)" "row_matches p (pp_type p, row)" using probe_row [OF assms(1)] by blast
  note cn = call_name_row [OF row(1)]
  have nm: "pp_name p = evt_name row @ suffix (pp_type p)" using row(2) by (simp add: row_matches_def)
  have "length (call_name i) < 32" if "i < 453" for i
  proof -
    have "i * 2 < LINX_EVENT_TYPE_MAX" using that by (simp add: LINX_EVENT_TYPE_MAX_def)
    then obtain r where r: "g_linx_event_table (i * 2) = Inr r"
      by (cases "map_of (concat event_groups) (i * 2)") (auto simp: g_linx_event_table_def)
    with g_linx_event_table_row_ok [OF r] show ?thesis by (simp add: call_name_def row_ok_def)
  qed
  moreover have "t div 2 < 453" using assms(2) by simp
  ultimately have "length (call_name (t div 2)) < 32" by blast
  then have "length (call_name (t div 2) @ suffix t) \<le> 63" by (simp add: suffix_def)
  then have short: "name_of_prog (t div 2) (suffix t) = call_name (t div 2) @ suffix t" unfolding name_of_prog_def by (rule take_all)
  show ?thesis
  proof
    assume "pp_name p = name_of_prog (t div 2) (suffix t)"
    then have e: "evt_name row = call_name (t div 2)" "even (pp_type p) = even t" using suffix_inj nm short by metis+
    moreover have "evt_name row \<noteq> []" using paired_rows_partner [OF event_rows_paired row(1)] by blast
    ultimately have "g_linx_event_table (t div 2 * 2) \<noteq> Inr zero_row" "call_name (t div 2) \<noteq> []"
      by (auto simp: call_name_def zero_row_def event_row_def)
    then obtain r where r: "(t div 2 * 2, r) \<in> set (concat event_groups)" "evt_name r = call_name (t div 2)"
      using assms(2) by (auto simp: g_linx_event_table_def call_name_def LINX_EVENT_TYPE_MAX_def split: option.splits if_splits dest!: map_of_SomeD)
    have "pp_type p div 2 = t div 2 * 2 div 2" using e(1) r(2) by (intro event_names_unique [OF row(1) r(1)]) simp
    then have "pp_type p div 2 = t div 2" by simp
    with e(2) show "pp_type p = t" by (metis div_mult_mod_eq parity_cases)
  next
    assume "pp_type p = t"
    then show "pp_name p = name_of_prog (t div 2) (suffix t)" using short cn nm by simp
  qed
qed

definition find_by_type :: "nat \<Rightarrow> probe_prog option" where
  "find_by_type t = find (\<lambda>p. pp_type p = t) probe_progs"

lemma find_name_type: "t < 906 \<Longrightarrow> find_by_name (name_of_prog (t div 2) (suffix t)) = find_by_type t"
  unfolding find_by_name_def find_by_type_def by (rule find_cong) (simp_all add: prog_named_iff)

text \<open>
  C11: what the daemon records. After a successful start, the entry of system call \<open>n\<close> runs the program of event \<open>2n\<close> and its exit the program of
  event \<open>2n + 1\<close>, exactly when the configuration asks for the call and neither the thread nor the command is in its filter lists. The list of
  processes ends at its first zero, the comparison is with the thread and not with the process, and the options \<^verbatim>\<open>drop_mode\<close> and
  \<^verbatim>\<open>drop_failed\<close> of the configuration have no effect, whatever the call returned.
\<close>

theorem engine_records_configured_calls:
  assumes "linx_engine_init lb c m = Inr (0, m')" "lb_find lb = find_by_name" "config_arrays c" "length comm = 16" "n < LINX_SYSCALL_ID_MAX"
  shows "\<exists>s. em_skel m' = Skel s \<and> sk_attached s = [''sys_enter'', ''sys_exit''] \<and>
    sys_enter (sk_bss s) (sk_enter s) pid_tgid comm (word_of_nat n) = (if passes c pid_tgid comm n then find_by_type (2 * n) else None) \<and>
    sys_exit (sk_bss s) (sk_exit s) pid_tgid comm (word_of_nat n) ret = (if passes c pid_tgid comm n then find_by_type (2 * n + 1) else None)"
proof -
  have n: "n < 453" using assms(5) by (simp add: LINX_SYSCALL_ID_MAX_def)
  obtain ret m1 where o: "engine_before_writes lb c m = Inr (ret, m1)"
    "\<And>s. em_skel m1 = Skel s \<Longrightarrow> sk_bss s = zero_bss \<and> (ret = 0 \<longrightarrow> em_rb m1 \<and> sk_attached s = [''sys_enter'', ''sys_exit''] \<and>
       (\<exists>s0 s1. sk_enter s0 = (\<lambda>_. None) \<and> sk_exit s0 = (\<lambda>_. None) \<and> tail_loop lb c [0..<LINX_SYSCALL_ID_MAX] s0 = (0, s1) \<and>
          sk_enter s = sk_enter s1 \<and> sk_exit s = sk_exit s1))" using engine_before_writes_outcome [of lb c m] by blast
  obtain s where s: "em_skel m1 = Skel s" using assms(1) o(1)
    by (cases "em_skel m1") (auto simp: linx_engine_init_def ebpf_init_before with_skel_def split_beta Let_def)
  obtain boot_time where z: "ret = 0" "m' = m1\<lparr>em_skel := Skel (s\<lparr>sk_bss := write_bss (bss_writes c boot_time) (sk_bss s)\<rparr>)\<rparr>"
    using assms(1) o(1) s by (auto simp: linx_engine_init_def ebpf_init_before with_skel_def split_beta Let_def split: if_splits)
  obtain s0 s1 where t: "sk_enter s0 = (\<lambda>_. None)" "sk_exit s0 = (\<lambda>_. None)" "tail_loop lb c [0..<LINX_SYSCALL_ID_MAX] s0 = (0, s1)"
    "sk_enter s = sk_enter s1" "sk_exit s = sk_exit s1" and bss: "sk_bss s = zero_bss" "sk_attached s = [''sys_enter'', ''sys_exit'']"
    using o(2) [OF s] z(1) by blast
  have "sk_exit s n = find_by_type (2 * n + 1) \<and> sk_enter s n = find_by_type (2 * n)" if "passes c pid_tgid comm n"
    using tail_loop_entry [OF t(3), of n] that n t assms(2) find_name_type [of "2 * n"] find_name_type [of "2 * n + 1"]
    by (simp add: passes_def LINX_SYSCALL_ID_MAX_def suffix_def)
  then show ?thesis
    using dispatch_configured [OF assms(3,4) refl n, of boot_time] bss z(2)
    by (intro exI [of _ "s\<lparr>sk_bss := write_bss (bss_writes c boot_time) (sk_bss s)\<rparr>"]) simp
qed

text \<open>A start for the witnesses.\<close>

definition sample_config :: linx_global_config where
  "sample_config = zero_config\<lparr>filter_pids := 7 # replicate 63 0, interest_syscall_table := replicate 453 1\<rparr>"

lemma sample_config_arrays: "config_arrays sample_config"
  by (simp add: config_arrays_def sample_config_def zero_config_def LINX_BPF_FILTER_COMM_MAX_SIZE_def list_all_iff)

lemma sample_passes: "comm \<in> {replicate 16 65} \<Longrightarrow> n < 453 \<Longrightarrow> passes sample_config pid_tgid comm n \<longleftrightarrow> (ucast pid_tgid :: 32 word) \<noteq> 7"
  by (auto simp: passes_def filtered_pid_def filtered_comm_def interesting_def sample_config_def zero_config_def LINX_BPF_FILTER_COMM_MAX_SIZE_def)

lemma tail_loop_ok: "fst (tail_loop good_libbpf c is s) = 0"
proof (induction "is" arbitrary: s)
  case (Cons i "is")
  have "fst (linx_ebpf_add_prog_to_tail_table good_libbpf exit nm key s) = 0" for exit nm key s
    by (simp add: linx_ebpf_add_prog_to_tail_table_def good_libbpf_def split: option.splits)
  with Cons show ?case by (simp add: split_beta Let_def)
qed simp

lemma good_init: "\<exists>m'. linx_engine_init good_libbpf c m = Inr (0, m')"
proof -
  obtain s where "tail_loop good_libbpf c [0..<LINX_SYSCALL_ID_MAX]
      (disable_loop good_libbpf c [0..<LINX_SYSCALL_ID_MAX] (zero_skel\<lparr>sk_max_entries := 4\<rparr>)) = (0, s)"
    using tail_loop_ok by (metis prod.collapse)
  then show ?thesis
    by (simp add: linx_engine_init_def ebpf_init_def unless_def linx_ebpf_set_print_def linx_ebpf_open_def linx_ebpf_maps_before_load_def
        linx_ebpf_load_def linx_ebpf_ringbuf_init_def linx_ebpf_load_tail_call_map_def linx_ebpf_probe_load_def with_skel_def
        linx_get_boot_time_def good_libbpf_def Let_def)
qed

theorem engine_records_configured_calls_witness:
  "\<exists>m' s. linx_engine_init good_libbpf sample_config zero_manager = Inr (0, m') \<and> em_skel m' = Skel s \<and>
    sys_exit (sk_bss s) (sk_exit s) 9 (replicate 16 65) (word_of_nat 45) 0 = find_by_type 91"
proof -
  obtain m' where m': "linx_engine_init good_libbpf sample_config zero_manager = Inr (0, m')" using good_init by blast
  have "lb_find good_libbpf = find_by_name" "length (replicate 16 (65 :: 8 word)) = 16" "45 < LINX_SYSCALL_ID_MAX"
    by (simp_all add: good_libbpf_def LINX_SYSCALL_ID_MAX_def)
  from engine_records_configured_calls [OF m' this(1) sample_config_arrays this(2,3), of 9 0] m' sample_passes [of "replicate 16 65" 45 9]
  show ?thesis by auto
qed

theorem filters_precede_events_witness:
  "\<not> filtered_pid sample_config 9 \<and> \<not> filtered_comm sample_config (replicate 16 65) \<and> interesting sample_config 45"
proof -
  let ?k = "length (bss_writes sample_config 0)"
  have "sys_enter (write_bss (take ?k (bss_writes sample_config 0)) zero_bss) (\<lambda>_. Some recvfrom_e) 9 (replicate 16 65) (word_of_nat 45) = Some recvfrom_e"
    using dispatch_configured(1) [OF sample_config_arrays _ refl, of "replicate 16 65" 45 0] sample_passes [of "replicate 16 65" 45 9] by simp
  from filters_precede_events [OF sample_config_arrays _ refl disjI1 [OF this]] show ?thesis
    by (simp add: unsigned_ucast_eq unat_of_nat take_bit_nat_eq_self)
qed

section \<open>Events from the ring\<close>

text \<open>
  C30: only the last event of a poll survives. The library hands all records that are ready to the callback and returns their number; each of
  them overwrites the one buffer of the engine, so that the daemon sees the last record, zero-padded to the size of the buffer, and every
  record before it is lost.
\<close>

theorem poll_keeps_last_event:
  assumes "recs \<noteq> []" "list_all (\<lambda>r. length r \<le> 32768) recs"
  shows "linx_engine_next (recs, int (length recs)) m =
    (int (length recs), Some (last recs @ replicate (32768 - length (last recs)) 0),
     m\<lparr>em_ringbuf_data := last recs @ replicate (32768 - length (last recs)) 0\<rparr>)"
proof -
  have "fold (\<lambda>data buf. snd (linx_handle_event data buf)) recs buf = last recs @ replicate (32768 - length (last recs)) 0" for buf
    using assms
  proof (induction recs arbitrary: buf rule: rev_induct)
    case (snoc r rs)
    then show ?case by (simp add: linx_handle_event_def LINX_EVENT_MAX_SIZE_def)
  qed simp
  with assms(1) show ?thesis by (simp add: linx_engine_next_def ebpf_next_def linx_ebpf_get_ringbuf_msg_def Let_def)
qed

theorem poll_keeps_last_event_witness:
  "linx_engine_next ([[1], [2, 3]], 2) zero_manager =
    (2, Some ([2, 3] @ replicate 32766 0), zero_manager\<lparr>em_ringbuf_data := [2, 3] @ replicate 32766 0\<rparr>)"
  using poll_keeps_last_event [of "[[1], [2, 3]]" zero_manager] by simp

section \<open>From a system call to an argument of the rules\<close>

lemma read_slot:
  assumes "a \<noteq> 0" "unat a + length buf \<le> 2 ^ 64" "unat (q - a) + n \<le> length buf" "unat (q - a) < length buf"
  shows "read_bytes n [(a, buf)] q = Inr (bytes_at (unat (q - a)) n buf)"
proof -
  have "unat (q - a) + unat a = unat (q - a + a)" using assms(2,4) unat_add_lem [of "q - a" a] by simp
  moreover have "0 < unat a" using assms(1) by (simp add: unat_gt_0)
  ultimately have "q \<noteq> 0" by auto
  with assms(3,4) show ?thesis by (simp add: read_bytes_def mem_at_def in_block_def bytes_at_def)
qed


lemma recvfrom_e_row:
  "g_linx_event_table 90 = Inr (event_row ''recvfrom'' 2 [(''fd'', LINX_FIELD_TYPE_INT64), (''size'', LINX_FIELD_TYPE_UINT32)])"
  by (rule g_linx_event_table_row [of _ _ event_rows_3]) (simp_all add: event_rows_3_def event_groups_def)


end
