(* ===== verification/Kmod_Args.thy ===== *)
theory Kmod_Args
  imports Probe_Ring
begin

text \<open>
  The kernel module's tables and the recording of real parameters (\<^verbatim>\<open>kernel/kmod\<close>: \<^verbatim>\<open>kmod_msg.h\<close>, \<^verbatim>\<open>linx_event_table.c\<close>,
  \<^verbatim>\<open>linx_syscall_table.c\<close>, \<^verbatim>\<open>linx_fillers_table.c\<close>, \<^verbatim>\<open>linx_filler.c\<close>, \<^verbatim>\<open>linx_get_params\<close> of \<^verbatim>\<open>sysmon_main.c\<close>): parameters are appended to a
  buffer of 1024 bytes on the stack. What a copy from user memory delivers is a parameter.
\<close>

section \<open>Tables\<close>

datatype sysmon_param_type =
    PT_NONE | PT_INT8 | PT_INT16 | PT_INT32 | PT_INT64 | PT_UINT8 | PT_UINT16 | PT_UINT32 | PT_UINT64 | PT_CHARBUF

record sysmon_event_info =
  si_name :: string
  si_nparams :: nat
  si_params :: "(string \<times> sysmon_param_type) list"

definition event_info :: "string \<Rightarrow> (string \<times> sysmon_param_type) list \<Rightarrow> sysmon_event_info" where
  "event_info n ps = \<lparr>si_name = n, si_nparams = length ps, si_params = ps\<rparr>"

text \<open>The initialisers by event code. A code between them without an initialiser is the row of zeros; the array ends after the last one.\<close>

definition g_event_info :: "nat \<Rightarrow> sysmon_event_info res" where
  "g_event_info t =
    (if t > 111 then Inl OutOfBounds
     else Inr (case map_of
       [(0, event_info ''syscall'' [(''id'', PT_UINT32)]),
        (1, event_info ''syscall'' [(''res'', PT_INT32)]),
        (2, event_info ''open'' [(''name'', PT_CHARBUF), (''flags'', PT_UINT32), (''mode'', PT_INT32)]),
        (3, event_info ''open'' [(''name'', PT_CHARBUF), (''flags'', PT_UINT32), (''mode'', PT_INT32)]),
        (4, event_info ''close'' [(''fd'', PT_INT64)]),
        (5, event_info ''close'' [(''res'', PT_INT32)]),
        (6, event_info ''read'' [(''fd'', PT_INT64), (''size'', PT_UINT32)]),
        (7, event_info ''read'' [(''data'', PT_CHARBUF), (''fd'', PT_INT32), (''size'', PT_INT32)]),
        (8, event_info ''write'' [(''fd'', PT_INT64), (''size'', PT_UINT32)]),
        (9, event_info ''write'' [(''data'', PT_CHARBUF), (''fd'', PT_INT32), (''size'', PT_INT32)]),
        (108, event_info ''unlink'' [(''path'', PT_CHARBUF)]),
        (109, event_info ''unlink'' [(''res'', PT_INT32)]),
        (110, event_info ''unlinkat'' [(''dirfd'', PT_INT32), (''path'', PT_CHARBUF)]),
        (111, event_info ''unlinkat'' [(''res'', PT_INT32)])] t of
       None \<Rightarrow> event_info [] [] | Some r \<Rightarrow> r))"

record syscall_evt_pair =
  sp_flags :: nat
  sp_enter_event_type :: nat
  sp_exit_event_type :: nat

definition SC_UF_USED :: nat where "SC_UF_USED = 2"
definition SC_UF_NEVER_DROP :: nat where "SC_UF_NEVER_DROP = 4"

definition g_syscall_table :: "nat \<Rightarrow> syscall_evt_pair res" where
  "g_syscall_table nr =
    (if nr > 263 then Inl OutOfBounds
     else Inr (case map_of [(2, (2, 3)), (257, (2, 3)), (87, (108, 109)), (263, (110, 111))] nr of
       None \<Rightarrow> \<lparr>sp_flags = 0, sp_enter_event_type = 0, sp_exit_event_type = 0\<rparr>
     | Some (e, x) \<Rightarrow> \<lparr>sp_flags = SC_UF_USED + SC_UF_NEVER_DROP, sp_enter_event_type = e, sp_exit_event_type = x\<rparr>))"

datatype filler_callback = F_sys_open_e | F_sys_open_x | F_sys_params_e_1

text \<open>Every event code has an initialiser.\<close>

definition g_sysmon_events :: "nat \<Rightarrow> filler_callback res" where
  "g_sysmon_events t =
    (if t \<ge> 430 then Inl OutOfBounds
     else Inr (if t = 2 then F_sys_open_e else if t = 3 then F_sys_open_x else F_sys_params_e_1))"

section \<open>Parameters\<close>

record event_filler_arguments =
  fa_syscall_nr :: "32 word"
  fa_buffer :: "nat \<Rightarrow> 8 word"
  fa_curarg :: nat
  fa_nargs :: nat
  fa_arg_data_offset :: "32 word"
  fa_arg_data_size :: "32 word"
  fa_event_type :: nat
  fa_args :: "64 word list"
  fa_args_len :: "32 word list"

text \<open>\<open>um from n\<close> are the \<open>n\<close> bytes at a user address, \<open>None\<close> when the range is refused or faults. The result is the return value and the bytes
  that were written one after the other.\<close>

type_synonym user_memory = "64 word \<Rightarrow> nat \<Rightarrow> bytes option"

function strncpy_loop :: "user_memory \<Rightarrow> 64 word \<Rightarrow> nat \<Rightarrow> int \<Rightarrow> int \<times> bytes" where
  "strncpy_loop um from n string_length =
    (if n = 0 then (string_length, [])
     else
       (let bytes_to_read = min 4 n
        in case um from bytes_to_read of
             None \<Rightarrow> (- 1, [])
           | Some bs \<Rightarrow>
               (if 0 \<in> set bs then (string_length + int (length (takeWhile (\<lambda>b. b \<noteq> 0) bs)) + 1, bs)
                else
                  (let (res, rest) = strncpy_loop um (from + word_of_nat bytes_to_read) (n - bytes_to_read) (string_length + int bytes_to_read)
                   in (res, bs @ rest)))))"
  by auto

termination by (relation "measure (\<lambda>(um, from, n, l). n)") auto

declare strncpy_loop.simps [simp del]

definition ppm_strncpy_from_user :: "user_memory \<Rightarrow> 64 word \<Rightarrow> nat \<Rightarrow> int \<times> bytes" where
  "ppm_strncpy_from_user um from n = strncpy_loop um from n 0"

text \<open>A store into the buffer on the stack.\<close>

definition ARG_BUF_SIZE :: nat where "ARG_BUF_SIZE = 1024"

definition store_arg :: "32 word \<Rightarrow> bytes \<Rightarrow> event_filler_arguments \<Rightarrow> event_filler_arguments res" where
  "store_arg off bs a =
    (if unat off + length bs \<le> ARG_BUF_SIZE then Inr (a\<lparr>fa_buffer := put (unat off) bs (fa_buffer a)\<rparr>) else Inl OutOfBounds)"

definition arg_done :: "32 word \<Rightarrow> event_filler_arguments \<Rightarrow> event_filler_arguments" where
  "arg_done len a = a\<lparr>fa_args_len := (fa_args_len a)[fa_curarg a := len], fa_curarg := fa_curarg a + 1,
     fa_arg_data_offset := fa_arg_data_offset a + len, fa_arg_data_size := fa_arg_data_size a - len\<rparr>"

text \<open>A kernel string that \<^verbatim>\<open>strscpy\<close> copies is \<open>ks val\<close>.\<close>

definition val_to_ring ::
  "user_memory \<Rightarrow> (64 word \<Rightarrow> string) \<Rightarrow> 64 word \<Rightarrow> bool \<Rightarrow> event_filler_arguments \<Rightarrow> (int \<times> event_filler_arguments) res" where
  "val_to_ring um ks val fromuser a =
    (let max_arg_size = fa_arg_data_size a; off = fa_arg_data_offset a
     in if fa_curarg a \<ge> fa_nargs a then Inr (- 1, a)
        else if max_arg_size = 0 then Inr (- 1, a)
        else res_bind (g_event_info (fa_event_type a)) (\<lambda>info.
          case snd (si_params info ! fa_curarg a) of
            PT_CHARBUF \<Rightarrow>
              (if val = 0 then Inr (0, arg_done 0 a)
               else if fromuser then
                 (let (len, bs) = ppm_strncpy_from_user um val (unat max_arg_size)
                  in res_bind (store_arg off bs a) (\<lambda>a.
                       if len < 0 then Inr (0, arg_done 0 a)
                       else res_bind (store_arg (off + max_arg_size - 1) [0] a) (\<lambda>a. Inr (0, arg_done (word_of_int len) a))))
               else
                 (let s = take (unat max_arg_size - 1) (ks val)
                  in res_bind (store_arg off (cstr_bytes s) a) (\<lambda>a.
                       Inr (0, arg_done (if length (ks val) \<ge> unat max_arg_size then max_arg_size else word_of_nat (length (ks val) + 1)) a))))
          | PT_UINT32 \<Rightarrow>
              (if max_arg_size \<ge> 4 then
                 res_bind (store_arg off (bytes_le 4 (uint (ucast val :: 32 word))) a) (\<lambda>a. Inr (0, arg_done 4 a))
               else Inr (- 1, a))
          | _ \<Rightarrow> Inr (0, arg_done (- 1) a)))"

definition f_sys_open_e ::
  "user_memory \<Rightarrow> (64 word \<Rightarrow> string) \<Rightarrow> event_filler_arguments \<Rightarrow> (int \<times> event_filler_arguments) res" where
  "f_sys_open_e um ks a =
    res_bind (val_to_ring um ks (fa_args a ! 1) True a) (\<lambda>(res, a).
      if res \<noteq> 0 then Inr (res, a)
      else res_bind (val_to_ring um ks (fa_args a ! 2) False a) (\<lambda>(res, a). val_to_ring um ks (fa_args a ! 3) False a))"

definition f_sys_open_x :: "event_filler_arguments \<Rightarrow> (int \<times> event_filler_arguments) res" where "f_sys_open_x a = Inr (0, a)"
definition f_sys_params_e_1 :: "event_filler_arguments \<Rightarrow> (int \<times> event_filler_arguments) res" where "f_sys_params_e_1 a = Inr (0, a)"

text \<open>The pair is that of \<^verbatim>\<open>openat\<close> (number 257), whatever system call is recorded. \<open>exit\<close> is \<^verbatim>\<open>evt->type\<close>.\<close>

definition linx_get_params ::
  "user_memory \<Rightarrow> (64 word \<Rightarrow> string) \<Rightarrow> bool \<Rightarrow> 32 word \<Rightarrow> event_filler_arguments \<Rightarrow> (int \<times> event_filler_arguments) res" where
  "linx_get_params um ks exit syscall_nr a =
    res_bind (g_syscall_table 257) (\<lambda>event_pair.
      if \<not> odd (sp_flags event_pair div SC_UF_USED) then Inr (- 1, a\<lparr>fa_arg_data_offset := 0, fa_arg_data_size := 0\<rparr>)
      else
        (let event_type = (if exit then sp_exit_event_type event_pair else sp_enter_event_type event_pair)
         in res_bind (g_event_info event_type) (\<lambda>info.
              let a = a\<lparr>fa_nargs := si_nparams info, fa_arg_data_offset := 0, fa_arg_data_size := word_of_nat ARG_BUF_SIZE,
                        fa_syscall_nr := syscall_nr, fa_curarg := 0, fa_event_type := event_type\<rparr>
              in res_bind (g_sysmon_events event_type) (\<lambda>f.
                   case f of F_sys_open_e \<Rightarrow> f_sys_open_e um ks a | F_sys_open_x \<Rightarrow> f_sys_open_x a | F_sys_params_e_1 \<Rightarrow> f_sys_params_e_1 a))))"

text \<open>\<^verbatim>\<open>struct event_filler_arguments real_args = {}\<close> with the registers copied in.\<close>

definition zero_args :: "64 word list \<Rightarrow> event_filler_arguments" where
  "zero_args args = \<lparr>fa_syscall_nr = 0, fa_buffer = (\<lambda>_. 0), fa_curarg = 0, fa_nargs = 0, fa_arg_data_offset = 0, fa_arg_data_size = 0,
     fa_event_type = 0, fa_args = args, fa_args_len = replicate 8 0\<rparr>"

section \<open>Bounds\<close>

definition user_memory_ok :: "user_memory \<Rightarrow> bool" where
  "user_memory_ok um \<longleftrightarrow> (\<forall>from n bs. um from n = Some bs \<longrightarrow> length bs = n)"

lemma strncpy_loop_bounds:
  assumes "user_memory_ok um" "0 \<le> l" "strncpy_loop um from n l = (r, bs)"
  shows "length bs \<le> n \<and> r \<le> l + int n \<and> (0 \<le> r \<longrightarrow> 0 < n \<longrightarrow> l < r)"
  using assms
proof (induction um "from" n l arbitrary: r bs rule: strncpy_loop.induct)
  case (1 um "from" n l)
  let ?k = "min 4 n"
  show ?case
  proof (cases "n = 0")
    case True
    with "1.prems"(3) show ?thesis by (simp add: strncpy_loop.simps)
  next
    case n: False
    show ?thesis
    proof (cases "um from ?k")
      case None
      with "1.prems"(2,3) n show ?thesis by (simp add: strncpy_loop.simps Let_def)
    next
      case (Some cs)
      then have len: "length cs = ?k" using "1.prems"(1) by (simp add: user_memory_ok_def)
      show ?thesis
      proof (cases "0 \<in> set cs")
        case True
        then have "length (takeWhile (\<lambda>b. b \<noteq> 0) cs) < ?k"
          using len length_takeWhile_le [of "\<lambda>b. b \<noteq> 0" cs] set_takeWhileD takeWhile_eq_all_conv [of "\<lambda>b. b \<noteq> 0" cs]
          by (metis le_neq_implies_less takeWhile_eq_take take_all)
        with True Some len "1.prems"(3) n show ?thesis by (subst (asm) strncpy_loop.simps) auto
      next
        case False
        obtain r' rest where r': "strncpy_loop um (from + word_of_nat ?k) (n - ?k) (l + int ?k) = (r', rest)" by fastforce
        then have eq: "r = r'" "bs = cs @ rest"
          using "1.prems"(3) Some False n by (subst (asm) (2) strncpy_loop.simps; simp add: Let_def)+
        have "0 \<le> l + int ?k" using "1.prems"(2) by simp
        from "1.IH" [OF n refl Some False "1.prems"(1) this r'] show ?thesis
          using r' len n unfolding eq by (cases "n - ?k = 0") (auto simp: strncpy_loop.simps)
      qed
    qed
  qed
qed

text \<open>The number of bytes of the name of an opened file in the buffer, its NUL included; 0 when it cannot be read.\<close>

definition name_bytes :: "user_memory \<Rightarrow> 64 word \<Rightarrow> nat" where
  "name_bytes um val = (if val = 0 then 0 else nat (fst (ppm_strncpy_from_user um val ARG_BUF_SIZE)))"

lemma name_bytes_le: "user_memory_ok um \<Longrightarrow> name_bytes um val \<le> 1024"
  using strncpy_loop_bounds [of um 0 val 1024]
  by (cases "strncpy_loop um val 1024 0") (auto simp: name_bytes_def ppm_strncpy_from_user_def ARG_BUF_SIZE_def)

lemma g_event_info_open: "g_event_info 2 = Inr (event_info ''open'' [(''name'', PT_CHARBUF), (''flags'', PT_UINT32), (''mode'', PT_INT32)])"
  by (simp add: g_event_info_def)

text \<open>An argument buffer of an open event in which \<open>k\<close> parameters take \<open>off\<close> bytes.\<close>

definition open_args :: "nat \<Rightarrow> nat \<Rightarrow> 64 word list \<Rightarrow> event_filler_arguments \<Rightarrow> bool" where
  "open_args k off args a \<longleftrightarrow> fa_event_type a = 2 \<and> fa_nargs a = 3 \<and> fa_curarg a = k \<and> fa_arg_data_offset a = word_of_nat off \<and>
     fa_arg_data_size a = word_of_nat (1024 - off) \<and> off \<le> 1024 \<and> fa_args a = args"

lemma open_args_done:
  "open_args k off args a \<Longrightarrow> off + len \<le> 1024 \<Longrightarrow> open_args (Suc k) (off + len) args (arg_done (word_of_nat len) a)"
  by (simp add: open_args_def arg_done_def of_nat_diff)

lemma open_args_store: "store_arg off' bs a = Inr a' \<Longrightarrow> open_args k off args a' = open_args k off args a"
  by (auto simp: store_arg_def open_args_def split: if_splits)

lemma open_args_size:
  assumes "open_args k off args a"
  shows "unat (fa_arg_data_size a) = 1024 - off" "unat (fa_arg_data_offset a) = off" "off \<le> 1024"
proof -
  show "off \<le> 1024" using assms by (simp add: open_args_def)
  then have "unat (word_of_nat off :: 32 word) = off" by (simp add: unat_of_nat)
  moreover have "unat (word_of_nat (1024 - off) :: 32 word) = 1024 - off" by (simp only: unat_of_nat) simp
  moreover have "fa_arg_data_size a = word_of_nat (1024 - off)" "fa_arg_data_offset a = word_of_nat off"
    using assms unfolding open_args_def by blast+
  ultimately show "unat (fa_arg_data_size a) = 1024 - off" "unat (fa_arg_data_offset a) = off" by simp_all
qed

lemma name_to_ring:
  assumes "user_memory_ok um" "open_args 0 0 args a"
  shows "\<exists>a'. val_to_ring um ks val True a = Inr (0, a') \<and> open_args 1 (name_bytes um val) args a'"
proof (cases "val = 0")
  case True
  with assms(2) open_args_done [OF assms(2), of 0] show ?thesis
    by (simp add: val_to_ring_def open_args_def g_event_info_open event_info_def Let_def name_bytes_def)
next
  case False
  obtain r bs where r: "ppm_strncpy_from_user um val 1024 = (r, bs)" by fastforce
  then have b: "length bs \<le> 1024" "r \<le> 1024" using strncpy_loop_bounds [of um 0 val 1024 r bs] assms(1) by (simp_all add: ppm_strncpy_from_user_def)
  have sz: "unat (fa_arg_data_size a) = 1024" "fa_arg_data_offset a = 0" "fa_arg_data_size a = 1024" using assms(2) by (simp_all add: open_args_def)
  obtain a1 where a1: "store_arg 0 bs a = Inr a1" using b(1) by (simp add: store_arg_def ARG_BUF_SIZE_def)
  obtain a2 where a2: "store_arg 1023 [0] a1 = Inr a2" by (simp add: store_arg_def ARG_BUF_SIZE_def)
  have "open_args 0 0 args a1" "open_args 0 0 args a2" using assms(2) open_args_store [OF a1] open_args_store [OF a2] by simp_all
  moreover have "nat r \<le> 1024" "r \<ge> 0 \<Longrightarrow> word_of_int r = (word_of_nat (nat r) :: 32 word)" using b(2) by simp_all
  ultimately show ?thesis
    using False r a1 a2 assms(2) open_args_done [of 0 0 args a1 0] open_args_done [of 0 0 args a2 "nat r"]
    by (auto simp: val_to_ring_def open_args_def g_event_info_open event_info_def Let_def name_bytes_def ARG_BUF_SIZE_def)
qed

lemma flags_to_ring:
  assumes "open_args 1 off args a"
  shows "\<exists>r a'. val_to_ring um ks val False a = Inr (r, a') \<and>
    (if off \<le> 1020 then r = 0 \<and> open_args 2 (off + 4) args a' else r = - 1 \<and> open_args 1 off args a')"
proof -
  note sz = open_args_size [OF assms]
  then have le: "(4 \<le> fa_arg_data_size a) = (off \<le> 1020)" "(fa_arg_data_size a = 0) = (off = 1024)"
    using unat_eq_zero [of "fa_arg_data_size a"] by (auto simp: word_le_nat_alt)
  show ?thesis
  proof (cases "off \<le> 1020")
    case True
    with sz obtain a1 where a1: "store_arg (fa_arg_data_offset a) (bytes_le 4 (uint (ucast val :: 32 word))) a = Inr a1"
      by (simp add: store_arg_def ARG_BUF_SIZE_def)
    have "open_args 2 (off + 4) args (arg_done 4 a1)"
      using open_args_done [of 1 off args a1 4] True assms open_args_store [OF a1, of 1 off args] by (simp add: numeral_2_eq_2)
    with True a1 le assms show ?thesis
      by (auto simp: val_to_ring_def open_args_def g_event_info_open event_info_def Let_def)
  next
    case False
    with le assms show ?thesis
      by (auto simp: val_to_ring_def open_args_def g_event_info_open event_info_def Let_def)
  qed
qed

text \<open>
  The parameters of an open are cut short. The recording of real parameters never writes outside its buffer of 1024 bytes, and it succeeds
  exactly when the name leaves room for the flags and one byte more; but the mode has a type that \<^verbatim>\<open>val_to_ring\<close> does not know, its length is taken to be -1, and
  the event announces one byte less than name and flags take. At the exit nothing is recorded.
\<close>

theorem kmod_open_params_short:
  assumes "user_memory_ok um"
  shows "\<exists>r a'. linx_get_params um ks exit nr (zero_args args) = Inr (r, a') \<and>
    (if exit then r = 0 \<and> fa_arg_data_offset a' = 0
     else if name_bytes um (args ! 1) < 1020 then r = 0 \<and> unat (fa_arg_data_offset a') = name_bytes um (args ! 1) + 4 - 1
     else r = - 1)"
proof (cases "exit")
  case True
  then show ?thesis
    by (simp add: linx_get_params_def g_syscall_table_def SC_UF_USED_def SC_UF_NEVER_DROP_def g_event_info_def g_sysmon_events_def
        f_sys_open_x_def Let_def event_info_def)
next
  case False
  let ?a = "(zero_args args)\<lparr>fa_nargs := 3, fa_arg_data_offset := 0, fa_arg_data_size := 1024, fa_syscall_nr := nr, fa_curarg := 0, fa_event_type := 2\<rparr>"
  let ?n = "name_bytes um (args ! 1)"
  have get: "linx_get_params um ks exit nr (zero_args args) = f_sys_open_e um ks ?a"
    using False by (simp add: linx_get_params_def g_syscall_table_def SC_UF_USED_def SC_UF_NEVER_DROP_def g_event_info_open g_sysmon_events_def
        Let_def event_info_def ARG_BUF_SIZE_def numeral_3_eq_3)
  have "open_args 0 0 args ?a" by (simp add: open_args_def zero_args_def)
  then obtain a1 where a1: "val_to_ring um ks (args ! 1) True ?a = Inr (0, a1)" "open_args 1 ?n args a1"
    using name_to_ring [OF assms] by blast
  then obtain r a2 where a2: "val_to_ring um ks (args ! 2) False a1 = Inr (r, a2)"
    "if ?n \<le> 1020 then r = 0 \<and> open_args 2 (?n + 4) args a2 else r = - 1 \<and> open_args 1 ?n args a2" using flags_to_ring by blast
  have args: "fa_args ?a ! 1 = args ! 1" "fa_args a1 = args" "fa_args a2 = args"
    using a1(2) a2(2) by (auto simp: open_args_def zero_args_def split: if_splits)
  consider "?n < 1020" | "?n = 1020" | "1020 < ?n" by linarith
  then have "\<exists>r a'. val_to_ring um ks (args ! 3) False a2 = Inr (r, a') \<and>
      (if ?n < 1020 then r = 0 \<and> unat (fa_arg_data_offset a') = ?n + 4 - 1 else r = - 1)"
  proof cases
    case 1
    with a2(2) have o: "open_args 2 (?n + 4) args a2" by simp
    have "fa_arg_data_size a2 \<noteq> 0" using open_args_size(1) [OF o] 1 by auto
    with o have "val_to_ring um ks (args ! 3) False a2 = Inr (0, arg_done (- 1) a2)"
      by (simp add: val_to_ring_def open_args_def g_event_info_open event_info_def Let_def)
    moreover have "fa_arg_data_offset (arg_done (- 1) a2) = word_of_nat (?n + 3)" using o by (simp add: open_args_def arg_done_def)
    moreover have "unat (word_of_nat (?n + 3) :: 32 word) = ?n + 3" using 1 by (simp only: unat_of_nat) simp
    ultimately show ?thesis using 1 by simp
  next
    case 2
    with a2(2) show ?thesis by (simp add: val_to_ring_def open_args_def Let_def)
  next
    case 3
    with a2(2) have o: "open_args 1 ?n args a2" by simp
    from flags_to_ring [OF o, of um ks "args ! 3"] 3 show ?thesis by auto
  qed
  then obtain r' a' where a': "val_to_ring um ks (args ! 3) False a2 = Inr (r', a')"
    "if ?n < 1020 then r' = 0 \<and> unat (fa_arg_data_offset a') = ?n + 4 - 1 else r' = - 1" by blast
  have "f_sys_open_e um ks ?a = Inr (r', a')" using a1(1) a2(1) a'(1) args by (simp add: f_sys_open_e_def)
  with get have "linx_get_params um ks exit nr (zero_args args) = Inr (r', a')" by simp
  with False a'(2) show ?thesis by auto
qed

theorem kmod_open_params_short_witness:
  "\<exists>a'. linx_get_params (\<lambda>from n. Some (map (\<lambda>i. if i = 2 then 0 else 97) [0..<n])) (\<lambda>_. []) False 2 (zero_args [0, 4096, 5, 6, 0, 0]) = Inr (0, a') \<and>
    unat (fa_arg_data_offset a') = 6"
proof -
  let ?um = "\<lambda>(from :: 64 word) n. Some (map (\<lambda>i. if i = 2 then 0 else 97 :: 8 word) [0..<n])"
  have "user_memory_ok ?um" by (simp add: user_memory_ok_def)
  moreover have "name_bytes ?um 4096 = 3"
    by (simp add: name_bytes_def ppm_strncpy_from_user_def strncpy_loop.simps ARG_BUF_SIZE_def Let_def upt_conv_Cons)
  ultimately show ?thesis using kmod_open_params_short [of ?um "\<lambda>_. []" False 2 "[0, 4096, 5, 6, 0, 0]"] by auto
qed

end
