(* ===== verification/Kmod_Ring.thy ===== *)
theory Kmod_Ring
  imports Kmod_Args
begin

text \<open>
  The ring between the kernel module and its reader (\<^verbatim>\<open>kernel/kmod\<close>: \<^verbatim>\<open>linx_record_event\<close> of \<^verbatim>\<open>sysmon_main.c\<close>, \<^verbatim>\<open>linx_kmod_next\<close> of
  \<^verbatim>\<open>user/linx_devset.c\<close>). The buffer and the positions are shared memory. Recording is cut where other processors and the reader
  can interfere: at the counter that lets one recorder in, at the look at the free space, at the copy, and at the update of the head.
\<close>

section \<open>Event headers\<close>

record komd_net_info =
  ni_saddr :: "32 word"
  ni_daddr :: "32 word"
  ni_sport :: "16 word"
  ni_dport :: "16 word"
  ni_protocol :: "8 word"
  ni_direction :: "8 word"

record event_header =
  eh_ts :: "64 word"
  eh_type :: "32 word"
  eh_syscall_nr :: "32 word"
  eh_pid :: "32 word"
  eh_tid :: "32 word"
  eh_user :: "32 word"
  eh_len :: "32 word"
  eh_ppid :: "32 word"
  eh_res :: "32 word"
  eh_net :: komd_net_info
  eh_net_flag :: "8 word"
  eh_proc :: bytes
  eh_pp_proc :: bytes
  eh_cmdline :: bytes
  eh_fd_val :: "32 word list"

definition header_ok :: "event_header \<Rightarrow> bool" where
  "header_ok h \<longleftrightarrow> length (eh_proc h) = 64 \<and> length (eh_pp_proc h) = 64 \<and> length (eh_cmdline h) = 256 \<and> length (eh_fd_val h) = 12"

text \<open>The members in memory, the padding of the compiler included; it is zero because the headers start from \<^verbatim>\<open>memset\<close>.\<close>

definition word_bytes :: "'a::len word \<Rightarrow> bytes" where
  "word_bytes w = bytes_le (LENGTH('a) div 8) (uint w)"

definition net_fields :: "komd_net_info \<Rightarrow> bytes list" where
  "net_fields n = [word_bytes (ni_saddr n), word_bytes (ni_daddr n), word_bytes (ni_sport n), word_bytes (ni_dport n), [ni_protocol n], [ni_direction n], [0, 0]]"

definition header_fields :: "event_header \<Rightarrow> bytes list" where
  "header_fields h =
    [word_bytes (eh_ts h), word_bytes (eh_type h), word_bytes (eh_syscall_nr h), word_bytes (eh_pid h), word_bytes (eh_tid h),
     word_bytes (eh_user h), word_bytes (eh_len h), word_bytes (eh_ppid h), word_bytes (eh_res h)] @
    net_fields (eh_net h) @ [[eh_net_flag h], eh_proc h, eh_pp_proc h, eh_cmdline h, [0, 0, 0]] @ map word_bytes (eh_fd_val h) @ [[0, 0, 0, 0]]"

definition header_bytes :: "event_header \<Rightarrow> bytes" where
  "header_bytes h = concat (header_fields h)"

definition header_sizes :: "nat list" where
  "header_sizes = [8, 4, 4, 4, 4, 4, 4, 4, 4, 4, 4, 2, 2, 1, 1, 2, 1, 64, 64, 256, 3] @ replicate 12 4 @ [4]"

definition EVENT_HEADER_SIZE :: nat where "EVENT_HEADER_SIZE = 496"

text \<open>The members of a header that the reader finds at an address.\<close>

fun splits :: "nat list \<Rightarrow> bytes \<Rightarrow> bytes list" where
  "splits [] bs = []"
| "splits (n # ns) bs = take n bs # splits ns (drop n bs)"

definition word_of :: "bytes \<Rightarrow> 'a::len word" where
  "word_of bs = word_of_int (le_val bs)"

definition header_of :: "bytes \<Rightarrow> event_header" where
  "header_of bs =
    (let f = splits header_sizes bs
     in \<lparr>eh_ts = word_of (f ! 0), eh_type = word_of (f ! 1), eh_syscall_nr = word_of (f ! 2), eh_pid = word_of (f ! 3), eh_tid = word_of (f ! 4),
         eh_user = word_of (f ! 5), eh_len = word_of (f ! 6), eh_ppid = word_of (f ! 7), eh_res = word_of (f ! 8),
         eh_net = \<lparr>ni_saddr = word_of (f ! 9), ni_daddr = word_of (f ! 10), ni_sport = word_of (f ! 11), ni_dport = word_of (f ! 12),
           ni_protocol = word_of (f ! 13), ni_direction = word_of (f ! 14)\<rparr>,
         eh_net_flag = word_of (f ! 16), eh_proc = f ! 17, eh_pp_proc = f ! 18, eh_cmdline = f ! 19,
         eh_fd_val = map word_of (take 12 (drop 21 f))\<rparr>)"

lemma splits_concat: "splits (map length fs) (concat fs) = fs"
  by (induction fs) auto

lemma word_of_bytes [simp]:
  assumes "LENGTH('a) mod 8 = 0"
  shows "word_of (word_bytes (w :: 'a::len word)) = w"
proof -
  have "8 * (LENGTH('a) div 8) = LENGTH('a)" using assms by (metis mult_div_mod_eq add.right_neutral)
  then have "(256 :: int) ^ (LENGTH('a) div 8) = 2 ^ LENGTH('a)" using power_mult [of "2 :: int" 8 "LENGTH('a) div 8"] by simp
  then have "uint w < 256 ^ (LENGTH('a) div 8)" using uint_bounded [of w] by simp
  then show ?thesis by (simp add: word_of_def word_bytes_def le_val_bytes_le)
qed

lemma word_of_byte [simp]: "word_of [b] = (b :: 8 word)"
  by (simp add: word_of_def)

lemma header_sizes: "header_ok h \<Longrightarrow> map length (header_fields h) = header_sizes"
  by (simp add: header_fields_def net_fields_def header_sizes_def header_ok_def word_bytes_def comp_def map_replicate_const)

lemma header_bytes_length: "header_ok h \<Longrightarrow> length (header_bytes h) = 496"
  using header_sizes [of h] by (simp add: header_bytes_def length_concat header_sizes_def sum_list_replicate)

lemma header_roundtrip:
  assumes "header_ok h"
  shows "header_of (header_bytes h) = h"
proof -
  have f: "splits header_sizes (header_bytes h) = header_fields h"
    using splits_concat [of "header_fields h"] header_sizes [OF assms] by (simp add: header_bytes_def)
  have "length (eh_fd_val h) = 12" using assms by (simp add: header_ok_def)
  then show ?thesis by (simp add: header_of_def f header_fields_def net_fields_def Let_def comp_def)
qed

section \<open>Consumers and their rings\<close>

record kmod_ringbuffer_info =
  ri_head :: "32 word"
  ri_tail :: "32 word"
  ri_n_evts :: "64 word"
  ri_n_drop_evts :: "64 word"

text \<open>\<open>rc_alloc\<close> is the size of the block behind \<^verbatim>\<open>buffer\<close>. The counter is an \<^verbatim>\<open>atomic_t\<close>; fewer than \<open>2 ^ 31\<close> processors count on it.\<close>

record kmod_ringbuffer_ctx =
  rc_ring_info :: "kmod_ringbuffer_info option"
  rc_buffer :: "(nat \<Rightarrow> 8 word) option"
  rc_alloc :: nat
  rc_size :: "32 word"
  rc_preempt_count :: int
  rc_open :: bool

record kmod_consumer_config =
  cc_cap_enable :: "8 word"
  cc_filter_enable :: "8 word"
  cc_args_enable :: "8 word"
  cc_fds_enabel :: "8 word"
  cc_drop_enabel :: "8 word"

record linx_kmod_consumer =
  lc_consumer_id :: nat
  lc_ring :: kmod_ringbuffer_ctx
  lc_consumer_cfg :: kmod_consumer_config
  lc_syscall_mask :: "bool list"

definition with_ring :: "(kmod_ringbuffer_info \<Rightarrow> (nat \<Rightarrow> 8 word) \<Rightarrow> 'a res) \<Rightarrow> kmod_ringbuffer_ctx \<Rightarrow> 'a res" where
  "with_ring f ring =
    (case (rc_ring_info ring, rc_buffer ring) of (Some info, Some buf) \<Rightarrow> f info buf | _ \<Rightarrow> Inl NullDeref)"

text \<open>What the kernel shows of the current task: its user memory, kernel strings, and the table of its files, \<open>None\<close> without one. A file is \<open>None\<close> for a
  free slot; its path is \<open>None\<close> when \<^verbatim>\<open>d_path\<close> fails.\<close>

record kmod_view =
  kw_user :: user_memory
  kw_str :: "64 word \<Rightarrow> string"
  kw_files :: "string option option list option"

definition FD_NUM :: nat where "FD_NUM = 12"

fun fd_loop :: "string option option list \<Rightarrow> nat \<Rightarrow> nat \<Rightarrow> 32 word list \<Rightarrow> string list \<Rightarrow> (nat \<times> 32 word list \<times> string list) res" where
  "fd_loop [] i j fd buf = Inr (j, fd, buf)"
| "fd_loop (None # fs) i j fd buf = fd_loop fs (i + 1) j fd buf"
| "fd_loop (Some None # fs) i j fd buf = fd_loop fs (i + 1) j fd buf"
| "fd_loop (Some (Some path) # fs) i j fd buf =
     (if i > FD_NUM then Inr (j, fd, buf)
      else if j \<ge> FD_NUM then Inl OutOfBounds
      else fd_loop fs (i + 1) (j + 1) (fd[j := word_of_nat i]) (buf[j := take 63 path]))"

definition linx_get_fd_name :: "string option option list \<Rightarrow> 32 word list \<Rightarrow> string list \<Rightarrow> (32 word list \<times> string list) res" where
  "linx_get_fd_name files fd buf =
    res_bind (fd_loop files 0 0 fd buf) (\<lambda>(j, fd, buf). Inr (fd, if j = 0 then buf[0 := ''<NA>''] else buf))"

section \<open>Recording\<close>

definition free_space :: "32 word \<Rightarrow> kmod_ringbuffer_info \<Rightarrow> 32 word" where
  "free_space sz info =
    (if ri_tail info > ri_head info then ri_tail info - ri_head info - 1 else sz + ri_tail info - ri_head info - 1)"

definition ring_count :: "int \<Rightarrow> kmod_ringbuffer_ctx \<Rightarrow> kmod_ringbuffer_ctx" where
  "ring_count d ring = ring\<lparr>rc_preempt_count := rc_preempt_count ring + d\<rparr>"

text \<open>The free space, the size of the event, and the event with the descriptors of the task when these are asked for.\<close>

definition record_room ::
  "kmod_view \<Rightarrow> linx_kmod_consumer \<Rightarrow> event_header \<Rightarrow> 64 word list \<Rightarrow> (32 word \<times> 32 word \<times> event_header) res" where
  "record_room v c evt args =
    with_ring (\<lambda>info buf.
      res_bind
        (if cc_args_enable (lc_consumer_cfg c) \<noteq> 0
         then map_sum id (\<lambda>(ret, a). if ret < 0 then word_of_nat EVENT_HEADER_SIZE else word_of_nat EVENT_HEADER_SIZE + fa_arg_data_offset a)
                (linx_get_params (kw_user v) (kw_str v) (eh_type evt \<noteq> 0) (eh_syscall_nr evt) (zero_args args))
         else Inr (word_of_nat EVENT_HEADER_SIZE)) (\<lambda>event_size.
      res_bind
        (case kw_files v of
           Some files \<Rightarrow>
             (if cc_fds_enabel (lc_consumer_cfg c) \<noteq> 0
              then map_sum id (\<lambda>(fd, names). evt\<lparr>eh_fd_val := fd\<rparr>) (linx_get_fd_name files (eh_fd_val evt) (replicate FD_NUM []))
              else Inr evt)
         | None \<Rightarrow> Inr evt) (\<lambda>evt.
      Inr (free_space (rc_size (lc_ring c)) info, event_size, evt)))) (lc_ring c)"

text \<open>The copy of the header to the head of the ring and, behind the end, of what went over it to the start.\<close>

definition record_store :: "32 word \<Rightarrow> event_header \<Rightarrow> kmod_ringbuffer_ctx \<Rightarrow> (32 word \<times> kmod_ringbuffer_ctx) res" where
  "record_store event_size evt ring =
    with_ring (\<lambda>info buf.
      let head = ri_head info; next = head + event_size; buf = put (unat head) (header_bytes evt) buf
      in if unat head + EVENT_HEADER_SIZE > rc_alloc ring then Inl OutOfBounds
         else if next \<ge> rc_size ring then
           (if next > rc_size ring then
              (if unat next > rc_alloc ring then Inl OutOfBounds
               else Inr (next - rc_size ring, ring\<lparr>rc_buffer := Some (put 0 (fetch (unat (rc_size ring)) (unat (next - rc_size ring)) buf) buf)\<rparr>))
            else Inr (next - rc_size ring, ring\<lparr>rc_buffer := Some buf\<rparr>))
         else Inr (next, ring\<lparr>rc_buffer := Some buf\<rparr>)) ring"

definition upd_info :: "(kmod_ringbuffer_info \<Rightarrow> kmod_ringbuffer_info) \<Rightarrow> kmod_ringbuffer_ctx \<Rightarrow> kmod_ringbuffer_ctx" where
  "upd_info f ring = ring\<lparr>rc_ring_info := map_option f (rc_ring_info ring)\<rparr>"

definition record_publish :: "32 word \<Rightarrow> kmod_ringbuffer_ctx \<Rightarrow> kmod_ringbuffer_ctx" where
  "record_publish next ring = ring_count (- 1) (upd_info (\<lambda>i. i\<lparr>ri_n_evts := ri_n_evts i + 1, ri_head := next\<rparr>) ring)"

definition record_drop :: "kmod_ringbuffer_ctx \<Rightarrow> kmod_ringbuffer_ctx" where
  "record_drop ring = upd_info (\<lambda>i. i\<lparr>ri_n_drop_evts := ri_n_drop_evts i + 1\<rparr>) ring"

definition linx_record_event ::
  "kmod_view \<Rightarrow> linx_kmod_consumer \<Rightarrow> event_header \<Rightarrow> 64 word list \<Rightarrow> (int \<times> linx_kmod_consumer \<times> event_header) res" where
  "linx_record_event v c evt args =
    (let c = c\<lparr>lc_ring := ring_count 1 (lc_ring c)\<rparr>
     in if rc_preempt_count (lc_ring c) \<noteq> 1 then Inr (0, c\<lparr>lc_ring := ring_count (- 1) (lc_ring c)\<rparr>, evt)
        else res_bind (record_room v c evt args) (\<lambda>(free_space, event_size, evt).
          if free_space < event_size
          then Inr (0, c\<lparr>lc_ring := record_drop (ring_count (- 1) (lc_ring c))\<rparr>, evt\<lparr>eh_len := 0\<rparr>)
          else (let evt = evt\<lparr>eh_len := event_size\<rparr>
                in map_sum id (\<lambda>(next, ring). (1, c\<lparr>lc_ring := record_publish next ring\<rparr>, evt)) (record_store event_size evt (lc_ring c)))))"

section \<open>Reading\<close>

definition BUFFER_SIZE :: "32 word" where "BUFFER_SIZE = 32768"

text \<open>The reader's side: the mapping of \<^verbatim>\<open>msg_mmap_size\<close> bytes shows the ring twice, \<open>kd_next\<close> is the distance from \<^verbatim>\<open>msg_buffer\<close> to
  \<^verbatim>\<open>msg_next_event\<close>, \<open>kd_log\<close> the events given to \<^verbatim>\<open>linx_logs_write\<close> and \<^verbatim>\<open>linx_log_print\<close>.\<close>

record kmod_device =
  kd_mmap_size :: nat
  kd_next :: nat
  kd_log :: "event_header list"

definition mapped_read :: "kmod_device \<Rightarrow> nat \<Rightarrow> nat \<Rightarrow> kmod_ringbuffer_ctx \<Rightarrow> bytes res" where
  "mapped_read dev off n ring =
    with_ring (\<lambda>info buf.
      if off + n \<le> kd_mmap_size dev then Inr (map (\<lambda>i. buf (i mod unat (rc_size ring))) [off..<off + n]) else Inl OutOfBounds) ring"

definition linx_kmod_next :: "kmod_device \<Rightarrow> kmod_ringbuffer_ctx \<Rightarrow> (int \<times> kmod_device \<times> kmod_ringbuffer_ctx) res" where
  "linx_kmod_next dev ring =
    with_ring (\<lambda>ringinfo buf.
      if ri_head ringinfo \<noteq> ri_tail ringinfo then
        res_bind (mapped_read dev (kd_next dev + 28) 4 ring) (\<lambda>lenb.
          let event_size = word_of lenb :: 32 word
          in if event_size = 0 then Inr (- 1, dev, ring)
             else res_bind (mapped_read dev (kd_next dev) EVENT_HEADER_SIZE ring) (\<lambda>bs.
               let tail = ri_tail ringinfo + event_size; tail = (if tail > BUFFER_SIZE then tail - BUFFER_SIZE else tail)
               in Inr (0, dev\<lparr>kd_next := kd_next dev + unat event_size, kd_log := kd_log dev @ [header_of bs]\<rparr>,
                    upd_info (\<lambda>i. i\<lparr>ri_tail := tail\<rparr>) ring)))
      else Inr (- 1, dev, ring)) ring"

section \<open>Recorders and the reader\<close>

definition PAGE_SIZE :: nat where "PAGE_SIZE = 4096"

text \<open>When the second allocation fails the buffer is freed again; the caller frees the ring itself in both cases.\<close>

definition linx_init_ringbuffer :: "bool \<Rightarrow> bool \<Rightarrow> nat \<Rightarrow> kmod_ringbuffer_ctx \<Rightarrow> int \<times> kmod_ringbuffer_ctx" where
  "linx_init_ringbuffer ok_buffer ok_info ringlen ring =
    (if \<not> ok_buffer then (- 12, ring)
     else if \<not> ok_info then (- 12, ring)
     else (0, ring\<lparr>rc_buffer := Some (\<lambda>_. 0), rc_alloc := ringlen + 2 * PAGE_SIZE, rc_size := word_of_nat ringlen,
       rc_ring_info := Some \<lparr>ri_head = 0, ri_tail = 0, ri_n_evts = 0, ri_n_drop_evts = 0\<rparr>, rc_preempt_count := 0, rc_open := False\<rparr>))"

text \<open>Where a recorder stands: outside, between the two changes of the counter after it found the ring taken, and at the points at which the
  ring is observed. \<open>Dropping\<close> has left the counter and still counts the loss.\<close>

datatype recorder =
    Idle
  | Shut
  | Entered event_header
  | Room event_header "32 word" "32 word"
  | Stored event_header "32 word"
  | Dropping

record kmod_machine =
  mc_consumer :: linx_kmod_consumer
  mc_recs :: "recorder list"
  mc_dev :: kmod_device
  mc_sent :: "event_header list"

definition mc_ring :: "kmod_machine \<Rightarrow> kmod_ringbuffer_ctx" where
  "mc_ring s = lc_ring (mc_consumer s)"

definition move :: "nat \<Rightarrow> recorder \<Rightarrow> kmod_ringbuffer_ctx \<Rightarrow> kmod_machine \<Rightarrow> kmod_machine" where
  "move i r ring s = s\<lparr>mc_recs := (mc_recs s)[i := r], mc_consumer := (mc_consumer s)\<lparr>lc_ring := ring\<rparr>\<rparr>"

inductive kmod_step :: "kmod_machine \<Rightarrow> kmod_machine \<Rightarrow> bool" where
  enter: "i < length (mc_recs s) \<Longrightarrow> mc_recs s ! i = Idle \<Longrightarrow> header_ok h \<Longrightarrow>
    kmod_step s (move i (if rc_preempt_count (mc_ring s) + 1 = 1 then Entered h else Shut) (ring_count 1 (mc_ring s)) s)"
| leave: "i < length (mc_recs s) \<Longrightarrow> mc_recs s ! i = Shut \<Longrightarrow> kmod_step s (move i Idle (ring_count (- 1) (mc_ring s)) s)"
| room: "i < length (mc_recs s) \<Longrightarrow> mc_recs s ! i = Entered h \<Longrightarrow> record_room v (mc_consumer s) h args = Inr (free, sz, h') \<Longrightarrow>
    kmod_step s (move i (Room h' sz free) (mc_ring s) s)"
| full: "i < length (mc_recs s) \<Longrightarrow> mc_recs s ! i = Room h sz free \<Longrightarrow> free < sz \<Longrightarrow>
    kmod_step s (move i Dropping (ring_count (- 1) (mc_ring s)) s)"
| drop: "i < length (mc_recs s) \<Longrightarrow> mc_recs s ! i = Dropping \<Longrightarrow> kmod_step s (move i Idle (record_drop (mc_ring s)) s)"
| store: "i < length (mc_recs s) \<Longrightarrow> mc_recs s ! i = Room h sz free \<Longrightarrow> \<not> free < sz \<Longrightarrow>
    record_store sz (h\<lparr>eh_len := sz\<rparr>) (mc_ring s) = Inr (next, ring) \<Longrightarrow>
    kmod_step s (move i (Stored (h\<lparr>eh_len := sz\<rparr>) next) ring s)"
| publish: "i < length (mc_recs s) \<Longrightarrow> mc_recs s ! i = Stored h next \<Longrightarrow>
    kmod_step s ((move i Idle (record_publish next (mc_ring s)) s)\<lparr>mc_sent := mc_sent s @ [h]\<rparr>)"
| read: "linx_kmod_next (mc_dev s) (mc_ring s) = Inr (ret, dev, ring) \<Longrightarrow>
    kmod_step s (s\<lparr>mc_dev := dev, mc_consumer := (mc_consumer s)\<lparr>lc_ring := ring\<rparr>\<rparr>)"

inductive_cases kmod_stepE: "kmod_step s s'"

definition fresh_ring :: kmod_ringbuffer_ctx where
  "fresh_ring = snd (linx_init_ringbuffer True True 32768
     \<lparr>rc_ring_info = None, rc_buffer = None, rc_alloc = 0, rc_size = 0, rc_preempt_count = 0, rc_open = False\<rparr>)"

definition fresh_consumer :: "nat \<Rightarrow> linx_kmod_consumer" where
  "fresh_consumer task = \<lparr>lc_consumer_id = task, lc_ring = fresh_ring,
     lc_consumer_cfg = \<lparr>cc_cap_enable = 0, cc_filter_enable = 0, cc_args_enable = 0, cc_fds_enabel = 0, cc_drop_enabel = 0\<rparr>,
     lc_syscall_mask = replicate 512 False\<rparr>"

text \<open>A consumer after \<^verbatim>\<open>linx_kmod_open\<close> and a reader after \<^verbatim>\<open>linx_kmod_init\<close>, with \<open>n\<close> processors that may record.\<close>

definition kmod_start :: "nat \<Rightarrow> kmod_machine" where
  "kmod_start n = \<lparr>mc_consumer = fresh_consumer 0, mc_recs = replicate n Idle,
     mc_dev = \<lparr>kd_mmap_size = 65536, kd_next = 0, kd_log = []\<rparr>, mc_sent = []\<rparr>"

definition kmod_reachable :: "nat \<Rightarrow> kmod_machine \<Rightarrow> bool" where
  "kmod_reachable n s \<longleftrightarrow> kmod_step\<^sup>*\<^sup>* (kmod_start n) s"

section \<open>Positions in the ring\<close>

lemma ring_pos: "j \<le> 496 \<Longrightarrow> (x + j) mod 32768 = (if x mod 32768 + j < 32768 then x mod 32768 + j else x mod 32768 + j - (32768 :: nat))"
proof -
  assume j: "j \<le> 496"
  have "(x + j) mod 32768 = (x mod 32768 + j) mod 32768" by (simp add: mod_add_left_eq)
  moreover have "x mod 32768 + j < 33264" using j mod_less_divisor [of 32768 x] by linarith
  ultimately show ?thesis by (auto simp: le_mod_geq)
qed

definition holds_at :: "(nat \<Rightarrow> 8 word) \<Rightarrow> nat \<Rightarrow> bytes \<Rightarrow> bool" where
  "holds_at buf x bs \<longleftrightarrow> (\<forall>j < length bs. buf ((x + j) mod 32768) = bs ! j)"

lemma ring_apart:
  fixes a b :: nat
  assumes "b < a" "a < b + 32768"
  shows "a mod 32768 \<noteq> b mod 32768"
proof
  assume "a mod 32768 = b mod 32768"
  then have "32768 dvd a - b" using assms(1) mod_eq_dvd_iff_nat [of b a 32768] by simp
  with assms show False using nat_dvd_not_less [of "a - b" 32768] by linarith
qed

definition ring_write :: "nat \<Rightarrow> bytes \<Rightarrow> (nat \<Rightarrow> 8 word) \<Rightarrow> nat \<Rightarrow> 8 word" where
  "ring_write h bs buf =
    (let buf = put h bs buf in if h + length bs > 32768 then put 0 (fetch 32768 (h + length bs - 32768) buf) buf else buf)"

lemma ring_write_at:
  assumes "h < 32768" "length bs = 496" "p < 32768"
  shows "ring_write h bs buf p =
    (if h \<le> p \<and> p < h + 496 then bs ! (p - h) else if p + 32768 < h + 496 then bs ! (p + 32768 - h) else buf p)"
proof (cases "h + 496 > 32768")
  case True
  then have "p < h + 496 - 32768 \<longleftrightarrow> p + 32768 < h + 496" by linarith
  with True assms show ?thesis by (auto simp: ring_write_def put_def fetch_nth Let_def add.commute)
qed (use assms in \<open>simp add: ring_write_def put_def\<close>)

lemma ring_write_same:
  assumes "length bs = 496"
  shows "holds_at (ring_write (x mod 32768) bs buf) x bs"
  unfolding holds_at_def
proof (intro allI impI)
  fix j
  assume j: "j < length bs"
  have q: "x mod 32768 < 32768" by simp
  show "ring_write (x mod 32768) bs buf ((x + j) mod 32768) = bs ! j"
  proof (cases "x mod 32768 + j < 32768")
    case True
    with j assms q show ?thesis by (simp add: ring_pos ring_write_at)
  next
    case False
    then have p: "(x + j) mod 32768 = x mod 32768 + j - 32768" using j assms by (simp add: ring_pos)
    have "x mod 32768 + j - 32768 < 32768" "\<not> x mod 32768 \<le> x mod 32768 + j - 32768"
      "x mod 32768 + j - 32768 + 32768 = x mod 32768 + j" using False j assms q by linarith+
    with j assms q show ?thesis unfolding p by (subst ring_write_at) auto
  qed
qed

lemma ring_write_other:
  assumes "length bs = 496" "holds_at buf y cs" "y + length cs \<le> x" "x + 496 \<le> y + 32768"
  shows "holds_at (ring_write (x mod 32768) bs buf) y cs"
  unfolding holds_at_def
proof (intro allI impI)
  fix i
  assume i: "i < length cs"
  let ?p = "(y + i) mod 32768" and ?q = "x mod 32768"
  have apart: "(x + j) mod 32768 \<noteq> ?p" if "j < 496" for j
    using ring_apart [of "y + i" "x + j"] i assms(3,4) that by linarith
  have lt: "?q < 32768" "?p < 32768" by simp_all
  have "\<not> (?q \<le> ?p \<and> ?p < ?q + 496)"
  proof
    assume *: "?q \<le> ?p \<and> ?p < ?q + 496"
    then have "?p - ?q < 496" "?q + (?p - ?q) = ?p" by linarith+
    then show False using apart [of "?p - ?q"] ring_pos [of "?p - ?q" x] lt by simp
  qed
  moreover have "\<not> ?p + 32768 < ?q + 496"
  proof
    assume *: "?p + 32768 < ?q + 496"
    then have "?q + (?p + 32768 - ?q) = ?p + 32768" "?p + 32768 - ?q < 496" using lt by linarith+
    then show False using apart [of "?p + 32768 - ?q"] ring_pos [of "?p + 32768 - ?q" x] lt by simp
  qed
  ultimately have "ring_write ?q bs buf ?p = buf ?p" by (simp only: ring_write_at [OF lt(1) assms(1) lt(2)] if_False)
  with assms(2) i show "ring_write ?q bs buf ?p = cs ! i" by (simp add: holds_at_def)
qed

section \<open>What the ring holds\<close>

fun inside :: "recorder \<Rightarrow> bool" where
  "inside Idle = False"
| "inside Dropping = False"
| "inside _ = True"

fun busy :: "recorder \<Rightarrow> bool" where
  "busy Idle = False"
| "busy Dropping = False"
| "busy Shut = False"
| "busy _ = True"

text \<open>\<open>w\<close> events were recorded and \<open>r\<close> read.\<close>

fun recorder_ok :: "(nat \<Rightarrow> 8 word) \<Rightarrow> nat \<Rightarrow> nat \<Rightarrow> recorder \<Rightarrow> bool" where
  "recorder_ok buf w r (Entered h) = header_ok h"
| "recorder_ok buf w r (Room h sz free) = (header_ok h \<and> sz = 496 \<and> unat free + 496 * (w - r) < 32768)"
| "recorder_ok buf w r (Stored h next) =
     (header_ok h \<and> eh_len h = 496 \<and> next = word_of_nat (496 * (w + 1) mod 32768) \<and> 496 * (w + 1 - r) < 32768 \<and>
      holds_at buf (496 * w) (header_bytes h))"
| "recorder_ok buf w r _ = True"

definition positions_ok :: "kmod_ringbuffer_info \<Rightarrow> nat \<Rightarrow> nat \<Rightarrow> bool" where
  "positions_ok info w r \<longleftrightarrow> ri_head info = word_of_nat (496 * w mod 32768) \<and> ri_tail info = word_of_nat (496 * r mod 32768) \<and>
     ri_n_evts info = word_of_nat w \<and> r \<le> w \<and> 496 * (w - r) < 32768 \<and> r \<le> 132"

definition ring_of :: "kmod_ringbuffer_ctx \<Rightarrow> kmod_ringbuffer_info \<Rightarrow> (nat \<Rightarrow> 8 word) \<Rightarrow> recorder list \<Rightarrow> bool" where
  "ring_of ring info buf recs \<longleftrightarrow> rc_ring_info ring = Some info \<and> rc_buffer ring = Some buf \<and> rc_size ring = 32768 \<and> rc_alloc ring = 40960 \<and>
     rc_preempt_count ring = int (length (filter inside recs)) \<and>
     (\<forall>i < length recs. \<forall>j < length recs. busy (recs ! i) \<longrightarrow> busy (recs ! j) \<longrightarrow> i = j)"

definition plain_config :: "linx_kmod_consumer \<Rightarrow> bool" where
  "plain_config c \<longleftrightarrow> cc_args_enable (lc_consumer_cfg c) = 0 \<and> cc_fds_enabel (lc_consumer_cfg c) = 0"

definition inv_at :: "kmod_ringbuffer_info \<Rightarrow> (nat \<Rightarrow> 8 word) \<Rightarrow> kmod_machine \<Rightarrow> bool" where
  "inv_at info buf s \<longleftrightarrow> (let w = length (mc_sent s); r = length (kd_log (mc_dev s)) in
     plain_config (mc_consumer s) \<and> ring_of (mc_ring s) info buf (mc_recs s) \<and> positions_ok info w r \<and>
     kd_mmap_size (mc_dev s) = 65536 \<and> kd_next (mc_dev s) = 496 * r \<and> kd_log (mc_dev s) = take r (mc_sent s) \<and>
     (\<forall>h \<in> set (mc_sent s). header_ok h \<and> eh_len h = 496) \<and>
     (\<forall>k. r \<le> k \<longrightarrow> k < w \<longrightarrow> holds_at buf (496 * k) (header_bytes (mc_sent s ! k))) \<and>
     (\<forall>i < length (mc_recs s). recorder_ok buf w r (mc_recs s ! i)))"

definition kmod_inv :: "kmod_machine \<Rightarrow> bool" where
  "kmod_inv s \<longleftrightarrow> (\<exists>info buf. inv_at info buf s)"

lemma next_event: "496 * (n + 1) = 496 * n + (496 :: nat)"
  by simp

lemma mod_sum: "t < n \<Longrightarrow> d < n \<Longrightarrow> (t + d) mod n = (if t + d < n then t + d else t + d - (n :: nat))"
  by (simp add: le_mod_geq)

lemma free_space_word:
  assumes "h = (t + d) mod 32768" "t < 32768" "d < 32768" "ri_head info = word_of_nat h" "ri_tail info = word_of_nat t"
  shows "unat (free_space 32768 info) = 32767 - d"
proof -
  have u: "unat (word_of_nat n :: 32 word) = n" if "n < 65536" for n using that by (simp add: unat_of_nat)
  have h: "h = (if t + d < 32768 then t + d else t + d - 32768)" unfolding assms(1) by (rule mod_sum [OF assms(2,3)])
  have "h < 32768" using assms(1) by simp
  then have less: "ri_tail info > ri_head info \<longleftrightarrow> t > h" using assms(2) by (simp add: assms(4,5) word_less_nat_alt u)
  have eq: "free_space 32768 info = word_of_nat (32767 - d)"
  proof (cases "t + d < 32768")
    case True
    then have "\<not> t > h" "32768 + t - h - 1 = 32767 - d" "h \<le> 32768 + t" using h by simp_all
    moreover from True have "free_space 32768 info = word_of_nat (32768 + t - h - 1)"
      using less h by (simp add: free_space_def assms(4,5) of_nat_diff)
    ultimately show ?thesis by simp
  next
    case False
    then have "t > h" "t - h - 1 = 32767 - d" using h assms(2,3) by simp_all
    moreover have "free_space 32768 info = word_of_nat (t - h - 1)"
      using less \<open>t > h\<close> by (simp add: free_space_def assms(4,5) of_nat_diff)
    ultimately show ?thesis by simp
  qed
  show ?thesis unfolding eq by (rule u) simp
qed

lemma free_space_value:
  assumes "positions_ok info w r"
  shows "unat (free_space 32768 info) = 32767 - 496 * (w - r)"
proof -
  have d: "496 * (w - r) < 32768" "496 * w = 496 * r + 496 * (w - r)" using assms by (simp_all add: positions_ok_def algebra_simps)
  show ?thesis
  proof (rule free_space_word)
    show "496 * w mod 32768 = (496 * r mod 32768 + 496 * (w - r)) mod 32768" unfolding d(2) by (simp only: mod_add_left_eq)
  qed (use assms d(1) in \<open>simp_all add: positions_ok_def\<close>)
qed

section \<open>Every step keeps the invariant\<close>

lemma busy_inside: "busy r \<Longrightarrow> inside r"
  by (cases r) simp_all

lemma ring_of_move:
  assumes "ring_of ring info buf recs" "i < length recs"
    and "rc_ring_info ring' = Some info'" "rc_buffer ring' = Some buf'" "rc_size ring' = 32768" "rc_alloc ring' = 40960"
    and "rc_preempt_count ring' = rc_preempt_count ring - of_bool (inside (recs ! i)) + of_bool (inside x)"
    and "busy x \<Longrightarrow> busy (recs ! i) \<or> rc_preempt_count ring = 0"
  shows "ring_of ring' info' buf' (recs[i := x])"
proof -
  have "\<not> inside y" if "rc_preempt_count ring = 0" "y \<in> set recs" for y
    using that assms(1) by (auto simp: ring_of_def filter_empty_conv)
  then have none: "\<not> busy (recs ! j)" if "rc_preempt_count ring = 0" "j < length recs" for j using that busy_inside by fastforce
  have one: "j = k" if "j < length recs" "k < length recs" "busy (recs ! j)" "busy (recs ! k)" for j k
    using assms(1) that by (simp add: ring_of_def)
  have "j = k" if "j < length recs" "k < length recs" "busy (recs[i := x] ! j)" "busy (recs[i := x] ! k)" for j k
    using that one [of j k] one [of i j] one [of i k] none [of j] none [of k] assms(2,8)
    by (auto simp: nth_list_update split: if_splits)
  then show ?thesis using assms by (simp add: ring_of_def filter_update_length)
qed

lemma inv_at_move:
  assumes "inv_at info buf s" "i < length (mc_recs s)"
    and "rc_ring_info ring' = Some info'" "positions_ok info' (length (mc_sent s)) (length (kd_log (mc_dev s)))"
    and "rc_buffer ring' = Some buf" "rc_size ring' = 32768" "rc_alloc ring' = 40960"
    and "rc_preempt_count ring' = rc_preempt_count (mc_ring s) - of_bool (inside (mc_recs s ! i)) + of_bool (inside x)"
    and "busy x \<Longrightarrow> busy (mc_recs s ! i) \<or> rc_preempt_count (mc_ring s) = 0"
    and "recorder_ok buf (length (mc_sent s)) (length (kd_log (mc_dev s))) x"
  shows "inv_at info' buf (move i x ring' s)"
proof -
  have "ring_of (mc_ring s) info buf (mc_recs s)" using assms(1) by (simp add: inv_at_def Let_def)
  from ring_of_move [OF this assms(2,3,5-9)] have "ring_of ring' info' buf ((mc_recs s)[i := x])" .
  with assms(1,2,4,10) show ?thesis
    by (auto simp: inv_at_def move_def mc_ring_def Let_def plain_config_def nth_list_update)
qed

lemma inv_at_ring:
  assumes "inv_at info buf s"
  shows "rc_ring_info (mc_ring s) = Some info" "rc_buffer (mc_ring s) = Some buf" "rc_size (mc_ring s) = 32768" "rc_alloc (mc_ring s) = 40960"
    "positions_ok info (length (mc_sent s)) (length (kd_log (mc_dev s)))" "plain_config (mc_consumer s)"
  using assms by (simp_all add: inv_at_def ring_of_def Let_def)

lemma inv_at_recorder:
  "inv_at info buf s \<Longrightarrow> i < length (mc_recs s) \<Longrightarrow> recorder_ok buf (length (mc_sent s)) (length (kd_log (mc_dev s))) (mc_recs s ! i)"
  by (simp add: inv_at_def Let_def)

lemma record_room_plain:
  assumes "inv_at info buf s" "record_room v (mc_consumer s) h args = Inr (free, sz, h')"
  shows "h' = h \<and> sz = 496 \<and> free = free_space 32768 info"
  using assms(2) inv_at_ring [OF assms(1)]
  by (auto simp: record_room_def with_ring_def plain_config_def mc_ring_def EVENT_HEADER_SIZE_def split: option.splits)

lemma record_store_effect:
  assumes "rc_ring_info ring = Some info" "rc_buffer ring = Some buf" "rc_size ring = 32768" "rc_alloc ring = 40960"
    and "ri_head info = word_of_nat q" "q < 32768" "header_ok h"
  shows "record_store 496 h ring =
    Inr (word_of_nat ((q + 496) mod 32768), ring\<lparr>rc_buffer := Some (ring_write q (header_bytes h) buf)\<rparr>)"
proof -
  have u: "unat (word_of_nat n :: 32 word) = n" if "n < 65536" for n using that by (simp add: unat_of_nat)
  have nxt: "word_of_nat q + 496 = (word_of_nat (q + 496) :: 32 word)" by simp
  have q: "unat (word_of_nat q :: 32 word) = q" "unat (word_of_nat (q + 496) :: 32 word) = q + 496" using assms(6) by (simp_all only: u)
  have le: "(32768 :: 32 word) \<le> word_of_nat (q + 496) \<longleftrightarrow> 32768 \<le> q + 496" "(32768 :: 32 word) < word_of_nat (q + 496) \<longleftrightarrow> 32768 < q + 496"
    using q(2) by (simp_all only: word_le_nat_alt word_less_nat_alt) simp_all
  have wrap: "word_of_nat (q + 496) - 32768 = (word_of_nat (q + 496 - 32768) :: 32 word)" if "32768 \<le> q + 496" using that by (simp add: of_nat_diff)
  have uw: "unat (word_of_nat (q + 496 - 32768) :: 32 word) = q + 496 - 32768" using assms(6) by (simp only: u)
  note len = header_bytes_length [OF assms(7)]
  consider "q + 496 < 32768" | "q + 496 = 32768" | "32768 < q + 496" by linarith
  then show ?thesis
  proof cases
    case 1
    then show ?thesis
      using assms(1-4) by (simp add: record_store_def with_ring_def assms(5) q nxt le Let_def EVENT_HEADER_SIZE_def ring_write_def len del: of_nat_add)
  next
    case 2
    then have "q = 32272" by simp
    then show ?thesis
      using assms(1-4) by (simp add: record_store_def with_ring_def assms(5) Let_def EVENT_HEADER_SIZE_def ring_write_def len)
  next
    case 3
    then have "(q + 496) mod 32768 = q + 496 - 32768" using assms(6) by (simp add: le_mod_geq)
    moreover have "unat (word_of_nat q - 32272 :: 32 word) = q - 32272" using uw wrap 3 by (simp add: of_nat_diff)
    ultimately show ?thesis using 3 assms(1-4,6)
      by (simp add: record_store_def with_ring_def assms(5) q nxt le wrap uw Let_def EVENT_HEADER_SIZE_def ring_write_def len del: of_nat_add)
  qed
qed

lemma others_not_busy:
  assumes "inv_at info buf s" "i < length (mc_recs s)" "busy (mc_recs s ! i)" "j < length (mc_recs s)" "j \<noteq> i"
  shows "recorder_ok buf' w' r' (mc_recs s ! j)"
proof -
  have "\<not> busy (mc_recs s ! j)" using assms by (auto simp: inv_at_def ring_of_def Let_def)
  then show ?thesis by (cases "mc_recs s ! j") simp_all
qed

lemma inv_at_update_others:
  assumes "inv_at info buf s" "i < length (mc_recs s)" "busy (mc_recs s ! i)" "recorder_ok buf' w' r' x"
  shows "\<forall>j < length (mc_recs s). recorder_ok buf' w' r' ((mc_recs s)[i := x] ! j)"
proof (intro allI impI)
  fix j
  assume "j < length (mc_recs s)"
  then show "recorder_ok buf' w' r' ((mc_recs s)[i := x] ! j)"
    using others_not_busy [OF assms(1-3)] assms(4) by (cases "j = i") simp_all
qed

lemma inv_at_store:
  assumes "inv_at info buf s" "i < length (mc_recs s)" "mc_recs s ! i = Room h sz free" "\<not> free < sz"
  shows "\<exists>next ring. record_store sz (h\<lparr>eh_len := sz\<rparr>) (mc_ring s) = Inr (next, ring) \<and>
    kmod_inv (move i (Stored (h\<lparr>eh_len := sz\<rparr>) next) ring s)"
proof -
  let ?w = "length (mc_sent s)" and ?r = "length (kd_log (mc_dev s))" and ?h = "h\<lparr>eh_len := 496\<rparr>"
  note ring = inv_at_ring [OF assms(1)]
  have room: "header_ok h" "sz = 496" "unat free + 496 * (?w - ?r) < 32768" using inv_at_recorder [OF assms(1,2)] assms(3) by simp_all
  then have ok: "header_ok ?h" "496 \<le> unat free" using assms(4) by (simp_all add: header_ok_def word_less_nat_alt)
  have pos: "ri_head info = word_of_nat (496 * ?w mod 32768)" "?r \<le> ?w" using ring(5) by (simp_all add: positions_ok_def)
  have space: "496 * (?w + 1 - ?r) < 32768" using room(3) ok(2) pos(2) by (simp add: Suc_diff_le)
  have len: "length (header_bytes ?h) = 496" using header_bytes_length [OF ok(1)] .
  let ?buf = "ring_write (496 * ?w mod 32768) (header_bytes ?h) buf"
  let ?ring = "(mc_ring s)\<lparr>rc_buffer := Some ?buf\<rparr>"
  have nxt: "(496 * ?w mod 32768 + 496) mod 32768 = 496 * (?w + 1) mod 32768" by (simp only: next_event mod_add_left_eq)
  have st: "record_store sz (h\<lparr>eh_len := sz\<rparr>) (mc_ring s) = Inr (word_of_nat (496 * (?w + 1) mod 32768), ?ring)"
    using record_store_effect [OF ring(1-4) pos(1) _ ok(1)] room(2) by (simp add: nxt)
  have "holds_at ?buf (496 * k) (header_bytes (mc_sent s ! k))" if "?r \<le> k" "k < ?w" for k
  proof (rule ring_write_other [OF len])
    show "holds_at buf (496 * k) (header_bytes (mc_sent s ! k))" using assms(1) that by (simp add: inv_at_def Let_def)
    have "header_ok (mc_sent s ! k)" using assms(1) that by (simp add: inv_at_def Let_def)
    then show "496 * k + length (header_bytes (mc_sent s ! k)) \<le> 496 * ?w" using that by (simp add: header_bytes_length)
    show "496 * ?w + 496 \<le> 496 * k + 32768" using space that by (simp add: algebra_simps)
  qed
  moreover have "ring_of ?ring info ?buf ((mc_recs s)[i := Stored ?h (word_of_nat (496 * (?w + 1) mod 32768))])"
    using ring ring_of_move [of "mc_ring s" info buf "mc_recs s" i ?ring info ?buf] assms(1-3) by (simp add: inv_at_def Let_def)
  moreover have "\<forall>j < length (mc_recs s). recorder_ok ?buf ?w ?r ((mc_recs s)[i := Stored ?h (word_of_nat (496 * (?w + 1) mod 32768))] ! j)"
    using inv_at_update_others [OF assms(1,2)] assms(3) ok(1) space ring_write_same [OF len] by simp
  ultimately have "inv_at info ?buf (move i (Stored ?h (word_of_nat (496 * (?w + 1) mod 32768))) ?ring s)"
    using assms(1) by (simp add: inv_at_def move_def mc_ring_def Let_def plain_config_def)
  then show ?thesis using st room(2) by (auto simp: kmod_inv_def)
qed

lemma inv_at_publish:
  assumes "inv_at info buf s" "i < length (mc_recs s)" "mc_recs s ! i = Stored h next"
  shows "kmod_inv ((move i Idle (record_publish next (mc_ring s)) s)\<lparr>mc_sent := mc_sent s @ [h]\<rparr>)"
proof -
  let ?w = "length (mc_sent s)" and ?r = "length (kd_log (mc_dev s))"
  let ?info = "info\<lparr>ri_n_evts := ri_n_evts info + 1, ri_head := next\<rparr>" and ?ring = "record_publish next (mc_ring s)"
  note ring = inv_at_ring [OF assms(1)]
  have st: "header_ok h" "eh_len h = 496" "next = word_of_nat (496 * (?w + 1) mod 32768)" "496 * (?w + 1 - ?r) < 32768"
    "holds_at buf (496 * ?w) (header_bytes h)" using inv_at_recorder [OF assms(1,2)] assms(3) by simp_all
  have "positions_ok ?info (Suc ?w) ?r" using ring(5) st(3,4) by (simp add: positions_ok_def)
  moreover have "ring_of ?ring ?info buf ((mc_recs s)[i := Idle])"
    using ring ring_of_move [of "mc_ring s" info buf "mc_recs s" i ?ring ?info buf] assms
    by (simp add: inv_at_def Let_def record_publish_def ring_count_def upd_info_def)
  moreover have "\<forall>j < length (mc_recs s). recorder_ok buf (Suc ?w) ?r ((mc_recs s)[i := Idle] ! j)"
    using inv_at_update_others [OF assms(1,2)] assms(3) by simp
  moreover have "holds_at buf (496 * k) (header_bytes ((mc_sent s @ [h]) ! k))" if "?r \<le> k" "k < Suc ?w" for k
    using assms(1) st(5) that by (cases "k = ?w") (simp_all add: inv_at_def Let_def nth_append)
  ultimately have "inv_at ?info buf ((move i Idle ?ring s)\<lparr>mc_sent := mc_sent s @ [h]\<rparr>)"
    using assms(1) st(1,2) ring(5) by (simp add: inv_at_def move_def mc_ring_def Let_def plain_config_def positions_ok_def)
  then show ?thesis by (auto simp: kmod_inv_def)
qed

lemma ring_empty_iff:
  assumes "positions_ok info w r"
  shows "ri_head info = ri_tail info \<longleftrightarrow> w = r"
proof -
  have u: "unat (word_of_nat (n mod 32768) :: 32 word) = n mod 32768" for n by (simp add: unat_of_nat)
  have p: "ri_head info = word_of_nat (496 * w mod 32768)" "ri_tail info = word_of_nat (496 * r mod 32768)" "r \<le> w" "496 * (w - r) < 32768"
    using assms by (simp_all add: positions_ok_def)
  have "496 * w mod 32768 \<noteq> 496 * r mod 32768" if "r < w"
    using ring_apart [of "496 * r" "496 * w"] that p(4) by (simp add: right_diff_distrib' )
  then have "ri_head info \<noteq> ri_tail info" if "r < w" using that p(1,2) u by metis
  then show ?thesis using p by fastforce
qed

lemma mapped_read_event:
  assumes "with_ring (\<lambda>i b. Inr (i, b)) ring = Inr (info, buf)" "rc_size ring = 32768" "off + n \<le> kd_mmap_size dev"
    and "holds_at buf x bs" "off = x + k" "k + n \<le> length bs"
  shows "mapped_read dev off n ring = Inr (take n (drop k bs))"
proof -
  have "map (\<lambda>i. buf (i mod 32768)) [off..<off + n] = take n (drop k bs)"
    using assms(4-6) by (intro nth_equalityI) (simp_all add: holds_at_def add.assoc)
  with assms(1-3) show ?thesis by (auto simp: mapped_read_def with_ring_def split: option.splits)
qed

lemma header_len_bytes: "header_ok h \<Longrightarrow> take 4 (drop 28 (header_bytes h)) = word_bytes (eh_len h)"
proof -
  let ?f = "[word_bytes (eh_ts h), word_bytes (eh_type h), word_bytes (eh_syscall_nr h), word_bytes (eh_pid h), word_bytes (eh_tid h), word_bytes (eh_user h)]"
  obtain rest where "header_bytes h = concat ?f @ word_bytes (eh_len h) @ rest" by (simp add: header_bytes_def header_fields_def)
  moreover have "length (concat ?f) = 28" "length (word_bytes (eh_len h)) = 4" by (simp_all add: word_bytes_def)
  ultimately show ?thesis by simp
qed

lemma tail_advance:
  assumes "r < 132"
  shows "(let tail = word_of_nat (496 * r mod 32768) + 496; tail = (if tail > BUFFER_SIZE then tail - BUFFER_SIZE else tail) in tail) =
    (word_of_nat (496 * (r + 1) mod 32768) :: 32 word)"
proof -
  let ?q = "496 * r mod 32768"
  have u: "unat (word_of_nat n :: 32 word) = n" if "n < 65536" for n using that by (simp add: unat_of_nat)
  have q: "?q < 32768" by simp
  have sum: "word_of_nat ?q + 496 = (word_of_nat (?q + 496) :: 32 word)" by simp
  have gt: "(word_of_nat (?q + 496) :: 32 word) > BUFFER_SIZE \<longleftrightarrow> ?q + 496 > 32768"
    using u [of "?q + 496"] q by (simp only: word_less_nat_alt BUFFER_SIZE_def) simp
  have pos: "496 * (r + 1) mod 32768 = (if ?q + 496 < 32768 then ?q + 496 else ?q + 496 - 32768)"
    unfolding next_event by (rule ring_pos) simp
  have ne: "?q + 496 \<noteq> 32768"
  proof
    assume "?q + 496 = 32768"
    then have "496 * (r + 1) mod 32768 = 0" using pos by simp
    then have "32768 dvd 496 * (r + 1)" by (simp add: dvd_eq_mod_eq_0)
    then have "16 * 2048 dvd 16 * (31 * (r + 1))" by (simp add: mult.assoc)
    then have "2048 dvd 31 * (r + 1)" using nat_mult_dvd_cancel1 [of 16 2048 "31 * (r + 1)"] by simp
    moreover have "coprime (2048 :: nat) 31" by (simp add: coprime_iff_gcd_eq_1 gcd_nat.simps)
    ultimately have "2048 dvd r + 1" using coprime_dvd_mult_right_iff by blast
    with assms show False using dvd_imp_le [of 2048 "r + 1"] by simp
  qed
  show ?thesis
  proof (cases "?q + 496 < 32768")
    case True
    then show ?thesis unfolding Let_def sum using gt pos by simp
  next
    case False
    then have "?q + 496 > 32768" using ne by simp
    with gt pos show ?thesis unfolding Let_def sum by (simp add: BUFFER_SIZE_def of_nat_diff)
  qed
qed

lemma reader_outcome:
  assumes "inv_at info buf s"
  shows "linx_kmod_next (mc_dev s) (mc_ring s) =
    (let w = length (mc_sent s); r = length (kd_log (mc_dev s)) in
     if w = r then Inr (- 1, mc_dev s, mc_ring s)
     else if r = 132 then Inl OutOfBounds
     else Inr (0, (mc_dev s)\<lparr>kd_next := 496 * (r + 1), kd_log := kd_log (mc_dev s) @ [mc_sent s ! r]\<rparr>,
       upd_info (\<lambda>i. i\<lparr>ri_tail := word_of_nat (496 * (r + 1) mod 32768)\<rparr>) (mc_ring s)))"
proof -
  let ?w = "length (mc_sent s)" and ?r = "length (kd_log (mc_dev s))" and ?dev = "mc_dev s"
  note ring = inv_at_ring [OF assms]
  have both: "with_ring (\<lambda>i b. Inr (i, b)) (mc_ring s) = Inr (info, buf)" using ring by (simp add: with_ring_def)
  have dev: "kd_mmap_size ?dev = 65536" "kd_next ?dev = 496 * ?r" "?r \<le> ?w" "?r \<le> 132"
    using assms ring(5) by (simp_all add: inv_at_def Let_def positions_ok_def)
  show ?thesis
  proof (cases "?w = ?r")
    case True
    then show ?thesis using ring ring_empty_iff [OF ring(5)] by (simp add: linx_kmod_next_def with_ring_def)
  next
    case False
    let ?h = "mc_sent s ! ?r"
    have ok: "header_ok ?h" "eh_len ?h = 496" "holds_at buf (496 * ?r) (header_bytes ?h)"
      using assms False dev(3) by (simp_all add: inv_at_def Let_def)
    note len = header_bytes_length [OF ok(1)]
    have "mapped_read ?dev (kd_next ?dev + 28) 4 (mc_ring s) = Inr (take 4 (drop 28 (header_bytes ?h)))"
      using mapped_read_event [OF both ring(3) _ ok(3), of "kd_next ?dev + 28" 4 ?dev 28] dev len by simp
    then have lenb: "mapped_read ?dev (kd_next ?dev + 28) 4 (mc_ring s) = Inr (word_bytes (496 :: 32 word))"
      using header_len_bytes [OF ok(1)] ok(2) by simp
    have ne: "ri_head info \<noteq> ri_tail info" using ring_empty_iff [OF ring(5)] False by simp
    show ?thesis
    proof (cases "?r = 132")
      case True
      then have "mapped_read ?dev (kd_next ?dev) EVENT_HEADER_SIZE (mc_ring s) = Inl OutOfBounds"
        using ring dev by (simp add: mapped_read_def with_ring_def EVENT_HEADER_SIZE_def)
      with True False ring ne lenb show ?thesis by (simp add: linx_kmod_next_def with_ring_def Let_def)
    next
      case r: False
      then have "?r < 132" using dev(4) by simp
      then have "496 * ?r + 496 \<le> 65536" by simp
      then have "mapped_read ?dev (kd_next ?dev) 496 (mc_ring s) = Inr (take 496 (drop 0 (header_bytes ?h)))"
        using mapped_read_event [OF both ring(3) _ ok(3), of "kd_next ?dev" 496 ?dev 0] dev len by simp
      then have "mapped_read ?dev (kd_next ?dev) 496 (mc_ring s) = Inr (header_bytes ?h)" using len by simp
      moreover have "ri_tail info = word_of_nat (496 * ?r mod 32768)" using ring(5) by (simp add: positions_ok_def)
      ultimately show ?thesis
        using False r ring ne lenb dev(2) tail_advance [OF \<open>?r < 132\<close>] header_roundtrip [OF ok(1)]
        by (simp add: linx_kmod_next_def with_ring_def EVENT_HEADER_SIZE_def Let_def)
    qed
  qed
qed

lemma recorder_ok_read:
  assumes "recorder_ok buf w r x" "r < w"
  shows "recorder_ok buf w (Suc r) x"
proof (cases x)
  case (Room h sz free)
  have "496 * (w - Suc r) \<le> 496 * (w - r)" by simp
  with assms(1) Room show ?thesis by (simp del: mult_le_cancel1)
next
  case (Stored h nx)
  have "496 * (w + 1 - Suc r) \<le> 496 * (w + 1 - r)" by simp
  with assms(1) Stored show ?thesis by (auto simp del: mult_le_cancel1)
qed (use assms in simp_all)

lemma inv_at_read:
  assumes "inv_at info buf s" "linx_kmod_next (mc_dev s) (mc_ring s) = Inr (ret, dev, ring)"
  shows "kmod_inv (s\<lparr>mc_dev := dev, mc_consumer := (mc_consumer s)\<lparr>lc_ring := ring\<rparr>\<rparr>)"
proof -
  let ?w = "length (mc_sent s)" and ?r = "length (kd_log (mc_dev s))"
  note ri = inv_at_ring [OF assms(1)]
  show ?thesis
  proof (cases "?w = ?r")
    case True
    then have "dev = mc_dev s" "ring = mc_ring s" using assms(2) reader_outcome [OF assms(1)] by (simp_all add: Let_def)
    then show ?thesis using assms(1) by (auto simp: kmod_inv_def mc_ring_def)
  next
    case False
    let ?t = "word_of_nat (496 * (?r + 1) mod 32768)"
    have r: "?r < ?w" "?r < 132" "dev = (mc_dev s)\<lparr>kd_next := 496 * (?r + 1), kd_log := kd_log (mc_dev s) @ [mc_sent s ! ?r]\<rparr>"
      "ring = upd_info (\<lambda>i. i\<lparr>ri_tail := ?t\<rparr>) (mc_ring s)"
      using assms(2) reader_outcome [OF assms(1)] False ri(5) by (auto simp: Let_def positions_ok_def split: if_splits)
    have "positions_ok (info\<lparr>ri_tail := ?t\<rparr>) ?w (Suc ?r)" using ri(5) r(1,2) by (auto simp: positions_ok_def)
    moreover have "kd_log (mc_dev s) @ [mc_sent s ! ?r] = take (Suc ?r) (mc_sent s)"
      using assms(1) r(1) by (simp add: inv_at_def Let_def take_Suc_conv_app_nth)
    moreover have "min ?w (Suc ?r) = Suc ?r" using r(1) by simp
    moreover have "recorder_ok buf ?w (Suc ?r) (mc_recs s ! i)" if "i < length (mc_recs s)" for i
      using recorder_ok_read [OF inv_at_recorder [OF assms(1) that] r(1)] .
    moreover have "ring_of ring (info\<lparr>ri_tail := ?t\<rparr>) buf (mc_recs s)"
      using assms(1) r(4) by (simp add: inv_at_def ring_of_def upd_info_def Let_def)
    ultimately have "inv_at (info\<lparr>ri_tail := ?t\<rparr>) buf (s\<lparr>mc_dev := dev, mc_consumer := (mc_consumer s)\<lparr>lc_ring := ring\<rparr>\<rparr>)"
      using assms(1) r(3) by (simp add: inv_at_def mc_ring_def Let_def plain_config_def)
    then show ?thesis by (auto simp: kmod_inv_def)
  qed
qed

lemma kmod_step_inv:
  assumes "kmod_step s s'" "kmod_inv s"
  shows "kmod_inv s'"
proof -
  obtain info buf where inv: "inv_at info buf s" using assms(2) by (auto simp: kmod_inv_def)
  note ring = inv_at_ring [OF inv]
  note move = inv_at_move [OF inv]
  show ?thesis
    using assms(1)
  proof cases
    case (enter i h)
    then have "inv_at info buf s'" using ring by (auto intro!: move simp: ring_count_def)
    then show ?thesis by (auto simp: kmod_inv_def)
  next
    case (leave i)
    then have "inv_at info buf s'" using ring by (auto intro!: move simp: ring_count_def)
    then show ?thesis by (auto simp: kmod_inv_def)
  next
    case (room i h v args free sz h')
    have "h' = h" "sz = 496" "unat free + 496 * (length (mc_sent s) - length (kd_log (mc_dev s))) < 32768"
      using record_room_plain [OF inv room(4)] free_space_value [OF ring(5)] ring(5) by (auto simp: positions_ok_def)
    then have "inv_at info buf s'" using room ring inv_at_recorder [OF inv room(2)] by (auto intro!: move)
    then show ?thesis by (auto simp: kmod_inv_def)
  next
    case (full i h sz free)
    then have "inv_at info buf s'" using ring by (auto intro!: move simp: ring_count_def)
    then show ?thesis by (auto simp: kmod_inv_def)
  next
    case (drop i)
    then have "inv_at (info\<lparr>ri_n_drop_evts := ri_n_drop_evts info + 1\<rparr>) buf s'"
      using ring by (auto intro!: move simp: record_drop_def upd_info_def positions_ok_def)
    then show ?thesis by (auto simp: kmod_inv_def)
  next
    case (store i h sz free nx rg)
    with inv_at_store [OF inv store(2-4)] show ?thesis by auto
  next
    case (publish i h nx)
    with inv_at_publish [OF inv] show ?thesis by simp
  next
    case (read ret dev rg)
    with inv_at_read [OF inv] show ?thesis by simp
  qed
qed

lemma kmod_start_inv: "kmod_inv (kmod_start n)"
proof -
  have "inv_at \<lparr>ri_head = 0, ri_tail = 0, ri_n_evts = 0, ri_n_drop_evts = 0\<rparr> (\<lambda>_. 0) (kmod_start n)"
    by (simp add: inv_at_def kmod_start_def fresh_consumer_def fresh_ring_def linx_init_ringbuffer_def plain_config_def ring_of_def
        positions_ok_def mc_ring_def PAGE_SIZE_def)
  then show ?thesis by (auto simp: kmod_inv_def)
qed

lemma kmod_reachable_inv: "kmod_reachable n s \<Longrightarrow> kmod_inv s"
  unfolding kmod_reachable_def by (induction rule: rtranclp_induct) (auto intro: kmod_start_inv kmod_step_inv)

section \<open>The calls of the source as steps\<close>

lemma move_consumer [simp]: "mc_consumer (move i x ring s) = (mc_consumer s)\<lparr>lc_ring := ring\<rparr>"
  "mc_recs (move i x ring s) = (mc_recs s)[i := x]" "mc_dev (move i x ring s) = mc_dev s" "mc_sent (move i x ring s) = mc_sent s"
  "mc_ring (move i x ring s) = ring"
  by (simp_all add: move_def mc_ring_def)

text \<open>A call of \<^verbatim>\<open>linx_record_event\<close> that nothing interrupts is a run of one recorder through its points.\<close>

lemma record_event_steps:
  assumes "i < length (mc_recs s)" "mc_recs s ! i = Idle" "header_ok h" "linx_record_event v (mc_consumer s) h args = Inr (ret, c', h')"
  shows "\<exists>s'. kmod_step\<^sup>*\<^sup>* s s' \<and> mc_consumer s' = c' \<and> mc_dev s' = mc_dev s \<and> mc_recs s' = mc_recs s \<and>
    mc_sent s' = (if ret = 1 then mc_sent s @ [h'] else mc_sent s)"
proof -
  let ?c = "(mc_consumer s)\<lparr>lc_ring := ring_count 1 (mc_ring s)\<rparr>"
  let ?s1 = "move i (if rc_preempt_count (mc_ring s) + 1 = 1 then Entered h else Shut) (ring_count 1 (mc_ring s)) s"
  have 1: "kmod_step s ?s1" using kmod_step.enter [OF assms(1-3)] .
  have idle: "(mc_recs s)[i := Idle] = mc_recs s" using assms(1,2) by (metis list_update_id)
  have rg: "mc_ring s = lc_ring (mc_consumer s)" by (simp add: mc_ring_def)
  show ?thesis
  proof (cases "rc_preempt_count (mc_ring s) = 0")
    case False
    have "kmod_step ?s1 (move i Idle (ring_count (- 1) (mc_ring ?s1)) ?s1)" using False assms(1) by (intro kmod_step.leave) simp_all
    with 1 have "kmod_step\<^sup>*\<^sup>* s (move i Idle (ring_count (- 1) (mc_ring ?s1)) ?s1)" by simp
    moreover have "ret = 0" "c' = ?c\<lparr>lc_ring := ring_count (- 1) (lc_ring ?c)\<rparr>"
      using assms(4) False by (auto simp: linx_record_event_def ring_count_def mc_ring_def Let_def)
    ultimately show ?thesis using idle by (intro exI [of _ "move i Idle (ring_count (- 1) (mc_ring ?s1)) ?s1"]) simp
  next
    case True
    then obtain free sz h1 where room: "record_room v ?c h args = Inr (free, sz, h1)"
      using assms(4) by (auto simp: linx_record_event_def ring_count_def mc_ring_def Let_def)
    let ?s2 = "move i (Room h1 sz free) (mc_ring ?s1) ?s1"
    have 2: "kmod_step ?s1 ?s2" using True assms(1) room by (intro kmod_step.room [where h = h]) simp_all
    have 12: "kmod_step\<^sup>*\<^sup>* s ?s2" using 1 2 by simp
    show ?thesis
    proof (cases "free < sz")
      case less: True
      let ?s3 = "move i Dropping (ring_count (- 1) (mc_ring ?s2)) ?s2"
      let ?s4 = "move i Idle (record_drop (mc_ring ?s3)) ?s3"
      have "kmod_step ?s2 ?s3" using less assms(1) by (intro kmod_step.full [where h = h1]) simp_all
      moreover have "kmod_step ?s3 ?s4" using assms(1) by (intro kmod_step.drop) simp_all
      ultimately have "kmod_step\<^sup>*\<^sup>* s ?s4" using 12 by (meson rtranclp.rtrancl_into_rtrancl)
      moreover have "ret = 0" "c' = ?c\<lparr>lc_ring := record_drop (ring_count (- 1) (lc_ring ?c))\<rparr>"
        using assms(4) True room less by (auto simp: linx_record_event_def ring_count_def mc_ring_def Let_def)
      ultimately show ?thesis using idle by (intro exI [of _ ?s4]) simp
    next
      case ge: False
      let ?h = "h1\<lparr>eh_len := sz\<rparr>"
      obtain nx ring where st: "record_store sz ?h (lc_ring ?c) = Inr (nx, ring)" "ret = 1" "c' = ?c\<lparr>lc_ring := record_publish nx ring\<rparr>" "h' = ?h"
        using assms(4) True room ge by (auto simp: linx_record_event_def ring_count_def mc_ring_def Let_def)
      let ?s3 = "move i (Stored ?h nx) ring ?s2"
      let ?s4 = "(move i Idle (record_publish nx (mc_ring ?s3)) ?s3)\<lparr>mc_sent := mc_sent ?s3 @ [?h]\<rparr>"
      have "kmod_step ?s2 ?s3" using ge assms(1) st(1) by (intro kmod_step.store [where free = free]) simp_all
      moreover have "kmod_step ?s3 ?s4" using assms(1) by (intro kmod_step.publish) simp_all
      ultimately have "kmod_step\<^sup>*\<^sup>* s ?s4" using 12 by (meson rtranclp.rtrancl_into_rtrancl)
      then show ?thesis using idle st(2-4) by (intro exI [of _ ?s4]) simp
    qed
  qed
qed

lemma record_event_plain:
  assumes "inv_at info buf s" "rc_preempt_count (mc_ring s) = 0" "length (mc_sent s) = length (kd_log (mc_dev s))" "header_ok h"
  shows "\<exists>c'. linx_record_event v (mc_consumer s) h args = Inr (1, c', h\<lparr>eh_len := 496\<rparr>)"
proof -
  note ring = inv_at_ring [OF assms(1)]
  let ?ring = "ring_count 1 (mc_ring s)"
  have pos: "ri_head info = word_of_nat (496 * length (mc_sent s) mod 32768)" using ring(5) by (simp add: positions_ok_def)
  have ok: "header_ok (h\<lparr>eh_len := 496\<rparr>)" using assms(4) by (simp add: header_ok_def)
  have "unat (free_space 32768 info) = 32767" using free_space_value [OF ring(5)] assms(3) by simp
  then have "\<not> free_space 32768 info < 496" by (simp add: word_less_nat_alt)
  moreover have "\<exists>x. record_store 496 (h\<lparr>eh_len := 496\<rparr>) ?ring = Inr x"
    using record_store_effect [OF _ _ _ _ pos _ ok, of ?ring buf] ring by (simp add: ring_count_def)
  ultimately show ?thesis
    using assms(2) ring
    by (auto simp: linx_record_event_def record_room_def with_ring_def ring_count_def mc_ring_def plain_config_def EVENT_HEADER_SIZE_def Let_def
        split: option.splits)
qed

section \<open>The ring delivers events in order\<close>

text \<open>
  C20: the ring of the kernel module delivers in order, and for 132 events. However the recorders of all processors and the reader interleave,
  what the reader has logged is a prefix of what was recorded, header for header; at most 66 events wait in the ring; a recorder that found
  room stores inside the buffer; and the next call of the reader logs the next event. But the reader never wraps its position: after 132
  events it reads behind its mapping of 64 KiB.
\<close>

theorem kmod_ring_delivers_in_order:
  assumes "kmod_reachable n s"
  shows "kd_log (mc_dev s) = take (length (kd_log (mc_dev s))) (mc_sent s) \<and> length (mc_sent s) \<le> length (kd_log (mc_dev s)) + 66 \<and>
    (\<forall>i < length (mc_recs s). \<forall>h sz free. mc_recs s ! i = Room h sz free \<and> \<not> free < sz \<longrightarrow>
      (\<exists>x. record_store sz (h\<lparr>eh_len := sz\<rparr>) (mc_ring s) = Inr x)) \<and>
    (if length (mc_sent s) = length (kd_log (mc_dev s)) then linx_kmod_next (mc_dev s) (mc_ring s) = Inr (- 1, mc_dev s, mc_ring s)
     else if length (kd_log (mc_dev s)) = 132 then linx_kmod_next (mc_dev s) (mc_ring s) = Inl OutOfBounds
     else \<exists>dev ring. linx_kmod_next (mc_dev s) (mc_ring s) = Inr (0, dev, ring) \<and>
       kd_log dev = kd_log (mc_dev s) @ [mc_sent s ! length (kd_log (mc_dev s))])"
proof -
  let ?w = "length (mc_sent s)" and ?r = "length (kd_log (mc_dev s))"
  obtain info buf where inv: "inv_at info buf s" using kmod_reachable_inv [OF assms] by (auto simp: kmod_inv_def)
  then have log: "kd_log (mc_dev s) = take ?r (mc_sent s)" and d: "496 * (?w - ?r) < 32768"
    by (simp_all add: inv_at_def Let_def positions_ok_def)
  from d have "?w \<le> ?r + 66" by linarith
  moreover have "\<exists>x. record_store sz (h\<lparr>eh_len := sz\<rparr>) (mc_ring s) = Inr x"
    if "i < length (mc_recs s)" "mc_recs s ! i = Room h sz free" "\<not> free < sz" for i h sz free using inv_at_store [OF inv that] by blast
  moreover note reader_outcome [OF inv]
  ultimately show ?thesis using log by (auto simp: Let_def)
qed

definition sample_header :: event_header where
  "sample_header = \<lparr>eh_ts = 0, eh_type = 0, eh_syscall_nr = 2, eh_pid = 7, eh_tid = 7, eh_user = 0, eh_len = 0, eh_ppid = 1, eh_res = 0,
     eh_net = \<lparr>ni_saddr = 0, ni_daddr = 0, ni_sport = 0, ni_dport = 0, ni_protocol = 0, ni_direction = 0\<rparr>, eh_net_flag = 0,
     eh_proc = replicate 64 0, eh_pp_proc = replicate 64 0, eh_cmdline = replicate 256 0, eh_fd_val = replicate 12 0\<rparr>"

definition no_view :: kmod_view where
  "no_view = \<lparr>kw_user = (\<lambda>_ _. None), kw_str = (\<lambda>_. []), kw_files = None\<rparr>"

lemma sample_header_ok: "header_ok sample_header"
  by (simp add: header_ok_def sample_header_def)

lemma record_one:
  assumes "kmod_reachable n s" "mc_recs s = [Idle]" "length (mc_sent s) = length (kd_log (mc_dev s))"
  shows "\<exists>s'. kmod_reachable n s' \<and> mc_recs s' = [Idle] \<and> mc_dev s' = mc_dev s \<and> length (mc_sent s') = Suc (length (mc_sent s))"
proof -
  obtain info buf where inv: "inv_at info buf s" using kmod_reachable_inv [OF assms(1)] by (auto simp: kmod_inv_def)
  then have "rc_preempt_count (mc_ring s) = 0" using assms(2) by (simp add: inv_at_def ring_of_def Let_def)
  from record_event_plain [OF inv this assms(3) sample_header_ok, of no_view "[]"] obtain c' where
    "linx_record_event no_view (mc_consumer s) sample_header [] = Inr (1, c', sample_header\<lparr>eh_len := 496\<rparr>)" by blast
  from record_event_steps [OF _ _ sample_header_ok this] assms(2) obtain s' where
    "kmod_step\<^sup>*\<^sup>* s s'" "mc_dev s' = mc_dev s" "mc_recs s' = mc_recs s" "length (mc_sent s') = Suc (length (mc_sent s))" by fastforce
  then show ?thesis using assms(1,2) by (auto simp: kmod_reachable_def intro: rtranclp_trans)
qed

lemma read_all_events:
  "k \<le> 132 \<Longrightarrow> \<exists>s. kmod_reachable 1 s \<and> mc_recs s = [Idle] \<and> length (mc_sent s) = k \<and> length (kd_log (mc_dev s)) = k"
proof (induction k)
  case 0
  then show ?case by (intro exI [of _ "kmod_start 1"]) (simp add: kmod_reachable_def kmod_start_def)
next
  case (Suc k)
  then obtain s where s: "kmod_reachable 1 s" "mc_recs s = [Idle]" "length (mc_sent s) = k" "length (kd_log (mc_dev s)) = k" by auto
  then obtain s' where s': "kmod_reachable 1 s'" "mc_recs s' = [Idle]" "mc_dev s' = mc_dev s" "length (mc_sent s') = Suc k"
    using record_one [OF s(1,2)] by auto
  obtain info buf where inv: "inv_at info buf s'" using kmod_reachable_inv [OF s'(1)] by (auto simp: kmod_inv_def)
  obtain dev ring where rd: "linx_kmod_next (mc_dev s') (mc_ring s') = Inr (0, dev, ring)" "length (kd_log dev) = Suc k"
    using reader_outcome [OF inv] s'(3,4) s(4) Suc.prems by (simp add: Let_def)
  let ?s = "s'\<lparr>mc_dev := dev, mc_consumer := (mc_consumer s')\<lparr>lc_ring := ring\<rparr>\<rparr>"
  have "kmod_reachable 1 ?s" using s'(1) kmod_step.read [OF rd(1)] unfolding kmod_reachable_def by (rule rtranclp.rtrancl_into_rtrancl)
  then show ?case using s'(2,4) rd(2) by (intro exI [of _ ?s]) simp
qed

theorem kmod_ring_delivers_in_order_witness:
  "\<exists>s. kmod_reachable 1 s \<and> length (kd_log (mc_dev s)) = 132 \<and> linx_kmod_next (mc_dev s) (mc_ring s) = Inl OutOfBounds"
proof -
  obtain s0 where s0: "kmod_reachable 1 s0" "mc_recs s0 = [Idle]" "length (mc_sent s0) = 132" "length (kd_log (mc_dev s0)) = 132"
    using read_all_events [of 132] by auto
  then obtain s where s: "kmod_reachable 1 s" "mc_dev s = mc_dev s0" "length (mc_sent s) = 133" using record_one [OF s0(1,2)] by auto
  from kmod_ring_delivers_in_order [OF s(1)] show ?thesis using s s0(4) by (intro exI [of _ s]) simp
qed

text \<open>
  C29: the kernel believes the positions that the reader's process may write. They lie in a page that the reader maps for writing, and no bound
  is tested before the event is copied: with head and tail set to \<open>v\<close> the recorder writes outside its buffer exactly when \<open>v\<close> is too large.
\<close>

theorem kmod_ring_trusts_reader:
  assumes "kmod_reachable n s" "rc_preempt_count (mc_ring s) = 0" "header_ok h"
    and "c = (mc_consumer s)\<lparr>lc_ring := upd_info (\<lambda>i. i\<lparr>ri_head := v, ri_tail := v\<rparr>) (mc_ring s)\<rparr>"
  shows "linx_record_event w c h args = Inl OutOfBounds \<longleftrightarrow> unat v + EVENT_HEADER_SIZE > 32768 + 2 * PAGE_SIZE"
proof -
  obtain info buf where inv: "inv_at info buf s" using kmod_reachable_inv [OF assms(1)] by (auto simp: kmod_inv_def)
  note ring = inv_at_ring [OF inv]
  have "free_space 32768 (info\<lparr>ri_head := v, ri_tail := v\<rparr>) = 32767" by (simp add: free_space_def)
  moreover have "unat (v + 496) \<le> 40960" if "unat v + 496 \<le> 40960"
    using that unat_add_lem [of v 496] by simp
  ultimately show ?thesis
    using assms(2) ring
    by (auto simp: assms(4) linx_record_event_def record_room_def record_store_def with_ring_def ring_count_def upd_info_def mc_ring_def plain_config_def
        EVENT_HEADER_SIZE_def PAGE_SIZE_def Let_def split: option.splits if_splits)
qed

theorem kmod_ring_trusts_reader_witness:
  "linx_record_event no_view
     ((fresh_consumer 0)\<lparr>lc_ring := upd_info (\<lambda>i. i\<lparr>ri_head := 65536, ri_tail := 65536\<rparr>) fresh_ring\<rparr>) sample_header [] = Inl OutOfBounds"
proof -
  have "kmod_reachable 1 (kmod_start 1)" by (simp add: kmod_reachable_def)
  moreover have "rc_preempt_count (mc_ring (kmod_start 1)) = 0" "mc_ring (kmod_start 1) = fresh_ring" "mc_consumer (kmod_start 1) = fresh_consumer 0"
    by (simp_all add: mc_ring_def kmod_start_def fresh_consumer_def fresh_ring_def linx_init_ringbuffer_def)
  ultimately show ?thesis
    using kmod_ring_trusts_reader [OF _ _ sample_header_ok refl, of 1 "kmod_start 1" _ 65536] by (simp add: EVENT_HEADER_SIZE_def PAGE_SIZE_def)
qed

end
