(* ===== verification/Kmod_Device.thy ===== *)
theory Kmod_Device
  imports Kmod_Ring
begin

text \<open>
  The character device of the kernel module (\<^verbatim>\<open>sysmon_main.c\<close>): consumers and their files, the control calls with the one mutex, and the
  mapping of the ring. The mutex is held or free between calls; a call that wants it while it is held waits for ever, because
  the calls below are the only ones that release it. Allocations, user memory and the structures of the kernel are parameters.
\<close>

section \<open>The device\<close>

datatype kmod_outcome = Ret int | Hangs | BadUnlock | UsesFreed

record kmod_module =
  km_consumers :: "(nat \<times> linx_kmod_consumer) list"
  km_files :: "nat \<Rightarrow> nat option"
  km_mutex :: bool
  km_numdevs :: nat
  km_tracepoints_flags :: "32 word"
  km_blocks :: nat

definition linx_kmod_find_consumer :: "nat \<Rightarrow> kmod_module \<Rightarrow> (nat \<times> linx_kmod_consumer) option" where
  "linx_kmod_find_consumer consumer_id m = find (\<lambda>(a, c). lc_consumer_id c = consumer_id) (km_consumers m)"

definition consumer_at :: "nat \<Rightarrow> kmod_module \<Rightarrow> linx_kmod_consumer option" where
  "consumer_at a m = map_of (km_consumers m) a"

definition set_consumer :: "nat \<Rightarrow> linx_kmod_consumer \<Rightarrow> kmod_module \<Rightarrow> kmod_module" where
  "set_consumer a c m = m\<lparr>km_consumers := map (\<lambda>(b, d). (b, if b = a then c else d)) (km_consumers m)\<rparr>"

text \<open>The end of \<^verbatim>\<open>linx_kmod_open\<close>: the consumer is opened with all options disabled.\<close>

definition open_consumer :: "linx_kmod_consumer \<Rightarrow> linx_kmod_consumer" where
  "open_consumer c = c\<lparr>lc_ring := (lc_ring c)\<lparr>rc_open := True\<rparr>,
     lc_consumer_cfg := (lc_consumer_cfg c)\<lparr>cc_drop_enabel := 0, cc_fds_enabel := 0, cc_args_enable := 0\<rparr>\<rparr>"

definition zero_ring :: kmod_ringbuffer_ctx where
  "zero_ring = \<lparr>rc_ring_info = None, rc_buffer = None, rc_alloc = 0, rc_size = 0, rc_preempt_count = 0, rc_open = False\<rparr>"

definition zero_cfg :: kmod_consumer_config where
  "zero_cfg = \<lparr>cc_cap_enable = 0, cc_filter_enable = 0, cc_args_enable = 0, cc_fds_enabel = 0, cc_drop_enabel = 0\<rparr>"

text \<open>\<open>addr\<close> is the address of a new consumer, \<open>filp\<close> the file; \<open>oks\<close> are the outcomes of the four allocations.\<close>

definition linx_kmod_open ::
  "nat \<Rightarrow> nat \<Rightarrow> nat \<Rightarrow> nat \<Rightarrow> bool \<times> bool \<times> bool \<times> bool \<Rightarrow> kmod_module \<Rightarrow> kmod_outcome \<times> kmod_module" where
  "linx_kmod_open ring_no curr_id addr filp oks m =
    (let (ok_consumer, ok_ring, ok_buffer, ok_info) = oks
     in if ring_no \<ge> km_numdevs m then (BadUnlock, m)
        else if km_mutex m then (Hangs, m)
        else case linx_kmod_find_consumer curr_id m of
          None \<Rightarrow>
            (if \<not> ok_consumer then (Ret (- 12), m)
             else if \<not> ok_ring then (Ret (- 12), m)
             else
               (let (err, ring) = linx_init_ringbuffer ok_buffer ok_info 32768 zero_ring
                in if err \<noteq> 0 then (Ret 0, m)
                   else (Ret 0, m\<lparr>km_consumers := (addr, open_consumer \<lparr>lc_consumer_id = curr_id, lc_ring = ring, lc_consumer_cfg = zero_cfg,
                            lc_syscall_mask = replicate 512 False\<rparr>) # km_consumers m,
                          km_files := (km_files m)(filp := Some addr), km_blocks := km_blocks m + 4\<rparr>)))
        | Some (a, c) \<Rightarrow>
            (if rc_open (lc_ring c) then (Ret (- 16), m)
             else (Ret 0, (set_consumer a (open_consumer c) m)\<lparr>km_files := (km_files m)(filp := Some a)\<rparr>)))"

text \<open>The two blocks of a ring are released, then the ring and the consumer.\<close>

definition linx_free_ringbuffer :: "kmod_ringbuffer_ctx \<Rightarrow> nat \<times> kmod_ringbuffer_ctx" where
  "linx_free_ringbuffer ring =
    ((if rc_ring_info ring = None then 0 else 1) + (if rc_buffer ring = None then 0 else 1),
     ring\<lparr>rc_ring_info := None, rc_buffer := None, rc_size := 0\<rparr>)"

definition linx_kmod_release :: "nat \<Rightarrow> kmod_module \<Rightarrow> kmod_outcome \<times> kmod_module" where
  "linx_kmod_release filp m =
    (if km_mutex m then (Hangs, m)
     else case km_files m filp of
       None \<Rightarrow> (Ret 0, m)
     | Some a \<Rightarrow>
         (case consumer_at a m of
            None \<Rightarrow> (UsesFreed, m)
          | Some c \<Rightarrow> (Ret 0, m\<lparr>km_consumers := filter (\<lambda>x. fst x \<noteq> a) (km_consumers m), km_files := (km_files m)(filp := None),
              km_blocks := km_blocks m - (2 + fst (linx_free_ringbuffer (lc_ring c)))\<rparr>)))"

datatype kmod_ioctl =
    DISABLE_DROPPING_MODE | ENABLE_DROPPING_MODE | GET_VTID | GTE_PID | GTE_CURRENT_TID | GTE_CURRENT_PID | ENABLE_SYSCALL | DISABLE_SYSCALL
  | ENABLE_TP | DISABLE_TP | ENABLE_REAL_ARGS | DISABLE_REAL_ARGS | ENABLE_FDS | DISABLE_FDS | OTHER_IOCTL

definition MAX_SYSCALLS_NUM :: nat where "MAX_SYSCALLS_NUM = 512"
definition SYSMON_TP_MAX :: nat where "SYSMON_TP_MAX = 3"

definition upd_cfg :: "(kmod_consumer_config \<Rightarrow> kmod_consumer_config) \<Rightarrow> linx_kmod_consumer \<Rightarrow> linx_kmod_consumer" where
  "upd_cfg f c = c\<lparr>lc_consumer_cfg := f (lc_consumer_cfg c)\<rparr>"

text \<open>\<open>nr\<close> is what \<^verbatim>\<open>copy_from_user\<close> reads at \<open>arg\<close>, \<open>pids\<close> the thread and process number of the task that a number names, \<open>cur\<close> those of the
  caller. The two enabling calls return with the mutex held.\<close>

definition ioctl_locked ::
  "kmod_ioctl \<Rightarrow> 64 word \<Rightarrow> nat \<Rightarrow> (64 word \<Rightarrow> (int \<times> int) option) \<Rightarrow> int \<times> int \<Rightarrow> nat \<Rightarrow> linx_kmod_consumer \<Rightarrow> kmod_module \<Rightarrow>
   kmod_outcome \<times> kmod_module" where
  "ioctl_locked cmd arg nr pids cur a c m =
    (case cmd of
       GET_VTID \<Rightarrow> (Ret (case pids arg of None \<Rightarrow> - 22 | Some (tid, tgid) \<Rightarrow> tid), m)
     | GTE_PID \<Rightarrow> (Ret (case pids arg of None \<Rightarrow> - 22 | Some (tid, tgid) \<Rightarrow> tgid), m)
     | GTE_CURRENT_TID \<Rightarrow> (Ret (fst cur), m)
     | GTE_CURRENT_PID \<Rightarrow> (Ret (snd cur), m)
     | ENABLE_SYSCALL \<Rightarrow>
         (if nr \<ge> MAX_SYSCALLS_NUM then (Ret (- 22), m) else (Ret 0, set_consumer a (c\<lparr>lc_syscall_mask := (lc_syscall_mask c)[nr := True]\<rparr>) m))
     | DISABLE_SYSCALL \<Rightarrow>
         (if nr \<ge> MAX_SYSCALLS_NUM then (Ret (- 22), m) else (Ret 0, set_consumer a (c\<lparr>lc_syscall_mask := (lc_syscall_mask c)[nr := False]\<rparr>) m))
     | ENABLE_TP \<Rightarrow>
         (if unat arg \<ge> SYSMON_TP_MAX then (Ret (- 22), m)
          else (Ret 0, m\<lparr>km_tracepoints_flags := km_tracepoints_flags m OR push_bit (unat arg) 1\<rparr>))
     | DISABLE_TP \<Rightarrow>
         (if unat arg \<ge> SYSMON_TP_MAX then (Ret (- 22), m)
          else (Ret 0, m\<lparr>km_tracepoints_flags := km_tracepoints_flags m AND NOT (push_bit (unat arg) 1)\<rparr>))
     | DISABLE_DROPPING_MODE \<Rightarrow> (Ret 0, set_consumer a (upd_cfg (\<lambda>g. g\<lparr>cc_drop_enabel := 0\<rparr>) c) m)
     | ENABLE_DROPPING_MODE \<Rightarrow> (Ret 0, set_consumer a (upd_cfg (\<lambda>g. g\<lparr>cc_drop_enabel := 1\<rparr>) c) m)
     | ENABLE_FDS \<Rightarrow> (Ret 0, m\<lparr>km_mutex := True\<rparr>)
     | DISABLE_FDS \<Rightarrow> (Ret 0, set_consumer a (upd_cfg (\<lambda>g. g\<lparr>cc_fds_enabel := 0\<rparr>) c) m)
     | ENABLE_REAL_ARGS \<Rightarrow> (Ret 0, m\<lparr>km_mutex := True\<rparr>)
     | DISABLE_REAL_ARGS \<Rightarrow> (Ret 0, set_consumer a (upd_cfg (\<lambda>g. g\<lparr>cc_args_enable := 0\<rparr>) c) m)
     | OTHER_IOCTL \<Rightarrow> (Ret (- 25), m))"

definition linx_kmod_ioctl ::
  "nat \<Rightarrow> kmod_ioctl \<Rightarrow> 64 word \<Rightarrow> nat option \<Rightarrow> (64 word \<Rightarrow> (int \<times> int) option) \<Rightarrow> int \<times> int \<Rightarrow> kmod_module \<Rightarrow> kmod_outcome \<times> kmod_module" where
  "linx_kmod_ioctl filp cmd arg user_nr pids cur m =
    (case km_files m filp of
       None \<Rightarrow> (Ret (- 9), m)
     | Some a \<Rightarrow>
         (case consumer_at a m of
            None \<Rightarrow> (UsesFreed, m)
          | Some c \<Rightarrow>
              (case user_nr of
                 None \<Rightarrow> (Ret (- 14), m)
               | Some nr \<Rightarrow> if km_mutex m then (Hangs, m) else ioctl_locked cmd arg nr pids cur a c m)))"

section \<open>Mapping\<close>

datatype kmod_page = InfoPage | BufPage nat

text \<open>The pages of a loop over the buffer from offset \<open>i\<close> with the user address \<open>u\<close>, while the calls of \<^verbatim>\<open>remap_pfn_range\<close> succeed.\<close>

fun map_pages :: "(nat \<Rightarrow> bool) \<Rightarrow> nat list \<Rightarrow> nat \<Rightarrow> bool \<times> (nat \<times> kmod_page) list" where
  "map_pages ok [] u = (True, [])"
| "map_pages ok (i # is) u =
     (if \<not> ok u then (False, []) else let (r, ps) = map_pages ok is (u + PAGE_SIZE) in (r, (u, BufPage i) # ps))"

definition page_offsets :: "nat \<Rightarrow> nat list" where
  "page_offsets mlen = map (\<lambda>k. k * PAGE_SIZE) [0..<(mlen + PAGE_SIZE - 1) div PAGE_SIZE]"

definition linx_kmod_mmap :: "nat \<Rightarrow> nat \<Rightarrow> (nat \<Rightarrow> bool) \<Rightarrow> kmod_module \<Rightarrow> (int \<times> (nat \<times> kmod_page) list) res" where
  "linx_kmod_mmap filp len ok m =
    (case km_files m filp of
       None \<Rightarrow> Inr (- 9, [])
     | Some a \<Rightarrow>
         (case consumer_at a m of
            None \<Rightarrow> Inl UseAfterFree
          | Some c \<Rightarrow> Inr
              (if len > unat (rc_size (lc_ring c) * 2) then (- 22, [])
               else if len \<le> PAGE_SIZE then
                 (if rc_ring_info (lc_ring c) = None then (- 19, []) else if \<not> ok 0 then (- 11, []) else (0, [(0, InfoPage)]))
               else if len = unat (rc_size (lc_ring c) * 2) then
                 (let (r1, ps1) = map_pages ok (page_offsets (len div 2)) 0
                  in if \<not> r1 then (- 11, ps1)
                     else (let (r2, ps2) = map_pages ok (page_offsets (len div 2)) (length ps1 * PAGE_SIZE)
                           in (if r2 then 0 else - 11, ps1 @ ps2)))
               else (0, []))))"

text \<open>The byte of the buffer that a mapping shows at a user offset.\<close>

definition shown :: "(nat \<times> kmod_page) list \<Rightarrow> nat \<Rightarrow> nat option" where
  "shown ps o' = (case map_of ps (o' div PAGE_SIZE * PAGE_SIZE) of Some (BufPage i) \<Rightarrow> Some (i + o' mod PAGE_SIZE) | _ \<Rightarrow> None)"

section \<open>The mapping shows the ring twice\<close>

lemma map_pages_ok:
  "(\<forall>u. ok u) \<Longrightarrow> map_pages ok is u = (True, map (\<lambda>k. (u + k * PAGE_SIZE, BufPage (is ! k))) [0..<length is])"
proof (induction ok "is" u rule: map_pages.induct)
  case (2 ok i "is" u)
  have "[0..<length (i # is)] = 0 # map Suc [0..<length is]" by (simp add: upt_conv_Cons map_Suc_upt del: upt_Suc)
  with 2 show ?case by (simp add: comp_def add.assoc del: upt_Suc)
qed simp

lemma mmap_mirrors:
  assumes "km_files m filp = Some a" "consumer_at a m = Some c" "rc_size (lc_ring c) = 32768" "\<forall>u. ok u" "p < 65536"
  shows "\<exists>ps. linx_kmod_mmap filp 65536 ok m = Inr (0, ps) \<and> shown ps p = Some (p mod 32768)"
proof -
  let ?offs = "page_offsets 32768"
  have offs: "?offs = map (\<lambda>k. k * 4096) [0..<8]" by (simp add: page_offsets_def PAGE_SIZE_def)
  let ?ps = "map (\<lambda>k. (k * 4096, BufPage (?offs ! k))) [0..<8] @ map (\<lambda>k. (32768 + k * 4096, BufPage (?offs ! k))) [0..<8]"
  have ps: "linx_kmod_mmap filp 65536 ok m = Inr (0, ?ps)"
    using assms(1-4) map_pages_ok [of ok ?offs] by (simp add: linx_kmod_mmap_def PAGE_SIZE_def offs)
  let ?k = "p div 4096"
  have k: "?k < 16" "p = ?k * 4096 + p mod 4096" using assms(5) by (simp_all add: less_mult_imp_div_less)
  have eq: "?ps = map (\<lambda>k. (k * 4096, BufPage (k mod 8 * 4096))) [0..<16]" by (simp add: offs upt_conv_Cons)
  have "map_of ?ps (?k * 4096) = Some (BufPage (?k mod 8 * 4096))" unfolding eq
    by (rule map_of_is_SomeI) (use k(1) in \<open>auto simp: distinct_map inj_on_def\<close>)
  moreover have "?k mod 8 * 4096 + p mod 4096 = p mod 32768" using mod_mult2_eq [of p 4096 8] by (simp add: mult.commute add.commute)
  ultimately show ?thesis using ps by (simp add: shown_def PAGE_SIZE_def)
qed

section \<open>Consumers, files and memory\<close>

definition consumer_ok :: "linx_kmod_consumer \<Rightarrow> bool" where
  "consumer_ok c \<longleftrightarrow> plain_config c \<and> rc_open (lc_ring c) \<and> rc_ring_info (lc_ring c) \<noteq> None \<and> rc_buffer (lc_ring c) \<noteq> None \<and>
     rc_size (lc_ring c) = 32768 \<and> rc_alloc (lc_ring c) = 40960"

text \<open>Consumers have their own addresses and tasks, an open file belongs to exactly one of them and each has one; all blocks are accounted for.\<close>

definition device_ok :: "kmod_module \<Rightarrow> bool" where
  "device_ok m \<longleftrightarrow> distinct (map fst (km_consumers m)) \<and> distinct (map (\<lambda>(a, c). lc_consumer_id c) (km_consumers m)) \<and>
     (\<forall>(a, c) \<in> set (km_consumers m). consumer_ok c) \<and>
     (\<forall>a. a \<in> fst ` set (km_consumers m) \<longleftrightarrow> (\<exists>f. km_files m f = Some a)) \<and>
     (\<forall>f g a. km_files m f = Some a \<longrightarrow> km_files m g = Some a \<longrightarrow> f = g) \<and>
     km_blocks m = 4 * length (km_consumers m)"

lemma find_consumer_None: "linx_kmod_find_consumer t m = None \<longleftrightarrow> t \<notin> (\<lambda>(a, c). lc_consumer_id c) ` set (km_consumers m)"
  by (force simp: linx_kmod_find_consumer_def find_None_iff)

lemma find_consumer_Some: "linx_kmod_find_consumer t m = Some (a, c) \<Longrightarrow> (a, c) \<in> set (km_consumers m) \<and> lc_consumer_id c = t"
  by (auto simp: linx_kmod_find_consumer_def find_Some_iff in_set_conv_nth)

lemma consumer_at_file:
  assumes "device_ok m" "km_files m f = Some a"
  obtains c where "consumer_at a m = Some c" "(a, c) \<in> set (km_consumers m)" "consumer_ok c"
proof -
  have "a \<in> fst ` set (km_consumers m)" using assms unfolding device_ok_def by blast
  then obtain c where c: "(a, c) \<in> set (km_consumers m)" by auto
  moreover have "consumer_at a m = Some c" using assms(1) c by (simp add: consumer_at_def device_ok_def)
  moreover have "consumer_ok c" using assms(1) c unfolding device_ok_def by blast
  ultimately show ?thesis using that by blast
qed

lemma device_ok_open:
  assumes "device_ok m" "km_files m filp = None" "addr \<notin> fst ` set (km_consumers m)"
  shows "device_ok (snd (linx_kmod_open ring_no task addr filp oks m))"
proof -
  obtain o1 o2 o3 o4 where oks: "oks = (o1, o2, o3, o4)" by (cases oks)
  have busy: "rc_open (lc_ring c)" if "linx_kmod_find_consumer task m = Some (a, c)" for a c
    using find_consumer_Some [OF that] assms(1) by (auto simp: device_ok_def consumer_ok_def)
  have new: "consumer_ok (open_consumer (fresh_consumer task))"
    by (simp add: consumer_ok_def open_consumer_def fresh_consumer_def fresh_ring_def linx_init_ringbuffer_def plain_config_def PAGE_SIZE_def)
  have files: "(\<exists>f. ((km_files m)(filp := Some addr)) f = Some a) \<longleftrightarrow> a = addr \<or> (\<exists>f. km_files m f = Some a)" for a
    using assms(2) by (metis fun_upd_apply option.inject option.distinct(1))
  have no: "km_files m f \<noteq> Some addr" for f using assms(1,3) unfolding device_ok_def by blast
  consider "snd (linx_kmod_open ring_no task addr filp oks m) = m"
    | "linx_kmod_find_consumer task m = None" "snd (linx_kmod_open ring_no task addr filp oks m) =
        m\<lparr>km_consumers := (addr, open_consumer (fresh_consumer task)) # km_consumers m, km_files := (km_files m)(filp := Some addr),
          km_blocks := km_blocks m + 4\<rparr>"
  proof (cases "linx_kmod_find_consumer task m")
    case None
    then show ?thesis using that
      by (cases "ring_no < km_numdevs m \<and> \<not> km_mutex m \<and> o1 \<and> o2 \<and> o3 \<and> o4")
        (auto simp: linx_kmod_open_def oks linx_init_ringbuffer_def fresh_consumer_def fresh_ring_def zero_ring_def zero_cfg_def)
  next
    case (Some x)
    then obtain a c where "linx_kmod_find_consumer task m = Some (a, c)" by (cases x) auto
    with busy have "snd (linx_kmod_open ring_no task addr filp oks m) = m" by (simp add: linx_kmod_open_def oks)
    then show ?thesis by (rule that(1))
  qed
  then show ?thesis
  proof cases
    case 2
    have "lc_consumer_id (open_consumer (fresh_consumer task)) = task" by (simp add: open_consumer_def fresh_consumer_def)
    with 2 assms new files no find_consumer_None [of task m] show ?thesis
      by (auto simp: device_ok_def image_iff)
  qed (use assms in simp)
qed

lemma device_ok_release:
  assumes "device_ok m"
  shows "device_ok (snd (linx_kmod_release filp m)) \<and> fst (linx_kmod_release filp m) \<noteq> UsesFreed"
proof (cases "km_mutex m \<or> km_files m filp = None")
  case True
  with assms show ?thesis by (auto simp: linx_kmod_release_def)
next
  case False
  then obtain a where a: "km_files m filp = Some a" by auto
  obtain c where c: "consumer_at a m = Some c" "(a, c) \<in> set (km_consumers m)" "consumer_ok c" using consumer_at_file [OF assms a] .
  have blocks: "fst (linx_free_ringbuffer (lc_ring c)) = 2" using c(3) by (auto simp: linx_free_ringbuffer_def consumer_ok_def)
  let ?cs = "filter (\<lambda>x. fst x \<noteq> a) (km_consumers m)" and ?files = "(km_files m)(filp := None)"
  have d: "distinct (map fst (km_consumers m))" using assms by (simp add: device_ok_def)
  then have dist: "distinct (km_consumers m)" by (simp add: distinct_map)
  have "{x \<in> set (km_consumers m). fst x = a} = {(a, c)}" using d c(2) by (auto simp: eq_key_imp_eq_value)
  moreover have "length (filter (\<lambda>x. fst x = a) (km_consumers m)) = card {x \<in> set (km_consumers m). fst x = a}"
    using distinct_card [OF distinct_filter [OF dist], of "\<lambda>x. fst x = a"] by simp
  ultimately have len: "length (km_consumers m) = Suc (length ?cs)"
    using sum_length_filter_compl [of "\<lambda>x. fst x = a" "km_consumers m"] by (simp add: split_beta)
  have files: "(\<exists>f. ?files f = Some b) \<longleftrightarrow> b \<noteq> a \<and> (\<exists>f. km_files m f = Some b)" for b
  proof
    assume "\<exists>f. ?files f = Some b"
    then obtain f where f: "f \<noteq> filp" "km_files m f = Some b" by (auto split: if_splits)
    moreover have "b \<noteq> a" using f a assms unfolding device_ok_def by blast
    ultimately show "b \<noteq> a \<and> (\<exists>f. km_files m f = Some b)" by blast
  next
    assume "b \<noteq> a \<and> (\<exists>f. km_files m f = Some b)"
    then obtain f where "b \<noteq> a" "km_files m f = Some b" by blast
    then show "\<exists>f. ?files f = Some b" using a by (intro exI [of _ f]) auto
  qed
  have addrs: "b \<in> fst ` set ?cs \<longleftrightarrow> b \<noteq> a \<and> b \<in> fst ` set (km_consumers m)" for b by force
  have r: "linx_kmod_release filp m = (Ret 0, m\<lparr>km_consumers := ?cs, km_files := ?files, km_blocks := km_blocks m - 4\<rparr>)"
    using False a c(1) blocks by (simp add: linx_kmod_release_def)
  have "device_ok (m\<lparr>km_consumers := ?cs, km_files := ?files, km_blocks := km_blocks m - 4\<rparr>)"
    using assms files addrs len unfolding device_ok_def
    by (auto simp: distinct_map_filter)
  with r show ?thesis by simp
qed

lemma set_consumer_addrs: "map fst (km_consumers (set_consumer a c m)) = map fst (km_consumers m)"
  by (simp add: set_consumer_def comp_def split_beta)

lemma device_ok_set:
  assumes "device_ok m" "(a, c) \<in> set (km_consumers m)" "consumer_ok c'" "lc_consumer_id c' = lc_consumer_id c"
  shows "device_ok (set_consumer a c' m)"
proof -
  have d: "distinct (map fst (km_consumers m))" using assms(1) by (simp add: device_ok_def)
  have id: "lc_consumer_id e = lc_consumer_id c'" if "(a, e) \<in> set (km_consumers m)" for e
    using eq_key_imp_eq_value [OF d assms(2) that] assms(4) by simp
  have ids: "map (\<lambda>(a, c). lc_consumer_id c) (km_consumers (set_consumer a c' m)) = map (\<lambda>(a, c). lc_consumer_id c) (km_consumers m)"
    using id by (auto simp: set_consumer_def)
  have "fst ` set (km_consumers (set_consumer a c' m)) = fst ` set (km_consumers m)" using set_consumer_addrs [of a c' m] by (metis list.set_map)
  moreover have "consumer_ok e" if "(b, e) \<in> set (km_consumers (set_consumer a c' m))" for b e
    using that assms(1,3) by (auto simp: set_consumer_def device_ok_def split: if_splits)
  moreover have "km_files (set_consumer a c' m) = km_files m" "km_blocks (set_consumer a c' m) = km_blocks m"
    "length (km_consumers (set_consumer a c' m)) = length (km_consumers m)" by (simp_all add: set_consumer_def)
  ultimately show ?thesis using assms(1) ids set_consumer_addrs [of a c' m] unfolding device_ok_def by auto
qed

lemma device_ok_ioctl:
  assumes "device_ok m"
  shows "device_ok (snd (linx_kmod_ioctl filp cmd arg user_nr pids cur m)) \<and> fst (linx_kmod_ioctl filp cmd arg user_nr pids cur m) \<noteq> UsesFreed"
proof (cases "km_files m filp")
  case None
  with assms show ?thesis by (simp add: linx_kmod_ioctl_def)
next
  case (Some a)
  obtain c where c: "consumer_at a m = Some c" "(a, c) \<in> set (km_consumers m)" "consumer_ok c" using consumer_at_file [OF assms Some] .
  note set = device_ok_set [OF assms c(2)]
  have upd: "device_ok (set_consumer a (upd_cfg f c) m)" if "\<And>g. cc_args_enable (f g) = cc_args_enable g \<or> cc_args_enable (f g) = 0"
    "\<And>g. cc_fds_enabel (f g) = cc_fds_enabel g \<or> cc_fds_enabel (f g) = 0" for f
  proof (rule set)
    show "consumer_ok (upd_cfg f c)"
      using c(3) that [of "lc_consumer_cfg c"] by (auto simp: consumer_ok_def upd_cfg_def plain_config_def)
  qed (simp add: upd_cfg_def)
  have mask: "device_ok (set_consumer a (c\<lparr>lc_syscall_mask := x\<rparr>) m)" for x
    using c(3) by (intro set) (simp_all add: consumer_ok_def plain_config_def)
  have other: "device_ok (m\<lparr>km_mutex := b\<rparr>)" "device_ok (m\<lparr>km_tracepoints_flags := w\<rparr>)" for b w using assms by (simp_all add: device_ok_def)
  show ?thesis
  proof (cases user_nr)
    case (Some nr)
    have "device_ok (snd (ioctl_locked cmd arg nr pids cur a c m)) \<and> fst (ioctl_locked cmd arg nr pids cur a c m) \<noteq> UsesFreed"
      using assms mask other by (cases cmd) (auto simp: ioctl_locked_def intro!: upd)
    with Some \<open>km_files m filp = Some a\<close> c(1) assms show ?thesis by (simp add: linx_kmod_ioctl_def)
  qed (use \<open>km_files m filp = Some a\<close> c(1) assms in \<open>simp add: linx_kmod_ioctl_def\<close>)
qed

end
