(* ===== verification/Kmod_Probe.thy ===== *)
theory Kmod_Probe
  imports Kmod_Device
begin

text \<open>
  The probes of the kernel module, its loading and removal (\<^verbatim>\<open>sysmon_main.c\<close>), and the set-up of its reader (\<^verbatim>\<open>user/linx_devset.c\<close>). What the kernel
  knows of a task and of sockets, and the outcomes of its registration functions, are parameters.
\<close>

section \<open>Headers\<close>

text \<open>\<open>tv_mm\<close> are \<^verbatim>\<open>arg_start\<close> and \<^verbatim>\<open>arg_end\<close>; \<open>tv_access\<close> is what \<^verbatim>\<open>access_process_vm\<close> returns and reads for a length.\<close>

record task_view =
  tv_pid :: "32 word"
  tv_tgid :: "32 word"
  tv_real_parent :: "(32 word \<times> string) option"
  tv_uid :: "32 word"
  tv_comm :: string
  tv_found :: bool
  tv_mm :: "(64 word \<times> 64 word) option"
  tv_access :: "64 word \<Rightarrow> nat \<Rightarrow> int \<times> bytes"
  tv_ts :: "64 word"

text \<open>\<^verbatim>\<open>strncpy\<close> of a text without NUL into an array.\<close>

definition strncpy_to :: "nat \<Rightarrow> bytes \<Rightarrow> bytes \<Rightarrow> bytes" where
  "strncpy_to n src dst = take n (src @ replicate n 0) @ drop n dst"

definition char_bytes :: "string \<Rightarrow> bytes" where
  "char_bytes s = map (\<lambda>c. word_of_nat (of_char c)) s"

text \<open>\<^verbatim>\<open>int len\<close> against the unsigned \<^verbatim>\<open>cmdlen\<close>: a negative length counts as large.\<close>

definition cmdline_len :: "64 word \<Rightarrow> 64 word \<Rightarrow> nat \<Rightarrow> nat" where
  "cmdline_len arg_start arg_end cmdlen =
    (let len = ucast (arg_end - arg_start) :: 32 word
     in if unat (scast len :: 64 word) > cmdlen then cmdlen - 1 else unat len)"

text \<open>The result says in addition how many RCU read locks are still held.\<close>

definition linx_get_cmdline :: "task_view \<Rightarrow> nat \<Rightarrow> bytes \<Rightarrow> (bytes \<times> nat) res" where
  "linx_get_cmdline tv cmdlen cmdline =
    (let empty = strncpy_to cmdlen (char_bytes ''<NA>'') cmdline
     in if \<not> tv_found tv then Inr (empty, 0)
        else case tv_mm tv of
          None \<Rightarrow> Inl NullDeref
        | Some (arg_start, arg_end) \<Rightarrow>
            (let len = cmdline_len arg_start arg_end cmdlen; (ret, bs) = tv_access tv arg_start len
             in if ret \<noteq> int len then Inr (empty, 1)
                else if len \<ge> 256 then Inl OutOfBounds
                else Inr (strncpy_to len (map (\<lambda>b. if b = 0 then 32 else b) bs) cmdline, 0)))"

definition linx_trace_syscall :: "64 word \<Rightarrow> int" where
  "linx_trace_syscall nr = (if nr \<in> {87, 263, 2, 257} then 1 else 0)"

definition linx_net_syscall :: "64 word \<Rightarrow> int" where
  "linx_net_syscall nr = (if nr \<in> {41, 42, 49, 50, 44, 46, 45, 47} then 1 else 0)"

text \<open>A socket of a descriptor: \<open>None\<close> when there is none, \<open>Some None\<close> without \<^verbatim>\<open>sk\<close>.\<close>

record sock_view =
  sv_protocol :: "8 word"
  sv_family :: "16 word"
  sv_saddr :: "32 word"
  sv_daddr :: "32 word"
  sv_sport :: "16 word"
  sv_dport :: "16 word"

definition linx_get_socketcall_info :: "sock_view option \<Rightarrow> komd_net_info \<Rightarrow> komd_net_info" where
  "linx_get_socketcall_info sk netinfo =
    (case sk of
       None \<Rightarrow> netinfo
     | Some sk \<Rightarrow>
         (let netinfo = netinfo\<lparr>ni_protocol := sv_protocol sk\<rparr>
          in if sv_family sk = AF_INET
             then netinfo\<lparr>ni_saddr := sv_saddr sk, ni_daddr := sv_daddr sk, ni_sport := ntohs (sv_sport sk), ni_dport := ntohs (sv_dport sk)\<rparr>
             else netinfo))"

definition net_event :: "sock_view option option \<Rightarrow> event_header \<Rightarrow> event_header" where
  "net_event sock evt =
    (case sock of
       None \<Rightarrow> evt
     | Some sk \<Rightarrow> evt\<lparr>eh_net := linx_get_socketcall_info sk ((eh_net evt)\<lparr>ni_direction := 1\<rparr>), eh_net_flag := 1\<rparr>)"

definition linx_net_info :: "(32 word \<Rightarrow> sock_view option option) \<Rightarrow> 64 word list \<Rightarrow> 64 word \<Rightarrow> event_header \<Rightarrow> event_header" where
  "linx_net_info sockfd_lookup args syscall_nr evt =
    (if syscall_nr = 41 then evt\<lparr>eh_net := (eh_net evt)\<lparr>ni_protocol := ucast (args ! 2)\<rparr>, eh_net_flag := 1\<rparr>
     else if syscall_nr \<in> {42, 43} then net_event (sockfd_lookup (ucast (args ! 0))) evt
     else if syscall_nr \<in> {49, 50} then (if eh_type evt = 0 then net_event (sockfd_lookup (ucast (args ! 0))) evt else evt)
     else if syscall_nr \<in> {44, 46} then net_event (sockfd_lookup (ucast (args ! 0))) evt
     else evt)"

definition zero_header :: event_header where
  "zero_header = \<lparr>eh_ts = 0, eh_type = 0, eh_syscall_nr = 0, eh_pid = 0, eh_tid = 0, eh_user = 0, eh_len = 0, eh_ppid = 0, eh_res = 0,
     eh_net = \<lparr>ni_saddr = 0, ni_daddr = 0, ni_sport = 0, ni_dport = 0, ni_protocol = 0, ni_direction = 0\<rparr>, eh_net_flag = 0,
     eh_proc = replicate 64 0, eh_pp_proc = replicate 64 0, eh_cmdline = replicate 256 0, eh_fd_val = replicate 12 0\<rparr>"

text \<open>The common part of the two probes.\<close>

definition fill_header :: "task_view \<Rightarrow> 64 word \<Rightarrow> 32 word \<Rightarrow> 32 word \<Rightarrow> (event_header \<times> nat) res" where
  "fill_header tv nr ty res =
    (let hdr = zero_header\<lparr>eh_ts := tv_ts tv, eh_pid := tv_tgid tv, eh_tid := tv_pid tv, eh_syscall_nr := ucast nr, eh_type := ty, eh_len := 0, eh_res := res\<rparr>;
         hdr = (case tv_real_parent tv of
                  None \<Rightarrow> hdr
                | Some (ppid, pcomm) \<Rightarrow> hdr\<lparr>eh_ppid := ppid, eh_pp_proc := strncpy_to 63 (char_bytes pcomm) (eh_pp_proc hdr)\<rparr>);
         hdr = hdr\<lparr>eh_user := tv_uid tv, eh_proc := strncpy_to 63 (char_bytes (tv_comm tv)) (eh_proc hdr)\<rparr>
     in map_sum id (\<lambda>(cmd, locks). (hdr\<lparr>eh_cmdline := cmd\<rparr>, locks)) (linx_get_cmdline tv 255 (eh_cmdline hdr)))"

fun record_all :: "kmod_view \<Rightarrow> 64 word list \<Rightarrow> (nat \<times> linx_kmod_consumer) list \<Rightarrow> event_header \<Rightarrow> (nat \<times> linx_kmod_consumer) list res" where
  "record_all v args [] hdr = Inr []"
| "record_all v args ((a, c) # cs) hdr =
     res_bind (linx_record_event v c hdr args) (\<lambda>(ret, c', hdr').
       map_sum id (\<lambda>cs'. (a, c') # cs') (record_all v args cs hdr'))"

text \<open>The second result is the number of RCU read locks that are left held.\<close>

definition sys_enter_probe ::
  "kmod_view \<Rightarrow> task_view \<Rightarrow> (32 word \<Rightarrow> sock_view option option) \<Rightarrow> 64 word list \<Rightarrow> 64 word \<Rightarrow> kmod_module \<Rightarrow> (kmod_module \<times> nat) res" where
  "sys_enter_probe v tv sockfd_lookup args nr m =
    (if sint nr < 0 then Inr (m, 0)
     else if linx_trace_syscall nr = 0 then Inr (m, 0)
     else res_bind (fill_header tv nr 0 0) (\<lambda>(hdr, locks).
       let hdr = (if linx_net_syscall nr \<noteq> 0 then linx_net_info sockfd_lookup args nr hdr else hdr)
       in map_sum id (\<lambda>cs. (m\<lparr>km_consumers := cs\<rparr>, locks)) (record_all v args (km_consumers m) hdr)))"

definition sys_exit_probe ::
  "kmod_view \<Rightarrow> task_view \<Rightarrow> 64 word list \<Rightarrow> 64 word \<Rightarrow> 64 word \<Rightarrow> kmod_module \<Rightarrow> (kmod_module \<times> nat) res" where
  "sys_exit_probe v tv args nr ret m =
    (if sint nr < 0 then Inr (m, 0)
     else if linx_trace_syscall nr = 0 then Inr (m, 0)
     else res_bind (fill_header tv nr 1 (ucast ret)) (\<lambda>(hdr, locks).
       map_sum id (\<lambda>cs. (m\<lparr>km_consumers := cs\<rparr>, locks)) (record_all v args (km_consumers m) hdr)))"

section \<open>Loading and removal\<close>

datatype kmod_class = NoClass | ErrClass | Class | DestroyedClass
datatype kmod_devs = NoDevs | Devs | FreedDevs

record kmod_registration =
  kr_tracepoints :: "string list"
  kr_region :: bool
  kr_class :: kmod_class
  kr_devs :: kmod_devs
  kr_cdevs :: nat
  kr_devices :: nat

definition tracepoint_names :: "string list" where
  "tracepoint_names = [''sys_enter'', ''sys_exit'', ''sched_switch'']"

text \<open>\<open>found\<close> are the tracepoints of the running kernel; registering one that was not found dereferences its NULL pointer.\<close>

definition compat_set_tracepoint :: "string list \<Rightarrow> kmod_registration \<Rightarrow> kmod_registration res" where
  "compat_set_tracepoint found k =
    (if set tracepoint_names \<subseteq> set found then Inr (k\<lparr>kr_tracepoints := tracepoint_names\<rparr>) else Inl NullDeref)"

definition clear_tracepoint :: "string list \<Rightarrow> kmod_registration \<Rightarrow> kmod_registration res" where
  "clear_tracepoint found k = (if set tracepoint_names \<subseteq> set found then Inr (k\<lparr>kr_tracepoints := []\<rparr>) else Inl NullDeref)"

text \<open>The outcomes of the calls of \<^verbatim>\<open>linx_register_cdev\<close>, for its one device.\<close>

record cdev_outcomes =
  co_region :: bool
  co_class :: bool
  co_devs :: bool
  co_cdev :: bool
  co_device :: bool

text \<open>The label \<^verbatim>\<open>init_module_err\<close>: no device was completed, so the loop over created devices is empty.\<close>

definition register_error :: "int \<Rightarrow> bool \<Rightarrow> kmod_registration \<Rightarrow> int \<times> kmod_registration" where
  "register_error ret acr_ok k =
    (ret, k\<lparr>kr_class := (if kr_class k = Class then DestroyedClass else kr_class k), kr_region := (if acr_ok then False else kr_region k),
       kr_devs := (if kr_devs k = Devs then FreedDevs else kr_devs k)\<rparr>)"

definition linx_register_cdev :: "cdev_outcomes \<Rightarrow> kmod_registration \<Rightarrow> int \<times> kmod_registration" where
  "linx_register_cdev co k =
    (if \<not> co_region co then register_error (- 12) False k
     else
       (let k = k\<lparr>kr_region := True\<rparr>
        in if \<not> co_class co then register_error (- 14) True (k\<lparr>kr_class := ErrClass\<rparr>)
           else
             (let k = k\<lparr>kr_class := Class\<rparr>
              in if \<not> co_devs co then register_error (- 12) True k
                 else
                   (let k = k\<lparr>kr_devs := Devs\<rparr>
                    in if \<not> co_cdev co then register_error (- 14) True k
                       else if \<not> co_device co then register_error (- 14) True k
                       else (0, k\<lparr>kr_cdevs := 1, kr_devices := 1\<rparr>)))))"

definition linx_unregister_cdev :: "kmod_registration \<Rightarrow> kmod_registration res" where
  "linx_unregister_cdev k =
    (case kr_devs k of
       NoDevs \<Rightarrow> Inl NullDeref
     | FreedDevs \<Rightarrow> Inl UseAfterFree
     | Devs \<Rightarrow> Inr (k\<lparr>kr_cdevs := kr_cdevs k - 1, kr_devices := kr_devices k - 1,
         kr_class := (if kr_class k = Class then DestroyedClass else kr_class k), kr_region := False, kr_devs := FreedDevs\<rparr>))"

definition linx_init :: "string list \<Rightarrow> cdev_outcomes \<Rightarrow> kmod_registration \<Rightarrow> (int \<times> kmod_registration) res" where
  "linx_init found co k = map_sum id (\<lambda>k. (0, snd (linx_register_cdev co k))) (compat_set_tracepoint found k)"

definition linx_exit :: "string list \<Rightarrow> kmod_registration \<Rightarrow> kmod_registration res" where
  "linx_exit found k = res_bind (clear_tracepoint found k) linx_unregister_cdev"

section \<open>The reader's set-up\<close>

datatype user_resource = DeviceFd | LogFd | BufferMap | InfoMap

text \<open>The outcomes are those of opening the device, opening the log, and of the two mappings. The second result is the record of the device, \<open>None\<close> when
  \<^verbatim>\<open>msg_bufinfo\<close> was not set; the last one is what the process holds.\<close>

definition linx_kmod_init :: "bool \<Rightarrow> bool \<Rightarrow> bool \<Rightarrow> bool \<Rightarrow> int \<times> kmod_device option \<times> user_resource list" where
  "linx_kmod_init ok_dev ok_log ok_buffer ok_info =
    (if \<not> ok_dev then (- 1, None, [])
     else if \<not> ok_log then (- 1, None, [])
     else if \<not> ok_buffer then (- 1, None, [LogFd])
     else if \<not> ok_info then (- 1, None, [LogFd])
     else (0, Some \<lparr>kd_mmap_size = 65536, kd_next = 0, kd_log = []\<rparr>, [DeviceFd, LogFd, BufferMap, InfoMap]))"

definition linx_kmod_close :: "user_resource list \<Rightarrow> user_resource list" where
  "linx_kmod_close held = filter (\<lambda>r. r \<notin> {LogFd, BufferMap, InfoMap, DeviceFd}) held"

text \<open>\<open>arg\<close> is the address of the number that is passed, \<open>user_nr\<close> what the kernel reads there.\<close>

definition linx_kmod_config ::
  "nat \<Rightarrow> kmod_ioctl \<Rightarrow> 64 word \<Rightarrow> nat option \<Rightarrow> (64 word \<Rightarrow> (int \<times> int) option) \<Rightarrow> int \<times> int \<Rightarrow> kmod_module \<Rightarrow> kmod_outcome \<times> kmod_module" where
  "linx_kmod_config msg_fd setting arg user_nr pids cur m =
    (case linx_kmod_ioctl msg_fd setting arg user_nr pids cur m of
       (Ret r, m') \<Rightarrow> (Ret (if r < 0 then - 1 else 0), m')
     | (out, m') \<Rightarrow> (out, m'))"

section \<open>Headers are well formed\<close>

text \<open>The documented behaviour of \<^verbatim>\<open>access_process_vm\<close>: it returns the number of bytes it has read.\<close>

definition task_view_ok :: "task_view \<Rightarrow> bool" where
  "task_view_ok tv \<longleftrightarrow> (\<forall>p n. let (r, bs) = tv_access tv p n in r = int (length bs) \<and> length bs \<le> n)"

lemma strncpy_to_length [simp]: "n \<le> length dst \<Longrightarrow> length (strncpy_to n src dst) = length dst"
  by (simp add: strncpy_to_def)

lemma strncpy_to_last: "n \<le> k \<Longrightarrow> k < length dst \<Longrightarrow> strncpy_to n src dst ! k = dst ! k"
proof -
  assume k: "n \<le> k" "k < length dst"
  have "length (take n (src @ replicate n 0)) = n" by simp
  with k show ?thesis unfolding strncpy_to_def by (subst nth_append_right) simp_all
qed

lemma ucast_scast_32: "(ucast (scast (w :: 32 word) :: 64 word) :: 32 word) = w"
proof (rule bit_word_eqI)
  fix n
  assume "n < LENGTH(32)"
  then show "bit (ucast (scast w :: 64 word) :: 32 word) n = bit w n" by (cases "n = 31") (auto simp: bit_simps min_def)
qed

lemma unat_ucast_64_32: "unat (ucast (w :: 64 word) :: 32 word) \<le> unat w"
  by (simp add: unsigned_ucast_eq take_bit_eq_mod)

lemma cmdline_len_le:
  assumes "0 < cmdlen"
  shows "cmdline_len arg_start arg_end cmdlen \<le> cmdlen"
proof -
  have "unat w \<le> cmdlen" if "\<not> unat (scast w :: 64 word) > cmdlen" for w :: "32 word"
    using unat_ucast_64_32 [of "scast w"] that unfolding ucast_scast_32 by linarith
  then show ?thesis using assms by (simp add: cmdline_len_def Let_def)
qed

text \<open>The arguments of the task cannot be read completely.\<close>

definition short_read :: "task_view \<Rightarrow> bool" where
  "short_read tv \<longleftrightarrow> tv_found tv \<and> (\<exists>arg_start arg_end. tv_mm tv = Some (arg_start, arg_end) \<and>
     fst (tv_access tv arg_start (cmdline_len arg_start arg_end 255)) \<noteq> int (cmdline_len arg_start arg_end 255))"

lemma get_cmdline_ok:
  assumes "task_view_ok tv" "tv_mm tv \<noteq> None" "length cmdline = 256"
  shows "\<exists>bs. linx_get_cmdline tv 255 cmdline = Inr (bs, if short_read tv then 1 else 0) \<and> length bs = 256 \<and> bs ! 255 = cmdline ! 255"
proof -
  obtain s e where mm: "tv_mm tv = Some (s, e)" using assms(2) by auto
  let ?n = "cmdline_len s e 255"
  have n: "?n \<le> 255" by (simp add: cmdline_len_le)
  obtain r bs where a: "tv_access tv s ?n = (r, bs)" by (cases "tv_access tv s ?n")
  show ?thesis
    using n mm a assms(3) strncpy_to_last [of _ 255 cmdline] by (auto simp: linx_get_cmdline_def short_read_def Let_def)
qed

lemma fill_header_ok:
  assumes "task_view_ok tv" "tv_mm tv \<noteq> None"
  shows "\<exists>h. fill_header tv nr ty res = Inr (h, if short_read tv then 1 else 0) \<and> header_ok h \<and> eh_proc h ! 63 = 0 \<and> eh_pp_proc h ! 63 = 0 \<and>
    eh_cmdline h ! 255 = 0 \<and> eh_pid h = tv_tgid tv \<and> eh_tid h = tv_pid tv \<and> eh_syscall_nr h = ucast nr \<and> eh_type h = ty \<and> eh_res h = res \<and>
    eh_user h = tv_uid tv \<and> eh_net_flag h = 0"
proof -
  obtain bs where bs: "linx_get_cmdline tv 255 (replicate 256 0) = Inr (bs, if short_read tv then 1 else 0)" "length bs = 256" "bs ! 255 = 0"
    using get_cmdline_ok [OF assms, of "replicate 256 0"] by auto
  then show ?thesis
    by (auto simp: fill_header_def zero_header_def header_ok_def Let_def strncpy_to_last split: option.splits)
qed

section \<open>Any sequence of calls\<close>

text \<open>What recording leaves of a ring.\<close>

definition same_ring :: "kmod_ringbuffer_ctx \<Rightarrow> kmod_ringbuffer_ctx \<Rightarrow> bool" where
  "same_ring r r' \<longleftrightarrow> rc_size r' = rc_size r \<and> rc_alloc r' = rc_alloc r \<and> rc_open r' = rc_open r \<and>
     (rc_ring_info r' = None \<longleftrightarrow> rc_ring_info r = None) \<and> (rc_buffer r' = None \<longleftrightarrow> rc_buffer r = None)"

lemma same_ring_count [simp]: "same_ring (ring_count d r) r' = same_ring r r'" "same_ring r (ring_count d r') = same_ring r r'"
  by (simp_all add: same_ring_def ring_count_def)

lemma same_ring_info [simp]: "same_ring r (upd_info f r') = same_ring r r'"
  by (simp add: same_ring_def upd_info_def)

lemma same_ring_store: "record_store sz e r = Inr (nx, r') \<Longrightarrow> same_ring r r'"
  by (auto simp: record_store_def with_ring_def same_ring_def Let_def split: option.splits if_splits)

lemma record_event_ring:
  assumes "linx_record_event v c h args = Inr (ret, c', h')"
  obtains ring where "c' = c\<lparr>lc_ring := ring\<rparr>" "same_ring (lc_ring c) ring"
proof -
  let ?c = "c\<lparr>lc_ring := ring_count 1 (lc_ring c)\<rparr>"
  show ?thesis
  proof (cases "rc_preempt_count (lc_ring ?c) = 1")
    case False
    then have "c' = c\<lparr>lc_ring := ring_count (- 1) (lc_ring ?c)\<rparr>" using assms by (simp add: linx_record_event_def)
    then show ?thesis by (rule that) (simp add: same_ring_def ring_count_def)
  next
    case True
    then obtain free sz e where room: "record_room v ?c h args = Inr (free, sz, e)"
      using assms by (cases "record_room v ?c h args") (auto simp: linx_record_event_def)
    show ?thesis
    proof (cases "free < sz")
      case less: True
      then have "c' = c\<lparr>lc_ring := record_drop (ring_count (- 1) (lc_ring ?c))\<rparr>" using assms True room by (simp add: linx_record_event_def)
      then show ?thesis by (rule that) (simp add: record_drop_def, simp add: same_ring_def ring_count_def)
    next
      case False
      then obtain nx ring where st: "record_store sz (e\<lparr>eh_len := sz\<rparr>) (lc_ring ?c) = Inr (nx, ring)" "c' = c\<lparr>lc_ring := record_publish nx ring\<rparr>"
        using assms True room
        by (cases "record_store sz (e\<lparr>eh_len := sz\<rparr>) (lc_ring ?c)") (auto simp: linx_record_event_def)
      show ?thesis using st(2) by (rule that) (use same_ring_store [OF st(1)] in \<open>simp add: record_publish_def\<close>)
    qed
  qed
qed

lemma record_event_keeps:
  assumes "linx_record_event v c h args = Inr (ret, c', h')" "consumer_ok c"
  shows "consumer_ok c' \<and> lc_consumer_id c' = lc_consumer_id c"
proof -
  obtain ring where "c' = c\<lparr>lc_ring := ring\<rparr>" "same_ring (lc_ring c) ring" using record_event_ring [OF assms(1)] .
  then show ?thesis using assms(2) by (simp add: consumer_ok_def plain_config_def same_ring_def)
qed

lemma record_all_keeps:
  assumes "record_all v args cs h = Inr cs'" "\<forall>(a, c) \<in> set cs. consumer_ok c"
  shows "map fst cs' = map fst cs \<and> map (\<lambda>(a, c). lc_consumer_id c) cs' = map (\<lambda>(a, c). lc_consumer_id c) cs \<and> (\<forall>(a, c) \<in> set cs'. consumer_ok c)"
  using assms
proof (induction cs arbitrary: cs' h)
  case (Cons x cs)
  obtain a c where x: "x = (a, c)" by (cases x)
  obtain ret c' hdr' where r: "linx_record_event v c h args = Inr (ret, c', hdr')"
    using Cons.prems(1) x by (cases "linx_record_event v c h args") auto
  then obtain cs1 where cs1: "record_all v args cs hdr' = Inr cs1" "cs' = (a, c') # cs1"
    using Cons.prems(1) x by (cases "record_all v args cs hdr'") auto
  with Cons.IH [OF cs1(1)] record_event_keeps [OF r] Cons.prems(2) x show ?case by auto
qed simp

lemma device_ok_consumers:
  assumes "device_ok m" "map fst cs = map fst (km_consumers m)" "map (\<lambda>(a, c). lc_consumer_id c) cs = map (\<lambda>(a, c). lc_consumer_id c) (km_consumers m)"
    and "\<forall>(a, c) \<in> set cs. consumer_ok c"
  shows "device_ok (m\<lparr>km_consumers := cs\<rparr>)"
proof -
  have "length cs = length (km_consumers m)" using assms(2) by (metis length_map)
  moreover have "fst ` set cs = fst ` set (km_consumers m)" using assms(2) by (metis list.set_map)
  ultimately show ?thesis using assms unfolding device_ok_def by auto
qed

lemma device_ok_record: "device_ok m \<Longrightarrow> record_all v args (km_consumers m) h = Inr cs \<Longrightarrow> device_ok (m\<lparr>km_consumers := cs\<rparr>)"
  using record_all_keeps [of v args "km_consumers m" h cs] device_ok_consumers [of m cs] by (auto simp: device_ok_def)

text \<open>The calls of processes, the probes on any processor, and the stores of a reader into the page of positions that it maps. A call that does not return
  is not a step.\<close>

inductive module_step :: "kmod_module \<Rightarrow> kmod_module \<Rightarrow> bool" where
  kopen: "km_files m filp = None \<Longrightarrow> addr \<notin> fst ` set (km_consumers m) \<Longrightarrow> linx_kmod_open ring_no task addr filp oks m = (Ret r, m') \<Longrightarrow> module_step m m'"
| krelease: "linx_kmod_release filp m = (Ret r, m') \<Longrightarrow> module_step m m'"
| kioctl: "linx_kmod_ioctl filp cmd arg user_nr pids cur m = (Ret r, m') \<Longrightarrow> module_step m m'"
| kenter: "sys_enter_probe v tv sockfd_lookup args nr m = Inr (m', locks) \<Longrightarrow> module_step m m'"
| kexit: "sys_exit_probe v tv args nr ret m = Inr (m', locks) \<Longrightarrow> module_step m m'"
| kreader: "(a, c) \<in> set (km_consumers m) \<Longrightarrow>
    module_step m (set_consumer a (c\<lparr>lc_ring := upd_info (\<lambda>_. info) (lc_ring c)\<rparr>) m)"

definition module_start :: kmod_module where
  "module_start = \<lparr>km_consumers = [], km_files = (\<lambda>_. None), km_mutex = False, km_numdevs = 1, km_tracepoints_flags = 0, km_blocks = 0\<rparr>"

definition module_reachable :: "kmod_module \<Rightarrow> bool" where
  "module_reachable m \<longleftrightarrow> module_step\<^sup>*\<^sup>* module_start m"

lemma module_step_ok:
  assumes "module_step m m'" "device_ok m"
  shows "device_ok m'"
  using assms
proof cases
  case (kopen filp addr ring_no task oks r)
  then show ?thesis using device_ok_open [OF assms(2) kopen(1,2), of ring_no task oks] by simp
next
  case (krelease filp r)
  then show ?thesis using device_ok_release [OF assms(2), of filp] by simp
next
  case (kioctl filp cmd arg user_nr pids cur r)
  then show ?thesis using device_ok_ioctl [OF assms(2), of filp cmd arg user_nr pids cur] by simp
next
  case (kenter v tv sockfd_lookup args nr locks)
  then show ?thesis using assms(2) by (auto simp: sys_enter_probe_def Let_def split: if_splits intro: device_ok_record)
next
  case (kexit v tv args nr ret locks)
  then show ?thesis using assms(2) by (auto simp: sys_exit_probe_def split: if_splits intro: device_ok_record)
next
  case (kreader a c info)
  have ok: "consumer_ok c" using kreader(2) assms(2) by (auto simp: device_ok_def)
  show ?thesis unfolding kreader(1) by (rule device_ok_set [OF assms(2) kreader(2)]) (use ok in \<open>auto simp: consumer_ok_def plain_config_def upd_info_def\<close>)
qed

lemma module_reachable_ok: "module_reachable m \<Longrightarrow> device_ok m"
  unfolding module_reachable_def
proof (induction rule: rtranclp_induct)
  case base
  then show ?case by (simp add: device_ok_def module_start_def)
qed (rule module_step_ok)

section \<open>The calls of the device\<close>

lemma ioctl_returns:
  assumes "device_ok m" "\<not> km_mutex m"
  shows "\<exists>r m'. linx_kmod_ioctl filp cmd arg user_nr pids cur m = (Ret r, m')"
proof (cases "km_files m filp")
  case (Some a)
  obtain c where "consumer_at a m = Some c" using consumer_at_file [OF assms(1) Some] .
  moreover have "\<exists>r m'. ioctl_locked cmd arg nr pids cur a c m = (Ret r, m')" for nr by (cases cmd) (auto simp: ioctl_locked_def)
  ultimately show ?thesis using Some assms(2) by (auto simp: linx_kmod_ioctl_def split: option.splits)
qed (simp add: linx_kmod_ioctl_def)

lemma open_returns:
  assumes "\<not> km_mutex m" "ring_no < km_numdevs m"
  shows "\<exists>r m'. linx_kmod_open ring_no task addr filp oks m = (Ret r, m') \<and> r \<in> {0, - 12, - 16}"
  using assms by (cases oks) (auto simp: linx_kmod_open_def split: option.splits prod.splits)

lemma release_frees:
  assumes "device_ok m" "\<not> km_mutex m"
  shows "\<exists>m'. linx_kmod_release filp m = (Ret 0, m') \<and> km_files m' filp = None \<and>
    (\<forall>a. km_files m filp = Some a \<longrightarrow> consumer_at a m' = None \<and> km_blocks m' + 4 = km_blocks m)"
proof (cases "km_files m filp")
  case (Some a)
  obtain c where c: "consumer_at a m = Some c" "(a, c) \<in> set (km_consumers m)" "consumer_ok c" using consumer_at_file [OF assms(1) Some] .
  have "fst (linx_free_ringbuffer (lc_ring c)) = 2" using c(3) by (auto simp: linx_free_ringbuffer_def consumer_ok_def)
  moreover have "4 \<le> km_blocks m" using c(2) assms(1) by (cases "km_consumers m") (auto simp: device_ok_def)
  moreover have "map_of (filter (\<lambda>x. fst x \<noteq> a) (km_consumers m)) a = None" by (auto simp: map_of_eq_None_iff)
  ultimately show ?thesis using Some c(1) assms(2) by (simp add: linx_kmod_release_def consumer_at_def)
qed (use assms in \<open>simp add: linx_kmod_release_def\<close>)


text \<open>One process has opened the device.\<close>

definition opened_module :: kmod_module where
  "opened_module = snd (linx_kmod_open 0 77 5 9 (True, True, True, True) module_start)"

lemma opened_module:
  "linx_kmod_open 0 77 5 9 (True, True, True, True) module_start = (Ret 0, opened_module)" "\<not> km_mutex opened_module" "km_files opened_module 9 = Some 5"
  "km_blocks opened_module = 4" "km_numdevs opened_module = 1"
  by (simp_all add: opened_module_def linx_kmod_open_def module_start_def linx_kmod_find_consumer_def linx_init_ringbuffer_def zero_ring_def)

lemma opened_module_reachable: "module_reachable opened_module"
  unfolding module_reachable_def
  by (rule r_into_rtranclp, rule kopen [OF _ _ opened_module(1)]) (simp_all add: module_start_def)


section \<open>The mutex\<close>

lemma mutex_kept:
  assumes "module_step m m'" "km_mutex m"
  shows "km_mutex m' \<and> km_files m' = km_files m \<and> km_numdevs m' = km_numdevs m"
  using assms
proof cases
  case (kopen filp addr ring_no task oks r)
  then show ?thesis using assms(2) by (cases oks) (auto simp: linx_kmod_open_def split: if_splits)
next
  case (kioctl filp cmd arg user_nr pids cur r)
  then show ?thesis using assms(2) by (auto simp: linx_kmod_ioctl_def split: option.splits)
next
  case (kenter v tv sockfd_lookup args nr locks)
  then show ?thesis using assms(2) by (auto simp: sys_enter_probe_def Let_def split: if_splits)
next
  case (kexit v tv args nr ret locks)
  then show ?thesis using assms(2) by (auto simp: sys_exit_probe_def split: if_splits)
qed (simp_all add: linx_kmod_release_def set_consumer_def)

lemma mutex_kept_always:
  assumes "module_step\<^sup>*\<^sup>* m m'" "km_mutex m"
  shows "km_mutex m' \<and> km_files m' = km_files m \<and> km_numdevs m' = km_numdevs m"
  using assms by (induction rule: rtranclp_induct) (auto dest: mutex_kept)

lemma enable_takes_mutex:
  assumes "linx_kmod_ioctl filp cmd arg user_nr pids cur m = (Ret 0, m')" "cmd \<in> {ENABLE_FDS, ENABLE_REAL_ARGS}"
  shows "m' = m\<lparr>km_mutex := True\<rparr>"
  using assms by (auto simp: linx_kmod_ioctl_def ioctl_locked_def split: option.splits if_splits)

text \<open>C22: a successful request to record descriptors or real arguments leaves the device unusable: whatever happens afterwards, the mutex stays held, so
  every later open of an existing minor number, every release and every control call on an open file waits for ever, no consumer ever has either
  option enabled, and no file is ever opened or closed again.\<close>

theorem kmod_enable_blocks_device:
  assumes "module_reachable m" "cmd \<in> {ENABLE_FDS, ENABLE_REAL_ARGS}" "linx_kmod_ioctl filp cmd arg user_nr pids cur m = (Ret 0, m')"
    and "module_step\<^sup>*\<^sup>* m' n"
  shows "(ring_no < km_numdevs n \<longrightarrow> linx_kmod_open ring_no task addr f oks n = (Hangs, n)) \<and> linx_kmod_release f n = (Hangs, n) \<and>
    (km_files n f \<noteq> None \<longrightarrow> linx_kmod_ioctl f cmd' arg' (Some nr) pids' cur' n = (Hangs, n)) \<and>
    (\<forall>(a, c) \<in> set (km_consumers n). cc_fds_enabel (lc_consumer_cfg c) = 0 \<and> cc_args_enable (lc_consumer_cfg c) = 0) \<and>
    km_files n = km_files m"
proof -
  have "m' = m\<lparr>km_mutex := True\<rparr>" by (rule enable_takes_mutex [OF assms(3,2)])
  then have held: "km_mutex n" "km_files n = km_files m" using mutex_kept_always [OF assms(4)] by simp_all
  have "module_reachable n"
    using assms(1,4) kioctl [OF assms(3)] unfolding module_reachable_def by (meson rtranclp.rtrancl_into_rtrancl rtranclp_trans)
  then have ok: "device_ok n" by (rule module_reachable_ok)
  have ioctl: "linx_kmod_ioctl f cmd' arg' (Some nr) pids' cur' n = (Hangs, n)" if f: "km_files n f \<noteq> None"
  proof -
    obtain b where b: "km_files n f = Some b" using f by auto
    obtain d where "consumer_at b n = Some d" using consumer_at_file [OF ok b] .
    with b held show ?thesis by (simp add: linx_kmod_ioctl_def)
  qed
  have opens: "linx_kmod_open ring_no task addr f oks n = (Hangs, n)" if "ring_no < km_numdevs n"
    using held that by (cases oks) (simp add: linx_kmod_open_def)
  have release: "linx_kmod_release f n = (Hangs, n)" using held by (simp add: linx_kmod_release_def)
  have "\<forall>(a, c) \<in> set (km_consumers n). cc_fds_enabel (lc_consumer_cfg c) = 0 \<and> cc_args_enable (lc_consumer_cfg c) = 0"
    using ok by (auto simp: device_ok_def consumer_ok_def plain_config_def)
  with opens release ioctl held(2) show ?thesis by (intro conjI impI) simp_all
qed

theorem kmod_enable_blocks_device_witness:
  "\<exists>m'. linx_kmod_ioctl 9 ENABLE_FDS 0 (Some 0) (\<lambda>_. None) (1, 1) opened_module = (Ret 0, m') \<and> linx_kmod_release 9 m' = (Hangs, m') \<and>
     linx_kmod_ioctl 9 DISABLE_FDS 0 (Some 0) (\<lambda>_. None) (1, 1) m' = (Hangs, m')"
proof -
  obtain c where "consumer_at 5 opened_module = Some c" using consumer_at_file [OF module_reachable_ok [OF opened_module_reachable] opened_module(3)] .
  then have i: "linx_kmod_ioctl 9 ENABLE_FDS 0 (Some 0) (\<lambda>_. None) (1, 1) opened_module = (Ret 0, opened_module\<lparr>km_mutex := True\<rparr>)"
    using opened_module(2,3) by (simp add: linx_kmod_ioctl_def ioctl_locked_def)
  note e = kmod_enable_blocks_device [OF opened_module_reachable _ i rtranclp.rtrancl_refl]
  show ?thesis using i e [of 0 1 1 9 "(True, True, True, True)" DISABLE_FDS 0 0 "\<lambda>_. None" "(1, 1)"] opened_module(3) by auto
qed

section \<open>Settings\<close>

text \<open>The settings of a consumer other than the two options, and those of the module.\<close>

definition consumer_settings :: "bool list \<times> kmod_consumer_config \<Rightarrow> linx_kmod_consumer \<Rightarrow> linx_kmod_consumer" where
  "consumer_settings s c = c\<lparr>lc_syscall_mask := fst s,
     lc_consumer_cfg := (snd s)\<lparr>cc_args_enable := cc_args_enable (lc_consumer_cfg c), cc_fds_enabel := cc_fds_enabel (lc_consumer_cfg c)\<rparr>\<rparr>"

definition module_settings :: "(nat \<Rightarrow> bool list \<times> kmod_consumer_config) \<Rightarrow> 32 word \<Rightarrow> kmod_module \<Rightarrow> kmod_module" where
  "module_settings s flags m =
     m\<lparr>km_consumers := map (\<lambda>(a, c). (a, consumer_settings (s a) c)) (km_consumers m), km_tracepoints_flags := flags\<rparr>"

lemma settings_options:
  "cc_args_enable (lc_consumer_cfg (consumer_settings s c)) = cc_args_enable (lc_consumer_cfg c)"
  "cc_fds_enabel (lc_consumer_cfg (consumer_settings s c)) = cc_fds_enabel (lc_consumer_cfg c)"
  "lc_ring (consumer_settings s c) = lc_ring c"
  by (simp_all add: consumer_settings_def)

lemma record_room_settings: "record_room v (consumer_settings s c) h args = record_room v c h args"
  by (simp only: record_room_def settings_options)

lemma settings_ring: "consumer_settings s (c\<lparr>lc_ring := r\<rparr>) = (consumer_settings s c)\<lparr>lc_ring := r\<rparr>" "lc_ring (consumer_settings s c) = lc_ring c"
  by (simp_all add: consumer_settings_def)

lemma record_event_settings:
  "linx_record_event v (consumer_settings s c) h args = map_sum id (\<lambda>(r, c', h'). (r, consumer_settings s c', h')) (linx_record_event v c h args)"
proof -
  let ?c = "c\<lparr>lc_ring := ring_count 1 (lc_ring c)\<rparr>"
  have c: "(consumer_settings s c)\<lparr>lc_ring := ring_count 1 (lc_ring (consumer_settings s c))\<rparr> = consumer_settings s ?c" by (simp add: settings_ring)
  show ?thesis
    unfolding linx_record_event_def c Let_def record_room_settings
    by (cases "record_room v ?c h args")
      (auto simp: settings_ring sum.map_comp comp_def split_beta record_room_settings intro!: sum.map_cong)
qed

lemma record_all_settings:
  "record_all v args (map (\<lambda>(a, c). (a, consumer_settings (s a) c)) cs) h =
    map_sum id (map (\<lambda>(a, c). (a, consumer_settings (s a) c))) (record_all v args cs h)"
proof (induction cs arbitrary: h)
  case (Cons x cs)
  obtain a c where x: "x = (a, c)" by (cases x)
  show ?case
    using Cons unfolding x by (cases "linx_record_event v c h args") (auto simp: record_event_settings sum.map_comp comp_def)
qed simp

text \<open>C28: the settings of the control calls are without effect on what is recorded: with any other system call masks, dropping mode and capture flags of
  any consumer, and any other tracepoint flags, the probes record the same events, fail in the same cases and leave the same locks, and leave the settings as they are.\<close>

theorem kmod_settings_ignored:
  "sys_enter_probe v tv sockfd_lookup args nr (module_settings s flags m) =
     map_sum id (\<lambda>(m', locks). (module_settings s flags m', locks)) (sys_enter_probe v tv sockfd_lookup args nr m) \<and>
   sys_exit_probe v tv args nr ret (module_settings s flags m) =
     map_sum id (\<lambda>(m', locks). (module_settings s flags m', locks)) (sys_exit_probe v tv args nr ret m)"
proof -
  have all: "map_sum id (\<lambda>cs. ((module_settings s flags m)\<lparr>km_consumers := cs\<rparr>, locks)) (record_all v args (km_consumers (module_settings s flags m)) h) =
      map_sum id (\<lambda>(m', locks). (module_settings s flags m', locks)) (map_sum id (\<lambda>cs. (m\<lparr>km_consumers := cs\<rparr>, locks)) (record_all v args (km_consumers m) h))"
    for locks :: nat and h
    by (cases "record_all v args (km_consumers m) h"; cases m) (simp_all add: module_settings_def record_all_settings)
  have bind: "res_bind x (\<lambda>(h, locks). map_sum id f (g h locks)) = map_sum id f (res_bind x (\<lambda>(h, locks). g h locks))" for x :: "(event_header \<times> nat) res"
    and f :: "kmod_module \<times> nat \<Rightarrow> kmod_module \<times> nat" and g
    by (cases x) auto
  show ?thesis by (simp add: sys_enter_probe_def sys_exit_probe_def all bind Let_def)
qed

section \<open>A load that has failed\<close>

definition unloaded :: kmod_registration where
  "unloaded = \<lparr>kr_tracepoints = [], kr_region = False, kr_class = NoClass, kr_devs = NoDevs, kr_cdevs = 0, kr_devices = 0\<rparr>"

definition cdev_registered :: "cdev_outcomes \<Rightarrow> bool" where
  "cdev_registered co \<longleftrightarrow> co_region co \<and> co_class co \<and> co_devs co \<and> co_cdev co \<and> co_device co"

text \<open>Loading the module reports success whether or not the device could be registered. Removing it afterwards gives everything back when it could;
  otherwise the removal uses the device array that was never allocated or has been freed.\<close>

theorem kmod_failed_load_faults:
  assumes "linx_init found co unloaded = Inr (ret, k)"
  shows "ret = 0"
    and "cdev_registered co \<Longrightarrow> linx_exit found k = Inr (unloaded\<lparr>kr_class := DestroyedClass, kr_devs := FreedDevs\<rparr>)"
    and "\<not> cdev_registered co \<Longrightarrow> linx_exit found k = Inl (if co_region co \<and> co_class co \<and> co_devs co then UseAfterFree else NullDeref)"
proof -
  have f: "set tracepoint_names \<subseteq> set found" and k: "ret = 0" "k = snd (linx_register_cdev co (unloaded\<lparr>kr_tracepoints := tracepoint_names\<rparr>))"
    using assms by (simp_all add: linx_init_def compat_set_tracepoint_def split: if_splits)
  show "ret = 0" by (rule k)
  show "linx_exit found k = Inr (unloaded\<lparr>kr_class := DestroyedClass, kr_devs := FreedDevs\<rparr>)" if "cdev_registered co"
    using f k that by (simp add: linx_exit_def clear_tracepoint_def linx_register_cdev_def cdev_registered_def linx_unregister_cdev_def unloaded_def)
  show "linx_exit found k = Inl (if co_region co \<and> co_class co \<and> co_devs co then UseAfterFree else NullDeref)" if "\<not> cdev_registered co"
    using f k that by (auto simp: linx_exit_def clear_tracepoint_def linx_register_cdev_def cdev_registered_def linx_unregister_cdev_def unloaded_def
        register_error_def Let_def)
qed

theorem kmod_failed_load_faults_witness:
  "\<exists>k. linx_init tracepoint_names \<lparr>co_region = True, co_class = True, co_devs = True, co_cdev = True, co_device = False\<rparr> unloaded = Inr (0, k) \<and>
     linx_exit tracepoint_names k = Inl UseAfterFree"
proof -
  let ?co = "\<lparr>co_region = True, co_class = True, co_devs = True, co_cdev = True, co_device = False\<rparr>"
  obtain ret k where i: "linx_init tracepoint_names ?co unloaded = Inr (ret, k)" by (simp add: linx_init_def compat_set_tracepoint_def)
  with kmod_failed_load_faults [OF i] show ?thesis by (simp add: cdev_registered_def)
qed

end
