(* ===== verification/Spec2Isabelle.thy ===== *)
theory Spec2Isabelle
  imports Thread_Pool Log Apd Engine Kmod_Probe
begin

text \<open>
  A host intrusion detection daemon for Linux. A probe in the kernel records the system calls of all processes, a daemon enriches the
  records with what it knows about processes and users, evaluates rules over them and raises alerts. This development models the parts
  of the program that carry this path, from the bytes that the probe stores to the text of an alert, and the components they
  rest on. Every definition keeps the name of the C function, type or constant it translates.

  \<^bold>\<open>How the program is put together.\<close>
  \<^verbatim>\<open>main\<close> (\<^verbatim>\<open>linx_apd.c\<close>) parses the command line (\<^verbatim>\<open>linx_arg_parser\<close>), loads the configuration (\<^verbatim>\<open>linx_config\<close>, over the trees of
  \<^verbatim>\<open>linx_yaml\<close>), starts the logger (\<^verbatim>\<open>linx_log\<close>), the alerts (\<^verbatim>\<open>linx_alert\<close>, on a thread pool of \<^verbatim>\<open>linx_thread\<close>), the field map
  (\<^verbatim>\<open>linx_hash_map\<close>), the process cache (\<^verbatim>\<open>linx_process_cache\<close>), the machine status (\<^verbatim>\<open>linx_machine_status\<close>) and the enrichment
  (\<^verbatim>\<open>linx_event_rich\<close>), loads the rules (\<^verbatim>\<open>rule_engine_load\<close>: lexer, parser, the two compilers, \<^verbatim>\<open>rule_engine_set\<close>), and starts the engine
  (\<^verbatim>\<open>linx_engine\<close>), which attaches the probe of \<^verbatim>\<open>kernel/ebpf\<close>. The kernel module \<^verbatim>\<open>kernel/kmod\<close> is a second way to record system calls, with a device and a reader of its own. Then each turn of the event loop takes one event from the engine, enriches it and
  evaluates it against the rule set. The components share three pieces of state: the field map, which gives every path of a rule an
  address in the records that the enrichment fills; the event table (\<^verbatim>\<open>linx_event_table.c\<close>), which says for every event number which
  parameters the record carries; and the variables of the probe, through which the engine configures its filters.

  \<^bold>\<open>Conventions.\<close>
  A structure is a record, an enumeration or tagged union a datatype, a machine integer a word where its width matters. Undefined
  behaviour that the code can reach is a value of the type \<open>fault\<close> in the result \<open>fault + 'a\<close> (\<open>res\<close>), so a theorem that a call returns \<open>Inr\<close> says that
  it is memory safe. Static state is passed explicitly. The outcome of every call out of the sources is an argument: allocations, the
  platform calls of the pool and the logger, the file system and the contents of \<^verbatim>\<open>/proc\<close>, clocks, the password and group files, PCRE2 (\<open>pm\<close>, with
  the hypothesis \<open>pcre2_grammar\<close> on the seven patterns of the lexer), the usable size of a heap block (\<open>us\<close>), the printers of floating point
  numbers (\<open>pf\<close>, \<open>pd\<close>), the event stream of libyaml, the JSON library, libbpf (record \<open>libbpf\<close>), the helpers and
  structures of the kernel (records \<open>probe_env\<close>, \<open>kernel_view\<close>, with the hypothesis \<open>helpers_ok\<close>). Concurrent code is cut at its critical
  sections, and an interleaving is a sequence of sections.

  \<^bold>\<open>Theories, the sources they model and what is proved.\<close>
  \<^item> \<^verbatim>\<open>Linx_Prelude\<close>: faults, C strings and the C library functions in use, generic lemmas; the interfaces of a FIFO queue (\<open>fifo_queue\<close>) and
    of a keyed table (\<open>keyed_table\<close>), interpreted below on the queue of the logger, the task queue of the pool and the tables of the field map.
  \<^item> \<^verbatim>\<open>Thread_Pool\<close> (\<^verbatim>\<open>linx_thread_pool.c\<close>): the pool structure with its linked queue in an explicit heap; worker, clients and destruction as a machine over critical
    sections (\<open>pool_exec\<close>, \<open>pool_reachable\<close>). Jobs start in submission order and exactly once, tasks have one owner, destruction frees all, creation is all or
    nothing under every platform failure, the only reachable fault is the uninitialised \<^verbatim>\<open>task_runing\<close>; two shutdown behaviours that lose work.
  \<^item> \<^verbatim>\<open>Event_Table\<close> (\<^verbatim>\<open>linx_event_table.c\<close>): the complete table; well-formedness of every row, pairing of enter and exit rows.
  \<^item> \<^verbatim>\<open>Hash_Map\<close> (\<^verbatim>\<open>linx_hash_map.c\<close>): all calls with allocation failures; invariant over any sequence of calls with a count of heap blocks, lookup
    after batch registration, resolution of argument paths and its bounds.
  \<^item> \<^verbatim>\<open>Rule_Ast\<close>, \<^verbatim>\<open>Rule_Lexer\<close>, \<^verbatim>\<open>Rule_Parser\<close>, \<^verbatim>\<open>Rule_Grammar\<close>, \<^verbatim>\<open>Rule_Roundtrip\<close> (\<^verbatim>\<open>rule_engine_ast\<close>, \<^verbatim>\<open>rule_engine_lexer\<close>, \<^verbatim>\<open>linx_regex.c\<close>): operator tables, trees,
    scanners and the recursive-descent parser. The parser runs on fuel, \<open>8 * length + 16\<close> for a text (\<open>condition_fuel\<close>): each character of the
    text pays for at most eight nested calls, so this is enough for every text and every matcher, which is proved.
    Printing a well-formed tree and parsing it gives the tree back.
  \<^item> \<^verbatim>\<open>Byte_Memory\<close>, \<^verbatim>\<open>Output_Match\<close>, \<^verbatim>\<open>Rule_Match\<close> (\<^verbatim>\<open>rule_engine_match\<close>): compiled matches and templates over a byte-addressed memory. A compiled condition
    answers what the tree means for the event; a compiled template renders the substitution and stays in its buffer; operators that the
    compiler accepts without a matcher.
  \<^item> \<^verbatim>\<open>Yaml_Tree\<close>, \<^verbatim>\<open>Yaml_Load\<close> (\<^verbatim>\<open>linx_yaml\<close>): the loader over a store of cells refines the document; the path getter computes the lookup its paths describe.
  \<^item> \<^verbatim>\<open>Log\<close>, \<^verbatim>\<open>Alert\<close> (\<^verbatim>\<open>linx_log\<close>, \<^verbatim>\<open>linx_alert\<close>): order and completeness of what is written, under interleaving; outcomes of initialisation.
  \<^item> \<^verbatim>\<open>Rule_Set\<close>, \<^verbatim>\<open>Rule_Load\<close> (\<^verbatim>\<open>rule_engine_set\<close>, \<^verbatim>\<open>rule_engine_load\<close>): the parallel arrays with failed growth; rule files load as written; a rule with a
    syntax error is accepted and never fires.
  \<^item> \<^verbatim>\<open>Proc_Files\<close>, \<^verbatim>\<open>Process_Cache\<close> (\<^verbatim>\<open>linx_process_cache.c\<close>): reading a process from the text that the kernel prints; the cache refines a map from process
    numbers to records under any sequence of its operations; a record handed out may be freed while in use.
  \<^item> \<^verbatim>\<open>Machine_Status\<close>, \<^verbatim>\<open>Event_Rich\<close> (\<^verbatim>\<open>linx_machine_status.c\<close>, \<^verbatim>\<open>linx_event_rich.c\<close>): the records of user and group; how an event fills the record \<^verbatim>\<open>evt\<close> and its
    arguments; a free of memory inside the event buffer.
  \<^item> \<^verbatim>\<open>Config\<close>, \<^verbatim>\<open>Apd\<close> (\<^verbatim>\<open>linx_config.c\<close>, \<^verbatim>\<open>linx_arg_parser.c\<close>, \<^verbatim>\<open>linx_apd\<close>): loading the configuration; cleanup undoes exactly what was started, whatever fails; the
    fields of processes, users and groups never resolve because one table of the update list is not registered.
  \<^item> \<^verbatim>\<open>Probe_Ring\<close>, \<^verbatim>\<open>Probe_Steps\<close>, \<^verbatim>\<open>Probe_Calls\<close>, \<^verbatim>\<open>Probe_Table\<close> (\<^verbatim>\<open>kernel/ebpf\<close>): the event buffer, the language of its stores, the 712 programs of the numbered tail call files, and their
    agreement with the event table: number, order and width of parameters, bounds of the buffer, and the two programs that break them.
  \<^item> \<^verbatim>\<open>Engine\<close> (\<^verbatim>\<open>linx_engine\<close>, \<^verbatim>\<open>syscall_enter.bpf.c\<close>, \<^verbatim>\<open>syscall_exit.bpf.c\<close>, \<^verbatim>\<open>bpf_check.h\<close>): loading, attaching, filtering and polling; the end-to-end theorem that the parameters of a system call
    are the arguments that rules see.
  \<^item> \<^verbatim>\<open>Kmod_Args\<close>, \<^verbatim>\<open>Kmod_Ring\<close>, \<^verbatim>\<open>Kmod_Device\<close>, \<^verbatim>\<open>Kmod_Probe\<close> (\<^verbatim>\<open>kernel/kmod\<close>): the kernel module, the alternative to the probe, and its reader. The recording of real parameters;
    the ring with its recorders and its reader as a machine (\<open>kmod_step\<close>), which delivers in order for 132 events; the device as a machine of opens, releases, control
    calls, probes and stores of the reader (\<open>module_step\<close>), with the ownership of consumers and memory, the calls after which the device is blocked, and the settings that
    nothing reads; loading and removal under every failure.
  \<^item> this theory: from a rule file to an alert. A loaded rule set raises, for an event, the rendered output of the first rule whose condition holds.

  \<^bold>\<open>Not modelled.\<close>
  Log messages inside the other components and time stamps of the logger. \<^verbatim>\<open>match_func.c\<close>, an older copy of the matchers that nothing
  calls. \<^verbatim>\<open>linx_event_queue\<close>, whose functions return constants, and \<^verbatim>\<open>linx_event_processor\<close>, which does not compile. \<^verbatim>\<open>linx_syscall_table\<close>, names by number without
  operations. The functions of \<^verbatim>\<open>ringbuf_func.h\<close> that no program calls (paths of files, \<^verbatim>\<open>apply_snaplen\<close>) and the
  tail call files without a number, older copies with another signature of \<^verbatim>\<open>linx_ringbuf_load_event\<close>. The event layout is that of \<^verbatim>\<open>src/include\<close>, which
  user space reads with; the copies of the two headers in \<^verbatim>\<open>kernel/ebpf/include\<close> lack members that the programs use. \<^verbatim>\<open>kernel/ebpf/ebpf\<close> and \<^verbatim>\<open>kernel/ebpf/plugin\<close>, an older probe and its
  front end for another host program. The formatting of events as text by the kernel module's reader
  (\<^verbatim>\<open>linx_logs.c\<close>) and its \<^verbatim>\<open>main\<close>. \<^verbatim>\<open>vmlinux.h\<close> and \<^verbatim>\<open>missing_defines.h\<close>, generated declarations.
  \<^verbatim>\<open>local_depends\<close>, third-party libraries, by their documented behaviour only. Scripts, in other languages.
\<close>

section \<open>From a rule file to an alert\<close>

text \<open>The event has values at the paths of all conditions.\<close>

definition event_provides ::
  "event_view \<Rightarrow> hash_state \<Rightarrow> hash_state \<Rightarrow> event_env \<Rightarrow> rule_spec list \<Rightarrow> bool" where
  "event_provides ev hs0 hs en sps \<longleftrightarrow>
     list_all (\<lambda>sp. list_all (provides_num ev hs0 hs en) (num_paths (sp_cond sp)) \<and>
       list_all (provides_text ev hs0 hs en) (text_paths (sp_cond sp))) sps"

lemma installed_match:
  assumes "list_all2 (installed hs0) sps xs" "event_provides ev hs0 hs en sps"
  shows "list_all (\<lambda>(r, m, om). \<exists>b. linx_rule_engine_match ev hs m = Inr b) xs \<and>
    (case find (\<lambda>sp. cond_holds en (sp_cond sp)) sps of
       None \<Rightarrow> find (\<lambda>(r, m, om). linx_rule_engine_match ev hs m = Inr True) xs = None
     | Some sp \<Rightarrow> \<exists>r m om. find (\<lambda>(r, m, om). linx_rule_engine_match ev hs m = Inr True) xs = Some (r, m, om) \<and>
         installed hs0 sp (r, m, om))"
  using assms
proof (induction rule: list_all2_induct)
  case (Cons sp sps x xs)
  obtain r m om where x: "x = (r, m, om)" by (cases x) auto
  have "linx_rule_engine_match ev hs m = Inr (cond_holds en (sp_cond sp))"
    using Cons.hyps(1) Cons.prems x by (simp add: installed_def event_provides_def)
  with Cons x show ?case by (auto simp: event_provides_def split: option.splits)
qed simp

text \<open>The state of the alert component after a successful initialisation.\<close>

definition alert_ready :: "string \<Rightarrow> alert_state" where
  "alert_ready out = snd (linx_alert_init True True True True \<lparr>s_alert = None, alert_stdout = out\<rparr>)"

lemma send_then_run:
  assumes "known_variables hs0 f" "template_renders ev hs0 hs val f"
    and "linx_output_match_compile hs0 (Some f) = (0, Some om)"
    and "length buf = ALERT_BUFFER" "length (template_text val hs0 f) < ALERT_BUFFER - 1"
  shows "\<exists>st' st''. linx_alert_send_async ev hs buf True True True True (Some om) rule_name 0 (alert_ready out) = Inr (0, st') \<and>
    run_tasks 1 0 st' = Inr st'' \<and> alert_stdout st'' = out @ template_text val hs0 f \<and>
    linx_alert_get_stats st'' = (1, 0)"
proof -
  obtain a where a: "alert_ready out = \<lparr>s_alert = Some a, alert_stdout = out\<rparr>" "al_initialized a" "al_tasks a = []"
    "valid_config (al_config a)" "stdout_outputs (al_config a) = 1" "enabled_outputs (al_config a) = 1"
    "al_sent a = 0" "al_failed a = 0"
    using alert_init_ok [of "\<lparr>s_alert = None, alert_stdout = out\<rparr>"] by (auto simp: alert_ready_def)
  have "buf \<noteq> []" "length buf < 2 ^ 31" using assms(4) by (auto simp: ALERT_BUFFER_def)
  then obtain b where b: "linx_output_match_format ev hs (Some om) (Some buf) =
      Inr (int (length (template_text val hs0 f)), Some b)" "cstr_of b = template_text val hs0 f"
    using output_format_text [OF assms(1,3) output_compile_renders [OF assms(1-3)], of buf] assms(4,5) by auto
  let ?msg = "\<lparr>am_message = Some (cstr_of b), am_len = length (cstr_of b), am_config = al_config a,
    am_rule_name = rule_name, am_priority = 0\<rparr>"
  let ?st = "\<lparr>s_alert = Some (a\<lparr>al_tasks := [?msg]\<rparr>), alert_stdout = out\<rparr>"
  have s: "linx_alert_send_async ev hs buf True True True True (Some om) rule_name 0 (alert_ready out) = Inr (0, ?st)"
    using send_async_queues [OF _ a(2) b(1), of "alert_ready out" rule_name 0] a(1,3) by simp
  have "run_next_task 0 ?st = Inr (?st\<lparr>s_alert := Some (a\<lparr>al_tasks := [], al_sent := 1\<rparr>),
      alert_stdout := out @ template_text val hs0 f\<rparr>)"
    using worker_task_effect [of ?msg 0 "?st\<lparr>s_alert := Some (a\<lparr>al_tasks := []\<rparr>)\<rparr>" "a\<lparr>al_tasks := []\<rparr>"] a(4-7) b(2)
    by (simp add: run_next_task_def task_ok_def task_text_def)
  then show ?thesis using s a(8) by (simp add: linx_alert_get_stats_def)
qed

text \<open>A loaded rule set on an event that has values at all paths: nothing, or the alert of the first rule that holds.\<close>

definition alerts_as_read ::
  "event_view \<Rightarrow> hash_state \<Rightarrow> hash_state \<Rightarrow> event_env \<Rightarrow> (field_result \<Rightarrow> string) \<Rightarrow> char list \<Rightarrow> string \<Rightarrow> rule_spec list \<Rightarrow>
   linx_rule_set \<Rightarrow> bool" where
  "alerts_as_read ev hs0 hs en val buf out sps rs \<longleftrightarrow>
    (case find (\<lambda>sp. cond_holds en (sp_cond sp)) sps of
       None \<Rightarrow> linx_rule_set_match_rule (linx_alert_send_async ev hs buf True True True True) ev hs (Some rs) (alert_ready out) =
         Inr (False, alert_ready out)
     | Some sp \<Rightarrow> \<exists>st' st''.
         linx_rule_set_match_rule (linx_alert_send_async ev hs buf True True True True) ev hs (Some rs) (alert_ready out) =
           Inr (True, st') \<and> run_tasks 1 0 st' = Inr st'' \<and>
         alert_stdout st'' = out @ template_text val hs0 (sp_output sp) \<and> linx_alert_get_stats st'' = (1, 0))"

lemma loaded_rules_alert:
  assumes "list_all (good_spec hs0) sps" "event_provides ev hs0 hs en sps" "length buf = ALERT_BUFFER"
    and "\<And>sp. find (\<lambda>sp. cond_holds en (sp_cond sp)) sps = Some sp \<Longrightarrow>
      template_renders ev hs0 hs val (sp_output sp) \<and> length (template_text val hs0 (sp_output sp)) < ALERT_BUFFER - 1"
    and rs: "\<not> rs_rules_freed rs" "\<not> rs_matches_freed rs" "list_all2 (installed hs0) sps (rs_entries rs)"
  shows "alerts_as_read ev hs0 hs en val buf out sps rs"
proof -
  let ?send = "linx_alert_send_async ev hs buf True True True True"
  have m: "list_all (\<lambda>(r, m, om). \<exists>b. linx_rule_engine_match ev hs m = Inr b) (rs_entries rs)"
    using installed_match [OF rs(3) assms(2)] by blast
  have run: "linx_rule_set_match_rule ?send ev hs (Some rs) (alert_ready out) =
      (case find (\<lambda>(r, m, om). linx_rule_engine_match ev hs m = Inr True) (rs_entries rs) of
         None \<Rightarrow> Inr (False, alert_ready out)
       | Some (r, m, om) \<Rightarrow> map_sum id (\<lambda>(ret, st). (True, st)) (?send (Some om) (r_name r) 0 (alert_ready out)))"
    using rs(1,2) match_loop_find [OF m, of ?send "alert_ready out"] by (simp add: linx_rule_set_match_rule_def)
  show ?thesis
  proof (cases "find (\<lambda>sp. cond_holds en (sp_cond sp)) sps")
    case None
    then show ?thesis using run installed_match [OF rs(3) assms(2)] by (simp add: alerts_as_read_def)
  next
    case (Some sp)
    then obtain r m om where f: "find (\<lambda>(r, m, om). linx_rule_engine_match ev hs m = Inr True) (rs_entries rs) = Some (r, m, om)"
      "installed hs0 sp (r, m, om)" using installed_match [OF rs(3) assms(2)] by auto
    have "sp \<in> set sps" using Some by (auto simp: find_Some_iff)
    then have k: "known_variables hs0 (sp_output sp)" using assms(1) by (auto simp: list_all_iff good_spec_def)
    have c: "linx_output_match_compile hs0 (Some (sp_output sp)) = (0, Some om)" using f(2) by (simp add: installed_def)
    from send_then_run [OF k _ c assms(3), of ev hs val "r_name r" out] assms(4) [OF Some]
    show ?thesis using Some run f(1) by (auto simp: alerts_as_read_def)
  qed
qed

text \<open>
  C1: a rule file acts on events as it reads. Load the rules \<open>sps\<close> from a file or a directory, then present an
  event that has values at all paths: if no condition holds, nothing is raised; otherwise the first rule
  in file order whose condition holds raises one alert, and when a worker of the pool has run it, standard
  output has grown by exactly the rule's output template with each variable replaced by the event's text,
  and the counters say one sent, none failed. The chain runs through the YAML loader and getters, the
  lexer and parser of conditions, the two compilers, the matchers, the formatter and the alert tasks.
\<close>

theorem rule_file_to_alert:
  assumes "good_env le" "rule_source le path sps" "list_all (good_spec hs0) sps"
    and "event_provides ev hs0 hs en sps" "length buf = ALERT_BUFFER"
    and "\<And>sp. find (\<lambda>sp. cond_holds en (sp_cond sp)) sps = Some sp \<Longrightarrow>
      template_renders ev hs0 hs val (sp_output sp) \<and> length (template_text val hs0 (sp_output sp)) < ALERT_BUFFER - 1"
  shows "\<exists>rs hs1. linx_rule_engine_load True le path hs0 = Some (Inr (0, Some rs, hs1)) \<and>
    (case find (\<lambda>sp. cond_holds en (sp_cond sp)) sps of
       None \<Rightarrow> linx_rule_set_match_rule (linx_alert_send_async ev hs buf True True True True) ev hs (Some rs) (alert_ready out) =
         Inr (False, alert_ready out)
     | Some sp \<Rightarrow> \<exists>st' st''.
         linx_rule_set_match_rule (linx_alert_send_async ev hs buf True True True True) ev hs (Some rs) (alert_ready out) =
           Inr (True, st') \<and> run_tasks 1 0 st' = Inr st'' \<and>
         alert_stdout st'' = out @ template_text val hs0 (sp_output sp) \<and> linx_alert_get_stats st'' = (1, 0))"
proof -
  obtain rs hs1 where rs: "linx_rule_engine_load True le path hs0 = Some (Inr (0, Some rs, hs1))"
    "\<not> rs_rules_freed rs" "\<not> rs_matches_freed rs" "list_all2 (installed hs0) sps (rs_entries rs)"
    using load_rules_ok [OF assms(1-3)] by blast
  have "alerts_as_read ev hs0 hs en val buf out sps rs"
    using assms(3-6) rs(2-4) by (rule loaded_rules_alert)
  with rs(1) show ?thesis unfolding alerts_as_read_def by blast
qed

theorem rule_file_to_alert_witness:
  "\<exists>rs hs1 st' st''. linx_rule_engine_load True demo_load_env ''rules'' hm_demo_state = Some (Inr (0, Some rs, hs1)) \<and>
    linx_rule_set_match_rule
        (linx_alert_send_async demo_event hm_demo_state (replicate ALERT_BUFFER NUL) True True True True)
        demo_event hm_demo_state (Some rs) (alert_ready ''>'') = Inr (True, st') \<and>
    run_tasks 1 0 st' = Inr st'' \<and> alert_stdout st'' = ''>num=42 end'' \<and> linx_alert_get_stats st'' = (1, 0)"
proof -
  let ?val = "\<lambda>v. ''42''"
  have p: "event_provides demo_event hm_demo_state hm_demo_state demo_env [demo_spec]"
    using demo_provides by (simp add: event_provides_def demo_spec_def)
  have h: "find (\<lambda>sp. cond_holds demo_env (sp_cond sp)) [demo_spec] = Some demo_spec"
    by (simp add: demo_spec_def demo_env_def num_holds_def)
  have t: "template_text ?val hm_demo_state (sp_output demo_spec) = ''num=42 end''"
    by (simp add: demo_spec_def template_text_def demo_pieces)
  have r: "template_renders demo_event hm_demo_state hm_demo_state ?val (sp_output demo_spec)"
  proof -
    have "NUL \<notin> set demo_num_template" by code_simp
    then show ?thesis
      using demo_value(3) by (simp add: demo_spec_def template_renders_def demo_pieces renders_def NUL_def)
  qed
  have g: "list_all (good_spec hm_demo_state) [demo_spec]" using demo_load_good(3) by simp
  have "length (replicate ALERT_BUFFER NUL) = ALERT_BUFFER" by simp
  from rule_file_to_alert [OF demo_load_good(1,2) g p this, of ?val "''>''"] h t r show ?thesis
    by (auto simp: ALERT_BUFFER_def)
qed

section \<open>From an event of the engine to an alert\<close>

text \<open>Rules over the plain fields of the event record.\<close>

definition plain_rule :: "rule_spec \<Rightarrow> bool" where
  "plain_rule sp \<longleftrightarrow> set (num_paths (sp_cond sp)) \<subseteq> {''evt.num''} \<and> set (text_paths (sp_cond sp)) \<subseteq> set plain_fields \<and>
     NUL \<notin> set (sp_output sp) \<and>
     list_all (\<lambda>p. case p of Chars s \<Rightarrow> True | Var v \<Rightarrow> v \<in> set plain_fields) (pieces (sp_output sp))"

text \<open>The text of a resolved field, by its name.\<close>

definition field_val :: "event_t \<Rightarrow> field_result \<Rightarrow> string" where
  "field_val e fld = evt_text e (''evt.'' @ the (fr_field_name fld))"

lemma field_val_plain: "fields_ready hs0 \<Longrightarrow> f \<in> set plain_fields \<Longrightarrow> field_val e (resolve hs0 f) = evt_text e f"
  using resolve_plain [of hs0 f] by (cases "fr_field_name (resolve hs0 f)") (simp_all add: field_val_def)

text \<open>
  C2: the daemon from its start to an alert. After a start in which nothing fails, load rules over the plain fields of the event
  record (number, name, direction, time, outcome) from a file or a directory, and let the engine hand out events. For every
  event that the enrichment accepts, after any events before it, the turn of the loop changes nothing but the record and the
  bases when no condition holds of the event, and otherwise raises one alert for the first rule in file order whose condition
  holds of it; once a worker has run, standard output has grown by the rule's template with its variables replaced by the
  event's number, name, direction, time and outcome.
\<close>

theorem engine_event_to_alert:
  assumes "sound_start w0" "start_fields w0 = Inr (cs0, ug, hs0)"
    and "good_env le" "rule_source le path sps" "list_all (good_spec hs0) sps" "list_all plain_rule sps"
    and "linx_rule_engine_load True le path hs0 = Some (Inr (0, Some rs, hs1))"
    and "rich_run evs (zero_evt, cs0, hs1) = Inr (e, cs, hs)"
    and "linx_event_rich w h ev (e, cs, hs) = Inr (ret, e', cs', hs')" "rw_evt_addr w \<noteq> 0"
    and "evt_in_memory (rw_evt_addr w) (ev_heap (view e')) e'" "length buf = ALERT_BUFFER"
    and "\<And>sp. sp \<in> set sps \<Longrightarrow> length (template_text (field_val e') hs0 (sp_output sp)) < ALERT_BUFFER - 1"
  shows "case find (\<lambda>sp. cond_holds (evt_env e') (sp_cond sp)) sps of
      None \<Rightarrow> linx_event_loop w h ev view buf (Some rs) ((e, cs, hs), alert_ready out) = Inr ((e', cs', hs'), alert_ready out)
    | Some sp \<Rightarrow> \<exists>al al'. linx_event_loop w h ev view buf (Some rs) ((e, cs, hs), alert_ready out) = Inr ((e', cs', hs'), al) \<and>
        run_tasks 1 0 al = Inr al' \<and> linx_alert_get_stats al' = (1, 0) \<and>
        alert_stdout al' = out @ template_text (field_val e') hs0 (sp_output sp)"
proof -
  let ?v = "view e'"
  have r0: "fields_ready hs0" using start_fields_ready [OF assms(1)] assms(2) by auto
  have rs: "s_linx_hash_map hs1 = s_linx_hash_map hs0" "\<not> rs_rules_freed rs" "\<not> rs_matches_freed rs"
    "list_all2 (installed hs0) sps (rs_entries rs)"
    using load_rules_ok [OF assms(3-5)] assms(7) by auto
  have r1: "fields_ready hs1" using fields_ready_cong [OF rs(1)] r0 by simp
  note p = event_provides_fields [OF r0 r1 assms(8-11)]
  have prov: "event_provides ?v hs0 hs' (evt_env e') sps"
    using p(1,2) assms(6) by (auto simp: event_provides_def plain_rule_def list_all_iff subset_iff)
  have tr: "template_renders ?v hs0 hs' (field_val e') (sp_output sp)" if "sp \<in> set sps" for sp
  proof -
    have pl: "plain_rule sp" using assms(6) that by (simp add: list_all_iff)
    have "renders ?v hs' (field_val e') (SEGMENT_VARIABLE (resolve hs0 f))" if "f \<in> set plain_fields" for f
      using p(3) [OF that] event_texts_fit [OF assms(9,11) that] field_val_plain [OF r0 that] by (simp add: renders_def)
    then show ?thesis using pl by (auto simp: template_renders_def plain_rule_def list_all_iff split: piece.splits)
  qed
  have "alerts_as_read ?v hs0 hs' (evt_env e') (field_val e') buf out sps rs"
    by (rule loaded_rules_alert [OF assms(5) prov assms(12) _ rs(2-4)])
      (use tr assms(13) in \<open>auto simp: find_Some_iff\<close>)
  then show ?thesis using assms(9)
    by (auto simp: alerts_as_read_def linx_event_loop_def split: option.splits)
qed

theorem engine_event_to_alert_witness:
  "\<exists>cs ug hs rs hs1 e' hs' al al'. start_fields demo_start = Inr (cs, ug, hs) \<and>
    linx_rule_engine_load True demo_load_env ''rules'' hs = Some (Inr (0, Some rs, hs1)) \<and>
    linx_event_loop demo_world [] demo_openat (\<lambda>_. demo_event\<lparr>ev_heap := demo_mem\<rparr>) (replicate ALERT_BUFFER NUL) (Some rs)
      ((zero_evt, cs, hs1), alert_ready ''>'') = Inr ((e', cs, hs'), al) \<and>
    run_tasks 1 0 al = Inr al' \<and> alert_stdout al' = ''>num=515 end''"
proof -
  obtain cs ug hs where s: "start_fields demo_start = Inr (cs, ug, hs)" "fields_ready hs" "table_of cs = []" using demo_started .
  have num: "''evt.num'' \<in> set plain_fields" by (simp add: plain_fields_def)
  have gs: "list_all (good_spec hs) [demo_spec]"
  proof -
    have "known_variables hs demo_num_template"
      using resolve_plain [OF s(2) num] by (simp add: known_variables_def demo_pieces)
    then show ?thesis using demo_load_good(3) by (simp add: good_spec_def demo_spec_def)
  qed
  obtain rs hs1 where rs: "linx_rule_engine_load True demo_load_env ''rules'' hs = Some (Inr (0, Some rs, hs1))"
    using load_rules_ok [OF demo_load_good(1,2) gs] by blast
  have pl: "list_all plain_rule [demo_spec]"
  proof -
    have "NUL \<notin> set demo_num_template" by code_simp
    then show ?thesis using num by (simp add: plain_rule_def demo_spec_def demo_pieces)
  qed
  from demo_openat_rich [OF s(3), of "[]" zero_evt hs1] obtain ret e' hs' where
    r: "linx_event_rich demo_world [] demo_openat (zero_evt, cs, hs1) = Inr (ret, e', cs, hs')"
    and e: "e_num e' = 515" "e_time e' = ''t.000000005''" "e_type e' = ''openat''" "e_res e' = ''SUCCESS''" "\<not> e_failed e'"
      "e_dir e' = ''<''" by blast
  have a: "rw_evt_addr demo_world = 4096" by (simp add: demo_world_def)
  have m: "evt_in_memory (rw_evt_addr demo_world) (ev_heap ((\<lambda>_. demo_event\<lparr>ev_heap := demo_mem\<rparr>) e')) e'"
    unfolding evt_in_memory_def a using demo_mem_reads e by simp
  have t: "template_text (field_val e') hs (sp_output demo_spec) = ''num=515 end''"
  proof -
    have "show_int 515 = ''515''" by code_simp
    then show ?thesis using field_val_plain [OF s(2) num, of e'] e(1)
      by (simp add: template_text_def demo_spec_def demo_pieces evt_text_def)
  qed
  have h: "find (\<lambda>sp. cond_holds (evt_env e') (sp_cond sp)) [demo_spec] = Some demo_spec"
    by (simp add: demo_spec_def evt_env_def num_holds_def e(1))
  have z: "rich_run [] (zero_evt, cs, hs1) = Inr (zero_evt, cs, hs1)" by simp
  have b: "rw_evt_addr demo_world \<noteq> 0" using a by simp
  have "length (template_text (field_val e') hs (sp_output sp)) < ALERT_BUFFER - 1" if "sp \<in> set [demo_spec]" for sp
    using that t by (simp add: ALERT_BUFFER_def)
  from engine_event_to_alert [OF demo_start_sound s(1) demo_load_good(1,2) gs pl rs z r b m _ this, of "replicate ALERT_BUFFER NUL" "''>''"] h t s(1) rs
  show ?thesis by auto
qed

end
